(* ===== verification/Prelude.thy ===== *)
theory Prelude
  imports
    "HOL-Library.Word"
    "HOL-Library.Char_ord"
    "HOL-Library.List_Lexorder"
    "HOL-Library.Signed_Division"
begin

unbundle bit_operations_syntax

text \<open>
  Shared vocabulary of the development: the machine integers of the crate (\<open>u8\<close>, \<open>u32\<close>,
  \<open>u64\<close> as words, \<open>i64\<close> as a type of its own with the signed order), little-endian
  encodings, the crate-wide error type of \<^verbatim>\<open>src/src/error.rs\<close> with the \<open>?\<close> operator,
  the half-open binary search that the sources write out eleven times, and the list lemmas
  on slices and fixed-width pieces that the component proofs share.

  The target modelled is a 64-bit little-endian machine built with the release profile:
  \<open>usize\<close> has 64 bits and unchecked arithmetic wraps.
\<close>

named_theorems codec_simps \<open>lengths and round trips of encoders and decoders\<close>
named_theorems res_simps \<open>inversion of a successful fallible computation\<close>

section \<open>Machine integers\<close>

type_synonym u8 = "8 word"
type_synonym u16 = "16 word"
type_synonym u32 = "32 word"
type_synonym u64 = "64 word"

datatype i64 = I64 (bits: u64)

definition ival :: "i64 \<Rightarrow> int" where
  "ival x = sint (bits x)"

definition i64_of_int :: "int \<Rightarrow> i64" where
  "i64_of_int k = I64 (word_of_int k)"

lemma ival_inject [simp]: "ival x = ival y \<longleftrightarrow> x = y"
  by (cases x; cases y) (auto simp: ival_def intro: signed_word_eqI)

lemma ival_bounds: "- (2 ^ 63) \<le> ival x \<and> ival x < 2 ^ 63"
  using sint_range_size [of "bits x"] by (simp add: ival_def word_size)

lemma ival_of_int: "- (2 ^ 63) \<le> k \<Longrightarrow> k < 2 ^ 63 \<Longrightarrow> ival (i64_of_int k) = k"
  by (simp add: ival_def i64_of_int_def sint_word_ariths signed_take_bit_int_eq_self
      signed_of_int)

text \<open>The comparison operators of \<open>i64\<close> compare the two's complement values.\<close>

instantiation i64 :: linorder
begin

definition less_eq_i64 :: "i64 \<Rightarrow> i64 \<Rightarrow> bool" where
  "x \<le> y \<longleftrightarrow> ival x \<le> ival y"

definition less_i64 :: "i64 \<Rightarrow> i64 \<Rightarrow> bool" where
  "x < y \<longleftrightarrow> ival x < ival y"

instance
  by standard (auto simp: less_eq_i64_def less_i64_def)

end

lemmas i64_ord = less_eq_i64_def less_i64_def

definition i64_max :: i64 where
  "i64_max = i64_of_int (2 ^ 63 - 1)"

definition i64_min :: i64 where
  "i64_min = i64_of_int (- (2 ^ 63))"

lemma ival_i64_max [simp]: "ival i64_max = 2 ^ 63 - 1"
  unfolding i64_max_def by (rule ival_of_int) simp_all

lemma ival_i64_min [simp]: "ival i64_min = - (2 ^ 63)"
  unfolding i64_min_def by (rule ival_of_int) simp_all

lemma i64_le_max [simp]: "x \<le> i64_max"
  using ival_bounds [of x] by (simp add: less_eq_i64_def)

lemma i64_min_le [simp]: "i64_min \<le> x"
  using ival_bounds [of x] by (simp add: less_eq_i64_def)

text \<open>\<open>i64::saturating_sub\<close> and \<open>saturating_add\<close> clamp to the representable range.\<close>

definition saturate_i64 :: "int \<Rightarrow> i64" where
  "saturate_i64 k =
     (if k > 2 ^ 63 - 1 then i64_max else if k < - (2 ^ 63) then i64_min else i64_of_int k)"

definition i64_saturating_sub :: "i64 \<Rightarrow> i64 \<Rightarrow> i64" where
  "i64_saturating_sub a b = saturate_i64 (ival a - ival b)"

definition i64_saturating_add :: "i64 \<Rightarrow> i64 \<Rightarrow> i64" where
  "i64_saturating_add a b = saturate_i64 (ival a + ival b)"

text \<open>Division of \<open>i64\<close> truncates towards zero.\<close>

definition i64_div :: "i64 \<Rightarrow> i64 \<Rightarrow> i64" where
  "i64_div a b = i64_of_int (ival a sdiv ival b)"

lemma ival_saturate_i64: "ival (saturate_i64 k) = max (- (2 ^ 63)) (min (2 ^ 63 - 1) k)"
  by (auto simp: saturate_i64_def ival_of_int)

text \<open>\<open>u64::checked_add\<close>, \<open>checked_mul\<close> and \<open>u64::saturating_add\<close>.\<close>

definition checked_add :: "'a::len word \<Rightarrow> 'a word \<Rightarrow> 'a word option" where
  "checked_add a b = (if unat a + unat b < 2 ^ LENGTH('a) then Some (a + b) else None)"

definition checked_mul :: "'a::len word \<Rightarrow> 'a word \<Rightarrow> 'a word option" where
  "checked_mul a b = (if unat a * unat b < 2 ^ LENGTH('a) then Some (a * b) else None)"

definition saturating_add :: "'a::len word \<Rightarrow> 'a word \<Rightarrow> 'a word" where
  "saturating_add a b = (if unat a + unat b < 2 ^ LENGTH('a) then a + b else - 1)"

definition saturating_mul :: "'a::len word \<Rightarrow> 'a word \<Rightarrow> 'a word" where
  "saturating_mul a b = (if unat a * unat b < 2 ^ LENGTH('a) then a * b else - 1)"

lemma checked_add_Some: "checked_add a b = Some c \<Longrightarrow> unat c = unat a + unat b"
  by (auto simp: checked_add_def unat_word_ariths split: if_splits)

lemma unat_saturating_add:
  "unat (saturating_add a (b :: 'a::len word)) = min (unat a + unat b) (2 ^ LENGTH('a) - 1)"
  by (auto simp: saturating_add_def unat_word_ariths
      unsigned_minus_1_eq_mask mask_eq_exp_minus_1)

section \<open>Errors and the question-mark operator\<close>

text \<open>
  \<open>FastKError\<close> of \<^verbatim>\<open>src/src/error.rs\<close>. The \<open>std::io::Error\<close> payload is its
  \<open>ErrorKind\<close> as far as the code looks at it; the SQLite and serde payloads are their
  display texts. Messages keep the fixed text of the source's \<open>format!\<close> strings and drop
  the interpolated arguments, which no code inspects. \<open>Panic\<close> is not a variant of the enum:
  it stands for a panic of the Rust program (an index or slice out of range), so that every
  abnormal exit is a value of the model; \<open>code()\<close> is defined on the enum only.
\<close>

datatype io_kind = UnexpectedEof | NotFoundKind | Interrupted | InvalidInputKind | OtherKind

datatype FastKError =
    Io io_kind
  | Sqlite string
  | Serde string
  | InvalidInput string
  | InvalidData string
  | NotFound string
  | Panic string

type_synonym 'a res = "FastKError + 'a"

fun error_code :: "FastKError \<Rightarrow> string option" where
  "error_code (Io _) = Some ''IO''"
| "error_code (Sqlite _) = Some ''SQLITE''"
| "error_code (Serde _) = Some ''JSON''"
| "error_code (InvalidInput _) = Some ''INVALID_INPUT''"
| "error_code (InvalidData _) = Some ''INVALID_DATA''"
| "error_code (NotFound _) = Some ''NOT_FOUND''"
| "error_code (Panic _) = None"

text \<open>\<open>and_then m f\<close> is \<open>f(m?)\<close>: an error returns early.\<close>

fun and_then :: "'e + 'a \<Rightarrow> ('a \<Rightarrow> 'e + 'b) \<Rightarrow> 'e + 'b" where
  "and_then (Inl e) f = Inl e"
| "and_then (Inr x) f = f x"

lemma and_then_cong [fundef_cong]:
  "m = m' \<Longrightarrow> (\<And>x. m' = Inr x \<Longrightarrow> f x = f' x) \<Longrightarrow> and_then m f = and_then m' f'"
  by (cases m') auto

lemma and_then_Inr [res_simps]: "and_then m f = Inr y \<longleftrightarrow> (\<exists>x. m = Inr x \<and> f x = Inr y)"
  by (cases m) auto

lemma and_then_assoc: "and_then (and_then m f) g = and_then m (\<lambda>x. and_then (f x) g)"
  by (cases m) auto

text \<open>\<open>From<std::io::Error>\<close>: an I/O error passes through \<open>?\<close> as \<open>Io\<close>.\<close>

fun io_res :: "io_kind + 'a \<Rightarrow> 'a res" where
  "io_res (Inl e) = Inl (Io e)"
| "io_res (Inr x) = Inr x"

text \<open>\<open>ensure c e\<close> is \<open>if !c { return Err(e) }\<close>.\<close>

definition ensure :: "bool \<Rightarrow> 'e \<Rightarrow> 'e + unit" where
  "ensure c e = (if c then Inr () else Inl e)"

lemma ensure_Inr [res_simps, simp]: "ensure c e = Inr u \<longleftrightarrow> c"
  by (simp add: ensure_def)

lemma ensure_True [simp]: "ensure True e = Inr ()"
  by (simp add: ensure_def)

lemma ensure_False [simp]: "ensure False e = Inl e"
  by (simp add: ensure_def)

text \<open>\<open>option.ok_or(e)\<close>, and \<open>iter.map(f).collect::<Result<Vec<_>>>()\<close>.\<close>

definition ok_or :: "'a option \<Rightarrow> 'e \<Rightarrow> 'e + 'a" where
  "ok_or x e = (case x of None \<Rightarrow> Inl e | Some v \<Rightarrow> Inr v)"

lemma ok_or_Inr [res_simps, simp]: "ok_or x e = Inr v \<longleftrightarrow> x = Some v"
  by (simp add: ok_or_def split: option.splits)

lemma ok_or_simps [simp]: "ok_or None e = Inl e" "ok_or (Some v) e = Inr v"
  by (simp_all add: ok_or_def)

fun collect_res :: "('a \<Rightarrow> 'e + 'b) \<Rightarrow> 'a list \<Rightarrow> 'e + 'b list" where
  "collect_res f [] = Inr []"
| "collect_res f (x # xs) = and_then (f x) (\<lambda>y. and_then (collect_res f xs) (\<lambda>ys. Inr (y # ys)))"

lemma collect_res_map_Inr: "(\<And>x. x \<in> set xs \<Longrightarrow> f x = Inr (g x)) \<Longrightarrow> collect_res f xs = Inr (map g xs)"
  by (induction xs) auto

lemma collect_res_length [res_simps]: "collect_res f xs = Inr ys \<Longrightarrow> length ys = length xs"
  by (induction xs arbitrary: ys) (auto simp: res_simps)

section \<open>Little-endian words\<close>

text \<open>\<open>to_le_bytes\<close> and \<open>from_le_bytes\<close> of an unsigned word of \<open>n\<close> bytes.\<close>

definition le_bytes :: "nat \<Rightarrow> 'a::len word \<Rightarrow> u8 list" where
  "le_bytes n w = map (\<lambda>i. ucast (drop_bit (8 * i) w)) [0..<n]"

fun le_word :: "u8 list \<Rightarrow> 'a::len word" where
  "le_word [] = 0"
| "le_word (b # bs) = ucast b OR push_bit 8 (le_word bs)"

lemma length_le_bytes [simp, codec_simps]: "length (le_bytes n w) = n"
  by (simp add: le_bytes_def)

lemma bit_le_word:
  "bit (le_word bs :: 'a::len word) i \<longleftrightarrow>
     i < LENGTH('a) \<and> i div 8 < length bs \<and> bit (bs ! (i div 8)) (i mod 8)"
proof (induction bs arbitrary: i)
  case Nil
  then show ?case by simp
next
  case (Cons b bs)
  show ?case
  proof (cases "i < 8")
    case True
    then show ?thesis by (auto simp: bit_simps)
  next
    case False
    then obtain j where j: "i = j + 8" by (metis add.commute le_Suc_ex not_less)
    have "bit (ucast b :: 'a word) (j + 8) = False"
      by (auto simp: bit_simps dest: bit_imp_le_length)
    then show ?thesis
      by (auto simp: j bit_simps Cons.IH div_add_self2 dest: bit_imp_le_length)
  qed
qed

lemma le_word_bytes [simp, codec_simps]:
  assumes "LENGTH('a::len) = 8 * n"
  shows "le_word (le_bytes n (w :: 'a word)) = w"
proof (rule bit_word_eqI)
  fix i assume i: "i < LENGTH('a)"
  then have "i div 8 < n" using assms by auto
  moreover have "8 * (i div 8) + i mod 8 = i" by simp
  ultimately show "bit (le_word (le_bytes n w) :: 'a word) i = bit w i"
    using i by (auto simp: bit_le_word le_bytes_def bit_simps)
qed

lemma le_bytes_word [codec_simps]:
  assumes "LENGTH('a::len) = 8 * n" and "length bs = n"
  shows "le_bytes n (le_word bs :: 'a word) = bs"
proof (rule nth_equalityI)
  show "length (le_bytes n (le_word bs :: 'a word)) = length bs" using assms by simp
next
  fix i assume "i < length (le_bytes n (le_word bs :: 'a word))"
  then have i: "i < n" by simp
  show "le_bytes n (le_word bs :: 'a word) ! i = bs ! i"
  proof (rule bit_word_eqI)
    fix j :: nat assume j: "j < LENGTH(8)"
    have "(8 * i + j) div 8 = i" "(8 * i + j) mod 8 = j" using j by auto
    moreover have "8 * i + j < LENGTH('a)" using i j assms by simp
    ultimately show "bit (le_bytes n (le_word bs :: 'a word) ! i) j = bit (bs ! i) j"
      using i j assms by (auto simp: le_bytes_def bit_simps bit_le_word)
  qed
qed

text \<open>\<open>i64::to_le_bytes\<close> and \<open>i64::from_le_bytes\<close>.\<close>

definition i64_le_bytes :: "i64 \<Rightarrow> u8 list" where
  "i64_le_bytes x = le_bytes 8 (bits x)"

definition i64_of_le_bytes :: "u8 list \<Rightarrow> i64" where
  "i64_of_le_bytes bs = I64 (le_word bs)"

lemma i64_le_codec [simp, codec_simps]:
  "length (i64_le_bytes x) = 8"
  "i64_of_le_bytes (i64_le_bytes x) = x"
  "length bs = 8 \<Longrightarrow> i64_le_bytes (i64_of_le_bytes bs) = bs"
  by (simp_all add: i64_le_bytes_def i64_of_le_bytes_def le_bytes_word)

section \<open>Strings as UTF-8 bytes\<close>

text \<open>
  A Rust \<open>String\<close> is its UTF-8 byte sequence; a \<open>string\<close> of the model is that sequence with
  one \<open>char\<close> per byte, so that \<open>len\<close>, byte comparison and concatenation agree.
\<close>

definition byte_of_char :: "char \<Rightarrow> u8" where
  "byte_of_char c = word_of_nat (of_char c)"

definition char_of_byte :: "u8 \<Rightarrow> char" where
  "char_of_byte b = char_of (unat b)"

definition as_bytes :: "string \<Rightarrow> u8 list" where
  "as_bytes s = map byte_of_char s"

definition string_of_bytes :: "u8 list \<Rightarrow> string" where
  "string_of_bytes bs = map char_of_byte bs"

lemma char_of_byte_of_char [simp]: "char_of_byte (byte_of_char c) = c"
proof -
  have "(of_char c :: nat) < 2 ^ 8" by simp
  then have "unat (byte_of_char c) = of_char c"
    unfolding byte_of_char_def by (simp add: unsigned_of_nat take_bit_nat_eq_self)
  then show ?thesis by (simp add: char_of_byte_def)
qed

lemma as_bytes_codec [simp, codec_simps]:
  "length (as_bytes s) = length s"
  "string_of_bytes (as_bytes s) = s"
  by (simp_all add: as_bytes_def string_of_bytes_def comp_def)

text \<open>\<open>String::from_utf8\<close> accepts exactly the well-formed byte sequences (Unicode table 3-7).\<close>

definition utf8_cont :: "nat \<Rightarrow> bool" where
  "utf8_cont b \<longleftrightarrow> 128 \<le> b \<and> b \<le> 191"

fun utf8_wf :: "nat list \<Rightarrow> bool" where
  "utf8_wf [] = True"
| "utf8_wf (a # r) =
     (if a < 128 then utf8_wf r
      else if 194 \<le> a \<and> a \<le> 223 then
        (case r of b # r' \<Rightarrow> utf8_cont b \<and> utf8_wf r' | _ \<Rightarrow> False)
      else if 224 \<le> a \<and> a \<le> 239 then
        (case r of b # c # r' \<Rightarrow>
           utf8_cont b \<and> (a = 224 \<longrightarrow> 160 \<le> b) \<and> (a = 237 \<longrightarrow> b \<le> 159) \<and> utf8_cont c \<and> utf8_wf r'
         | _ \<Rightarrow> False)
      else if 240 \<le> a \<and> a \<le> 244 then
        (case r of b # c # d # r' \<Rightarrow>
           utf8_cont b \<and> (a = 240 \<longrightarrow> 144 \<le> b) \<and> (a = 244 \<longrightarrow> b \<le> 143)
           \<and> utf8_cont c \<and> utf8_cont d \<and> utf8_wf r'
         | _ \<Rightarrow> False)
      else False)"

definition valid_utf8 :: "string \<Rightarrow> bool" where
  "valid_utf8 s = utf8_wf (map of_char s)"

definition from_utf8 :: "u8 list \<Rightarrow> string option" where
  "from_utf8 bs = (let s = string_of_bytes bs in if valid_utf8 s then Some s else None)"

lemma from_utf8_as_bytes [simp, codec_simps]: "valid_utf8 s \<Longrightarrow> from_utf8 (as_bytes s) = Some s"
  by (simp add: from_utf8_def)

text \<open>\<open>s.trim().is_empty()\<close>: every code point of the string has the White\_Space property.\<close>

fun white_space :: "nat list \<Rightarrow> bool" where
  "white_space [] = True"
| "white_space (a # r) =
     (if 9 \<le> a \<and> a \<le> 13 \<or> a = 32 then white_space r
      else if a = 194 then (case r of b # r' \<Rightarrow> (b = 133 \<or> b = 160) \<and> white_space r' | _ \<Rightarrow> False)
      else if a = 225 then
        (case r of b # c # r' \<Rightarrow> b = 154 \<and> c = 128 \<and> white_space r' | _ \<Rightarrow> False)
      else if a = 226 then
        (case r of b # c # r' \<Rightarrow>
           (b = 128 \<and> (128 \<le> c \<and> c \<le> 138 \<or> c = 168 \<or> c = 169 \<or> c = 175) \<or> b = 129 \<and> c = 159)
           \<and> white_space r'
         | _ \<Rightarrow> False)
      else if a = 227 then
        (case r of b # c # r' \<Rightarrow> b = 128 \<and> c = 128 \<and> white_space r' | _ \<Rightarrow> False)
      else False)"

definition is_blank :: "string \<Rightarrow> bool" where
  "is_blank s = white_space (map of_char s)"

section \<open>Binary search\<close>

text \<open>
  The loop \<open>while left < right { let mid = left + (right - left) / 2; if p(mid) { left = mid + 1 }
  else { right = mid } }\<close>, which the sources repeat for every bound they compute. The indices
  never exceed \<open>right\<close>, so the \<open>usize\<close>/\<open>u64\<close> arithmetic on them cannot wrap and natural numbers
  are exact. In \<open>bsearch_res\<close> the probe reads a file and may fail.
\<close>

function bsearch :: "(nat \<Rightarrow> bool) \<Rightarrow> nat \<Rightarrow> nat \<Rightarrow> nat" where
  "bsearch p left right =
     (if left < right then
        let mid = left + (right - left) div 2 in
        if p mid then bsearch p (mid + 1) right else bsearch p left mid
      else left)"
  by pat_completeness auto
termination
  by (relation "measure (\<lambda>(p, l, r). r - l)") auto

declare bsearch.simps [simp del]

function bsearch_res :: "(nat \<Rightarrow> 'e + bool) \<Rightarrow> nat \<Rightarrow> nat \<Rightarrow> 'e + nat" where
  "bsearch_res p left right =
     (if left < right then
        let mid = left + (right - left) div 2 in
        and_then (p mid) (\<lambda>c. if c then bsearch_res p (mid + 1) right else bsearch_res p left mid)
      else Inr left)"
  by pat_completeness auto
termination
  by (relation "measure (\<lambda>(p, l, r). r - l)") auto

declare bsearch_res.simps [simp del]

text \<open>
  A predicate is partitioned on an interval if it holds on a prefix of it: exactly what makes
  the search return the boundary. \<open>is_boundary\<close> describes that boundary.
\<close>

definition partitioned :: "(nat \<Rightarrow> bool) \<Rightarrow> nat \<Rightarrow> nat \<Rightarrow> bool" where
  "partitioned p l r \<longleftrightarrow> (\<forall>i j. l \<le> i \<and> i \<le> j \<and> j < r \<and> p j \<longrightarrow> p i)"

definition is_boundary :: "(nat \<Rightarrow> bool) \<Rightarrow> nat \<Rightarrow> nat \<Rightarrow> nat \<Rightarrow> bool" where
  "is_boundary p l r k \<longleftrightarrow>
     l \<le> k \<and> k \<le> r \<and> (\<forall>i. l \<le> i \<and> i < k \<longrightarrow> p i) \<and> (\<forall>i. k \<le> i \<and> i < r \<longrightarrow> \<not> p i)"

lemma partitioned_sub: "partitioned p l r \<Longrightarrow> l \<le> l' \<Longrightarrow> r' \<le> r \<Longrightarrow> partitioned p l' r'"
  unfolding partitioned_def by (meson order.strict_trans2 order.trans)

lemma is_boundary_unique: "is_boundary p l r k \<Longrightarrow> is_boundary p l r k' \<Longrightarrow> k = k'"
  unfolding is_boundary_def by (metis linorder_not_less nle_le order_le_less_trans order_less_le_trans)

lemma bsearch_stop [simp]: "right \<le> left \<Longrightarrow> bsearch p left right = left"
  by (simp add: bsearch.simps [of p left right])

lemma bsearch_range: "left \<le> right \<Longrightarrow> left \<le> bsearch p left right \<and> bsearch p left right \<le> right"
proof (induction p left right rule: bsearch.induct)
  case (1 p l r)
  let ?m = "l + (r - l) div 2"
  show ?case
  proof (cases "l < r")
    case True
    then have "?m < r" by auto
    with True "1.IH" have "(p ?m \<longrightarrow> ?m + 1 \<le> bsearch p (?m + 1) r \<and> bsearch p (?m + 1) r \<le> r)
        \<and> (\<not> p ?m \<longrightarrow> l \<le> bsearch p l ?m \<and> bsearch p l ?m \<le> ?m)" by auto
    with True \<open>?m < r\<close> show ?thesis by (auto simp: bsearch.simps [of p l r] Let_def)
  next
    case False
    with "1.prems" show ?thesis by simp
  qed
qed

lemma bsearch_boundary:
  "left \<le> right \<Longrightarrow> partitioned p left right \<Longrightarrow> is_boundary p left right (bsearch p left right)"
proof (induction p left right rule: bsearch.induct)
  case (1 p l r)
  let ?m = "l + (r - l) div 2"
  show ?case
  proof (cases "l < r")
    case True
    then have m: "l \<le> ?m" "?m < r" by auto
    show ?thesis
    proof (cases "p ?m")
      case True
      have "partitioned p (?m + 1) r" using "1.prems" m by (auto intro: partitioned_sub)
      with "1.IH"(1) [OF \<open>l < r\<close> refl True] m
      have "is_boundary p (?m + 1) r (bsearch p (?m + 1) r)" by simp
      moreover have "\<forall>i. l \<le> i \<and> i \<le> ?m \<longrightarrow> p i"
        using "1.prems" True m by (auto simp: partitioned_def)
      ultimately have "is_boundary p l r (bsearch p (?m + 1) r)"
        using m unfolding is_boundary_def by (metis Suc_eq_plus1 le_SucI not_less_eq_eq order.trans)
      with True \<open>l < r\<close> show ?thesis by (simp add: bsearch.simps [of p l r] Let_def)
    next
      case False
      have "partitioned p l ?m" using "1.prems" m by (auto intro: partitioned_sub)
      with "1.IH"(2) [OF \<open>l < r\<close> refl False] m
      have "is_boundary p l ?m (bsearch p l ?m)" by simp
      moreover have "\<forall>i. ?m \<le> i \<and> i < r \<longrightarrow> \<not> p i"
        using "1.prems"(2) False m(1) unfolding partitioned_def by blast
      ultimately have "is_boundary p l r (bsearch p l ?m)" using m
        unfolding is_boundary_def by (meson less_imp_le not_less order.trans)
      with False \<open>l < r\<close> show ?thesis by (simp add: bsearch.simps [of p l r] Let_def)
    qed
  next
    case False
    with "1.prems" show ?thesis by (auto simp: bsearch.simps [of p l r] is_boundary_def)
  qed
qed

text \<open>Where no probe fails, the fallible search is the pure one.\<close>

lemma bsearch_res_pure:
  "(\<And>i. left \<le> i \<Longrightarrow> i < right \<Longrightarrow> p i = Inr (q i)) \<Longrightarrow> bsearch_res p left right = Inr (bsearch q left right)"
proof (induction p left right rule: bsearch_res.induct)
  case (1 p l r)
  let ?m = "l + (r - l) div 2"
  show ?case
  proof (cases "l < r")
    case True
    then have "p ?m = Inr (q ?m)" using "1.prems" by auto
    then show ?thesis using True "1.IH" [OF True refl \<open>p ?m = Inr (q ?m)\<close>] "1.prems"
      by (auto simp: bsearch_res.simps [of p l r] bsearch.simps [of q l r] Let_def)
  next
    case False
    then show ?thesis by (simp add: bsearch_res.simps [of p l r] bsearch.simps [of q l r])
  qed
qed

section \<open>Slices, fixed-width pieces and sorted lists\<close>

text \<open>\<open>records[lo..hi]\<close>: the rows between a lower and an upper bound are the rows of the range.\<close>

definition slice_of :: "nat \<Rightarrow> nat \<Rightarrow> 'a list \<Rightarrow> 'a list" where
  "slice_of lo hi xs = drop lo (take hi xs)"

lemma length_slice [simp]: "length (slice_of lo hi xs) = min hi (length xs) - lo"
  by (simp add: slice_of_def)

lemma nth_slice [simp]: "i < hi - lo \<Longrightarrow> hi \<le> length xs \<Longrightarrow> slice_of lo hi xs ! i = xs ! (lo + i)"
  by (simp add: slice_of_def)

lemma slice_all [simp]: "length xs \<le> hi \<Longrightarrow> slice_of 0 hi xs = xs"
  by (simp add: slice_of_def)

lemma slice_empty [simp]: "hi \<le> lo \<Longrightarrow> slice_of lo hi xs = []"
  by (simp add: slice_of_def)

lemma set_slice: "set (slice_of lo hi xs) = {xs ! i |i. lo \<le> i \<and> i < hi \<and> i < length xs}" (is "?L = ?R")
proof (rule set_eqI, rule iffI)
  fix x assume "x \<in> ?L"
  then obtain i where i: "i < length (slice_of lo hi xs)" and x: "x = slice_of lo hi xs ! i"
    by (metis in_set_conv_nth)
  from i have "lo + i < hi" "lo + i < length xs" by auto
  moreover from this x have "x = xs ! (lo + i)" by (simp add: slice_of_def)
  ultimately show "x \<in> ?R" using le_add1 [of lo i] by blast
next
  fix x assume "x \<in> ?R"
  then obtain i where i: "lo \<le> i" "i < hi" "i < length xs" and x: "x = xs ! i" by blast
  then have "i - lo < length (slice_of lo hi xs)" by simp
  moreover have "slice_of lo hi xs ! (i - lo) = x" using i x by (simp add: slice_of_def)
  ultimately show "x \<in> ?L" using nth_mem by blast
qed

lemma slice_slice: "slice_of a b (slice_of lo hi xs) = slice_of (lo + a) (min (lo + b) hi) xs"
  by (simp add: slice_of_def take_drop add.commute min.commute)

lemma slice_append:
  "a \<le> b \<Longrightarrow> b \<le> c \<Longrightarrow> slice_of a b xs @ slice_of b c xs = slice_of a c xs"
  "a \<le> b \<Longrightarrow> b \<le> c \<Longrightarrow> slice_of a b xs @ slice_of b c xs @ ys = slice_of a c xs @ ys"
proof -
  have *: "slice_of a b xs @ slice_of b c xs = slice_of a c xs" if ab: "a \<le> b" and bc: "b \<le> c"
  proof -
    have "take b (take c xs) = take b xs" using bc by (simp add: min_absorb1)
    then have "take c xs = take b xs @ drop b (take c xs)" by (metis append_take_drop_id)
    then have "drop a (take c xs) = drop a (take b xs @ drop b (take c xs))" by (rule arg_cong)
    also have "\<dots> = drop a (take b xs) @ drop b (take c xs)"
      using ab by (cases "b \<le> length xs") simp_all
    finally show ?thesis by (simp add: slice_of_def)
  qed
  then show "a \<le> b \<Longrightarrow> b \<le> c \<Longrightarrow> slice_of a b xs @ slice_of b c xs = slice_of a c xs"
    and "a \<le> b \<Longrightarrow> b \<le> c \<Longrightarrow> slice_of a b xs @ slice_of b c xs @ ys = slice_of a c xs @ ys"
    by (simp_all flip: append_assoc)
qed

lemma slice_single: "i < length xs \<Longrightarrow> [xs ! i] = slice_of i (Suc i) xs"
  by (simp add: slice_of_def take_Suc_conv_app_nth)

lemma filter_eq_slice:
  "(\<And>i. i < length xs \<Longrightarrow> P (xs ! i) \<longleftrightarrow> lo \<le> i \<and> i < hi) \<Longrightarrow> filter P xs = slice_of lo hi xs"
proof (induction xs arbitrary: lo hi)
  case Nil
  then show ?case by (simp add: slice_of_def)
next
  case (Cons x xs)
  have "filter P xs = slice_of (lo - 1) (hi - 1) xs"
  proof (rule Cons.IH)
    fix i assume "i < length xs"
    then show "P (xs ! i) \<longleftrightarrow> lo - 1 \<le> i \<and> i < hi - 1"
      using Cons.prems [of "Suc i"] by auto
  qed
  then show ?case using Cons.prems [of 0]
    by (cases lo; cases hi) (auto simp: slice_of_def)
qed

text \<open>\<open>chunks_exact(n)\<close> and \<open>chunks(n)\<close> of slices; both panic for \<open>n = 0\<close>, which no caller passes.\<close>

function chunks_exact :: "nat \<Rightarrow> 'a list \<Rightarrow> 'a list list" where
  "chunks_exact n xs = (if n = 0 \<or> length xs < n then [] else take n xs # chunks_exact n (drop n xs))"
  by pat_completeness auto
termination
  by (relation "measure (\<lambda>(n, xs). length xs)") auto

declare chunks_exact.simps [simp del]

lemma chunks_exact_concat [codec_simps]:
  "0 < n \<Longrightarrow> (\<And>x. x \<in> set xs \<Longrightarrow> length (f x) = n) \<Longrightarrow> chunks_exact n (concat (map f xs)) = map f xs"
  by (induction xs) (simp_all add: chunks_exact.simps [of n])

function chunks :: "nat \<Rightarrow> 'a list \<Rightarrow> 'a list list" where
  "chunks n xs = (if n = 0 \<or> xs = [] then [] else take n xs # chunks n (drop n xs))"
  by pat_completeness auto
termination
  by (relation "measure (\<lambda>(n, xs). length xs)") auto

declare chunks.simps [simp del]

lemma length_concat_map_const [codec_simps]:
  "(\<And>x. x \<in> set xs \<Longrightarrow> length (f x) = n) \<Longrightarrow> length (concat (map f xs)) = n * length xs"
  by (induction xs) auto

lemma slice_concat_map [codec_simps]:
  assumes "\<And>x. x \<in> set xs \<Longrightarrow> length (f x) = n" and "lo \<le> hi" and "hi \<le> length xs"
  shows "slice_of (n * lo) (n * hi) (concat (map f xs)) = concat (map f (slice_of lo hi xs))"
proof -
  have pre: "length (concat (map f (take k xs))) = n * k" if "k \<le> length xs" for k
  proof -
    have "length (concat (map f (take k xs))) = n * length (take k xs)"
      by (rule length_concat_map_const) (meson assms(1) in_set_takeD)
    with that show ?thesis by simp
  qed
  have "concat (map f xs) = concat (map f (take hi xs)) @ concat (map f (drop hi xs))"
    by (metis append_take_drop_id concat_append map_append)
  moreover have "concat (map f (take hi xs)) = concat (map f (take lo xs)) @ concat (map f (slice_of lo hi xs))"
    using assms(2) unfolding slice_of_def by (metis append_take_drop_id concat_append map_append min.absorb1 take_take)
  ultimately show ?thesis
    using pre [of lo] pre [of hi] assms by (simp add: slice_of_def)
qed

text \<open>\<open>slice.partition_point(p)\<close>; for a slice that is not partitioned its result is unspecified.\<close>

definition partition_point :: "('a \<Rightarrow> bool) \<Rightarrow> 'a list \<Rightarrow> nat" where
  "partition_point p xs = length (takeWhile p xs)"

lemma partition_point_le [simp]: "partition_point p xs \<le> length xs"
  by (simp add: partition_point_def length_takeWhile_le)

lemma partition_point_boundary:
  assumes "partitioned (\<lambda>i. p (xs ! i)) 0 (length xs)"
  shows "is_boundary (\<lambda>i. p (xs ! i)) 0 (length xs) (partition_point p xs)"
proof -
  let ?k = "partition_point p xs"
  have "p (xs ! i)" if "i < ?k" for i
    using that unfolding partition_point_def
    by (metis nth_mem set_takeWhileD takeWhile_nth)
  moreover have "\<not> p (xs ! i)" if "?k \<le> i" "i < length xs" for i
  proof
    assume "p (xs ! i)"
    then have "p (xs ! ?k)" using assms that by (auto simp: partitioned_def)
    moreover have "?k < length xs" using that by simp
    ultimately show False unfolding partition_point_def by (metis nth_length_takeWhile)
  qed
  ultimately show ?thesis by (auto simp: is_boundary_def)
qed

text \<open>Timestamps in order: the order a chunk keeps its rows in.\<close>

lemma sorted_partitioned_less:
  fixes xs :: "'a::linorder list"
  assumes "sorted xs"
  shows "partitioned (\<lambda>i. xs ! i < t) 0 (length xs)" and "partitioned (\<lambda>i. xs ! i \<le> t) 0 (length xs)"
  using assms unfolding partitioned_def
  by (meson order.strict_trans1 order.trans sorted_nth_mono)+

lemma sorted_dedup_unique:
  fixes xs :: "'a::linorder list"
  assumes "sorted xs" "distinct xs" "set xs = A"
  shows "xs = sorted_list_of_set A"
  using assms sorted_list_of_set.idem_if_sorted_distinct [of xs] by simp

end
