(* ===== verification/Metrics.thy ===== *)
theory Metrics
  imports Prelude "HOL-Library.Multiset"
begin

text \<open>
  The runtime counters (\<^verbatim>\<open>src/src/metrics.rs\<close>). The 64-bit atomic counters are a function from their names; an
  atomic addition is one step, and wraps. The counters do not depend on the order in which
  threads record, and below the level of a counter recording changes nothing.
\<close>

datatype MetricsLevel = Off | Basic | Detailed

definition metrics_level_from_u8 :: "u8 \<Rightarrow> MetricsLevel" where
  "metrics_level_from_u8 n = (if n = 0 then Off else if n = 2 then Detailed else Basic)"

fun metrics_level_as_u8 :: "MetricsLevel \<Rightarrow> u8" where
  "metrics_level_as_u8 Off = 0"
| "metrics_level_as_u8 Basic = 1"
| "metrics_level_as_u8 Detailed = 2"

fun metrics_level_as_str :: "MetricsLevel \<Rightarrow> string" where
  "metrics_level_as_str Off = ''off''"
| "metrics_level_as_str Basic = ''basic''"
| "metrics_level_as_str Detailed = ''detailed''"

definition metrics_level_default :: MetricsLevel where "metrics_level_default = Basic"

datatype Counter =
    M_bytes_read
  | M_logical_bytes_written
  | M_chunk_header_cache_hits
  | M_chunk_header_cache_misses
  | M_chunk_file_cache_hits
  | M_chunk_file_cache_misses
  | M_sidecar_cache_hits
  | M_sidecar_cache_misses
  | M_manifest_cache_hits
  | M_manifest_cache_misses
  | M_manifest_load_ns
  | M_manifest_file_read_ns
  | M_manifest_decode_ns
  | M_manifest_chunk_materialize_ns
  | M_manifest_sidecar_materialize_ns
  | M_store_bootstrap_ns
  | M_session_attach_ns
  | M_session_prewarm_ns
  | M_chunk_lookup_ns
  | M_chunk_header_load_ns
  | M_chunk_file_open_ns
  | M_sparse_index_load_ns
  | M_point_record_read_ns
  | M_point_local_search_ns
  | M_point_decode_ns
  | M_sidecar_load_ns

record StoreMetrics =
  mt_level :: u8
  mt_counters :: "Counter \<Rightarrow> u64"

record StoreMetricsSnapshot =
  mx_metrics_level :: MetricsLevel
  mx_counters :: "Counter \<Rightarrow> u64"

definition metrics_new :: "MetricsLevel \<Rightarrow> StoreMetrics" where
  "metrics_new level = \<lparr>mt_level = metrics_level_as_u8 level, mt_counters = (\<lambda>_. 0)\<rparr>"

definition metrics_default :: StoreMetrics where "metrics_default = metrics_new Basic"

definition metrics_level :: "StoreMetrics \<Rightarrow> MetricsLevel" where
  "metrics_level m = metrics_level_from_u8 (mt_level m)"

definition metrics_set_level :: "MetricsLevel \<Rightarrow> StoreMetrics \<Rightarrow> StoreMetrics" where
  "metrics_set_level level m = m\<lparr>mt_level := metrics_level_as_u8 level\<rparr>"

definition metrics_reset :: "StoreMetrics \<Rightarrow> StoreMetrics" where
  "metrics_reset m = m\<lparr>mt_counters := (\<lambda>_. 0)\<rparr>"

definition metrics_snapshot :: "StoreMetrics \<Rightarrow> StoreMetricsSnapshot" where
  "metrics_snapshot m = \<lparr>mx_metrics_level = metrics_level m, mx_counters = mt_counters m\<rparr>"

definition fetch_add :: "Counter \<Rightarrow> u64 \<Rightarrow> StoreMetrics \<Rightarrow> StoreMetrics" where
  "fetch_add c n m = m\<lparr>mt_counters := (mt_counters m)(c := mt_counters m c + n)\<rparr>"

section \<open>Recording\<close>

definition record_bytes_read :: "nat \<Rightarrow> StoreMetrics \<Rightarrow> StoreMetrics" where
  "record_bytes_read bytes m = (if metrics_level m \<noteq> Off then fetch_add M_bytes_read (word_of_nat bytes) m else m)"

definition record_logical_bytes_written :: "nat \<Rightarrow> StoreMetrics \<Rightarrow> StoreMetrics" where
  "record_logical_bytes_written bytes m = (if metrics_level m \<noteq> Off then fetch_add M_logical_bytes_written (word_of_nat bytes) m else m)"

definition record_chunk_header_hit :: "StoreMetrics \<Rightarrow> StoreMetrics" where
  "record_chunk_header_hit m = (if metrics_level m \<noteq> Off then fetch_add M_chunk_header_cache_hits 1 m else m)"

definition record_chunk_header_miss :: "StoreMetrics \<Rightarrow> StoreMetrics" where
  "record_chunk_header_miss m = (if metrics_level m \<noteq> Off then fetch_add M_chunk_header_cache_misses 1 m else m)"

definition record_chunk_file_hit :: "StoreMetrics \<Rightarrow> StoreMetrics" where
  "record_chunk_file_hit m = (if metrics_level m \<noteq> Off then fetch_add M_chunk_file_cache_hits 1 m else m)"

definition record_chunk_file_miss :: "StoreMetrics \<Rightarrow> StoreMetrics" where
  "record_chunk_file_miss m = (if metrics_level m \<noteq> Off then fetch_add M_chunk_file_cache_misses 1 m else m)"

definition record_sidecar_hit :: "StoreMetrics \<Rightarrow> StoreMetrics" where
  "record_sidecar_hit m = (if metrics_level m \<noteq> Off then fetch_add M_sidecar_cache_hits 1 m else m)"

definition record_sidecar_miss :: "StoreMetrics \<Rightarrow> StoreMetrics" where
  "record_sidecar_miss m = (if metrics_level m \<noteq> Off then fetch_add M_sidecar_cache_misses 1 m else m)"

definition record_manifest_cache_hit :: "StoreMetrics \<Rightarrow> StoreMetrics" where
  "record_manifest_cache_hit m = (if metrics_level m \<noteq> Off then fetch_add M_manifest_cache_hits 1 m else m)"

definition record_manifest_cache_miss :: "StoreMetrics \<Rightarrow> StoreMetrics" where
  "record_manifest_cache_miss m = (if metrics_level m \<noteq> Off then fetch_add M_manifest_cache_misses 1 m else m)"

definition record_manifest_load_ns :: "u64 \<Rightarrow> StoreMetrics \<Rightarrow> StoreMetrics" where
  "record_manifest_load_ns nanos m = (if metrics_level m = Detailed then fetch_add M_manifest_load_ns nanos m else m)"

definition record_manifest_file_read_ns :: "u64 \<Rightarrow> StoreMetrics \<Rightarrow> StoreMetrics" where
  "record_manifest_file_read_ns nanos m = (if metrics_level m = Detailed then fetch_add M_manifest_file_read_ns nanos m else m)"

definition record_manifest_decode_ns :: "u64 \<Rightarrow> StoreMetrics \<Rightarrow> StoreMetrics" where
  "record_manifest_decode_ns nanos m = (if metrics_level m = Detailed then fetch_add M_manifest_decode_ns nanos m else m)"

definition record_manifest_chunk_materialize_ns :: "u64 \<Rightarrow> StoreMetrics \<Rightarrow> StoreMetrics" where
  "record_manifest_chunk_materialize_ns nanos m = (if metrics_level m = Detailed then fetch_add M_manifest_chunk_materialize_ns nanos m else m)"

definition record_manifest_sidecar_materialize_ns :: "u64 \<Rightarrow> StoreMetrics \<Rightarrow> StoreMetrics" where
  "record_manifest_sidecar_materialize_ns nanos m = (if metrics_level m = Detailed then fetch_add M_manifest_sidecar_materialize_ns nanos m else m)"

definition record_store_bootstrap_ns :: "u64 \<Rightarrow> StoreMetrics \<Rightarrow> StoreMetrics" where
  "record_store_bootstrap_ns nanos m = (if metrics_level m = Detailed then fetch_add M_store_bootstrap_ns nanos m else m)"

definition record_session_attach_ns :: "u64 \<Rightarrow> StoreMetrics \<Rightarrow> StoreMetrics" where
  "record_session_attach_ns nanos m = (if metrics_level m = Detailed then fetch_add M_session_attach_ns nanos m else m)"

definition record_session_prewarm_ns :: "u64 \<Rightarrow> StoreMetrics \<Rightarrow> StoreMetrics" where
  "record_session_prewarm_ns nanos m = (if metrics_level m = Detailed then fetch_add M_session_prewarm_ns nanos m else m)"

definition record_chunk_lookup_ns :: "u64 \<Rightarrow> StoreMetrics \<Rightarrow> StoreMetrics" where
  "record_chunk_lookup_ns nanos m = (if metrics_level m = Detailed then fetch_add M_chunk_lookup_ns nanos m else m)"

definition record_chunk_header_load_ns :: "u64 \<Rightarrow> StoreMetrics \<Rightarrow> StoreMetrics" where
  "record_chunk_header_load_ns nanos m = (if metrics_level m = Detailed then fetch_add M_chunk_header_load_ns nanos m else m)"

definition record_chunk_file_open_ns :: "u64 \<Rightarrow> StoreMetrics \<Rightarrow> StoreMetrics" where
  "record_chunk_file_open_ns nanos m = (if metrics_level m = Detailed then fetch_add M_chunk_file_open_ns nanos m else m)"

definition record_sparse_index_load_ns :: "u64 \<Rightarrow> StoreMetrics \<Rightarrow> StoreMetrics" where
  "record_sparse_index_load_ns nanos m = (if metrics_level m = Detailed then fetch_add M_sparse_index_load_ns nanos m else m)"

definition record_point_record_read_ns :: "u64 \<Rightarrow> StoreMetrics \<Rightarrow> StoreMetrics" where
  "record_point_record_read_ns nanos m = (if metrics_level m = Detailed then fetch_add M_point_record_read_ns nanos m else m)"

definition record_point_local_search_ns :: "u64 \<Rightarrow> StoreMetrics \<Rightarrow> StoreMetrics" where
  "record_point_local_search_ns nanos m = (if metrics_level m = Detailed then fetch_add M_point_local_search_ns nanos m else m)"

definition record_point_decode_ns :: "u64 \<Rightarrow> StoreMetrics \<Rightarrow> StoreMetrics" where
  "record_point_decode_ns nanos m = (if metrics_level m = Detailed then fetch_add M_point_decode_ns nanos m else m)"

definition record_sidecar_load_ns :: "u64 \<Rightarrow> StoreMetrics \<Rightarrow> StoreMetrics" where
  "record_sidecar_load_ns nanos m = (if metrics_level m = Detailed then fetch_add M_sidecar_load_ns nanos m else m)"

section \<open>Hit rates\<close>

text \<open>Over the floating-point numbers of the caller: zero and the quotient of two converted integers. The sum is that of a release build.\<close>

definition ratio :: "'f \<Rightarrow> (u64 \<Rightarrow> u64 \<Rightarrow> 'f) \<Rightarrow> u64 \<Rightarrow> u64 \<Rightarrow> 'f" where
  "ratio zero div_f hits misses = (let total = hits + misses in if total = 0 then zero else div_f hits total)"

definition chunk_header_cache_hit_rate :: "'f \<Rightarrow> (u64 \<Rightarrow> u64 \<Rightarrow> 'f) \<Rightarrow> StoreMetricsSnapshot \<Rightarrow> 'f" where
  "chunk_header_cache_hit_rate zero div_f x = ratio zero div_f (mx_counters x M_chunk_header_cache_hits) (mx_counters x M_chunk_header_cache_misses)"

definition chunk_file_cache_hit_rate :: "'f \<Rightarrow> (u64 \<Rightarrow> u64 \<Rightarrow> 'f) \<Rightarrow> StoreMetricsSnapshot \<Rightarrow> 'f" where
  "chunk_file_cache_hit_rate zero div_f x = ratio zero div_f (mx_counters x M_chunk_file_cache_hits) (mx_counters x M_chunk_file_cache_misses)"

definition sidecar_cache_hit_rate :: "'f \<Rightarrow> (u64 \<Rightarrow> u64 \<Rightarrow> 'f) \<Rightarrow> StoreMetricsSnapshot \<Rightarrow> 'f" where
  "sidecar_cache_hit_rate zero div_f x = ratio zero div_f (mx_counters x M_sidecar_cache_hits) (mx_counters x M_sidecar_cache_misses)"

definition manifest_cache_hit_rate :: "'f \<Rightarrow> (u64 \<Rightarrow> u64 \<Rightarrow> 'f) \<Rightarrow> StoreMetricsSnapshot \<Rightarrow> 'f" where
  "manifest_cache_hit_rate zero div_f x = ratio zero div_f (mx_counters x M_manifest_cache_hits) (mx_counters x M_manifest_cache_misses)"

section \<open>Any number of recordings\<close>

text \<open>The method that writes a counter; the methods that count events ignore the amount.\<close>

fun metric_method :: "Counter \<Rightarrow> u64 \<Rightarrow> StoreMetrics \<Rightarrow> StoreMetrics" where
  "metric_method M_bytes_read n = record_bytes_read (unat n)"
| "metric_method M_logical_bytes_written n = record_logical_bytes_written (unat n)"
| "metric_method M_chunk_header_cache_hits n = record_chunk_header_hit"
| "metric_method M_chunk_header_cache_misses n = record_chunk_header_miss"
| "metric_method M_chunk_file_cache_hits n = record_chunk_file_hit"
| "metric_method M_chunk_file_cache_misses n = record_chunk_file_miss"
| "metric_method M_sidecar_cache_hits n = record_sidecar_hit"
| "metric_method M_sidecar_cache_misses n = record_sidecar_miss"
| "metric_method M_manifest_cache_hits n = record_manifest_cache_hit"
| "metric_method M_manifest_cache_misses n = record_manifest_cache_miss"
| "metric_method M_manifest_load_ns n = record_manifest_load_ns n"
| "metric_method M_manifest_file_read_ns n = record_manifest_file_read_ns n"
| "metric_method M_manifest_decode_ns n = record_manifest_decode_ns n"
| "metric_method M_manifest_chunk_materialize_ns n = record_manifest_chunk_materialize_ns n"
| "metric_method M_manifest_sidecar_materialize_ns n = record_manifest_sidecar_materialize_ns n"
| "metric_method M_store_bootstrap_ns n = record_store_bootstrap_ns n"
| "metric_method M_session_attach_ns n = record_session_attach_ns n"
| "metric_method M_session_prewarm_ns n = record_session_prewarm_ns n"
| "metric_method M_chunk_lookup_ns n = record_chunk_lookup_ns n"
| "metric_method M_chunk_header_load_ns n = record_chunk_header_load_ns n"
| "metric_method M_chunk_file_open_ns n = record_chunk_file_open_ns n"
| "metric_method M_sparse_index_load_ns n = record_sparse_index_load_ns n"
| "metric_method M_point_record_read_ns n = record_point_record_read_ns n"
| "metric_method M_point_local_search_ns n = record_point_local_search_ns n"
| "metric_method M_point_decode_ns n = record_point_decode_ns n"
| "metric_method M_sidecar_load_ns n = record_sidecar_load_ns n"

definition timers :: "Counter set" where
  "timers = {M_manifest_load_ns, M_manifest_file_read_ns, M_manifest_decode_ns, M_manifest_chunk_materialize_ns, M_manifest_sidecar_materialize_ns, M_store_bootstrap_ns, M_session_attach_ns, M_session_prewarm_ns, M_chunk_lookup_ns, M_chunk_header_load_ns, M_chunk_file_open_ns, M_sparse_index_load_ns, M_point_record_read_ns, M_point_local_search_ns, M_point_decode_ns, M_sidecar_load_ns}"

definition event_counters :: "Counter set" where
  "event_counters = {M_chunk_header_cache_hits, M_chunk_header_cache_misses, M_chunk_file_cache_hits, M_chunk_file_cache_misses, M_sidecar_cache_hits, M_sidecar_cache_misses, M_manifest_cache_hits, M_manifest_cache_misses}"

definition weight :: "MetricsLevel \<Rightarrow> Counter \<Rightarrow> u64 \<Rightarrow> u64" where
  "weight level c n =
     (if level = Off \<or> c \<in> timers \<and> level \<noteq> Detailed then 0 else if c \<in> event_counters then 1 else n)"

lemma metric_method_adds: "metric_method c n m = fetch_add c (weight (metrics_level m) c n) m"
proof -
  have z: "fetch_add c 0 m = m" for c by (simp add: fetch_add_def)
  show ?thesis
    by (cases c) (simp_all add: weight_def timers_def event_counters_def z record_bytes_read_def record_logical_bytes_written_def record_chunk_header_hit_def record_chunk_header_miss_def record_chunk_file_hit_def record_chunk_file_miss_def record_sidecar_hit_def record_sidecar_miss_def record_manifest_cache_hit_def record_manifest_cache_miss_def record_manifest_load_ns_def record_manifest_file_read_ns_def record_manifest_decode_ns_def record_manifest_chunk_materialize_ns_def record_manifest_sidecar_materialize_ns_def record_store_bootstrap_ns_def record_session_attach_ns_def record_session_prewarm_ns_def record_chunk_lookup_ns_def record_chunk_header_load_ns_def record_chunk_file_open_ns_def record_sparse_index_load_ns_def record_point_record_read_ns_def record_point_local_search_ns_def record_point_decode_ns_def record_sidecar_load_ns_def)
qed

lemma fetch_add_level: "metrics_level (fetch_add c n m) = metrics_level m"
  by (simp add: fetch_add_def metrics_level_def)

lemma fetch_add_counters: "mt_counters (fetch_add c n m) d = mt_counters m d + (if d = c then n else 0)"
  by (simp add: fetch_add_def)

definition run_metrics :: "(Counter \<times> u64) list \<Rightarrow> StoreMetrics \<Rightarrow> StoreMetrics" where
  "run_metrics events m = fold (\<lambda>(c, n). metric_method c n) events m"

lemma run_metrics_sum:
  "metrics_level (run_metrics events m) = metrics_level m"
  "mt_counters (run_metrics events m) c = mt_counters m c + sum_list (map (\<lambda>(d, n). if d = c then weight (metrics_level m) c n else 0) events)"
proof -
  have "metrics_level (run_metrics events m) = metrics_level m \<and>
    mt_counters (run_metrics events m) c = mt_counters m c + sum_list (map (\<lambda>(d, n). if d = c then weight (metrics_level m) c n else 0) events)"
    unfolding run_metrics_def
  proof (induction events arbitrary: m)
    case (Cons e events)
    obtain a b where e: "e = (a, b)" by fastforce
    have l: "metrics_level (metric_method a b m) = metrics_level m" by (simp add: metric_method_adds fetch_add_level)
    show ?case
      using Cons.IH [of "metric_method a b m", unfolded l] by (simp add: e) (simp add: metric_method_adds fetch_add_counters)
  qed simp
  then show "metrics_level (run_metrics events m) = metrics_level m"
    "mt_counters (run_metrics events m) c = mt_counters m c + sum_list (map (\<lambda>(d, n). if d = c then weight (metrics_level m) c n else 0) events)"
    by blast+
qed

lemma run_metrics_order:
  assumes "mset events = mset events'"
  shows "metrics_snapshot (run_metrics events m) = metrics_snapshot (run_metrics events' m)"
proof -
  have "sum_list (map f events) = sum_list (map f events')" for f :: "Counter \<times> u64 \<Rightarrow> u64"
    using assms by (metis mset_map sum_mset_sum_list)
  then show ?thesis by (simp add: metrics_snapshot_def run_metrics_sum fun_eq_iff)
qed

end
