(* ===== verification/Records.thy ===== *)
theory Records
  imports Prelude
begin

text \<open>
  The five fixed-width record families (\<^verbatim>\<open>src/src/types\<close>, \<^verbatim>\<open>src/src/kline/record.rs\<close>,
  \<^verbatim>\<open>src/src/feature/scalar.rs\<close>) with their little-endian encoders and decoders, and the
  \<open>FixedRecord\<close> trait as a dictionary of its constants and methods. The locale \<open>fixed_record\<close>
  states what the generic readers and writers rely on (fixed width, lossless round trip, the
  timestamp in the first eight bytes); it is interpreted for each of the five implementations.
\<close>

section \<open>Record types and the FixedRecord trait\<close>

datatype RecordType = Kline | Scalar | Trade | Bbo | BookDelta

fun record_type_as_u32 :: "RecordType \<Rightarrow> u32" where
  "record_type_as_u32 Kline = 1"
| "record_type_as_u32 Scalar = 2"
| "record_type_as_u32 Trade = 10"
| "record_type_as_u32 Bbo = 11"
| "record_type_as_u32 BookDelta = 12"

definition record_type_from_u32 :: "u32 \<Rightarrow> RecordType res" where
  "record_type_from_u32 v =
     (if v = 1 then Inr Kline
      else if v = 2 then Inr Scalar
      else if v = 10 then Inr Trade
      else if v = 11 then Inr Bbo
      else if v = 12 then Inr BookDelta
      else Inl (InvalidData ''unsupported record type''))"

lemma record_type_roundtrip [simp, codec_simps]: "record_type_from_u32 (record_type_as_u32 t) = Inr t"
  by (cases t) (simp_all add: record_type_from_u32_def)

definition KLINE_SCHEMA_ID :: u32 where "KLINE_SCHEMA_ID = 1"
definition SCALAR_SCHEMA_ID :: u32 where "SCALAR_SCHEMA_ID = 2"
definition TRADE_SCHEMA_ID :: u32 where "TRADE_SCHEMA_ID = 10"
definition BBO_SCHEMA_ID :: u32 where "BBO_SCHEMA_ID = 11"
definition BOOK_DELTA_SCHEMA_ID :: u32 where "BOOK_DELTA_SCHEMA_ID = 12"

text \<open>The trait: its associated constants and its methods, as a dictionary over the record type.\<close>

record 'r FixedRecord =
  BYTE_SIZE :: nat
  SCHEMA_ID :: u32
  RECORD_TYPE :: RecordType
  ALLOW_EQUAL_TIMESTAMPS :: bool
  ts_of :: "'r \<Rightarrow> i64"
  encode_le :: "'r \<Rightarrow> u8 list"
  decode_le :: "u8 list \<Rightarrow> 'r res"

text \<open>The trait's provided method: \<open>records.windows(2)\<close> are the adjacent pairs.\<close>

definition validate_strict_order :: "'r FixedRecord \<Rightarrow> 'r list \<Rightarrow> unit res" where
  "validate_strict_order R records =
     (if records = [] then Inl (InvalidInput ''fixed-record chunk must contain at least one record'')
      else ensure
        (successively
          (\<lambda>a b. \<not> (if ALLOW_EQUAL_TIMESTAMPS R then ts_of R a > ts_of R b else ts_of R a \<ge> ts_of R b))
          records)
        (InvalidInput ''timestamps must be ordered''))"

text \<open>\<open>read_i64\<close> and \<open>read_u32\<close> read a field at an offset and move the offset past it.\<close>

definition read_i64 :: "u8 list \<Rightarrow> nat \<Rightarrow> (i64 \<times> nat) res" where
  "read_i64 bytes offset =
     (if offset + 8 \<le> length bytes
      then Inr (i64_of_le_bytes (slice_of offset (offset + 8) bytes), offset + 8)
      else Inl (InvalidData ''fixed record ended unexpectedly''))"

definition read_u32 :: "u8 list \<Rightarrow> nat \<Rightarrow> (u32 \<times> nat) res" where
  "read_u32 bytes offset =
     (if offset + 4 \<le> length bytes
      then Inr (le_word (slice_of offset (offset + 4) bytes), offset + 4)
      else Inl (InvalidData ''fixed record ended unexpectedly''))"

section \<open>Kline records\<close>

record KlineRecord =
  k_ts :: i64
  k_open :: i64
  k_high :: i64
  k_low :: i64
  k_close :: i64
  k_volume :: i64

definition kline_BYTE_SIZE :: nat where "kline_BYTE_SIZE = 48"

definition kline_to_le_bytes :: "KlineRecord \<Rightarrow> u8 list" where
  "kline_to_le_bytes r =
     concat (map i64_le_bytes [k_ts r, k_open r, k_high r, k_low r, k_close r, k_volume r])"

definition kline_from_le_bytes :: "u8 list \<Rightarrow> KlineRecord" where
  "kline_from_le_bytes bytes =
     (let values = map (\<lambda>i. i64_of_le_bytes (slice_of (8 * i) (8 * i + 8) bytes)) [0..<6] in
      \<lparr>k_ts = values ! 0, k_open = values ! 1, k_high = values ! 2, k_low = values ! 3,
       k_close = values ! 4, k_volume = values ! 5\<rparr>)"

definition kline_decode_le :: "u8 list \<Rightarrow> KlineRecord res" where
  "kline_decode_le bytes =
     (if length bytes = kline_BYTE_SIZE then Inr (kline_from_le_bytes bytes)
      else Inl (InvalidData ''invalid kline record bytes''))"

definition kline_record :: "KlineRecord FixedRecord" where
  "kline_record =
     \<lparr>BYTE_SIZE = kline_BYTE_SIZE, SCHEMA_ID = KLINE_SCHEMA_ID, RECORD_TYPE = Kline,
      ALLOW_EQUAL_TIMESTAMPS = False, ts_of = k_ts,
      encode_le = kline_to_le_bytes, decode_le = kline_decode_le\<rparr>"

definition kline_validate_strict_order :: "KlineRecord list \<Rightarrow> unit res" where
  "kline_validate_strict_order records =
     (if records = [] then Inl (InvalidInput ''kline chunk must contain at least one record'')
      else ensure (successively (\<lambda>a b. \<not> k_ts a \<ge> k_ts b) records)
        (InvalidInput ''timestamps must be strictly increasing''))"

section \<open>Scalar records\<close>

record ScalarRecord =
  s_ts :: i64
  s_value :: i64

definition scalar_BYTE_SIZE :: nat where "scalar_BYTE_SIZE = 16"

definition scalar_to_le_bytes :: "ScalarRecord \<Rightarrow> u8 list" where
  "scalar_to_le_bytes r = i64_le_bytes (s_ts r) @ i64_le_bytes (s_value r)"

definition scalar_from_le_bytes :: "u8 list \<Rightarrow> ScalarRecord" where
  "scalar_from_le_bytes bytes =
     \<lparr>s_ts = i64_of_le_bytes (slice_of 0 8 bytes), s_value = i64_of_le_bytes (slice_of 8 16 bytes)\<rparr>"

definition scalar_decode_le :: "u8 list \<Rightarrow> ScalarRecord res" where
  "scalar_decode_le bytes =
     (if length bytes = scalar_BYTE_SIZE then Inr (scalar_from_le_bytes bytes)
      else Inl (InvalidData ''invalid scalar record bytes''))"

definition scalar_record :: "ScalarRecord FixedRecord" where
  "scalar_record =
     \<lparr>BYTE_SIZE = scalar_BYTE_SIZE, SCHEMA_ID = SCALAR_SCHEMA_ID, RECORD_TYPE = Scalar,
      ALLOW_EQUAL_TIMESTAMPS = False, ts_of = s_ts,
      encode_le = scalar_to_le_bytes, decode_le = scalar_decode_le\<rparr>"

definition scalar_validate_strict_order :: "ScalarRecord list \<Rightarrow> unit res" where
  "scalar_validate_strict_order records =
     (if records = [] then Inl (InvalidInput ''scalar records must not be empty'')
      else ensure (successively (\<lambda>a b. \<not> s_ts a \<ge> s_ts b) records)
        (InvalidInput ''scalar timestamps must be strictly increasing''))"

section \<open>Trade records\<close>

text \<open>\<open>side: i8\<close> is kept as its bit pattern (it is only cast); \<open>_pad\<close> is a six-byte array.\<close>

record TradeRecord =
  t_ts :: i64
  t_recv_ts :: i64
  t_trade_id :: i64
  t_price :: i64
  t_qty :: i64
  t_side :: "8 word"
  t_flags :: u8
  t_pad :: "u8 list"

definition trade_BYTE_SIZE :: nat where "trade_BYTE_SIZE = 48"

definition trade_encode_le :: "TradeRecord \<Rightarrow> u8 list" where
  "trade_encode_le r =
     concat (map i64_le_bytes [t_ts r, t_recv_ts r, t_trade_id r, t_price r, t_qty r])
     @ [t_side r] @ [t_flags r] @ t_pad r"

definition trade_decode_le :: "u8 list \<Rightarrow> TradeRecord res" where
  "trade_decode_le bytes =
     and_then (ensure (length bytes = trade_BYTE_SIZE) (InvalidData ''unexpected trade record byte length'')) (\<lambda>_.
     and_then (read_i64 bytes 0) (\<lambda>(ts, off).
     and_then (read_i64 bytes off) (\<lambda>(recv_ts, off).
     and_then (read_i64 bytes off) (\<lambda>(trade_id, off).
     and_then (read_i64 bytes off) (\<lambda>(price, off).
     and_then (read_i64 bytes off) (\<lambda>(qty, off).
     let side = bytes ! off; off = off + 1;
         flags = bytes ! off; off = off + 1;
         pad = slice_of off (off + 6) bytes in
     Inr \<lparr>t_ts = ts, t_recv_ts = recv_ts, t_trade_id = trade_id, t_price = price, t_qty = qty,
          t_side = side, t_flags = flags, t_pad = pad\<rparr>))))))"

definition trade_record :: "TradeRecord FixedRecord" where
  "trade_record =
     \<lparr>BYTE_SIZE = trade_BYTE_SIZE, SCHEMA_ID = TRADE_SCHEMA_ID, RECORD_TYPE = Trade,
      ALLOW_EQUAL_TIMESTAMPS = True, ts_of = t_ts,
      encode_le = trade_encode_le, decode_le = trade_decode_le\<rparr>"

text \<open>The array type of \<open>_pad\<close>.\<close>

definition trade_wf :: "TradeRecord \<Rightarrow> bool" where
  "trade_wf r \<longleftrightarrow> length (t_pad r) = 6"

section \<open>Best bid and offer records\<close>

record BboRecord =
  b_ts :: i64
  b_recv_ts :: i64
  b_bid_price :: i64
  b_bid_qty :: i64
  b_ask_price :: i64
  b_ask_qty :: i64
  b_sequence :: i64

definition bbo_BYTE_SIZE :: nat where "bbo_BYTE_SIZE = 56"

definition bbo_encode_le :: "BboRecord \<Rightarrow> u8 list" where
  "bbo_encode_le r =
     concat (map i64_le_bytes
       [b_ts r, b_recv_ts r, b_bid_price r, b_bid_qty r, b_ask_price r, b_ask_qty r, b_sequence r])"

definition bbo_decode_le :: "u8 list \<Rightarrow> BboRecord res" where
  "bbo_decode_le bytes =
     and_then (ensure (length bytes = bbo_BYTE_SIZE) (InvalidData ''unexpected bbo record byte length'')) (\<lambda>_.
     and_then (read_i64 bytes 0) (\<lambda>(ts, off).
     and_then (read_i64 bytes off) (\<lambda>(recv_ts, off).
     and_then (read_i64 bytes off) (\<lambda>(bid_price, off).
     and_then (read_i64 bytes off) (\<lambda>(bid_qty, off).
     and_then (read_i64 bytes off) (\<lambda>(ask_price, off).
     and_then (read_i64 bytes off) (\<lambda>(ask_qty, off).
     and_then (read_i64 bytes off) (\<lambda>(sequence, off).
     Inr \<lparr>b_ts = ts, b_recv_ts = recv_ts, b_bid_price = bid_price, b_bid_qty = bid_qty,
          b_ask_price = ask_price, b_ask_qty = ask_qty, b_sequence = sequence\<rparr>))))))))"

definition bbo_record :: "BboRecord FixedRecord" where
  "bbo_record =
     \<lparr>BYTE_SIZE = bbo_BYTE_SIZE, SCHEMA_ID = BBO_SCHEMA_ID, RECORD_TYPE = Bbo,
      ALLOW_EQUAL_TIMESTAMPS = False, ts_of = b_ts,
      encode_le = bbo_encode_le, decode_le = bbo_decode_le\<rparr>"

section \<open>Order book delta records\<close>

record BookDeltaRecord =
  d_ts :: i64
  d_recv_ts :: i64
  d_sequence :: i64
  d_price :: i64
  d_qty :: i64
  d_side :: "8 word"
  d_action :: "8 word"
  d_level :: "16 word"
  d_flags :: u32

definition book_delta_BYTE_SIZE :: nat where "book_delta_BYTE_SIZE = 48"

definition book_delta_encode_le :: "BookDeltaRecord \<Rightarrow> u8 list" where
  "book_delta_encode_le r =
     concat (map i64_le_bytes [d_ts r, d_recv_ts r, d_sequence r, d_price r, d_qty r])
     @ [d_side r] @ [d_action r] @ le_bytes 2 (d_level r) @ le_bytes 4 (d_flags r)"

definition book_delta_decode_le :: "u8 list \<Rightarrow> BookDeltaRecord res" where
  "book_delta_decode_le bytes =
     and_then (ensure (length bytes = book_delta_BYTE_SIZE)
       (InvalidData ''unexpected book delta record byte length'')) (\<lambda>_.
     and_then (read_i64 bytes 0) (\<lambda>(ts, off).
     and_then (read_i64 bytes off) (\<lambda>(recv_ts, off).
     and_then (read_i64 bytes off) (\<lambda>(sequence, off).
     and_then (read_i64 bytes off) (\<lambda>(price, off).
     and_then (read_i64 bytes off) (\<lambda>(qty, off).
     let side = bytes ! off; off = off + 1;
         action = bytes ! off; off = off + 1;
         level = le_word (slice_of off (off + 2) bytes); off = off + 2 in
     and_then (read_u32 bytes off) (\<lambda>(flags, off).
     Inr \<lparr>d_ts = ts, d_recv_ts = recv_ts, d_sequence = sequence, d_price = price, d_qty = qty,
          d_side = side, d_action = action, d_level = level, d_flags = flags\<rparr>)))))))"

definition book_delta_record :: "BookDeltaRecord FixedRecord" where
  "book_delta_record =
     \<lparr>BYTE_SIZE = book_delta_BYTE_SIZE, SCHEMA_ID = BOOK_DELTA_SCHEMA_ID, RECORD_TYPE = BookDelta,
      ALLOW_EQUAL_TIMESTAMPS = True, ts_of = d_ts,
      encode_le = book_delta_encode_le, decode_le = book_delta_decode_le\<rparr>"

section \<open>The contract of a fixed record\<close>

text \<open>
  What the readers and writers rely on. \<open>wf\<close> is the part of the Rust type that the model's
  record does not carry (the length of an array field).
\<close>

locale fixed_record =
  fixes R :: "'r FixedRecord" and wf :: "'r \<Rightarrow> bool"
  assumes size_range: "8 \<le> BYTE_SIZE R \<and> BYTE_SIZE R \<le> 56"
    and length_encode: "wf r \<Longrightarrow> length (encode_le R r) = BYTE_SIZE R"
    and decode_encode: "wf r \<Longrightarrow> decode_le R (encode_le R r) = Inr r"
    and encode_decode: "decode_le R bs = Inr r \<Longrightarrow> wf r \<and> encode_le R r = bs"
    and decode_total: "length bs = BYTE_SIZE R \<Longrightarrow> \<exists>r. decode_le R bs = Inr r"
    and ts_first: "wf r \<Longrightarrow> take 8 (encode_le R r) = i64_le_bytes (ts_of R r)"
begin

lemma encode_inj: "wf r \<Longrightarrow> wf r' \<Longrightarrow> encode_le R r = encode_le R r' \<Longrightarrow> r = r'"
  by (metis decode_encode sum.inject(2))

lemma size_pos: "0 < BYTE_SIZE R"
  using size_range by simp

lemma length_encodes: "\<forall>r \<in> set rs. wf r \<Longrightarrow> length (concat (map (encode_le R) rs)) = BYTE_SIZE R * length rs"
  by (rule length_concat_map_const) (blast intro: length_encode)

lemma decode_encodes:
  "\<forall>r \<in> set rs. wf r \<Longrightarrow>
     collect_res (decode_le R) (chunks_exact (BYTE_SIZE R) (concat (map (encode_le R) rs))) = Inr rs"
proof -
  assume wf: "\<forall>r \<in> set rs. wf r"
  have "chunks_exact (BYTE_SIZE R) (concat (map (encode_le R) rs)) = map (encode_le R) rs"
    using wf by (intro chunks_exact_concat size_pos) (blast intro: length_encode)
  moreover have "collect_res (decode_le R) (map (encode_le R) rs) = Inr rs"
    using wf by (induction rs) (auto simp: decode_encode)
  ultimately show ?thesis by simp
qed

lemma encodes_slice:
  assumes "\<forall>r \<in> set rs. wf r" and "lo \<le> hi" and "hi \<le> length rs"
  shows "slice_of (BYTE_SIZE R * lo) (BYTE_SIZE R * hi) (concat (map (encode_le R) rs))
    = concat (map (encode_le R) (slice_of lo hi rs))"
  using assms(2,3) by (intro slice_concat_map) (use assms(1) length_encode in blast)+

lemma wf_slice: "\<forall>r \<in> set rs. wf r \<Longrightarrow> \<forall>r \<in> set (slice_of lo hi rs). wf r"
  by (auto simp: set_slice)

end

lemma kline_from_le_bytes_fields:
  "kline_from_le_bytes bytes =
     \<lparr>k_ts = i64_of_le_bytes (slice_of 0 8 bytes), k_open = i64_of_le_bytes (slice_of 8 16 bytes),
      k_high = i64_of_le_bytes (slice_of 16 24 bytes), k_low = i64_of_le_bytes (slice_of 24 32 bytes),
      k_close = i64_of_le_bytes (slice_of 32 40 bytes), k_volume = i64_of_le_bytes (slice_of 40 48 bytes)\<rparr>"
  by (simp add: kline_from_le_bytes_def Let_def upt_rec)

lemma kline_fixed_record: "fixed_record kline_record (\<lambda>_. True)"
proof
  fix bs :: "u8 list" and r
  assume "decode_le kline_record bs = Inr r"
  then have len: "length bs = 48" and r: "r = kline_from_le_bytes bs"
    by (auto simp: kline_record_def kline_decode_le_def kline_BYTE_SIZE_def split: if_splits)
  show "True \<and> encode_le kline_record r = bs"
    using len by (simp add: r kline_record_def kline_to_le_bytes_def kline_from_le_bytes_fields slice_append)
qed (simp_all add: kline_record_def kline_decode_le_def kline_BYTE_SIZE_def kline_to_le_bytes_def
    kline_from_le_bytes_fields slice_of_def)

interpretation kline: fixed_record kline_record "\<lambda>_. True"
  by (rule kline_fixed_record)

lemma scalar_fixed_record: "fixed_record scalar_record (\<lambda>_. True)"
proof
  fix bs :: "u8 list" and r
  assume "decode_le scalar_record bs = Inr r"
  then have len: "length bs = 16" and r: "r = scalar_from_le_bytes bs"
    by (auto simp: scalar_record_def scalar_decode_le_def scalar_BYTE_SIZE_def split: if_splits)
  show "True \<and> encode_le scalar_record r = bs"
    using len by (simp add: r scalar_record_def scalar_to_le_bytes_def scalar_from_le_bytes_def slice_append)
qed (simp_all add: scalar_record_def scalar_decode_le_def scalar_BYTE_SIZE_def scalar_to_le_bytes_def
    scalar_from_le_bytes_def slice_of_def)

interpretation scalar: fixed_record scalar_record "\<lambda>_. True"
  by (rule scalar_fixed_record)

text \<open>Field-by-field reading of a buffer of sufficient length.\<close>

lemma read_i64_ok [simp]:
  "offset + 8 \<le> length bytes \<Longrightarrow>
     read_i64 bytes offset = Inr (i64_of_le_bytes (slice_of offset (offset + 8) bytes), offset + 8)"
  by (simp add: read_i64_def)

lemma read_u32_ok [simp]:
  "offset + 4 \<le> length bytes \<Longrightarrow>
     read_u32 bytes offset = Inr (le_word (slice_of offset (offset + 4) bytes), offset + 4)"
  by (simp add: read_u32_def)

lemma byte_fields_append:
  "length bs = 48 \<Longrightarrow> slice_of 0 40 bs @ bs ! 40 # bs ! 41 # slice_of 42 48 bs = bs"
proof -
  assume len: "length bs = 48"
  have "bs ! 40 # bs ! 41 # slice_of 42 48 bs = [bs ! 40] @ [bs ! 41] @ slice_of 42 48 bs" by simp
  also have "\<dots> = slice_of 40 48 bs"
    using len slice_single [of 40 bs] slice_single [of 41 bs] by (simp add: slice_append)
  finally show ?thesis using len by (simp add: slice_append)
qed

lemma trade_decode_le_ok:
  "length bytes = 48 \<Longrightarrow> trade_decode_le bytes =
     Inr \<lparr>t_ts = i64_of_le_bytes (slice_of 0 8 bytes), t_recv_ts = i64_of_le_bytes (slice_of 8 16 bytes),
      t_trade_id = i64_of_le_bytes (slice_of 16 24 bytes), t_price = i64_of_le_bytes (slice_of 24 32 bytes),
      t_qty = i64_of_le_bytes (slice_of 32 40 bytes), t_side = bytes ! 40, t_flags = bytes ! 41,
      t_pad = slice_of 42 48 bytes\<rparr>"
  by (simp add: trade_decode_le_def trade_BYTE_SIZE_def Let_def)

lemma trade_fixed_record: "fixed_record trade_record trade_wf"
proof
  fix bs :: "u8 list" and r
  assume "decode_le trade_record bs = Inr r"
  then have len: "length bs = 48" and d: "trade_decode_le bs = Inr r"
    by (auto simp: trade_record_def trade_decode_le_def trade_BYTE_SIZE_def res_simps)
  show "trade_wf r \<and> encode_le trade_record r = bs"
    using d len by (auto simp: trade_decode_le_ok trade_record_def trade_encode_le_def trade_wf_def
        slice_append byte_fields_append)
qed (simp_all add: trade_record_def trade_decode_le_ok trade_BYTE_SIZE_def trade_encode_le_def
    trade_wf_def slice_of_def nth_append)

interpretation trade: fixed_record trade_record trade_wf
  by (rule trade_fixed_record)

lemma bbo_decode_le_ok:
  "length bytes = 56 \<Longrightarrow> bbo_decode_le bytes =
     Inr \<lparr>b_ts = i64_of_le_bytes (slice_of 0 8 bytes), b_recv_ts = i64_of_le_bytes (slice_of 8 16 bytes),
      b_bid_price = i64_of_le_bytes (slice_of 16 24 bytes), b_bid_qty = i64_of_le_bytes (slice_of 24 32 bytes),
      b_ask_price = i64_of_le_bytes (slice_of 32 40 bytes), b_ask_qty = i64_of_le_bytes (slice_of 40 48 bytes),
      b_sequence = i64_of_le_bytes (slice_of 48 56 bytes)\<rparr>"
  by (simp add: bbo_decode_le_def bbo_BYTE_SIZE_def)

lemma bbo_fixed_record: "fixed_record bbo_record (\<lambda>_. True)"
proof
  fix bs :: "u8 list" and r
  assume "decode_le bbo_record bs = Inr r"
  then have len: "length bs = 56" and d: "bbo_decode_le bs = Inr r"
    by (auto simp: bbo_record_def bbo_decode_le_def bbo_BYTE_SIZE_def res_simps)
  show "True \<and> encode_le bbo_record r = bs"
    using d len by (auto simp: bbo_decode_le_ok bbo_record_def bbo_encode_le_def slice_append)
qed (simp_all add: bbo_record_def bbo_decode_le_ok bbo_BYTE_SIZE_def bbo_encode_le_def slice_of_def)

interpretation bbo: fixed_record bbo_record "\<lambda>_. True"
  by (rule bbo_fixed_record)

lemma book_delta_decode_le_ok:
  "length bytes = 48 \<Longrightarrow> book_delta_decode_le bytes =
     Inr \<lparr>d_ts = i64_of_le_bytes (slice_of 0 8 bytes), d_recv_ts = i64_of_le_bytes (slice_of 8 16 bytes),
      d_sequence = i64_of_le_bytes (slice_of 16 24 bytes), d_price = i64_of_le_bytes (slice_of 24 32 bytes),
      d_qty = i64_of_le_bytes (slice_of 32 40 bytes), d_side = bytes ! 40, d_action = bytes ! 41,
      d_level = le_word (slice_of 42 44 bytes), d_flags = le_word (slice_of 44 48 bytes)\<rparr>"
  by (simp add: book_delta_decode_le_def book_delta_BYTE_SIZE_def Let_def)

lemma book_delta_fixed_record: "fixed_record book_delta_record (\<lambda>_. True)"
proof
  fix bs :: "u8 list" and r
  assume "decode_le book_delta_record bs = Inr r"
  then have len: "length bs = 48" and d: "book_delta_decode_le bs = Inr r"
    by (auto simp: book_delta_record_def book_delta_decode_le_def book_delta_BYTE_SIZE_def res_simps)
  show "True \<and> encode_le book_delta_record r = bs"
    using d len by (auto simp: book_delta_decode_le_ok book_delta_record_def book_delta_encode_le_def
        slice_append le_bytes_word byte_fields_append)
qed (simp_all add: book_delta_record_def book_delta_decode_le_ok book_delta_BYTE_SIZE_def
    book_delta_encode_le_def slice_of_def nth_append)

interpretation book_delta: fixed_record book_delta_record "\<lambda>_. True"
  by (rule book_delta_fixed_record)

section \<open>Order validation\<close>

text \<open>What a successful validation gives: a non-empty list with ordered timestamps.\<close>

lemma successively_sorted:
  "successively (\<lambda>a b. \<not> f a > f (b :: 'a) ) xs \<longleftrightarrow> sorted (map (f :: 'a \<Rightarrow> 'b::linorder) xs)"
proof -
  have "transp (\<lambda>a b :: 'a. f a \<le> f b)" by (auto intro: transpI)
  then show ?thesis by (simp add: sorted_wrt_map successively_conv_sorted_wrt not_less)
qed

lemma successively_strict:
  "successively (\<lambda>a b. \<not> f a \<ge> f (b :: 'a)) xs \<longleftrightarrow> sorted_wrt (<) (map (f :: 'a \<Rightarrow> 'b::linorder) xs)"
proof -
  have "transp (\<lambda>a b :: 'a. f a < f b)" by (auto intro: transpI)
  then show ?thesis by (simp add: sorted_wrt_map successively_conv_sorted_wrt not_le)
qed

lemma validate_strict_order_iff:
  "validate_strict_order R rs = Inr u \<longleftrightarrow>
     rs \<noteq> [] \<and> (if ALLOW_EQUAL_TIMESTAMPS R then sorted (map (ts_of R) rs)
                else sorted_wrt (<) (map (ts_of R) rs))"
  by (simp add: validate_strict_order_def successively_sorted successively_strict)

lemma kline_validate_strict_order_iff:
  "kline_validate_strict_order rs = Inr u \<longleftrightarrow> rs \<noteq> [] \<and> sorted_wrt (<) (map k_ts rs)"
  by (simp add: kline_validate_strict_order_def successively_strict)

lemma scalar_validate_strict_order_iff:
  "scalar_validate_strict_order rs = Inr u \<longleftrightarrow> rs \<noteq> [] \<and> sorted_wrt (<) (map s_ts rs)"
  by (simp add: scalar_validate_strict_order_def successively_strict)

end
