(* ===== verification/Meta.thy ===== *)
theory Meta
  imports Records
begin

text \<open>
  The series manifest in memory (\<^verbatim>\<open>src/src/types/meta.rs\<close>): partition units and
  policies, chunk states, sidecar, chunk and series metadata, their validation, and the binary
  searches that route a timestamp or a range to chunk indices. \<open>spans_ordered\<close> is the
  specification of a valid chunk list; a validated manifest satisfies it, and under it the
  searches return exactly the chunks that hold the timestamp or meet the range.
\<close>

section \<open>Partition units, policies and chunk states\<close>

datatype PartitionUnit = Month | Day | Hour | Rows | Bytes

fun partition_unit_as_str :: "PartitionUnit \<Rightarrow> string" where
  "partition_unit_as_str Month = ''month''"
| "partition_unit_as_str Day = ''day''"
| "partition_unit_as_str Hour = ''hour''"
| "partition_unit_as_str Rows = ''rows''"
| "partition_unit_as_str Bytes = ''bytes''"

definition partition_unit_from_str :: "string \<Rightarrow> PartitionUnit res" where
  "partition_unit_from_str s =
     (if s = ''month'' then Inr Month
      else if s = ''day'' then Inr Day
      else if s = ''hour'' then Inr Hour
      else if s = ''rows'' then Inr Rows
      else if s = ''bytes'' then Inr Bytes
      else Inl (InvalidData ''unsupported partition unit''))"

definition is_time_based :: "PartitionUnit \<Rightarrow> bool" where
  "is_time_based u \<longleftrightarrow> u \<in> {Month, Day, Hour}"

lemma partition_unit_roundtrip [simp, codec_simps]:
  "partition_unit_from_str (partition_unit_as_str u) = Inr u"
  by (cases u) (simp_all add: partition_unit_from_str_def)

lemma partition_unit_from_str_iff: "partition_unit_from_str s = Inr u \<longleftrightarrow> s = partition_unit_as_str u"
  by (cases u) (auto simp: partition_unit_from_str_def)

record PartitionPolicy =
  pp_unit :: PartitionUnit
  pp_max_rows :: "u64 option"
  pp_max_bytes :: "u64 option"
  pp_max_duration_ms :: "i64 option"

definition partition_policy_new :: "PartitionUnit \<Rightarrow> PartitionPolicy" where
  "partition_policy_new u =
     \<lparr>pp_unit = u, pp_max_rows = None, pp_max_bytes = None, pp_max_duration_ms = None\<rparr>"

definition partition_policy_month :: PartitionPolicy where
  "partition_policy_month = partition_policy_new Month"

definition partition_policy_day :: PartitionPolicy where
  "partition_policy_day = partition_policy_new Day"

definition partition_policy_hour :: PartitionPolicy where
  "partition_policy_hour = partition_policy_new Hour"

datatype ChunkState = Active | Sealed | Merging | Replaced

fun chunk_state_as_u8 :: "ChunkState \<Rightarrow> u8" where
  "chunk_state_as_u8 Active = 1"
| "chunk_state_as_u8 Sealed = 2"
| "chunk_state_as_u8 Merging = 3"
| "chunk_state_as_u8 Replaced = 4"

definition chunk_state_from_u8 :: "u8 \<Rightarrow> ChunkState res" where
  "chunk_state_from_u8 v =
     (if v = 1 then Inr Active
      else if v = 2 then Inr Sealed
      else if v = 3 then Inr Merging
      else if v = 4 then Inr Replaced
      else Inl (InvalidData ''unsupported chunk state''))"

definition is_readable :: "ChunkState \<Rightarrow> bool" where
  "is_readable s \<longleftrightarrow> s \<in> {Active, Sealed, Merging}"

lemma chunk_state_roundtrip [simp, codec_simps]: "chunk_state_from_u8 (chunk_state_as_u8 s) = Inr s"
  by (cases s) (simp_all add: chunk_state_from_u8_def)

section \<open>Chunk and series metadata\<close>

record SidecarMeta =
  sc_kind :: string
  sc_relative_path :: string
  sc_generation :: u32
  sc_checksum :: u64
  sc_block_size :: u32
  sc_record_count :: u64

record ChunkMeta =
  cm_chunk_id :: u64
  cm_month_key :: string
  cm_start_ts :: i64
  cm_end_ts :: i64
  cm_count :: u64
  cm_state :: ChunkState
  cm_layout_version :: u32
  cm_header_len :: u32
  cm_sparse_index_every :: u32
  cm_sparse_index_offset :: u64
  cm_sparse_index_len :: u32
  cm_chunk_checksum :: u64
  cm_generation :: u32
  cm_relative_path :: string
  cm_sidecars :: "SidecarMeta list"

definition chunk_meta_validate :: "ChunkMeta \<Rightarrow> unit res" where
  "chunk_meta_validate c =
     and_then (ensure (\<not> (cm_count c > 0 \<and> cm_start_ts c > cm_end_ts c))
       (InvalidData ''chunk has start_ts after end_ts'')) (\<lambda>_.
     and_then (ensure (\<not> is_blank (cm_relative_path c))
       (InvalidData ''chunk relative_path must not be empty'')) (\<lambda>_.
     ensure (cm_sparse_index_every c \<noteq> 0) (InvalidData ''chunk has sparse_index_every=0'')))"

record SeriesMeta =
  sm_symbol :: string
  sm_category :: string
  sm_name :: string
  sm_timeframe_ms :: i64
  sm_record_type :: RecordType
  sm_record_size :: u32
  sm_schema_id :: u32
  sm_price_scale :: i64
  sm_volume_scale :: i64
  sm_chunk_unit :: string
  sm_series_id :: u64
  sm_manifest_seq :: u64
  sm_created_at :: i64
  sm_updated_at :: i64
  sm_flags :: u32
  sm_active_chunk_id :: "u64 option"
  sm_chunks :: "ChunkMeta list"

text \<open>The loop of \<open>SeriesMeta::validate\<close>, with \<open>prev_end\<close> as its carried variable.\<close>

fun validate_chunks :: "i64 option \<Rightarrow> ChunkMeta list \<Rightarrow> unit res" where
  "validate_chunks prev_end [] = Inr ()"
| "validate_chunks prev_end (c # cs) =
     and_then (chunk_meta_validate c) (\<lambda>_.
     and_then (case prev_end of
         None \<Rightarrow> Inr ()
       | Some end_ts \<Rightarrow> ensure (\<not> cm_start_ts c \<le> end_ts)
           (InvalidData ''series has overlapping or unsorted chunks'')) (\<lambda>_.
     validate_chunks (Some (cm_end_ts c)) cs))"

definition series_meta_validate :: "SeriesMeta \<Rightarrow> unit res" where
  "series_meta_validate m =
     and_then (ensure (\<not> (is_blank (sm_symbol m) \<or> is_blank (sm_category m) \<or> is_blank (sm_name m)))
       (InvalidData ''series identity fields must not be empty'')) (\<lambda>_.
     and_then (ensure (sm_record_size m \<noteq> 0)
       (InvalidData ''record_size must be greater than zero'')) (\<lambda>_.
     and_then (partition_unit_from_str (sm_chunk_unit m)) (\<lambda>unit.
     and_then (ensure (is_time_based unit)
       (InvalidData ''partition unit is declared but not implemented yet'')) (\<lambda>_.
     validate_chunks None (sm_chunks m)))))"

section \<open>Routing timestamps and ranges to chunks\<close>

definition find_chunk_for_ts :: "SeriesMeta \<Rightarrow> i64 \<Rightarrow> nat option" where
  "find_chunk_for_ts m ts =
     (let cs = sm_chunks m in
      if cs = [] then None
      else
        let left = bsearch (\<lambda>mid. cm_start_ts (cs ! mid) \<le> ts) 0 (length cs) in
        if left = 0 then None
        else
          let index = left - 1 in
          if cm_start_ts (cs ! index) \<le> ts \<and> cm_end_ts (cs ! index) \<ge> ts then Some index else None)"

definition first_chunk_with_end_ge :: "SeriesMeta \<Rightarrow> i64 \<Rightarrow> nat" where
  "first_chunk_with_end_ge m ts =
     bsearch (\<lambda>mid. cm_end_ts (sm_chunks m ! mid) < ts) 0 (length (sm_chunks m))"

definition first_chunk_with_start_gt :: "SeriesMeta \<Rightarrow> i64 \<Rightarrow> nat" where
  "first_chunk_with_start_gt m ts =
     bsearch (\<lambda>mid. cm_start_ts (sm_chunks m ! mid) \<le> ts) 0 (length (sm_chunks m))"

text \<open>A \<open>Range<usize>\<close> is the pair of its bounds.\<close>

definition find_chunks_for_range :: "SeriesMeta \<Rightarrow> i64 \<Rightarrow> i64 \<Rightarrow> nat \<times> nat" where
  "find_chunks_for_range m start_ts end_ts =
     (if start_ts > end_ts \<or> sm_chunks m = [] then (0, 0)
      else
        let start_index = first_chunk_with_end_ge m start_ts in
        if start_index \<ge> length (sm_chunks m) then (0, 0)
        else
          let end_exclusive = first_chunk_with_start_gt m end_ts in
          if start_index \<ge> end_exclusive then (0, 0) else (start_index, end_exclusive))"

definition latest_chunk_index :: "SeriesMeta \<Rightarrow> nat option" where
  "latest_chunk_index m = (if sm_chunks m = [] then None else Some (length (sm_chunks m) - 1))"

definition chunk_indices_for_partition :: "SeriesMeta \<Rightarrow> string \<Rightarrow> nat list" where
  "chunk_indices_for_partition m key =
     filter (\<lambda>i. cm_month_key (sm_chunks m ! i) = key) [0..<length (sm_chunks m)]"

definition chunk_indices_for_month :: "SeriesMeta \<Rightarrow> string \<Rightarrow> nat list" where
  "chunk_indices_for_month m month_key = chunk_indices_for_partition m month_key"

section \<open>What a valid manifest guarantees\<close>

text \<open>
  The specification of a chunk list: every chunk's span is non-empty and ends before the next
  one starts, so the spans are ordered and disjoint.
\<close>

definition spans_ordered :: "ChunkMeta list \<Rightarrow> bool" where
  "spans_ordered cs \<longleftrightarrow>
     (\<forall>c \<in> set cs. cm_start_ts c \<le> cm_end_ts c) \<and> sorted_wrt (\<lambda>a b. cm_end_ts a < cm_start_ts b) cs"

lemma chunk_meta_validate_iff:
  "chunk_meta_validate c = Inr u \<longleftrightarrow>
     (cm_count c > 0 \<longrightarrow> cm_start_ts c \<le> cm_end_ts c) \<and> \<not> is_blank (cm_relative_path c)
     \<and> cm_sparse_index_every c \<noteq> 0"
  by (auto simp: chunk_meta_validate_def res_simps not_less)

text \<open>
  A chunk of zero rows escapes the check \<open>start_ts <= end_ts\<close>, so the ordering of the spans
  needs the chunks to hold rows; every chunk that the writers produce does.
\<close>

lemma validate_chunks_Inr:
  "validate_chunks prev cs = Inr () \<Longrightarrow> \<forall>c \<in> set cs. cm_count c > 0 \<Longrightarrow>
     spans_ordered cs \<and> (\<forall>e. prev = Some e \<longrightarrow> (\<forall>c \<in> set cs. e < cm_start_ts c))"
proof (induction prev cs rule: validate_chunks.induct)
  case (1 prev)
  then show ?case by (simp add: spans_ordered_def)
next
  case (2 prev c cs)
  have c: "cm_start_ts c \<le> cm_end_ts c" "\<forall>e. prev = Some e \<longrightarrow> e < cm_start_ts c"
    and tl: "validate_chunks (Some (cm_end_ts c)) cs = Inr ()"
    using "2.prems" by (auto simp: res_simps chunk_meta_validate_iff split: option.splits)
  have IH: "spans_ordered cs" "\<forall>d \<in> set cs. cm_end_ts c < cm_start_ts d"
    using "2.IH" "2.prems" tl by (auto simp: res_simps)
  have "\<forall>e. prev = Some e \<longrightarrow> (\<forall>d \<in> set cs. e < cm_start_ts d)"
    using c IH(2) by (fastforce simp: i64_ord)
  with c IH show ?case by (auto simp: spans_ordered_def)
qed

lemma series_meta_validate_spans:
  "series_meta_validate m = Inr () \<Longrightarrow> \<forall>c \<in> set (sm_chunks m). cm_count c > 0 \<Longrightarrow>
     spans_ordered (sm_chunks m)"
  using validate_chunks_Inr [of None "sm_chunks m"] by (auto simp: series_meta_validate_def res_simps)

lemma validate_chunks_complete:
  "(\<forall>c \<in> set cs. chunk_meta_validate c = Inr ()) \<Longrightarrow> spans_ordered cs \<Longrightarrow>
     (\<forall>e. prev = Some e \<longrightarrow> (\<forall>c \<in> set cs. e < cm_start_ts c)) \<Longrightarrow> validate_chunks prev cs = Inr ()"
  by (induction prev cs rule: validate_chunks.induct)
    (auto simp: spans_ordered_def not_le split: option.splits)

lemma validate_chunks_each:
  "validate_chunks prev cs = Inr () \<Longrightarrow> \<forall>c \<in> set cs. chunk_meta_validate c = Inr ()"
  by (induction prev cs rule: validate_chunks.induct) (auto simp: res_simps)

lemma spans_ordered_nth:
  assumes "spans_ordered cs" and "i < j" and "j < length cs"
  shows "cm_end_ts (cs ! i) < cm_start_ts (cs ! j)" and "cm_start_ts (cs ! i) < cm_start_ts (cs ! j)"
    and "cm_end_ts (cs ! i) < cm_end_ts (cs ! j)"
proof -
  have s: "cm_start_ts (cs ! i) \<le> cm_end_ts (cs ! i)" "cm_start_ts (cs ! j) \<le> cm_end_ts (cs ! j)"
    using assms by (auto simp: spans_ordered_def)
  show *: "cm_end_ts (cs ! i) < cm_start_ts (cs ! j)"
    using assms by (auto simp: spans_ordered_def sorted_wrt_iff_nth_less)
  show "cm_start_ts (cs ! i) < cm_start_ts (cs ! j)" and "cm_end_ts (cs ! i) < cm_end_ts (cs ! j)"
    using * s by (simp_all add: i64_ord)
qed

lemma spans_ordered_disjoint:
  assumes "spans_ordered cs" and "c \<in> set cs" and "d \<in> set cs" and "c \<noteq> d"
  shows "cm_end_ts c < cm_start_ts d \<or> cm_end_ts d < cm_start_ts c"
proof -
  obtain i j where ij: "i < length cs" "j < length cs" "c = cs ! i" "d = cs ! j"
    using assms(2,3) by (metis in_set_conv_nth)
  with assms(4) have "i < j \<or> j < i" by (metis linorder_neq_iff)
  with ij spans_ordered_nth(1) [OF assms(1)] show ?thesis by blast
qed

lemma spans_partitioned:
  assumes "spans_ordered cs"
  shows "partitioned (\<lambda>i. cm_start_ts (cs ! i) \<le> ts) 0 (length cs)"
    and "partitioned (\<lambda>i. cm_end_ts (cs ! i) < ts) 0 (length cs)"
proof -
  have "cm_start_ts (cs ! i) \<le> cm_start_ts (cs ! j) \<and> cm_end_ts (cs ! i) \<le> cm_end_ts (cs ! j)"
    if "i \<le> j" "j < length cs" for i j
    using spans_ordered_nth(2,3) [OF assms, of i j] that by (cases "i = j") auto
  then show "partitioned (\<lambda>i. cm_start_ts (cs ! i) \<le> ts) 0 (length cs)"
    and "partitioned (\<lambda>i. cm_end_ts (cs ! i) < ts) 0 (length cs)"
    unfolding partitioned_def by (meson order.trans order.strict_trans1)+
qed

lemma first_chunk_boundaries:
  assumes "spans_ordered (sm_chunks m)"
  shows "is_boundary (\<lambda>i. cm_start_ts (sm_chunks m ! i) \<le> ts) 0 (length (sm_chunks m))
      (first_chunk_with_start_gt m ts)"
    and "is_boundary (\<lambda>i. cm_end_ts (sm_chunks m ! i) < ts) 0 (length (sm_chunks m))
      (first_chunk_with_end_ge m ts)"
  unfolding first_chunk_with_start_gt_def first_chunk_with_end_ge_def
  using spans_partitioned [OF assms] by (blast intro: bsearch_boundary)+

lemma find_chunk_for_ts_eq:
  "find_chunk_for_ts m ts =
     (let k = first_chunk_with_start_gt m ts in
      if k \<noteq> 0 \<and> cm_start_ts (sm_chunks m ! (k - 1)) \<le> ts \<and> ts \<le> cm_end_ts (sm_chunks m ! (k - 1))
      then Some (k - 1) else None)"
  by (simp add: find_chunk_for_ts_def first_chunk_with_start_gt_def Let_def)

lemma find_chunk_for_ts_exact:
  assumes "spans_ordered (sm_chunks m)"
  shows "find_chunk_for_ts m ts = Some i \<longleftrightarrow>
    i < length (sm_chunks m) \<and> cm_start_ts (sm_chunks m ! i) \<le> ts \<and> ts \<le> cm_end_ts (sm_chunks m ! i)"
    (is "_ \<longleftrightarrow> ?hit i")
proof -
  let ?k = "first_chunk_with_start_gt m ts"
  have k: "is_boundary (\<lambda>i. cm_start_ts (sm_chunks m ! i) \<le> ts) 0 (length (sm_chunks m)) ?k"
    by (rule first_chunk_boundaries [OF assms])
  have hitD: "i = ?k - 1 \<and> ?k \<noteq> 0" if hit: "?hit i"
  proof -
    have "i < ?k" using hit k by (auto simp: is_boundary_def not_less)
    moreover have "\<not> Suc i < ?k"
    proof
      assume "Suc i < ?k"
      then have "cm_start_ts (sm_chunks m ! Suc i) \<le> ts" "Suc i < length (sm_chunks m)"
        using k by (auto simp: is_boundary_def)
      with hit spans_ordered_nth(1) [OF assms, of i "Suc i"] show False by (simp add: i64_ord)
    qed
    ultimately show ?thesis by auto
  qed
  have "?k \<le> length (sm_chunks m)" using k by (simp add: is_boundary_def)
  then show ?thesis using hitD by (auto simp: find_chunk_for_ts_eq Let_def)
qed

lemma find_chunks_for_range_exact:
  assumes "spans_ordered (sm_chunks m)" and "find_chunks_for_range m s e = (a, b)"
  shows "b \<le> length (sm_chunks m)"
    and "i < length (sm_chunks m) \<Longrightarrow>
      a \<le> i \<and> i < b \<longleftrightarrow> s \<le> e \<and> cm_start_ts (sm_chunks m ! i) \<le> e \<and> s \<le> cm_end_ts (sm_chunks m ! i)"
proof -
  note B = first_chunk_boundaries [OF assms(1), unfolded is_boundary_def]
  have hit: "first_chunk_with_end_ge m s \<le> i \<and> i < first_chunk_with_start_gt m e \<longleftrightarrow>
      cm_start_ts (sm_chunks m ! i) \<le> e \<and> s \<le> cm_end_ts (sm_chunks m ! i)"
    if "i < length (sm_chunks m)" for i
    using B(1) [of e] B(2) [of s] that by (meson le0 not_less)
  show "b \<le> length (sm_chunks m)"
    using assms(2) B(1) [of e] by (auto simp: find_chunks_for_range_def Let_def split: if_splits)
  show "i < length (sm_chunks m) \<Longrightarrow>
      a \<le> i \<and> i < b \<longleftrightarrow> s \<le> e \<and> cm_start_ts (sm_chunks m ! i) \<le> e \<and> s \<le> cm_end_ts (sm_chunks m ! i)"
    using assms(2) hit [of i] by (auto simp: find_chunks_for_range_def Let_def split: if_splits)
qed

end
