(* ===== verification/Paths.thy ===== *)
theory Paths
  imports Meta
begin

text \<open>
  File and partition naming (\<^verbatim>\<open>src/src/store_core/storage/path.rs\<close>): Unix paths as
  component lists, the layout of a series directory, the three kinds of chunk file names, and
  the partition keys of timestamps. The calendar (\<^verbatim>\<open>chrono\<close>) is a parameter: a function
  that maps a millisecond timestamp to year, month, day and hour, or to nothing when the
  timestamp is out of its range. Shown here: equal keys mean equal calendar periods, and the
  file names of a partition never collide.
\<close>

section \<open>Decimal formatting\<close>

text \<open>\<open>{}\<close>, \<open>{:0w}\<close> of an unsigned number and \<open>{:04}\<close> of a signed one (the sign counts).\<close>

definition digit_char :: "nat \<Rightarrow> char" where
  "digit_char d = char_of (48 + d)"

fun fmt_nat :: "nat \<Rightarrow> string" where
  "fmt_nat n = (if n < 10 then [digit_char n] else fmt_nat (n div 10) @ [digit_char (n mod 10)])"

declare fmt_nat.simps [simp del]

definition fmt_pad :: "nat \<Rightarrow> nat \<Rightarrow> string" where
  "fmt_pad w n = (let s = fmt_nat n in replicate (w - length s) CHR ''0'' @ s)"

definition fmt_year :: "int \<Rightarrow> string" where
  "fmt_year y = (if y < 0 then CHR ''-'' # fmt_pad 3 (nat (- y)) else fmt_pad 4 (nat y))"

text \<open>Reading digits back, to show that formatting is injective.\<close>

fun digits_value :: "nat \<Rightarrow> string \<Rightarrow> nat" where
  "digits_value acc [] = acc"
| "digits_value acc (c # cs) = digits_value (acc * 10 + (of_char c - 48)) cs"

lemma digits_value_append: "digits_value a (xs @ ys) = digits_value (digits_value a xs) ys"
  by (induction a xs rule: digits_value.induct) simp_all

lemma of_char_digit: "d < 10 \<Longrightarrow> of_char (digit_char d) = (48 + d :: nat)"
  by (simp add: digit_char_def)

lemma digits_value_fmt_nat: "digits_value 0 (fmt_nat n) = n"
proof (induction n rule: fmt_nat.induct)
  case (1 n)
  show ?case
  proof (cases "n < 10")
    case True
    then show ?thesis by (simp add: fmt_nat.simps [of n] of_char_digit)
  next
    case False
    then show ?thesis using 1
      by (simp add: fmt_nat.simps [of n] digits_value_append of_char_digit)
  qed
qed

lemma digits_value_zeros: "digits_value 0 (replicate k CHR ''0'') = 0"
  by (induction k) simp_all

lemma digits_value_fmt_pad [simp]: "digits_value 0 (fmt_pad w n) = n"
  by (simp add: fmt_pad_def Let_def digits_value_append digits_value_zeros digits_value_fmt_nat)

lemma fmt_pad_inject [simp]: "fmt_pad w n = fmt_pad w m \<longleftrightarrow> n = m"
  by (metis digits_value_fmt_pad)

lemma fmt_nat_digits: "c \<in> set (fmt_nat n) \<Longrightarrow> \<exists>d < 10. c = digit_char d"
proof (induction n rule: fmt_nat.induct)
  case (1 n)
  show ?case
  proof (cases "n < 10")
    case True
    with "1.prems" show ?thesis by (auto simp: fmt_nat.simps [of n])
  next
    case False
    with 1 show ?thesis by (auto simp: fmt_nat.simps [of n] intro: exI [of _ "n mod 10"])
  qed
qed

lemma fmt_pad_digits: "c \<in> set (fmt_pad w n) \<Longrightarrow> \<exists>d < 10. c = digit_char d"
proof -
  have "of_char CHR ''0'' = (48 :: nat)" by simp
  then have "CHR ''0'' = digit_char 0" by (metis add_0_right char_of_char digit_char_def)
  then show "c \<in> set (fmt_pad w n) \<Longrightarrow> ?thesis"
    by (auto simp: fmt_pad_def Let_def dest: fmt_nat_digits intro: exI [of _ 0] split: if_splits)
qed

lemma fmt_pad_no_sep [simp]:
  "CHR ''-'' \<notin> set (fmt_pad w n)" "CHR ''T'' \<notin> set (fmt_pad w n)"
proof -
  have "of_char c \<in> {48..57 :: nat}" if "c \<in> set (fmt_pad w n)" for c
    using fmt_pad_digits [OF that] by (auto simp: of_char_digit)
  from this [of "CHR ''-''"] this [of "CHR ''T''"]
  show "CHR ''-'' \<notin> set (fmt_pad w n)" "CHR ''T'' \<notin> set (fmt_pad w n)" by auto
qed

lemma fmt_year_inject [simp]: "fmt_year y = fmt_year z \<longleftrightarrow> y = z"
proof -
  have neg: "CHR ''-'' # xs \<noteq> fmt_pad w n" for xs w n
    using fmt_pad_no_sep(1) [of w n] by (metis list.set_intros(1))
  have "fmt_year y = fmt_year z \<Longrightarrow> (y < 0) = (z < 0)"
    unfolding fmt_year_def using neg by (metis (full_types))
  then show ?thesis by (auto simp: fmt_year_def split: if_splits)
qed

text \<open>Splitting at a separator that the suffix does not contain.\<close>

lemma append_sep_inject:
  assumes "a @ c # b = a' @ c # b'" and "c \<notin> set b" and "c \<notin> set b'"
  shows "a = a' \<and> b = b'"
proof -
  have "rev b @ c # rev a = rev b' @ c # rev a'" using assms(1) by (metis rev.simps(2) rev_append append_assoc append_Cons append_Nil)
  then have "takeWhile (\<lambda>x. x \<noteq> c) (rev b @ c # rev a) = takeWhile (\<lambda>x. x \<noteq> c) (rev b' @ c # rev a')" by simp
  moreover have "takeWhile (\<lambda>x. x \<noteq> c) (rev xs @ c # ys) = rev xs" if "c \<notin> set xs" for xs ys
    using that by (subst takeWhile_append2) auto
  ultimately have "rev b = rev b'" using assms(2,3) by simp
  with assms(1) show ?thesis by simp
qed

section \<open>Paths\<close>

text \<open>
  A Unix \<open>Path\<close> up to its equality: whether it is absolute, and its components with empty and
  \<open>.\<close> parts dropped. (\<open>..\<close> is kept, as in \<open>Path::components\<close>.)
\<close>

record path =
  has_root :: bool
  comps :: "string list"

fun split_on :: "char \<Rightarrow> string \<Rightarrow> string list" where
  "split_on sep [] = [[]]"
| "split_on sep (c # cs) =
     (if c = sep then [] # split_on sep cs
      else (case split_on sep cs of p # ps \<Rightarrow> (c # p) # ps | [] \<Rightarrow> [[c]]))"

definition components :: "string \<Rightarrow> string list" where
  "components s = filter (\<lambda>p. p \<noteq> [] \<and> p \<noteq> ''.'') (split_on CHR ''/'' s)"

definition path_join :: "path \<Rightarrow> string \<Rightarrow> path" where
  "path_join p s =
     (if take 1 s = ''/'' then \<lparr>has_root = True, comps = components s\<rparr>
      else p\<lparr>comps := comps p @ components s\<rparr>)"

definition path_parent :: "path \<Rightarrow> path option" where
  "path_parent p = (if comps p = [] then None else Some (p\<lparr>comps := butlast (comps p)\<rparr>))"

definition path_file_name :: "path \<Rightarrow> string option" where
  "path_file_name p =
     (if comps p = [] \<or> last (comps p) = ''..'' then None else Some (last (comps p)))"

definition path_with_file_name :: "path \<Rightarrow> string \<Rightarrow> path" where
  "path_with_file_name p name =
     path_join (if path_file_name p = None then p else p\<lparr>comps := butlast (comps p)\<rparr>) name"

definition SERIES_DIR :: string where "SERIES_DIR = ''series''"
definition KLINE_CATEGORY :: string where "KLINE_CATEGORY = ''kline''"
definition TRADE_CATEGORY :: string where "TRADE_CATEGORY = ''trade''"
definition BBO_CATEGORY :: string where "BBO_CATEGORY = ''bbo''"
definition BOOK_DELTA_CATEGORY :: string where "BOOK_DELTA_CATEGORY = ''book_delta''"
definition CHUNKS_DIR :: string where "CHUNKS_DIR = ''chunks''"
definition MANIFEST_FILE :: string where "MANIFEST_FILE = ''series.meta''"

definition series_root :: "path \<Rightarrow> path" where
  "series_root root = path_join root SERIES_DIR"

definition series_dir :: "path \<Rightarrow> string \<Rightarrow> string \<Rightarrow> string \<Rightarrow> path" where
  "series_dir root symbol category name =
     path_join (path_join (path_join (series_root root) symbol) category) name"

definition kline_series_dir :: "path \<Rightarrow> string \<Rightarrow> string \<Rightarrow> path" where
  "kline_series_dir root symbol timeframe = series_dir root symbol KLINE_CATEGORY timeframe"

definition scalar_series_dir :: "path \<Rightarrow> string \<Rightarrow> string \<Rightarrow> string \<Rightarrow> path" where
  "scalar_series_dir root symbol category name = series_dir root symbol category name"

definition chunks_dir :: "path \<Rightarrow> path" where
  "chunks_dir dir = path_join dir CHUNKS_DIR"

definition series_meta_path :: "path \<Rightarrow> path" where
  "series_meta_path dir = path_join dir MANIFEST_FILE"

definition chunk_relative_path :: "string \<Rightarrow> string" where
  "chunk_relative_path file_name = CHUNKS_DIR @ ''/'' @ file_name"

definition resolve_relative_path :: "path \<Rightarrow> string \<Rightarrow> path" where
  "resolve_relative_path dir relative_path =
     (let normalized = map (\<lambda>c. if c = CHR 0x5C then CHR ''/'' else c) relative_path in
      foldl path_join dir (filter (\<lambda>part. part \<noteq> []) (split_on CHR ''/'' normalized)))"

definition partition_chunk_file_name :: "string \<Rightarrow> string" where
  "partition_chunk_file_name key = key @ ''.chunk''"

definition partition_delta_chunk_file_name :: "string \<Rightarrow> u32 \<Rightarrow> string" where
  "partition_delta_chunk_file_name key generation =
     key @ ''.delta.g'' @ fmt_pad 8 (unat generation) @ ''.chunk''"

definition partition_merged_chunk_file_name :: "string \<Rightarrow> u32 \<Rightarrow> string" where
  "partition_merged_chunk_file_name key generation =
     key @ ''.g'' @ fmt_pad 8 (unat generation) @ ''.chunk''"

definition month_delta_chunk_file_name :: "string \<Rightarrow> u32 \<Rightarrow> string" where
  "month_delta_chunk_file_name month_key generation = partition_delta_chunk_file_name month_key generation"

definition month_merged_chunk_file_name :: "string \<Rightarrow> u32 \<Rightarrow> string" where
  "month_merged_chunk_file_name month_key generation = partition_merged_chunk_file_name month_key generation"

definition sidecar_relative_path :: "string \<Rightarrow> string \<Rightarrow> string" where
  "sidecar_relative_path chunk_path extension = chunk_path @ ''.'' @ extension"

section \<open>Partition keys\<close>

text \<open>\<open>from_timestamp_millis\<close> of chrono, reduced to the fields the code formats.\<close>

type_synonym calendar = "i64 \<Rightarrow> (int \<times> nat \<times> nat \<times> nat) option"

definition month_key :: "calendar \<Rightarrow> i64 \<Rightarrow> string res" where
  "month_key utc ts =
     and_then (ok_or (utc ts) (InvalidInput ''timestamp out of range'')) (\<lambda>(year, month, day, hour).
     Inr (fmt_year year @ ''-'' @ fmt_pad 2 month))"

definition month_chunk_file_name :: "calendar \<Rightarrow> i64 \<Rightarrow> string res" where
  "month_chunk_file_name utc ts = and_then (month_key utc ts) (\<lambda>key. Inr (partition_chunk_file_name key))"

definition partition_key :: "calendar \<Rightarrow> i64 \<Rightarrow> PartitionUnit \<Rightarrow> string res" where
  "partition_key utc ts unit =
     and_then (ok_or (utc ts) (InvalidInput ''timestamp out of range'')) (\<lambda>(year, month, day, hour).
     case unit of
       Month \<Rightarrow> Inr (fmt_year year @ ''-'' @ fmt_pad 2 month)
     | Day \<Rightarrow> Inr (fmt_year year @ ''-'' @ fmt_pad 2 month @ ''-'' @ fmt_pad 2 day)
     | Hour \<Rightarrow> Inr (fmt_year year @ ''-'' @ fmt_pad 2 month @ ''-'' @ fmt_pad 2 day @ ''T'' @ fmt_pad 2 hour)
     | _ \<Rightarrow> Inl (InvalidInput ''partition unit is not implemented for timestamp partitioning''))"

text \<open>The calendar period of a timestamp that a key of the unit names.\<close>

fun period :: "PartitionUnit \<Rightarrow> int \<times> nat \<times> nat \<times> nat \<Rightarrow> int \<times> nat \<times> nat \<times> nat" where
  "period Month (y, m, d, h) = (y, m, 0, 0)"
| "period Day (y, m, d, h) = (y, m, d, 0)"
| "period Hour (y, m, d, h) = (y, m, d, h)"
| "period _ (y, m, d, h) = (y, m, d, h)"

lemma sep_inject:
  "a @ CHR ''-'' # fmt_pad 2 m = b @ CHR ''-'' # fmt_pad 2 n \<longleftrightarrow> a = b \<and> m = n"
  "a @ CHR ''T'' # fmt_pad 2 m = b @ CHR ''T'' # fmt_pad 2 n \<longleftrightarrow> a = b \<and> m = n"
  using append_sep_inject [of a "CHR ''-''" "fmt_pad 2 m" b "fmt_pad 2 n"]
    append_sep_inject [of a "CHR ''T''" "fmt_pad 2 m" b "fmt_pad 2 n"] by auto

lemma period_keys_inject:
  fixes y y' :: int
  shows "fmt_year y @ ''-'' @ fmt_pad 2 m = fmt_year y' @ ''-'' @ fmt_pad 2 m' \<longleftrightarrow> y = y' \<and> m = m'" (is ?M)
    and "fmt_year y @ ''-'' @ fmt_pad 2 m @ ''-'' @ fmt_pad 2 d
      = fmt_year y' @ ''-'' @ fmt_pad 2 m' @ ''-'' @ fmt_pad 2 d' \<longleftrightarrow> y = y' \<and> m = m' \<and> d = d'" (is ?D)
    and "fmt_year y @ ''-'' @ fmt_pad 2 m @ ''-'' @ fmt_pad 2 d @ ''T'' @ fmt_pad 2 h
      = fmt_year y' @ ''-'' @ fmt_pad 2 m' @ ''-'' @ fmt_pad 2 d' @ ''T'' @ fmt_pad 2 h'
      \<longleftrightarrow> y = y' \<and> m = m' \<and> d = d' \<and> h = h'" (is ?H)
proof -
  show m: ?M using sep_inject(1) [of "fmt_year y" m "fmt_year y'" m'] by simp
  show d: ?D
    using m sep_inject(1) [of "fmt_year y @ ''-'' @ fmt_pad 2 m" d "fmt_year y' @ ''-'' @ fmt_pad 2 m'" d']
    by simp
  show ?H
    using d sep_inject(2) [of "fmt_year y @ ''-'' @ fmt_pad 2 m @ ''-'' @ fmt_pad 2 d" h
        "fmt_year y' @ ''-'' @ fmt_pad 2 m' @ ''-'' @ fmt_pad 2 d'" h'] by simp
qed

lemma partition_key_period:
  assumes "is_time_based unit" and "utc ts = Some p" and "utc ts' = Some p'"
  shows "partition_key utc ts unit = partition_key utc ts' unit \<longleftrightarrow> period unit p = period unit p'"
proof -
  obtain y m d h where p: "p = (y, m, d, h)" by (metis prod_cases4)
  obtain y' m' d' h' where p': "p' = (y', m', d', h')" by (metis prod_cases4)
  show ?thesis using assms
    by (cases unit) (simp_all add: p p' partition_key_def is_time_based_def period_keys_inject
        del: append_Cons append_Nil)
qed

lemma chunk_file_names_distinct:
  "partition_delta_chunk_file_name key g = partition_delta_chunk_file_name key g' \<longleftrightarrow> g = g'"
  "partition_merged_chunk_file_name key g = partition_merged_chunk_file_name key g' \<longleftrightarrow> g = g'"
  "partition_delta_chunk_file_name key g \<noteq> partition_merged_chunk_file_name key g'"
  "partition_delta_chunk_file_name key g \<noteq> partition_chunk_file_name key"
  "partition_merged_chunk_file_name key g \<noteq> partition_chunk_file_name key"
  by (simp_all add: partition_delta_chunk_file_name_def partition_merged_chunk_file_name_def
      partition_chunk_file_name_def word_unat_eq_iff)

end
