(* ===== verification/FileIO.thy ===== *)
theory FileIO
  imports Paths
begin

text \<open>
  File access: the cursor with explicit offsets of \<^verbatim>\<open>src/src/store_core/chunk/file.rs\<close>, the
  checksum and the crash-safe file replacement of \<^verbatim>\<open>src/src/store_core/storage/fs.rs\<close>.

  The system call \<open>pread\<close> is a parameter that may return short counts and be interrupted;
  under its documented behaviour the read loop returns exactly the requested bytes
  (\<open>read_at\<close>, which the chunk readers then use). For \<open>atomic_write\<close> the model keeps, beside
  the visible directory tree, what of its files and of its directories is on stable storage and
  whether a file's data has been synced, so that a loss of power after any system call is a
  state one can reason about.
\<close>

section \<open>The positioned reader\<close>

record ChunkFile =
  cf_file :: "u8 list"
  cf_offset :: u64

record ReadSpan =
  rs_file :: ChunkFile
  rs_offset :: u64
  rs_rows :: nat

definition chunk_file_new :: "u8 list \<Rightarrow> ChunkFile" where
  "chunk_file_new file = \<lparr>cf_file = file, cf_offset = 0\<rparr>"

definition chunk_file_open :: "(path \<rightharpoonup> u8 list) \<Rightarrow> path \<Rightarrow> io_kind + ChunkFile" where
  "chunk_file_open fs p = and_then (ok_or (fs p) NotFoundKind) (\<lambda>file. Inr (chunk_file_new file))"

text \<open>
  \<open>pread k file n offset\<close> is the outcome of the \<open>k\<close>-th call of the process: the bytes
  transferred, or an error kind.
\<close>

type_synonym pread = "nat \<Rightarrow> u8 list \<Rightarrow> nat \<Rightarrow> u64 \<Rightarrow> io_kind + u8 list"

definition read_uninit :: "pread \<Rightarrow> nat \<Rightarrow> ChunkFile \<Rightarrow> nat \<Rightarrow> (io_kind + u8 list) \<times> ChunkFile" where
  "read_uninit pread k f n =
     (if n = 0 then (Inr [], f)
      else case pread k (cf_file f) n (cf_offset f) of
        Inl e \<Rightarrow> (Inl e, f)
      | Inr bytes \<Rightarrow>
          (case checked_add (cf_offset f) (word_of_nat (length bytes)) of
             None \<Rightarrow> (Inl InvalidInputKind, f)
           | Some offset \<Rightarrow> (Inr bytes, f\<lparr>cf_offset := offset\<rparr>)))"

text \<open>
  The loop retries interrupted calls without bound, so it carries fuel: the number of system
  calls it may make. \<open>None\<close> means that they did not suffice.
\<close>

fun read_exact_uninit ::
  "pread \<Rightarrow> nat \<Rightarrow> nat \<Rightarrow> ChunkFile \<Rightarrow> nat \<Rightarrow> ((io_kind + u8 list) \<times> ChunkFile) option" where
  "read_exact_uninit pread fuel k f n =
     (if n = 0 then Some (Inr [], f)
      else case fuel of
        0 \<Rightarrow> None
      | Suc fuel' \<Rightarrow>
          (case read_uninit pread k f n of
             (Inr [], f') \<Rightarrow> Some (Inl UnexpectedEof, f')
           | (Inr bytes, f') \<Rightarrow>
               (case read_exact_uninit pread fuel' (Suc k) f' (n - length bytes) of
                  Some (Inr rest, f'') \<Rightarrow> Some (Inr (bytes @ rest), f'')
                | other \<Rightarrow> other)
           | (Inl e, f') \<Rightarrow>
               (if e = Interrupted then read_exact_uninit pread fuel' (Suc k) f' n
                else Some (Inl e, f'))))"

declare read_exact_uninit.simps [simp del]

datatype SeekFrom = SeekStart u64 | SeekCurrent i64 | SeekEnd i64

definition checked_add_signed :: "u64 \<Rightarrow> i64 \<Rightarrow> u64 option" where
  "checked_add_signed a d =
     (let s = uint a + ival d in if 0 \<le> s \<and> s < 2 ^ 64 then Some (word_of_int s) else None)"

definition chunk_file_seek :: "ChunkFile \<Rightarrow> SeekFrom \<Rightarrow> (io_kind + u64) \<times> ChunkFile" where
  "chunk_file_seek f position =
     (let offset = (case position of
          SeekStart offset \<Rightarrow> Some offset
        | SeekCurrent delta \<Rightarrow> checked_add_signed (cf_offset f) delta
        | SeekEnd delta \<Rightarrow> checked_add_signed (word_of_nat (length (cf_file f))) delta) in
      case offset of
        None \<Rightarrow> (Inl InvalidInputKind, f)
      | Some offset \<Rightarrow> (Inr offset, f\<lparr>cf_offset := offset\<rparr>))"

text \<open>
  What a seek to an absolute offset followed by an exact read returns. A read of no bytes
  succeeds anywhere.
\<close>

definition read_at :: "u8 list \<Rightarrow> u64 \<Rightarrow> nat \<Rightarrow> u8 list res" where
  "read_at file offset n =
     (if n = 0 then Inr []
      else if unat offset + n \<le> length file then Inr (slice_of (unat offset) (unat offset + n) file)
      else Inl (Io UnexpectedEof))"

text \<open>
  The documented behaviour of \<open>pread\<close> on a regular file: it transfers a prefix of what was
  asked, nothing only at the end of the file, and fails only by being interrupted; a call that
  is not interrupted comes up again and again.
\<close>

definition pread_ok :: "pread \<Rightarrow> bool" where
  "pread_ok pread \<longleftrightarrow>
     (\<forall>k file n offset. 0 < n \<and> unat offset + n < 2 ^ 63 \<longrightarrow>
       (case pread k file n offset of
          Inl e \<Rightarrow> e = Interrupted
        | Inr bytes \<Rightarrow> length bytes \<le> n
            \<and> bytes = slice_of (unat offset) (unat offset + length bytes) file
            \<and> (bytes = [] \<longrightarrow> length file \<le> unat offset)))"

definition pread_live :: "pread \<Rightarrow> bool" where
  "pread_live pread \<longleftrightarrow> (\<forall>k. \<exists>j \<ge> k. \<forall>file n offset. pread j file n offset \<noteq> Inl Interrupted)"

lemma pread_okD:
  "pread_ok pread \<Longrightarrow> 0 < n \<Longrightarrow> unat offset + n < 2 ^ 63 \<Longrightarrow>
     (case pread k file n offset of
        Inl e \<Rightarrow> e = Interrupted
      | Inr bytes \<Rightarrow> length bytes \<le> n
          \<and> bytes = slice_of (unat offset) (unat offset + length bytes) file
          \<and> (bytes = [] \<longrightarrow> length file \<le> unat offset))"
  unfolding pread_ok_def by blast

lemma read_exact_uninit_0 [simp]: "read_exact_uninit pread fuel k f 0 = Some (Inr [], f)"
  by (simp add: read_exact_uninit.simps [of pread fuel k f 0])

lemma read_at_app:
  assumes "0 < m" and "m \<le> n" and "unat offset + n < 2 ^ 63"
    and "bytes = slice_of (unat offset) (unat offset + m) file" and "length bytes = m"
  shows "read_at file offset n =
    and_then (read_at file (offset + word_of_nat m) (n - m)) (\<lambda>rest. Inr (bytes @ rest))"
proof -
  have u: "unat (offset + word_of_nat m) = unat offset + m"
    using assms by (simp add: unat_word_ariths unsigned_of_nat take_bit_nat_eq_self)
  have "unat offset + m \<le> length file" using assms by (auto simp: min_def split: if_splits)
  then show ?thesis using assms by (auto simp: read_at_def u slice_append)
qed

lemma read_exact_uninit_step:
  assumes "pread_ok pread" and "0 < n" and "unat (cf_offset f) + n < 2 ^ 63"
    and "pread k (cf_file f) n (cf_offset f) = Inr bytes"
  shows "read_uninit pread k f n
      = (Inr bytes, f\<lparr>cf_offset := cf_offset f + word_of_nat (length bytes)\<rparr>)"
    and "unat (cf_offset f + word_of_nat (length bytes)) = unat (cf_offset f) + length bytes"
    and "length bytes \<le> n"
    and "bytes = slice_of (unat (cf_offset f)) (unat (cf_offset f) + length bytes) (cf_file f)"
    and "bytes = [] \<Longrightarrow> length (cf_file f) \<le> unat (cf_offset f)"
proof -
  have spec: "length bytes \<le> n
      \<and> bytes = slice_of (unat (cf_offset f)) (unat (cf_offset f) + length bytes) (cf_file f)
      \<and> (bytes = [] \<longrightarrow> length (cf_file f) \<le> unat (cf_offset f))"
    using pread_okD [OF assms(1-3), of "cf_file f" k] unfolding assms(4) sum.case .
  then show "length bytes \<le> n"
    and "bytes = slice_of (unat (cf_offset f)) (unat (cf_offset f) + length bytes) (cf_file f)"
    and "bytes = [] \<Longrightarrow> length (cf_file f) \<le> unat (cf_offset f)" by blast+
  from spec assms(3) show "unat (cf_offset f + word_of_nat (length bytes)) = unat (cf_offset f) + length bytes"
    by (simp add: unat_word_ariths unsigned_of_nat take_bit_nat_eq_self)
  from spec assms show "read_uninit pread k f n
      = (Inr bytes, f\<lparr>cf_offset := cf_offset f + word_of_nat (length bytes)\<rparr>)"
    by (simp add: read_uninit_def checked_add_def unsigned_of_nat take_bit_nat_eq_self)
qed

text \<open>The loop returns, and returns what \<open>read_at\<close> says, however the calls are cut up.\<close>

lemma read_exact_uninit_total:
  assumes ok: "pread_ok pread" and live: "pread_live pread"
  shows "unat (cf_offset f) + n < 2 ^ 63 \<Longrightarrow>
    \<exists>fuel f' r. read_exact_uninit pread fuel k f n = Some (r, f')
      \<and> io_res r = read_at (cf_file f) (cf_offset f) n"
proof (induction n arbitrary: f k rule: less_induct)
  case (less n)
  show ?case
  proof (cases "n = 0")
    case True
    then show ?thesis by (simp add: read_at_def)
  next
    case False
    obtain j where "j \<ge> k" and j: "\<forall>file n offset. pread j file n offset \<noteq> Inl Interrupted"
      using live unfolding pread_live_def by blast
    from \<open>j \<ge> k\<close> show ?thesis
    proof (induction "j - k" arbitrary: k rule: nat_less_induct)
      case 1
      show ?case
      proof (cases "pread k (cf_file f) n (cf_offset f)")
        case (Inl e)
        have e: "e = Interrupted"
          using pread_okD [OF ok _ less.prems, of "cf_file f" k] False by (simp add: Inl)
        with j Inl 1(2) have "Suc k \<le> j" by (metis le_neq_implies_less Suc_leI)
        then obtain fuel f' r where IH: "read_exact_uninit pread fuel (Suc k) f n = Some (r, f')"
            "io_res r = read_at (cf_file f) (cf_offset f) n"
          using 1(1) by (metis Suc_le_lessD diff_less_mono2 lessI)
        have "read_exact_uninit pread (Suc fuel) k f n = Some (r, f')"
          using False Inl e IH(1) by (simp add: read_exact_uninit.simps [of pread "Suc fuel" k f n] read_uninit_def)
        with IH(2) show ?thesis by blast
      next
        case (Inr bytes)
        note st = read_exact_uninit_step [OF ok _ less.prems Inr]
        let ?f = "f\<lparr>cf_offset := cf_offset f + word_of_nat (length bytes)\<rparr>"
        show ?thesis
        proof (cases "bytes = []")
          case True
          have "read_exact_uninit pread (Suc 0) k f n = Some (Inl UnexpectedEof, ?f)"
            using False True st(1) by (simp add: read_exact_uninit.simps [of pread "Suc 0" k f n])
          moreover have "read_at (cf_file f) (cf_offset f) n = Inl (Io UnexpectedEof)"
            using False True st(5) by (simp add: read_at_def)
          ultimately show ?thesis by (metis io_res.simps(1))
        next
          case bytes: False
          have len: "0 < length bytes" "length bytes \<le> n" using bytes False st(3) by simp_all
          obtain fuel f' r where IH: "read_exact_uninit pread fuel (Suc k) ?f (n - length bytes) = Some (r, f')"
              "io_res r = read_at (cf_file f) (cf_offset ?f) (n - length bytes)"
            using less.IH [of "n - length bytes" ?f "Suc k"] len False st(2,3) less.prems
            by (auto simp: diff_less)
          let ?r = "case r of Inl e \<Rightarrow> Inl e | Inr rest \<Rightarrow> Inr (bytes @ rest)"
          have "read_exact_uninit pread (Suc fuel) k f n = Some (?r, f')"
            using False bytes st(1) IH(1)
            by (auto simp: read_exact_uninit.simps [of pread "Suc fuel" k f n] split: list.split sum.split)
          moreover have "io_res ?r = read_at (cf_file f) (cf_offset f) n"
          proof -
            have "read_at (cf_file f) (cf_offset f) n = and_then (io_res r) (\<lambda>rest. Inr (bytes @ rest))"
              unfolding IH(2) using read_at_app [OF len less.prems st(4)] False by simp
            then show ?thesis by (cases r) simp_all
          qed
          ultimately show ?thesis by blast
        qed
      qed
    qed
  qed
qed

section \<open>The checksum\<close>

definition CHECKSUM_OFFSET :: u64 where "CHECKSUM_OFFSET = 0xcbf29ce484222325"
definition CHECKSUM_PRIME :: u64 where "CHECKSUM_PRIME = 0x100000001b3"

definition checksum_step :: "u64 \<Rightarrow> u8 \<Rightarrow> u64" where
  "checksum_step digest byte = (digest XOR ucast byte) * CHECKSUM_PRIME"

definition checksum64 :: "u8 list \<Rightarrow> u64" where
  "checksum64 bytes = foldl checksum_step CHECKSUM_OFFSET bytes"

text \<open>
  Multiplication by the odd prime is invertible modulo \<open>2 ^ 64\<close>, so a step loses nothing:
  states that differ stay different under the same bytes.
\<close>

lemma checksum_prime_invertible: "CHECKSUM_PRIME * 0xce965057aff6957b = 1"
  by (simp add: CHECKSUM_PRIME_def)

lemma mult_prime_inject: "a * CHECKSUM_PRIME = b * CHECKSUM_PRIME \<longleftrightarrow> a = b"
proof
  assume "a * CHECKSUM_PRIME = b * CHECKSUM_PRIME"
  then have "a * CHECKSUM_PRIME * 0xce965057aff6957b = b * CHECKSUM_PRIME * 0xce965057aff6957b" by simp
  then show "a = b" by (simp only: mult.assoc checksum_prime_invertible mult_1_right)
qed simp

lemma unat_ucast_u8 [simp]: "unat (ucast (a :: u8) :: u64) = unat a"
proof -
  have "unat a < 2 ^ LENGTH(8)" by (rule unsigned_less)
  then show ?thesis by (simp add: unsigned_ucast_eq take_bit_nat_eq_self)
qed

lemma ucast_u8_inject: "(ucast (a :: u8) :: u64) = ucast b \<longleftrightarrow> a = b"
  by (metis unat_ucast_u8 word_unat_eq_iff)

lemma xor_inject: "(d XOR x) = (d XOR y) \<longleftrightarrow> x = (y :: u64)"
proof
  assume "d XOR x = d XOR y"
  then have "d XOR (d XOR x) = d XOR (d XOR y)" by (rule arg_cong)
  then show "x = y" by (simp only: bit.xor_left_self)
qed simp

lemma checksum_step_inject:
  "checksum_step d a = checksum_step d b \<longleftrightarrow> a = b"
  "checksum_step d a = checksum_step e a \<longleftrightarrow> d = e"
proof -
  show "checksum_step d a = checksum_step d b \<longleftrightarrow> a = b"
    by (simp add: checksum_step_def mult_prime_inject xor_inject ucast_u8_inject)
  show "checksum_step d a = checksum_step e a \<longleftrightarrow> d = e"
    unfolding checksum_step_def mult_prime_inject xor.commute [of _ "ucast a"] xor_inject by (rule refl)
qed

lemma checksum_fold_inject: "foldl checksum_step d bs = foldl checksum_step e bs \<longleftrightarrow> d = e"
  by (induction bs arbitrary: d e) (simp_all add: checksum_step_inject)

text \<open>So changing one byte always changes the checksum.\<close>

lemma checksum64_update:
  assumes "i < length bs" and "b \<noteq> bs ! i"
  shows "checksum64 (bs[i := b]) \<noteq> checksum64 bs"
proof -
  let ?d = "foldl checksum_step CHECKSUM_OFFSET (take i bs)"
  have "checksum64 (bs[i := c]) = foldl checksum_step (checksum_step ?d c) (drop (Suc i) bs)" for c
    using assms(1) by (simp add: checksum64_def upd_conv_take_nth_drop)
  from this [of b] this [of "bs ! i"] assms(2) show ?thesis
    by (simp add: checksum_fold_inject checksum_step_inject)
qed

section \<open>Crash-safe file replacement\<close>

text \<open>
  A file has its data and a flag that says whether the data has reached stable storage. A
  directory maps paths to files; \<open>fs_stable\<close> is what the synced contents of the directories hold
  of files and \<open>fs_stable_dirs\<close> what they hold of sub-directories. A directory that was created
  and whose own entry was never synced is in \<open>fs_dirs\<close> and not in \<open>fs_stable_dirs\<close>: everything
  below it may be gone after a loss of power, synced or not.
\<close>

record file_entry =
  f_data :: "u8 list"
  f_synced :: bool

record fs_state =
  fs_files :: "path \<rightharpoonup> file_entry"
  fs_stable :: "path \<rightharpoonup> file_entry"
  fs_dirs :: "path set"
  fs_stable_dirs :: "path set"

text \<open>
  The outcomes of the system calls of one \<open>atomic_write\<close>, \<open>None\<close> for success, with the clock
  reading (\<open>None\<close> before the epoch) and what an unfinished write leaves in the temporary file.
\<close>

record os_outcome =
  os_mkdir :: "io_kind option"
  os_nanos :: "nat option"
  os_open :: "io_kind option"
  os_partial :: "u8 list"
  os_flush :: "io_kind option"
  os_sync :: "io_kind option"
  os_rename :: "io_kind option"
  os_remove :: "io_kind option"
  os_sync_parent :: "io_kind option"

definition os_ok :: "nat \<Rightarrow> os_outcome" where
  "os_ok nanos =
     \<lparr>os_mkdir = None, os_nanos = Some nanos, os_open = None, os_partial = [], os_flush = None,
      os_sync = None, os_rename = None, os_remove = None, os_sync_parent = None\<rparr>"

definition io_result :: "io_kind option \<Rightarrow> unit res" where
  "io_result e = (case e of None \<Rightarrow> Inr () | Some k \<Rightarrow> Inl (Io k))"

definition fs_exists :: "fs_state \<Rightarrow> path \<Rightarrow> bool" where
  "fs_exists s p \<longleftrightarrow> fs_files s p \<noteq> None \<or> p \<in> fs_dirs s"

text \<open>\<open>create_dir_all\<close> makes the missing directories visible; it saves none of their entries.\<close>

definition ensure_dir :: "path \<Rightarrow> fs_state \<Rightarrow> fs_state" where
  "ensure_dir p s = s\<lparr>fs_dirs := fs_dirs s \<union> set (map (\<lambda>n. p\<lparr>comps := take n (comps p)\<rparr>) [0..<Suc (length (comps p))])\<rparr>"

definition temp_path_for :: "nat option \<Rightarrow> path \<Rightarrow> path res" where
  "temp_path_for nanos dest =
     and_then (ok_or (path_file_name dest) (InvalidInput ''invalid file name'')) (\<lambda>file_name.
     and_then (ok_or nanos (InvalidData ''system time error'')) (\<lambda>nanos.
     Inr (path_with_file_name dest (file_name @ ''.'' @ fmt_nat nanos @ ''.tmp''))))"

definition fs_write :: "path \<Rightarrow> u8 list \<Rightarrow> fs_state \<Rightarrow> fs_state" where
  "fs_write p bytes s = s\<lparr>fs_files := (fs_files s)(p \<mapsto> \<lparr>f_data = bytes, f_synced = False\<rparr>)\<rparr>"

definition fs_sync_file :: "path \<Rightarrow> fs_state \<Rightarrow> fs_state" where
  "fs_sync_file p s =
     s\<lparr>fs_files := (fs_files s)(p := map_option (\<lambda>f. f\<lparr>f_synced := True\<rparr>) (fs_files s p))\<rparr>"

definition replace_file_atomically :: "path \<Rightarrow> path \<Rightarrow> fs_state \<Rightarrow> fs_state" where
  "replace_file_atomically temp dest s =
     s\<lparr>fs_files := (fs_files s)(dest := fs_files s temp, temp := None)\<rparr>"

definition fs_remove :: "io_kind option \<Rightarrow> path \<Rightarrow> fs_state \<Rightarrow> fs_state" where
  "fs_remove outcome p s = (if outcome = None then s\<lparr>fs_files := (fs_files s)(p := None)\<rparr> else s)"

text \<open>
  The fsync of a directory saves its entries, for files and for sub-directories. It does not save
  the entry of the directory itself, which is its parent's.
\<close>

definition sync_parent_dir :: "path \<Rightarrow> fs_state \<Rightarrow> fs_state" where
  "sync_parent_dir dir s =
     s\<lparr>fs_stable := (\<lambda>p. if path_parent p = Some dir then fs_files s p else fs_stable s p),
       fs_stable_dirs := {p \<in> fs_dirs s. path_parent p = Some dir} \<union> {p \<in> fs_stable_dirs s. path_parent p \<noteq> Some dir}\<rparr>"

text \<open>
  \<open>atomic_write\<close>: \<open>write_temp\<close> is its \<open>write_result\<close>, \<open>write_and_rename\<close> what follows the
  creation of the temporary file. \<open>write_fn\<close> is what the caller's closure writes, and the error it ends with, if
  any. The first component of the result is the sequence of file system states after each
  system call, oldest first. The fault points of instrumented builds are failures of the step
  they precede.
\<close>

definition write_temp :: "os_outcome \<Rightarrow> FastKError option \<Rightarrow> unit res" where
  "write_temp os write_error =
     and_then (case write_error of None \<Rightarrow> Inr () | Some e \<Rightarrow> Inl e) (\<lambda>_.
     and_then (io_result (os_flush os)) (\<lambda>_. io_result (os_sync os)))"

definition write_and_rename ::
  "os_outcome \<Rightarrow> path \<Rightarrow> path \<Rightarrow> path \<Rightarrow> u8 list \<times> FastKError option \<Rightarrow> fs_state \<Rightarrow> fs_state list \<times> unit res" where
  "write_and_rename os dest parent temp write_fn s1 =
     (let s2 = fs_write temp [] s1;
          s3 = fs_write temp (fst write_fn) s2;
          s3' = fs_write temp (os_partial os) s2;
          s4 = fs_sync_file temp s3 in
      case write_temp os (snd write_fn) of
        Inl e \<Rightarrow> ([s2, s3', fs_remove (os_remove os) temp s3'], Inl e)
      | Inr _ \<Rightarrow>
        (case (if dest \<in> fs_dirs s4 then Some OtherKind else os_rename os) of
           Some e \<Rightarrow> ([s2, s3, s4, fs_remove (os_remove os) temp s4], Inl (Io e))
         | None \<Rightarrow>
           let s5 = replace_file_atomically temp dest s4 in
           (case os_sync_parent os of
              Some e \<Rightarrow> ([s2, s3, s4, s5], Inl (Io e))
            | None \<Rightarrow> ([s2, s3, s4, s5, sync_parent_dir parent s5], Inr ()))))"

definition atomic_write ::
  "os_outcome \<Rightarrow> path \<Rightarrow> bool \<Rightarrow> u8 list \<times> FastKError option \<Rightarrow> fs_state \<Rightarrow> fs_state list \<times> unit res" where
  "atomic_write os dest allow_replace write_fn s =
     (case path_parent dest of
        None \<Rightarrow> ([s], Inl (InvalidInput ''path has no parent''))
      | Some parent \<Rightarrow>
        (case os_mkdir os of
           Some e \<Rightarrow> ([s], Inl (Io e))
         | None \<Rightarrow>
           let s1 = ensure_dir parent s in
           if \<not> allow_replace \<and> fs_exists s1 dest
           then ([s, s1], Inl (InvalidInput ''destination already exists''))
           else (case temp_path_for (os_nanos os) dest of
             Inl e \<Rightarrow> ([s, s1], Inl e)
           | Inr temp \<Rightarrow>
             (case (if fs_exists s1 temp then Some OtherKind else os_open os) of
                Some e \<Rightarrow> ([s, s1], Inl (Io e))
              | None \<Rightarrow>
                let (rest, r) = write_and_rename os dest parent temp write_fn s1 in (s # s1 # rest, r)))))"

definition atomic_write_new ::
  "os_outcome \<Rightarrow> path \<Rightarrow> u8 list \<times> FastKError option \<Rightarrow> fs_state \<Rightarrow> fs_state list \<times> unit res" where
  "atomic_write_new os dest write_fn s = atomic_write os dest False write_fn s"

definition atomic_write_replace ::
  "os_outcome \<Rightarrow> path \<Rightarrow> u8 list \<times> FastKError option \<Rightarrow> fs_state \<Rightarrow> fs_state list \<times> unit res" where
  "atomic_write_replace os dest write_fn s = atomic_write os dest True write_fn s"

text \<open>
  Contents of a path after a crash: a file whose data was never synced may hold anything.
  When the process dies the visible directory stays; when power is lost, an entry is the
  visible one or the one on stable storage, and it is missing if the path to it is: if the entry
  of one of the directories above it, the top excepted, never reached stable storage.
\<close>

definition may_hold :: "file_entry option \<Rightarrow> u8 list option \<Rightarrow> bool" where
  "may_hold entry c =
     (case entry of None \<Rightarrow> c = None | Some f \<Rightarrow> c \<noteq> None \<and> (f_synced f \<longrightarrow> c = Some (f_data f)))"

definition durable_parents :: "fs_state \<Rightarrow> path \<Rightarrow> bool" where
  "durable_parents s p \<longleftrightarrow> (\<forall>n \<in> {1..<length (comps p)}. p\<lparr>comps := take n (comps p)\<rparr> \<in> fs_stable_dirs s)"

definition after_power_loss :: "fs_state \<Rightarrow> path \<Rightarrow> u8 list option \<Rightarrow> bool" where
  "after_power_loss s p c \<longleftrightarrow>
     may_hold (fs_files s p) c \<or> may_hold (fs_stable s p) c \<or> \<not> durable_parents s p \<and> c = None"

text \<open>
  A path at rest: what is visible is on stable storage, a file with its data and with the
  directories that lead to it.
\<close>

definition settled :: "fs_state \<Rightarrow> path \<Rightarrow> bool" where
  "settled s p \<longleftrightarrow> fs_stable s p = fs_files s p
     \<and> (\<forall>f. fs_files s p = Some f \<longrightarrow> f_synced f \<and> durable_parents s p)"

lemma may_hold_synced [simp]: "may_hold (Some \<lparr>f_data = b, f_synced = True\<rparr>) c \<longleftrightarrow> c = Some b"
  by (auto simp: may_hold_def)

lemma settled_holds: "settled s p \<Longrightarrow> after_power_loss s p c \<longleftrightarrow> c = map_option f_data (fs_files s p)"
  by (cases "fs_files s p") (auto simp: settled_def after_power_loss_def may_hold_def)

lemma split_on_no_sep: "p \<in> set (split_on sep s) \<Longrightarrow> sep \<notin> set p"
  by (induction sep s arbitrary: p rule: split_on.induct) (auto split: if_splits list.splits)

lemma split_on_single: "sep \<notin> set s \<Longrightarrow> split_on sep s = [s]"
  by (induction sep s rule: split_on.induct) auto

lemma temp_path_neq: "temp_path_for nanos dest = Inr temp \<Longrightarrow> temp \<noteq> dest"
proof
  assume "temp_path_for nanos dest = Inr temp" and "temp = dest"
  then obtain name n where name: "path_file_name dest = Some name"
    and "path_with_file_name dest (name @ ''.'' @ fmt_nat n @ ''.tmp'') = dest"
    by (auto simp: temp_path_for_def res_simps)
  note t = this(2) [symmetric]
  let ?s = "name @ ''.'' @ fmt_nat n @ ''.tmp''"
  have ne: "comps dest \<noteq> []" "last (comps dest) = name"
    using name by (auto simp: path_file_name_def split: if_splits)
  have "name \<in> set (components ?s)"
  proof (cases "take 1 ?s = ''/''")
    case True
    then have "comps dest = components ?s"
      using arg_cong [OF t, of comps] name by (simp add: path_with_file_name_def path_join_def)
    then show ?thesis using ne by (metis last_in_set)
  next
    case False
    then have "comps dest = butlast (comps dest) @ components ?s"
      using arg_cong [OF t, of comps] name by (simp add: path_with_file_name_def path_join_def)
    then have "components ?s = [name]" using ne by (metis append_butlast_last_id same_append_eq)
    then show ?thesis by simp
  qed
  then have "CHR ''/'' \<notin> set name" "name \<noteq> []" by (auto simp: components_def dest: split_on_no_sep)
  moreover have "CHR ''/'' \<notin> set (fmt_nat n)"
  proof
    assume "CHR ''/'' \<in> set (fmt_nat n)"
    then obtain d where "d < 10" "CHR ''/'' = digit_char d" by (auto dest: fmt_nat_digits)
    then have "(of_char CHR ''/'' :: nat) = 48 + d" by (simp only: of_char_digit)
    then show False by simp
  qed
  ultimately have "components ?s = filter (\<lambda>p. p \<noteq> [] \<and> p \<noteq> ''.'') [?s]"
    unfolding components_def by (subst split_on_single) auto
  with \<open>name \<in> set (components ?s)\<close> show False by (auto split: if_splits)
qed

lemma fs_step_files [simp]:
  "fs_files (ensure_dir d s) = fs_files s"
  "fs_files (fs_write p b s) q = (if q = p then Some \<lparr>f_data = b, f_synced = False\<rparr> else fs_files s q)"
  "fs_files (fs_sync_file p s) q =
     (if q = p then map_option (\<lambda>f. f\<lparr>f_synced := True\<rparr>) (fs_files s p) else fs_files s q)"
  "fs_files (replace_file_atomically t d s) q = (if q = t then None else if q = d then fs_files s t else fs_files s q)"
  "fs_files (fs_remove e p s) q = (if q = p \<and> e = None then None else fs_files s q)"
  "fs_files (sync_parent_dir d s) = fs_files s"
  by (simp_all add: ensure_dir_def fs_write_def fs_sync_file_def replace_file_atomically_def
      fs_remove_def sync_parent_dir_def)

lemma fs_step_stable [simp]:
  "fs_stable (ensure_dir d s) = fs_stable s"
  "fs_stable (fs_write p b s) = fs_stable s"
  "fs_stable (fs_sync_file p s) = fs_stable s"
  "fs_stable (replace_file_atomically t d s) = fs_stable s"
  "fs_stable (fs_remove e p s) = fs_stable s"
  "fs_stable (sync_parent_dir d s) q = (if path_parent q = Some d then fs_files s q else fs_stable s q)"
  by (simp_all add: ensure_dir_def fs_write_def fs_sync_file_def replace_file_atomically_def
      fs_remove_def sync_parent_dir_def)

text \<open>
  No step of a replacement makes the directories above the destination more durable, or less:
  the fsync of the parent saves entries one level below it.
\<close>

lemma fs_step_durable [simp]:
  "durable_parents (ensure_dir d s) = durable_parents s"
  "durable_parents (fs_write p b s) = durable_parents s"
  "durable_parents (fs_sync_file p s) = durable_parents s"
  "durable_parents (replace_file_atomically t d s) = durable_parents s"
  "durable_parents (fs_remove e p s) = durable_parents s"
  by (simp_all add: fun_eq_iff durable_parents_def ensure_dir_def fs_write_def fs_sync_file_def
      replace_file_atomically_def fs_remove_def)

lemma sync_parent_durable [simp]:
  assumes "path_parent dest = Some dir"
  shows "durable_parents (sync_parent_dir dir s) dest = durable_parents s dest"
proof -
  have d: "dir = dest\<lparr>comps := butlast (comps dest)\<rparr>" "comps dest \<noteq> []"
    using assms by (auto simp: path_parent_def split: if_splits)
  have "path_parent (dest\<lparr>comps := take n (comps dest)\<rparr>) \<noteq> Some dir" if "n \<in> {1..<length (comps dest)}" for n
  proof
    assume "path_parent (dest\<lparr>comps := take n (comps dest)\<rparr>) = Some dir"
    then have "butlast (take n (comps dest)) = butlast (comps dest)"
      by (auto simp: path_parent_def d(1) split: if_splits dest: arg_cong [of _ _ comps])
    from arg_cong [OF this, of length] that d(2) show False by (simp, linarith)
  qed
  then show ?thesis by (auto simp: durable_parents_def sync_parent_dir_def)
qed

text \<open>Every state on the way shows the old entry of the destination or the complete new one.\<close>

definition old_or_new :: "path \<Rightarrow> u8 list \<Rightarrow> FastKError option \<Rightarrow> fs_state \<Rightarrow> fs_state \<Rightarrow> bool" where
  "old_or_new dest bytes werr s s' \<longleftrightarrow> durable_parents s' dest = durable_parents s dest \<and>
     (fs_files s' dest = fs_files s dest \<and> fs_stable s' dest = fs_stable s dest
     \<or> werr = None \<and> fs_files s' dest = Some \<lparr>f_data = bytes, f_synced = True\<rparr>
       \<and> (fs_stable s' dest = fs_stable s dest \<or> fs_stable s' dest = fs_files s' dest))"

lemma write_and_rename_states:
  assumes "write_and_rename os dest parent temp (bytes, werr) s1 = (rest, r)" and "s' \<in> set rest"
    and "temp \<noteq> dest" and "path_parent dest = Some parent"
  shows "old_or_new dest bytes werr s1 s'"
proof (cases "write_temp os werr")
  case (Inl e)
  with assms show ?thesis by (auto simp: write_and_rename_def Let_def old_or_new_def)
next
  case (Inr u)
  then have "werr = None" by (auto simp: write_temp_def res_simps split: option.splits)
  with Inr assms show ?thesis
    by (auto simp: write_and_rename_def Let_def old_or_new_def split: option.splits if_splits)
qed

lemma old_or_new_refl [simp]: "old_or_new dest bytes werr s s" "old_or_new dest bytes werr s (ensure_dir d s)"
  "old_or_new dest bytes werr (ensure_dir d s) s' = old_or_new dest bytes werr s s'"
  by (simp_all add: old_or_new_def)

lemma atomic_write_states:
  assumes "atomic_write os dest allow_replace (bytes, werr) s = (trace, r)" and "s' \<in> set trace"
  shows "old_or_new dest bytes werr s s'"
proof -
  have "old_or_new dest bytes werr s s'"
    if "temp_path_for (os_nanos os) dest = Inr temp" "s' \<in> set rest" "path_parent dest = Some d"
      "write_and_rename os dest d temp (bytes, werr) (ensure_dir d s) = (rest, r)" for d temp rest
    using write_and_rename_states [OF that(4,2) temp_path_neq [OF that(1)] that(3)] by simp
  then show ?thesis using assms unfolding atomic_write_def
    by (auto simp: Let_def split: option.splits sum.splits if_splits prod.splits)
qed

lemma old_or_new_power_loss:
  "old_or_new dest bytes werr s s' \<Longrightarrow> settled s dest \<Longrightarrow> after_power_loss s' dest c \<Longrightarrow>
     c = map_option f_data (fs_files s dest) \<or> werr = None \<and> c = Some bytes"
  unfolding old_or_new_def using settled_holds [of s dest c]
  by (cases "fs_files s dest") (auto simp: after_power_loss_def settled_def may_hold_def)

text \<open>
  A successful run leaves the new file visible and in the synced contents of its directory; the
  directories above are as durable as they were.
\<close>

lemma atomic_write_done:
  assumes "atomic_write os dest allow_replace (bytes, werr) s = (trace, Inr ())"
  shows "fs_files (last trace) dest = Some \<lparr>f_data = bytes, f_synced = True\<rparr>"
    and "fs_stable (last trace) dest = fs_files (last trace) dest" and "allow_replace \<or> fs_files s dest = None"
  using assms unfolding atomic_write_def write_and_rename_def
  by (auto simp: Let_def fs_exists_def dest: temp_path_neq
      split: option.splits sum.splits if_splits prod.splits)

lemma atomic_write_durable:
  assumes "atomic_write os dest allow_replace (bytes, werr) s = (trace, Inr ())"
  shows "after_power_loss (last trace) dest c \<longleftrightarrow> c = Some bytes \<or> \<not> durable_parents s dest \<and> c = None"
proof -
  have "trace \<noteq> []" using assms
    by (auto simp: atomic_write_def Let_def split: option.splits sum.splits if_splits prod.splits)
  then have "durable_parents (last trace) dest = durable_parents s dest"
    using atomic_write_states [OF assms last_in_set] by (simp add: old_or_new_def)
  with atomic_write_done [OF assms] show ?thesis by (auto simp: after_power_loss_def)
qed

text \<open>Only the destination and its temporary name change.\<close>

lemma atomic_write_frame:
  assumes "atomic_write os dest allow_replace write_fn s = (trace, r)" and "s' \<in> set trace"
    and "p \<noteq> dest" and "temp_path_for (os_nanos os) dest \<noteq> Inr p"
  shows "fs_files s' p = fs_files s p"
  using assms unfolding atomic_write_def write_and_rename_def
  by (auto simp: Let_def split: option.splits sum.splits if_splits prod.splits)

end
