(* ===== verification/Header.thy ===== *)
theory Header
  imports FileIO
begin

text \<open>
  The chunk file header (\<^verbatim>\<open>src/src/store_core/chunk/header.rs\<close>): its record, the writer and
  the two readers, and its validation. A valid version-2 header, the only one the writers
  produce, is read back as it was written; a version-1 header is not, because the writer lays
  out the version-2 fields whatever the version.
\<close>

definition CHUNK_MAGIC :: "u8 list" where
  "CHUNK_MAGIC = [0x46, 0x41, 0x53, 0x54, 0x4B, 0x30, 0x30, 0x31]"

definition CHUNK_VERSION_V1 :: u32 where "CHUNK_VERSION_V1 = 1"
definition CHUNK_VERSION_V2 :: u32 where "CHUNK_VERSION_V2 = 2"
definition CHUNK_VERSION_CURRENT :: u32 where "CHUNK_VERSION_CURRENT = CHUNK_VERSION_V2"
definition CHUNK_FLAG_HAS_SPARSE_INDEX :: u64 where "CHUNK_FLAG_HAS_SPARSE_INDEX = push_bit 0 1"
definition BYTE_SIZE_V1 :: nat where "BYTE_SIZE_V1 = 88"
definition BYTE_SIZE_V2 :: nat where "BYTE_SIZE_V2 = 128"

record ChunkHeader =
  h_magic :: "u8 list"
  h_version :: u32
  h_header_size :: u32
  h_record_size :: u32
  h_schema_id :: u32
  h_series_id :: u64
  h_chunk_id :: u64
  h_generation :: u64
  h_timeframe_ms :: i64
  h_start_ts :: i64
  h_end_ts :: i64
  h_count :: u64
  h_flags :: u64
  h_index_offset :: u64
  h_index_len :: u64
  h_sparse_index_every :: u64

definition header_words :: "ChunkHeader \<Rightarrow> u64 list" where
  "header_words h =
     [ucast (h_version h), ucast (h_header_size h), ucast (h_record_size h), ucast (h_schema_id h),
      h_series_id h, h_chunk_id h, h_generation h, bits (h_timeframe_ms h), bits (h_start_ts h),
      bits (h_end_ts h), h_count h, h_flags h, h_index_offset h, h_index_len h, h_sparse_index_every h]"

text \<open>\<open>buf[offset..offset + n].copy_from_slice(bytes)\<close>.\<close>

definition copy_at :: "nat \<Rightarrow> 'a list \<Rightarrow> 'a list \<Rightarrow> 'a list" where
  "copy_at offset bytes buf = take offset buf @ bytes @ drop (offset + length bytes) buf"

fun put_words :: "u8 list \<Rightarrow> nat \<Rightarrow> u64 list \<Rightarrow> u8 list" where
  "put_words buf offset [] = buf"
| "put_words buf offset (value # words) =
     (if offset + 8 > length buf then buf
      else put_words (copy_at offset (le_bytes 8 value) buf) (offset + 8) words)"

definition header_to_le_bytes :: "ChunkHeader \<Rightarrow> u8 list res" where
  "header_to_le_bytes h =
     (let buf = replicate (unat (h_header_size h)) 0 in
      if length buf < 8 then Inl (Panic ''range end index out of range'')
      else Inr (put_words (copy_at 0 (h_magic h) buf) 8 (header_words h)))"

definition read_word :: "u8 list \<Rightarrow> u64 res" where
  "read_word bytes =
     (if length bytes = 8 then Inr (le_word bytes) else Inl (InvalidData ''invalid 8-byte word''))"

definition header_validate :: "ChunkHeader \<Rightarrow> unit res" where
  "header_validate h =
     and_then (ensure (h_magic h = CHUNK_MAGIC) (InvalidData ''invalid chunk magic'')) (\<lambda>_.
     and_then
       (if h_version h = CHUNK_VERSION_V1 then
          ensure (unat (h_header_size h) = BYTE_SIZE_V1) (InvalidData ''unexpected header size'')
        else if h_version h = CHUNK_VERSION_V2 then
          ensure (unat (h_header_size h) = BYTE_SIZE_V2) (InvalidData ''unexpected header size'')
        else Inl (InvalidData ''unsupported chunk version'')) (\<lambda>_.
     and_then (ensure (\<not> (h_count h > 0 \<and> h_start_ts h > h_end_ts h))
       (InvalidData ''chunk start_ts is after end_ts'')) (\<lambda>_.
     ensure (\<not> (h_version h \<ge> CHUNK_VERSION_V2 \<and> (h_flags h AND CHUNK_FLAG_HAS_SPARSE_INDEX) \<noteq> 0
         \<and> h_sparse_index_every h = 0))
       (InvalidData ''chunk declares sparse index but sparse_index_every=0''))))"

text \<open>The closure \<open>next\<close>: a word at the running offset. Slicing past the end panics.\<close>

definition next_word :: "u8 list \<Rightarrow> nat \<Rightarrow> (u64 \<times> nat) res" where
  "next_word bytes offset =
     (if offset + 8 \<le> length bytes
      then and_then (read_word (slice_of offset (offset + 8) bytes)) (\<lambda>w. Inr (w, offset + 8))
      else Inl (Panic ''range end index out of range''))"

definition header_from_le_bytes :: "u8 list \<Rightarrow> ChunkHeader res" where
  "header_from_le_bytes bytes =
     and_then (ensure (\<not> (length bytes \<noteq> BYTE_SIZE_V1 \<and> length bytes \<noteq> BYTE_SIZE_V2))
       (InvalidData ''unexpected chunk header byte length'')) (\<lambda>_.
     let magic = slice_of 0 8 bytes in
     and_then (read_word (slice_of 8 16 bytes)) (\<lambda>w_version.
     and_then (read_word (slice_of 16 24 bytes)) (\<lambda>w_header_size.
     let version = ucast w_version; header_size = ucast w_header_size :: u32 in
     and_then (next_word bytes 24) (\<lambda>(record_size, off).
     and_then (next_word bytes off) (\<lambda>(schema_id, off).
     and_then (next_word bytes off) (\<lambda>(series_id, off).
     and_then
       (if version \<ge> CHUNK_VERSION_V2 then
          and_then (next_word bytes off) (\<lambda>(chunk_id, off).
          and_then (next_word bytes off) (\<lambda>(generation, off). Inr (chunk_id, generation, off)))
        else Inr (0, 0, off)) (\<lambda>(chunk_id, generation, off).
     and_then (next_word bytes off) (\<lambda>(timeframe_ms, off).
     and_then (next_word bytes off) (\<lambda>(start_ts, off).
     and_then (next_word bytes off) (\<lambda>(end_ts, off).
     and_then (next_word bytes off) (\<lambda>(count, off).
     and_then (next_word bytes off) (\<lambda>(flags, off).
     and_then
       (if version \<ge> CHUNK_VERSION_V2 then
          and_then (next_word bytes off) (\<lambda>(index_offset, off).
          and_then (next_word bytes off) (\<lambda>(index_len, off).
          and_then (next_word bytes off) (\<lambda>(sparse_index_every, off).
          Inr (index_offset, index_len, sparse_index_every))))
        else Inr (ucast header_size, 0, 0)) (\<lambda>(index_offset, index_len, sparse_index_every).
     let header =
       \<lparr>h_magic = magic, h_version = version, h_header_size = header_size,
        h_record_size = ucast record_size, h_schema_id = ucast schema_id, h_series_id = series_id,
        h_chunk_id = chunk_id, h_generation = generation, h_timeframe_ms = I64 timeframe_ms,
        h_start_ts = I64 start_ts, h_end_ts = I64 end_ts, h_count = count, h_flags = flags,
        h_index_offset = index_offset, h_index_len = index_len,
        h_sparse_index_every = sparse_index_every\<rparr> in
     and_then (header_validate header) (\<lambda>_. Inr header))))))))))))))"

text \<open>\<open>read_from\<close> at the start of a file: the prefix, then the rest of the header it announces.\<close>

definition header_read_from :: "u8 list \<Rightarrow> ChunkHeader res" where
  "header_read_from reader =
     and_then (read_at reader 0 24) (\<lambda>prefix.
     let magic = slice_of 0 8 prefix in
     and_then (read_word (slice_of 8 16 prefix)) (\<lambda>w_version.
     and_then (read_word (slice_of 16 24 prefix)) (\<lambda>header_size.
     let version = ucast w_version :: u32 in
     and_then (ensure (magic = CHUNK_MAGIC) (InvalidData ''invalid chunk magic'')) (\<lambda>_.
     and_then
       (if version = CHUNK_VERSION_V1 then Inr BYTE_SIZE_V1
        else if version = CHUNK_VERSION_V2 then Inr BYTE_SIZE_V2
        else Inl (InvalidData ''unsupported chunk version'')) (\<lambda>expected.
     and_then (ensure (unat header_size = expected) (InvalidData ''unexpected header size'')) (\<lambda>_.
     and_then (read_at reader 24 (unat header_size - 24)) (\<lambda>rest.
     header_from_le_bytes (prefix @ rest))))))))"

section \<open>Round trip\<close>

lemma length_header_words [simp]: "length (header_words h) = 15"
  by (simp add: header_words_def)

lemma put_words_fill:
  "length rest = 8 * length ws \<Longrightarrow>
     put_words (pre @ rest) (length pre) ws = pre @ concat (map (le_bytes 8) ws)"
proof (induction ws arbitrary: pre rest)
  case Nil
  then show ?case by simp
next
  case (Cons w ws)
  then have "put_words ((pre @ le_bytes 8 w) @ drop 8 rest) (length (pre @ le_bytes 8 w)) ws
      = (pre @ le_bytes 8 w) @ concat (map (le_bytes 8) ws)" by (intro Cons.IH) simp
  with Cons.prems show ?case by (simp add: copy_at_def)
qed

lemma header_to_le_bytes_v2:
  assumes "h_header_size h = 128" and "length (h_magic h) = 8"
  shows "header_to_le_bytes h = Inr (h_magic h @ concat (map (le_bytes 8) (header_words h)))"
proof -
  have "copy_at 0 (h_magic h) (replicate 128 0) = h_magic h @ replicate 120 0"
    using assms(2) by (simp add: copy_at_def)
  with put_words_fill [of "replicate 120 0" "header_words h" "h_magic h"] assms
  show ?thesis by (simp add: header_to_le_bytes_def)
qed

lemma word_slice:
  assumes "length magic = 8" and "i < length ws"
  shows "slice_of (8 + 8 * i) (16 + 8 * i) (magic @ concat (map (le_bytes 8) ws)) = le_bytes 8 (ws ! i)"
proof -
  let ?c = "concat (map (le_bytes 8) ws)"
  have "slice_of (8 + 8 * i) (16 + 8 * i) (magic @ ?c) = slice_of (8 * i) (8 * Suc i) ?c"
    using assms(1) by (simp add: slice_of_def)
  also have "\<dots> = concat (map (le_bytes 8) (slice_of i (Suc i) ws))"
    using assms(2) by (intro slice_concat_map) simp_all
  also have "\<dots> = le_bytes 8 (ws ! i)" using slice_single [OF assms(2)] by (metis append.right_neutral
    concat.simps(1) concat.simps(2) list.simps(8) list.simps(9))
  finally show ?thesis .
qed

lemma next_word_nth:
  assumes "length magic = 8" and "i < length ws"
  shows "next_word (magic @ concat (map (le_bytes 8) ws)) (8 + 8 * i) = Inr (ws ! i, 16 + 8 * i)"
proof -
  have "length (concat (map (le_bytes 8) ws)) = 8 * length ws"
    by (rule length_concat_map_const) simp
  moreover have "8 + 8 * i + 8 = 16 + 8 * i" by simp
  ultimately show ?thesis using assms word_slice [OF assms]
    by (simp add: next_word_def read_word_def)
qed

lemma ucast_u32_u64 [simp]: "ucast (ucast (x :: u32) :: u64) = x"
  by (rule bit_word_eqI) (auto simp: bit_simps)

lemma length_CHUNK_MAGIC [simp]: "length CHUNK_MAGIC = 8"
  by (simp add: CHUNK_MAGIC_def)

lemma header_validate_iff:
  "header_validate h = Inr u \<longleftrightarrow>
     h_magic h = CHUNK_MAGIC
     \<and> (h_version h = 1 \<and> h_header_size h = 88 \<or> h_version h = 2 \<and> h_header_size h = 128)
     \<and> (h_count h > 0 \<longrightarrow> h_start_ts h \<le> h_end_ts h)
     \<and> (h_version h = 2 \<and> (h_flags h AND 1) \<noteq> 0 \<longrightarrow> h_sparse_index_every h \<noteq> 0)"
proof -
  have "unat (w :: u32) = n \<longleftrightarrow> w = word_of_nat n" if "n < 2 ^ 32" for w n
    using that by (auto simp: unsigned_of_nat take_bit_nat_eq_self)
  moreover have "\<not> (2 :: u32) \<le> 1" by (simp add: word_le_nat_alt)
  ultimately show ?thesis
    by (auto simp: header_validate_def res_simps CHUNK_VERSION_V1_def CHUNK_VERSION_V2_def
        BYTE_SIZE_V1_def BYTE_SIZE_V2_def CHUNK_FLAG_HAS_SPARSE_INDEX_def not_less split: if_splits)
qed

lemma header_roundtrip:
  assumes "header_validate h = Inr ()" and "h_version h = 2"
  shows "and_then (header_to_le_bytes h) header_from_le_bytes = Inr h"
proof -
  have v: "h_magic h = CHUNK_MAGIC" "h_header_size h = 128"
    using assms by (auto simp: header_validate_iff)
  let ?B = "h_magic h @ concat (map (le_bytes 8) (header_words h))"
  have len: "length ?B = 128"
    by (simp add: v length_concat_map_const [where n = 8])
  note nx = next_word_nth [of "h_magic h" _ "header_words h"]
  have w: "\<And>i. i < 15 \<Longrightarrow> next_word ?B (8 + 8 * i) = Inr (header_words h ! i, 16 + 8 * i)"
    using nx v by simp
  have m: "slice_of 0 8 ?B = CHUNK_MAGIC" by (simp add: slice_of_def v)
  have s: "slice_of 8 16 ?B = le_bytes 8 (header_words h ! 0)" "slice_of 16 24 ?B = le_bytes 8 (header_words h ! 1)"
    using word_slice [of "h_magic h" 0 "header_words h"] word_slice [of "h_magic h" 1 "header_words h"] v
    by simp_all
  have ge: "\<not> h_version h < CHUNK_VERSION_V2" "CHUNK_VERSION_V2 \<le> h_version h"
    using assms(2) by (simp_all add: CHUNK_VERSION_V2_def)
  have h: "\<lparr>h_magic = CHUNK_MAGIC, h_version = 2, h_header_size = 128, h_record_size = h_record_size h,
      h_schema_id = h_schema_id h, h_series_id = h_series_id h, h_chunk_id = h_chunk_id h,
      h_generation = h_generation h, h_timeframe_ms = h_timeframe_ms h, h_start_ts = h_start_ts h,
      h_end_ts = h_end_ts h, h_count = h_count h, h_flags = h_flags h, h_index_offset = h_index_offset h,
      h_index_len = h_index_len h, h_sparse_index_every = h_sparse_index_every h\<rparr> = h"
    using v assms(2) by (cases h) simp
  have "header_from_le_bytes ?B = Inr h"
    using w [of 2] w [of 3] w [of 4] w [of 5] w [of 6] w [of 7] w [of 8] w [of 9] w [of 10] w [of 11]
      w [of 12] w [of 13] w [of 14] len m s ge assms v
    by (simp add: header_from_le_bytes_def BYTE_SIZE_V2_def read_word_def header_words_def Let_def h)
  then show ?thesis using header_to_le_bytes_v2 [of h] v by simp
qed

text \<open>
  A version 1 header is encoded with the version 2 order of the fields but decoded with the
  version 1 order: the word that decodes as the timeframe is the chunk id.
\<close>

lemma put_words_full: "length buf < offset + 8 \<Longrightarrow> put_words buf offset ws = buf"
  by (cases ws) simp_all

lemma put_words_prefix:
  "length rest = 8 * n \<Longrightarrow> n \<le> length ws \<Longrightarrow>
     put_words (pre @ rest) (length pre) ws = pre @ concat (map (le_bytes 8) (take n ws))"
proof (induction ws arbitrary: pre rest n)
  case Nil
  then show ?case by simp
next
  case (Cons w ws)
  show ?case
  proof (cases n)
    case 0
    then show ?thesis using Cons.prems by (simp add: put_words_full)
  next
    case (Suc m)
    then have "put_words ((pre @ le_bytes 8 w) @ drop 8 rest) (length (pre @ le_bytes 8 w)) ws
        = (pre @ le_bytes 8 w) @ concat (map (le_bytes 8) (take m ws))" using Cons.prems by (intro Cons.IH) simp_all
    with Suc Cons.prems show ?thesis by (simp add: copy_at_def)
  qed
qed

lemma header_v1_swapped:
  assumes v: "h_version h = 1" "h_header_size h = 88" "h_magic h = CHUNK_MAGIC"
    and r: "and_then (header_to_le_bytes h) header_from_le_bytes = Inr h'"
  shows "h_timeframe_ms h' = I64 (h_chunk_id h) \<and> h_start_ts h' = I64 (h_generation h)
    \<and> h_end_ts h' = h_timeframe_ms h \<and> h_count h' = bits (h_start_ts h) \<and> h_flags h' = bits (h_end_ts h)"
proof -
  let ?ws = "take 10 (header_words h)"
  let ?B = "CHUNK_MAGIC @ concat (map (le_bytes 8) ?ws)"
  have "copy_at 0 (h_magic h) (replicate 88 0) = h_magic h @ replicate 80 0" using v(3) by (simp add: copy_at_def)
  with put_words_prefix [of "replicate 80 0" 10 "header_words h" "h_magic h"] v
  have b: "header_to_le_bytes h = Inr ?B" by (simp add: header_to_le_bytes_def)
  have len: "length ?B = 88" by (simp add: length_concat_map_const [where n = 8])
  have w: "\<And>i. i < 10 \<Longrightarrow> next_word ?B (8 + 8 * i) = Inr (?ws ! i, 16 + 8 * i)"
    by (rule next_word_nth) simp_all
  have s: "slice_of 8 16 ?B = le_bytes 8 (?ws ! 0)"
    using word_slice [of CHUNK_MAGIC 0 ?ws] by simp
  have lt: "\<not> CHUNK_VERSION_V2 \<le> (1 :: u32)" by (simp add: CHUNK_VERSION_V2_def word_le_nat_alt)
  show ?thesis
    using r w [of 2] w [of 3] w [of 4] w [of 5] w [of 6] w [of 7] w [of 8] w [of 9] len s lt v
    by (auto simp: b header_from_le_bytes_def read_word_def header_words_def Let_def res_simps)
qed

text \<open>Reading the header from the front of a file that starts with it.\<close>

lemma header_read_from_prefix:
  assumes "header_validate h = Inr ()" and "h_version h = 2" and "header_to_le_bytes h = Inr bytes"
  shows "header_read_from (bytes @ rest) = Inr h"
proof -
  have v: "h_magic h = CHUNK_MAGIC" "h_header_size h = 128"
    using assms by (auto simp: header_validate_iff)
  have B: "bytes = h_magic h @ concat (map (le_bytes 8) (header_words h))"
    using assms(3) header_to_le_bytes_v2 [of h] v by simp
  have len: "length bytes = 128" by (simp add: B v length_concat_map_const [where n = 8])
  let ?p = "slice_of 0 24 bytes"
  have p: "slice_of 0 8 ?p = CHUNK_MAGIC" "slice_of 8 16 ?p = le_bytes 8 (header_words h ! 0)"
    "slice_of 16 24 ?p = le_bytes 8 (header_words h ! 1)"
    using word_slice [of "h_magic h" 0 "header_words h"] word_slice [of "h_magic h" 1 "header_words h"] v
    unfolding B slice_slice by (simp_all add: slice_of_def)
  have r1: "read_at (bytes @ rest) 0 24 = Inr ?p" using len by (simp add: read_at_def slice_of_def)
  have r2: "read_at (bytes @ rest) 24 104 = Inr (slice_of 24 128 bytes)"
    using len by (simp add: read_at_def slice_of_def)
  have "?p @ slice_of 24 128 bytes = bytes" using len by (simp add: slice_append)
  moreover have "header_from_le_bytes bytes = Inr h" using header_roundtrip [OF assms(1,2)] assms(3) by simp
  ultimately show ?thesis using r1 r2 p v assms(2) len
    by (simp add: header_read_from_def read_word_def header_words_def CHUNK_VERSION_V1_def
        CHUNK_VERSION_V2_def BYTE_SIZE_V2_def Let_def)
qed

end
