(* ===== verification/SparseIndex.thy ===== *)
theory SparseIndex
  imports Header
begin

text \<open>
  The sparse timestamp index of a chunk (\<^verbatim>\<open>src/src/store_core/chunk/sparse_index.rs\<close>): anchors
  sampled every so many rows, their encoding, and the lookup of the window of rows around a
  timestamp. \<open>lower_index\<close> and \<open>upper_index\<close> are the specification of the two bounds that the
  readers search. For strictly increasing timestamps both bounds of a timestamp lie in its
  window; with equal timestamps only the upper one does.
\<close>

definition DEFAULT_SPARSE_INDEX_EVERY :: u32 where "DEFAULT_SPARSE_INDEX_EVERY = 128"

record SparseIndexEntry =
  e_ts :: i64
  e_record_idx :: u64

definition entry_BYTE_SIZE :: nat where "entry_BYTE_SIZE = 16"

definition entry_to_le_bytes :: "SparseIndexEntry \<Rightarrow> u8 list" where
  "entry_to_le_bytes e = i64_le_bytes (e_ts e) @ le_bytes 8 (e_record_idx e)"

definition entry_from_le_bytes :: "u8 list \<Rightarrow> SparseIndexEntry" where
  "entry_from_le_bytes bytes =
     \<lparr>e_ts = i64_of_le_bytes (slice_of 0 8 bytes), e_record_idx = le_word (slice_of 8 16 bytes)\<rparr>"

text \<open>\<open>iter.step_by(n)\<close>: the elements at the multiples of \<open>n\<close>.\<close>

definition step_by :: "nat \<Rightarrow> 'a list \<Rightarrow> 'a list" where
  "step_by n xs = map (\<lambda>k. xs ! (k * n)) [0..<(length xs + n - 1) div n]"

definition sample_validated :: "'r FixedRecord \<Rightarrow> 'r list \<Rightarrow> u32 \<Rightarrow> SparseIndexEntry list res" where
  "sample_validated R records every =
     and_then (ensure (every \<noteq> 0)
       (InvalidInput ''sparse index frequency must be greater than zero'')) (\<lambda>_.
     Inr (map (\<lambda>(record_idx, record). \<lparr>e_ts = ts_of R record, e_record_idx = word_of_nat record_idx\<rparr>)
       (step_by (unat every) (enumerate 0 records))))"

definition encode_entries :: "SparseIndexEntry list \<Rightarrow> u8 list" where
  "encode_entries entries = concat (map entry_to_le_bytes entries)"

definition decode_entries :: "u8 list \<Rightarrow> SparseIndexEntry list res" where
  "decode_entries bytes =
     and_then (ensure (length bytes mod entry_BYTE_SIZE = 0)
       (InvalidData ''invalid sparse index byte length'')) (\<lambda>_.
     Inr (map entry_from_le_bytes (chunks_exact entry_BYTE_SIZE bytes)))"

definition sparse_read_from_file :: "u8 list \<Rightarrow> ChunkHeader \<Rightarrow> SparseIndexEntry list res" where
  "sparse_read_from_file file header =
     (if h_version header < CHUNK_VERSION_V2
         \<or> (h_flags header AND CHUNK_FLAG_HAS_SPARSE_INDEX) = 0
         \<or> h_index_len header = 0
      then Inr []
      else
        and_then (ok_or (checked_mul (h_index_len header) (word_of_nat entry_BYTE_SIZE))
          (InvalidData ''sparse index byte length overflow'')) (\<lambda>byte_len.
        and_then (read_at file (h_index_offset header) (unat byte_len)) (\<lambda>bytes.
        decode_entries bytes)))"

definition lookup_window :: "ChunkHeader \<Rightarrow> SparseIndexEntry list \<Rightarrow> i64 \<Rightarrow> (u64 \<times> u64) res" where
  "lookup_window header entries ts =
     (if h_count header = 0 \<or> entries = [] then Inr (0, h_count header)
      else
        let index = partition_point (\<lambda>entry. e_ts entry \<le> ts) entries - 1;
            start = e_record_idx (entries ! index);
            end = (if index + 1 < length entries then e_record_idx (entries ! (index + 1))
                   else h_count header) in
        if start > end \<or> end > h_count header
        then Inl (InvalidData ''sparse window exceeds chunk bounds'')
        else Inr (start, end))"

section \<open>Round trip of the index section\<close>

lemma entry_roundtrip [simp, codec_simps]:
  "length (entry_to_le_bytes e) = 16" "entry_from_le_bytes (entry_to_le_bytes e) = e"
  by (simp_all add: entry_to_le_bytes_def entry_from_le_bytes_def slice_of_def)

lemma length_encode_entries [simp, codec_simps]: "length (encode_entries es) = 16 * length es"
  unfolding encode_entries_def by (rule length_concat_map_const) simp

lemma decode_encode_entries [simp, codec_simps]: "decode_entries (encode_entries es) = Inr es"
proof -
  have "chunks_exact 16 (encode_entries es) = map entry_to_le_bytes es"
    unfolding encode_entries_def by (rule chunks_exact_concat) simp_all
  then show ?thesis by (simp add: decode_entries_def entry_BYTE_SIZE_def comp_def)
qed

section \<open>The two bounds of a timestamp\<close>

definition lower_index :: "i64 list \<Rightarrow> i64 \<Rightarrow> nat" where
  "lower_index tss t = partition_point (\<lambda>x. x < t) tss"

definition upper_index :: "i64 list \<Rightarrow> i64 \<Rightarrow> nat" where
  "upper_index tss t = partition_point (\<lambda>x. x \<le> t) tss"

lemma lower_index_boundary:
  "sorted tss \<Longrightarrow> is_boundary (\<lambda>i. tss ! i < t) 0 (length tss) (lower_index tss t)"
  unfolding lower_index_def by (intro partition_point_boundary sorted_partitioned_less)

lemma upper_index_boundary:
  "sorted tss \<Longrightarrow> is_boundary (\<lambda>i. tss ! i \<le> t) 0 (length tss) (upper_index tss t)"
  unfolding upper_index_def by (intro partition_point_boundary sorted_partitioned_less)

lemma index_le_length [simp]: "lower_index tss t \<le> length tss" "upper_index tss t \<le> length tss"
  by (simp_all add: lower_index_def upper_index_def)

lemma lower_index_eqI:
  "sorted tss \<Longrightarrow> is_boundary (\<lambda>i. tss ! i < t) 0 (length tss) k \<Longrightarrow> lower_index tss t = k"
  using lower_index_boundary is_boundary_unique by blast

lemma upper_index_eqI:
  "sorted tss \<Longrightarrow> is_boundary (\<lambda>i. tss ! i \<le> t) 0 (length tss) k \<Longrightarrow> upper_index tss t = k"
  using upper_index_boundary is_boundary_unique by blast

text \<open>The rows between the two bounds are the rows of the range.\<close>

lemma filter_range_slice:
  assumes "sorted (map f rs)"
  shows "filter (\<lambda>r. s \<le> f r \<and> f r \<le> e) rs = slice_of (lower_index (map f rs) s) (upper_index (map f rs) e) rs"
proof (rule filter_eq_slice)
  fix i assume i: "i < length rs"
  have "f (rs ! i) < s \<longleftrightarrow> i < lower_index (map f rs) s"
    using lower_index_boundary [OF assms, of s] i by (fastforce simp: is_boundary_def not_less)
  moreover have "f (rs ! i) \<le> e \<longleftrightarrow> i < upper_index (map f rs) e"
    using upper_index_boundary [OF assms, of e] i by (fastforce simp: is_boundary_def not_less)
  ultimately show "(s \<le> f (rs ! i) \<and> f (rs ! i) \<le> e) \<longleftrightarrow>
      lower_index (map f rs) s \<le> i \<and> i < upper_index (map f rs) e" by (auto simp: not_less [symmetric])
qed

lemma is_boundary_shift:
  assumes "is_boundary p l r k" and "l \<le> a" and "a \<le> k" and "k \<le> b" and "b \<le> r"
    and q: "\<And>i. i < b - a \<Longrightarrow> q i \<longleftrightarrow> p (a + i)"
  shows "is_boundary q 0 (b - a) (k - a)"
proof -
  have "q i" if "i < k - a" for i
    using assms(1-5) q [of i] that by (simp add: is_boundary_def less_diff_conv add.commute)
  moreover have "\<not> q i" if "k - a \<le> i" "i < b - a" for i
  proof -
    have "k \<le> a + i" "a + i < r" using that assms(3-5) by arith+
    then show ?thesis using assms(1) q [OF that(2)] by (simp add: is_boundary_def)
  qed
  ultimately show ?thesis using assms(3,4) by (auto simp: is_boundary_def)
qed

text \<open>A search inside a window of rows that contains the bound finds it.\<close>

lemma lower_index_window:
  assumes "sorted tss" and "a \<le> b" and "b \<le> length tss" and "a \<le> lower_index tss t" and "lower_index tss t \<le> b"
  shows "a + lower_index (slice_of a b tss) t = lower_index tss t"
proof -
  have "sorted (slice_of a b tss)" using assms(1) by (simp add: slice_of_def sorted_wrt_drop sorted_wrt_take)
  then have "lower_index (slice_of a b tss) t = lower_index tss t - a"
    using is_boundary_shift [OF lower_index_boundary [OF assms(1), of t], where a = a and b = b] assms
    by (intro lower_index_eqI) (auto simp: min_absorb1)
  with assms show ?thesis by simp
qed

lemma upper_index_window:
  assumes "sorted tss" and "a \<le> b" and "b \<le> length tss" and "a \<le> upper_index tss t" and "upper_index tss t \<le> b"
  shows "a + upper_index (slice_of a b tss) t = upper_index tss t"
proof -
  have "sorted (slice_of a b tss)" using assms(1) by (simp add: slice_of_def sorted_wrt_drop sorted_wrt_take)
  then have "upper_index (slice_of a b tss) t = upper_index tss t - a"
    using is_boundary_shift [OF upper_index_boundary [OF assms(1), of t], where a = a and b = b] assms
    by (intro upper_index_eqI) (auto simp: min_absorb1)
  with assms show ?thesis by simp
qed

section \<open>What the index promises\<close>

text \<open>The anchors of a list of timestamps, taken every \<open>n\<close> rows.\<close>

definition anchors :: "nat \<Rightarrow> i64 list \<Rightarrow> SparseIndexEntry list" where
  "anchors n tss = map (\<lambda>k. \<lparr>e_ts = tss ! (k * n), e_record_idx = word_of_nat (k * n)\<rparr>)
     [0..<(length tss + n - 1) div n]"

lemma anchor_index_less: "0 < n \<Longrightarrow> k < (m + n - Suc 0) div n \<longleftrightarrow> k * n < (m :: nat)"
proof -
  assume n: "0 < n"
  have "k < (m + n - Suc 0) div n \<longleftrightarrow> Suc k * n \<le> m + n - Suc 0"
    using n by (simp add: Suc_le_eq [symmetric] less_eq_div_iff_mult_less_eq)
  also have "\<dots> \<longleftrightarrow> k * n < m" using n by auto
  finally show ?thesis .
qed

lemma sample_validated_anchors:
  assumes "every \<noteq> 0"
  shows "sample_validated R rs every = Inr (anchors (unat every) (map (ts_of R) rs))"
proof -
  have "0 < unat every" using assms by (simp add: unat_gt_0)
  then show ?thesis using assms
    by (auto simp: sample_validated_def step_by_def anchors_def anchor_index_less nth_enumerate_eq)
qed

lemma length_anchors [simp]: "length (anchors n tss) = (length tss + n - 1) div n"
  by (simp add: anchors_def)

lemma nth_anchors [simp]:
  "0 < n \<Longrightarrow> k * n < length tss \<Longrightarrow>
     anchors n tss ! k = \<lparr>e_ts = tss ! (k * n), e_record_idx = word_of_nat (k * n)\<rparr>"
  by (simp add: anchors_def anchor_index_less)

text \<open>Comparing an index with a bound.\<close>

lemma le_lower_index:
  assumes "sorted tss" and "a \<le> length tss" and "\<And>i. i < a \<Longrightarrow> tss ! i < t"
  shows "a \<le> lower_index tss t"
proof (rule ccontr)
  assume "\<not> ?thesis"
  then show False
    using lower_index_boundary [OF assms(1), of t] assms(2) assms(3) [of "lower_index tss t"]
    by (simp add: is_boundary_def)
qed

lemma less_upper_index: "sorted tss \<Longrightarrow> a < length tss \<Longrightarrow> tss ! a \<le> t \<Longrightarrow> a < upper_index tss t"
  using upper_index_boundary [of tss t] unfolding is_boundary_def by (metis linorder_not_less)

lemma upper_index_le: "sorted tss \<Longrightarrow> a < length tss \<Longrightarrow> t < tss ! a \<Longrightarrow> upper_index tss t \<le> a"
  using upper_index_boundary [of tss t] unfolding is_boundary_def by (metis le0 linorder_not_less)

lemma lower_le_upper: "sorted tss \<Longrightarrow> s \<le> t \<Longrightarrow> lower_index tss s \<le> upper_index tss t"
proof -
  assume *: "sorted tss" "s \<le> t"
  show ?thesis
  proof (rule ccontr)
    assume "\<not> ?thesis"
    then have u: "upper_index tss t < lower_index tss s" by simp
    then have "tss ! upper_index tss t < s"
      using lower_index_boundary [OF *(1), of s] by (simp add: is_boundary_def)
    moreover have "upper_index tss t < length tss" using u index_le_length(1) [of tss s] by linarith
    ultimately show False using upper_index_boundary [OF *(1), of t] *(2) by (auto simp: is_boundary_def)
  qed
qed

text \<open>
  The window of a timestamp, in row numbers: it lies inside the chunk, holds the upper bound,
  ends after the lower one, and starts before the lower one unless the rows before the window
  reach the timestamp.
\<close>

lemma lookup_window_anchors:
  assumes s: "sorted tss" and ne: "tss \<noteq> []" and n: "0 < n"
    and c: "h_count h = word_of_nat (length tss)" and len: "length tss < 2 ^ 64"
  obtains a b where "lookup_window h (anchors n tss) t = Inr (word_of_nat a, word_of_nat b)"
    and "a < b" and "b \<le> length tss" and "a \<le> upper_index tss t" and "upper_index tss t \<le> b"
    and "a = 0 \<or> tss ! (a - 1) < t \<Longrightarrow> a \<le> lower_index tss t"
    and "a = 0 \<or> tss ! a \<le> t"
    and "\<And>k. k * n < length tss \<Longrightarrow> tss ! (k * n) \<le> t \<Longrightarrow> k * n \<le> a"
proof -
  let ?E = "anchors n tss" and ?p = "\<lambda>e. e_ts e \<le> t"
  let ?m = "(length tss + n - 1) div n"
  have lt: "k < ?m \<longleftrightarrow> k * n < length tss" for k using anchor_index_less [OF n] by simp
  have m0: "0 < ?m" using lt [of 0] ne by simp
  have "partitioned (\<lambda>k. ?p (?E ! k)) 0 (length ?E)"
  proof -
    have "?p (?E ! i)" if "i \<le> j" "j * n < length tss" "?p (?E ! j)" for i j
    proof -
      have "i * n \<le> j * n" using that(1) by simp
      then have "tss ! (i * n) \<le> tss ! (j * n)" using s that(2) by (intro sorted_nth_mono)
      moreover have "i * n < length tss" using \<open>i * n \<le> j * n\<close> that(2) by (rule order.strict_trans1)
      ultimately show ?thesis using that(2,3) n by simp
    qed
    then show ?thesis unfolding partitioned_def using lt by auto
  qed
  then have B: "is_boundary (\<lambda>k. ?p (?E ! k)) 0 (length ?E) (partition_point ?p ?E)"
    by (rule partition_point_boundary)
  define i where "i = partition_point ?p ?E - 1"
  have i: "i < ?m" using m0 partition_point_le [of ?p ?E] by (auto simp: i_def)
  have lo: "i = 0 \<or> tss ! (i * n) \<le> t"
    using B i lt [of i] n by (cases "partition_point ?p ?E") (auto simp: is_boundary_def i_def)
  have hi: "t < tss ! (Suc i * n)" if "Suc i < ?m"
  proof -
    have "\<not> ?p (?E ! Suc i)" using B that by (auto simp: is_boundary_def i_def)
    then show ?thesis using that lt [of "Suc i"] n by simp
  qed
  define a where "a = i * n"
  define b where "b = (if Suc i < ?m then Suc i * n else length tss)"
  have a: "a < length tss" "a < b" "b \<le> length tss"
    using i n lt [of i] lt [of "Suc i"] by (auto simp: a_def b_def)
  have w: "unat (word_of_nat k :: u64) = k" if "k \<le> length tss" for k
    using that len by (simp add: unsigned_of_nat take_bit_nat_eq_self)
  have "lookup_window h ?E t = Inr (word_of_nat a, word_of_nat b)"
  proof -
    have nb: "\<not> (word_of_nat b :: u64) < word_of_nat a" "\<not> (word_of_nat (length tss) :: u64) < word_of_nat b"
      using a w [of a] w [of b] w [of "length tss"] by (simp_all add: word_less_nat_alt)
    have c0: "h_count h \<noteq> 0" using c w [of "length tss"] ne by (metis le_refl length_0_conv unsigned_0)
    have "?E \<noteq> []" using m0 by (metis length_anchors less_nat_zero_code list.size(3))
    moreover have "e_record_idx (?E ! i) = word_of_nat a" using i lt [of i] n by (simp add: a_def)
    moreover have "(if i + 1 < length ?E then e_record_idx (?E ! (i + 1)) else h_count h) = word_of_nat b"
      using lt [of "Suc i"] n c by (simp add: b_def)
    ultimately show ?thesis using c0 nb c unfolding lookup_window_def Let_def i_def [symmetric] by simp
  qed
  moreover have "a \<le> upper_index tss t"
    using lo less_upper_index [OF s a(1), of t] by (auto simp: a_def)
  moreover have "upper_index tss t \<le> b"
    using hi upper_index_le [OF s, of "Suc i * n" t] lt [of "Suc i"] by (auto simp: b_def)
  moreover have "a \<le> lower_index tss t" if "a = 0 \<or> tss ! (a - 1) < t"
  proof (rule le_lower_index [OF s])
    show "a \<le> length tss" using a by simp
    fix k assume "k < a"
    then have "tss ! k \<le> tss ! (a - 1)" using s a by (intro sorted_nth_mono) auto
    with that \<open>k < a\<close> show "tss ! k < t" by auto
  qed
  moreover have "a = 0 \<or> tss ! a \<le> t" using lo by (auto simp: a_def)
  moreover have "k * n \<le> a" if "k * n < length tss" "tss ! (k * n) \<le> t" for k
  proof -
    have "\<not> partition_point ?p ?E \<le> k"
      using B that lt [of k] n unfolding is_boundary_def by (metis length_anchors nth_anchors SparseIndexEntry.select_convs(1))
    then have "k \<le> i" unfolding i_def by linarith
    then show ?thesis by (simp add: a_def)
  qed
  ultimately show ?thesis using that a by blast
qed

text \<open>With strictly increasing timestamps, both bounds are in the window.\<close>

lemma lookup_window_strict:
  assumes s: "sorted_wrt (<) tss" and ne: "tss \<noteq> []" and n: "0 < n"
    and c: "h_count h = word_of_nat (length tss)" and len: "length tss < 2 ^ 64"
  obtains a b where "lookup_window h (anchors n tss) t = Inr (word_of_nat a, word_of_nat b)"
    and "a < b" and "b \<le> length tss" and "a \<le> upper_index tss t" and "upper_index tss t \<le> b"
    and "a \<le> lower_index tss t" and "lower_index tss t \<le> b"
proof -
  have sorted: "sorted tss" using s by (rule strict_sorted_imp_sorted)
  obtain a b where w: "lookup_window h (anchors n tss) t = Inr (word_of_nat a, word_of_nat b)"
      "a < b" "b \<le> length tss" "a \<le> upper_index tss t" "upper_index tss t \<le> b"
      "a = 0 \<or> tss ! (a - 1) < t \<Longrightarrow> a \<le> lower_index tss t" "a = 0 \<or> tss ! a \<le> t"
    using lookup_window_anchors [OF sorted ne n c len] by blast
  have "a = 0 \<or> tss ! (a - 1) < t"
    using s w(2,3,7) by (cases a) (auto simp: sorted_wrt_iff_nth_less intro: order.strict_trans2)
  moreover have "lower_index tss t \<le> b" using lower_le_upper [OF sorted order.refl, of t] w(5) by simp
  ultimately show ?thesis using that w by blast
qed

end
