(* ===== verification/ChunkReader.thy ===== *)
theory ChunkReader
  imports SparseIndex
begin

text \<open>
  What the three chunk readers share. \<open>chunk_holds\<close> relates a file to the rows stored in it.
  The locale \<open>chunk_reader\<close> is the interface between the positioned reads of a reader (one
  timestamp, one span of rows) and its searches: from the two laws of the reads it derives
  that the bounds found by probing the file or through the sparse index are the bounds of the
  rows. Each reader's own theory interprets it.
\<close>

record CachedChunkLayout =
  l_header :: ChunkHeader
  l_sparse_index :: "SparseIndexEntry list"

definition SHORT_RANGE_MAX_RECORDS :: nat where "SHORT_RANGE_MAX_RECORDS = 2048"

text \<open>\<open>header.header_size as u64 + index * header.record_size as u64\<close>, which wraps.\<close>

definition row_offset :: "ChunkHeader \<Rightarrow> u64 \<Rightarrow> u64" where
  "row_offset header index = ucast (h_header_size header) + index * ucast (h_record_size header)"

definition chunk_holds ::
  "'r FixedRecord \<Rightarrow> ('r \<Rightarrow> bool) \<Rightarrow> ChunkHeader \<Rightarrow> 'r list \<Rightarrow> u8 list \<Rightarrow> bool" where
  "chunk_holds R ok h rows file \<longleftrightarrow>
     (\<forall>r \<in> set rows. ok r) \<and> unat (h_record_size h) = BYTE_SIZE R
     \<and> h_count h = word_of_nat (length rows)
     \<and> unat (h_header_size h) + BYTE_SIZE R * length rows \<le> length file \<and> length file < 2 ^ 63
     \<and> slice_of (unat (h_header_size h)) (unat (h_header_size h) + BYTE_SIZE R * length rows) file
       = concat (map (encode_le R) rows)"

text \<open>A sparse index that belongs to the rows: absent, or sampled at some distance.\<close>

definition index_of :: "'r FixedRecord \<Rightarrow> 'r list \<Rightarrow> SparseIndexEntry list \<Rightarrow> bool" where
  "index_of R rows entries \<longleftrightarrow> entries = [] \<or> (\<exists>n > 0. entries = anchors n (map (ts_of R) rows))"

text \<open>The span a header declares is that of its rows.\<close>

definition header_spans :: "'r FixedRecord \<Rightarrow> ChunkHeader \<Rightarrow> 'r list \<Rightarrow> bool" where
  "header_spans R h rows \<longleftrightarrow>
     rows \<noteq> [] \<and> h_start_ts h = ts_of R (hd rows) \<and> h_end_ts h = ts_of R (last rows)"

lemma sorted_hd_last:
  assumes "sorted (map f rs)" and "r \<in> set rs"
  shows "f (hd rs) \<le> f r" and "f r \<le> f (last rs)"
proof -
  obtain i where i: "i < length rs" "r = rs ! i" using assms(2) by (metis in_set_conv_nth)
  then have ne: "rs \<noteq> []" by auto
  from i show "f (hd rs) \<le> f r"
    using sorted_nth_mono [OF assms(1), of 0 i] ne by (simp add: hd_conv_nth)
  from i show "f r \<le> f (last rs)"
    using sorted_nth_mono [OF assms(1), of i "length rs - 1"] ne by (simp add: last_conv_nth)
qed

lemma range_outside_span:
  assumes "sorted (map (ts_of R) rows)" and "header_spans R h rows"
    and "s > e \<or> e < h_start_ts h \<or> s > h_end_ts h"
  shows "filter (\<lambda>r. s \<le> ts_of R r \<and> ts_of R r \<le> e) rows = []"
proof -
  have "\<not> (s \<le> ts_of R r \<and> ts_of R r \<le> e)" if "r \<in> set rows" for r
    using sorted_hd_last [OF assms(1) that] assms(2,3) by (auto simp: header_spans_def i64_ord)
  then show ?thesis by (simp add: filter_empty_conv)
qed

lemma range_whole_span:
  assumes "sorted (map (ts_of R) rows)" and "header_spans R h rows"
    and "s \<le> h_start_ts h" and "h_end_ts h \<le> e"
  shows "filter (\<lambda>r. s \<le> ts_of R r \<and> ts_of R r \<le> e) rows = rows"
proof -
  have "s \<le> ts_of R r \<and> ts_of R r \<le> e" if "r \<in> set rows" for r
    using sorted_hd_last [OF assms(1) that] assms(2-4) by (auto simp: header_spans_def i64_ord)
  then show ?thesis by (simp add: filter_id_conv)
qed

lemma span_bounds:
  assumes "sorted (map (ts_of R) rows)" and "header_spans R h rows"
  shows "s \<le> h_start_ts h \<Longrightarrow> lower_index (map (ts_of R) rows) s = 0"
    and "h_end_ts h \<le> e \<Longrightarrow> upper_index (map (ts_of R) rows) e = length rows"
proof -
  have in_span: "h_start_ts h \<le> ts_of R (rows ! i) \<and> ts_of R (rows ! i) \<le> h_end_ts h" if "i < length rows" for i
    using sorted_hd_last [OF assms(1) nth_mem [OF that]] assms(2) by (simp add: header_spans_def)
  show "s \<le> h_start_ts h \<Longrightarrow> lower_index (map (ts_of R) rows) s = 0"
    using in_span by (intro lower_index_eqI assms(1)) (auto simp: is_boundary_def not_less intro: order.trans)
  show "h_end_ts h \<le> e \<Longrightarrow> upper_index (map (ts_of R) rows) e = length rows"
    using in_span by (intro upper_index_eqI assms(1)) (auto simp: is_boundary_def intro: order.trans)
qed

lemma unat_of_nat_u64 [simp]: "n < 2 ^ 64 \<Longrightarrow> unat (word_of_nat n :: u64) = n"
  by (simp add: unsigned_of_nat take_bit_nat_eq_self)

lemma unat_ucast_u32 [simp]: "unat (ucast (a :: u32) :: u64) = unat a"
proof -
  have "unat a < 2 ^ LENGTH(32)" by (rule unsigned_less)
  then show ?thesis by (simp add: unsigned_ucast_eq take_bit_nat_eq_self)
qed

lemma ucast_u32_nat: "(ucast (a :: u32) :: u64) = word_of_nat (unat a)"
proof -
  have "unat a < 2 ^ LENGTH(32)" by (rule unsigned_less)
  then have "unat (word_of_nat (unat a) :: u64) = unat a" by (intro unat_of_nat_u64) simp
  then show ?thesis by (metis unat_ucast_u32 word_unat_eq_iff)
qed

lemma word_of_nat_diff_u64: "a \<le> b \<Longrightarrow> (word_of_nat b :: u64) - word_of_nat a = word_of_nat (b - a)"
  by (simp add: of_nat_diff)

lemma word_of_nat_less_u64:
  "b < 2 ^ 64 \<Longrightarrow> a < 2 ^ 64 \<Longrightarrow> (word_of_nat a :: u64) < word_of_nat b \<longleftrightarrow> a < b"
  "b < 2 ^ 64 \<Longrightarrow> a < 2 ^ 64 \<Longrightarrow> (word_of_nat a :: u64) \<le> word_of_nat b \<longleftrightarrow> a \<le> b"
  "b < 2 ^ 64 \<Longrightarrow> a < 2 ^ 64 \<Longrightarrow> (word_of_nat a :: u64) = word_of_nat b \<longleftrightarrow> a = b"
  by (simp_all add: word_less_nat_alt word_le_nat_alt word_unat_eq_iff unsigned_of_nat take_bit_nat_eq_self)

text \<open>Searching rows in memory.\<close>

lemma bsearch_lower:
  "sorted (map f rs) \<Longrightarrow> bsearch (\<lambda>mid. f (rs ! mid) < t) 0 (length rs) = lower_index (map f rs) t"
proof -
  assume s: "sorted (map f rs)"
  have "is_boundary (\<lambda>i. f (rs ! i) < t) 0 (length rs) (lower_index (map f rs) t)"
    using lower_index_boundary [OF s, of t] by (auto simp: is_boundary_def)
  moreover have "partitioned (\<lambda>i. f (rs ! i) < t) 0 (length rs)"
    using sorted_partitioned_less(1) [OF s, of t] by (fastforce simp: partitioned_def)
  ultimately show ?thesis using bsearch_boundary [of 0 "length rs"] is_boundary_unique by blast
qed

lemma bsearch_upper:
  "sorted (map f rs) \<Longrightarrow> bsearch (\<lambda>mid. f (rs ! mid) \<le> t) 0 (length rs) = upper_index (map f rs) t"
proof -
  assume s: "sorted (map f rs)"
  have "is_boundary (\<lambda>i. f (rs ! i) \<le> t) 0 (length rs) (upper_index (map f rs) t)"
    using upper_index_boundary [OF s, of t] by (auto simp: is_boundary_def)
  moreover have "partitioned (\<lambda>i. f (rs ! i) \<le> t) 0 (length rs)"
    using sorted_partitioned_less(2) [OF s, of t] by (fastforce simp: partitioned_def)
  ultimately show ?thesis using bsearch_boundary [of 0 "length rs"] is_boundary_unique by blast
qed

lemma map_slice: "map f (slice_of a b xs) = slice_of a b (map f xs)"
  by (simp add: slice_of_def take_map drop_map)

lemma sorted_slice: "sorted xs \<Longrightarrow> sorted (slice_of a b xs)"
  by (simp add: slice_of_def sorted_wrt_drop sorted_wrt_take)

text \<open>Searching a window of the rows that holds the bound.\<close>

lemma window_lower:
  assumes "sorted (map f rows)" and "a \<le> b" and "b \<le> length rows"
    and "a \<le> lower_index (map f rows) t" and "lower_index (map f rows) t \<le> b"
  shows "bsearch (\<lambda>mid. f (slice_of a b rows ! mid) < t) 0 (length (slice_of a b rows))
    = lower_index (map f rows) t - a"
proof -
  have "sorted (map f (slice_of a b rows))" using sorted_slice [OF assms(1)] by (simp add: map_slice)
  moreover have "a + lower_index (slice_of a b (map f rows)) t = lower_index (map f rows) t"
    using assms by (intro lower_index_window) simp_all
  ultimately show ?thesis by (simp only: bsearch_lower map_slice diff_add_inverse)
qed

lemma window_upper:
  assumes "sorted (map f rows)" and "a \<le> b" and "b \<le> length rows"
    and "a \<le> upper_index (map f rows) t" and "upper_index (map f rows) t \<le> b"
  shows "bsearch (\<lambda>mid. f (slice_of a b rows ! mid) \<le> t) 0 (length (slice_of a b rows))
    = upper_index (map f rows) t - a"
proof -
  have "sorted (map f (slice_of a b rows))" using sorted_slice [OF assms(1)] by (simp add: map_slice)
  moreover have "a + upper_index (slice_of a b (map f rows)) t = upper_index (map f rows) t"
    using assms by (intro upper_index_window) simp_all
  ultimately show ?thesis by (simp only: bsearch_upper map_slice diff_add_inverse)
qed

text \<open>Windows that hold the whole range, so trimming what was read of them is exact.\<close>

lemma trim_window:
  assumes s: "sorted (map f rows)" and ab: "a \<le> b" "b \<le> length rows" and se: "(s :: i64) \<le> e"
    and l: "a \<le> lower_index (map f rows) s" and u: "upper_index (map f rows) e \<le> b"
  shows "bsearch (\<lambda>mid. f (slice_of a b rows ! mid) < s) 0 (length (slice_of a b rows))
      = lower_index (map f rows) s - a"
    and "bsearch (\<lambda>mid. f (slice_of a b rows ! mid) \<le> e) 0 (length (slice_of a b rows))
      = upper_index (map f rows) e - a"
    and "lower_index (map f rows) s \<le> upper_index (map f rows) e"
proof -
  show lu: "lower_index (map f rows) s \<le> upper_index (map f rows) e" by (rule lower_le_upper [OF s se])
  show "bsearch (\<lambda>mid. f (slice_of a b rows ! mid) < s) 0 (length (slice_of a b rows)) = lower_index (map f rows) s - a"
    using lu u by (intro window_lower s ab l) simp
  show "bsearch (\<lambda>mid. f (slice_of a b rows ! mid) \<le> e) 0 (length (slice_of a b rows)) = upper_index (map f rows) e - a"
    using lu l by (intro window_upper s ab u) simp
qed

lemma copy_within_trim:
  assumes "l \<le> u" and "u \<le> length xs"
  shows "take (length out + u - l) (copy_at (length out) (slice_of (length out + l) (length out + u) (out @ xs)) (out @ xs))
    = out @ slice_of l u xs"
  using assms by (simp add: copy_at_def slice_of_def)

text \<open>An exact match is at the lower bound, or nowhere.\<close>

lemma find_at_lower:
  assumes "sorted (map f rs)"
  shows "find (\<lambda>r. f r = t) rs =
    (let l = lower_index (map f rs) t in if l < length rs \<and> f (rs ! l) = t then Some (rs ! l) else None)"
proof -
  let ?l = "lower_index (map f rs) t"
  note B = lower_index_boundary [OF assms, of t, unfolded is_boundary_def]
  have before: "f (rs ! i) < t" if "i < ?l" for i using B that by auto
  show ?thesis
  proof (cases "?l < length rs \<and> f (rs ! ?l) = t")
    case True
    then have "find (\<lambda>r. f r = t) rs = Some (rs ! ?l)"
      unfolding find_Some_iff using before by (metis less_irrefl)
    with True show ?thesis by simp
  next
    case False
    have "f (rs ! i) \<noteq> t" if "i < length rs" for i
    proof
      assume t: "f (rs ! i) = t"
      then have "?l \<le> i" using before [of i] by (metis less_irrefl not_le)
      then have "f (rs ! ?l) \<le> t" using sorted_nth_mono [OF assms, of ?l i] that t by simp
      moreover have "t \<le> f (rs ! ?l)" using B \<open>?l \<le> i\<close> that by (auto simp: not_less)
      ultimately show False using False \<open>?l \<le> i\<close> that by simp
    qed
    then have "find (\<lambda>r. f r = t) rs = None" unfolding find_None_iff by (metis in_set_conv_nth)
    with False show ?thesis by auto
  qed
qed

section \<open>Reading rows of a well-formed chunk\<close>

context fixed_record
begin

lemma chunk_rows_less: "chunk_holds R wf h rows file \<Longrightarrow> length rows < 2 ^ 63"
proof -
  assume "chunk_holds R wf h rows file"
  then have "BYTE_SIZE R * length rows < 2 ^ 63" unfolding chunk_holds_def by linarith
  moreover have "1 * length rows \<le> BYTE_SIZE R * length rows" using size_pos by (intro mult_le_mono1) simp
  ultimately show ?thesis by linarith
qed

lemma unat_row_offset:
  assumes "chunk_holds R wf h rows file" and "i \<le> length rows"
  shows "unat (row_offset h (word_of_nat i)) = unat (h_header_size h) + BYTE_SIZE R * i"
proof -
  have "BYTE_SIZE R * i \<le> BYTE_SIZE R * length rows" using assms(2) by simp
  then have b: "unat (h_header_size h) + BYTE_SIZE R * i < 2 ^ 63"
    using assms(1) unfolding chunk_holds_def by linarith
  have i: "unat (word_of_nat i :: u64) = i" using assms(2) chunk_rows_less [OF assms(1)] by simp
  have r: "unat (h_record_size h) = BYTE_SIZE R" using assms(1) by (simp add: chunk_holds_def)
  show ?thesis using b
    by (simp add: row_offset_def unat_word_ariths i r mult.commute)
qed

lemma plan_offset:
  assumes "chunk_holds R wf h rows file" and "i \<le> length rows"
  shows "Option.bind (checked_mul (word_of_nat i) (ucast (h_record_size h)))
    (\<lambda>offset. checked_add offset (ucast (h_header_size h))) = Some (row_offset h (word_of_nat i))"
proof -
  have "BYTE_SIZE R * i \<le> BYTE_SIZE R * length rows" using assms(2) by simp
  then have b: "unat (h_header_size h) + i * BYTE_SIZE R < 2 ^ 63"
    using assms(1) unfolding chunk_holds_def mult.commute [of i] by linarith
  have i: "unat (word_of_nat i :: u64) = i" using assms(2) chunk_rows_less [OF assms(1)] by simp
  have r: "unat (h_record_size h) = BYTE_SIZE R" using assms(1) by (simp add: chunk_holds_def)
  have m: "unat (word_of_nat i * ucast (h_record_size h) :: u64) = i * BYTE_SIZE R"
    using b by (simp add: unat_word_ariths i r)
  have cm: "checked_mul (word_of_nat i) (ucast (h_record_size h)) = Some (word_of_nat i * ucast (h_record_size h) :: u64)"
    unfolding checked_mul_def i unat_ucast_u32 r using b by simp
  have ca: "checked_add (word_of_nat i * ucast (h_record_size h) :: u64) (ucast (h_header_size h))
      = Some (word_of_nat i * ucast (h_record_size h) + ucast (h_header_size h))"
    unfolding checked_add_def m unat_ucast_u32 using b by simp
  show ?thesis
    unfolding cm bind.bind_lunit ca row_offset_def by (simp only: add.commute)
qed

lemma read_rows:
  assumes "chunk_holds R wf h rows file" and "a \<le> b" and "b \<le> length rows"
  shows "read_at file (row_offset h (word_of_nat a)) (BYTE_SIZE R * (b - a))
    = Inr (concat (map (encode_le R) (slice_of a b rows)))"
proof (cases "a = b")
  case True
  then show ?thesis by (simp add: read_at_def)
next
  case False
  let ?n = "BYTE_SIZE R" and ?s = "unat (h_header_size h)"
  have o: "unat (row_offset h (word_of_nat a)) = ?s + ?n * a" using unat_row_offset assms by simp
  have ab: "?n * a + ?n * (b - a) = ?n * b" using assms(2) by (metis add_mult_distrib2 le_add_diff_inverse)
  have bn: "?n * b \<le> ?n * length rows" using assms(3) by simp
  have "slice_of (?s + ?n * a) (?s + ?n * b) file
      = slice_of (?n * a) (?n * b) (slice_of ?s (?s + ?n * length rows) file)"
    using bn by (simp add: slice_slice min_absorb1)
  also have "\<dots> = slice_of (?n * a) (?n * b) (concat (map (encode_le R) rows))"
    using assms(1) by (simp add: chunk_holds_def)
  also have "\<dots> = concat (map (encode_le R) (slice_of a b rows))"
    using assms by (intro encodes_slice) (auto simp: chunk_holds_def)
  finally have sl: "slice_of (?s + ?n * a) (?s + ?n * b) file = concat (map (encode_le R) (slice_of a b rows))" .
  have "?s + ?n * a + ?n * (b - a) \<le> length file"
    using assms(1) ab bn unfolding chunk_holds_def by linarith
  moreover have "?n * (b - a) \<noteq> 0" using False assms(2) size_pos by simp
  moreover have "?s + ?n * a + ?n * (b - a) = ?s + ?n * b" using ab by linarith
  ultimately show ?thesis by (simp only: read_at_def o sl if_False if_True)
qed

lemma read_ts:
  assumes "chunk_holds R wf h rows file" and "i < length rows"
  shows "read_at file (row_offset h (word_of_nat i)) 8 = Inr (i64_le_bytes (ts_of R (rows ! i)))"
proof -
  have w: "wf (rows ! i)" using assms by (simp add: chunk_holds_def)
  have "slice_of i (Suc i) rows = [rows ! i]" using slice_single [OF assms(2)] by simp
  then have r: "read_at file (row_offset h (word_of_nat i)) (BYTE_SIZE R) = Inr (encode_le R (rows ! i))"
    using read_rows [OF assms(1), of i "Suc i"] assms(2) by simp
  let ?o = "unat (row_offset h (word_of_nat i))"
  have n: "8 \<le> BYTE_SIZE R" using size_range by simp
  from r n have f: "?o + BYTE_SIZE R \<le> length file" "slice_of ?o (?o + BYTE_SIZE R) file = encode_le R (rows ! i)"
    by (auto simp: read_at_def split: if_splits)
  have "slice_of ?o (?o + 8) file = take 8 (slice_of ?o (?o + BYTE_SIZE R) file)"
    using n by (simp add: slice_of_def drop_take min_absorb1)
  then have "slice_of ?o (?o + 8) file = i64_le_bytes (ts_of R (rows ! i))" by (simp add: f ts_first [OF w])
  then show ?thesis using f(1) n by (simp add: read_at_def)
qed

end

section \<open>The interface of a chunk reader\<close>

locale chunk_reader = fixed_record R wf
  for R :: "'r FixedRecord" and wf :: "'r \<Rightarrow> bool" +
  fixes read_timestamp_at :: "u8 list \<Rightarrow> ChunkHeader \<Rightarrow> u64 \<Rightarrow> i64 res"
    and read_record_span :: "u8 list \<Rightarrow> ChunkHeader \<Rightarrow> u64 \<Rightarrow> u64 \<Rightarrow> 'r list res"
  assumes read_timestamp_at: "chunk_holds R wf h rows file \<Longrightarrow> i < length rows \<Longrightarrow>
      read_timestamp_at file h (word_of_nat i) = Inr (ts_of R (rows ! i))"
    and read_record_span: "chunk_holds R wf h rows file \<Longrightarrow> a \<le> b \<Longrightarrow> b \<le> length rows \<Longrightarrow>
      read_record_span file h (word_of_nat a) (word_of_nat (b - a)) = Inr (slice_of a b rows)"
begin

lemma count_nat: "chunk_holds R wf h rows file \<Longrightarrow> unat (h_count h) = length rows"
proof -
  assume h: "chunk_holds R wf h rows file"
  then have "h_count h = word_of_nat (length rows)" by (simp add: chunk_holds_def)
  then show ?thesis using chunk_rows_less [OF h] by simp
qed

text \<open>Bounds by probing the file.\<close>

lemma probe_lower:
  assumes "chunk_holds R wf h rows file" and "sorted (map (ts_of R) rows)"
  shows "bsearch_res (\<lambda>mid. and_then (read_timestamp_at file h (word_of_nat mid)) (\<lambda>ts. Inr (ts < t)))
      0 (unat (h_count h)) = Inr (lower_index (map (ts_of R) rows) t)"
proof -
  have "bsearch_res (\<lambda>mid. and_then (read_timestamp_at file h (word_of_nat mid)) (\<lambda>ts. Inr (ts < t)))
      0 (length rows) = Inr (bsearch (\<lambda>i. ts_of R (rows ! i) < t) 0 (length rows))"
    by (rule bsearch_res_pure) (simp add: read_timestamp_at [OF assms(1)])
  then show ?thesis using assms by (simp add: count_nat bsearch_lower)
qed

lemma probe_upper:
  assumes "chunk_holds R wf h rows file" and "sorted (map (ts_of R) rows)"
  shows "bsearch_res (\<lambda>mid. and_then (read_timestamp_at file h (word_of_nat mid)) (\<lambda>ts. Inr (ts \<le> t)))
      0 (unat (h_count h)) = Inr (upper_index (map (ts_of R) rows) t)"
proof -
  have "bsearch_res (\<lambda>mid. and_then (read_timestamp_at file h (word_of_nat mid)) (\<lambda>ts. Inr (ts \<le> t)))
      0 (length rows) = Inr (bsearch (\<lambda>i. ts_of R (rows ! i) \<le> t) 0 (length rows))"
    by (rule bsearch_res_pure) (simp add: read_timestamp_at [OF assms(1)])
  then show ?thesis using assms by (simp add: count_nat bsearch_upper)
qed

text \<open>Bounds through the sparse index: the window is read, then searched.\<close>

lemma read_window:
  assumes "chunk_holds R wf h rows file" and "a \<le> b" and "b \<le> length rows"
  shows "read_record_span file h (word_of_nat a) (word_of_nat b - word_of_nat a) = Inr (slice_of a b rows)"
  using assms by (simp only: word_of_nat_diff_u64 read_record_span)

lemma sparse_lower:
  assumes h: "chunk_holds R wf h rows file" and s: "sorted_wrt (<) (map (ts_of R) rows)"
    and ne: "rows \<noteq> []" and n: "0 < n"
  shows "and_then (lookup_window h (anchors n (map (ts_of R) rows)) t) (\<lambda>(start_idx, end_idx).
      and_then (read_record_span file h start_idx (end_idx - start_idx)) (\<lambda>records.
      Inr (start_idx + word_of_nat (bsearch (\<lambda>mid. ts_of R (records ! mid) < t) 0 (length records)))))
    = Inr (word_of_nat (lower_index (map (ts_of R) rows) t))"
proof -
  let ?T = "map (ts_of R) rows"
  have sorted: "sorted ?T" using s by (rule strict_sorted_imp_sorted)
  have len: "length ?T < 2 ^ 64" using chunk_rows_less [OF h] by simp
  have c: "h_count h = word_of_nat (length ?T)" using h by (simp add: chunk_holds_def)
  obtain a b where w: "lookup_window h (anchors n ?T) t = Inr (word_of_nat a, word_of_nat b)"
      "a < b" "b \<le> length ?T" "a \<le> lower_index ?T t" "lower_index ?T t \<le> b"
    using lookup_window_strict [OF s _ n c len, of t] ne by blast
  have r: "read_record_span file h (word_of_nat a) (word_of_nat b - word_of_nat a) = Inr (slice_of a b rows)"
    using read_window [OF h, of a b] w by simp
  have i: "a + lower_index (slice_of a b ?T) t = lower_index ?T t"
    using lower_index_window [OF sorted, of a b t] w by simp
  have b: "bsearch (\<lambda>mid. ts_of R (slice_of a b rows ! mid) < t) 0 (length (slice_of a b rows))
      = lower_index (slice_of a b ?T) t"
    using sorted_slice [OF sorted, of a b] by (subst bsearch_lower) (simp_all only: map_slice)
  show ?thesis by (simp only: w(1) and_then.simps case_prod_conv r b i [symmetric] of_nat_add)
qed

lemma sparse_upper:
  assumes h: "chunk_holds R wf h rows file" and sorted: "sorted (map (ts_of R) rows)"
    and ne: "rows \<noteq> []" and n: "0 < n"
  shows "and_then (lookup_window h (anchors n (map (ts_of R) rows)) t) (\<lambda>(start_idx, end_idx).
      and_then (read_record_span file h start_idx (end_idx - start_idx)) (\<lambda>records.
      Inr (start_idx + word_of_nat (bsearch (\<lambda>mid. ts_of R (records ! mid) \<le> t) 0 (length records)))))
    = Inr (word_of_nat (upper_index (map (ts_of R) rows) t))"
proof -
  let ?T = "map (ts_of R) rows"
  have len: "length ?T < 2 ^ 64" using chunk_rows_less [OF h] by simp
  have c: "h_count h = word_of_nat (length ?T)" using h by (simp add: chunk_holds_def)
  obtain a b where w: "lookup_window h (anchors n ?T) t = Inr (word_of_nat a, word_of_nat b)"
      "a < b" "b \<le> length ?T" "a \<le> upper_index ?T t" "upper_index ?T t \<le> b"
    using lookup_window_anchors [OF sorted _ n c len, of t] ne by blast
  have r: "read_record_span file h (word_of_nat a) (word_of_nat b - word_of_nat a) = Inr (slice_of a b rows)"
    using read_window [OF h, of a b] w by simp
  have i: "a + upper_index (slice_of a b ?T) t = upper_index ?T t"
    using upper_index_window [OF sorted, of a b t] w by simp
  have b: "bsearch (\<lambda>mid. ts_of R (slice_of a b rows ! mid) \<le> t) 0 (length (slice_of a b rows))
      = upper_index (slice_of a b ?T) t"
    using sorted_slice [OF sorted, of a b] by (subst bsearch_upper) (simp_all only: map_slice)
  show ?thesis by (simp only: w(1) and_then.simps case_prod_conv r b i [symmetric] of_nat_add)
qed

end

end
