(* ===== verification/ChunkCache.thy ===== *)
theory ChunkCache
  imports ChunkReader "HOL-Library.AList"
begin

text \<open>
  The chunk runtime (\<^verbatim>\<open>src/src/store_core/chunk/cache.rs\<close>): the header cache, the bounded
  cache of open files with second-chance eviction, and the two lookups the readers go through.
  A hash map is an association list with distinct keys. The two critical sections of
  \<open>ChunkFileCache::open\<close> are separate definitions, so that the calls of several threads are
  sequences of them; each one keeps the bound and the agreement of queue and map, and the
  eviction loop ends without a panic. A cached answer is the answer the file would give.
\<close>

section \<open>Keys and the header cache\<close>

definition DEFAULT_FILE_CACHE_CAPACITY :: nat where "DEFAULT_FILE_CACHE_CAPACITY = 64"

record ChunkCacheKey =
  ck_chunk_id :: u64
  ck_generation :: u64
  ck_series_id :: u64
  ck_relative_path :: string

definition key_from_meta :: "ChunkMeta \<Rightarrow> u64 \<Rightarrow> ChunkCacheKey" where
  "key_from_meta chunk series_id =
     \<lparr>ck_chunk_id = cm_chunk_id chunk, ck_generation = ucast (cm_generation chunk),
      ck_series_id = series_id, ck_relative_path = cm_relative_path chunk\<rparr>"

type_synonym ChunkHeaderCache = "ChunkCacheKey \<rightharpoonup> CachedChunkLayout"

definition header_cache_get :: "ChunkHeaderCache \<Rightarrow> ChunkCacheKey \<Rightarrow> CachedChunkLayout option" where
  "header_cache_get c key = c key"

definition header_cache_insert ::
  "ChunkHeaderCache \<Rightarrow> ChunkCacheKey \<Rightarrow> CachedChunkLayout \<Rightarrow> ChunkHeaderCache" where
  "header_cache_insert c key layout = c(key \<mapsto> layout)"

definition header_cache_invalidate :: "ChunkHeaderCache \<Rightarrow> ChunkCacheKey \<Rightarrow> ChunkHeaderCache" where
  "header_cache_invalidate c key = c(key := None)"

definition header_cache_clear :: "ChunkHeaderCache \<Rightarrow> ChunkHeaderCache" where
  "header_cache_clear c = Map.empty"

section \<open>The file cache\<close>

record CachedFile =
  c_file :: "u8 list"
  c_referenced :: bool

record FileCacheState =
  fc_order :: "ChunkCacheKey list"
  fc_files :: "(ChunkCacheKey \<times> CachedFile) list"

record ChunkFileCache =
  fc_capacity :: nat
  fc_inner :: FileCacheState

definition file_cache_new :: "nat \<Rightarrow> ChunkFileCache" where
  "file_cache_new capacity = \<lparr>fc_capacity = max capacity 1, fc_inner = \<lparr>fc_order = [], fc_files = []\<rparr>\<rparr>"

text \<open>\<open>CachedFile::reader\<close> marks the entry; a reader has its own cursor at the start.\<close>

definition cached_file_reader :: "CachedFile \<Rightarrow> CachedFile \<times> ChunkFile" where
  "cached_file_reader f = (f\<lparr>c_referenced := True\<rparr>, chunk_file_new (c_file f))"

definition use_cached :: "FileCacheState \<Rightarrow> ChunkCacheKey \<Rightarrow> (FileCacheState \<times> ChunkFile) option" where
  "use_cached st key =
     (case map_of (fc_files st) key of
        None \<Rightarrow> None
      | Some f \<Rightarrow>
          let (f', reader) = cached_file_reader f in
          Some (st\<lparr>fc_files := AList.update key f' (fc_files st)\<rparr>, reader))"

text \<open>The reference bit of a key's entry, the measure of the eviction loop.\<close>

definition referenced_in :: "(ChunkCacheKey \<times> CachedFile) list \<Rightarrow> ChunkCacheKey \<Rightarrow> bool" where
  "referenced_in files key = (case map_of files key of None \<Rightarrow> False | Some f \<Rightarrow> c_referenced f)"

lemma referenced_in_update:
  "referenced_in (AList.update k (f\<lparr>c_referenced := False\<rparr>) files) = (\<lambda>x. x \<noteq> k \<and> referenced_in files x)"
  by (rule ext) (simp add: referenced_in_def update_conv')

text \<open>The eviction loop. Both lookups panic in the source if the queue and the map disagree.\<close>

function evict ::
  "ChunkCacheKey list \<Rightarrow> (ChunkCacheKey \<times> CachedFile) list \<Rightarrow>
   (ChunkCacheKey list \<times> (ChunkCacheKey \<times> CachedFile) list) res" where
  "evict [] files = Inl (Panic ''nonempty file cache'')"
| "evict (candidate # order) files =
     (case map_of files candidate of
        None \<Rightarrow> Inl (Panic ''no entry found for key'')
      | Some f \<Rightarrow>
          if c_referenced f
          then evict (order @ [candidate]) (AList.update candidate (f\<lparr>c_referenced := False\<rparr>) files)
          else Inr (order, AList.delete candidate files))"
  by pat_completeness auto

termination
proof (relation "measure (\<lambda>(order, files). length (filter (referenced_in files) order))", goal_cases)
  case 1
  then show ?case by simp
next
  case (2 candidate order files f)
  have "length (filter (\<lambda>x. x \<noteq> candidate \<and> referenced_in files x) order) \<le> length (filter (referenced_in files) order)"
    by (induction order) auto
  moreover have "referenced_in files candidate" using 2 by (simp add: referenced_in_def)
  ultimately show ?case by (simp add: referenced_in_update)
qed

text \<open>The section under the write lock, entered with a freshly opened file.\<close>

definition file_cache_admit ::
  "ChunkFileCache \<Rightarrow> ChunkCacheKey \<Rightarrow> u8 list \<Rightarrow> (ChunkFileCache \<times> ChunkFile) res" where
  "file_cache_admit cache key opened =
     (case use_cached (fc_inner cache) key of
        Some (st, reader) \<Rightarrow> Inr (cache\<lparr>fc_inner := st\<rparr>, reader)
      | None \<Rightarrow>
          let st = fc_inner cache in
          and_then
            (if length (fc_files st) = fc_capacity cache then evict (fc_order st) (fc_files st)
             else Inr (fc_order st, fc_files st)) (\<lambda>(order, files).
          Inr (cache\<lparr>fc_inner :=
                 \<lparr>fc_order = order @ [key],
                  fc_files = AList.update key \<lparr>c_file = opened, c_referenced = False\<rparr> files\<rparr>\<rparr>,
               chunk_file_new opened)))"

definition file_cache_open ::
  "(path \<rightharpoonup> u8 list) \<Rightarrow> ChunkFileCache \<Rightarrow> ChunkCacheKey \<Rightarrow> path \<Rightarrow> ChunkFileCache \<times> ChunkFile res" where
  "file_cache_open fs cache key path =
     (case use_cached (fc_inner cache) key of
        Some (st, reader) \<Rightarrow> (cache\<lparr>fc_inner := st\<rparr>, Inr reader)
      | None \<Rightarrow>
          (case fs path of
             None \<Rightarrow> (cache, Inl (Io NotFoundKind))
           | Some opened \<Rightarrow>
               (case file_cache_admit cache key opened of
                  Inl e \<Rightarrow> (cache, Inl e)
                | Inr (cache', reader) \<Rightarrow> (cache', Inr reader))))"

definition file_cache_invalidate :: "ChunkFileCache \<Rightarrow> ChunkCacheKey \<Rightarrow> ChunkFileCache" where
  "file_cache_invalidate cache key =
     cache\<lparr>fc_inner :=
       \<lparr>fc_order = filter (\<lambda>candidate. candidate \<noteq> key) (fc_order (fc_inner cache)),
        fc_files = AList.delete key (fc_files (fc_inner cache))\<rparr>\<rparr>"

definition file_cache_clear :: "ChunkFileCache \<Rightarrow> ChunkFileCache" where
  "file_cache_clear cache = cache\<lparr>fc_inner := \<lparr>fc_order = [], fc_files = []\<rparr>\<rparr>"

section \<open>The runtime\<close>

record ChunkRuntime =
  rt_headers :: ChunkHeaderCache
  rt_files :: ChunkFileCache

definition runtime_new :: "nat \<Rightarrow> ChunkRuntime" where
  "runtime_new capacity = \<lparr>rt_headers = Map.empty, rt_files = file_cache_new capacity\<rparr>"

definition load_layout :: "u8 list \<Rightarrow> CachedChunkLayout res" where
  "load_layout file =
     and_then (header_read_from file) (\<lambda>header.
     and_then (sparse_read_from_file file header) (\<lambda>sparse_index.
     Inr \<lparr>l_header = header, l_sparse_index = sparse_index\<rparr>))"

definition get_layout ::
  "(path \<rightharpoonup> u8 list) \<Rightarrow> ChunkRuntime \<Rightarrow> ChunkMeta \<Rightarrow> u64 \<Rightarrow> path \<Rightarrow> ChunkRuntime \<times> CachedChunkLayout res" where
  "get_layout fs rt chunk series_id dir =
     (let key = key_from_meta chunk series_id in
      case header_cache_get (rt_headers rt) key of
        Some layout \<Rightarrow> (rt, Inr layout)
      | None \<Rightarrow>
          let (files, opened) = file_cache_open fs (rt_files rt) key (path_join dir (cm_relative_path chunk));
              rt = rt\<lparr>rt_files := files\<rparr> in
          (case and_then opened (\<lambda>file. load_layout (cf_file file)) of
             Inl e \<Rightarrow> (rt, Inl e)
           | Inr layout \<Rightarrow> (rt\<lparr>rt_headers := header_cache_insert (rt_headers rt) key layout\<rparr>, Inr layout)))"

definition open_file ::
  "(path \<rightharpoonup> u8 list) \<Rightarrow> ChunkRuntime \<Rightarrow> ChunkMeta \<Rightarrow> u64 \<Rightarrow> path \<Rightarrow> ChunkRuntime \<times> ChunkFile res" where
  "open_file fs rt chunk series_id dir =
     (let (files, opened) = file_cache_open fs (rt_files rt) (key_from_meta chunk series_id)
            (path_join dir (cm_relative_path chunk)) in
      (rt\<lparr>rt_files := files\<rparr>, opened))"

text \<open>
  The opening of every per-chunk read: the layout, the reader's check of the header, the file.
  Each step may return early.
\<close>

definition with_chunk ::
  "(path \<rightharpoonup> u8 list) \<Rightarrow> ChunkRuntime \<Rightarrow> path \<Rightarrow> u64 \<Rightarrow> ChunkMeta \<Rightarrow> (ChunkHeader \<Rightarrow> unit res) \<Rightarrow>
   (CachedChunkLayout \<Rightarrow> ChunkFile \<Rightarrow> 'a res) \<Rightarrow> ChunkRuntime \<times> 'a res" where
  "with_chunk fs rt dir series_id chunk validate_header body =
     (let (rt, layout) = get_layout fs rt chunk series_id dir in
      case and_then layout (\<lambda>layout. and_then (validate_header (l_header layout)) (\<lambda>_. Inr layout)) of
        Inl e \<Rightarrow> (rt, Inl e)
      | Inr layout \<Rightarrow>
          let (rt, opened) = open_file fs rt chunk series_id dir in
          (rt, and_then opened (body layout)))"

definition runtime_invalidate :: "ChunkRuntime \<Rightarrow> ChunkMeta \<Rightarrow> u64 \<Rightarrow> ChunkRuntime" where
  "runtime_invalidate rt chunk series_id =
     (let key = key_from_meta chunk series_id in
      \<lparr>rt_headers = header_cache_invalidate (rt_headers rt) key,
       rt_files = file_cache_invalidate (rt_files rt) key\<rparr>)"

definition runtime_clear :: "ChunkRuntime \<Rightarrow> ChunkRuntime" where
  "runtime_clear rt =
     \<lparr>rt_headers = header_cache_clear (rt_headers rt), rt_files = file_cache_clear (rt_files rt)\<rparr>"

definition runtime_clear_layouts :: "ChunkRuntime \<Rightarrow> ChunkRuntime" where
  "runtime_clear_layouts rt = rt\<lparr>rt_headers := header_cache_clear (rt_headers rt)\<rparr>"

section \<open>The cache invariant\<close>

text \<open>The queue lists each cached key once, and the capacity bounds both.\<close>

definition queue_ok :: "ChunkCacheKey list \<Rightarrow> (ChunkCacheKey \<times> CachedFile) list \<Rightarrow> bool" where
  "queue_ok order files \<longleftrightarrow>
     distinct (map fst files) \<and> distinct order \<and> set order = fst ` set files"

definition file_cache_ok :: "ChunkFileCache \<Rightarrow> bool" where
  "file_cache_ok c \<longleftrightarrow>
     queue_ok (fc_order (fc_inner c)) (fc_files (fc_inner c))
     \<and> length (fc_files (fc_inner c)) \<le> fc_capacity c \<and> 1 \<le> fc_capacity c"

lemma length_update_mem: "k \<in> fst ` set xs \<Longrightarrow> length (AList.update k v xs) = length xs"
  by (induction xs) auto

lemma length_update_new: "k \<notin> fst ` set xs \<Longrightarrow> length (AList.update k v xs) = Suc (length xs)"
  by (induction xs) auto

lemma length_delete_mem:
  "distinct (map fst xs) \<Longrightarrow> k \<in> fst ` set xs \<Longrightarrow> Suc (length (AList.delete k xs)) = length xs"
  by (induction xs) auto

lemma queue_ok_update:
  assumes "queue_ok order files" and "k \<in> fst ` set files"
  shows "queue_ok order (AList.update k v files)"
  using assms by (auto simp: queue_ok_def distinct_update dom_update)

lemma queue_ok_rotate: "queue_ok (k # order) files \<Longrightarrow> queue_ok (order @ [k]) files"
  by (auto simp: queue_ok_def)

lemma keys_delete: "fst ` set (AList.delete k xs) = fst ` set xs - {k}"
  using arg_cong [OF delete_keys [of k xs], of set] by simp

lemma map_of_None_notin: "map_of xs k = None \<longleftrightarrow> k \<notin> fst ` set xs"
  by (rule map_of_eq_None_iff)

text \<open>Eviction returns and removes exactly one entry; the others keep their files.\<close>

lemma evict_total:
  "queue_ok order files \<Longrightarrow> files \<noteq> [] \<Longrightarrow>
     \<exists>order' files'. evict order files = Inr (order', files') \<and> queue_ok order' files'
       \<and> Suc (length files') = length files \<and> set order' \<subseteq> set order
       \<and> (\<forall>k f. map_of files' k = Some f \<longrightarrow> map_option c_file (map_of files k) = Some (c_file f))"
proof (induction order files rule: evict.induct)
  case (1 files)
  then show ?case by (simp add: queue_ok_def)
next
  case (2 c order files)
  then have mem: "c \<in> fst ` set files" by (auto simp: queue_ok_def)
  then obtain f where f: "map_of files c = Some f" by (metis map_of_eq_None_iff not_None_eq)
  show ?case
  proof (cases "c_referenced f")
    case True
    let ?files = "AList.update c (f\<lparr>c_referenced := False\<rparr>) files"
    have q: "queue_ok (order @ [c]) ?files" using "2.prems"(1) mem by (intro queue_ok_update queue_ok_rotate)
    have ne: "?files \<noteq> []" using mem length_update_mem [OF mem] "2.prems"(2) by (metis length_0_conv)
    obtain order' files' where IH: "evict (order @ [c]) ?files = Inr (order', files')" "queue_ok order' files'"
        "Suc (length files') = length ?files" "set order' \<subseteq> set (order @ [c])"
        "\<forall>k f. map_of files' k = Some f \<longrightarrow> map_option c_file (map_of ?files k) = Some (c_file f)"
      using "2.IH" [OF f True q ne] by blast
    have "\<forall>k g. map_of files' k = Some g \<longrightarrow> map_option c_file (map_of files k) = Some (c_file g)"
      using IH(5) f by (auto simp: update_conv' split: if_splits)
    moreover have "evict (c # order) files = Inr (order', files')" using f True IH(1) by simp
    ultimately show ?thesis using IH(2,3,4) length_update_mem [OF mem] by auto
  next
    case False
    then have e: "evict (c # order) files = Inr (order, AList.delete c files)" using f by simp
    have "queue_ok order (AList.delete c files)"
      using "2.prems"(1) by (auto simp: queue_ok_def distinct_delete keys_delete)
    moreover have "Suc (length (AList.delete c files)) = length files"
      using mem "2.prems"(1) by (simp add: queue_ok_def length_delete_mem)
    moreover have "\<forall>k g. map_of (AList.delete c files) k = Some g \<longrightarrow> map_option c_file (map_of files k) = Some (c_file g)"
      by (auto simp: delete_conv' split: if_splits)
    ultimately show ?thesis using e by auto
  qed
qed

lemma use_cached_ok:
  assumes "file_cache_ok c" and "use_cached (fc_inner c) key = Some (st, reader)"
  shows "file_cache_ok (c\<lparr>fc_inner := st\<rparr>)"
proof -
  obtain f where f: "map_of (fc_files (fc_inner c)) key = Some f"
    and st: "st = (fc_inner c)\<lparr>fc_files := AList.update key (f\<lparr>c_referenced := True\<rparr>) (fc_files (fc_inner c))\<rparr>"
    using assms(2) by (auto simp: use_cached_def cached_file_reader_def split: option.splits)
  have mem: "key \<in> fst ` set (fc_files (fc_inner c))" using f map_of_None_notin by (metis option.distinct(1))
  show ?thesis using assms(1) queue_ok_update [OF _ mem] length_update_mem [OF mem]
    by (simp add: file_cache_ok_def st)
qed

lemma file_cache_admit_ok:
  assumes ok: "file_cache_ok c"
  obtains c' reader where "file_cache_admit c key opened = Inr (c', reader)" and "file_cache_ok c'"
    and "fc_capacity c' = fc_capacity c"
proof (cases "use_cached (fc_inner c) key")
  case (Some p)
  then show ?thesis using that use_cached_ok [OF ok] by (cases p) (simp add: file_cache_admit_def)
next
  case None
  let ?o = "fc_order (fc_inner c)" and ?f = "fc_files (fc_inner c)"
  have new: "key \<notin> fst ` set ?f"
    using None by (simp add: use_cached_def cached_file_reader_def map_of_None_notin split: option.splits)
  have q: "queue_ok ?o ?f" and len: "length ?f \<le> fc_capacity c" "1 \<le> fc_capacity c"
    using ok by (simp_all add: file_cache_ok_def)
  define slot where "slot = (if length ?f = fc_capacity c then evict ?o ?f else Inr (?o, ?f))"
  have "\<exists>o' f'. slot = Inr (o', f') \<and> queue_ok o' f' \<and> length f' < fc_capacity c \<and> key \<notin> fst ` set f'"
  proof (cases "length ?f = fc_capacity c")
    case True
    with len have "?f \<noteq> []" by auto
    then obtain o' f' where "evict ?o ?f = Inr (o', f')" "queue_ok o' f'" "Suc (length f') = length ?f"
        "set o' \<subseteq> set ?o" using evict_total [OF q] by blast
    then show ?thesis using True new q by (auto simp: slot_def queue_ok_def)
  next
    case False
    then show ?thesis using q len new by (simp add: slot_def)
  qed
  then obtain o' f' where s: "slot = Inr (o', f')" "queue_ok o' f'" "length f' < fc_capacity c" "key \<notin> fst ` set f'"
    by blast
  have "queue_ok (o' @ [key]) (AList.update key v f')" for v
    using s(2,4) by (auto simp: queue_ok_def distinct_update dom_update)
  moreover have "file_cache_admit c key opened = Inr (c\<lparr>fc_inner := \<lparr>fc_order = o' @ [key],
      fc_files = AList.update key \<lparr>c_file = opened, c_referenced = False\<rparr> f'\<rparr>\<rparr>, chunk_file_new opened)"
    using None s(1) by (simp add: file_cache_admit_def Let_def slot_def [symmetric])
  ultimately show ?thesis using that s len length_update_new [OF s(4)]
    by (simp add: file_cache_ok_def)
qed

lemma file_cache_open_ok: "file_cache_ok c \<Longrightarrow> file_cache_ok (fst (file_cache_open fs c key path))"
  using use_cached_ok [of c key] file_cache_admit_ok [of c key]
  by (auto simp: file_cache_open_def split: option.splits sum.splits prod.splits) (metis sum.inject(2) prod.inject)

lemma file_cache_invalidate_ok: "file_cache_ok c \<Longrightarrow> file_cache_ok (file_cache_invalidate c key)"
  unfolding file_cache_ok_def queue_ok_def file_cache_invalidate_def
  by (auto simp: distinct_delete keys_delete intro: order.trans [OF length_delete_le])

lemma file_cache_new_ok: "file_cache_ok (file_cache_new n)" "file_cache_ok c \<Longrightarrow> file_cache_ok (file_cache_clear c)"
  by (simp_all add: file_cache_ok_def queue_ok_def file_cache_new_def file_cache_clear_def)

section \<open>Cached answers\<close>

text \<open>
  The sections of the cache that run under its lock, as the steps of any number of threads: a hit,
  the admission of a file opened outside the lock, an invalidation, a clear.
\<close>

inductive cache_step :: "ChunkFileCache \<Rightarrow> ChunkFileCache \<Rightarrow> bool" where
  hit: "use_cached (fc_inner c) key = Some (st, reader) \<Longrightarrow> cache_step c (c\<lparr>fc_inner := st\<rparr>)"
| admit: "file_cache_admit c key opened = Inr (c', reader) \<Longrightarrow> cache_step c c'"
| drop_key: "cache_step c (file_cache_invalidate c key)"
| drop_all: "cache_step c (file_cache_clear c)"

inductive_cases cache_stepE: "cache_step c c'"

lemma drop_capacity [simp]: "fc_capacity (file_cache_invalidate c key) = fc_capacity c"
  "fc_capacity (file_cache_clear c) = fc_capacity c"
  by (simp_all add: file_cache_invalidate_def file_cache_clear_def)

lemma cache_step_ok:
  "cache_step c c' \<Longrightarrow> file_cache_ok c \<Longrightarrow> file_cache_ok c' \<and> fc_capacity c' = fc_capacity c"
proof (induction rule: cache_step.induct)
  case (admit c key opened c' reader)
  then show ?case using file_cache_admit_ok [OF admit.prems, of key opened] by (metis Pair_inject sum.inject(2))
qed (auto intro: use_cached_ok file_cache_invalidate_ok file_cache_new_ok)

lemma cache_steps_ok:
  "cache_step\<^sup>*\<^sup>* c c' \<Longrightarrow> file_cache_ok c \<Longrightarrow> file_cache_ok c' \<and> fc_capacity c' = fc_capacity c"
  by (induction rule: rtranclp_induct) (auto dest: cache_step_ok)

text \<open>
  The caches agree with the file system: every entry is the contents (or the layout) of the
  file that the key's chunk has. Chunk files are never modified after they are published.
\<close>

definition coherent :: "(path \<rightharpoonup> u8 list) \<Rightarrow> (ChunkCacheKey \<Rightarrow> path) \<Rightarrow> ChunkRuntime \<Rightarrow> bool" where
  "coherent fs where_is rt \<longleftrightarrow>
     file_cache_ok (rt_files rt)
     \<and> (\<forall>k f. map_of (fc_files (fc_inner (rt_files rt))) k = Some f \<longrightarrow> fs (where_is k) = Some (c_file f))
     \<and> (\<forall>k l. rt_headers rt k = Some l \<longrightarrow>
          (\<exists>file. fs (where_is k) = Some file \<and> load_layout file = Inr l))"

lemma coherent_new: "coherent fs where_is (runtime_new n)"
  by (simp add: coherent_def runtime_new_def file_cache_new_ok)
    (simp add: file_cache_new_def)

lemma use_cached_files:
  assumes "use_cached st key = Some (st', reader)"
  shows "map_option c_file (map_of (fc_files st') k) = map_option c_file (map_of (fc_files st) k)"
    and "map_option c_file (map_of (fc_files st) key) = Some (cf_file reader)"
  using assms by (auto simp: use_cached_def cached_file_reader_def update_conv' chunk_file_new_def split: option.splits)

lemma file_cache_open_coherent:
  assumes ok: "file_cache_ok c"
    and files: "\<forall>k f. map_of (fc_files (fc_inner c)) k = Some f \<longrightarrow> fs (where_is k) = Some (c_file f)"
    and p: "where_is key = path" and op: "file_cache_open fs c key path = (c', r)"
  shows "\<forall>k f. map_of (fc_files (fc_inner c')) k = Some f \<longrightarrow> fs (where_is k) = Some (c_file f)"
    and "r = and_then (ok_or (fs path) (Io NotFoundKind)) (\<lambda>file. Inr (chunk_file_new file))"
proof -
  have hit: "(\<forall>k f. map_of (fc_files st) k = Some f \<longrightarrow> fs (where_is k) = Some (c_file f))
      \<and> fs path = Some (cf_file reader) \<and> reader = chunk_file_new (cf_file reader)"
    if "use_cached (fc_inner c) key = Some (st, reader)" for st reader
  proof -
    have "reader = chunk_file_new (cf_file reader)"
      using that by (auto simp: use_cached_def cached_file_reader_def chunk_file_new_def split: option.splits)
    moreover have "fs path = Some (cf_file reader)"
      using use_cached_files(2) [OF that] files p by (auto simp: map_option_case split: option.splits)
    moreover have "fs (where_is k) = Some (c_file f)" if "map_of (fc_files st) k = Some f" for k f
      using use_cached_files(1) [OF \<open>use_cached (fc_inner c) key = Some (st, reader)\<close>, of k] that files
      by (auto simp: map_option_case split: option.splits)
    ultimately show ?thesis by blast
  qed
  have miss: "(\<forall>k f. map_of (fc_files (fc_inner c'')) k = Some f \<longrightarrow> fs (where_is k) = Some (c_file f))
      \<and> reader = chunk_file_new bytes"
    if u: "use_cached (fc_inner c) key = None" and f: "fs path = Some bytes"
      and a: "file_cache_admit c key bytes = Inr (c'', reader)" for c'' reader bytes
  proof -
    let ?o = "fc_order (fc_inner c)" and ?f = "fc_files (fc_inner c)"
    obtain o' f' where s: "(if length ?f = fc_capacity c then evict ?o ?f else Inr (?o, ?f)) = Inr (o', f')"
      and c'': "fc_files (fc_inner c'') = AList.update key \<lparr>c_file = bytes, c_referenced = False\<rparr> f'"
      and r: "reader = chunk_file_new bytes"
      using u a by (auto simp: file_cache_admit_def Let_def res_simps)
    have "fs (where_is k) = Some (c_file g)" if "map_of f' k = Some g" for k g
    proof (cases "length ?f = fc_capacity c")
      case True
      then have "?f \<noteq> []" using ok by (auto simp: file_cache_ok_def)
      with True s ok have "map_option c_file (map_of ?f k) = Some (c_file g)"
        using evict_total [of ?o ?f] that by (auto simp: file_cache_ok_def)
      then show ?thesis using files by (auto simp: map_option_case split: option.splits)
    next
      case False
      then show ?thesis using s that files by simp
    qed
    then show ?thesis using c'' r f p by (simp add: update_conv')
  qed
  have noerr: "file_cache_admit c key bytes \<noteq> Inl e" for bytes e
    using file_cache_admit_ok [OF ok, of key bytes] by (metis sum.distinct(1))
  show "\<forall>k f. map_of (fc_files (fc_inner c')) k = Some f \<longrightarrow> fs (where_is k) = Some (c_file f)"
    using op hit miss files noerr
    by (auto simp: file_cache_open_def split: option.splits sum.splits prod.splits)
  show "r = and_then (ok_or (fs path) (Io NotFoundKind)) (\<lambda>file. Inr (chunk_file_new file))"
    using op hit miss files noerr
    by (auto simp: file_cache_open_def split: option.splits sum.splits prod.splits)
qed

text \<open>What an uncached lookup of the layout gives.\<close>

definition stored_layout :: "(path \<rightharpoonup> u8 list) \<Rightarrow> path \<Rightarrow> CachedChunkLayout res" where
  "stored_layout fs p = and_then (ok_or (fs p) (Io NotFoundKind)) load_layout"

lemma get_layout_coherent:
  assumes co: "coherent fs where_is rt"
    and p: "where_is (key_from_meta chunk sid) = path_join dir (cm_relative_path chunk)"
    and g: "get_layout fs rt chunk sid dir = (rt', r)"
  shows "coherent fs where_is rt'" and "r = stored_layout fs (path_join dir (cm_relative_path chunk))"
proof -
  let ?k = "key_from_meta chunk sid" and ?p = "path_join dir (cm_relative_path chunk)"
  have ok: "file_cache_ok (rt_files rt)"
    and files: "\<forall>k f. map_of (fc_files (fc_inner (rt_files rt))) k = Some f \<longrightarrow> fs (where_is k) = Some (c_file f)"
    and heads: "\<forall>k l. rt_headers rt k = Some l \<longrightarrow> (\<exists>file. fs (where_is k) = Some file \<and> load_layout file = Inr l)"
    using co by (auto simp: coherent_def)
  have "coherent fs where_is rt' \<and> r = stored_layout fs ?p"
  proof (cases "rt_headers rt ?k")
    case (Some l)
    then have "rt' = rt" "r = Inr l" using g by (simp_all add: get_layout_def header_cache_get_def)
    moreover obtain bytes where "fs ?p = Some bytes" "load_layout bytes = Inr l" using heads Some p by metis
    ultimately show ?thesis using co by (simp add: stored_layout_def)
  next
    case None
    obtain c' q where op: "file_cache_open fs (rt_files rt) ?k ?p = (c', q)" by fastforce
    note co' = file_cache_open_coherent [OF ok files p op] file_cache_open_ok [OF ok, of fs ?k ?p]
    have q: "and_then q (\<lambda>file. load_layout (cf_file file)) = stored_layout fs ?p"
      unfolding co'(2) stored_layout_def by (cases "fs ?p") (simp_all add: chunk_file_new_def)
    have g': "(case stored_layout fs ?p of Inl e \<Rightarrow> (rt\<lparr>rt_files := c'\<rparr>, Inl e)
        | Inr l \<Rightarrow> (rt\<lparr>rt_files := c', rt_headers := (rt_headers rt)(?k \<mapsto> l)\<rparr>, Inr l)) = (rt', r)"
      using g None q
      by (auto simp: get_layout_def header_cache_get_def header_cache_insert_def op Let_def split: sum.splits)
    have st: "\<exists>file. fs (where_is ?k) = Some file \<and> load_layout file = Inr l" if "stored_layout fs ?p = Inr l" for l
      using that p by (auto simp: stored_layout_def res_simps)
    show ?thesis
    proof (cases "stored_layout fs ?p")
      case (Inl e)
      then show ?thesis using g' co' heads op by (auto simp: coherent_def)
    next
      case (Inr l)
      then show ?thesis using g' co' heads op st [OF Inr] by (auto simp: coherent_def split: if_splits)
    qed
  qed
  then show "coherent fs where_is rt'" and "r = stored_layout fs ?p" by simp_all
qed

lemma open_file_coherent:
  assumes co: "coherent fs where_is rt"
    and p: "where_is (key_from_meta chunk sid) = path_join dir (cm_relative_path chunk)"
    and o: "open_file fs rt chunk sid dir = (rt', r)"
  shows "coherent fs where_is rt'"
    and "r = and_then (ok_or (fs (path_join dir (cm_relative_path chunk))) (Io NotFoundKind))
      (\<lambda>file. Inr (chunk_file_new file))"
proof -
  let ?k = "key_from_meta chunk sid" and ?p = "path_join dir (cm_relative_path chunk)"
  obtain c' q where op: "file_cache_open fs (rt_files rt) ?k ?p = (c', q)" by fastforce
  have ok: "file_cache_ok (rt_files rt)"
    and files: "\<forall>k f. map_of (fc_files (fc_inner (rt_files rt))) k = Some f \<longrightarrow> fs (where_is k) = Some (c_file f)"
    using co by (auto simp: coherent_def)
  note co' = file_cache_open_coherent [OF ok files p op] file_cache_open_ok [OF ok, of fs ?k ?p]
  have "rt' = rt\<lparr>rt_files := c'\<rparr>" "r = q" using o op by (simp_all add: open_file_def)
  then show "coherent fs where_is rt'"
    and "r = and_then (ok_or (fs ?p) (Io NotFoundKind)) (\<lambda>file. Inr (chunk_file_new file))"
    using co co' op by (auto simp: coherent_def)
qed

lemma with_chunk_coherent:
  assumes co: "coherent fs where_is rt"
    and p: "where_is (key_from_meta chunk sid) = path_join dir (cm_relative_path chunk)"
    and w: "with_chunk fs rt dir sid chunk val body = (rt', r)"
  shows "coherent fs where_is rt'"
    and "fs (path_join dir (cm_relative_path chunk)) = Some bytes \<Longrightarrow> load_layout bytes = Inr layout \<Longrightarrow>
      val (l_header layout) = Inr () \<Longrightarrow> r = body layout (chunk_file_new bytes)"
proof -
  obtain rt1 q where g: "get_layout fs rt chunk sid dir = (rt1, q)" by fastforce
  obtain rt2 f where op: "open_file fs rt1 chunk sid dir = (rt2, f)" by fastforce
  note c1 = get_layout_coherent [OF co p g]
  note c2 = open_file_coherent [OF c1(1) p op]
  show "coherent fs where_is rt'"
    using w c1(1) c2(1) by (auto simp: with_chunk_def g op split: sum.splits)
  assume "fs (path_join dir (cm_relative_path chunk)) = Some bytes" "load_layout bytes = Inr layout"
    "val (l_header layout) = Inr ()"
  then show "r = body layout (chunk_file_new bytes)"
    using w c1(2) c2(2) by (simp add: with_chunk_def g op stored_layout_def)
qed

end
