(* ===== verification/FixedReader.thy ===== *)
theory FixedReader
  imports ChunkCache
begin

text \<open>
  The generic chunk reader for trades, quotes and order book deltas
  (\<^verbatim>\<open>src/src/store_core/chunk/fixed_reader.rs\<close>). On a chunk with strictly increasing
  timestamps a range read returns exactly the rows of the range. Record types that allow equal
  timestamps break the premise of the sparse window: a run of equal timestamps that crosses an
  anchor loses the rows before the anchor.
\<close>

definition fixed_validate_header :: "'r FixedRecord \<Rightarrow> ChunkHeader \<Rightarrow> unit res" where
  "fixed_validate_header R header =
     and_then (ensure (h_schema_id header = SCHEMA_ID R) (InvalidData ''expected schema'')) (\<lambda>_.
     ensure (unat (h_record_size header) = BYTE_SIZE R) (InvalidData ''unexpected record size''))"

definition fixed_read_timestamp_at :: "u8 list \<Rightarrow> ChunkHeader \<Rightarrow> u64 \<Rightarrow> i64 res" where
  "fixed_read_timestamp_at file header index =
     and_then (read_at file (row_offset header index) 8) (\<lambda>bytes. Inr (i64_of_le_bytes bytes))"

definition fixed_read_record_span ::
  "'r FixedRecord \<Rightarrow> u8 list \<Rightarrow> ChunkHeader \<Rightarrow> u64 \<Rightarrow> u64 \<Rightarrow> 'r list res" where
  "fixed_read_record_span R file header start_index count =
     (if count = 0 then Inr []
      else
        and_then (ok_or (checked_add start_index count) (InvalidData ''fixed span end overflow'')) (\<lambda>end_index.
        and_then (ensure (\<not> end_index > h_count header)
          (InvalidData ''fixed span exceeds chunk row count'')) (\<lambda>_.
        and_then (ok_or (checked_mul count (word_of_nat (BYTE_SIZE R)))
          (InvalidData ''fixed span byte length overflow'')) (\<lambda>byte_len.
        and_then (read_at file (row_offset header start_index) (unat byte_len)) (\<lambda>bytes.
        collect_res (decode_le R) (chunks_exact (BYTE_SIZE R) bytes))))))"

definition fixed_lower_bound :: "u8 list \<Rightarrow> ChunkHeader \<Rightarrow> i64 \<Rightarrow> u64 res" where
  "fixed_lower_bound file header target_ts =
     and_then (bsearch_res (\<lambda>mid.
       and_then (fixed_read_timestamp_at file header (word_of_nat mid)) (\<lambda>ts. Inr (ts < target_ts)))
       0 (unat (h_count header))) (\<lambda>left. Inr (word_of_nat left))"

definition fixed_upper_bound :: "u8 list \<Rightarrow> ChunkHeader \<Rightarrow> i64 \<Rightarrow> u64 res" where
  "fixed_upper_bound file header target_ts =
     and_then (bsearch_res (\<lambda>mid.
       and_then (fixed_read_timestamp_at file header (word_of_nat mid)) (\<lambda>ts. Inr (ts \<le> target_ts)))
       0 (unat (h_count header))) (\<lambda>left. Inr (word_of_nat left))"

definition fixed_lower_bound_in_records :: "'r FixedRecord \<Rightarrow> 'r list \<Rightarrow> i64 \<Rightarrow> nat" where
  "fixed_lower_bound_in_records R records target_ts =
     bsearch (\<lambda>mid. ts_of R (records ! mid) < target_ts) 0 (length records)"

definition fixed_upper_bound_in_records :: "'r FixedRecord \<Rightarrow> 'r list \<Rightarrow> i64 \<Rightarrow> nat" where
  "fixed_upper_bound_in_records R records target_ts =
     bsearch (\<lambda>mid. ts_of R (records ! mid) \<le> target_ts) 0 (length records)"

definition fixed_lower_bound_via_sparse ::
  "'r FixedRecord \<Rightarrow> u8 list \<Rightarrow> CachedChunkLayout \<Rightarrow> i64 \<Rightarrow> u64 res" where
  "fixed_lower_bound_via_sparse R file layout target_ts =
     (if l_sparse_index layout = [] then fixed_lower_bound file (l_header layout) target_ts
      else
        and_then (lookup_window (l_header layout) (l_sparse_index layout) target_ts) (\<lambda>(start_idx, end_idx).
        and_then (fixed_read_record_span R file (l_header layout) start_idx (end_idx - start_idx)) (\<lambda>records.
        Inr (start_idx + word_of_nat (fixed_lower_bound_in_records R records target_ts)))))"

definition fixed_upper_bound_via_sparse ::
  "'r FixedRecord \<Rightarrow> u8 list \<Rightarrow> CachedChunkLayout \<Rightarrow> i64 \<Rightarrow> u64 res" where
  "fixed_upper_bound_via_sparse R file layout target_ts =
     (if l_sparse_index layout = [] then fixed_upper_bound file (l_header layout) target_ts
      else
        and_then (lookup_window (l_header layout) (l_sparse_index layout) target_ts) (\<lambda>(start_idx, end_idx).
        and_then (fixed_read_record_span R file (l_header layout) start_idx (end_idx - start_idx)) (\<lambda>records.
        Inr (start_idx + word_of_nat (fixed_upper_bound_in_records R records target_ts)))))"

text \<open>The rows are appended to \<open>out\<close>.\<close>

definition fixed_append_range_in_file ::
  "'r FixedRecord \<Rightarrow> u8 list \<Rightarrow> CachedChunkLayout \<Rightarrow> i64 \<Rightarrow> i64 \<Rightarrow> 'r list \<Rightarrow> 'r list res" where
  "fixed_append_range_in_file R file layout start_ts end_ts out =
     (let header = l_header layout in
      if start_ts > end_ts \<or> end_ts < h_start_ts header \<or> start_ts > h_end_ts header \<or> h_count header = 0
      then Inr out
      else
        and_then (fixed_lower_bound_via_sparse R file layout start_ts) (\<lambda>start_idx.
        if start_idx \<ge> h_count header then Inr out
        else
          and_then (fixed_upper_bound_via_sparse R file layout end_ts) (\<lambda>end_exclusive.
          if end_exclusive \<le> start_idx then Inr out
          else
            and_then (fixed_read_record_span R file header start_idx (end_exclusive - start_idx)) (\<lambda>rows.
            Inr (out @ rows)))))"

definition fixed_append_range_in_chunk ::
  "'r FixedRecord \<Rightarrow> (path \<rightharpoonup> u8 list) \<Rightarrow> ChunkRuntime \<Rightarrow> path \<Rightarrow> u64 \<Rightarrow> ChunkMeta \<Rightarrow> i64 \<Rightarrow> i64 \<Rightarrow> 'r list \<Rightarrow>
   ChunkRuntime \<times> 'r list res" where
  "fixed_append_range_in_chunk R fs rt dir series_id chunk start_ts end_ts out =
     with_chunk fs rt dir series_id chunk (fixed_validate_header R) (\<lambda>layout file.
       fixed_append_range_in_file R (cf_file file) layout start_ts end_ts out)"

definition fixed_read_tail_in_chunk ::
  "'r FixedRecord \<Rightarrow> (path \<rightharpoonup> u8 list) \<Rightarrow> ChunkRuntime \<Rightarrow> path \<Rightarrow> u64 \<Rightarrow> ChunkMeta \<Rightarrow> nat \<Rightarrow>
   ChunkRuntime \<times> 'r list res" where
  "fixed_read_tail_in_chunk R fs rt dir series_id chunk n =
     (if n = 0 then (rt, Inr [])
      else with_chunk fs rt dir series_id chunk (fixed_validate_header R) (\<lambda>layout file.
        let header = l_header layout;
            start = word_of_nat (unat (h_count header) - n) :: u64 in
        fixed_read_record_span R (cf_file file) header start (h_count header - start)))"

section \<open>The reads obey the reader interface\<close>

context fixed_record
begin

lemma fixed_span:
  assumes "chunk_holds R wf h rows file" and "a \<le> b" and "b \<le> length rows"
  shows "fixed_read_record_span R file h (word_of_nat a) (word_of_nat (b - a)) = Inr (slice_of a b rows)"
proof (cases "a = b")
  case True
  then show ?thesis by (simp add: fixed_read_record_span_def)
next
  case False
  have len: "length rows < 2 ^ 63" using chunk_rows_less [OF assms(1)] .
  have u: "unat (word_of_nat a :: u64) = a" "unat (word_of_nat (b - a) :: u64) = b - a"
    using assms len by (simp, intro unat_of_nat_u64, simp)
  have nz: "(word_of_nat (b - a) :: u64) \<noteq> 0" using False assms(2) u(2) by (metis diff_is_0_eq le_antisym unsigned_0)
  have add: "checked_add (word_of_nat a :: u64) (word_of_nat (b - a)) = Some (word_of_nat b)"
    unfolding checked_add_def u using assms len by simp
  have cnt: "\<not> h_count h < word_of_nat b"
    using assms len by (simp add: chunk_holds_def word_of_nat_less_u64)
  have sz: "unat (word_of_nat (BYTE_SIZE R) :: u64) = BYTE_SIZE R" using size_range by simp
  have bl: "BYTE_SIZE R * (b - a) < 2 ^ 63"
  proof -
    have "BYTE_SIZE R * (b - a) \<le> BYTE_SIZE R * length rows" using assms(3) by (intro mult_le_mono2) simp
    then show ?thesis using assms(1) unfolding chunk_holds_def by linarith
  qed
  have mul: "checked_mul (word_of_nat (b - a) :: u64) (word_of_nat (BYTE_SIZE R))
      = Some (word_of_nat (BYTE_SIZE R * (b - a)))"
    unfolding checked_mul_def u sz using bl by (simp add: mult.commute)
  have ubl: "unat (word_of_nat (BYTE_SIZE R * (b - a)) :: u64) = BYTE_SIZE R * (b - a)"
    using bl by (intro unat_of_nat_u64) simp
  have "\<forall>r \<in> set rows. wf r" using assms(1) by (simp add: chunk_holds_def)
  note dec = decode_encodes [OF wf_slice [OF this, of a b]]
  show ?thesis unfolding fixed_read_record_span_def
    by (simp only: nz if_False add mul ok_or_simps cnt ensure_True and_then.simps ubl
        read_rows [OF assms] dec not_False_eq_True)
qed

lemma fixed_ts:
  "chunk_holds R wf h rows file \<Longrightarrow> i < length rows \<Longrightarrow>
     fixed_read_timestamp_at file h (word_of_nat i) = Inr (ts_of R (rows ! i))"
  by (simp add: fixed_read_timestamp_at_def read_ts)

end

text \<open>One statement gives the interface for every record type of the trait.\<close>

sublocale fixed_record \<subseteq> fixed: chunk_reader R wf fixed_read_timestamp_at "fixed_read_record_span R"
  by unfold_locales (rule fixed_ts fixed_span; assumption)+

context fixed_record
begin

lemma lower_via_sparse:
  assumes "chunk_holds R wf (l_header layout) rows file" and "sorted_wrt (<) (map (ts_of R) rows)"
    and "index_of R rows (l_sparse_index layout)" and "rows \<noteq> []"
  shows "fixed_lower_bound_via_sparse R file layout t = Inr (word_of_nat (lower_index (map (ts_of R) rows) t))"
  using assms fixed.probe_lower [OF assms(1) strict_sorted_imp_sorted [OF assms(2)], of t]
    fixed.sparse_lower [OF assms(1,2,4), of _ t]
  by (auto simp: fixed_lower_bound_via_sparse_def fixed_lower_bound_def index_of_def fixed_lower_bound_in_records_def)

lemma upper_via_sparse:
  assumes "chunk_holds R wf (l_header layout) rows file" and "sorted (map (ts_of R) rows)"
    and "index_of R rows (l_sparse_index layout)" and "rows \<noteq> []"
  shows "fixed_upper_bound_via_sparse R file layout t = Inr (word_of_nat (upper_index (map (ts_of R) rows) t))"
  using assms fixed.probe_upper [OF assms(1,2), of t] fixed.sparse_upper [OF assms(1,2,4), of _ t]
  by (auto simp: fixed_upper_bound_via_sparse_def fixed_upper_bound_def index_of_def fixed_upper_bound_in_records_def)

lemma range_in_file:
  assumes h: "chunk_holds R wf (l_header layout) rows file" and s: "sorted_wrt (<) (map (ts_of R) rows)"
    and i: "index_of R rows (l_sparse_index layout)" and sp: "header_spans R (l_header layout) rows"
  shows "fixed_append_range_in_file R file layout start_ts end_ts out
    = Inr (out @ filter (\<lambda>r. start_ts \<le> ts_of R r \<and> ts_of R r \<le> end_ts) rows)"
proof -
  let ?T = "map (ts_of R) rows" and ?F = "filter (\<lambda>r. start_ts \<le> ts_of R r \<and> ts_of R r \<le> end_ts) rows"
  let ?L = "lower_index ?T start_ts" and ?U = "upper_index ?T end_ts"
  have sorted: "sorted ?T" using s by (rule strict_sorted_imp_sorted)
  have F: "?F = slice_of ?L ?U rows" by (rule filter_range_slice [OF sorted])
  have ne: "rows \<noteq> []" using sp by (simp add: header_spans_def)
  have c: "h_count (l_header layout) = word_of_nat (length rows)" using h by (simp add: chunk_holds_def)
  have len: "length rows < 2 ^ 63" by (rule chunk_rows_less [OF h])
  have LU: "?L \<le> length rows" "?U \<le> length rows" using index_le_length [of ?T] by simp_all
  note w = word_of_nat_less_u64
  show ?thesis
  proof (cases "start_ts > end_ts \<or> end_ts < h_start_ts (l_header layout) \<or> start_ts > h_end_ts (l_header layout)")
    case True
    then have "?F = []" using range_outside_span [OF sorted sp] by blast
    with True show ?thesis by (auto simp: fixed_append_range_in_file_def Let_def)
  next
    case False
    have nz: "h_count (l_header layout) \<noteq> 0"
      using c ne len w(3) [of 0 "length rows"] by auto
    have r: "fixed_read_record_span R file (l_header layout) (word_of_nat ?L) (word_of_nat ?U - word_of_nat ?L)
        = Inr (slice_of ?L ?U rows)" if "?L < ?U"
      using fixed.read_window [OF h, of ?L ?U] that LU by simp
    show ?thesis
      using False nz LU len r
      by (auto simp: fixed_append_range_in_file_def Let_def lower_via_sparse [OF h s i ne]
          upper_via_sparse [OF h sorted i ne] c w F)
  qed
qed

text \<open>
  With equal timestamps: if a run of rows at \<open>t\<close> reaches across an anchor, a read of \<open>[t, t]\<close>
  starts at the anchor and returns fewer rows than the chunk holds.
\<close>

lemma equal_timestamps_lost:
  assumes h: "chunk_holds R wf (l_header layout) rows file" and sorted: "sorted (map (ts_of R) rows)"
    and i: "l_sparse_index layout = anchors n (map (ts_of R) rows)" and n: "0 < n"
    and sp: "header_spans R (l_header layout) rows"
    and k: "0 < k" "k * n < length rows" "ts_of R (rows ! (k * n - 1)) = t" "ts_of R (rows ! (k * n)) = t"
  shows "\<exists>got. fixed_append_range_in_file R file layout t t [] = Inr got
    \<and> length got < length (filter (\<lambda>r. t \<le> ts_of R r \<and> ts_of R r \<le> t) rows)"
proof -
  let ?T = "map (ts_of R) rows" and ?h = "l_header layout"
  let ?L = "lower_index ?T t" and ?U = "upper_index ?T t"
  have ne: "rows \<noteq> []" using k(2) by auto
  have c: "h_count ?h = word_of_nat (length ?T)" using h by (simp add: chunk_holds_def)
  have len: "length rows < 2 ^ 63" by (rule chunk_rows_less [OF h])
  have idx: "l_sparse_index layout \<noteq> []"
    using i n ne by (metis anchor_index_less One_nat_def length_anchors length_greater_0_conv length_map mult_0)
  obtain a b where w: "lookup_window ?h (anchors n ?T) t = Inr (word_of_nat a, word_of_nat b)"
      "a < b" "b \<le> length ?T" "a = 0 \<or> ?T ! a \<le> t"
      "\<And>j. j * n < length ?T \<Longrightarrow> ?T ! (j * n) \<le> t \<Longrightarrow> j * n \<le> a"
  proof -
    have "?T \<noteq> []" and "length ?T < 2 ^ 64" using ne len by simp_all
    from lookup_window_anchors [OF sorted this(1) n c this(2), of t] that show thesis by blast
  qed
  have ka: "k * n \<le> a" using w(5) [of k] k by simp
  have pos: "0 < k * n" using k(1) n by simp
  have Ta: "?T ! a = t"
    using w(2-4) ka pos k(2,4) sorted_nth_mono [OF sorted ka] by auto
  have "\<not> ?T ! j < t" if "a \<le> j" "j < length rows" for j
    using sorted_nth_mono [OF sorted that(1)] that Ta by auto
  then have loc: "lower_index (slice_of a b ?T) t = 0"
    using w(2,3) by (intro lower_index_eqI sorted_slice [OF sorted]) (auto simp: is_boundary_def min_absorb1)
  have low: "fixed_lower_bound_via_sparse R file layout t = Inr (word_of_nat a)"
  proof -
    have r: "fixed_read_record_span R file ?h (word_of_nat a) (word_of_nat b - word_of_nat a) = Inr (slice_of a b rows)"
      using fixed.read_window [OF h, of a b] w by simp
    have "fixed_lower_bound_in_records R (slice_of a b rows) t = 0"
      unfolding fixed_lower_bound_in_records_def using sorted_slice [OF sorted, of a b] loc
      by (subst bsearch_lower) (simp_all only: map_slice)
    then show ?thesis using idx w(1) r by (simp add: fixed_lower_bound_via_sparse_def i)
  qed
  have up: "fixed_upper_bound_via_sparse R file layout t = Inr (word_of_nat ?U)"
    using upper_via_sparse [OF h sorted _ ne] i n by (auto simp: index_of_def)
  have aU: "a < ?U" using less_upper_index [OF sorted, of a t] w(2,3) Ta by simp
  have U: "?U \<le> length rows" using index_le_length(2) [of ?T t] by simp
  have La: "?L < a"
  proof -
    have "k * n - 1 < length ?T" "\<not> ?T ! (k * n - 1) < t" using k by simp_all
    then have "?L \<le> k * n - 1"
      using lower_index_boundary [OF sorted, of t] unfolding is_boundary_def by (metis le0 not_le)
    with ka pos show ?thesis by linarith
  qed
  have in_span: "\<not> (t < h_start_ts ?h \<or> h_end_ts ?h < t)"
    using sp sorted_hd_last [OF sorted, of "rows ! (k * n)"] k(2,4) by (auto simp: header_spans_def not_less)
  have "fixed_append_range_in_file R file layout t t [] = Inr (slice_of a ?U rows)"
    using in_span low up aU U len c fixed.read_window [OF h, of a ?U] ne w(2,3)
    by (auto simp: fixed_append_range_in_file_def Let_def word_of_nat_less_u64 word_of_nat_less_u64(3) [of _ 0, simplified])
  moreover have "filter (\<lambda>r. t \<le> ts_of R r \<and> ts_of R r \<le> t) rows = slice_of ?L ?U rows"
    by (rule filter_range_slice [OF sorted])
  ultimately show ?thesis using La aU U by (auto simp: min_absorb1)
qed

end

end
