(* ===== verification/KlineReader.thy ===== *)
theory KlineReader
  imports FixedReader
begin

text \<open>
  The kline reader (\<^verbatim>\<open>src/src/store_core/chunk/kline_reader.rs\<close>): point lookups, range reads with
  their three paths (whole chunk, adjacent sparse blocks read straight into the output, bounds
  by search), and planned reads. Whatever path is taken, a range read appends exactly the rows
  of the range, a point lookup finds exactly the row of the timestamp, and reading a planned
  span gives the same rows as the range read.
\<close>

datatype KlineReadPath = FullScan | TailRead | PointLookup | ShortRange

definition kline_validate_header :: "ChunkHeader \<Rightarrow> unit res" where
  "kline_validate_header header =
     and_then (ensure (h_schema_id header = KLINE_SCHEMA_ID) (InvalidData ''expected kline schema'')) (\<lambda>_.
     ensure (unat (h_record_size header) = kline_BYTE_SIZE) (InvalidData ''unexpected kline record size''))"

definition kline_read_record_at :: "u8 list \<Rightarrow> ChunkHeader \<Rightarrow> u64 \<Rightarrow> KlineRecord res" where
  "kline_read_record_at file header index =
     and_then (read_at file (row_offset header index) kline_BYTE_SIZE) (\<lambda>bytes. Inr (kline_from_le_bytes bytes))"

definition kline_read_timestamp_at :: "u8 list \<Rightarrow> ChunkHeader \<Rightarrow> u64 \<Rightarrow> i64 res" where
  "kline_read_timestamp_at file header index =
     and_then (read_at file (row_offset header index) 8) (\<lambda>bytes. Inr (i64_of_le_bytes bytes))"

text \<open>
  The buffers reinterpret the bytes read as records: on a little-endian machine each group of
  \<open>BYTE_SIZE\<close> bytes is a record in its encoding.
\<close>

definition kline_read_record_buffer :: "u8 list \<Rightarrow> u64 \<Rightarrow> nat \<Rightarrow> KlineRecord list res" where
  "kline_read_record_buffer file offset byte_len =
     and_then (read_at file offset byte_len) (\<lambda>bytes.
     Inr (map kline_from_le_bytes (chunks_exact kline_BYTE_SIZE bytes)))"

definition kline_append_record_buffer ::
  "u8 list \<Rightarrow> u64 \<Rightarrow> KlineRecord list \<Rightarrow> nat \<Rightarrow> KlineRecord list res" where
  "kline_append_record_buffer file offset out byte_len =
     and_then (read_at file offset byte_len) (\<lambda>bytes.
     Inr (out @ map kline_from_le_bytes (chunks_exact kline_BYTE_SIZE bytes)))"

definition kline_read_record_span :: "u8 list \<Rightarrow> ChunkHeader \<Rightarrow> u64 \<Rightarrow> u64 \<Rightarrow> KlineRecord list res" where
  "kline_read_record_span file header start_index count =
     (if count = 0 then Inr []
      else
        and_then (ok_or (checked_add start_index count)
          (InvalidData ''requested record span overflows u64'')) (\<lambda>end_index.
        and_then (ensure (\<not> end_index > h_count header)
          (InvalidData ''requested record span exceeds chunk row count'')) (\<lambda>_.
        and_then (ok_or (checked_mul count (word_of_nat kline_BYTE_SIZE))
          (InvalidData ''record span byte length overflow'')) (\<lambda>byte_len.
        kline_read_record_buffer file (row_offset header start_index) (unat byte_len)))))"

definition kline_append_record_span ::
  "u8 list \<Rightarrow> ChunkHeader \<Rightarrow> u64 \<Rightarrow> u64 \<Rightarrow> KlineRecord list \<Rightarrow> KlineRecord list res" where
  "kline_append_record_span file header start_index count out =
     (if count = 0 then Inr out
      else
        and_then (ok_or (checked_add start_index count)
          (InvalidData ''requested append span overflows u64'')) (\<lambda>end_index.
        and_then (ensure (\<not> end_index > h_count header)
          (InvalidData ''requested append span exceeds chunk row count'')) (\<lambda>_.
        and_then (ok_or (checked_mul count (word_of_nat kline_BYTE_SIZE))
          (InvalidData ''append span byte length overflow'')) (\<lambda>byte_len.
        kline_append_record_buffer file (row_offset header start_index) out (unat byte_len)))))"

definition kline_lower_bound :: "u8 list \<Rightarrow> ChunkHeader \<Rightarrow> i64 \<Rightarrow> u64 res" where
  "kline_lower_bound file header target_ts =
     and_then (bsearch_res (\<lambda>mid.
       and_then (kline_read_timestamp_at file header (word_of_nat mid)) (\<lambda>ts. Inr (ts < target_ts)))
       0 (unat (h_count header))) (\<lambda>left. Inr (word_of_nat left))"

definition kline_upper_bound :: "u8 list \<Rightarrow> ChunkHeader \<Rightarrow> i64 \<Rightarrow> u64 res" where
  "kline_upper_bound file header target_ts =
     and_then (bsearch_res (\<lambda>mid.
       and_then (kline_read_timestamp_at file header (word_of_nat mid)) (\<lambda>ts. Inr (ts \<le> target_ts)))
       0 (unat (h_count header))) (\<lambda>left. Inr (word_of_nat left))"

definition kline_lower_bound_in_records :: "KlineRecord list \<Rightarrow> i64 \<Rightarrow> nat" where
  "kline_lower_bound_in_records records target_ts =
     bsearch (\<lambda>mid. k_ts (records ! mid) < target_ts) 0 (length records)"

definition kline_upper_bound_in_records :: "KlineRecord list \<Rightarrow> i64 \<Rightarrow> nat" where
  "kline_upper_bound_in_records records target_ts =
     bsearch (\<lambda>mid. k_ts (records ! mid) \<le> target_ts) 0 (length records)"

definition kline_lower_bound_via_sparse :: "u8 list \<Rightarrow> CachedChunkLayout \<Rightarrow> i64 \<Rightarrow> u64 res" where
  "kline_lower_bound_via_sparse file layout target_ts =
     (if l_sparse_index layout = [] then kline_lower_bound file (l_header layout) target_ts
      else
        and_then (lookup_window (l_header layout) (l_sparse_index layout) target_ts) (\<lambda>(start_idx, end_idx).
        and_then (kline_read_record_span file (l_header layout) start_idx (end_idx - start_idx)) (\<lambda>records.
        Inr (start_idx + word_of_nat (kline_lower_bound_in_records records target_ts)))))"

definition kline_upper_bound_via_sparse :: "u8 list \<Rightarrow> CachedChunkLayout \<Rightarrow> i64 \<Rightarrow> u64 res" where
  "kline_upper_bound_via_sparse file layout target_ts =
     (if l_sparse_index layout = [] then kline_upper_bound file (l_header layout) target_ts
      else
        and_then (lookup_window (l_header layout) (l_sparse_index layout) target_ts) (\<lambda>(start_idx, end_idx).
        and_then (kline_read_record_span file (l_header layout) start_idx (end_idx - start_idx)) (\<lambda>records.
        Inr (start_idx + word_of_nat (kline_upper_bound_in_records records target_ts)))))"

definition kline_is_short_range :: "ChunkHeader \<Rightarrow> i64 \<Rightarrow> i64 \<Rightarrow> bool" where
  "kline_is_short_range header start_ts end_ts =
     (if h_timeframe_ms header \<le> i64_of_int 0 then False
      else
        let span = i64_saturating_sub end_ts start_ts;
            estimated = i64_saturating_add (i64_div span (h_timeframe_ms header)) (i64_of_int 1) in
        unat (bits estimated) \<le> SHORT_RANGE_MAX_RECORDS)"

definition kline_find_by_ts_in_file :: "u8 list \<Rightarrow> CachedChunkLayout \<Rightarrow> i64 \<Rightarrow> KlineRecord option res" where
  "kline_find_by_ts_in_file file layout ts =
     (let header = l_header layout in
      if ts < h_start_ts header \<or> ts > h_end_ts header then Inr None
      else if l_sparse_index layout = [] then
        and_then (kline_lower_bound file header ts) (\<lambda>idx.
        if idx \<ge> h_count header then Inr None
        else
          and_then (kline_read_record_at file header idx) (\<lambda>record.
          Inr (if k_ts record = ts then Some record else None)))
      else
        and_then (lookup_window header (l_sparse_index layout) ts) (\<lambda>(start_idx, end_idx).
        and_then (kline_read_record_span file header start_idx (end_idx - start_idx)) (\<lambda>records.
        let local = kline_lower_bound_in_records records ts in
        if local < length records \<and> k_ts (records ! local) = ts then Inr (Some (records ! local))
        else Inr None)))"

text \<open>
  The bounds by search, then the span between them: the last part of both the short and the
  long path, which differ in the searches and in the path they report.
\<close>

definition kline_append_between ::
  "u8 list \<Rightarrow> ChunkHeader \<Rightarrow> u64 res \<Rightarrow> u64 res \<Rightarrow> KlineReadPath \<Rightarrow> KlineRecord list \<Rightarrow>
   (KlineReadPath \<times> KlineRecord list) res" where
  "kline_append_between file header lower upper path out =
     and_then lower (\<lambda>start_idx.
     if start_idx \<ge> h_count header then Inr (path, out)
     else
       and_then upper (\<lambda>end_exclusive.
       if end_exclusive \<le> start_idx then Inr (path, out)
       else
         and_then (kline_append_record_span file header start_idx (end_exclusive - start_idx) out) (\<lambda>out.
         Inr (path, out))))"

definition kline_append_range_in_file ::
  "u8 list \<Rightarrow> CachedChunkLayout \<Rightarrow> i64 \<Rightarrow> i64 \<Rightarrow> KlineRecord list \<Rightarrow> (KlineReadPath \<times> KlineRecord list) res" where
  "kline_append_range_in_file file layout start_ts end_ts out =
     (let header = l_header layout;
          via_sparse = kline_append_between file header (kline_lower_bound_via_sparse file layout start_ts)
            (kline_upper_bound_via_sparse file layout end_ts) ShortRange out in
      if start_ts > end_ts \<or> end_ts < h_start_ts header \<or> start_ts > h_end_ts header \<or> h_count header = 0
      then Inr (ShortRange, out)
      else if start_ts \<le> h_start_ts header \<and> end_ts \<ge> h_end_ts header then
        and_then (kline_append_record_span file header 0 (h_count header) out) (\<lambda>out. Inr (FullScan, out))
      else if kline_is_short_range header start_ts end_ts then
        (if l_sparse_index layout \<noteq> [] then
           and_then (lookup_window header (l_sparse_index layout) start_ts) (\<lambda>first.
           and_then (lookup_window header (l_sparse_index layout) end_ts) (\<lambda>last.
           if fst last \<le> snd first then
             let initial_len = length out in
             and_then (if snd last \<ge> fst first then Inr (snd last - fst first)
               else Inl (InvalidData ''sparse windows are out of order'')) (\<lambda>count.
             and_then (kline_append_record_span file header (fst first) count out) (\<lambda>out.
             let rows = drop initial_len out;
                 start = kline_lower_bound_in_records rows start_ts;
                 end = kline_upper_bound_in_records rows end_ts in
             if start > end then Inl (Panic ''slice index starts after it ends'')
             else
               let out = copy_at initial_len (slice_of (initial_len + start) (initial_len + end) out) out in
               Inr (ShortRange, take (initial_len + end - start) out)))
           else via_sparse))
         else via_sparse)
      else
        kline_append_between file header (kline_lower_bound file header start_ts)
          (kline_upper_bound file header end_ts) FullScan out)"

definition kline_find_in_chunk ::
  "(path \<rightharpoonup> u8 list) \<Rightarrow> ChunkRuntime \<Rightarrow> path \<Rightarrow> u64 \<Rightarrow> ChunkMeta \<Rightarrow> i64 \<Rightarrow> ChunkRuntime \<times> KlineRecord option res" where
  "kline_find_in_chunk fs rt dir series_id chunk ts =
     with_chunk fs rt dir series_id chunk kline_validate_header (\<lambda>layout file.
       kline_find_by_ts_in_file (cf_file file) layout ts)"

definition kline_append_range_in_chunk ::
  "(path \<rightharpoonup> u8 list) \<Rightarrow> ChunkRuntime \<Rightarrow> path \<Rightarrow> u64 \<Rightarrow> ChunkMeta \<Rightarrow> i64 \<Rightarrow> i64 \<Rightarrow> KlineRecord list \<Rightarrow>
   ChunkRuntime \<times> (KlineReadPath \<times> KlineRecord list) res" where
  "kline_append_range_in_chunk fs rt dir series_id chunk start_ts end_ts out =
     with_chunk fs rt dir series_id chunk kline_validate_header (\<lambda>layout file.
       kline_append_range_in_file (cf_file file) layout start_ts end_ts out)"

section \<open>Planned reads\<close>

definition kline_plan_range ::
  "(path \<rightharpoonup> u8 list) \<Rightarrow> ChunkRuntime \<Rightarrow> path \<Rightarrow> u64 \<Rightarrow> ChunkMeta \<Rightarrow> i64 \<Rightarrow> i64 \<Rightarrow> ChunkRuntime \<times> ReadSpan res" where
  "kline_plan_range fs rt dir series_id chunk start end =
     with_chunk fs rt dir series_id chunk kline_validate_header (\<lambda>layout file.
       let header = l_header layout in
       and_then (if start \<le> h_start_ts header then Inr 0
         else kline_lower_bound_via_sparse (cf_file file) layout start) (\<lambda>first.
       and_then (if end \<ge> h_end_ts header then Inr (h_count header)
         else kline_upper_bound_via_sparse (cf_file file) layout end) (\<lambda>last.
       and_then (ok_or (Option.bind (checked_mul first (ucast (h_record_size header)))
           (\<lambda>offset. checked_add offset (ucast (h_header_size header))))
         (InvalidData ''record offset overflow'')) (\<lambda>offset.
       Inr \<lparr>rs_file = file, rs_offset = offset, rs_rows = unat last - unat first\<rparr>))))"

definition kline_read_planned :: "ReadSpan \<Rightarrow> nat \<Rightarrow> KlineRecord list res" where
  "kline_read_planned span out_len =
     and_then (ensure (out_len = rs_rows span) (InvalidData ''read destination size mismatch'')) (\<lambda>_.
     and_then (ok_or (checked_mul (word_of_nat out_len :: u64) (word_of_nat kline_BYTE_SIZE))
       (InvalidData ''read byte length overflow'')) (\<lambda>len.
     and_then (read_at (cf_file (rs_file span)) (rs_offset span) (unat len)) (\<lambda>bytes.
     Inr (map kline_from_le_bytes (chunks_exact kline_BYTE_SIZE bytes)))))"

text \<open>The tail of a chunk: \<open>take\<close> rows, or all of them.\<close>

definition kline_plan_tail ::
  "(path \<rightharpoonup> u8 list) \<Rightarrow> ChunkRuntime \<Rightarrow> path \<Rightarrow> u64 \<Rightarrow> ChunkMeta \<Rightarrow> nat \<Rightarrow> ChunkRuntime \<times> ReadSpan res" where
  "kline_plan_tail fs rt dir series_id chunk take_rows =
     (let (rt, layout) = get_layout fs rt chunk series_id dir in
      case and_then layout (\<lambda>layout. and_then (kline_validate_header (l_header layout)) (\<lambda>_.
           let header = l_header layout;
               rows = min take_rows (unat (h_count header));
               first = h_count header - word_of_nat rows in
           and_then (ok_or (Option.bind (checked_mul first (ucast (h_record_size header)))
               (\<lambda>offset. checked_add offset (ucast (h_header_size header))))
             (InvalidData ''tail offset overflow'')) (\<lambda>offset.
           Inr (offset, rows)))) of
        Inl e \<Rightarrow> (rt, Inl e)
      | Inr (offset, rows) \<Rightarrow>
          let (rt, opened) = open_file fs rt chunk series_id dir in
          (rt, and_then opened (\<lambda>file. Inr \<lparr>rs_file = file, rs_offset = offset, rs_rows = rows\<rparr>)))"

section \<open>The reads obey the reader interface\<close>

lemma kline_record_simps [simp]:
  "BYTE_SIZE kline_record = 48" "ts_of kline_record = k_ts" "SCHEMA_ID kline_record = 1"
  "decode_le kline_record = kline_decode_le" "encode_le kline_record = kline_to_le_bytes"
  by (simp_all add: kline_record_def kline_BYTE_SIZE_def KLINE_SCHEMA_ID_def)

text \<open>The kline span read is the generic one, up to its messages.\<close>

lemma chunks_exact_length: "c \<in> set (chunks_exact n xs) \<Longrightarrow> length c = n"
  by (induction n xs rule: chunks_exact.induct) (subst (asm) chunks_exact.simps, auto split: if_splits)

lemma kline_decode_chunks:
  "collect_res kline_decode_le (chunks_exact 48 bytes) = Inr (map kline_from_le_bytes (chunks_exact 48 bytes))"
  by (rule collect_res_map_Inr) (auto simp: kline_decode_le_def kline_BYTE_SIZE_def dest: chunks_exact_length)

lemma kline_span_eq_fixed:
  "fixed_read_record_span kline_record file h a c = Inr rows \<longleftrightarrow> kline_read_record_span file h a c = Inr rows"
  by (auto simp: fixed_read_record_span_def kline_read_record_span_def kline_read_record_buffer_def
      kline_BYTE_SIZE_def kline_decode_chunks res_simps)

lemma kline_append_span_eq:
  "kline_append_record_span file h a c out = Inr r \<longleftrightarrow> (\<exists>rows. kline_read_record_span file h a c = Inr rows \<and> r = out @ rows)"
  by (auto simp: kline_append_record_span_def kline_read_record_span_def kline_append_record_buffer_def
      kline_read_record_buffer_def res_simps)

lemma kline_reader: "chunk_reader kline_record (\<lambda>_. True) kline_read_timestamp_at kline_read_record_span"
proof unfold_locales
  fix h rows bs and a b i :: nat
  assume h: "chunk_holds kline_record (\<lambda>_. True) h rows bs"
  show "i < length rows \<Longrightarrow> kline_read_timestamp_at bs h (word_of_nat i) = Inr (ts_of kline_record (rows ! i))"
    using kline.fixed_ts [OF h, of i] by (simp add: kline_read_timestamp_at_def fixed_read_timestamp_at_def)
  show "a \<le> b \<Longrightarrow> b \<le> length rows \<Longrightarrow>
      kline_read_record_span bs h (word_of_nat a) (word_of_nat (b - a)) = Inr (slice_of a b rows)"
    using kline.fixed_span [OF h, of a b] by (simp only: kline_span_eq_fixed)
qed

interpretation klr: chunk_reader kline_record "\<lambda>_. True" kline_read_timestamp_at kline_read_record_span
  by (rule kline_reader)

text \<open>What the reader relies on of a chunk, collected.\<close>

definition kline_chunk :: "u8 list \<Rightarrow> CachedChunkLayout \<Rightarrow> KlineRecord list \<Rightarrow> bool" where
  "kline_chunk file layout rows \<longleftrightarrow>
     chunk_holds kline_record (\<lambda>_. True) (l_header layout) rows file
     \<and> sorted_wrt (<) (map k_ts rows) \<and> index_of kline_record rows (l_sparse_index layout)
     \<and> header_spans kline_record (l_header layout) rows"

lemma kline_chunkD:
  assumes "kline_chunk file layout rows"
  shows "chunk_holds kline_record (\<lambda>_. True) (l_header layout) rows file" "sorted_wrt (<) (map k_ts rows)"
    "sorted (map k_ts rows)" "header_spans kline_record (l_header layout) rows" "rows \<noteq> []"
    "h_count (l_header layout) = word_of_nat (length rows)" "length rows < 2 ^ 63"
    "l_sparse_index layout = [] \<or> (\<exists>n > 0. l_sparse_index layout = anchors n (map k_ts rows))"
  using assms strict_sorted_imp_sorted kline.chunk_rows_less [of "l_header layout" rows "file"]
  by (auto simp: kline_chunk_def header_spans_def chunk_holds_def index_of_def)

lemma kline_bounds:
  assumes "kline_chunk file layout rows"
  shows "kline_lower_bound file (l_header layout) t = Inr (word_of_nat (lower_index (map k_ts rows) t))"
    and "kline_upper_bound file (l_header layout) t = Inr (word_of_nat (upper_index (map k_ts rows) t))"
    and "kline_lower_bound_via_sparse file layout t = Inr (word_of_nat (lower_index (map k_ts rows) t))"
    and "kline_upper_bound_via_sparse file layout t = Inr (word_of_nat (upper_index (map k_ts rows) t))"
proof -
  note c = kline_chunkD [OF assms]
  show l: "kline_lower_bound file (l_header layout) t = Inr (word_of_nat (lower_index (map k_ts rows) t))"
    using klr.probe_lower [OF c(1), of t] c(3) by (simp add: kline_lower_bound_def)
  show u: "kline_upper_bound file (l_header layout) t = Inr (word_of_nat (upper_index (map k_ts rows) t))"
    using klr.probe_upper [OF c(1), of t] c(3) by (simp add: kline_upper_bound_def)
  show "kline_lower_bound_via_sparse file layout t = Inr (word_of_nat (lower_index (map k_ts rows) t))"
    using c(8) l klr.sparse_lower [OF c(1) _ c(5), of _ t] c(2)
    by (auto simp: kline_lower_bound_via_sparse_def kline_lower_bound_in_records_def)
  show "kline_upper_bound_via_sparse file layout t = Inr (word_of_nat (upper_index (map k_ts rows) t))"
    using c(8) u klr.sparse_upper [OF c(1) _ c(5), of _ t] c(3)
    by (auto simp: kline_upper_bound_via_sparse_def kline_upper_bound_in_records_def)
qed

section \<open>Point lookups\<close>

lemma kline_record_at:
  assumes "kline_chunk file layout rows" and "i < length rows"
  shows "kline_read_record_at file (l_header layout) (word_of_nat i) = Inr (rows ! i)"
proof -
  have "kline_decode_le (kline_to_le_bytes (rows ! i)) = Inr (rows ! i)"
    using kline.decode_encode [of "rows ! i"] by simp
  then have d: "kline_from_le_bytes (kline_to_le_bytes (rows ! i)) = rows ! i"
    by (simp add: kline_decode_le_def split: if_splits)
  have "slice_of i (Suc i) rows = [rows ! i]" using slice_single [OF assms(2)] by simp
  then show ?thesis
    using kline.read_rows [OF kline_chunkD(1) [OF assms(1)], of i "Suc i"] assms(2) d
    by (simp add: kline_read_record_at_def kline_BYTE_SIZE_def)
qed

lemma kline_window:
  assumes "kline_chunk file layout rows" and "l_sparse_index layout \<noteq> []"
  obtains a b where "lookup_window (l_header layout) (l_sparse_index layout) t = Inr (word_of_nat a, word_of_nat b)"
    and "a < b" and "b \<le> length rows" and "a \<le> lower_index (map k_ts rows) t"
    and "lower_index (map k_ts rows) t \<le> b" and "a \<le> upper_index (map k_ts rows) t"
    and "upper_index (map k_ts rows) t \<le> b"
proof -
  note c = kline_chunkD [OF assms(1)]
  obtain n where n: "n > 0" "l_sparse_index layout = anchors n (map k_ts rows)" using c(8) assms(2) by blast
  have "map k_ts rows \<noteq> []" "h_count (l_header layout) = word_of_nat (length (map k_ts rows))"
    "length (map k_ts rows) < 2 ^ 64" using c by simp_all
  from lookup_window_strict [OF c(2) this(1) n(1) this(2,3), of t] that show thesis
    unfolding n(2) length_map by blast
qed

lemma kline_find_exact:
  assumes "kline_chunk file layout rows"
  shows "kline_find_by_ts_in_file file layout ts = Inr (find (\<lambda>r. k_ts r = ts) rows)"
proof -
  note c = kline_chunkD [OF assms]
  let ?h = "l_header layout" and ?T = "map k_ts rows"
  let ?l = "lower_index ?T ts"
  have F: "find (\<lambda>r. k_ts r = ts) rows = (if ?l < length rows \<and> k_ts (rows ! ?l) = ts then Some (rows ! ?l) else None)"
    using find_at_lower [OF c(3), of ts] by (simp add: Let_def)
  have l: "?l \<le> length rows" using index_le_length(1) [of ?T ts] by simp
  show ?thesis
  proof (cases "ts < h_start_ts ?h \<or> ts > h_end_ts ?h")
    case True
    have "k_ts r \<noteq> ts" if "r \<in> set rows" for r
      using sorted_hd_last [OF c(3) that] c(4) True by (auto simp: header_spans_def i64_ord)
    then have "find (\<lambda>r. k_ts r = ts) rows = None" by (auto simp: find_None_iff)
    with True show ?thesis by (auto simp: kline_find_by_ts_in_file_def)
  next
    case span: False
    show ?thesis
    proof (cases "l_sparse_index layout = []")
      case True
      show ?thesis
        using span True l c(6,7) kline_record_at [OF assms, of ?l]
        by (auto simp: kline_find_by_ts_in_file_def Let_def kline_bounds [OF assms] word_of_nat_less_u64 F)
    next
      case False
      obtain a b where w: "lookup_window ?h (l_sparse_index layout) ts = Inr (word_of_nat a, word_of_nat b)"
          "a < b" "b \<le> length rows" "a \<le> ?l" "?l \<le> b" "upper_index ?T ts \<le> b"
        using kline_window [OF assms False, of ts] by metis
      have r: "kline_read_record_span file ?h (word_of_nat a) (word_of_nat b - word_of_nat a) = Inr (slice_of a b rows)"
        using klr.read_window [OF c(1), of a b] w by simp
      have loc: "kline_lower_bound_in_records (slice_of a b rows) ts = ?l - a"
        unfolding kline_lower_bound_in_records_def using w by (intro window_lower c(3)) simp_all
      have "k_ts (rows ! ?l) \<noteq> ts" if "?l = b" "b < length rows"
        using upper_index_boundary [OF c(3), of ts] w(6) that by (auto simp: is_boundary_def)
      then have inside: "?l < length rows \<and> k_ts (rows ! ?l) = ts \<longleftrightarrow> ?l - a < b - a \<and> k_ts (rows ! ?l) = ts"
        using w(2-5) by (metis diff_less_mono le_neq_implies_less less_diff_iff less_le_trans nat_less_le)
      show ?thesis
        using span False w r loc
        by (auto simp: kline_find_by_ts_in_file_def Let_def min_absorb1 F inside)
    qed
  qed
qed

section \<open>Range reads\<close>

lemma kline_append_span:
  assumes "kline_chunk file layout rows" and "a \<le> b" and "b \<le> length rows"
  shows "kline_append_record_span file (l_header layout) (word_of_nat a) (word_of_nat b - word_of_nat a) out
    = Inr (out @ slice_of a b rows)"
  unfolding kline_append_span_eq using klr.read_window [OF kline_chunkD(1) [OF assms(1)] assms(2,3)] by simp

lemma kline_append_between_eq:
  assumes c: "kline_chunk file layout rows" and "l \<le> length rows" and "u \<le> length rows"
  shows "kline_append_between file (l_header layout) (Inr (word_of_nat l)) (Inr (word_of_nat u)) p out
    = Inr (p, out @ slice_of l u rows)"
  using assms kline_chunkD(6,7) [OF c] kline_append_span [OF c, of l u]
  by (auto simp: kline_append_between_def word_of_nat_less_u64)

lemma kline_range_exact:
  assumes "kline_chunk file layout rows"
  shows "\<exists>path. kline_append_range_in_file file layout start_ts end_ts out
    = Inr (path, out @ filter (\<lambda>r. start_ts \<le> k_ts r \<and> k_ts r \<le> end_ts) rows)"
proof -
  note c = kline_chunkD [OF assms]
  let ?h = "l_header layout" and ?T = "map k_ts rows"
  let ?L = "lower_index ?T start_ts" and ?U = "upper_index ?T end_ts"
  let ?F = "filter (\<lambda>r. start_ts \<le> k_ts r \<and> k_ts r \<le> end_ts) rows"
  have F: "?F = slice_of ?L ?U rows" by (rule filter_range_slice [OF c(3)])
  have LU: "?L \<le> length rows" "?U \<le> length rows" using index_le_length [of ?T] by simp_all
  have nz: "h_count ?h \<noteq> 0" using c(5,6,7) word_of_nat_less_u64(3) [of 0 "length rows"] by auto
  have between: "kline_append_between file ?h (kline_lower_bound_via_sparse file layout start_ts)
      (kline_upper_bound_via_sparse file layout end_ts) p out = Inr (p, out @ ?F)"
    "kline_append_between file ?h (kline_lower_bound file ?h start_ts)
      (kline_upper_bound file ?h end_ts) p out = Inr (p, out @ ?F)" for p
    using kline_append_between_eq [OF assms LU] by (simp_all add: kline_bounds [OF assms] F)
  consider (out) "start_ts > end_ts \<or> end_ts < h_start_ts ?h \<or> start_ts > h_end_ts ?h"
    | (all) "\<not> (start_ts > end_ts \<or> end_ts < h_start_ts ?h \<or> start_ts > h_end_ts ?h)"
        "start_ts \<le> h_start_ts ?h" "end_ts \<ge> h_end_ts ?h"
    | (part) "\<not> (start_ts > end_ts \<or> end_ts < h_start_ts ?h \<or> start_ts > h_end_ts ?h)"
        "\<not> (start_ts \<le> h_start_ts ?h \<and> end_ts \<ge> h_end_ts ?h)" by blast
  then show ?thesis
  proof cases
    case out
    then have "?F = []" using range_outside_span [of kline_record rows ?h end_ts start_ts] c(3,4) by simp
    with out show ?thesis by (auto simp: kline_append_range_in_file_def Let_def)
  next
    case all
    have "?F = rows" using range_whole_span [of kline_record rows ?h start_ts end_ts] c(3,4) all by simp
    moreover have "kline_append_record_span file ?h 0 (h_count ?h) out = Inr (out @ rows)"
      using kline_append_span [OF assms, of 0 "length rows" out] c(6) by simp
    ultimately show ?thesis using all nz by (simp add: kline_append_range_in_file_def Let_def)
  next
    case part
    have se: "start_ts \<le> end_ts" using part by (simp add: not_less)
    show ?thesis
    proof (cases "kline_is_short_range ?h start_ts end_ts \<and> l_sparse_index layout \<noteq> []")
      case False
      then show ?thesis using part nz between by (auto simp: kline_append_range_in_file_def Let_def)
    next
      case True
      obtain a b where w: "lookup_window ?h (l_sparse_index layout) start_ts = Inr (word_of_nat a, word_of_nat b)"
          "a \<le> ?L" "a < b" "b \<le> length rows"
        using kline_window [OF assms, of start_ts] True by metis
      obtain a' b' where w': "lookup_window ?h (l_sparse_index layout) end_ts = Inr (word_of_nat a', word_of_nat b')"
          "?U \<le> b'" "a' < b'" "b' \<le> length rows"
        using kline_window [OF assms, of end_ts] True by metis
      have ab: "a \<le> b'" using w(2) w'(2) lower_le_upper [OF c(3) se] by linarith
      note t = trim_window [OF c(3) ab w'(4) se w(2) w'(2)]
      have span: "kline_append_record_span file ?h (word_of_nat a) (word_of_nat b' - word_of_nat a) out
          = Inr (out @ slice_of a b' rows)" by (rule kline_append_span [OF assms ab w'(4)])
      have "word_of_nat a \<le> (word_of_nat b' :: u64)"
        using word_of_nat_less_u64(2) [of b' a] ab w'(4) c(7) by simp
      moreover have "take (length out + (?U - a) - (?L - a)) (copy_at (length out)
          (slice_of (length out + (?L - a)) (length out + (?U - a)) (out @ slice_of a b' rows)) (out @ slice_of a b' rows))
          = out @ ?F"
        using copy_within_trim [of "?L - a" "?U - a" "slice_of a b' rows" out] t(3) w(2) w'(2,4) F
        by (simp add: min_absorb1 slice_slice)
      ultimately show ?thesis using part nz True w(1) w'(1) span t between(1)
        by (auto simp: kline_append_range_in_file_def Let_def kline_lower_bound_in_records_def
            kline_upper_bound_in_records_def)
    qed
  qed
qed

section \<open>Planned reads read the same rows\<close>

lemma kline_decode_rows:
  "map kline_from_le_bytes (chunks_exact 48 (concat (map kline_to_le_bytes rs))) = rs"
  using kline.decode_encodes [of rs] by (simp add: kline_decode_chunks)

lemma kline_read_planned_rows:
  assumes c: "kline_chunk file layout rows" and ab: "a \<le> b" "b \<le> length rows"
    and s: "cf_file (rs_file span) = file" "rs_offset span = row_offset (l_header layout) (word_of_nat a)"
      "rs_rows span = b - a"
  shows "kline_read_planned span (rs_rows span) = Inr (slice_of a b rows)"
proof -
  note h = kline_chunkD(1) [OF c]
  have "48 * (b - a) \<le> 48 * length rows" using ab by simp
  then have bl: "48 * (b - a) < 2 ^ 63" using h by (simp add: chunk_holds_def)
  have u: "unat (word_of_nat (b - a) :: u64) = b - a" using ab kline_chunkD(7) [OF c] by (intro unat_of_nat_u64) simp
  have m: "checked_mul (word_of_nat (b - a) :: u64) (word_of_nat kline_BYTE_SIZE) = Some (word_of_nat (48 * (b - a)))"
    unfolding checked_mul_def u kline_BYTE_SIZE_def using bl by (simp add: mult.commute)
  have ul: "unat (word_of_nat (48 * (b - a)) :: u64) = 48 * (b - a)" using bl by (intro unat_of_nat_u64) simp
  show ?thesis using kline.read_rows [OF h ab] unfolding kline_read_planned_def s m ul ok_or_simps and_then.simps
    by (simp add: kline_BYTE_SIZE_def kline_decode_rows ul)
qed

lemma kline_plan_range_exact:
  assumes co: "coherent fs where_is rt"
    and p: "where_is (key_from_meta chunk sid) = path_join dir (cm_relative_path chunk)"
    and f: "fs (path_join dir (cm_relative_path chunk)) = Some bytes" "load_layout bytes = Inr layout"
      "kline_validate_header (l_header layout) = Inr ()"
    and c: "kline_chunk bytes layout rows"
    and pl: "kline_plan_range fs rt dir sid chunk start_ts end_ts = (rt', r)"
  shows "coherent fs where_is rt'"
    and "\<exists>span. r = Inr span \<and> cf_file (rs_file span) = bytes \<and> rs_rows span \<le> length rows
      \<and> kline_read_planned span (rs_rows span) = Inr (filter (\<lambda>r. start_ts \<le> k_ts r \<and> k_ts r \<le> end_ts) rows)"
proof -
  note k = kline_chunkD [OF c]
  let ?h = "l_header layout" and ?T = "map k_ts rows"
  define l where "l = (if start_ts \<le> h_start_ts ?h then 0 else lower_index ?T start_ts)"
  define u where "u = (if end_ts \<ge> h_end_ts ?h then length rows else upper_index ?T end_ts)"
  have lu: "l \<le> length rows" "u \<le> length rows"
    using index_le_length [of ?T] by (simp_all add: l_def u_def)
  have bounds: "lower_index ?T start_ts = l" "upper_index ?T end_ts = u"
    using span_bounds [of kline_record rows ?h] k(3,4) by (simp_all add: l_def u_def)
  note w = with_chunk_coherent [OF co p pl [unfolded kline_plan_range_def]]
  show "coherent fs where_is rt'" by (rule w(1))
  have first: "(if start_ts \<le> h_start_ts ?h then Inr 0 else kline_lower_bound_via_sparse bytes layout start_ts)
      = Inr (word_of_nat l)"
    using kline_bounds(3) [OF c, of start_ts] by (simp add: l_def)
  have last: "(if end_ts \<ge> h_end_ts ?h then Inr (h_count ?h) else kline_upper_bound_via_sparse bytes layout end_ts)
      = Inr (word_of_nat u)"
    using kline_bounds(4) [OF c, of end_ts] k(6) by (simp add: u_def)
  have cf: "cf_file (chunk_file_new bytes) = bytes" by (simp add: chunk_file_new_def)
  have un: "unat (word_of_nat l :: u64) = l" "unat (word_of_nat u :: u64) = u" using lu k(7) by simp_all
  have r: "r = Inr \<lparr>rs_file = chunk_file_new bytes, rs_offset = row_offset ?h (word_of_nat l), rs_rows = u - l\<rparr>"
    using w(2) [OF f]
    by (simp only: Let_def cf first last and_then.simps kline.plan_offset [OF k(1) lu(1)] ok_or_simps un)
  let ?span = "\<lparr>rs_file = chunk_file_new bytes, rs_offset = row_offset ?h (word_of_nat l), rs_rows = u - l\<rparr>"
  have F: "filter (\<lambda>r. start_ts \<le> k_ts r \<and> k_ts r \<le> end_ts) rows = slice_of l u rows"
    using filter_range_slice [OF k(3), of start_ts end_ts] by (simp add: bounds)
  have "kline_read_planned ?span (rs_rows ?span) = Inr (slice_of l (max l u) rows)"
    using lu by (intro kline_read_planned_rows [OF c]) (auto simp: cf max_def)
  moreover have "slice_of l (max l u) rows = slice_of l u rows" by (simp add: max_def)
  ultimately show "\<exists>span. r = Inr span \<and> cf_file (rs_file span) = bytes \<and> rs_rows span \<le> length rows
      \<and> kline_read_planned span (rs_rows span) = Inr (filter (\<lambda>r. start_ts \<le> k_ts r \<and> k_ts r \<le> end_ts) rows)"
    using r F lu by (auto simp: cf)
qed

lemma kline_plan_tail_exact:
  assumes co: "coherent fs where_is rt"
    and p: "where_is (key_from_meta chunk sid) = path_join dir (cm_relative_path chunk)"
    and f: "fs (path_join dir (cm_relative_path chunk)) = Some bytes" "load_layout bytes = Inr layout"
      "kline_validate_header (l_header layout) = Inr ()"
    and c: "kline_chunk bytes layout rows"
    and pl: "kline_plan_tail fs rt dir sid chunk n = (rt', r)"
  shows "coherent fs where_is rt'"
    and "\<exists>span. r = Inr span \<and> cf_file (rs_file span) = bytes \<and> rs_rows span \<le> length rows
      \<and> kline_read_planned span (rs_rows span) = Inr (drop (length rows - n) rows)"
proof -
  note k = kline_chunkD [OF c]
  let ?h = "l_header layout"
  obtain rt1 q where g: "get_layout fs rt chunk sid dir = (rt1, q)" by fastforce
  note c1 = get_layout_coherent [OF co p g]
  obtain rt2 q2 where o: "open_file fs rt1 chunk sid dir = (rt2, q2)" by fastforce
  note c2 = open_file_coherent [OF c1(1) p o]
  have q: "q = Inr layout" "q2 = Inr (chunk_file_new bytes)" using c1(2) c2(2) f by (simp_all add: stored_layout_def)
  let ?m = "min n (length rows)"
  have u: "unat (h_count ?h) = length rows" using k(6,7) by simp
  have first: "h_count ?h - word_of_nat ?m = word_of_nat (length rows - ?m)"
    using k(6) word_of_nat_diff_u64 [of ?m "length rows"] by simp
  have le: "length rows - ?m \<le> length rows" by simp
  have r: "r = Inr \<lparr>rs_file = chunk_file_new bytes, rs_offset = row_offset ?h (word_of_nat (length rows - ?m)), rs_rows = ?m\<rparr>"
    and rt: "rt' = rt2"
    using pl f(3) by (simp_all only: kline_plan_tail_def g o q Let_def prod.case and_then.simps u first
        kline.plan_offset [OF k(1) le] ok_or_simps sum.case prod.inject)
  show "coherent fs where_is rt'" unfolding rt by (rule c2(1))
  have "slice_of (length rows - ?m) (length rows) rows = drop (length rows - n) rows"
    by (simp add: slice_of_def min_def)
  moreover have "kline_read_planned \<lparr>rs_file = chunk_file_new bytes,
      rs_offset = row_offset ?h (word_of_nat (length rows - ?m)), rs_rows = ?m\<rparr> ?m
    = Inr (slice_of (length rows - ?m) (length rows) rows)"
    using kline_read_planned_rows [OF c, of "length rows - ?m" "length rows" "\<lparr>rs_file = chunk_file_new bytes,
      rs_offset = row_offset ?h (word_of_nat (length rows - ?m)), rs_rows = ?m\<rparr>"]
    by (simp add: chunk_file_new_def)
  ultimately show "\<exists>span. r = Inr span \<and> cf_file (rs_file span) = bytes \<and> rs_rows span \<le> length rows
      \<and> kline_read_planned span (rs_rows span) = Inr (drop (length rows - n) rows)"
    using r by (auto simp: chunk_file_new_def)
qed

end
