(* ===== verification/ScalarReader.thy ===== *)
theory ScalarReader
  imports KlineReader
begin

text \<open>
  The scalar reader (\<^verbatim>\<open>src/src/store_core/chunk/scalar_reader.rs\<close>). It differs from the kline
  reader in its short path, which reads one window when both ends of the range fall into the
  same one, and in the reads of row ranges that the index queries use.
\<close>

datatype ScalarReadPath = ScalarPointLookup | ScalarShortRange | ScalarRawSpan

definition scalar_validate_header :: "ChunkHeader \<Rightarrow> unit res" where
  "scalar_validate_header header =
     and_then (ensure (h_schema_id header = SCALAR_SCHEMA_ID) (InvalidData ''expected scalar schema'')) (\<lambda>_.
     ensure (unat (h_record_size header) = scalar_BYTE_SIZE) (InvalidData ''unexpected scalar record size''))"

definition scalar_read_record_at :: "u8 list \<Rightarrow> ChunkHeader \<Rightarrow> u64 \<Rightarrow> ScalarRecord res" where
  "scalar_read_record_at file header index =
     and_then (read_at file (row_offset header index) scalar_BYTE_SIZE) (\<lambda>bytes. Inr (scalar_from_le_bytes bytes))"

definition scalar_read_timestamp_at :: "u8 list \<Rightarrow> ChunkHeader \<Rightarrow> u64 \<Rightarrow> i64 res" where
  "scalar_read_timestamp_at file header index =
     and_then (read_at file (row_offset header index) 8) (\<lambda>bytes. Inr (i64_of_le_bytes bytes))"

text \<open>
  The buffers reinterpret the bytes read as records: on a little-endian machine each group of
  \<open>BYTE_SIZE\<close> bytes is a record in its encoding.
\<close>

definition scalar_read_record_buffer :: "u8 list \<Rightarrow> u64 \<Rightarrow> nat \<Rightarrow> ScalarRecord list res" where
  "scalar_read_record_buffer file offset byte_len =
     and_then (read_at file offset byte_len) (\<lambda>bytes.
     Inr (map scalar_from_le_bytes (chunks_exact scalar_BYTE_SIZE bytes)))"

definition scalar_append_record_buffer ::
  "u8 list \<Rightarrow> u64 \<Rightarrow> ScalarRecord list \<Rightarrow> nat \<Rightarrow> ScalarRecord list res" where
  "scalar_append_record_buffer file offset out byte_len =
     and_then (read_at file offset byte_len) (\<lambda>bytes.
     Inr (out @ map scalar_from_le_bytes (chunks_exact scalar_BYTE_SIZE bytes)))"

definition scalar_read_record_span :: "u8 list \<Rightarrow> ChunkHeader \<Rightarrow> u64 \<Rightarrow> u64 \<Rightarrow> ScalarRecord list res" where
  "scalar_read_record_span file header start_index count =
     (if count = 0 then Inr []
      else
        and_then (ok_or (checked_add start_index count)
          (InvalidData ''scalar span end overflow'')) (\<lambda>end_index.
        and_then (ensure (\<not> end_index > h_count header)
          (InvalidData ''scalar span exceeds chunk row count'')) (\<lambda>_.
        and_then (ok_or (checked_mul count (word_of_nat scalar_BYTE_SIZE))
          (InvalidData ''scalar span byte length overflow'')) (\<lambda>byte_len.
        scalar_read_record_buffer file (row_offset header start_index) (unat byte_len)))))"

definition scalar_append_record_span ::
  "u8 list \<Rightarrow> ChunkHeader \<Rightarrow> u64 \<Rightarrow> u64 \<Rightarrow> ScalarRecord list \<Rightarrow> ScalarRecord list res" where
  "scalar_append_record_span file header start_index count out =
     (if count = 0 then Inr out
      else
        and_then (ok_or (checked_add start_index count)
          (InvalidData ''scalar append span overflow'')) (\<lambda>end_index.
        and_then (ensure (\<not> end_index > h_count header)
          (InvalidData ''scalar append span exceeds chunk row count'')) (\<lambda>_.
        and_then (ok_or (checked_mul count (word_of_nat scalar_BYTE_SIZE))
          (InvalidData ''scalar append span byte overflow'')) (\<lambda>byte_len.
        scalar_append_record_buffer file (row_offset header start_index) out (unat byte_len)))))"

definition scalar_lower_bound :: "u8 list \<Rightarrow> ChunkHeader \<Rightarrow> i64 \<Rightarrow> u64 res" where
  "scalar_lower_bound file header target_ts =
     and_then (bsearch_res (\<lambda>mid.
       and_then (scalar_read_timestamp_at file header (word_of_nat mid)) (\<lambda>ts. Inr (ts < target_ts)))
       0 (unat (h_count header))) (\<lambda>left. Inr (word_of_nat left))"

definition scalar_upper_bound :: "u8 list \<Rightarrow> ChunkHeader \<Rightarrow> i64 \<Rightarrow> u64 res" where
  "scalar_upper_bound file header target_ts =
     and_then (bsearch_res (\<lambda>mid.
       and_then (scalar_read_timestamp_at file header (word_of_nat mid)) (\<lambda>ts. Inr (ts \<le> target_ts)))
       0 (unat (h_count header))) (\<lambda>left. Inr (word_of_nat left))"

definition scalar_lower_bound_in_records :: "ScalarRecord list \<Rightarrow> i64 \<Rightarrow> nat" where
  "scalar_lower_bound_in_records records target_ts =
     bsearch (\<lambda>mid. s_ts (records ! mid) < target_ts) 0 (length records)"

definition scalar_upper_bound_in_records :: "ScalarRecord list \<Rightarrow> i64 \<Rightarrow> nat" where
  "scalar_upper_bound_in_records records target_ts =
     bsearch (\<lambda>mid. s_ts (records ! mid) \<le> target_ts) 0 (length records)"

definition scalar_lower_bound_via_sparse :: "u8 list \<Rightarrow> CachedChunkLayout \<Rightarrow> i64 \<Rightarrow> u64 res" where
  "scalar_lower_bound_via_sparse file layout target_ts =
     (if l_sparse_index layout = [] then scalar_lower_bound file (l_header layout) target_ts
      else
        and_then (lookup_window (l_header layout) (l_sparse_index layout) target_ts) (\<lambda>(start_idx, end_idx).
        and_then (scalar_read_record_span file (l_header layout) start_idx (end_idx - start_idx)) (\<lambda>records.
        Inr (start_idx + word_of_nat (scalar_lower_bound_in_records records target_ts)))))"

definition scalar_upper_bound_via_sparse :: "u8 list \<Rightarrow> CachedChunkLayout \<Rightarrow> i64 \<Rightarrow> u64 res" where
  "scalar_upper_bound_via_sparse file layout target_ts =
     (if l_sparse_index layout = [] then scalar_upper_bound file (l_header layout) target_ts
      else
        and_then (lookup_window (l_header layout) (l_sparse_index layout) target_ts) (\<lambda>(start_idx, end_idx).
        and_then (scalar_read_record_span file (l_header layout) start_idx (end_idx - start_idx)) (\<lambda>records.
        Inr (start_idx + word_of_nat (scalar_upper_bound_in_records records target_ts)))))"

definition scalar_is_short_range :: "ChunkHeader \<Rightarrow> i64 \<Rightarrow> i64 \<Rightarrow> bool" where
  "scalar_is_short_range header start_ts end_ts =
     (if h_timeframe_ms header \<le> i64_of_int 0 then False
      else
        let span = i64_saturating_sub end_ts start_ts;
            estimated = i64_saturating_add (i64_div span (h_timeframe_ms header)) (i64_of_int 1) in
        unat (bits estimated) \<le> SHORT_RANGE_MAX_RECORDS)"

definition scalar_find_by_ts_in_file :: "u8 list \<Rightarrow> CachedChunkLayout \<Rightarrow> i64 \<Rightarrow> ScalarRecord option res" where
  "scalar_find_by_ts_in_file file layout ts =
     (let header = l_header layout in
      if ts < h_start_ts header \<or> ts > h_end_ts header then Inr None
      else if l_sparse_index layout = [] then
        and_then (scalar_lower_bound file header ts) (\<lambda>idx.
        if idx \<ge> h_count header then Inr None
        else
          and_then (scalar_read_record_at file header idx) (\<lambda>record.
          Inr (if s_ts record = ts then Some record else None)))
      else
        and_then (lookup_window header (l_sparse_index layout) ts) (\<lambda>(start_idx, end_idx).
        and_then (scalar_read_record_span file header start_idx (end_idx - start_idx)) (\<lambda>records.
        let local = scalar_lower_bound_in_records records ts in
        if local < length records \<and> s_ts (records ! local) = ts then Inr (Some (records ! local))
        else Inr None)))"

text \<open>
  The bounds by search, then the span between them: the last part of both the short and the
  long path, which differ in the searches and in the path they report.
\<close>

definition scalar_append_between ::
  "u8 list \<Rightarrow> ChunkHeader \<Rightarrow> u64 res \<Rightarrow> u64 res \<Rightarrow> ScalarReadPath \<Rightarrow> ScalarRecord list \<Rightarrow>
   (ScalarReadPath \<times> ScalarRecord list) res" where
  "scalar_append_between file header lower upper path out =
     and_then lower (\<lambda>start_idx.
     if start_idx \<ge> h_count header then Inr (path, out)
     else
       and_then upper (\<lambda>end_exclusive.
       if end_exclusive \<le> start_idx then Inr (path, out)
       else
         and_then (scalar_append_record_span file header start_idx (end_exclusive - start_idx) out) (\<lambda>out.
         Inr (path, out))))"

definition scalar_append_range_in_file ::
  "u8 list \<Rightarrow> CachedChunkLayout \<Rightarrow> i64 \<Rightarrow> i64 \<Rightarrow> ScalarRecord list \<Rightarrow> (ScalarReadPath \<times> ScalarRecord list) res" where
  "scalar_append_range_in_file file layout start_ts end_ts out =
     (let header = l_header layout;
          via_sparse = scalar_append_between file header (scalar_lower_bound_via_sparse file layout start_ts)
            (scalar_upper_bound_via_sparse file layout end_ts) ScalarShortRange out in
      if start_ts > end_ts \<or> end_ts < h_start_ts header \<or> start_ts > h_end_ts header \<or> h_count header = 0
      then Inr (ScalarShortRange, out)
      else if start_ts \<le> h_start_ts header \<and> end_ts \<ge> h_end_ts header then
        and_then (scalar_append_record_span file header 0 (h_count header) out) (\<lambda>out. Inr (ScalarRawSpan, out))
      else if scalar_is_short_range header start_ts end_ts then
        (if l_sparse_index layout \<noteq> [] then
           and_then (lookup_window header (l_sparse_index layout) start_ts) (\<lambda>window.
           and_then (lookup_window header (l_sparse_index layout) end_ts) (\<lambda>window'.
           if window = window' then
             and_then (scalar_read_record_span file header (fst window) (snd window - fst window)) (\<lambda>rows.
             let start = scalar_lower_bound_in_records rows start_ts;
                 end = scalar_upper_bound_in_records rows end_ts in
             if start > end then Inl (Panic ''slice index starts after it ends'')
             else Inr (ScalarShortRange, out @ slice_of start end rows))
           else via_sparse))
         else via_sparse)
      else
        scalar_append_between file header (scalar_lower_bound file header start_ts)
          (scalar_upper_bound file header end_ts) ScalarRawSpan out)"

definition scalar_find_in_chunk ::
  "(path \<rightharpoonup> u8 list) \<Rightarrow> ChunkRuntime \<Rightarrow> path \<Rightarrow> u64 \<Rightarrow> ChunkMeta \<Rightarrow> i64 \<Rightarrow> ChunkRuntime \<times> ScalarRecord option res" where
  "scalar_find_in_chunk fs rt dir series_id chunk ts =
     with_chunk fs rt dir series_id chunk scalar_validate_header (\<lambda>layout file.
       scalar_find_by_ts_in_file (cf_file file) layout ts)"

definition scalar_append_range_in_chunk ::
  "(path \<rightharpoonup> u8 list) \<Rightarrow> ChunkRuntime \<Rightarrow> path \<Rightarrow> u64 \<Rightarrow> ChunkMeta \<Rightarrow> i64 \<Rightarrow> i64 \<Rightarrow> ScalarRecord list \<Rightarrow>
   ChunkRuntime \<times> (ScalarReadPath \<times> ScalarRecord list) res" where
  "scalar_append_range_in_chunk fs rt dir series_id chunk start_ts end_ts out =
     with_chunk fs rt dir series_id chunk scalar_validate_header (\<lambda>layout file.
       scalar_append_range_in_file (cf_file file) layout start_ts end_ts out)"

section \<open>Planned reads\<close>

definition scalar_plan_range ::
  "(path \<rightharpoonup> u8 list) \<Rightarrow> ChunkRuntime \<Rightarrow> path \<Rightarrow> u64 \<Rightarrow> ChunkMeta \<Rightarrow> i64 \<Rightarrow> i64 \<Rightarrow> ChunkRuntime \<times> ReadSpan res" where
  "scalar_plan_range fs rt dir series_id chunk start end =
     with_chunk fs rt dir series_id chunk scalar_validate_header (\<lambda>layout file.
       let header = l_header layout in
       and_then (if start \<le> h_start_ts header then Inr 0
         else scalar_lower_bound_via_sparse (cf_file file) layout start) (\<lambda>first.
       and_then (if end \<ge> h_end_ts header then Inr (h_count header)
         else scalar_upper_bound_via_sparse (cf_file file) layout end) (\<lambda>last.
       and_then (ok_or (Option.bind (checked_mul first (ucast (h_record_size header)))
           (\<lambda>offset. checked_add offset (ucast (h_header_size header))))
         (InvalidData ''record offset overflow'')) (\<lambda>offset.
       Inr \<lparr>rs_file = file, rs_offset = offset, rs_rows = unat last - unat first\<rparr>))))"

definition scalar_read_planned :: "ReadSpan \<Rightarrow> nat \<Rightarrow> ScalarRecord list res" where
  "scalar_read_planned span out_len =
     and_then (ensure (out_len = rs_rows span) (InvalidData ''read destination size mismatch'')) (\<lambda>_.
     and_then (ok_or (checked_mul (word_of_nat out_len :: u64) (word_of_nat scalar_BYTE_SIZE))
       (InvalidData ''read byte length overflow'')) (\<lambda>len.
     and_then (read_at (cf_file (rs_file span)) (rs_offset span) (unat len)) (\<lambda>bytes.
     Inr (map scalar_from_le_bytes (chunks_exact scalar_BYTE_SIZE bytes)))))"

section \<open>Row ranges\<close>

text \<open>A \<open>RangeInclusive<u32>\<close> is the pair of its ends.\<close>

fun scalar_append_row_ranges ::
  "u8 list \<Rightarrow> ChunkHeader \<Rightarrow> (u32 \<times> u32) list \<Rightarrow> ScalarRecord list \<Rightarrow> ScalarRecord list res" where
  "scalar_append_row_ranges file header [] out = Inr out"
| "scalar_append_row_ranges file header ((range_start, range_end) # ranges) out =
     (let start = ucast range_start :: u64; end = ucast range_end :: u64 in
      and_then (ok_or (if end \<ge> start then checked_add (end - start) 1 else None)
        (InvalidData ''scalar row span overflow'')) (\<lambda>count.
      and_then (scalar_append_record_span file header start count out) (\<lambda>out.
      scalar_append_row_ranges file header ranges out)))"

definition scalar_read_row_ranges_from_file ::
  "u8 list \<Rightarrow> ChunkHeader \<Rightarrow> (u32 \<times> u32) list \<Rightarrow> ScalarRecord list res" where
  "scalar_read_row_ranges_from_file file header ranges =
     (if ranges = [] then Inr [] else scalar_append_row_ranges file header ranges [])"

definition scalar_load_layout_from_file :: "u8 list \<Rightarrow> CachedChunkLayout res" where
  "scalar_load_layout_from_file file =
     and_then (header_read_from file) (\<lambda>header.
     and_then (scalar_validate_header header) (\<lambda>_.
     and_then (sparse_read_from_file file header) (\<lambda>sparse_index.
     Inr \<lparr>l_header = header, l_sparse_index = sparse_index\<rparr>)))"

definition scalar_read_row_ranges ::
  "(path \<rightharpoonup> u8 list) \<Rightarrow> path \<Rightarrow> (u32 \<times> u32) list \<Rightarrow> ScalarRecord list res" where
  "scalar_read_row_ranges fs path ranges =
     and_then (io_res (chunk_file_open fs path)) (\<lambda>file.
     and_then (scalar_load_layout_from_file (cf_file file)) (\<lambda>layout.
     and_then (scalar_validate_header (l_header layout)) (\<lambda>_.
     scalar_read_row_ranges_from_file (cf_file file) (l_header layout) ranges)))"

section \<open>The reads obey the reader interface\<close>

lemma scalar_record_simps [simp]:
  "BYTE_SIZE scalar_record = 16" "ts_of scalar_record = s_ts" "SCHEMA_ID scalar_record = 2"
  "decode_le scalar_record = scalar_decode_le" "encode_le scalar_record = scalar_to_le_bytes"
  by (simp_all add: scalar_record_def scalar_BYTE_SIZE_def SCALAR_SCHEMA_ID_def)

text \<open>The scalar span read is the generic one, up to its messages.\<close>

lemma scalar_decode_chunks:
  "collect_res scalar_decode_le (chunks_exact 16 bytes) = Inr (map scalar_from_le_bytes (chunks_exact 16 bytes))"
  by (rule collect_res_map_Inr) (auto simp: scalar_decode_le_def scalar_BYTE_SIZE_def dest: chunks_exact_length)

lemma scalar_span_eq_fixed:
  "fixed_read_record_span scalar_record file h a c = Inr rows \<longleftrightarrow> scalar_read_record_span file h a c = Inr rows"
  by (auto simp: fixed_read_record_span_def scalar_read_record_span_def scalar_read_record_buffer_def
      scalar_BYTE_SIZE_def scalar_decode_chunks res_simps)

lemma scalar_append_span_eq:
  "scalar_append_record_span file h a c out = Inr r \<longleftrightarrow> (\<exists>rows. scalar_read_record_span file h a c = Inr rows \<and> r = out @ rows)"
  by (auto simp: scalar_append_record_span_def scalar_read_record_span_def scalar_append_record_buffer_def
      scalar_read_record_buffer_def res_simps)

lemma scalar_reader: "chunk_reader scalar_record (\<lambda>_. True) scalar_read_timestamp_at scalar_read_record_span"
proof unfold_locales
  fix h rows bs and a b i :: nat
  assume h: "chunk_holds scalar_record (\<lambda>_. True) h rows bs"
  show "i < length rows \<Longrightarrow> scalar_read_timestamp_at bs h (word_of_nat i) = Inr (ts_of scalar_record (rows ! i))"
    using scalar.fixed_ts [OF h, of i] by (simp add: scalar_read_timestamp_at_def fixed_read_timestamp_at_def)
  show "a \<le> b \<Longrightarrow> b \<le> length rows \<Longrightarrow>
      scalar_read_record_span bs h (word_of_nat a) (word_of_nat (b - a)) = Inr (slice_of a b rows)"
    using scalar.fixed_span [OF h, of a b] by (simp only: scalar_span_eq_fixed)
qed

interpretation slr: chunk_reader scalar_record "\<lambda>_. True" scalar_read_timestamp_at scalar_read_record_span
  by (rule scalar_reader)

text \<open>What the reader relies on of a chunk, collected.\<close>

definition scalar_chunk :: "u8 list \<Rightarrow> CachedChunkLayout \<Rightarrow> ScalarRecord list \<Rightarrow> bool" where
  "scalar_chunk file layout rows \<longleftrightarrow>
     chunk_holds scalar_record (\<lambda>_. True) (l_header layout) rows file
     \<and> sorted_wrt (<) (map s_ts rows) \<and> index_of scalar_record rows (l_sparse_index layout)
     \<and> header_spans scalar_record (l_header layout) rows"

lemma scalar_chunkD:
  assumes "scalar_chunk file layout rows"
  shows "chunk_holds scalar_record (\<lambda>_. True) (l_header layout) rows file" "sorted_wrt (<) (map s_ts rows)"
    "sorted (map s_ts rows)" "header_spans scalar_record (l_header layout) rows" "rows \<noteq> []"
    "h_count (l_header layout) = word_of_nat (length rows)" "length rows < 2 ^ 63"
    "l_sparse_index layout = [] \<or> (\<exists>n > 0. l_sparse_index layout = anchors n (map s_ts rows))"
  using assms strict_sorted_imp_sorted scalar.chunk_rows_less [of "l_header layout" rows "file"]
  by (auto simp: scalar_chunk_def header_spans_def chunk_holds_def index_of_def)

lemma scalar_bounds:
  assumes "scalar_chunk file layout rows"
  shows "scalar_lower_bound file (l_header layout) t = Inr (word_of_nat (lower_index (map s_ts rows) t))"
    and "scalar_upper_bound file (l_header layout) t = Inr (word_of_nat (upper_index (map s_ts rows) t))"
    and "scalar_lower_bound_via_sparse file layout t = Inr (word_of_nat (lower_index (map s_ts rows) t))"
    and "scalar_upper_bound_via_sparse file layout t = Inr (word_of_nat (upper_index (map s_ts rows) t))"
proof -
  note c = scalar_chunkD [OF assms]
  show l: "scalar_lower_bound file (l_header layout) t = Inr (word_of_nat (lower_index (map s_ts rows) t))"
    using slr.probe_lower [OF c(1), of t] c(3) by (simp add: scalar_lower_bound_def)
  show u: "scalar_upper_bound file (l_header layout) t = Inr (word_of_nat (upper_index (map s_ts rows) t))"
    using slr.probe_upper [OF c(1), of t] c(3) by (simp add: scalar_upper_bound_def)
  show "scalar_lower_bound_via_sparse file layout t = Inr (word_of_nat (lower_index (map s_ts rows) t))"
    using c(8) l slr.sparse_lower [OF c(1) _ c(5), of _ t] c(2)
    by (auto simp: scalar_lower_bound_via_sparse_def scalar_lower_bound_in_records_def)
  show "scalar_upper_bound_via_sparse file layout t = Inr (word_of_nat (upper_index (map s_ts rows) t))"
    using c(8) u slr.sparse_upper [OF c(1) _ c(5), of _ t] c(3)
    by (auto simp: scalar_upper_bound_via_sparse_def scalar_upper_bound_in_records_def)
qed

section \<open>Point lookups\<close>

lemma scalar_record_at:
  assumes "scalar_chunk file layout rows" and "i < length rows"
  shows "scalar_read_record_at file (l_header layout) (word_of_nat i) = Inr (rows ! i)"
proof -
  have "scalar_decode_le (scalar_to_le_bytes (rows ! i)) = Inr (rows ! i)"
    using scalar.decode_encode [of "rows ! i"] by simp
  then have d: "scalar_from_le_bytes (scalar_to_le_bytes (rows ! i)) = rows ! i"
    by (simp add: scalar_decode_le_def split: if_splits)
  have "slice_of i (Suc i) rows = [rows ! i]" using slice_single [OF assms(2)] by simp
  then show ?thesis
    using scalar.read_rows [OF scalar_chunkD(1) [OF assms(1)], of i "Suc i"] assms(2) d
    by (simp add: scalar_read_record_at_def scalar_BYTE_SIZE_def)
qed

lemma scalar_window:
  assumes "scalar_chunk file layout rows" and "l_sparse_index layout \<noteq> []"
  obtains a b where "lookup_window (l_header layout) (l_sparse_index layout) t = Inr (word_of_nat a, word_of_nat b)"
    and "a < b" and "b \<le> length rows" and "a \<le> lower_index (map s_ts rows) t"
    and "lower_index (map s_ts rows) t \<le> b" and "a \<le> upper_index (map s_ts rows) t"
    and "upper_index (map s_ts rows) t \<le> b"
proof -
  note c = scalar_chunkD [OF assms(1)]
  obtain n where n: "n > 0" "l_sparse_index layout = anchors n (map s_ts rows)" using c(8) assms(2) by blast
  have "map s_ts rows \<noteq> []" "h_count (l_header layout) = word_of_nat (length (map s_ts rows))"
    "length (map s_ts rows) < 2 ^ 64" using c by simp_all
  from lookup_window_strict [OF c(2) this(1) n(1) this(2,3), of t] that show thesis
    unfolding n(2) length_map by blast
qed

lemma scalar_find_exact:
  assumes "scalar_chunk file layout rows"
  shows "scalar_find_by_ts_in_file file layout ts = Inr (find (\<lambda>r. s_ts r = ts) rows)"
proof -
  note c = scalar_chunkD [OF assms]
  let ?h = "l_header layout" and ?T = "map s_ts rows"
  let ?l = "lower_index ?T ts"
  have F: "find (\<lambda>r. s_ts r = ts) rows = (if ?l < length rows \<and> s_ts (rows ! ?l) = ts then Some (rows ! ?l) else None)"
    using find_at_lower [OF c(3), of ts] by (simp add: Let_def)
  have l: "?l \<le> length rows" using index_le_length(1) [of ?T ts] by simp
  show ?thesis
  proof (cases "ts < h_start_ts ?h \<or> ts > h_end_ts ?h")
    case True
    have "s_ts r \<noteq> ts" if "r \<in> set rows" for r
      using sorted_hd_last [OF c(3) that] c(4) True by (auto simp: header_spans_def i64_ord)
    then have "find (\<lambda>r. s_ts r = ts) rows = None" by (auto simp: find_None_iff)
    with True show ?thesis by (auto simp: scalar_find_by_ts_in_file_def)
  next
    case span: False
    show ?thesis
    proof (cases "l_sparse_index layout = []")
      case True
      show ?thesis
        using span True l c(6,7) scalar_record_at [OF assms, of ?l]
        by (auto simp: scalar_find_by_ts_in_file_def Let_def scalar_bounds [OF assms] word_of_nat_less_u64 F)
    next
      case False
      obtain a b where w: "lookup_window ?h (l_sparse_index layout) ts = Inr (word_of_nat a, word_of_nat b)"
          "a < b" "b \<le> length rows" "a \<le> ?l" "?l \<le> b" "upper_index ?T ts \<le> b"
        using scalar_window [OF assms False, of ts] by metis
      have r: "scalar_read_record_span file ?h (word_of_nat a) (word_of_nat b - word_of_nat a) = Inr (slice_of a b rows)"
        using slr.read_window [OF c(1), of a b] w by simp
      have loc: "scalar_lower_bound_in_records (slice_of a b rows) ts = ?l - a"
        unfolding scalar_lower_bound_in_records_def using w by (intro window_lower c(3)) simp_all
      have "s_ts (rows ! ?l) \<noteq> ts" if "?l = b" "b < length rows"
        using upper_index_boundary [OF c(3), of ts] w(6) that by (auto simp: is_boundary_def)
      then have inside: "?l < length rows \<and> s_ts (rows ! ?l) = ts \<longleftrightarrow> ?l - a < b - a \<and> s_ts (rows ! ?l) = ts"
        using w(2-5) by (metis diff_less_mono le_neq_implies_less less_diff_iff less_le_trans nat_less_le)
      show ?thesis
        using span False w r loc
        by (auto simp: scalar_find_by_ts_in_file_def Let_def min_absorb1 F inside)
    qed
  qed
qed

section \<open>Range reads\<close>

lemma scalar_append_span:
  assumes "scalar_chunk file layout rows" and "a \<le> b" and "b \<le> length rows"
  shows "scalar_append_record_span file (l_header layout) (word_of_nat a) (word_of_nat b - word_of_nat a) out
    = Inr (out @ slice_of a b rows)"
  unfolding scalar_append_span_eq using slr.read_window [OF scalar_chunkD(1) [OF assms(1)] assms(2,3)] by simp

lemma scalar_append_between_eq:
  assumes c: "scalar_chunk file layout rows" and "l \<le> length rows" and "u \<le> length rows"
  shows "scalar_append_between file (l_header layout) (Inr (word_of_nat l)) (Inr (word_of_nat u)) p out
    = Inr (p, out @ slice_of l u rows)"
  using assms scalar_chunkD(6,7) [OF c] scalar_append_span [OF c, of l u]
  by (auto simp: scalar_append_between_def word_of_nat_less_u64)

lemma scalar_range_exact:
  assumes "scalar_chunk file layout rows"
  shows "\<exists>path. scalar_append_range_in_file file layout start_ts end_ts out
    = Inr (path, out @ filter (\<lambda>r. start_ts \<le> s_ts r \<and> s_ts r \<le> end_ts) rows)"
proof -
  note c = scalar_chunkD [OF assms]
  let ?h = "l_header layout" and ?T = "map s_ts rows"
  let ?L = "lower_index ?T start_ts" and ?U = "upper_index ?T end_ts"
  let ?F = "filter (\<lambda>r. start_ts \<le> s_ts r \<and> s_ts r \<le> end_ts) rows"
  have F: "?F = slice_of ?L ?U rows" by (rule filter_range_slice [OF c(3)])
  have LU: "?L \<le> length rows" "?U \<le> length rows" using index_le_length [of ?T] by simp_all
  have nz: "h_count ?h \<noteq> 0" using c(5,6,7) word_of_nat_less_u64(3) [of 0 "length rows"] by auto
  have between: "scalar_append_between file ?h (scalar_lower_bound_via_sparse file layout start_ts)
      (scalar_upper_bound_via_sparse file layout end_ts) p out = Inr (p, out @ ?F)"
    "scalar_append_between file ?h (scalar_lower_bound file ?h start_ts)
      (scalar_upper_bound file ?h end_ts) p out = Inr (p, out @ ?F)" for p
    using scalar_append_between_eq [OF assms LU] by (simp_all add: scalar_bounds [OF assms] F)
  consider (out) "start_ts > end_ts \<or> end_ts < h_start_ts ?h \<or> start_ts > h_end_ts ?h"
    | (all) "\<not> (start_ts > end_ts \<or> end_ts < h_start_ts ?h \<or> start_ts > h_end_ts ?h)"
        "start_ts \<le> h_start_ts ?h" "end_ts \<ge> h_end_ts ?h"
    | (part) "\<not> (start_ts > end_ts \<or> end_ts < h_start_ts ?h \<or> start_ts > h_end_ts ?h)"
        "\<not> (start_ts \<le> h_start_ts ?h \<and> end_ts \<ge> h_end_ts ?h)" by blast
  then show ?thesis
  proof cases
    case out
    then have "?F = []" using range_outside_span [of scalar_record rows ?h end_ts start_ts] c(3,4) by simp
    with out show ?thesis by (auto simp: scalar_append_range_in_file_def Let_def)
  next
    case all
    have "?F = rows" using range_whole_span [of scalar_record rows ?h start_ts end_ts] c(3,4) all by simp
    moreover have "scalar_append_record_span file ?h 0 (h_count ?h) out = Inr (out @ rows)"
      using scalar_append_span [OF assms, of 0 "length rows" out] c(6) by simp
    ultimately show ?thesis using all nz by (simp add: scalar_append_range_in_file_def Let_def)
  next
    case part
    have se: "start_ts \<le> end_ts" using part by (simp add: not_less)
    show ?thesis
    proof (cases "scalar_is_short_range ?h start_ts end_ts \<and> l_sparse_index layout \<noteq> []")
      case False
      then show ?thesis using part nz between by (auto simp: scalar_append_range_in_file_def Let_def)
    next
      case True
      obtain a b where w: "lookup_window ?h (l_sparse_index layout) start_ts = Inr (word_of_nat a, word_of_nat b)"
          "a \<le> ?L" "a < b" "b \<le> length rows"
        using scalar_window [OF assms, of start_ts] True by metis
      obtain a' b' where w': "lookup_window ?h (l_sparse_index layout) end_ts = Inr (word_of_nat a', word_of_nat b')"
          "?U \<le> b'" "a' < b'" "b' \<le> length rows"
        using scalar_window [OF assms, of end_ts] True by metis
      show ?thesis
      proof (cases "(a, b) = (a', b')")
        case False
        have "(word_of_nat a :: u64, word_of_nat b :: u64) \<noteq> (word_of_nat a', word_of_nat b')"
          using False word_of_nat_less_u64(3) w(3,4) w'(3,4) c(7) by auto
        then show ?thesis using part nz True w(1) w'(1) between(1)
          by (auto simp: scalar_append_range_in_file_def Let_def)
      next
        case same: True
        then have ab: "a \<le> b" and u: "?U \<le> b" using w(3) w'(2) by simp_all
        note t = trim_window [OF c(3) ab w(4) se w(2) u]
        have span: "scalar_read_record_span file ?h (word_of_nat a) (word_of_nat b - word_of_nat a)
            = Inr (slice_of a b rows)" by (rule slr.read_window [OF c(1) ab w(4)])
        have "slice_of (?L - a) (?U - a) (slice_of a b rows) = ?F"
          using t(3) w(2) u F by (simp add: slice_slice min_absorb1)
        then show ?thesis using part nz True w(1) w'(1) span t same
          by (auto simp: scalar_append_range_in_file_def Let_def scalar_lower_bound_in_records_def
              scalar_upper_bound_in_records_def)
      qed
    qed
  qed
qed

section \<open>Planned reads read the same rows\<close>

lemma scalar_decode_rows:
  "map scalar_from_le_bytes (chunks_exact 16 (concat (map scalar_to_le_bytes rs))) = rs"
  using scalar.decode_encodes [of rs] by (simp add: scalar_decode_chunks)

lemma scalar_read_planned_rows:
  assumes c: "scalar_chunk file layout rows" and ab: "a \<le> b" "b \<le> length rows"
    and s: "cf_file (rs_file span) = file" "rs_offset span = row_offset (l_header layout) (word_of_nat a)"
      "rs_rows span = b - a"
  shows "scalar_read_planned span (rs_rows span) = Inr (slice_of a b rows)"
proof -
  note h = scalar_chunkD(1) [OF c]
  have "16 * (b - a) \<le> 16 * length rows" using ab by simp
  then have bl: "16 * (b - a) < 2 ^ 63" using h by (simp add: chunk_holds_def)
  have u: "unat (word_of_nat (b - a) :: u64) = b - a" using ab scalar_chunkD(7) [OF c] by (intro unat_of_nat_u64) simp
  have m: "checked_mul (word_of_nat (b - a) :: u64) (word_of_nat scalar_BYTE_SIZE) = Some (word_of_nat (16 * (b - a)))"
    unfolding checked_mul_def u scalar_BYTE_SIZE_def using bl by (simp add: mult.commute)
  have ul: "unat (word_of_nat (16 * (b - a)) :: u64) = 16 * (b - a)" using bl by (intro unat_of_nat_u64) simp
  show ?thesis using scalar.read_rows [OF h ab] unfolding scalar_read_planned_def s m ul ok_or_simps and_then.simps
    by (simp add: scalar_BYTE_SIZE_def scalar_decode_rows ul)
qed

lemma scalar_plan_range_exact:
  assumes co: "coherent fs where_is rt"
    and p: "where_is (key_from_meta chunk sid) = path_join dir (cm_relative_path chunk)"
    and f: "fs (path_join dir (cm_relative_path chunk)) = Some bytes" "load_layout bytes = Inr layout"
      "scalar_validate_header (l_header layout) = Inr ()"
    and c: "scalar_chunk bytes layout rows"
    and pl: "scalar_plan_range fs rt dir sid chunk start_ts end_ts = (rt', r)"
  shows "coherent fs where_is rt'"
    and "\<exists>span. r = Inr span \<and> cf_file (rs_file span) = bytes \<and> rs_rows span \<le> length rows
      \<and> scalar_read_planned span (rs_rows span) = Inr (filter (\<lambda>r. start_ts \<le> s_ts r \<and> s_ts r \<le> end_ts) rows)"
proof -
  note k = scalar_chunkD [OF c]
  let ?h = "l_header layout" and ?T = "map s_ts rows"
  define l where "l = (if start_ts \<le> h_start_ts ?h then 0 else lower_index ?T start_ts)"
  define u where "u = (if end_ts \<ge> h_end_ts ?h then length rows else upper_index ?T end_ts)"
  have lu: "l \<le> length rows" "u \<le> length rows"
    using index_le_length [of ?T] by (simp_all add: l_def u_def)
  have bounds: "lower_index ?T start_ts = l" "upper_index ?T end_ts = u"
    using span_bounds [of scalar_record rows ?h] k(3,4) by (simp_all add: l_def u_def)
  note w = with_chunk_coherent [OF co p pl [unfolded scalar_plan_range_def]]
  show "coherent fs where_is rt'" by (rule w(1))
  have first: "(if start_ts \<le> h_start_ts ?h then Inr 0 else scalar_lower_bound_via_sparse bytes layout start_ts)
      = Inr (word_of_nat l)"
    using scalar_bounds(3) [OF c, of start_ts] by (simp add: l_def)
  have last: "(if end_ts \<ge> h_end_ts ?h then Inr (h_count ?h) else scalar_upper_bound_via_sparse bytes layout end_ts)
      = Inr (word_of_nat u)"
    using scalar_bounds(4) [OF c, of end_ts] k(6) by (simp add: u_def)
  have cf: "cf_file (chunk_file_new bytes) = bytes" by (simp add: chunk_file_new_def)
  have un: "unat (word_of_nat l :: u64) = l" "unat (word_of_nat u :: u64) = u" using lu k(7) by simp_all
  have r: "r = Inr \<lparr>rs_file = chunk_file_new bytes, rs_offset = row_offset ?h (word_of_nat l), rs_rows = u - l\<rparr>"
    using w(2) [OF f]
    by (simp only: Let_def cf first last and_then.simps scalar.plan_offset [OF k(1) lu(1)] ok_or_simps un)
  let ?span = "\<lparr>rs_file = chunk_file_new bytes, rs_offset = row_offset ?h (word_of_nat l), rs_rows = u - l\<rparr>"
  have F: "filter (\<lambda>r. start_ts \<le> s_ts r \<and> s_ts r \<le> end_ts) rows = slice_of l u rows"
    using filter_range_slice [OF k(3), of start_ts end_ts] by (simp add: bounds)
  have "scalar_read_planned ?span (rs_rows ?span) = Inr (slice_of l (max l u) rows)"
    using lu by (intro scalar_read_planned_rows [OF c]) (auto simp: cf max_def)
  moreover have "slice_of l (max l u) rows = slice_of l u rows" by (simp add: max_def)
  ultimately show "\<exists>span. r = Inr span \<and> cf_file (rs_file span) = bytes \<and> rs_rows span \<le> length rows
      \<and> scalar_read_planned span (rs_rows span) = Inr (filter (\<lambda>r. start_ts \<le> s_ts r \<and> s_ts r \<le> end_ts) rows)"
    using r F lu by (auto simp: cf)
qed

section \<open>Row ranges read the rows they name\<close>

lemma scalar_append_row_ranges_exact:
  assumes c: "scalar_chunk file layout rows"
  shows "(\<forall>(s, e) \<in> set ranges. s \<le> e \<and> unat e < length rows) \<Longrightarrow>
    scalar_append_row_ranges file (l_header layout) ranges out
      = Inr (out @ concat (map (\<lambda>(s, e). slice_of (unat s) (Suc (unat e)) rows) ranges))"
proof (induction ranges arbitrary: out)
  case Nil
  then show ?case by simp
next
  case (Cons r ranges)
  obtain s e where r: "r = (s, e)" by (cases r)
  have se: "unat s \<le> unat e" "unat e < length rows" using Cons.prems by (auto simp: r word_le_nat_alt)
  have ws: "(ucast s :: u64) = word_of_nat (unat s)" "(ucast e :: u64) = word_of_nat (unat e)"
    by (rule ucast_u32_nat)+
  have le: "(ucast s :: u64) \<le> ucast e" using se by (simp add: word_le_nat_alt)
  have cnt: "checked_add ((ucast e :: u64) - ucast s) 1 = Some (word_of_nat (Suc (unat e)) - word_of_nat (unat s))"
  proof -
    have "unat ((ucast e :: u64) - ucast s) = unat e - unat s"
      unfolding ws word_of_nat_diff_u64 [OF se(1)] using se scalar_chunkD(7) [OF c] by (intro unat_of_nat_u64) simp
    then have "checked_add ((ucast e :: u64) - ucast s) 1 = Some ((ucast e :: u64) - ucast s + 1)"
      using se scalar_chunkD(7) [OF c] by (simp add: checked_add_def)
    then show ?thesis by simp
  qed
  have "scalar_append_record_span file (l_header layout) (ucast s) (word_of_nat (Suc (unat e)) - word_of_nat (unat s)) out
      = Inr (out @ slice_of (unat s) (Suc (unat e)) rows)"
    unfolding ws by (rule scalar_append_span [OF c]) (use se in simp_all)
  moreover have "\<forall>(s, e) \<in> set ranges. s \<le> e \<and> unat e < length rows" using Cons.prems by simp
  ultimately show ?case using Cons.IH le cnt by (simp add: r Let_def)
qed

end
