(* ===== verification/Writers.thy ===== *)
theory Writers
  imports ScalarReader
begin

text \<open>
  The three chunk writers (\<^verbatim>\<open>kline_writer.rs\<close>, \<^verbatim>\<open>scalar_writer.rs\<close> and \<^verbatim>\<open>fixed_writer.rs\<close>
  under \<^verbatim>\<open>src/src/store_core/chunk\<close>): validation, the header, the file image
  \<open>[header][records][sparse index]\<close> and its publication. \<open>*_build\<close> is a writer up to the file
  image and the metadata it returns, \<open>*_write_chunk\<close> adds the atomic write. What a writer built
  is a chunk in the sense of the readers, so reading it back gives the rows written.
\<close>

record WriteChunkOptions =
  wo_chunk_id :: u64
  wo_generation :: u32
  wo_state :: ChunkState
  wo_relative_path :: string
  wo_sparse_index_every :: u32

record WriteFixedChunkOptions = WriteChunkOptions +
  wo_partition_unit :: PartitionUnit

definition kline_options_default :: WriteChunkOptions where
  "kline_options_default =
     \<lparr>wo_chunk_id = 0, wo_generation = 1, wo_state = Sealed, wo_relative_path = [],
      wo_sparse_index_every = DEFAULT_SPARSE_INDEX_EVERY\<rparr>"

definition scalar_options_default :: WriteChunkOptions where
  "scalar_options_default =
     \<lparr>wo_chunk_id = 0, wo_generation = 1, wo_state = Sealed, wo_relative_path = [],
      wo_sparse_index_every = DEFAULT_SPARSE_INDEX_EVERY\<rparr>"

definition fixed_options_default :: WriteFixedChunkOptions where
  "fixed_options_default =
     \<lparr>wo_chunk_id = 0, wo_generation = 1, wo_state = Sealed, wo_relative_path = [],
      wo_sparse_index_every = DEFAULT_SPARSE_INDEX_EVERY, wo_partition_unit = Month\<rparr>"

text \<open>The metadata of a written chunk, which the three writers fill in alike.\<close>

definition written_meta ::
  "('z) WriteChunkOptions_scheme \<Rightarrow> string \<Rightarrow> ChunkHeader \<Rightarrow> u32 \<Rightarrow> u8 list \<Rightarrow> ChunkMeta" where
  "written_meta options key header sparse_index_every bytes =
     \<lparr>cm_chunk_id = wo_chunk_id options, cm_month_key = key, cm_start_ts = h_start_ts header,
      cm_end_ts = h_end_ts header, cm_count = h_count header, cm_state = wo_state options,
      cm_layout_version = h_version header, cm_header_len = h_header_size header,
      cm_sparse_index_every = sparse_index_every, cm_sparse_index_offset = h_index_offset header,
      cm_sparse_index_len = ucast (h_index_len header), cm_chunk_checksum = checksum64 bytes,
      cm_generation = wo_generation options, cm_relative_path = wo_relative_path options,
      cm_sidecars = []\<rparr>"

definition publish ::
  "os_outcome \<Rightarrow> path \<Rightarrow> (u8 list \<times> ChunkMeta) res \<Rightarrow> fs_state \<Rightarrow> fs_state list \<times> ChunkMeta res" where
  "publish os chunk_path built s =
     (case built of
        Inl e \<Rightarrow> ([s], Inl e)
      | Inr (bytes, cm) \<Rightarrow>
          (case atomic_write_new os chunk_path (bytes, None) s of
             (trace, Inl e) \<Rightarrow> (trace, Inl e)
           | (trace, Inr _) \<Rightarrow> (trace, Inr cm)))"

section \<open>The kline writer\<close>

definition kline_build ::
  "calendar \<Rightarrow> SeriesMeta \<Rightarrow> KlineRecord list \<Rightarrow> WriteChunkOptions \<Rightarrow> (u8 list \<times> ChunkMeta) res" where
  "kline_build utc meta records options =
     and_then (kline_validate_strict_order records) (\<lambda>_.
     and_then (if records = [] then Inl (InvalidInput ''records must not be empty'') else Inr (hd records)) (\<lambda>first.
     and_then (month_key utc (k_ts first)) (\<lambda>key.
     and_then (month_key utc (k_ts (last records))) (\<lambda>last_key.
     and_then (ensure (last_key = key) (InvalidInput ''records span multiple UTC months'')) (\<lambda>_.
     and_then (ensure (\<not> is_blank (wo_relative_path options))
       (InvalidInput ''chunk relative_path must not be empty'')) (\<lambda>_.
     let sparse_index_every = max (wo_sparse_index_every options) 1 in
     and_then (sample_validated kline_record records sparse_index_every) (\<lambda>sparse_index.
     let index_bytes = encode_entries sparse_index in
     and_then (ok_or (checked_mul (word_of_nat (length records) :: u64) (word_of_nat kline_BYTE_SIZE))
       (InvalidInput ''kline chunk byte length overflow'')) (\<lambda>record_bytes_len.
     let header_size = BYTE_SIZE_V2;
         header =
           \<lparr>h_magic = CHUNK_MAGIC, h_version = CHUNK_VERSION_CURRENT, h_header_size = word_of_nat header_size,
            h_record_size = word_of_nat kline_BYTE_SIZE, h_schema_id = KLINE_SCHEMA_ID,
            h_series_id = sm_series_id meta, h_chunk_id = wo_chunk_id options,
            h_generation = ucast (wo_generation options), h_timeframe_ms = sm_timeframe_ms meta,
            h_start_ts = k_ts (records ! 0), h_end_ts = k_ts (records ! (length records - 1)),
            h_count = word_of_nat (length records), h_flags = CHUNK_FLAG_HAS_SPARSE_INDEX,
            h_index_offset = word_of_nat header_size + record_bytes_len,
            h_index_len = word_of_nat (length sparse_index),
            h_sparse_index_every = ucast sparse_index_every\<rparr> in
     and_then (header_to_le_bytes header) (\<lambda>header_bytes.
     let bytes = header_bytes @ concat (map kline_to_le_bytes records) @ index_bytes in
     Inr (bytes, written_meta options key header sparse_index_every bytes))))))))))"

definition kline_write_chunk ::
  "calendar \<Rightarrow> os_outcome \<Rightarrow> path \<Rightarrow> SeriesMeta \<Rightarrow> KlineRecord list \<Rightarrow> WriteChunkOptions \<Rightarrow> fs_state \<Rightarrow>
   fs_state list \<times> ChunkMeta res" where
  "kline_write_chunk utc os chunk_path meta records options s =
     publish os chunk_path (kline_build utc meta records options) s"

section \<open>The scalar writer\<close>

definition scalar_build ::
  "calendar \<Rightarrow> SeriesMeta \<Rightarrow> ScalarRecord list \<Rightarrow> WriteChunkOptions \<Rightarrow> (u8 list \<times> ChunkMeta) res" where
  "scalar_build utc meta records options =
     and_then (scalar_validate_strict_order records) (\<lambda>_.
     and_then (if records = [] then Inl (InvalidInput ''records must not be empty'') else Inr (hd records)) (\<lambda>first.
     and_then (month_key utc (s_ts first)) (\<lambda>key.
     and_then (month_key utc (s_ts (last records))) (\<lambda>last_key.
     and_then (ensure (last_key = key) (InvalidInput ''records span multiple UTC months'')) (\<lambda>_.
     let sparse_index_every = max (wo_sparse_index_every options) 1 in
     and_then (sample_validated scalar_record records sparse_index_every) (\<lambda>sparse_index.
     let index_bytes = encode_entries sparse_index in
     and_then (ok_or (checked_mul (word_of_nat (length records) :: u64) (word_of_nat scalar_BYTE_SIZE))
       (InvalidInput ''scalar chunk byte length overflow'')) (\<lambda>record_bytes_len.
     let header_size = BYTE_SIZE_V2;
         header =
           \<lparr>h_magic = CHUNK_MAGIC, h_version = CHUNK_VERSION_CURRENT, h_header_size = word_of_nat header_size,
            h_record_size = word_of_nat scalar_BYTE_SIZE, h_schema_id = SCALAR_SCHEMA_ID,
            h_series_id = sm_series_id meta, h_chunk_id = wo_chunk_id options,
            h_generation = ucast (wo_generation options), h_timeframe_ms = sm_timeframe_ms meta,
            h_start_ts = s_ts (records ! 0), h_end_ts = s_ts (records ! (length records - 1)),
            h_count = word_of_nat (length records), h_flags = CHUNK_FLAG_HAS_SPARSE_INDEX,
            h_index_offset = word_of_nat header_size + record_bytes_len,
            h_index_len = word_of_nat (length sparse_index),
            h_sparse_index_every = ucast sparse_index_every\<rparr> in
     and_then (header_to_le_bytes header) (\<lambda>header_bytes.
     let bytes = header_bytes @ concat (map scalar_to_le_bytes records) @ index_bytes in
     Inr (bytes, written_meta options key header sparse_index_every bytes)))))))))"

definition scalar_write_chunk ::
  "calendar \<Rightarrow> os_outcome \<Rightarrow> path \<Rightarrow> SeriesMeta \<Rightarrow> ScalarRecord list \<Rightarrow> WriteChunkOptions \<Rightarrow> fs_state \<Rightarrow>
   fs_state list \<times> ChunkMeta res" where
  "scalar_write_chunk utc os chunk_path meta records options s =
     publish os chunk_path (scalar_build utc meta records options) s"

section \<open>The generic writer\<close>

text \<open>Every record is checked against the partition of the first.\<close>

fun check_partitions :: "calendar \<Rightarrow> PartitionUnit \<Rightarrow> string \<Rightarrow> i64 list \<Rightarrow> unit res" where
  "check_partitions utc unit key [] = Inr ()"
| "check_partitions utc unit key (ts # tss) =
     and_then (partition_key utc ts unit) (\<lambda>record_partition.
     and_then (ensure (record_partition = key) (InvalidInput ''records span multiple partitions'')) (\<lambda>_.
     check_partitions utc unit key tss))"

definition fixed_build ::
  "'r FixedRecord \<Rightarrow> calendar \<Rightarrow> SeriesMeta \<Rightarrow> 'r list \<Rightarrow> WriteFixedChunkOptions \<Rightarrow> (u8 list \<times> ChunkMeta) res" where
  "fixed_build R utc meta records options =
     and_then (validate_strict_order R records) (\<lambda>_.
     and_then (ensure (sm_record_type meta = RECORD_TYPE R)
       (InvalidData ''series record type does not match writer'')) (\<lambda>_.
     and_then (ensure (sm_schema_id meta = SCHEMA_ID R)
       (InvalidData ''series schema_id does not match writer'')) (\<lambda>_.
     and_then (ensure (unat (sm_record_size meta) = BYTE_SIZE R)
       (InvalidData ''series record_size does not match writer'')) (\<lambda>_.
     and_then (ensure (\<not> is_blank (wo_relative_path options))
       (InvalidInput ''chunk relative_path must not be empty'')) (\<lambda>_.
     and_then (if records = [] then Inl (InvalidInput ''records must not be empty'') else Inr (hd records)) (\<lambda>first.
     and_then (partition_key utc (ts_of R first) (wo_partition_unit options)) (\<lambda>key.
     and_then (check_partitions utc (wo_partition_unit options) key (map (ts_of R) (tl records))) (\<lambda>_.
     let sparse_index_every = max (wo_sparse_index_every options) 1 in
     and_then (sample_validated R records sparse_index_every) (\<lambda>sparse_index.
     let index_bytes = encode_entries sparse_index in
     and_then (ok_or (checked_mul (word_of_nat (length records) :: u64) (word_of_nat (BYTE_SIZE R)))
       (InvalidInput ''fixed chunk byte length overflow'')) (\<lambda>record_bytes_len.
     let header_size = BYTE_SIZE_V2;
         header =
           \<lparr>h_magic = CHUNK_MAGIC, h_version = CHUNK_VERSION_CURRENT, h_header_size = word_of_nat header_size,
            h_record_size = word_of_nat (BYTE_SIZE R), h_schema_id = SCHEMA_ID R,
            h_series_id = sm_series_id meta, h_chunk_id = wo_chunk_id options,
            h_generation = ucast (wo_generation options), h_timeframe_ms = sm_timeframe_ms meta,
            h_start_ts = ts_of R (records ! 0), h_end_ts = ts_of R (records ! (length records - 1)),
            h_count = word_of_nat (length records), h_flags = CHUNK_FLAG_HAS_SPARSE_INDEX,
            h_index_offset = word_of_nat header_size + record_bytes_len,
            h_index_len = word_of_nat (length sparse_index),
            h_sparse_index_every = ucast sparse_index_every\<rparr> in
     and_then (header_to_le_bytes header) (\<lambda>header_bytes.
     let bytes = header_bytes @ concat (map (encode_le R) records) @ index_bytes in
     Inr (bytes, written_meta options key header sparse_index_every bytes))))))))))))"

definition fixed_write_chunk ::
  "'r FixedRecord \<Rightarrow> calendar \<Rightarrow> os_outcome \<Rightarrow> path \<Rightarrow> SeriesMeta \<Rightarrow> 'r list \<Rightarrow> WriteFixedChunkOptions \<Rightarrow>
   fs_state \<Rightarrow> fs_state list \<times> ChunkMeta res" where
  "fixed_write_chunk R utc os chunk_path meta records options s =
     publish os chunk_path (fixed_build R utc meta records options) s"

section \<open>A file image is a chunk\<close>

lemma load_layout_written:
  assumes v: "header_validate h = Inr ()" "h_version h = 2" "header_to_le_bytes h = Inr hb"
    and f: "h_flags h = 1" "h_index_offset h = word_of_nat (128 + length body)"
      "h_index_len h = word_of_nat (length es)" "es \<noteq> []"
    and len: "128 + length body + 16 * length es < 2 ^ 63"
  shows "load_layout (hb @ body @ encode_entries es) = Inr \<lparr>l_header = h, l_sparse_index = es\<rparr>"
proof -
  let ?file = "hb @ body @ encode_entries es"
  have hs: "h_magic h = CHUNK_MAGIC" "h_header_size h = 128" using v by (auto simp: header_validate_iff)
  have hb: "length hb = 128"
    using v(3) header_to_le_bytes_v2 [OF hs(2)] hs(1) by (auto simp: length_concat_map_const [where n = 8])
  have u: "unat (word_of_nat (length es) :: u64) = length es" "unat (word_of_nat (128 + length body) :: u64) = 128 + length body"
    using len by (intro unat_of_nat_u64; simp)+
  have nz: "(word_of_nat (length es) :: u64) \<noteq> 0" using f(4) u(1) by (metis length_0_conv unsigned_0)
  have cm: "checked_mul (word_of_nat (length es) :: u64) (word_of_nat entry_BYTE_SIZE) = Some (word_of_nat (16 * length es))"
    unfolding checked_mul_def u entry_BYTE_SIZE_def using len by (simp add: mult.commute)
  have ul: "unat (word_of_nat (16 * length es) :: u64) = 16 * length es"
    using len by (intro unat_of_nat_u64) simp
  have "slice_of (128 + length body) (128 + length body + 16 * length es) ?file = encode_entries es"
    by (simp add: slice_of_def hb)
  then have r: "read_at ?file (word_of_nat (128 + length body)) (16 * length es) = Inr (encode_entries es)"
    unfolding read_at_def u(2) using f(4) by (simp add: hb)
  have "sparse_read_from_file ?file h = Inr es"
    using v(2) nz
    by (simp only: sparse_read_from_file_def f cm ul r ok_or_simps and_then.simps decode_encode_entries)
      (simp add: CHUNK_VERSION_V2_def CHUNK_FLAG_HAS_SPARSE_INDEX_def)
  then show ?thesis using header_read_from_prefix [OF v, of "body @ encode_entries es"]
    by (simp add: load_layout_def)
qed


text \<open>The image that a writer builds from rows, an anchor distance and a header.\<close>

definition chunk_image :: "'r FixedRecord \<Rightarrow> 'r list \<Rightarrow> u32 \<Rightarrow> ChunkHeader \<Rightarrow> u8 list \<Rightarrow> bool" where
  "chunk_image R rows every h bytes \<longleftrightarrow>
     every \<noteq> 0 \<and> h_magic h = CHUNK_MAGIC \<and> h_version h = 2 \<and> h_header_size h = 128
     \<and> h_record_size h = word_of_nat (BYTE_SIZE R) \<and> h_schema_id h = SCHEMA_ID R
     \<and> header_spans R h rows \<and> h_count h = word_of_nat (length rows) \<and> h_flags h = 1
     \<and> h_index_offset h = word_of_nat (128 + BYTE_SIZE R * length rows)
     \<and> h_index_len h = word_of_nat (length (anchors (unat every) (map (ts_of R) rows)))
     \<and> h_sparse_index_every h = ucast every
     \<and> bytes = (CHUNK_MAGIC @ concat (map (le_bytes 8) (header_words h)))
         @ concat (map (encode_le R) rows) @ encode_entries (anchors (unat every) (map (ts_of R) rows))"

lemma max_one_neq_0: "max (w :: u32) 1 \<noteq> 0"
  by (metis max.cobounded2 word_le_0_iff zero_neq_one)

context fixed_record
begin

lemma image_is_chunk:
  assumes im: "chunk_image R rows every h bytes" and wf: "\<forall>r \<in> set rows. wf r"
    and s: "sorted (map (ts_of R) rows)" and len: "length bytes < 2 ^ 63"
  shows "load_layout bytes = Inr \<lparr>l_header = h, l_sparse_index = anchors (unat every) (map (ts_of R) rows)\<rparr>"
    and "chunk_holds R wf h rows bytes"
    and "fixed_validate_header R h = Inr ()"
    and "index_of R rows (anchors (unat every) (map (ts_of R) rows))"
proof -
  let ?es = "anchors (unat every) (map (ts_of R) rows)" and ?body = "concat (map (encode_le R) rows)"
  let ?hb = "CHUNK_MAGIC @ concat (map (le_bytes 8) (header_words h))"
  have B: "bytes = ?hb @ ?body @ encode_entries ?es" using im by (simp add: chunk_image_def)
  have ev: "0 < unat every" using im by (simp add: chunk_image_def unat_gt_0)
  have ne: "rows \<noteq> []" using im by (simp add: chunk_image_def header_spans_def)
  have body: "length ?body = BYTE_SIZE R * length rows" using length_encodes [OF wf] .
  have hb: "length ?hb = 128" by (simp add: length_concat_map_const [where n = 8])
  have tot: "128 + length ?body + 16 * length ?es < 2 ^ 63" using len unfolding B by (simp add: hb [simplified])
  have "h_start_ts h \<le> h_end_ts h"
    using im sorted_hd_last(1) [OF s, of "last rows"] ne by (simp add: chunk_image_def header_spans_def)
  moreover have "(ucast every :: u64) \<noteq> 0" using ev by (metis less_irrefl unat_ucast_u32 unsigned_0)
  ultimately have v: "header_validate h = Inr ()" using im by (simp add: chunk_image_def header_validate_iff)
  have tb: "header_to_le_bytes h = Inr ?hb"
    using header_to_le_bytes_v2 [of h] im by (simp add: chunk_image_def)
  have es: "?es \<noteq> []"
    using ev ne anchor_index_less [of "unat every" 0 "length rows"] by (auto simp: anchors_def)
  show "load_layout bytes = Inr \<lparr>l_header = h, l_sparse_index = ?es\<rparr>"
    unfolding B using im es tot body by (intro load_layout_written v tb) (auto simp: chunk_image_def)
  have rs: "unat (h_record_size h) = BYTE_SIZE R"
    using im size_range by (simp add: chunk_image_def unsigned_of_nat take_bit_nat_eq_self)
  have "slice_of 128 (128 + BYTE_SIZE R * length rows) bytes = ?body"
    unfolding B using hb body by (simp add: slice_of_def)
  then show "chunk_holds R wf h rows bytes"
    using im wf rs tot body len by (simp add: chunk_holds_def chunk_image_def B hb [simplified])
  show "fixed_validate_header R h = Inr ()" using im rs by (simp add: fixed_validate_header_def chunk_image_def)
  show "index_of R rows ?es" using ev by (auto simp: index_of_def)
qed

end

lemma checked_mul_value: "checked_mul a b = Some w \<Longrightarrow> w = b * a"
  by (auto simp: checked_mul_def mult.commute split: if_splits)

text \<open>The header that all three writers build.\<close>

definition new_header ::
  "'r FixedRecord \<Rightarrow> SeriesMeta \<Rightarrow> 'z WriteChunkOptions_scheme \<Rightarrow> 'r list \<Rightarrow> ChunkHeader" where
  "new_header R meta options rows =
     (let every = max (wo_sparse_index_every options) 1 in
      \<lparr>h_magic = CHUNK_MAGIC, h_version = 2, h_header_size = 128, h_record_size = word_of_nat (BYTE_SIZE R),
       h_schema_id = SCHEMA_ID R, h_series_id = sm_series_id meta, h_chunk_id = wo_chunk_id options,
       h_generation = ucast (wo_generation options), h_timeframe_ms = sm_timeframe_ms meta,
       h_start_ts = ts_of R (rows ! 0), h_end_ts = ts_of R (rows ! (length rows - 1)),
       h_count = word_of_nat (length rows), h_flags = 1,
       h_index_offset = word_of_nat (128 + BYTE_SIZE R * length rows),
       h_index_len = word_of_nat (length (anchors (unat every) (map (ts_of R) rows))),
       h_sparse_index_every = ucast every\<rparr>)"

lemmas writer_defs = new_header_def Let_def sample_validated_anchors [OF max_one_neq_0] chunk_image_def max_one_neq_0
  header_to_le_bytes_v2 BYTE_SIZE_V2_def CHUNK_VERSION_CURRENT_def CHUNK_VERSION_V2_def
  CHUNK_FLAG_HAS_SPARSE_INDEX_def header_spans_def hd_conv_nth last_conv_nth written_meta_def

lemma kline_build_header:
  assumes "kline_build utc meta rows options = Inr (bytes, cm)"
  shows "sorted_wrt (<) (map k_ts rows)"
    and "chunk_image kline_record rows (max (wo_sparse_index_every options) 1) (new_header kline_record meta options rows) bytes"
    and "cm = written_meta options (cm_month_key cm) (new_header kline_record meta options rows) (max (wo_sparse_index_every options) 1) bytes"
    and "month_key utc (k_ts (hd rows)) = Inr (cm_month_key cm)"
proof -
  have r: "rows \<noteq> []" "sorted_wrt (<) (map k_ts rows)"
    using assms by (auto simp: kline_build_def res_simps kline_validate_strict_order_iff)
  then show "sorted_wrt (<) (map k_ts rows)" by simp
  show "chunk_image kline_record rows (max (wo_sparse_index_every options) 1) (new_header kline_record meta options rows) bytes"
    "cm = written_meta options (cm_month_key cm) (new_header kline_record meta options rows) (max (wo_sparse_index_every options) 1) bytes"
    "month_key utc (k_ts (hd rows)) = Inr (cm_month_key cm)"
    using assms r by (auto simp: kline_build_def res_simps writer_defs kline_BYTE_SIZE_def KLINE_SCHEMA_ID_def dest!: checked_mul_value)
qed

lemma kline_build_image:
  assumes "kline_build utc meta rows options = Inr (bytes, cm)"
  shows "sorted_wrt (<) (map k_ts rows)"
    and "\<exists>h. chunk_image kline_record rows (max (wo_sparse_index_every options) 1) h bytes
      \<and> cm = written_meta options (cm_month_key cm) h (max (wo_sparse_index_every options) 1) bytes
      \<and> month_key utc (k_ts (hd rows)) = Inr (cm_month_key cm)
      \<and> h_series_id h = sm_series_id meta"
  using kline_build_header [OF assms] by (auto intro!: exI [of _ "new_header kline_record meta options rows"] simp: new_header_def Let_def)

lemma scalar_build_header:
  assumes "scalar_build utc meta rows options = Inr (bytes, cm)"
  shows "sorted_wrt (<) (map s_ts rows)"
    and "chunk_image scalar_record rows (max (wo_sparse_index_every options) 1) (new_header scalar_record meta options rows) bytes"
    and "cm = written_meta options (cm_month_key cm) (new_header scalar_record meta options rows) (max (wo_sparse_index_every options) 1) bytes"
    and "month_key utc (s_ts (hd rows)) = Inr (cm_month_key cm)"
proof -
  have r: "rows \<noteq> []" "sorted_wrt (<) (map s_ts rows)"
    using assms by (auto simp: scalar_build_def res_simps scalar_validate_strict_order_iff)
  then show "sorted_wrt (<) (map s_ts rows)" by simp
  show "chunk_image scalar_record rows (max (wo_sparse_index_every options) 1) (new_header scalar_record meta options rows) bytes"
    "cm = written_meta options (cm_month_key cm) (new_header scalar_record meta options rows) (max (wo_sparse_index_every options) 1) bytes"
    "month_key utc (s_ts (hd rows)) = Inr (cm_month_key cm)"
    using assms r by (auto simp: scalar_build_def res_simps writer_defs scalar_BYTE_SIZE_def SCALAR_SCHEMA_ID_def dest!: checked_mul_value)
qed

lemma scalar_build_image:
  assumes "scalar_build utc meta rows options = Inr (bytes, cm)"
  shows "sorted_wrt (<) (map s_ts rows)"
    and "\<exists>h. chunk_image scalar_record rows (max (wo_sparse_index_every options) 1) h bytes
      \<and> cm = written_meta options (cm_month_key cm) h (max (wo_sparse_index_every options) 1) bytes
      \<and> month_key utc (s_ts (hd rows)) = Inr (cm_month_key cm)
      \<and> h_series_id h = sm_series_id meta"
  using scalar_build_header [OF assms] by (auto intro!: exI [of _ "new_header scalar_record meta options rows"] simp: new_header_def Let_def)

lemma fixed_build_image:
  assumes "fixed_build R utc meta rows options = Inr (bytes, cm)"
  shows "validate_strict_order R rows = Inr ()"
    and "\<exists>h. chunk_image R rows (max (wo_sparse_index_every options) 1) h bytes
      \<and> cm = written_meta options (cm_month_key cm) h (max (wo_sparse_index_every options) 1) bytes
      \<and> partition_key utc (ts_of R (hd rows)) (wo_partition_unit options) = Inr (cm_month_key cm)
      \<and> h_series_id h = sm_series_id meta"
proof -
  have r: "rows \<noteq> []" "validate_strict_order R rows = Inr ()"
    using assms by (auto simp: fixed_build_def res_simps)
  then show "validate_strict_order R rows = Inr ()" by simp
  show "\<exists>h. chunk_image R rows (max (wo_sparse_index_every options) 1) h bytes
      \<and> cm = written_meta options (cm_month_key cm) h (max (wo_sparse_index_every options) 1) bytes
      \<and> partition_key utc (ts_of R (hd rows)) (wo_partition_unit options) = Inr (cm_month_key cm)
      \<and> h_series_id h = sm_series_id meta"
    using assms r by (intro exI [of _ "new_header R meta options rows"]) (auto simp: fixed_build_def res_simps writer_defs dest!: checked_mul_value)
qed

section \<open>The writers accept every valid input\<close>

lemma image_length:
  "chunk_image R rows every h bytes \<Longrightarrow> (\<And>r. r \<in> set rows \<Longrightarrow> length (encode_le R r) = BYTE_SIZE R) \<Longrightarrow>
     length bytes = 128 + BYTE_SIZE R * length rows + 16 * length (anchors (unat every) (map (ts_of R) rows))"
  by (simp add: chunk_image_def length_concat_map_const [where n = 8] length_concat_map_const [where n = "BYTE_SIZE R"])

lemma anchors_le: "0 < n \<Longrightarrow> length (anchors n tss) \<le> length tss"
proof -
  assume n: "0 < n"
  have "\<not> length tss < (length tss + n - Suc 0) div n"
    using anchor_index_less [OF n, of "length tss" "length tss"] n by simp
  then show ?thesis by simp
qed

lemma checked_mul_Some: "n * m < 2 ^ 64 \<Longrightarrow> n < 2 ^ 64 \<Longrightarrow> m < 2 ^ 64 \<Longrightarrow>
    checked_mul (word_of_nat n :: u64) (word_of_nat m) = Some (word_of_nat n * word_of_nat m)"
  by (simp add: checked_mul_def)

lemma kline_build_total:
  assumes "rows \<noteq> []" and "sorted_wrt (<) (map k_ts rows)" and "48 * length rows < 2 ^ 64"
    and "month_key utc (k_ts (hd rows)) = Inr key" and "month_key utc (k_ts (last rows)) = Inr key"
    and "\<not> is_blank (wo_relative_path options)"
  shows "\<exists>bytes cm. kline_build utc meta rows options = Inr (bytes, cm)"
proof -
  have "kline_validate_strict_order rows = Inr ()" using assms(1,2) by (simp add: kline_validate_strict_order_iff)
  moreover have "checked_mul (word_of_nat (length rows) :: u64) (word_of_nat kline_BYTE_SIZE)
      = Some (word_of_nat (length rows) * word_of_nat kline_BYTE_SIZE)"
    using assms(3) by (intro checked_mul_Some) (simp_all add: kline_BYTE_SIZE_def)
  ultimately show ?thesis using assms(1,4-6)
    by (simp add: kline_build_def writer_defs ensure_def)
qed

lemma scalar_build_total:
  assumes "rows \<noteq> []" and "sorted_wrt (<) (map s_ts rows)" and "16 * length rows < 2 ^ 64"
    and "month_key utc (s_ts (hd rows)) = Inr key" and "month_key utc (s_ts (last rows)) = Inr key"
  shows "\<exists>bytes cm. scalar_build utc meta rows options = Inr (bytes, cm)"
proof -
  have "scalar_validate_strict_order rows = Inr ()" using assms(1,2) by (simp add: scalar_validate_strict_order_iff)
  moreover have "checked_mul (word_of_nat (length rows) :: u64) (word_of_nat scalar_BYTE_SIZE)
      = Some (word_of_nat (length rows) * word_of_nat scalar_BYTE_SIZE)"
    using assms(3) by (intro checked_mul_Some) (simp_all add: scalar_BYTE_SIZE_def)
  ultimately show ?thesis using assms(1,4-5)
    by (simp add: scalar_build_def writer_defs ensure_def)
qed

lemma check_partitions_ok:
  "(\<And>t. t \<in> set tss \<Longrightarrow> partition_key utc t unit = Inr key) \<Longrightarrow> check_partitions utc unit key tss = Inr ()"
  by (induction tss) simp_all

lemma fixed_build_total:
  assumes "validate_strict_order R rows = Inr ()" and "BYTE_SIZE R * length rows < 2 ^ 64" and "BYTE_SIZE R \<le> 56"
    and "0 < BYTE_SIZE R" and "sm_record_type meta = RECORD_TYPE R" and "sm_schema_id meta = SCHEMA_ID R"
    and "unat (sm_record_size meta) = BYTE_SIZE R" and "\<not> is_blank (wo_relative_path options)"
    and "\<And>r. r \<in> set rows \<Longrightarrow> partition_key utc (ts_of R r) (wo_partition_unit options) = Inr key"
  shows "\<exists>bytes cm. fixed_build R utc meta rows options = Inr (bytes, cm)"
proof -
  have ne: "rows \<noteq> []" using assms(1) by (auto simp: validate_strict_order_iff)
  have "length rows \<le> BYTE_SIZE R * length rows" using assms(4) by simp
  then have "length rows < 2 ^ 64" using assms(2) by linarith
  then have "checked_mul (word_of_nat (length rows) :: u64) (word_of_nat (BYTE_SIZE R))
      = Some (word_of_nat (length rows) * word_of_nat (BYTE_SIZE R))"
    using assms(2,3) by (intro checked_mul_Some) (auto simp: mult.commute)
  moreover have "check_partitions utc (wo_partition_unit options) key (map (ts_of R) (tl rows)) = Inr ()"
    using assms(9) by (intro check_partitions_ok) (auto dest: list.set_sel(2) [OF ne])
  moreover have "partition_key utc (ts_of R (rows ! 0)) (wo_partition_unit options) = Inr key"
    using assms(9) ne by simp
  ultimately show ?thesis using assms(1,5-8) ne
    by (simp add: fixed_build_def writer_defs ensure_def)
qed

end
