(* ===== verification/WriteRead.thy ===== *)
theory WriteRead
  imports Writers
begin

text \<open>
  From a successful write to the reads of the published chunk, through the chunk runtime with
  its layout and file caches: what \<^verbatim>\<open>write_chunk\<close> published is what \<open>find_in_chunk\<close>,
  \<open>append_range_in_chunk\<close> and the planned reads return, for every record family.
\<close>

text \<open>The contents that a reader sees.\<close>

definition visible :: "fs_state \<Rightarrow> path \<rightharpoonup> u8 list" where
  "visible s p = map_option f_data (fs_files s p)"

lemma publish_visible:
  assumes "publish os chunk_path built s = (trace, Inr cm)"
  obtains bytes where "built = Inr (bytes, cm)" and "visible (last trace) chunk_path = Some bytes"
    and "fs_files s chunk_path = None"
proof -
  obtain bytes where b: "built = Inr (bytes, cm)" and w: "atomic_write_new os chunk_path (bytes, None) s = (trace, Inr ())"
    using assms by (auto simp: publish_def split: sum.splits prod.splits)
  note d = atomic_write_done [OF w [unfolded atomic_write_new_def]]
  show thesis using that [OF b] d by (auto simp: visible_def)
qed

lemma publish_ok:
  assumes "atomic_write_new os chunk_path (bytes, None) s = (trace, Inr ())"
  shows "publish os chunk_path (Inr (bytes, cm)) s = (trace, Inr cm)"
  using assms by (simp add: publish_def)

lemma atomic_write_new_ok:
  assumes "path_parent dest = Some parent" and "temp_path_for (Some nanos) dest = Inr temp"
    and "\<not> fs_exists (ensure_dir parent s) dest" and "\<not> fs_exists (ensure_dir parent s) temp"
  shows "\<exists>trace. atomic_write_new (os_ok nanos) dest (bytes, None) s = (trace, Inr ())"
  using assms
  by (simp add: atomic_write_new_def atomic_write_def write_and_rename_def write_temp_def os_ok_def io_result_def
      Let_def fs_exists_def fs_write_def fs_sync_file_def ensure_dir_def)

lemma atomic_write_replace_ok:
  assumes "path_parent dest = Some parent" and "temp_path_for (Some nanos) dest = Inr temp"
    and "dest \<notin> fs_dirs (ensure_dir parent s)" and "\<not> fs_exists (ensure_dir parent s) temp"
  shows "\<exists>trace. atomic_write_replace (os_ok nanos) dest (bytes, None) s = (trace, Inr ())"
  using assms
  by (simp add: atomic_write_replace_def atomic_write_def write_and_rename_def write_temp_def os_ok_def io_result_def
      Let_def fs_exists_def fs_write_def fs_sync_file_def ensure_dir_def)

section \<open>Klines\<close>

lemma kline_build_chunk:
  assumes b: "kline_build utc meta rows options = Inr (bytes, cm)" and n: "64 * length rows + 128 < 2 ^ 63"
  obtains layout where "load_layout bytes = Inr layout" and "kline_validate_header (l_header layout) = Inr ()"
    and "kline_chunk bytes layout rows" and "cm_relative_path cm = wo_relative_path options"
proof -
  let ?e = "max (wo_sparse_index_every options) 1" and ?T = "map k_ts rows"
  note s = kline_build_image(1) [OF b]
  obtain h where im: "chunk_image kline_record rows ?e h bytes" and cm: "cm = written_meta options (cm_month_key cm) h ?e bytes"
    using kline_build_image(2) [OF b] by blast
  have "length (anchors (unat ?e) ?T) \<le> length ?T" by (rule anchors_le) (simp add: max_one_neq_0 unat_gt_0)
  moreover have "length bytes = 128 + 48 * length rows + 16 * length (anchors (unat ?e) ?T)"
    using image_length [OF im] kline.length_encode by simp
  ultimately have len: "length bytes < 2 ^ 63" using n by simp
  note c = kline.image_is_chunk [OF im _ _ len]
  have ss: "sorted (map (ts_of kline_record) rows)" using strict_sorted_imp_sorted [OF s] by simp
  have v: "kline_validate_header h = Inr ()"
    using c(3) [OF _ ss] by (simp add: fixed_validate_header_def kline_validate_header_def res_simps KLINE_SCHEMA_ID_def kline_BYTE_SIZE_def)
  have "header_spans kline_record h rows" using im by (simp add: chunk_image_def)
  then have "kline_chunk bytes \<lparr>l_header = h, l_sparse_index = anchors (unat ?e) ?T\<rparr> rows"
    using c(2,4) [OF _ ss] s by (simp add: kline_chunk_def)
  moreover have "cm_relative_path cm = wo_relative_path options" by (subst cm) (simp add: written_meta_def)
  ultimately show thesis using that c(1) [OF _ ss] v by simp
qed

lemma kline_chunk_reads:
  assumes co: "coherent fs where_is rt"
    and p: "where_is (key_from_meta chunk sid) = path_join dir (cm_relative_path chunk)"
    and f: "fs (path_join dir (cm_relative_path chunk)) = Some bytes" "load_layout bytes = Inr layout"
      "kline_validate_header (l_header layout) = Inr ()"
    and c: "kline_chunk bytes layout rows"
  shows "\<exists>rt' path. kline_append_range_in_chunk fs rt dir sid chunk a b out
      = (rt', Inr (path, out @ filter (\<lambda>r. a \<le> k_ts r \<and> k_ts r \<le> b) rows)) \<and> coherent fs where_is rt'"
    and "\<exists>rt'. kline_find_in_chunk fs rt dir sid chunk t
      = (rt', Inr (find (\<lambda>r. k_ts r = t) rows)) \<and> coherent fs where_is rt'"
    and "\<exists>rt' span. kline_plan_range fs rt dir sid chunk a b = (rt', Inr span) \<and> coherent fs where_is rt'
      \<and> cf_file (rs_file span) = bytes \<and> rs_rows span \<le> length rows
      \<and> kline_read_planned span (rs_rows span) = Inr (filter (\<lambda>r. a \<le> k_ts r \<and> k_ts r \<le> b) rows)"
    and "\<exists>rt' span. kline_plan_tail fs rt dir sid chunk n = (rt', Inr span) \<and> coherent fs where_is rt'
      \<and> cf_file (rs_file span) = bytes \<and> rs_rows span \<le> length rows
      \<and> kline_read_planned span (rs_rows span) = Inr (drop (length rows - n) rows)"
proof -
  have cf: "cf_file (chunk_file_new bytes) = bytes" by (simp add: chunk_file_new_def)
  obtain rt1 r1 where w1: "kline_append_range_in_chunk fs rt dir sid chunk a b out = (rt1, r1)" by fastforce
  note e1 = with_chunk_coherent [OF co p w1 [unfolded kline_append_range_in_chunk_def]]
  from e1(1) e1(2) [OF f] w1 kline_range_exact [OF c, of a b out]
  show "\<exists>rt' path. kline_append_range_in_chunk fs rt dir sid chunk a b out
      = (rt', Inr (path, out @ filter (\<lambda>r. a \<le> k_ts r \<and> k_ts r \<le> b) rows)) \<and> coherent fs where_is rt'"
    by (auto simp: cf)
  obtain rt2 r2 where w2: "kline_find_in_chunk fs rt dir sid chunk t = (rt2, r2)" by fastforce
  note e2 = with_chunk_coherent [OF co p w2 [unfolded kline_find_in_chunk_def]]
  from e2(1) e2(2) [OF f] w2 kline_find_exact [OF c, of t]
  show "\<exists>rt'. kline_find_in_chunk fs rt dir sid chunk t
      = (rt', Inr (find (\<lambda>r. k_ts r = t) rows)) \<and> coherent fs where_is rt'"
    by (auto simp: cf)
  obtain rt3 r3 where w3: "kline_plan_range fs rt dir sid chunk a b = (rt3, r3)" by fastforce
  from kline_plan_range_exact [OF co p f c w3] w3
  show "\<exists>rt' span. kline_plan_range fs rt dir sid chunk a b = (rt', Inr span) \<and> coherent fs where_is rt'
      \<and> cf_file (rs_file span) = bytes \<and> rs_rows span \<le> length rows
      \<and> kline_read_planned span (rs_rows span) = Inr (filter (\<lambda>r. a \<le> k_ts r \<and> k_ts r \<le> b) rows)"
    by auto
  obtain rt4 r4 where w4: "kline_plan_tail fs rt dir sid chunk n = (rt4, r4)" by fastforce
  from kline_plan_tail_exact [OF co p f c w4] w4
  show "\<exists>rt' span. kline_plan_tail fs rt dir sid chunk n = (rt', Inr span) \<and> coherent fs where_is rt'
      \<and> cf_file (rs_file span) = bytes \<and> rs_rows span \<le> length rows
      \<and> kline_read_planned span (rs_rows span) = Inr (drop (length rows - n) rows)"
    by auto
qed

section \<open>Scalars\<close>

lemma scalar_build_chunk:
  assumes b: "scalar_build utc meta rows options = Inr (bytes, cm)" and n: "32 * length rows + 128 < 2 ^ 63"
  obtains layout where "load_layout bytes = Inr layout" and "scalar_validate_header (l_header layout) = Inr ()"
    and "scalar_chunk bytes layout rows" and "cm_relative_path cm = wo_relative_path options"
proof -
  let ?e = "max (wo_sparse_index_every options) 1" and ?T = "map s_ts rows"
  note s = scalar_build_image(1) [OF b]
  obtain h where im: "chunk_image scalar_record rows ?e h bytes" and cm: "cm = written_meta options (cm_month_key cm) h ?e bytes"
    using scalar_build_image(2) [OF b] by blast
  have "length (anchors (unat ?e) ?T) \<le> length ?T" by (rule anchors_le) (simp add: max_one_neq_0 unat_gt_0)
  moreover have "length bytes = 128 + 16 * length rows + 16 * length (anchors (unat ?e) ?T)"
    using image_length [OF im] scalar.length_encode by simp
  ultimately have len: "length bytes < 2 ^ 63" using n by simp
  note c = scalar.image_is_chunk [OF im _ _ len]
  have ss: "sorted (map (ts_of scalar_record) rows)" using strict_sorted_imp_sorted [OF s] by simp
  have v: "scalar_validate_header h = Inr ()"
    using c(3) [OF _ ss] by (simp add: fixed_validate_header_def scalar_validate_header_def res_simps SCALAR_SCHEMA_ID_def scalar_BYTE_SIZE_def)
  have "header_spans scalar_record h rows" using im by (simp add: chunk_image_def)
  then have "scalar_chunk bytes \<lparr>l_header = h, l_sparse_index = anchors (unat ?e) ?T\<rparr> rows"
    using c(2,4) [OF _ ss] s by (simp add: scalar_chunk_def)
  moreover have "cm_relative_path cm = wo_relative_path options" by (subst cm) (simp add: written_meta_def)
  ultimately show thesis using that c(1) [OF _ ss] v by simp
qed

lemma scalar_chunk_reads:
  assumes co: "coherent fs where_is rt"
    and p: "where_is (key_from_meta chunk sid) = path_join dir (cm_relative_path chunk)"
    and f: "fs (path_join dir (cm_relative_path chunk)) = Some bytes" "load_layout bytes = Inr layout"
      "scalar_validate_header (l_header layout) = Inr ()"
    and c: "scalar_chunk bytes layout rows"
  shows "\<exists>rt' path. scalar_append_range_in_chunk fs rt dir sid chunk a b out
      = (rt', Inr (path, out @ filter (\<lambda>r. a \<le> s_ts r \<and> s_ts r \<le> b) rows)) \<and> coherent fs where_is rt'"
    and "\<exists>rt'. scalar_find_in_chunk fs rt dir sid chunk t
      = (rt', Inr (find (\<lambda>r. s_ts r = t) rows)) \<and> coherent fs where_is rt'"
    and "\<exists>rt' span. scalar_plan_range fs rt dir sid chunk a b = (rt', Inr span) \<and> coherent fs where_is rt'
      \<and> cf_file (rs_file span) = bytes \<and> rs_rows span \<le> length rows
      \<and> scalar_read_planned span (rs_rows span) = Inr (filter (\<lambda>r. a \<le> s_ts r \<and> s_ts r \<le> b) rows)"
proof -
  have cf: "cf_file (chunk_file_new bytes) = bytes" by (simp add: chunk_file_new_def)
  obtain rt1 r1 where w1: "scalar_append_range_in_chunk fs rt dir sid chunk a b out = (rt1, r1)" by fastforce
  note e1 = with_chunk_coherent [OF co p w1 [unfolded scalar_append_range_in_chunk_def]]
  from e1(1) e1(2) [OF f] w1 scalar_range_exact [OF c, of a b out]
  show "\<exists>rt' path. scalar_append_range_in_chunk fs rt dir sid chunk a b out
      = (rt', Inr (path, out @ filter (\<lambda>r. a \<le> s_ts r \<and> s_ts r \<le> b) rows)) \<and> coherent fs where_is rt'"
    by (auto simp: cf)
  obtain rt2 r2 where w2: "scalar_find_in_chunk fs rt dir sid chunk t = (rt2, r2)" by fastforce
  note e2 = with_chunk_coherent [OF co p w2 [unfolded scalar_find_in_chunk_def]]
  from e2(1) e2(2) [OF f] w2 scalar_find_exact [OF c, of t]
  show "\<exists>rt'. scalar_find_in_chunk fs rt dir sid chunk t
      = (rt', Inr (find (\<lambda>r. s_ts r = t) rows)) \<and> coherent fs where_is rt'"
    by (auto simp: cf)
  obtain rt3 r3 where w3: "scalar_plan_range fs rt dir sid chunk a b = (rt3, r3)" by fastforce
  from scalar_plan_range_exact [OF co p f c w3] w3
  show "\<exists>rt' span. scalar_plan_range fs rt dir sid chunk a b = (rt', Inr span) \<and> coherent fs where_is rt'
      \<and> cf_file (rs_file span) = bytes \<and> rs_rows span \<le> length rows
      \<and> scalar_read_planned span (rs_rows span) = Inr (filter (\<lambda>r. a \<le> s_ts r \<and> s_ts r \<le> b) rows)"
    by auto
qed

section \<open>Every fixed record\<close>

context fixed_record
begin

lemma build_chunk:
  assumes b: "fixed_build R utc meta rows options = Inr (bytes, cm)" and n: "72 * length rows + 128 < 2 ^ 63"
    and wf: "\<forall>r \<in> set rows. wf r"
  obtains layout where "load_layout bytes = Inr layout" and "fixed_validate_header R (l_header layout) = Inr ()"
    and "chunk_holds R wf (l_header layout) rows bytes" and "header_spans R (l_header layout) rows"
    and "l_sparse_index layout = anchors (unat (max (wo_sparse_index_every options) 1)) (map (ts_of R) rows)"
    and "cm_relative_path cm = wo_relative_path options"
proof -
  let ?e = "max (wo_sparse_index_every options) 1" and ?T = "map (ts_of R) rows"
  have s: "sorted ?T" using fixed_build_image(1) [OF b]
    by (auto simp: validate_strict_order_iff split: if_splits intro: strict_sorted_imp_sorted)
  obtain h where im: "chunk_image R rows ?e h bytes" and cm: "cm = written_meta options (cm_month_key cm) h ?e bytes"
    using fixed_build_image(2) [OF b] by blast
  have "length (anchors (unat ?e) ?T) \<le> length ?T" by (rule anchors_le) (simp add: max_one_neq_0 unat_gt_0)
  moreover have "length bytes = 128 + BYTE_SIZE R * length rows + 16 * length (anchors (unat ?e) ?T)"
    using image_length [OF im] length_encode wf by simp
  moreover have "BYTE_SIZE R * length rows \<le> 56 * length rows" using size_range by simp
  ultimately have len: "length bytes < 2 ^ 63" using n unfolding length_map by linarith
  note c = image_is_chunk [OF im wf s len]
  have "header_spans R h rows" using im by (simp add: chunk_image_def)
  moreover have "cm_relative_path cm = wo_relative_path options" by (subst cm) (simp add: written_meta_def)
  ultimately show thesis using that c by simp
qed

lemma chunk_reads:
  assumes co: "coherent fs where_is rt"
    and p: "where_is (key_from_meta chunk sid) = path_join dir (cm_relative_path chunk)"
    and f: "fs (path_join dir (cm_relative_path chunk)) = Some bytes" "load_layout bytes = Inr layout"
      "fixed_validate_header R (l_header layout) = Inr ()"
    and h: "chunk_holds R wf (l_header layout) rows bytes" "header_spans R (l_header layout) rows"
  shows "sorted_wrt (<) (map (ts_of R) rows) \<Longrightarrow> index_of R rows (l_sparse_index layout) \<Longrightarrow>
      \<exists>rt'. fixed_append_range_in_chunk R fs rt dir sid chunk a b out
      = (rt', Inr (out @ filter (\<lambda>r. a \<le> ts_of R r \<and> ts_of R r \<le> b) rows)) \<and> coherent fs where_is rt'"
    and "\<exists>rt'. fixed_read_tail_in_chunk R fs rt dir sid chunk n
      = (rt', Inr (drop (length rows - n) rows)) \<and> coherent fs where_is rt'"
proof -
  have cf: "cf_file (chunk_file_new bytes) = bytes" by (simp add: chunk_file_new_def)
  obtain rt1 r1 where w1: "fixed_append_range_in_chunk R fs rt dir sid chunk a b out = (rt1, r1)" by fastforce
  note e1 = with_chunk_coherent [OF co p w1 [unfolded fixed_append_range_in_chunk_def]]
  from e1(1) e1(2) [OF f] w1 range_in_file [OF h(1) _ _ h(2), of a b out]
  show "sorted_wrt (<) (map (ts_of R) rows) \<Longrightarrow> index_of R rows (l_sparse_index layout) \<Longrightarrow>
      \<exists>rt'. fixed_append_range_in_chunk R fs rt dir sid chunk a b out
      = (rt', Inr (out @ filter (\<lambda>r. a \<le> ts_of R r \<and> ts_of R r \<le> b) rows)) \<and> coherent fs where_is rt'"
    by (auto simp: cf)
  have cnt: "h_count (l_header layout) = word_of_nat (length rows)" using h(1) by (simp add: chunk_holds_def)
  have len: "length rows < 2 ^ 63" by (rule chunk_rows_less [OF h(1)])
  show "\<exists>rt'. fixed_read_tail_in_chunk R fs rt dir sid chunk n
      = (rt', Inr (drop (length rows - n) rows)) \<and> coherent fs where_is rt'"
  proof (cases "n = 0")
    case True
    then show ?thesis using co by (auto simp: fixed_read_tail_in_chunk_def)
  next
    case False
    obtain rt2 r2 where w2: "fixed_read_tail_in_chunk R fs rt dir sid chunk n = (rt2, r2)" by fastforce
    note e2 = with_chunk_coherent [OF co p w2 [unfolded fixed_read_tail_in_chunk_def if_not_P [OF False]]]
    have "fixed_read_record_span R bytes (l_header layout) (word_of_nat (length rows - n))
        (word_of_nat (length rows) - word_of_nat (length rows - n)) = Inr (slice_of (length rows - n) (length rows) rows)"
      by (rule fixed.read_window [OF h(1)]) simp_all
    moreover have "unat (word_of_nat (length rows) :: u64) = length rows" using len by (intro unat_of_nat_u64) simp
    ultimately have "r2 = Inr (drop (length rows - n) rows)" using e2(2) [OF f] by (simp only: Let_def cf cnt) (simp add: slice_of_def)
    then show ?thesis using e2(1) w2 by blast
  qed
qed

end

end
