(* ===== verification/Series.thy ===== *)
theory Series
  imports WriteRead
begin

text \<open>
  A series on disk: every chunk of a manifest is the image of some rows, and the spans of the
  chunks are ordered. The rows of the series are the rows of its chunks in order; they have
  strictly increasing timestamps, and the chunks that the manifest routes a point, a range or a
  tail to hold exactly the rows asked for. The images that the chunk writers build are such chunks.
\<close>

definition chunk_stored ::
  "'r FixedRecord \<Rightarrow> ('r \<Rightarrow> bool) \<Rightarrow> (path \<rightharpoonup> u8 list) \<Rightarrow> path \<Rightarrow> u64 \<Rightarrow> ChunkMeta \<Rightarrow> 'r list \<Rightarrow> bool" where
  "chunk_stored R ok fs dir sid c rows \<longleftrightarrow>
     (\<exists>bytes layout. fs (path_join dir (cm_relative_path c)) = Some bytes \<and> load_layout bytes = Inr layout
       \<and> fixed_validate_header R (l_header layout) = Inr () \<and> chunk_holds R ok (l_header layout) rows bytes
       \<and> header_spans R (l_header layout) rows \<and> index_of R rows (l_sparse_index layout)
       \<and> h_series_id (l_header layout) = sid)
     \<and> sorted_wrt (<) (map (ts_of R) rows) \<and> rows \<noteq> []
     \<and> cm_start_ts c = ts_of R (hd rows) \<and> cm_end_ts c = ts_of R (last rows)
     \<and> cm_count c = word_of_nat (length rows)"

definition series_rows :: "(ChunkMeta \<Rightarrow> 'r list) \<Rightarrow> SeriesMeta \<Rightarrow> 'r list" where
  "series_rows rows_of meta = concat (map rows_of (sm_chunks meta))"

definition series_stored ::
  "'r FixedRecord \<Rightarrow> ('r \<Rightarrow> bool) \<Rightarrow> (path \<rightharpoonup> u8 list) \<Rightarrow> path \<Rightarrow> SeriesMeta \<Rightarrow> (ChunkMeta \<Rightarrow> 'r list) \<Rightarrow> bool" where
  "series_stored R ok fs dir meta rows_of \<longleftrightarrow>
     spans_ordered (sm_chunks meta)
     \<and> (\<forall>c \<in> set (sm_chunks meta). chunk_stored R ok fs dir (sm_series_id meta) c (rows_of c))"

section \<open>The rows of a series\<close>

lemma chunk_stored_span:
  assumes "chunk_stored R ok fs dir sid c rows" and "r \<in> set rows"
  shows "cm_start_ts c \<le> ts_of R r" and "ts_of R r \<le> cm_end_ts c"
proof -
  have "sorted (map (ts_of R) rows)" using assms(1) by (auto simp: chunk_stored_def intro: strict_sorted_imp_sorted)
  from sorted_hd_last [OF this assms(2)] show "cm_start_ts c \<le> ts_of R r" "ts_of R r \<le> cm_end_ts c"
    using assms(1) by (simp_all add: chunk_stored_def)
qed

lemma sorted_concat_spans:
  assumes "sorted_wrt (\<lambda>a b. cm_end_ts a < cm_start_ts b) cs"
    and "\<forall>c \<in> set cs. sorted_wrt (<) (map f (rows_of c))"
    and "\<forall>c \<in> set cs. \<forall>r \<in> set (rows_of c). cm_start_ts c \<le> f r \<and> f r \<le> cm_end_ts c"
  shows "sorted_wrt (<) (map f (concat (map rows_of cs)))"
  using assms
proof (induction cs)
  case (Cons c cs)
  have "f r < f r'" if "r \<in> set (rows_of c)" "d \<in> set cs" "r' \<in> set (rows_of d)" for r d r'
  proof -
    have "f r \<le> cm_end_ts c" "cm_end_ts c < cm_start_ts d" "cm_start_ts d \<le> f r'" using Cons.prems that by auto
    then show ?thesis by (simp add: i64_ord)
  qed
  with Cons show ?case by (auto simp: sorted_wrt_append)
qed simp

lemma series_sorted:
  assumes "series_stored R ok fs dir meta rows_of"
  shows "sorted_wrt (<) (map (ts_of R) (series_rows rows_of meta))"
  unfolding series_rows_def
proof (rule sorted_concat_spans)
  show "sorted_wrt (\<lambda>a b. cm_end_ts a < cm_start_ts b) (sm_chunks meta)"
    using assms by (simp add: series_stored_def spans_ordered_def)
  show "\<forall>c \<in> set (sm_chunks meta). sorted_wrt (<) (map (ts_of R) (rows_of c))"
    using assms by (simp add: series_stored_def chunk_stored_def)
  show "\<forall>c \<in> set (sm_chunks meta). \<forall>r \<in> set (rows_of c). cm_start_ts c \<le> ts_of R r \<and> ts_of R r \<le> cm_end_ts c"
    using assms by (auto simp: series_stored_def dest: chunk_stored_span)
qed

text \<open>Chunks that no row can come from may be left out.\<close>

lemma concat_outside_window:
  assumes "\<And>i. i < length cs \<Longrightarrow> \<not> (a \<le> i \<and> i < b) \<Longrightarrow> g (cs ! i) = []" and "b \<le> length cs"
  shows "concat (map g cs) = concat (map g (slice_of a b cs))"
proof (cases "a \<le> b")
  case True
  have "cs = take a cs @ slice_of a b cs @ drop b cs"
    unfolding slice_of_def using True by (metis append_assoc append_take_drop_id min.absorb1 take_take)
  moreover have "concat (map g (take a cs)) = []"
    using assms by (auto simp: in_set_conv_nth)
  moreover have "concat (map g (drop b cs)) = []"
    using assms by (auto simp: in_set_conv_nth)
  ultimately show ?thesis by (metis append.left_neutral append.right_neutral concat_append map_append)
next
  case False
  then have "slice_of a b cs = []" by (simp add: slice_of_def)
  moreover have "concat (map g cs) = []" using assms False by (auto simp: in_set_conv_nth)
  ultimately show ?thesis by simp
qed

lemma series_range:
  assumes s: "series_stored R ok fs dir meta rows_of" and w: "find_chunks_for_range meta start_ts end_ts = (a, b)"
  shows "filter (\<lambda>r. start_ts \<le> ts_of R r \<and> ts_of R r \<le> end_ts) (series_rows rows_of meta)
    = concat (map (\<lambda>c. filter (\<lambda>r. start_ts \<le> ts_of R r \<and> ts_of R r \<le> end_ts) (rows_of c)) (slice_of a b (sm_chunks meta)))"
proof -
  have so: "spans_ordered (sm_chunks meta)" using s by (simp add: series_stored_def)
  let ?g = "\<lambda>c. filter (\<lambda>r. start_ts \<le> ts_of R r \<and> ts_of R r \<le> end_ts) (rows_of c)"
  have "?g (sm_chunks meta ! i) = []" if i: "i < length (sm_chunks meta)" and n: "\<not> (a \<le> i \<and> i < b)" for i
  proof -
    let ?c = "sm_chunks meta ! i"
    have "\<not> (start_ts \<le> ts_of R r \<and> ts_of R r \<le> end_ts)" if "r \<in> set (rows_of ?c)" for r
    proof -
      have c: "chunk_stored R ok fs dir (sm_series_id meta) ?c (rows_of ?c)" using s i by (simp add: series_stored_def)
      have "\<not> (start_ts \<le> end_ts \<and> cm_start_ts ?c \<le> end_ts \<and> start_ts \<le> cm_end_ts ?c)"
        using find_chunks_for_range_exact(2) [OF so w i] n by blast
      then show ?thesis using chunk_stored_span [OF c that] by (auto simp: i64_ord)
    qed
    then show ?thesis by simp
  qed
  then have "concat (map ?g (sm_chunks meta)) = concat (map ?g (slice_of a b (sm_chunks meta)))"
    by (rule concat_outside_window) (use find_chunks_for_range_exact(1) [OF so w] in auto)
  then show ?thesis by (simp add: series_rows_def filter_concat comp_def)
qed

lemma find_append: "find P (xs @ ys) = (case find P xs of None \<Rightarrow> find P ys | Some x \<Rightarrow> Some x)"
  by (induction xs) auto

text \<open>A point belongs to at most one chunk.\<close>

lemma series_point:
  assumes s: "series_stored R ok fs dir meta rows_of"
  shows "find (\<lambda>r. ts_of R r = t) (series_rows rows_of meta)
    = (case find_chunk_for_ts meta t of None \<Rightarrow> None | Some i \<Rightarrow> find (\<lambda>r. ts_of R r = t) (rows_of (sm_chunks meta ! i)))"
proof -
  have so: "spans_ordered (sm_chunks meta)" using s by (simp add: series_stored_def)
  have miss: "find (\<lambda>r. ts_of R r = t) (rows_of (sm_chunks meta ! i)) = None"
    if "i < length (sm_chunks meta)" "find_chunk_for_ts meta t \<noteq> Some i" for i
  proof -
    have c: "chunk_stored R ok fs dir (sm_series_id meta) (sm_chunks meta ! i) (rows_of (sm_chunks meta ! i))"
      using s that by (simp add: series_stored_def)
    show ?thesis
      using find_chunk_for_ts_exact [OF so, of t i] that chunk_stored_span [OF c] by (auto simp: find_None_iff)
  qed
  have all: "find (\<lambda>r. ts_of R r = t) (concat (map rows_of cs)) = None"
    if "\<forall>c \<in> set cs. find (\<lambda>r. ts_of R r = t) (rows_of c) = None" for cs
    using that by (auto simp: find_None_iff)
  show ?thesis
  proof (cases "find_chunk_for_ts meta t")
    case None
    then show ?thesis using miss by (auto simp: series_rows_def in_set_conv_nth intro!: all)
  next
    case (Some i)
    then have i: "i < length (sm_chunks meta)" using find_chunk_for_ts_exact [OF so] by blast
    let ?cs = "sm_chunks meta"
    have "find (\<lambda>r. ts_of R r = t) (concat (map rows_of (take i ?cs))) = None"
      and "find (\<lambda>r. ts_of R r = t) (concat (map rows_of (drop (Suc i) ?cs))) = None"
      using miss Some i by (auto simp: in_set_conv_nth intro!: all)
    then have "find (\<lambda>r. ts_of R r = t) (concat (map rows_of (take i ?cs @ ?cs ! i # drop (Suc i) ?cs)))
        = find (\<lambda>r. ts_of R r = t) (rows_of (?cs ! i))"
      by (simp add: find_append split: option.split)
    then show ?thesis unfolding series_rows_def id_take_nth_drop [OF i, symmetric] by (simp add: Some)
  qed
qed

section \<open>Written chunks are stored chunks\<close>

context fixed_record
begin

lemma image_stored:
  assumes im: "chunk_image R rows every h bytes" and cm: "cm = written_meta options key h every bytes"
    and wf: "\<forall>r \<in> set rows. wf r" and s: "sorted_wrt (<) (map (ts_of R) rows)" and n: "72 * length rows + 128 < 2 ^ 63"
    and f: "fs (path_join dir (wo_relative_path options)) = Some bytes"
  shows "chunk_stored R wf fs dir (h_series_id h) cm rows"
proof -
  let ?T = "map (ts_of R) rows"
  have ev: "unat every > 0" using im by (simp add: chunk_image_def unat_gt_0)
  have "length (anchors (unat every) ?T) \<le> length ?T" by (rule anchors_le [OF ev])
  moreover have "length bytes = 128 + BYTE_SIZE R * length rows + 16 * length (anchors (unat every) ?T)"
    using image_length [OF im] length_encode wf by simp
  moreover have "BYTE_SIZE R * length rows \<le> 56 * length rows" using size_range by simp
  ultimately have len: "length bytes < 2 ^ 63" using n unfolding length_map by linarith
  note c = image_is_chunk [OF im wf strict_sorted_imp_sorted [OF s] len]
  have i: "index_of R rows (anchors (unat every) ?T)" using ev by (auto simp: index_of_def)
  have sp: "header_spans R h rows" and k: "h_count h = word_of_nat (length rows)" using im by (simp_all add: chunk_image_def)
  show ?thesis unfolding chunk_stored_def
    using c f sp i s k unfolding cm written_meta_def header_spans_def
    by (auto intro!: exI [of _ "\<lparr>l_header = h, l_sparse_index = anchors (unat every) ?T\<rparr>"])
qed

lemma build_stored:
  assumes b: "fixed_build R utc meta rows options = Inr (bytes, cm)" and n: "72 * length rows + 128 < 2 ^ 63"
    and wf: "\<forall>r \<in> set rows. wf r" and s: "sorted_wrt (<) (map (ts_of R) rows)"
    and f: "fs (path_join dir (wo_relative_path options)) = Some bytes"
  shows "chunk_stored R wf fs dir (sm_series_id meta) cm rows"
proof -
  obtain h key where im: "chunk_image R rows (max (wo_sparse_index_every options) 1) h bytes"
    and cm: "cm = written_meta options key h (max (wo_sparse_index_every options) 1) bytes"
    and i: "h_series_id h = sm_series_id meta"
    using fixed_build_image(2) [OF b] by blast
  show ?thesis using image_stored [OF im cm wf s n, where fs = fs and dir = dir] f i by simp
qed

end

lemma kline_build_stored:
  assumes b: "kline_build utc meta rows options = Inr (bytes, cm)" and n: "72 * length rows + 128 < 2 ^ 63"
    and f: "fs (path_join dir (wo_relative_path options)) = Some bytes"
  shows "chunk_stored kline_record (\<lambda>_. True) fs dir (sm_series_id meta) cm rows"
proof -
  obtain h key where im: "chunk_image kline_record rows (max (wo_sparse_index_every options) 1) h bytes"
    and cm: "cm = written_meta options key h (max (wo_sparse_index_every options) 1) bytes"
    and i: "h_series_id h = sm_series_id meta"
    using kline_build_image(2) [OF b] by blast
  show ?thesis using kline.image_stored [OF im cm _ _ n, where fs = fs and dir = dir] kline_build_image(1) [OF b] f i by simp
qed

lemma scalar_build_stored:
  assumes b: "scalar_build utc meta rows options = Inr (bytes, cm)" and n: "72 * length rows + 128 < 2 ^ 63"
    and f: "fs (path_join dir (wo_relative_path options)) = Some bytes"
  shows "chunk_stored scalar_record (\<lambda>_. True) fs dir (sm_series_id meta) cm rows"
proof -
  obtain h key where im: "chunk_image scalar_record rows (max (wo_sparse_index_every options) 1) h bytes"
    and cm: "cm = written_meta options key h (max (wo_sparse_index_every options) 1) bytes"
    and i: "h_series_id h = sm_series_id meta"
    using scalar_build_image(2) [OF b] by blast
  show ?thesis using scalar.image_stored [OF im cm _ _ n, where fs = fs and dir = dir] scalar_build_image(1) [OF b] f i by simp
qed

end
