(* ===== verification/ReadPlan.thy ===== *)
theory ReadPlan
  imports ScalarReader
begin

text \<open>
  Planned reads (\<^verbatim>\<open>src/src/store_core/engine/parallel.rs\<close>): when a range is read through
  spans, how spans are cut into tasks and how the tasks are spread over the workers of a pool.
  Each task writes its own part of the result, so the result is the concatenation of the parts
  in order. The locale \<open>planned_read\<close> states what the split relies on, that a part of a span
  reads the part of its rows; it is interpreted for the kline and the scalar reads. Under it,
  the number of workers has no influence on the result.
\<close>

definition PARALLEL_MIN_BYTES :: nat where "PARALLEL_MIN_BYTES = 4 * 1024 * 1024"
definition TASK_BYTES :: nat where "TASK_BYTES = 1024 * 1024"

text \<open>The value outside Windows.\<close>

definition MIN_WORKER_BYTES :: nat where "MIN_WORKER_BYTES = PARALLEL_MIN_BYTES"

text \<open>
  The pool is the number of its threads; building it is rayon's, which may refuse.
\<close>

definition set_read_threads :: "(nat \<Rightarrow> string + unit) \<Rightarrow> nat \<Rightarrow> nat option res" where
  "set_read_threads build threads =
     (if threads = 0 then Inl (InvalidInput ''read threads must be positive'')
      else if threads = 1 then Inr None
      else (case build threads of Inl e \<Rightarrow> Inl (InvalidInput e) | Inr _ \<Rightarrow> Inr (Some threads)))"

definition should_plan_read :: "SeriesMeta \<Rightarrow> ChunkMeta list \<Rightarrow> i64 \<Rightarrow> i64 \<Rightarrow> bool" where
  "should_plan_read meta cs start end =
     (let rows = foldl (\<lambda>sum chunk. saturating_add sum (cm_count chunk)) 0 cs;
          estimate =
            (if sm_timeframe_ms meta > i64_of_int 0 then
               min (bits (i64_saturating_add (i64_div (i64_saturating_sub end start) (sm_timeframe_ms meta)) (i64_of_int 1)))
                 rows
             else rows) in
      saturating_mul estimate (ucast (sm_record_size meta)) \<ge> word_of_nat PARALLEL_MIN_BYTES)"

text \<open>The checked sum of the rows of the spans.\<close>

definition total_rows :: "ReadSpan list \<Rightarrow> nat res" where
  "total_rows spans =
     foldl (\<lambda>total span. and_then total (\<lambda>t.
         if t + rs_rows span < 2 ^ 64 then Inr (t + rs_rows span) else Inl (InvalidData ''read result size overflow'')))
       (Inr 0) spans"

definition read_workers :: "nat option \<Rightarrow> nat \<Rightarrow> nat" where
  "read_workers pool bytes =
     (case pool of
        None \<Rightarrow> 1
      | Some threads \<Rightarrow>
          if bytes \<ge> PARALLEL_MIN_BYTES then min (max (bytes div MIN_WORKER_BYTES) 1) threads else 1)"

text \<open>The tasks of one span, from row \<open>start\<close> on.\<close>

function span_tasks :: "nat \<Rightarrow> ReadSpan \<Rightarrow> nat \<Rightarrow> ReadSpan list res" where
  "span_tasks record_size span start =
     (if start < rs_rows span then
        let count = min (rs_rows span - start) (max (TASK_BYTES div record_size) 1) in
        and_then (ok_or (checked_add (rs_offset span) (word_of_nat (start * record_size)))
          (InvalidData ''read task offset overflow'')) (\<lambda>offset.
        and_then (span_tasks record_size span (start + count)) (\<lambda>tasks.
        Inr (\<lparr>rs_file = rs_file span, rs_offset = offset, rs_rows = count\<rparr> # tasks)))
      else Inr [])"
  by pat_completeness auto
termination
  by (relation "measure (\<lambda>(record_size, span, start). rs_rows span - start)") auto

declare span_tasks.simps [simp del]

definition fill_all :: "(ReadSpan \<Rightarrow> nat \<Rightarrow> 'r list res) \<Rightarrow> ReadSpan list \<Rightarrow> 'r list res" where
  "fill_all fill spans = and_then (collect_res (\<lambda>span. fill span (rs_rows span)) spans) (\<lambda>parts. Inr (concat parts))"

text \<open>A group of tasks stops at its first error; the first group that failed gives the error.\<close>

definition read_spans ::
  "nat option \<Rightarrow> ReadSpan list \<Rightarrow> nat \<Rightarrow> (ReadSpan \<Rightarrow> nat \<Rightarrow> 'r list res) \<Rightarrow> 'r list res" where
  "read_spans pool spans record_size fill =
     and_then (total_rows spans) (\<lambda>rows.
     and_then (ensure (rows * record_size < 2 ^ 64) (InvalidData ''read result byte length overflow'')) (\<lambda>_.
     let workers = read_workers pool (rows * record_size) in
     if workers = 1 then fill_all fill spans
     else
       and_then (collect_res (\<lambda>span. span_tasks record_size span 0) spans) (\<lambda>task_lists.
       let tasks = concat task_lists in
       if pool \<noteq> None \<and> workers > 1 \<and> length tasks > 1 then
         let group_size = (length tasks + workers - 1) div workers in
         and_then (collect_res (fill_all fill) (chunks group_size tasks)) (\<lambda>results. Inr (concat results))
       else fill_all fill tasks)))"

section \<open>Parts of a span\<close>

lemma concat_chunks: "0 < n \<Longrightarrow> concat (chunks n xs) = xs"
  by (induction n xs rule: chunks.induct) (subst chunks.simps, auto)

lemma chunks_exact_nth:
  "0 < k \<Longrightarrow> chunks_exact k xs = map (\<lambda>i. slice_of (i * k) (Suc i * k) xs) [0..<length xs div k]"
proof (induction k xs rule: chunks_exact.induct)
  case (1 k xs)
  show ?case
  proof (cases "length xs < k")
    case True
    then show ?thesis by (subst chunks_exact.simps) simp
  next
    case False
    then have d: "length xs div k = Suc (length (drop k xs) div k)" using "1.prems" by (simp add: div_if)
    have "chunks_exact k xs = take k xs # chunks_exact k (drop k xs)"
      using False "1.prems" by (subst chunks_exact.simps) simp
    also have "chunks_exact k (drop k xs) = map (\<lambda>i. slice_of (Suc i * k) (Suc (Suc i) * k) xs) [0..<length (drop k xs) div k]"
      using "1.IH" "1.prems" False by (simp add: slice_of_def take_drop add.commute add.left_commute)
    also have "take k xs = slice_of (0 * k) (Suc 0 * k) xs" by (simp add: slice_of_def)
    moreover have "[0..<Suc m] = 0 # map Suc [0..<m]" for m by (simp add: upt_conv_Cons map_Suc_upt del: upt_Suc)
    ultimately show ?thesis unfolding d by (simp only: list.map(2) map_map comp_def)
  qed
qed

lemma chunks_exact_slice:
  assumes "0 < k" and "b * k \<le> length xs"
  shows "chunks_exact k (slice_of (a * k) (b * k) xs) = slice_of a b (chunks_exact k xs)"
proof (cases "a \<le> b")
  case True
  have b: "b \<le> length xs div k" using assms by (simp add: less_eq_div_iff_mult_less_eq)
  have "length (slice_of (a * k) (b * k) xs) div k = b - a"
    using assms True by (simp add: min_absorb1 diff_mult_distrib [symmetric])
  then have n: "chunks_exact k (slice_of (a * k) (b * k) xs)
      = map (\<lambda>i. slice_of (i * k) (Suc i * k) (slice_of (a * k) (b * k) xs)) [0..<b - a]"
    by (simp only: chunks_exact_nth [OF assms(1)])
  show ?thesis
  proof (rule nth_equalityI)
    show "length (chunks_exact k (slice_of (a * k) (b * k) xs)) = length (slice_of a b (chunks_exact k xs))"
      unfolding n using b by (simp add: chunks_exact_nth [OF assms(1)] min_absorb1)
    fix i assume "i < length (chunks_exact k (slice_of (a * k) (b * k) xs))"
    then have i: "i < b - a" by (simp add: n)
    then have "Suc (a + i) * k \<le> b * k" by (intro mult_le_mono1) simp
    moreover have "a * k + i * k = (a + i) * k" "a * k + Suc i * k = Suc (a + i) * k" by (simp_all add: add_mult_distrib)
    ultimately have "chunks_exact k (slice_of (a * k) (b * k) xs) ! i = slice_of ((a + i) * k) (Suc (a + i) * k) xs"
      unfolding n using i by (simp del: mult_Suc add: slice_slice min_absorb1)
    then show "chunks_exact k (slice_of (a * k) (b * k) xs) ! i = slice_of a b (chunks_exact k xs) ! i"
      using i b less_le_trans [of "a + i" b] by (simp del: mult_Suc add: chunks_exact_nth [OF assms(1), of xs])
  qed
qed (use assms in \<open>simp add: chunks_exact.simps [of k]\<close>)

locale planned_read =
  fixes size :: nat and fill :: "ReadSpan \<Rightarrow> nat \<Rightarrow> 'r list res"
  assumes size_pos: "0 < size"
    and fill_length: "fill span n = Inr xs \<Longrightarrow> n < 2 ^ 64 \<Longrightarrow> length xs = n"
    and fill_part: "fill span (rs_rows span) = Inr xs \<Longrightarrow> rs_rows span < 2 ^ 64 \<Longrightarrow> length (cf_file (rs_file span)) < 2 ^ 63 \<Longrightarrow>
      a < b \<Longrightarrow> b \<le> rs_rows span \<Longrightarrow>
      unat (rs_offset span) + a * size < 2 ^ 64
      \<and> fill \<lparr>rs_file = rs_file span, rs_offset = rs_offset span + word_of_nat (a * size), rs_rows = b - a\<rparr> (b - a)
        = Inr (slice_of a b xs)"
begin

lemma span_tasks_exact:
  assumes f: "fill span (rs_rows span) = Inr xs" and n: "rs_rows span < 2 ^ 64"
    and len: "length (cf_file (rs_file span)) < 2 ^ 63"
  shows "start \<le> rs_rows span \<Longrightarrow> \<exists>tasks. span_tasks size span start = Inr tasks \<and> fill_all fill tasks = Inr (drop start xs)"
proof (induction "rs_rows span - start" arbitrary: start rule: less_induct)
  case less
  show ?case
  proof (cases "start < rs_rows span")
    case True
    define count where "count = min (rs_rows span - start) (max (TASK_BYTES div size) 1)"
    have c: "0 < count" "start + count \<le> rs_rows span" using True by (auto simp: count_def)
    obtain tasks where t: "span_tasks size span (start + count) = Inr tasks" "fill_all fill tasks = Inr (drop (start + count) xs)"
    proof -
      have "rs_rows span - (start + count) < rs_rows span - start" using c True by linarith
      from less.hyps [OF this c(2)] that show thesis by blast
    qed
    have p: "unat (rs_offset span) + start * size < 2 ^ 64"
      "fill \<lparr>rs_file = rs_file span, rs_offset = rs_offset span + word_of_nat (start * size), rs_rows = count\<rparr> count
        = Inr (slice_of start (start + count) xs)"
      using fill_part [OF f n len, of start "start + count"] c by simp_all
    have "unat (word_of_nat (start * size) :: u64) = start * size" using p(1) by (intro unat_of_nat_u64) linarith
    then have "checked_add (rs_offset span) (word_of_nat (start * size)) = Some (rs_offset span + word_of_nat (start * size))"
      using p(1) by (simp add: checked_add_def)
    then have "span_tasks size span start = Inr (\<lparr>rs_file = rs_file span,
        rs_offset = rs_offset span + word_of_nat (start * size), rs_rows = count\<rparr> # tasks)"
      using True t(1) by (subst span_tasks.simps) (simp only: Let_def count_def [symmetric] if_True ok_or_simps and_then.simps)
    moreover have "slice_of start (start + count) xs @ drop (start + count) xs = drop start xs"
      using append_take_drop_id [of count "drop start xs"] by (simp add: slice_of_def drop_take add.commute)
    ultimately show ?thesis using p(2) t(2) by (auto simp: fill_all_def res_simps)
  next
    case False
    then have "drop start xs = []" using fill_length [OF f n] by simp
    then show ?thesis using False by (subst span_tasks.simps) (simp add: fill_all_def)
  qed
qed

lemma fill_all_append:
  "fill_all fill xs = Inr rs \<Longrightarrow> fill_all fill ys = Inr rs' \<Longrightarrow> fill_all fill (xs @ ys) = Inr (rs @ rs')"
proof -
  have "collect_res f (xs @ ys) = and_then (collect_res f xs) (\<lambda>a. and_then (collect_res f ys) (\<lambda>b. Inr (a @ b)))"
    for f :: "ReadSpan \<Rightarrow> 'r list res"
    by (induction xs) (simp_all add: and_then_assoc, metis and_then.elims and_then.simps)
  then show "fill_all fill xs = Inr rs \<Longrightarrow> fill_all fill ys = Inr rs' \<Longrightarrow> ?thesis"
    by (auto simp: fill_all_def res_simps)
qed

lemma fill_all_groups:
  "fill_all fill (concat groups) = Inr rs \<Longrightarrow>
     \<exists>results. collect_res (fill_all fill) groups = Inr results \<and> concat results = rs"
proof (induction groups arbitrary: rs)
  case (Cons g gs)
  have "\<exists>a b. fill_all fill g = Inr a \<and> fill_all fill (concat gs) = Inr b \<and> rs = a @ b"
    using Cons.prems
    by (induction g arbitrary: rs) (fastforce simp: fill_all_def res_simps)+
  then show ?case using Cons.IH by (fastforce simp: res_simps)
qed (simp add: fill_all_def)

lemma total_rows_exact:
  assumes "sum_list (map rs_rows spans) < 2 ^ 64"
  shows "total_rows spans = Inr (sum_list (map rs_rows spans))"
proof -
  have "foldl (\<lambda>total span. and_then total (\<lambda>t. if t + rs_rows span < 2 ^ 64 then Inr (t + rs_rows span) else Inl e)) (Inr n) spans
      = Inr (n + sum_list (map rs_rows spans))" if "n + sum_list (map rs_rows spans) < 2 ^ 64" for n e
    using that by (induction spans arbitrary: n) (auto simp: add.assoc)
  from this [of 0] assms show ?thesis by (simp add: total_rows_def)
qed

text \<open>The rows of the spans in order, whatever the pool.\<close>

lemma read_spans_exact:
  assumes f: "\<forall>span \<in> set spans. length (cf_file (rs_file span)) < 2 ^ 63 \<and> rs_rows span < 2 ^ 64
      \<and> fill span (rs_rows span) = Inr (rows_of span)"
    and b: "length (concat (map rows_of spans)) * size < 2 ^ 64"
  shows "read_spans pool spans size fill = Inr (concat (map rows_of spans))"
proof -
  have n: "sum_list (map rs_rows spans) = length (concat (map rows_of spans))"
    using f fill_length by (induction spans) auto
  have "sum_list (map rs_rows spans) * 1 \<le> sum_list (map rs_rows spans) * size"
    using size_pos by (intro mult_le_mono2) simp
  then have "sum_list (map rs_rows spans) < 2 ^ 64" using b unfolding n by linarith
  from total_rows_exact [OF this] have t: "total_rows spans = Inr (length (concat (map rows_of spans)))" by (simp only: n)
  have seq: "fill_all fill spans = Inr (concat (map rows_of spans))"
    unfolding fill_all_def using f collect_res_map_Inr [of spans "\<lambda>span. fill span (rs_rows span)" rows_of] by simp
  obtain tl where tl: "collect_res (\<lambda>span. span_tasks size span 0) spans = Inr tl"
      "fill_all fill (concat tl) = Inr (concat (map rows_of spans))"
  proof -
    have "\<exists>tl. collect_res (\<lambda>span. span_tasks size span 0) spans = Inr tl
        \<and> fill_all fill (concat tl) = Inr (concat (map rows_of spans))"
      using f
    proof (induction spans)
      case (Cons span spans)
      obtain ts where "span_tasks size span 0 = Inr ts" "fill_all fill ts = Inr (rows_of span)"
        using span_tasks_exact [of span "rows_of span" 0] Cons.prems by auto
      with Cons show ?case by (auto intro: fill_all_append)
    qed (simp add: fill_all_def)
    with that show thesis by blast
  qed
  define w where "w = read_workers pool (length (concat (map rows_of spans)) * size)"
  define g where "g = (length (concat tl) + w - 1) div w"
  have "\<exists>results. collect_res (fill_all fill) (chunks g (concat tl)) = Inr results
      \<and> concat results = concat (map rows_of spans)" if "1 < w" "1 < length (concat tl)"
  proof (rule fill_all_groups)
    have "0 < g" using that by (simp add: g_def div_greater_zero_iff)
    then show "fill_all fill (concat (chunks g (concat tl))) = Inr (concat (map rows_of spans))"
      using tl(2) by (simp add: concat_chunks)
  qed
  then show ?thesis
    unfolding read_spans_def t and_then.simps using b seq tl
    by (auto simp: Let_def w_def [symmetric] g_def)
qed

end

section \<open>The planned reads of klines and scalars\<close>

lemma read_at_part:
  assumes "read_at file offset (n * k) = Inr bytes" and "length file < 2 ^ 63" and "a < b" and "b \<le> n" and "0 < k"
  shows "unat offset + a * k < 2 ^ 64"
    and "read_at file (offset + word_of_nat (a * k)) ((b - a) * k) = Inr (slice_of (a * k) (b * k) bytes)"
    and "length bytes = n * k"
proof -
  have n: "0 < n * k" and ak: "a * k < b * k" "b * k \<le> n * k" using assms by auto
  then have r: "unat offset + n * k \<le> length file" "bytes = slice_of (unat offset) (unat offset + n * k) file"
    using assms(1) by (auto simp: read_at_def split: if_splits)
  have lim: "unat offset + a * k < 2 ^ 63" using r(1) ak assms(2) by linarith
  then show "unat offset + a * k < 2 ^ 64" by simp
  show "length bytes = n * k" using r by (simp add: min_absorb1)
  have u: "unat (offset + word_of_nat (a * k)) = unat offset + a * k"
  proof -
    have "unat (word_of_nat (a * k) :: u64) = a * k" using lim by (intro unat_of_nat_u64) simp
    then show ?thesis using lim by (subst unat_add_lem [THEN iffD1]) auto
  qed
  have d: "(b - a) * k = b * k - a * k" by (simp add: diff_mult_distrib)
  have "unat offset + a * k + (b * k - a * k) = unat offset + b * k" using ak by simp
  then show "read_at file (offset + word_of_nat (a * k)) ((b - a) * k) = Inr (slice_of (a * k) (b * k) bytes)"
    unfolding read_at_def u d r(2) using ak r(1) le_trans [OF add_left_mono [OF ak(2)] r(1)]
    by (simp add: slice_slice min_absorb1)
qed

text \<open>A read of \<open>n\<close> rows of \<open>k\<close> bytes, decoded one by one, in the form both readers have.\<close>

definition planned_fill :: "nat \<Rightarrow> (u8 list \<Rightarrow> 'r) \<Rightarrow> ReadSpan \<Rightarrow> nat \<Rightarrow> 'r list res" where
  "planned_fill k dec span out_len =
     and_then (ensure (out_len = rs_rows span) (InvalidData ''read destination size mismatch'')) (\<lambda>_.
     and_then (ok_or (checked_mul (word_of_nat out_len :: u64) (word_of_nat k))
       (InvalidData ''read byte length overflow'')) (\<lambda>len.
     and_then (read_at (cf_file (rs_file span)) (rs_offset span) (unat len)) (\<lambda>bytes.
     Inr (map dec (chunks_exact k bytes)))))"

lemma planned_fill_Inr:
  assumes "n < 2 ^ 64" and "0 < k" and "k < 2 ^ 32"
  shows "planned_fill k dec span n = Inr xs \<longleftrightarrow>
    n = rs_rows span \<and> n * k < 2 ^ 64
    \<and> (\<exists>bytes. read_at (cf_file (rs_file span)) (rs_offset span) (n * k) = Inr bytes \<and> xs = map dec (chunks_exact k bytes))"
proof -
  have u: "unat (word_of_nat n :: u64) = n" "unat (word_of_nat k :: u64) = k" using assms by (auto intro!: unat_of_nat_u64)
  have "checked_mul (word_of_nat n :: u64) (word_of_nat k) = (if n * k < 2 ^ 64 then Some (word_of_nat (n * k)) else None)"
    by (simp add: checked_mul_def u)
  moreover have "n * k < 2 ^ 64 \<Longrightarrow> unat (word_of_nat (n * k) :: u64) = n * k" by (rule unat_of_nat_u64)
  ultimately show ?thesis by (auto simp: planned_fill_def res_simps split: if_splits)
qed

lemma planned_fill_reads:
  assumes k: "0 < k" "k < 2 ^ 32"
  shows "planned_read k (planned_fill k dec)"
proof
  fix span and n :: nat and xs :: "'a list"
  assume "planned_fill k dec span n = Inr xs" and "n < 2 ^ 64"
  then obtain bytes where r: "read_at (cf_file (rs_file span)) (rs_offset span) (n * k) = Inr bytes" "xs = map dec (chunks_exact k bytes)"
    using planned_fill_Inr [OF _ k] by blast
  have "length bytes = n * k" using r(1) by (auto simp: read_at_def min_absorb1 split: if_splits)
  then show "length xs = n" using k by (simp add: r(2) chunks_exact_nth)
next
  fix span and a b :: nat and xs :: "'a list"
  assume f: "planned_fill k dec span (rs_rows span) = Inr xs" and n: "rs_rows span < 2 ^ 64"
    and len: "length (cf_file (rs_file span)) < 2 ^ 63" and ab: "a < b" "b \<le> rs_rows span"
  obtain bytes where r: "rs_rows span * k < 2 ^ 64" "read_at (cf_file (rs_file span)) (rs_offset span) (rs_rows span * k) = Inr bytes"
      "xs = map dec (chunks_exact k bytes)"
    using f planned_fill_Inr [OF n k] by blast
  note p = read_at_part [OF r(2) len ab k(1)]
  let ?part = "\<lparr>rs_file = rs_file span, rs_offset = rs_offset span + word_of_nat (a * k), rs_rows = b - a\<rparr>"
  have m: "(b - a) * k \<le> rs_rows span * k" "b * k \<le> rs_rows span * k" using ab by auto
  have "planned_fill k dec ?part (b - a) = Inr (map dec (chunks_exact k (slice_of (a * k) (b * k) bytes)))"
    using ab n le_less_trans [OF m(1) r(1)] p(2) by (subst planned_fill_Inr [OF _ k]) auto
  also have "chunks_exact k (slice_of (a * k) (b * k) bytes) = slice_of a b (chunks_exact k bytes)"
    using m p(3) by (intro chunks_exact_slice k) simp
  finally show "unat (rs_offset span) + a * k < 2 ^ 64 \<and> planned_fill k dec ?part (b - a) = Inr (slice_of a b xs)"
    using p(1) by (simp add: r(3) slice_of_def drop_map take_map)
qed (rule k)

lemma planned_fill_instances:
  "kline_read_planned = planned_fill kline_BYTE_SIZE kline_from_le_bytes"
  "scalar_read_planned = planned_fill scalar_BYTE_SIZE scalar_from_le_bytes"
  by (simp_all add: fun_eq_iff planned_fill_def kline_read_planned_def scalar_read_planned_def)

interpretation kline_spans: planned_read kline_BYTE_SIZE kline_read_planned
  unfolding planned_fill_instances by (rule planned_fill_reads) (simp_all add: kline_BYTE_SIZE_def)

interpretation scalar_spans: planned_read scalar_BYTE_SIZE scalar_read_planned
  unfolding planned_fill_instances by (rule planned_fill_reads) (simp_all add: scalar_BYTE_SIZE_def)

end
