(* ===== verification/ScalarQuery.thy ===== *)
theory ScalarQuery
  imports Records
begin

text \<open>
  Scalar predicates (\<^verbatim>\<open>src/src/feature/query.rs\<close>): the legacy comparison with its optional second
  operand, the full predicate expression, its validation and the conservative test of a value
  range that the zone maps prune with. The test never rules out a range that holds a match, and
  the conversion of a legacy predicate keeps its meaning.
\<close>

datatype CompareOp = Gt | Gte | Lt | Lte | Eq | Between

record ScalarPredicate =
  p_op :: CompareOp
  p_value :: i64
  p_value2 :: "i64 option"

definition predicate_bounds :: "ScalarPredicate \<Rightarrow> (i64 \<times> i64) res" where
  "predicate_bounds p =
     and_then (ok_or (p_value2 p) (InvalidInput ''between predicate requires value2'')) (\<lambda>upper.
     Inr (min (p_value p) upper, max (p_value p) upper))"

definition predicate_matches :: "ScalarPredicate \<Rightarrow> i64 \<Rightarrow> bool res" where
  "predicate_matches p candidate =
     (case p_op p of
        Gt \<Rightarrow> Inr (candidate > p_value p)
      | Gte \<Rightarrow> Inr (candidate \<ge> p_value p)
      | Lt \<Rightarrow> Inr (candidate < p_value p)
      | Lte \<Rightarrow> Inr (candidate \<le> p_value p)
      | Eq \<Rightarrow> Inr (candidate = p_value p)
      | Between \<Rightarrow>
          and_then (predicate_bounds p) (\<lambda>(lower, upper). Inr (candidate \<ge> lower \<and> candidate \<le> upper)))"

definition predicate_is_continuous_range_like :: "ScalarPredicate \<Rightarrow> bool" where
  "predicate_is_continuous_range_like p \<longleftrightarrow> p_op p \<in> {Gt, Gte, Lt, Lte, Between}"

definition predicate_is_discrete_lookup_like :: "ScalarPredicate \<Rightarrow> bool" where
  "predicate_is_discrete_lookup_like p \<longleftrightarrow> p_op p = Eq"

datatype ScalarPredicateExpr =
    ExprEq i64
  | ExprNe i64
  | ExprGt i64
  | ExprGte i64
  | ExprLt i64
  | ExprLte i64
  | ExprBetween i64 i64 bool
  | ExprInSet "i64 list"
  | ExprNotInSet "i64 list"

fun expr_matches :: "ScalarPredicateExpr \<Rightarrow> i64 \<Rightarrow> bool" where
  "expr_matches (ExprEq t) v \<longleftrightarrow> v = t"
| "expr_matches (ExprNe t) v \<longleftrightarrow> v \<noteq> t"
| "expr_matches (ExprGt t) v \<longleftrightarrow> v > t"
| "expr_matches (ExprGte t) v \<longleftrightarrow> v \<ge> t"
| "expr_matches (ExprLt t) v \<longleftrightarrow> v < t"
| "expr_matches (ExprLte t) v \<longleftrightarrow> v \<le> t"
| "expr_matches (ExprBetween lo hi inclusive) v \<longleftrightarrow>
     (if inclusive then v \<ge> lo \<and> v \<le> hi else v > lo \<and> v < hi)"
| "expr_matches (ExprInSet vs) v \<longleftrightarrow> v \<in> set vs"
| "expr_matches (ExprNotInSet vs) v \<longleftrightarrow> v \<notin> set vs"

definition expr_validate :: "ScalarPredicateExpr \<Rightarrow> unit res" where
  "expr_validate p =
     (case p of
        ExprBetween lo hi _ \<Rightarrow> ensure (\<not> lo > hi) (InvalidInput ''between predicate min must be <= max'')
      | _ \<Rightarrow> Inr ())"

fun expr_is_continuous_range_like :: "ScalarPredicateExpr \<Rightarrow> bool" where
  "expr_is_continuous_range_like (ExprGt _) = True"
| "expr_is_continuous_range_like (ExprGte _) = True"
| "expr_is_continuous_range_like (ExprLt _) = True"
| "expr_is_continuous_range_like (ExprLte _) = True"
| "expr_is_continuous_range_like (ExprBetween _ _ _) = True"
| "expr_is_continuous_range_like _ = False"

fun expr_is_discrete_lookup_like :: "ScalarPredicateExpr \<Rightarrow> bool" where
  "expr_is_discrete_lookup_like (ExprEq _) = True"
| "expr_is_discrete_lookup_like (ExprInSet _) = True"
| "expr_is_discrete_lookup_like _ = False"

fun expr_is_impossible :: "ScalarPredicateExpr \<Rightarrow> bool" where
  "expr_is_impossible (ExprInSet vs) \<longleftrightarrow> vs = []"
| "expr_is_impossible _ = False"

fun may_match_value_range :: "ScalarPredicateExpr \<Rightarrow> i64 \<Rightarrow> i64 \<Rightarrow> bool" where
  "may_match_value_range (ExprEq t) lo hi \<longleftrightarrow> lo \<le> t \<and> hi \<ge> t"
| "may_match_value_range (ExprNe t) lo hi \<longleftrightarrow> \<not> (lo = t \<and> hi = t)"
| "may_match_value_range (ExprGt t) lo hi \<longleftrightarrow> hi > t"
| "may_match_value_range (ExprGte t) lo hi \<longleftrightarrow> hi \<ge> t"
| "may_match_value_range (ExprLt t) lo hi \<longleftrightarrow> lo < t"
| "may_match_value_range (ExprLte t) lo hi \<longleftrightarrow> lo \<le> t"
| "may_match_value_range (ExprBetween a b inclusive) lo hi \<longleftrightarrow>
     (if inclusive then hi \<ge> a \<and> lo \<le> b else hi > a \<and> lo < b)"
| "may_match_value_range (ExprInSet vs) lo hi \<longleftrightarrow> list_ex (\<lambda>v. lo \<le> v \<and> hi \<ge> v) vs"
| "may_match_value_range (ExprNotInSet vs) lo hi \<longleftrightarrow> vs = [] \<or> \<not> (lo = hi \<and> lo \<in> set vs)"

definition expr_try_from :: "ScalarPredicate \<Rightarrow> ScalarPredicateExpr res" where
  "expr_try_from p =
     (case p_op p of
        Gt \<Rightarrow> Inr (ExprGt (p_value p))
      | Gte \<Rightarrow> Inr (ExprGte (p_value p))
      | Lt \<Rightarrow> Inr (ExprLt (p_value p))
      | Lte \<Rightarrow> Inr (ExprLte (p_value p))
      | Eq \<Rightarrow> Inr (ExprEq (p_value p))
      | Between \<Rightarrow>
          and_then (ok_or (p_value2 p) (InvalidInput ''between predicate requires value2'')) (\<lambda>hi.
          Inr (ExprBetween (min (p_value p) hi) (max (p_value p) hi) True)))"

record ScalarSeriesKey =
  key_symbol :: string
  key_category :: string
  key_name :: string

record ScalarPredicateQuery =
  q_key :: ScalarSeriesKey
  q_start_ts :: i64
  q_end_ts :: i64
  q_predicate :: ScalarPredicateExpr
  q_return_values :: bool

record ScalarPredicateMatch =
  pm_ts :: i64
  pm_value :: "i64 option"

datatype ScalarIndexKind = ZoneMap | ValueIndex | ZoneMapAndValueIndex | FullScanIndex

record ScalarPredicateQueryStats =
  st_chunks_considered :: u64
  st_chunks_scanned :: u64
  st_chunks_pruned :: u64
  st_blocks_considered :: u64
  st_blocks_scanned :: u64
  st_blocks_pruned :: u64
  st_rows_checked :: u64
  st_rows_matched :: u64
  st_index_used :: "ScalarIndexKind option"
  st_fallback_scan :: bool

definition stats_default :: ScalarPredicateQueryStats where
  "stats_default =
     \<lparr>st_chunks_considered = 0, st_chunks_scanned = 0, st_chunks_pruned = 0, st_blocks_considered = 0,
      st_blocks_scanned = 0, st_blocks_pruned = 0, st_rows_checked = 0, st_rows_matched = 0,
      st_index_used = None, st_fallback_scan = False\<rparr>"

section \<open>Pruning is sound\<close>

lemma may_match_sound:
  "expr_matches p v \<Longrightarrow> lo \<le> v \<Longrightarrow> v \<le> hi \<Longrightarrow> may_match_value_range p lo hi"
  by (cases p) (auto simp: list_ex_iff intro: order.trans order.strict_trans1 order.strict_trans2)

lemma impossible_matches_nothing: "expr_is_impossible p \<Longrightarrow> \<not> expr_matches p v"
  by (cases p) auto

text \<open>A converted legacy predicate is valid and accepts the same values; conversion fails only where matching does.\<close>

lemma expr_try_from_matches:
  "expr_try_from p = Inr e \<Longrightarrow> predicate_matches p v = Inr (expr_matches e v)"
  by (auto simp: expr_try_from_def predicate_matches_def predicate_bounds_def res_simps split: CompareOp.splits)

lemma expr_try_from_valid: "expr_try_from p = Inr e \<Longrightarrow> expr_validate e = Inr ()"
  by (auto simp: expr_try_from_def expr_validate_def res_simps not_less max_def min_def split: CompareOp.splits)

lemma expr_try_from_error:
  "expr_try_from p = Inl x \<longleftrightarrow> predicate_matches p v = Inl x"
  by (cases "p_value2 p") (auto simp: expr_try_from_def predicate_matches_def predicate_bounds_def split: CompareOp.splits)

end
