(* ===== verification/RowRanges.thy ===== *)
theory RowRanges
  imports Prelude
begin

text \<open>
  Inclusive row ranges, as the zone maps produce them and \<open>merge_row_ranges\<close> of
  \<^verbatim>\<open>src/src/store_core/engine/store.rs\<close> joins them. Merging keeps the rows covered and leaves the
  ranges ascending and apart, which is what makes a scan of the ranges equal to a scan of all
  rows whenever every match lies in a covered row.
\<close>

type_synonym row_range = "u32 \<times> u32"

fun merge_loop :: "u32 \<Rightarrow> u32 \<Rightarrow> row_range list \<Rightarrow> row_range list" where
  "merge_loop current_start current_end [] = [(current_start, current_end)]"
| "merge_loop current_start current_end ((s, e) # ranges) =
     (if s \<le> saturating_add current_end 1 then merge_loop current_start (max current_end e) ranges
      else (current_start, current_end) # merge_loop s e ranges)"

definition merge_row_ranges :: "row_range list \<Rightarrow> row_range list" where
  "merge_row_ranges ranges =
     (case sort_key fst ranges of
        [] \<Rightarrow> []
      | (s, e) # rest \<Rightarrow> merge_loop s e rest)"

section \<open>Coverage\<close>

definition covered :: "row_range list \<Rightarrow> nat set" where
  "covered ranges = {i. \<exists>(s, e) \<in> set ranges. unat s \<le> i \<and> i \<le> unat e}"

definition proper :: "row_range list \<Rightarrow> bool" where
  "proper ranges \<longleftrightarrow> (\<forall>(s, e) \<in> set ranges. s \<le> e)"

definition ascending :: "row_range list \<Rightarrow> bool" where
  "ascending ranges \<longleftrightarrow> sorted_wrt (\<lambda>(_, e) (s, _). unat e < unat s) ranges"

lemma covered_simps [simp]: "covered [] = {}" "covered ((s, e) # rs) = {unat s..unat e} \<union> covered rs"
  by (auto simp: covered_def)

lemma proper_simps [simp]: "proper []" "proper ((s, e) # rs) \<longleftrightarrow> s \<le> e \<and> proper rs"
  by (auto simp: proper_def)

lemma covered_set: "set rs = set rs' \<Longrightarrow> covered rs = covered rs'"
  by (simp add: covered_def)

lemma proper_set: "set rs = set rs' \<Longrightarrow> proper rs = proper rs'"
  by (simp add: proper_def)

lemma covered_start: "(\<And>s e. (s, e) \<in> set rs \<Longrightarrow> m \<le> unat s) \<Longrightarrow> i \<in> covered rs \<Longrightarrow> m \<le> i"
  by (fastforce simp: covered_def)

lemma covered_less: "\<forall>(s, e) \<in> set rs. unat e < n \<Longrightarrow> i \<in> covered rs \<Longrightarrow> i < n"
  by (fastforce simp: covered_def)

lemma covered_end: "(s, e) \<in> set rs \<Longrightarrow> s \<le> e \<Longrightarrow> unat e \<in> covered rs"
  by (fastforce simp: covered_def word_le_nat_alt)

lemma unat_max_u32: "unat (max a (b :: u32)) = max (unat a) (unat b)"
  by (simp add: max_def word_le_nat_alt)

lemma saturating_add_one_le: "s \<le> saturating_add e (1 :: u32) \<longleftrightarrow> unat s \<le> Suc (unat e)"
proof -
  have "unat s < 2 ^ 32" using unsigned_less [of s] by simp
  then show ?thesis by (auto simp: word_le_nat_alt unat_saturating_add)
qed

lemma merge_loop_correct:
  assumes "sorted (map fst rs)" and "\<forall>(s, e) \<in> set rs. cs \<le> s" and "cs \<le> ce" and "proper rs"
  shows "covered (merge_loop cs ce rs) = covered ((cs, ce) # rs) \<and> proper (merge_loop cs ce rs)
    \<and> ascending (merge_loop cs ce rs) \<and> (\<forall>(s, e) \<in> set (merge_loop cs ce rs). cs \<le> s)"
  using assms
proof (induction cs ce rs rule: merge_loop.induct)
  case (1 cs ce)
  then show ?case by (simp add: ascending_def)
next
  case (2 cs ce s e rs)
  have se: "unat s \<le> unat e" "unat cs \<le> unat s" "unat cs \<le> unat ce"
    using "2.prems" by (auto simp: word_le_nat_alt)
  have rest: "sorted (map fst rs)" "\<forall>(s', e') \<in> set rs. s \<le> s'" "proper rs"
    using "2.prems" by auto
  show ?case
  proof (cases "s \<le> saturating_add ce 1")
    case True
    then have touch: "unat s \<le> Suc (unat ce)" by (simp add: saturating_add_one_le)
    have cs: "\<forall>(s', e') \<in> set rs. cs \<le> s'" "cs \<le> max ce e"
      using "2.prems" rest(2) by (auto simp: le_max_iff_disj)
    have "{unat cs..unat (max ce e)} = {unat cs..unat ce} \<union> {unat s..unat e}"
      using touch se by (auto simp: unat_max_u32)
    then show ?thesis using "2.IH"(1) [OF True rest(1) cs rest(3)] True by auto
  next
    case False
    then have gap: "unat ce < unat s" by (simp add: saturating_add_one_le)
    note IH = "2.IH"(2) [OF False rest(1,2) _ rest(3)]
    have "\<forall>(s', e') \<in> set (merge_loop s e rs). unat ce < unat s'"
      using IH "2.prems"(4) gap by (fastforce simp: word_le_nat_alt)
    moreover have "\<forall>(s', e') \<in> set (merge_loop s e rs). cs \<le> s'"
      using IH "2.prems"(4) se by (fastforce simp: word_le_nat_alt)
    ultimately show ?thesis using False IH "2.prems"(3,4) by (auto simp: ascending_def)
  qed
qed

lemma merge_row_ranges_correct:
  assumes "proper ranges"
  shows "covered (merge_row_ranges ranges) = covered ranges" and "proper (merge_row_ranges ranges)"
    and "ascending (merge_row_ranges ranges)"
proof -
  have "covered (merge_row_ranges ranges) = covered ranges \<and> proper (merge_row_ranges ranges)
      \<and> ascending (merge_row_ranges ranges)"
  proof (cases "sort_key fst ranges")
    case Nil
    then have "ranges = []" by (metis length_0_conv length_sort)
    then show ?thesis by (simp add: merge_row_ranges_def ascending_def)
  next
    case (Cons r rs)
    obtain s e where r: "r = (s, e)" by (cases r)
    have st: "set ((s, e) # rs) = set ranges" using Cons r by (metis set_sort)
    have so: "sorted (map fst ((s, e) # rs))" using Cons r by (metis sorted_sort_key)
    have pr: "proper ((s, e) # rs)" using assms proper_set [OF st] by simp
    have "\<forall>(s', e') \<in> set rs. s \<le> s'" using so by auto
    from merge_loop_correct [OF _ this, of e] so pr
    show ?thesis using Cons r covered_set [OF st] by (simp add: merge_row_ranges_def)
  qed
  then show "covered (merge_row_ranges ranges) = covered ranges" and "proper (merge_row_ranges ranges)"
    and "ascending (merge_row_ranges ranges)" by simp_all
qed

section \<open>Scanning ranges\<close>

definition range_rows :: "'a list \<Rightarrow> row_range list \<Rightarrow> 'a list" where
  "range_rows rows ranges = concat (map (\<lambda>(s, e). slice_of (unat s) (Suc (unat e)) rows) ranges)"

lemma filter_none_slice: "(\<And>i. a \<le> i \<Longrightarrow> i < b \<Longrightarrow> i < length rows \<Longrightarrow> \<not> P (rows ! i)) \<Longrightarrow> filter P (slice_of a b rows) = []"
  by (auto simp: filter_empty_conv set_slice)

lemma filter_range_rows_from:
  assumes "ascending ranges" and "proper ranges"
    and "\<forall>(s, e) \<in> set ranges. o' \<le> unat s \<and> unat e < length rows"
    and "\<And>i. o' \<le> i \<Longrightarrow> i < length rows \<Longrightarrow> P (rows ! i) \<Longrightarrow> i \<in> covered ranges"
  shows "filter P (range_rows rows ranges) = filter P (slice_of o' (length rows) rows)"
  using assms
proof (induction ranges arbitrary: o')
  case Nil
  then have "filter P (slice_of o' (length rows) rows) = []" by (intro filter_none_slice) auto
  then show ?case by (simp add: range_rows_def)
next
  case (Cons r ranges)
  obtain s e where r: "r = (s, e)" by (cases r)
  let ?s = "unat s" and ?e = "Suc (unat e)"
  have se: "o' \<le> ?s" "?s \<le> ?e" "?e \<le> length rows" using Cons.prems(2,3) by (auto simp: r word_le_nat_alt)
  have later: "(s', e') \<in> set ranges \<Longrightarrow> ?e \<le> unat s'" for s' e'
    using Cons.prems(1) by (fastforce simp: r ascending_def)
  have split: "slice_of o' (length rows) rows = slice_of o' ?s rows @ slice_of ?s ?e rows @ slice_of ?e (length rows) rows"
    using se by (simp add: slice_append)
  have "i \<notin> covered (r # ranges)" if "o' \<le> i" "i < ?s" for i
    using that covered_start [of ranges ?e i] later se(2) by (fastforce simp: r)
  then have none: "filter P (slice_of o' ?s rows) = []"
    using Cons.prems(4) by (intro filter_none_slice) blast
  have "filter P (range_rows rows ranges) = filter P (slice_of ?e (length rows) rows)"
  proof (rule Cons.IH)
    show "ascending ranges" "proper ranges" using Cons.prems(1,2) by (auto simp: r ascending_def)
    show "\<forall>(s, e') \<in> set ranges. ?e \<le> unat s \<and> unat e' < length rows" using later Cons.prems(3) by auto
    show "i \<in> covered ranges" if "?e \<le> i" "i < length rows" "P (rows ! i)" for i
      using Cons.prems(4) [of i] that se by (auto simp: r)
  qed
  then show ?case using none unfolding split by (simp add: r range_rows_def)
qed

text \<open>Ascending ranges that cover every match lose none and find none twice.\<close>

lemma filter_range_rows:
  assumes "ascending ranges" and "proper ranges" and "\<forall>(s, e) \<in> set ranges. unat e < length rows"
    and "\<And>i. i < length rows \<Longrightarrow> P (rows ! i) \<Longrightarrow> i \<in> covered ranges"
  shows "filter P (range_rows rows ranges) = filter P rows"
  using filter_range_rows_from [of ranges 0 rows P] assms by auto

end
