(* ===== verification/ZoneMap.thy ===== *)
theory ZoneMap
  imports ScalarQuery RowRanges FileIO
begin

text \<open>
  Zone maps (\<^verbatim>\<open>src/src/store_core/index/zmap.rs\<close>): one summary per block of rows, its file, the row
  ranges that a predicate cannot rule out, and the query that scans them. A query through the
  zone map returns exactly the timestamps of a scan of all rows.
\<close>

record ZoneMapEntry =
  z_start_row :: u32
  z_end_row :: u32
  z_start_ts :: i64
  z_end_ts :: i64
  z_min_value :: i64
  z_max_value :: i64

definition zmap_BYTE_SIZE :: nat where "zmap_BYTE_SIZE = 40"

definition zmap_to_le_bytes :: "ZoneMapEntry \<Rightarrow> u8 list" where
  "zmap_to_le_bytes e =
     le_bytes 4 (z_start_row e) @ le_bytes 4 (z_end_row e) @ i64_le_bytes (z_start_ts e)
     @ i64_le_bytes (z_end_ts e) @ i64_le_bytes (z_min_value e) @ i64_le_bytes (z_max_value e)"

definition zmap_from_le_bytes :: "u8 list \<Rightarrow> ZoneMapEntry" where
  "zmap_from_le_bytes bytes =
     \<lparr>z_start_row = le_word (slice_of 0 4 bytes), z_end_row = le_word (slice_of 4 8 bytes),
      z_start_ts = i64_of_le_bytes (slice_of 8 16 bytes), z_end_ts = i64_of_le_bytes (slice_of 16 24 bytes),
      z_min_value = i64_of_le_bytes (slice_of 24 32 bytes), z_max_value = i64_of_le_bytes (slice_of 32 40 bytes)\<rparr>"

definition zmap_entry :: "nat \<Rightarrow> nat \<Rightarrow> ScalarRecord list \<Rightarrow> ZoneMapEntry" where
  "zmap_entry block_size block_idx block =
     (let start_row = word_of_nat (block_idx * block_size) :: u32 in
      \<lparr>z_start_row = start_row,
       z_end_row = start_row + word_of_nat (length block) - 1,
       z_start_ts = s_ts (block ! 0),
       z_end_ts = s_ts (block ! (length block - 1)),
       z_min_value = foldl (\<lambda>m r. min m (s_value r)) i64_max block,
       z_max_value = foldl (\<lambda>m r. max m (s_value r)) i64_min block\<rparr>)"

definition zmap_build_entries :: "ScalarRecord list \<Rightarrow> nat \<Rightarrow> ZoneMapEntry list res" where
  "zmap_build_entries records block_size =
     and_then (ensure (block_size \<noteq> 0) (InvalidInput ''zone-map block_size must be greater than zero'')) (\<lambda>_.
     if records = [] then Inr []
     else
       and_then (scalar_validate_strict_order records) (\<lambda>_.
       and_then (ensure (\<not> length records > 2 ^ 32 - 1)
         (InvalidInput ''zone-map supports at most u32::MAX rows per record slice'')) (\<lambda>_.
       Inr (map (\<lambda>(block_idx, block). zmap_entry block_size block_idx block)
         (enumerate 0 (chunks block_size records))))))"

definition zmap_encode_entries :: "ZoneMapEntry list \<Rightarrow> u8 list" where
  "zmap_encode_entries entries = concat (map zmap_to_le_bytes entries)"

definition zmap_write_entries ::
  "os_outcome \<Rightarrow> path \<Rightarrow> ZoneMapEntry list \<Rightarrow> fs_state \<Rightarrow> fs_state list \<times> unit res" where
  "zmap_write_entries os p entries s = atomic_write_replace os p (zmap_encode_entries entries, None) s"

definition zmap_read_entries_checked :: "(path \<rightharpoonup> u8 list) \<Rightarrow> path \<Rightarrow> u64 \<Rightarrow> ZoneMapEntry list res" where
  "zmap_read_entries_checked fs p checksum =
     and_then (ok_or (fs p) (Io NotFoundKind)) (\<lambda>bytes.
     and_then (ensure (\<not> (checksum \<noteq> 0 \<and> checksum64 bytes \<noteq> checksum))
       (InvalidData ''sidecar checksum mismatch'')) (\<lambda>_.
     and_then (ensure (length bytes mod zmap_BYTE_SIZE = 0) (InvalidData ''invalid zmap byte length'')) (\<lambda>_.
     Inr (map zmap_from_le_bytes (chunks_exact zmap_BYTE_SIZE bytes)))))"

definition zmap_read_entries :: "(path \<rightharpoonup> u8 list) \<Rightarrow> path \<Rightarrow> ZoneMapEntry list res" where
  "zmap_read_entries fs p = zmap_read_entries_checked fs p 0"

definition entry_may_match :: "ZoneMapEntry \<Rightarrow> ScalarPredicate \<Rightarrow> bool res" where
  "entry_may_match entry p =
     (case p_op p of
        Gt \<Rightarrow> Inr (z_max_value entry > p_value p)
      | Gte \<Rightarrow> Inr (z_max_value entry \<ge> p_value p)
      | Lt \<Rightarrow> Inr (z_min_value entry < p_value p)
      | Lte \<Rightarrow> Inr (z_min_value entry \<le> p_value p)
      | Eq \<Rightarrow> Inr (z_min_value entry \<le> p_value p \<and> z_max_value entry \<ge> p_value p)
      | Between \<Rightarrow>
          and_then (predicate_bounds p) (\<lambda>(lower, upper).
          Inr (z_max_value entry \<ge> lower \<and> z_min_value entry \<le> upper)))"

fun candidate_row_ranges ::
  "ZoneMapEntry list \<Rightarrow> ScalarPredicate \<Rightarrow> i64 \<Rightarrow> i64 \<Rightarrow> row_range list res" where
  "candidate_row_ranges [] p start_ts end_ts = Inr []"
| "candidate_row_ranges (entry # entries) p start_ts end_ts =
     (if z_end_ts entry < start_ts \<or> z_start_ts entry > end_ts
      then candidate_row_ranges entries p start_ts end_ts
      else
        and_then (entry_may_match entry p) (\<lambda>may.
        and_then (candidate_row_ranges entries p start_ts end_ts) (\<lambda>ranges.
        Inr (if may then (z_start_row entry, z_end_row entry) # ranges else ranges))))"

definition candidate_row_ranges_for_expr ::
  "ZoneMapEntry list \<Rightarrow> ScalarPredicateExpr \<Rightarrow> i64 \<Rightarrow> i64 \<Rightarrow> row_range list res" where
  "candidate_row_ranges_for_expr entries p start_ts end_ts =
     and_then (expr_validate p) (\<lambda>_.
     Inr (map (\<lambda>e. (z_start_row e, z_end_row e))
       (filter (\<lambda>e. \<not> (z_end_ts e < start_ts \<or> z_start_ts e > end_ts)
          \<and> may_match_value_range p (z_min_value e) (z_max_value e)) entries)))"

text \<open>The scan of rows that the queries share: the predicate is evaluated inside the window only.\<close>

fun push_matching ::
  "ScalarPredicate \<Rightarrow> i64 \<Rightarrow> i64 \<Rightarrow> ScalarRecord list \<Rightarrow> i64 list \<Rightarrow> i64 list res" where
  "push_matching p start_ts end_ts [] timestamps = Inr timestamps"
| "push_matching p start_ts end_ts (r # rs) timestamps =
     (if s_ts r \<ge> start_ts \<and> s_ts r \<le> end_ts then
        and_then (predicate_matches p (s_value r)) (\<lambda>m.
        push_matching p start_ts end_ts rs (if m then timestamps @ [s_ts r] else timestamps))
      else push_matching p start_ts end_ts rs timestamps)"

fun zmap_scan ::
  "ScalarRecord list \<Rightarrow> ScalarPredicate \<Rightarrow> i64 \<Rightarrow> i64 \<Rightarrow> row_range list \<Rightarrow> i64 list \<Rightarrow> i64 list res" where
  "zmap_scan records p start_ts end_ts [] timestamps = Inr timestamps"
| "zmap_scan records p start_ts end_ts ((s, e) # ranges) timestamps =
     (let start = unat s; end = unat e in
      if end \<ge> length records then Inl (InvalidData ''zone-map row exceeds record length'')
      else if start > end + 1 then Inl (Panic ''slice index starts after it ends'')
      else
        and_then (push_matching p start_ts end_ts (slice_of start (end + 1) records) timestamps)
          (zmap_scan records p start_ts end_ts ranges))"

text \<open>\<open>sort_unstable\<close> and \<open>dedup\<close> of timestamps: equal integers are indistinguishable.\<close>

definition sort_dedup :: "i64 list \<Rightarrow> i64 list" where
  "sort_dedup ts = remdups_adj (sort ts)"

definition zmap_find_timestamps ::
  "ZoneMapEntry list \<Rightarrow> ScalarRecord list \<Rightarrow> ScalarPredicate \<Rightarrow> i64 \<Rightarrow> i64 \<Rightarrow> i64 list res" where
  "zmap_find_timestamps entries records p start_ts end_ts =
     (if start_ts > end_ts \<or> entries = [] \<or> records = [] then Inr []
      else
        and_then (candidate_row_ranges entries p start_ts end_ts) (\<lambda>row_ranges.
        and_then (zmap_scan records p start_ts end_ts row_ranges []) (\<lambda>timestamps.
        Inr (sort_dedup timestamps))))"

section \<open>Round trip of the sidecar file\<close>

lemma zmap_entry_codec [simp, codec_simps]:
  "length (zmap_to_le_bytes e) = 40" "zmap_from_le_bytes (zmap_to_le_bytes e) = e"
  by (simp_all add: zmap_to_le_bytes_def zmap_from_le_bytes_def slice_of_def)

lemma zmap_read_encoded:
  assumes "fs p = Some (zmap_encode_entries entries)" and "checksum = 0 \<or> checksum = checksum64 (zmap_encode_entries entries)"
  shows "zmap_read_entries_checked fs p checksum = Inr entries"
proof -
  have c: "chunks_exact 40 (zmap_encode_entries entries) = map zmap_to_le_bytes entries"
    unfolding zmap_encode_entries_def by (rule chunks_exact_concat) simp_all
  have "length (zmap_encode_entries entries) = 40 * length entries"
    unfolding zmap_encode_entries_def by (rule length_concat_map_const) simp
  with assms c show ?thesis by (auto simp: zmap_read_entries_checked_def zmap_BYTE_SIZE_def comp_def)
qed

section \<open>What an entry summarises\<close>

text \<open>The entry that belongs to the rows from \<open>a\<close> up to \<open>b\<close>.\<close>

definition summarises :: "ScalarRecord list \<Rightarrow> ZoneMapEntry \<Rightarrow> nat \<Rightarrow> nat \<Rightarrow> bool" where
  "summarises records e a b \<longleftrightarrow>
     a < b \<and> b \<le> length records \<and> unat (z_start_row e) = a \<and> unat (z_end_row e) = b - 1
     \<and> (\<forall>i. a \<le> i \<and> i < b \<longrightarrow> z_start_ts e \<le> s_ts (records ! i) \<and> s_ts (records ! i) \<le> z_end_ts e
          \<and> z_min_value e \<le> s_value (records ! i) \<and> s_value (records ! i) \<le> z_max_value e)"

text \<open>Entries that tile the rows from \<open>a\<close> to the end.\<close>

fun tiles :: "ScalarRecord list \<Rightarrow> nat \<Rightarrow> ZoneMapEntry list \<Rightarrow> bool" where
  "tiles records a [] \<longleftrightarrow> a = length records"
| "tiles records a (e # es) \<longleftrightarrow> (\<exists>b. summarises records e a b \<and> tiles records b es)"

lemma foldl_min_le: "foldl (\<lambda>m r. min m (f r)) m0 xs \<le> (m0 :: i64) \<and> (\<forall>x \<in> set xs. foldl (\<lambda>m r. min m (f r)) m0 xs \<le> f x)"
  by (induction xs rule: rev_induct) (auto simp: min_le_iff_disj)

lemma foldl_max_ge: "(m0 :: i64) \<le> foldl (\<lambda>m r. max m (f r)) m0 xs \<and> (\<forall>x \<in> set xs. f x \<le> foldl (\<lambda>m r. max m (f r)) m0 xs)"
  by (induction xs rule: rev_induct) (auto simp: le_max_iff_disj)

lemma unat_of_nat_u32: "m < 2 ^ 32 \<Longrightarrow> unat (word_of_nat m :: u32) = m"
  by (simp add: unsigned_of_nat take_bit_nat_eq_self)

lemma zmap_entry_summarises:
  assumes s: "sorted (map s_ts records)" and n: "length records < 2 ^ 32"
    and block: "block = slice_of (k * n) b records" and b: "k * n < b" "b \<le> length records"
  shows "summarises records (zmap_entry n k block) (k * n) b"
proof -
  let ?e = "zmap_entry n k block" and ?a = "k * n"
  have len: "length block = b - ?a" using block b by simp
  have nth: "records ! i \<in> set block" "?a \<le> i" "i \<le> b - 1" if "?a \<le> i" "i < b" for i
    using that b by (auto simp: block set_slice)
  have u: "unat (word_of_nat ?a :: u32) = ?a" using b n by (intro unat_of_nat_u32) linarith
  have "word_of_nat ?a + word_of_nat (length block) - (1 :: u32) = word_of_nat (b - 1)"
    using b unfolding len by (simp add: of_nat_diff)
  moreover have "unat (word_of_nat (b - 1) :: u32) = b - 1"
    using b n by (intro unat_of_nat_u32) simp
  ultimately have rows: "unat (z_start_row ?e) = ?a" "unat (z_end_row ?e) = b - 1"
    using u by (simp_all only: zmap_entry_def Let_def ZoneMapEntry.simps)
  have ends: "block ! 0 = records ! ?a" "block ! (length block - 1) = records ! (b - 1)"
    unfolding len using b by (simp_all add: block)
  have "z_start_ts ?e \<le> s_ts (records ! i) \<and> s_ts (records ! i) \<le> z_end_ts ?e" if "?a \<le> i" "i < b" for i
    using that b sorted_nth_mono [OF s, of ?a i] sorted_nth_mono [OF s, of i "b - 1"]
    by (simp add: zmap_entry_def Let_def ends del: One_nat_def)
  moreover have "z_min_value ?e \<le> s_value (records ! i) \<and> s_value (records ! i) \<le> z_max_value ?e" if "?a \<le> i" "i < b" for i
    using foldl_min_le [of s_value i64_max block] foldl_max_ge [of i64_min s_value block] nth(1) [OF that]
    by (simp add: zmap_entry_def Let_def)
  ultimately show ?thesis using rows b by (auto simp: summarises_def)
qed

lemma drop_slice: "drop a xs = slice_of a (length xs) xs"
  by (simp add: slice_of_def)

lemma zmap_blocks_tile:
  assumes s: "sorted (map s_ts records)" and n: "length records < 2 ^ 32" and pos: "0 < n"
  shows "k * n \<le> length records \<Longrightarrow>
    tiles records (k * n) (map (\<lambda>(i, block). zmap_entry n i block) (enumerate k (chunks n (drop (k * n) records))))"
proof (induction "length records - k * n" arbitrary: k rule: less_induct)
  case less
  show ?case
  proof (cases "k * n = length records")
    case True
    then show ?thesis by (simp add: chunks.simps [of n])
  next
    case False
    with less.prems have lt: "k * n < length records" by simp
    let ?b = "min (Suc k * n) (length records)"
    have hd: "take n (drop (k * n) records) = slice_of (k * n) ?b records"
      by (simp add: slice_of_def take_drop add.commute min_def)
    have c: "chunks n (drop (k * n) records) = slice_of (k * n) ?b records # chunks n (drop (Suc k * n) records)"
      using lt pos hd by (simp add: chunks.simps [of n "drop (k * n) records"] add.commute)
    have sm: "summarises records (zmap_entry n k (slice_of (k * n) ?b records)) (k * n) ?b"
      using lt pos by (intro zmap_entry_summarises [OF s n refl]) simp_all
    show ?thesis
    proof (cases "Suc k * n \<le> length records")
      case True
      have "tiles records (Suc k * n)
          (map (\<lambda>(i, block). zmap_entry n i block) (enumerate (Suc k) (chunks n (drop (Suc k * n) records))))"
        using less.hyps [of "Suc k"] True lt pos by simp
      moreover have "?b = Suc k * n" using True by simp
      ultimately show ?thesis using sm unfolding c by (simp only: enumerate_simps list.map prod.case tiles.simps) blast
    next
      case F: False
      then have "chunks n (drop (Suc k * n) records) = []" "?b = length records" by (simp_all add: chunks.simps [of n])
      then show ?thesis using sm unfolding c by auto
    qed
  qed
qed

lemma zmap_build_tiles:
  assumes "zmap_build_entries records n = Inr entries"
  shows "tiles records 0 entries" and "sorted_wrt (<) (map s_ts records)"
proof -
  have "tiles records 0 entries \<and> sorted_wrt (<) (map s_ts records)"
  proof (cases "records = []")
    case True
    then show ?thesis using assms by (simp add: zmap_build_entries_def res_simps)
  next
    case False
    then have b: "0 < n" "sorted_wrt (<) (map s_ts records)" "length records < 2 ^ 32"
      and e: "entries = map (\<lambda>(i, block). zmap_entry n i block) (enumerate 0 (chunks n records))"
      using assms by (auto simp: zmap_build_entries_def res_simps scalar_validate_strict_order_iff)
    show ?thesis using zmap_blocks_tile [OF strict_sorted_imp_sorted [OF b(2)] b(3,1), of 0] b(2) e by simp
  qed
  then show "tiles records 0 entries" and "sorted_wrt (<) (map s_ts records)" by simp_all
qed

section \<open>Candidate ranges cover every match\<close>

text \<open>A row that a query asks for.\<close>

definition hit :: "ScalarPredicateExpr \<Rightarrow> i64 \<Rightarrow> i64 \<Rightarrow> ScalarRecord \<Rightarrow> bool" where
  "hit p start_ts end_ts r \<longleftrightarrow> start_ts \<le> s_ts r \<and> s_ts r \<le> end_ts \<and> expr_matches p (s_value r)"

abbreviation selected :: "ScalarPredicateExpr \<Rightarrow> i64 \<Rightarrow> i64 \<Rightarrow> ZoneMapEntry \<Rightarrow> bool" where
  "selected p start_ts end_ts e \<equiv>
     \<not> (z_end_ts e < start_ts \<or> z_start_ts e > end_ts) \<and> may_match_value_range p (z_min_value e) (z_max_value e)"

lemma hit_selected:
  assumes "summarises records e a b" and "a \<le> i" and "i < b" and "hit p start_ts end_ts (records ! i)"
  shows "selected p start_ts end_ts e"
proof -
  have "z_start_ts e \<le> s_ts (records ! i)" "s_ts (records ! i) \<le> z_end_ts e"
    "z_min_value e \<le> s_value (records ! i)" "s_value (records ! i) \<le> z_max_value e"
    using assms(1-3) by (auto simp: summarises_def)
  with assms(4) show ?thesis by (auto simp: hit_def may_match_sound i64_ord)
qed

lemma tiles_candidates:
  assumes "tiles records a entries"
    and "ranges = map (\<lambda>e. (z_start_row e, z_end_row e)) (filter (selected p start_ts end_ts) entries)"
  shows "proper ranges \<and> ascending ranges \<and> (\<forall>(s, e) \<in> set ranges. a \<le> unat s \<and> unat e < length records)
    \<and> (\<forall>i. a \<le> i \<and> i < length records \<and> hit p start_ts end_ts (records ! i) \<longrightarrow> i \<in> covered ranges)"
  using assms
proof (induction entries arbitrary: a ranges)
  case Nil
  then show ?case by (simp add: ascending_def)
next
  case (Cons e es)
  then obtain b where sm: "summarises records e a b" and tl: "tiles records b es" by auto
  define rest where "rest = map (\<lambda>e. (z_start_row e, z_end_row e)) (filter (selected p start_ts end_ts) es)"
  note IH = Cons.IH [OF tl rest_def]
  have row: "unat (z_start_row e) = a" "unat (z_end_row e) = b - 1" "a < b" "b \<le> length records"
    using sm by (auto simp: summarises_def)
  have hits: "i \<in> covered rest" if "b \<le> i" "i < length records" "hit p start_ts end_ts (records ! i)" for i
    using IH that by blast
  show ?case
  proof (cases "selected p start_ts end_ts e")
    case True
    then have r: "ranges = (z_start_row e, z_end_row e) # rest" using Cons.prems(2) by (simp add: rest_def)
    have "i \<in> covered ranges" if "a \<le> i" "i < length records" "hit p start_ts end_ts (records ! i)" for i
      using hits [OF _ that(2,3)] that(1) row by (cases "i < b") (auto simp: r)
    then show ?thesis using IH row by (fastforce simp: r ascending_def word_le_nat_alt)
  next
    case False
    then have r: "ranges = rest" using Cons.prems(2) by (auto simp: rest_def)
    have "i \<in> covered ranges" if "a \<le> i" "i < length records" "hit p start_ts end_ts (records ! i)" for i
      using hits [OF _ that(2,3)] that hit_selected [OF sm, of i p start_ts end_ts] False r by (cases "i < b") auto
    then show ?thesis using IH row r by fastforce
  qed
qed

lemma candidate_rows:
  assumes "tiles records 0 entries" and "candidate_row_ranges_for_expr entries p start_ts end_ts = Inr ranges"
  shows "filter (hit p start_ts end_ts) (range_rows records ranges) = filter (hit p start_ts end_ts) records"
    and "filter (hit p start_ts end_ts) (range_rows records (merge_row_ranges ranges)) = filter (hit p start_ts end_ts) records"
    and "proper ranges" and "\<forall>(s, e) \<in> set ranges. unat e < length records"
    and "\<forall>(s, e) \<in> set (merge_row_ranges ranges). s \<le> e \<and> unat e < length records"
proof -
  have r: "ranges = map (\<lambda>e. (z_start_row e, z_end_row e)) (filter (selected p start_ts end_ts) entries)"
    using assms(2) by (simp add: candidate_row_ranges_for_expr_def res_simps)
  note c = tiles_candidates [OF assms(1) r]
  then have pr: "proper ranges" and asc: "ascending ranges"
    and bound: "\<forall>(s, e) \<in> set ranges. unat e < length records"
    and cov: "\<And>i. i < length records \<Longrightarrow> hit p start_ts end_ts (records ! i) \<Longrightarrow> i \<in> covered ranges" by auto
  note m = merge_row_ranges_correct [OF pr]
  have mb: "\<forall>(s, e) \<in> set (merge_row_ranges ranges). s \<le> e \<and> unat e < length records"
  proof (clarify, intro conjI)
    fix s e assume se: "(s, e) \<in> set (merge_row_ranges ranges)"
    then show "s \<le> e" using m(2) by (auto simp: proper_def)
    then show "unat e < length records" using covered_end [OF se] m(1) covered_less [OF bound] by simp
  qed
  show "filter (hit p start_ts end_ts) (range_rows records ranges) = filter (hit p start_ts end_ts) records"
    by (rule filter_range_rows [OF asc pr bound cov])
  show "filter (hit p start_ts end_ts) (range_rows records (merge_row_ranges ranges)) = filter (hit p start_ts end_ts) records"
    using cov mb m(1) by (intro filter_range_rows [OF m(3,2)]) auto
  show "proper ranges" "\<forall>(s, e) \<in> set ranges. unat e < length records" using pr bound by simp_all
  show "\<forall>(s, e) \<in> set (merge_row_ranges ranges). s \<le> e \<and> unat e < length records" by (rule mb)
qed

section \<open>The query equals the scan of all rows\<close>

lemma entry_may_match_expr:
  "expr_try_from p = Inr ex \<Longrightarrow> entry_may_match e p = Inr (may_match_value_range ex (z_min_value e) (z_max_value e))"
  by (auto simp: expr_try_from_def entry_may_match_def predicate_bounds_def res_simps split: CompareOp.splits)

lemma candidate_row_ranges_expr:
  assumes "expr_try_from p = Inr ex"
  shows "candidate_row_ranges entries p start_ts end_ts = candidate_row_ranges_for_expr entries ex start_ts end_ts"
proof (induction entries)
  case Nil
  then show ?case by (simp add: candidate_row_ranges_for_expr_def expr_try_from_valid [OF assms])
next
  case (Cons e es)
  then show ?case
    by (auto simp: candidate_row_ranges_for_expr_def expr_try_from_valid [OF assms] entry_may_match_expr [OF assms])
qed

lemma push_matching_eq:
  assumes "expr_try_from p = Inr ex"
  shows "push_matching p start_ts end_ts rs ts = Inr (ts @ map s_ts (filter (hit ex start_ts end_ts) rs))"
  by (induction rs arbitrary: ts) (auto simp: hit_def expr_try_from_matches [OF assms])

lemma zmap_scan_eq:
  assumes "expr_try_from p = Inr ex" and "proper ranges" and "\<forall>(s, e) \<in> set ranges. unat e < length records"
  shows "zmap_scan records p start_ts end_ts ranges ts
    = Inr (ts @ map s_ts (filter (hit ex start_ts end_ts) (range_rows records ranges)))"
  using assms(2,3)
proof (induction ranges arbitrary: ts)
  case Nil
  then show ?case by (simp add: range_rows_def)
next
  case (Cons r ranges)
  obtain s e where r: "r = (s, e)" by (cases r)
  have "unat s \<le> unat e" "unat e < length records" using Cons.prems by (auto simp: r word_le_nat_alt)
  moreover have "proper ranges" "\<forall>(s, e) \<in> set ranges. unat e < length records" using Cons.prems by (simp_all add: r)
  note Cons.IH [OF this]
  ultimately show ?case by (simp add: r push_matching_eq [OF assms(1)] range_rows_def)
qed

lemma remdups_adj_distinct: "distinct xs \<Longrightarrow> remdups_adj xs = xs"
  by (induction xs rule: remdups_adj.induct) auto

lemma sort_dedup_strict: "sorted_wrt (<) ts \<Longrightarrow> sort_dedup ts = ts"
  by (simp add: sort_dedup_def strict_sorted_iff sort_key_id_if_sorted [of "\<lambda>x. x"] remdups_adj_distinct)

lemma strict_filter: "sorted_wrt (<) (map f xs) \<Longrightarrow> sorted_wrt (<) (map f (filter P xs))"
  by (induction xs) auto

lemma zmap_find_exact:
  assumes b: "zmap_build_entries records n = Inr entries" and p: "expr_try_from p = Inr ex"
  shows "zmap_find_timestamps entries records p start_ts end_ts
    = Inr (map s_ts (filter (hit ex start_ts end_ts) records))"
proof (cases "start_ts > end_ts \<or> entries = [] \<or> records = []")
  case True
  then have "filter (hit ex start_ts end_ts) records = []"
    using zmap_build_tiles(1) [OF b] by (auto simp: filter_empty_conv hit_def i64_ord)
  with True show ?thesis by (auto simp: zmap_find_timestamps_def)
next
  case False
  obtain ranges where r: "candidate_row_ranges_for_expr entries ex start_ts end_ts = Inr ranges"
    by (auto simp: candidate_row_ranges_for_expr_def expr_try_from_valid [OF p])
  note c = candidate_rows [OF zmap_build_tiles(1) [OF b] r]
  have "sort_dedup (map s_ts (filter (hit ex start_ts end_ts) records)) = map s_ts (filter (hit ex start_ts end_ts) records)"
    by (intro sort_dedup_strict strict_filter zmap_build_tiles(2) [OF b])
  with False show ?thesis
    by (simp add: zmap_find_timestamps_def candidate_row_ranges_expr [OF p] r zmap_scan_eq [OF p c(3,4)] c(1))
qed

end
