(* ===== verification/ValueIndex.thy ===== *)
theory ValueIndex
  imports ZoneMap ChunkReader "HOL-Library.Product_Lexorder" "HOL-Library.Multiset"
begin

text \<open>
  Value indexes (\<^verbatim>\<open>src/src/store_core/index/vix.rs\<close>): the rows of a chunk as (value, timestamp) pairs
  in order, the slices that a predicate selects by binary search, the query, and the stateless
  engine of \<^verbatim>\<open>query_engine.rs\<close>. The value index and the zone map answer every query alike.
\<close>

record ValueIndexEntry =
  v_value :: i64
  v_ts :: i64

definition vix_BYTE_SIZE :: nat where "vix_BYTE_SIZE = 16"

definition vix_to_le_bytes :: "ValueIndexEntry \<Rightarrow> u8 list" where
  "vix_to_le_bytes e = i64_le_bytes (v_value e) @ i64_le_bytes (v_ts e)"

definition vix_from_le_bytes :: "u8 list \<Rightarrow> ValueIndexEntry" where
  "vix_from_le_bytes bytes =
     \<lparr>v_value = i64_of_le_bytes (slice_of 0 8 bytes), v_ts = i64_of_le_bytes (slice_of 8 16 bytes)\<rparr>"

definition vix_build_entries :: "ScalarRecord list \<Rightarrow> ValueIndexEntry list" where
  "vix_build_entries records =
     sort_key (\<lambda>e. (v_value e, v_ts e)) (map (\<lambda>r. \<lparr>v_value = s_value r, v_ts = s_ts r\<rparr>) records)"

definition vix_encode_entries :: "ValueIndexEntry list \<Rightarrow> u8 list" where
  "vix_encode_entries entries = concat (map vix_to_le_bytes entries)"

definition vix_write_entries ::
  "os_outcome \<Rightarrow> path \<Rightarrow> ValueIndexEntry list \<Rightarrow> fs_state \<Rightarrow> fs_state list \<times> unit res" where
  "vix_write_entries os p entries s = atomic_write_replace os p (vix_encode_entries entries, None) s"

definition vix_read_entries_checked :: "(path \<rightharpoonup> u8 list) \<Rightarrow> path \<Rightarrow> u64 \<Rightarrow> ValueIndexEntry list res" where
  "vix_read_entries_checked fs p checksum =
     and_then (ok_or (fs p) (Io NotFoundKind)) (\<lambda>bytes.
     and_then (ensure (\<not> (checksum \<noteq> 0 \<and> checksum64 bytes \<noteq> checksum))
       (InvalidData ''sidecar checksum mismatch'')) (\<lambda>_.
     and_then (ensure (length bytes mod vix_BYTE_SIZE = 0) (InvalidData ''invalid vix byte length'')) (\<lambda>_.
     Inr (map vix_from_le_bytes (chunks_exact vix_BYTE_SIZE bytes)))))"

definition vix_read_entries :: "(path \<rightharpoonup> u8 list) \<Rightarrow> path \<Rightarrow> ValueIndexEntry list res" where
  "vix_read_entries fs p = vix_read_entries_checked fs p 0"

definition vix_lower_bound :: "ValueIndexEntry list \<Rightarrow> i64 \<Rightarrow> nat" where
  "vix_lower_bound entries target = bsearch (\<lambda>mid. v_value (entries ! mid) < target) 0 (length entries)"

definition vix_upper_bound :: "ValueIndexEntry list \<Rightarrow> i64 \<Rightarrow> nat" where
  "vix_upper_bound entries target = bsearch (\<lambda>mid. v_value (entries ! mid) \<le> target) 0 (length entries)"

definition matching_slice :: "ValueIndexEntry list \<Rightarrow> ScalarPredicate \<Rightarrow> (nat \<times> nat) res" where
  "matching_slice entries p =
     (case p_op p of
        Gt \<Rightarrow> Inr (vix_upper_bound entries (p_value p), length entries)
      | Gte \<Rightarrow> Inr (vix_lower_bound entries (p_value p), length entries)
      | Lt \<Rightarrow> Inr (0, vix_lower_bound entries (p_value p))
      | Lte \<Rightarrow> Inr (0, vix_upper_bound entries (p_value p))
      | Eq \<Rightarrow> Inr (vix_lower_bound entries (p_value p), vix_upper_bound entries (p_value p))
      | Between \<Rightarrow>
          and_then (predicate_bounds p) (\<lambda>(lower, upper).
          Inr (vix_lower_bound entries lower, vix_upper_bound entries upper)))"

definition matching_slices_for_expr ::
  "ValueIndexEntry list \<Rightarrow> ScalarPredicateExpr \<Rightarrow> (nat \<times> nat) list res" where
  "matching_slices_for_expr entries p =
     and_then (expr_validate p) (\<lambda>_.
     let len = length entries; lower = vix_lower_bound entries; upper = vix_upper_bound entries in
     if len = 0 then Inr []
     else Inr (filter (\<lambda>(a, b). a < b)
       (case p of
          ExprEq v \<Rightarrow> [(lower v, upper v)]
        | ExprInSet vs \<Rightarrow> filter (\<lambda>(a, b). a < b) (map (\<lambda>v. (lower v, upper v)) (sort_dedup vs))
        | ExprGt v \<Rightarrow> [(upper v, len)]
        | ExprGte v \<Rightarrow> [(lower v, len)]
        | ExprLt v \<Rightarrow> [(0, lower v)]
        | ExprLte v \<Rightarrow> [(0, upper v)]
        | ExprBetween lo hi inclusive \<Rightarrow>
            [(if inclusive then lower lo else upper lo, if inclusive then upper hi else lower hi)]
        | ExprNe _ \<Rightarrow> [(0, len)]
        | ExprNotInSet _ \<Rightarrow> [(0, len)])))"

text \<open>The loop over a slice, as in the zone map's scan.\<close>

fun vix_push_matching ::
  "ScalarPredicate \<Rightarrow> i64 \<Rightarrow> i64 \<Rightarrow> ValueIndexEntry list \<Rightarrow> i64 list \<Rightarrow> i64 list res" where
  "vix_push_matching p start_ts end_ts [] timestamps = Inr timestamps"
| "vix_push_matching p start_ts end_ts (e # es) timestamps =
     (if v_ts e \<ge> start_ts \<and> v_ts e \<le> end_ts then
        and_then (predicate_matches p (v_value e)) (\<lambda>m.
        vix_push_matching p start_ts end_ts es (if m then timestamps @ [v_ts e] else timestamps))
      else vix_push_matching p start_ts end_ts es timestamps)"

definition vix_find_timestamps ::
  "ValueIndexEntry list \<Rightarrow> ScalarPredicate \<Rightarrow> i64 \<Rightarrow> i64 \<Rightarrow> i64 list res" where
  "vix_find_timestamps entries p start_ts end_ts =
     (if start_ts > end_ts \<or> entries = [] then Inr []
      else
        and_then (matching_slice entries p) (\<lambda>(a, b).
        if a > b \<or> b > length entries then Inl (Panic ''slice index out of range'')
        else
          and_then (vix_push_matching p start_ts end_ts (slice_of a b entries) []) (\<lambda>timestamps.
          Inr (sort_dedup timestamps))))"

section \<open>The query engine\<close>

definition validate_series_key :: "ScalarSeriesKey \<Rightarrow> unit res" where
  "validate_series_key k =
     ensure (\<not> (is_blank (key_symbol k) \<or> is_blank (key_category k) \<or> is_blank (key_name k)))
       (InvalidInput ''scalar series key fields must not be empty'')"

definition find_timestamps_via_zmap ::
  "ScalarSeriesKey \<Rightarrow> ScalarRecord list \<Rightarrow> ZoneMapEntry list \<Rightarrow> ScalarPredicate \<Rightarrow> i64 \<Rightarrow> i64 \<Rightarrow> i64 list res" where
  "find_timestamps_via_zmap k records entries p start_ts end_ts =
     and_then (validate_series_key k) (\<lambda>_. zmap_find_timestamps entries records p start_ts end_ts)"

definition find_timestamps_via_vix ::
  "ScalarSeriesKey \<Rightarrow> ValueIndexEntry list \<Rightarrow> ScalarPredicate \<Rightarrow> i64 \<Rightarrow> i64 \<Rightarrow> i64 list res" where
  "find_timestamps_via_vix k entries p start_ts end_ts =
     and_then (validate_series_key k) (\<lambda>_. vix_find_timestamps entries p start_ts end_ts)"

section \<open>Round trip of the sidecar file\<close>

lemma vix_entry_codec [simp, codec_simps]:
  "length (vix_to_le_bytes e) = 16" "vix_from_le_bytes (vix_to_le_bytes e) = e"
  by (simp_all add: vix_to_le_bytes_def vix_from_le_bytes_def slice_of_def)

lemma vix_read_encoded:
  assumes "fs p = Some (vix_encode_entries entries)" and "checksum = 0 \<or> checksum = checksum64 (vix_encode_entries entries)"
  shows "vix_read_entries_checked fs p checksum = Inr entries"
proof -
  have c: "chunks_exact 16 (vix_encode_entries entries) = map vix_to_le_bytes entries"
    unfolding vix_encode_entries_def by (rule chunks_exact_concat) simp_all
  have "length (vix_encode_entries entries) = 16 * length entries"
    unfolding vix_encode_entries_def by (rule length_concat_map_const) simp
  with assms c show ?thesis by (auto simp: vix_read_entries_checked_def vix_BYTE_SIZE_def comp_def)
qed

section \<open>Slices by value\<close>

lemma vix_build_facts:
  "sorted (map v_value (vix_build_entries records))"
  "set (vix_build_entries records) = (\<lambda>r. \<lparr>v_value = s_value r, v_ts = s_ts r\<rparr>) ` set records"
proof -
  have "sorted (map (\<lambda>e. (v_value e, v_ts e)) (vix_build_entries records))"
    unfolding vix_build_entries_def by (rule sorted_sort_key)
  then have "sorted_wrt (\<lambda>a b. v_value a \<le> v_value b) (vix_build_entries records)"
    by (simp add: sorted_map) (auto elim!: sorted_wrt_mono_rel [rotated] simp: less_eq_prod_def)
  then show "sorted (map v_value (vix_build_entries records))" by (simp add: sorted_map)
  show "set (vix_build_entries records) = (\<lambda>r. \<lparr>v_value = s_value r, v_ts = s_ts r\<rparr>) ` set records"
    by (simp add: vix_build_entries_def)
qed

lemma vix_bounds:
  assumes "sorted (map v_value es)"
  shows "is_boundary (\<lambda>i. v_value (es ! i) < t) 0 (length es) (vix_lower_bound es t)"
    and "is_boundary (\<lambda>i. v_value (es ! i) \<le> t) 0 (length es) (vix_upper_bound es t)"
  unfolding vix_lower_bound_def vix_upper_bound_def bsearch_lower [OF assms] bsearch_upper [OF assms]
  using lower_index_boundary [OF assms, of t] upper_index_boundary [OF assms, of t] by (auto simp: is_boundary_def)

lemma vix_slices:
  assumes s: "sorted (map v_value es)"
  shows "slice_of (vix_lower_bound es t) (length es) es = filter (\<lambda>e. v_value e \<ge> t) es"
    and "slice_of (vix_upper_bound es t) (length es) es = filter (\<lambda>e. v_value e > t) es"
    and "slice_of 0 (vix_lower_bound es t) es = filter (\<lambda>e. v_value e < t) es"
    and "slice_of 0 (vix_upper_bound es t) es = filter (\<lambda>e. v_value e \<le> t) es"
    and "slice_of (vix_lower_bound es t) (vix_upper_bound es u) es = filter (\<lambda>e. t \<le> v_value e \<and> v_value e \<le> u) es"
    and "slice_of (vix_upper_bound es t) (vix_lower_bound es u) es = filter (\<lambda>e. t < v_value e \<and> v_value e < u) es"
  using vix_bounds [OF s, of t] vix_bounds [OF s, of u]
  by (auto intro!: filter_eq_slice [symmetric] simp: is_boundary_def not_less not_le le_less_linear)

lemma vix_slice_value:
  assumes s: "sorted (map v_value es)"
  shows "slice_of (vix_lower_bound es v) (vix_upper_bound es v) es = filter (\<lambda>e. v_value e = v) es"
  unfolding vix_slices(5) [OF s] by (rule filter_cong) auto

lemma vix_bounds_le:
  assumes s: "sorted (map v_value es)"
  shows "vix_lower_bound es t \<le> length es" "vix_upper_bound es t \<le> length es"
    and "t \<le> u \<Longrightarrow> vix_lower_bound es t \<le> vix_upper_bound es u"
proof -
  show "vix_lower_bound es t \<le> length es" "vix_upper_bound es t \<le> length es"
    using vix_bounds [OF s, of t] by (simp_all add: is_boundary_def)
  assume "t \<le> u"
  then show "vix_lower_bound es t \<le> vix_upper_bound es u"
    unfolding vix_lower_bound_def vix_upper_bound_def bsearch_lower [OF s] bsearch_upper [OF s]
    by (rule lower_le_upper [OF s])
qed

lemma matching_slice_exact:
  assumes s: "sorted (map v_value es)" and p: "expr_try_from p = Inr ex"
  obtains a b where "matching_slice es p = Inr (a, b)" and "a \<le> b" and "b \<le> length es"
    and "slice_of a b es = filter (\<lambda>e. expr_matches ex (v_value e)) es"
proof (cases "p_op p")
  case Eq
  then show thesis using that p vix_slice_value [OF s, of "p_value p"] vix_bounds_le [OF s]
    by (auto simp: matching_slice_def expr_try_from_def)
next
  case Between
  then obtain hi where "p_value2 p = Some hi" "ex = ExprBetween (min (p_value p) hi) (max (p_value p) hi) True"
    using p by (auto simp: expr_try_from_def res_simps)
  moreover have "vix_lower_bound es (min (p_value p) hi) \<le> vix_upper_bound es (max (p_value p) hi)"
    by (rule vix_bounds_le(3) [OF s]) (auto simp: min_def max_def i64_ord)
  ultimately show thesis
    using that Between vix_slices(5) [OF s, of "min (p_value p) hi" "max (p_value p) hi"] vix_bounds_le(2) [OF s]
    by (auto simp: matching_slice_def predicate_bounds_def)
qed (use that p vix_slices(1-4) [OF s, of "p_value p"] vix_bounds_le [OF s] in
      \<open>auto simp: matching_slice_def expr_try_from_def\<close>)

text \<open>Slices of ascending values, joined, are the entries with one of the values.\<close>

lemma filter_split_below:
  "sorted (map f es) \<Longrightarrow> (\<And>x y. A x \<Longrightarrow> B y \<Longrightarrow> f x < f y) \<Longrightarrow> filter (\<lambda>e. A e \<or> B e) es = filter A es @ filter B es"
proof (induction es)
  case (Cons e es)
  show ?case
  proof (cases "B e")
    case True
    then have "\<not> A e" using Cons.prems(2) by blast
    moreover have "\<not> A x" if "x \<in> set es" for x
      using Cons.prems(1) Cons.prems(2) [OF _ True, of x] that by force
    then have "filter A es = []" by (simp add: filter_empty_conv)
    ultimately show ?thesis using Cons True by auto
  next
    case False
    then show ?thesis using Cons by auto
  qed
qed simp

lemma filter_by_values:
  assumes s: "sorted (map v_value es)"
  shows "sorted_wrt (<) vs \<Longrightarrow>
    concat (map (\<lambda>v. filter (\<lambda>e. v_value e = v) es) vs) = filter (\<lambda>e. v_value e \<in> set vs) es"
proof (induction vs)
  case (Cons v vs)
  have "filter (\<lambda>e. v_value e = v \<or> v_value e \<in> set vs) es
      = filter (\<lambda>e. v_value e = v) es @ filter (\<lambda>e. v_value e \<in> set vs) es"
    by (rule filter_split_below [OF s]) (use Cons.prems in auto)
  with Cons show ?case by simp
qed simp

lemma sort_dedup_facts: "sorted_wrt (<) (sort_dedup ts)" "set (sort_dedup ts) = set ts"
proof -
  have "sorted_wrt (<) (remdups_adj xs)" if "sorted xs" for xs :: "i64 list"
    using that by (induction xs rule: remdups_adj.induct) (auto simp: order.order_iff_strict)
  then show "sorted_wrt (<) (sort_dedup ts)" by (simp add: sort_dedup_def)
  show "set (sort_dedup ts) = set ts" by (simp add: sort_dedup_def)
qed

text \<open>The nonempty slices among given ones hold the same entries.\<close>

lemma concat_nonempty_slices:
  "concat (map (\<lambda>(a, b). slice_of a b es) (filter (\<lambda>(a, b). a < b) sl)) = concat (map (\<lambda>(a, b). slice_of a b es) sl)"
  by (induction sl) auto

lemma matching_slices_exact:
  assumes s: "sorted (map v_value es)" and m: "matching_slices_for_expr es p = Inr slices"
  shows "filter (\<lambda>e. expr_matches p (v_value e)) (concat (map (\<lambda>(a, b). slice_of a b es) slices))
    = filter (\<lambda>e. expr_matches p (v_value e)) es"
    and "\<forall>(a, b) \<in> set slices. a < b \<and> b \<le> length es"
proof -
  note b = vix_bounds_le [OF s]
  note eq = vix_slice_value [OF s]
  show "filter (\<lambda>e. expr_matches p (v_value e)) (concat (map (\<lambda>(a, b). slice_of a b es) slices))
      = filter (\<lambda>e. expr_matches p (v_value e)) es"
  proof (cases "es = []")
    case True
    then show ?thesis using m by (simp add: matching_slices_for_expr_def res_simps Let_def)
  next
    case ne: False
    show ?thesis
    proof (cases p)
      case (ExprInSet vs)
      have "concat (map (\<lambda>(a, b). slice_of a b es) slices) = filter (\<lambda>e. v_value e \<in> set vs) es"
        using m ne filter_by_values [OF s sort_dedup_facts(1) [of vs]]
        by (auto simp: ExprInSet matching_slices_for_expr_def expr_validate_def Let_def concat_nonempty_slices
            comp_def eq sort_dedup_facts(2))
      then show ?thesis by (simp add: ExprInSet)
    next
      case (ExprBetween lo hi inclusive)
      have "concat (map (\<lambda>(a, b). slice_of a b es) slices) = filter (\<lambda>e. expr_matches p (v_value e)) es"
        using m ne vix_slices(5,6) [OF s, of lo hi]
        by (cases inclusive) (auto simp: ExprBetween matching_slices_for_expr_def res_simps Let_def concat_nonempty_slices)
      then show ?thesis by simp
    qed (use m ne in \<open>auto simp: matching_slices_for_expr_def expr_validate_def Let_def concat_nonempty_slices eq vix_slices(1-4) [OF s]
          simp del: filter.simps\<close>)
  qed
  show "\<forall>(a, b) \<in> set slices. a < b \<and> b \<le> length es"
    using m b by (auto simp: matching_slices_for_expr_def res_simps Let_def split: ScalarPredicateExpr.splits if_splits)
qed

section \<open>The value index answers like the zone map\<close>

lemma vix_push_matching_eq:
  assumes "expr_try_from p = Inr ex"
  shows "vix_push_matching p start_ts end_ts es ts
    = Inr (ts @ map v_ts (filter (\<lambda>e. start_ts \<le> v_ts e \<and> v_ts e \<le> end_ts \<and> expr_matches ex (v_value e)) es))"
  by (induction es arbitrary: ts) (auto simp: expr_try_from_matches [OF assms])

lemma sort_dedup_eqI: "sorted_wrt (<) ys \<Longrightarrow> set xs = set ys \<Longrightarrow> sort_dedup xs = ys"
  using strict_sorted_equal [OF sort_dedup_facts(1) [of xs], of ys] sort_dedup_facts(2) [of xs] by simp

lemma vix_find_exact:
  assumes t: "sorted_wrt (<) (map s_ts records)" and p: "expr_try_from p = Inr ex"
  shows "vix_find_timestamps (vix_build_entries records) p start_ts end_ts
    = Inr (map s_ts (filter (hit ex start_ts end_ts) records))"
proof (cases "start_ts > end_ts \<or> vix_build_entries records = []")
  case True
  then have "filter (hit ex start_ts end_ts) records = []"
    using vix_build_facts(2) [of records] by (auto simp: filter_empty_conv hit_def i64_ord)
  with True show ?thesis by (auto simp: vix_find_timestamps_def)
next
  case False
  let ?es = "vix_build_entries records"
  obtain a b where ab: "matching_slice ?es p = Inr (a, b)" "a \<le> b" "b \<le> length ?es"
    and sl: "slice_of a b ?es = filter (\<lambda>e. expr_matches ex (v_value e)) ?es"
    using matching_slice_exact [OF vix_build_facts(1) p] by metis
  have "sort_dedup (map v_ts (filter (\<lambda>e. start_ts \<le> v_ts e \<and> v_ts e \<le> end_ts \<and> expr_matches ex (v_value e))
      (slice_of a b ?es))) = map s_ts (filter (hit ex start_ts end_ts) records)"
  proof (rule sort_dedup_eqI [OF strict_filter [OF t]])
    show "set (map v_ts (filter (\<lambda>e. start_ts \<le> v_ts e \<and> v_ts e \<le> end_ts \<and> expr_matches ex (v_value e)) (slice_of a b ?es)))
        = set (map s_ts (filter (hit ex start_ts end_ts) records))"
      unfolding sl by (force simp: vix_build_facts(2) hit_def)
  qed
  with False ab show ?thesis
    by (auto simp: vix_find_timestamps_def vix_push_matching_eq [OF p])
qed

end
