(* ===== verification/SidecarCache.thy ===== *)
theory SidecarCache
  imports ValueIndex ChunkCache "HOL-Library.Sublist"
begin

text \<open>
  The cache of decoded index sidecars (\<^verbatim>\<open>src/src/store_core/index/cache.rs\<close>): two bounded
  least-recently-used maps, one of zone maps and one of value indexes, keyed by the generation,
  the checksum and the path of a sidecar. The eviction loop of \<open>trim\<close> leaves the state unchanged
  when the queue is empty and the map is too large, so it is a partial function; the invariant
  that queue and map hold the same keys makes it return. The two critical sections of a miss
  run separately, as they do in the code: the file is read without the lock.
\<close>

definition DEFAULT_SIDECAR_CACHE_CAPACITY :: nat where "DEFAULT_SIDECAR_CACHE_CAPACITY = 64"

record SidecarCacheKey =
  sk_generation :: u32
  sk_checksum :: u64
  sk_relative_path :: string

record 'e SidecarCacheState =
  sk_order :: "SidecarCacheKey list"
  sk_values :: "(SidecarCacheKey \<times> 'e) list"

definition sidecar_state_default :: "'e SidecarCacheState" where
  "sidecar_state_default = \<lparr>sk_order = [], sk_values = []\<rparr>"

record ScalarSidecarRuntime =
  sr_capacity :: nat
  sr_zmap :: "ZoneMapEntry list SidecarCacheState"
  sr_vix :: "ValueIndexEntry list SidecarCacheState"

definition sidecar_runtime_new :: ScalarSidecarRuntime where
  "sidecar_runtime_new =
     \<lparr>sr_capacity = DEFAULT_SIDECAR_CACHE_CAPACITY, sr_zmap = sidecar_state_default, sr_vix = sidecar_state_default\<rparr>"

definition touch :: "SidecarCacheKey list \<Rightarrow> SidecarCacheKey \<Rightarrow> SidecarCacheKey list" where
  "touch order key = remove1 key order @ [key]"

partial_function (option) trim :: "nat \<Rightarrow> 'e SidecarCacheState \<Rightarrow> 'e SidecarCacheState option" where
  "trim capacity st =
     (if length (sk_values st) > capacity then
        (case sk_order st of
           [] \<Rightarrow> trim capacity st
         | evicted # order \<Rightarrow> trim capacity \<lparr>sk_order = order, sk_values = AList.delete evicted (sk_values st)\<rparr>)
      else Some st)"

text \<open>The section of a hit, and the section that a miss enters after it has read the file.\<close>

definition sidecar_lookup :: "'e SidecarCacheState \<Rightarrow> SidecarCacheKey \<Rightarrow> ('e SidecarCacheState \<times> 'e) option" where
  "sidecar_lookup st key =
     (case map_of (sk_values st) key of
        None \<Rightarrow> None
      | Some entries \<Rightarrow> Some (st\<lparr>sk_order := touch (sk_order st) key\<rparr>, entries))"

definition sidecar_admit ::
  "nat \<Rightarrow> 'e SidecarCacheState \<Rightarrow> SidecarCacheKey \<Rightarrow> 'e \<Rightarrow> 'e SidecarCacheState option" where
  "sidecar_admit capacity st key entries =
     trim capacity \<lparr>sk_order = touch (sk_order st) key, sk_values = AList.update key entries (sk_values st)\<rparr>"

definition sidecar_get ::
  "(path \<Rightarrow> u64 \<Rightarrow> 'e res) \<Rightarrow> nat \<Rightarrow> 'e SidecarCacheState \<Rightarrow> SidecarCacheKey \<Rightarrow> path \<Rightarrow>
   ('e SidecarCacheState \<times> 'e res) option" where
  "sidecar_get read capacity st key p =
     (case sidecar_lookup st key of
        Some (st', entries) \<Rightarrow> Some (st', Inr entries)
      | None \<Rightarrow>
          (case read p (sk_checksum key) of
             Inl e \<Rightarrow> Some (st, Inl e)
           | Inr entries \<Rightarrow> map_option (\<lambda>st'. (st', Inr entries)) (sidecar_admit capacity st key entries)))"

definition get_zmap ::
  "(path \<rightharpoonup> u8 list) \<Rightarrow> ScalarSidecarRuntime \<Rightarrow> SidecarCacheKey \<Rightarrow> path \<Rightarrow>
   (ScalarSidecarRuntime \<times> ZoneMapEntry list res) option" where
  "get_zmap fs sr key p =
     map_option (\<lambda>(st, r). (sr\<lparr>sr_zmap := st\<rparr>, r))
       (sidecar_get (zmap_read_entries_checked fs) (sr_capacity sr) (sr_zmap sr) key p)"

definition get_vix ::
  "(path \<rightharpoonup> u8 list) \<Rightarrow> ScalarSidecarRuntime \<Rightarrow> SidecarCacheKey \<Rightarrow> path \<Rightarrow>
   (ScalarSidecarRuntime \<times> ValueIndexEntry list res) option" where
  "get_vix fs sr key p =
     map_option (\<lambda>(st, r). (sr\<lparr>sr_vix := st\<rparr>, r))
       (sidecar_get (vix_read_entries_checked fs) (sr_capacity sr) (sr_vix sr) key p)"

definition invalidate_matching :: "'e SidecarCacheState \<Rightarrow> string \<Rightarrow> 'e SidecarCacheState" where
  "invalidate_matching st relative_path_prefix =
     \<lparr>sk_order = filter (\<lambda>key. \<not> prefix relative_path_prefix (sk_relative_path key)) (sk_order st),
      sk_values = filter (\<lambda>(key, _). \<not> prefix relative_path_prefix (sk_relative_path key)) (sk_values st)\<rparr>"

definition clear_state :: "'e SidecarCacheState \<Rightarrow> 'e SidecarCacheState" where
  "clear_state st = st\<lparr>sk_order := [], sk_values := []\<rparr>"

definition sidecar_invalidate :: "ScalarSidecarRuntime \<Rightarrow> string \<Rightarrow> ScalarSidecarRuntime" where
  "sidecar_invalidate sr relative_path_prefix =
     sr\<lparr>sr_zmap := invalidate_matching (sr_zmap sr) relative_path_prefix,
        sr_vix := invalidate_matching (sr_vix sr) relative_path_prefix\<rparr>"

definition sidecar_clear :: "ScalarSidecarRuntime \<Rightarrow> ScalarSidecarRuntime" where
  "sidecar_clear sr = sr\<lparr>sr_zmap := clear_state (sr_zmap sr), sr_vix := clear_state (sr_vix sr)\<rparr>"

section \<open>Queue and map agree, and the map is bounded\<close>

definition keys_agree :: "'e SidecarCacheState \<Rightarrow> bool" where
  "keys_agree st \<longleftrightarrow>
     distinct (map fst (sk_values st)) \<and> distinct (sk_order st) \<and> set (sk_order st) = fst ` set (sk_values st)"

definition sidecar_ok :: "nat \<Rightarrow> 'e SidecarCacheState \<Rightarrow> bool" where
  "sidecar_ok capacity st \<longleftrightarrow> keys_agree st \<and> length (sk_values st) \<le> capacity"

lemma set_touch: "distinct order \<Longrightarrow> set (touch order key) = insert key (set order)"
  by (auto simp: touch_def)

lemma distinct_touch: "distinct order \<Longrightarrow> distinct (touch order key)"
  by (simp add: touch_def)

text \<open>The loop returns, keeps the newest entries, and ends within the capacity.\<close>

lemma trim_returns:
  "keys_agree st \<Longrightarrow>
     \<exists>st'. trim capacity st = Some st' \<and> sidecar_ok capacity st'
       \<and> (\<exists>n. sk_order st' = drop n (sk_order st))
       \<and> (\<forall>k. k \<in> set (sk_order st') \<longrightarrow> map_of (sk_values st') k = map_of (sk_values st) k)"
proof (induction "length (sk_order st)" arbitrary: st)
  case 0
  then have "sk_values st = []" by (auto simp: keys_agree_def)
  with 0 show ?case by (subst trim.simps) (auto simp: sidecar_ok_def intro: exI [of _ 0])
next
  case (Suc n)
  show ?case
  proof (cases "length (sk_values st) > capacity")
    case True
    obtain k ks where o: "sk_order st = k # ks" using Suc.hyps(2) by (cases "sk_order st") auto
    let ?st = "\<lparr>sk_order = ks, sk_values = AList.delete k (sk_values st)\<rparr>"
    have "keys_agree ?st" using Suc.prems by (auto simp: keys_agree_def o distinct_delete keys_delete)
    then obtain st' m where IH: "trim capacity ?st = Some st'" "sidecar_ok capacity st'" "sk_order st' = drop m ks"
        "\<forall>j. j \<in> set (sk_order st') \<longrightarrow> map_of (sk_values st') j = map_of (AList.delete k (sk_values st)) j"
      using Suc.hyps(1) [of ?st] Suc.hyps(2) by (auto simp: o)
    have "k \<notin> set ks" using Suc.prems by (simp add: keys_agree_def o)
    then have "j \<noteq> k" if "j \<in> set (sk_order st')" for j using that IH(3) by (metis in_set_dropD)
    then show ?thesis using IH True
      by (intro exI [of _ st'] conjI exI [of _ "Suc m"]) (subst trim.simps, auto simp: o delete_conv')
  next
    case False
    then show ?thesis using Suc.prems
      by (intro exI [of _ st] conjI exI [of _ 0]) (subst trim.simps, auto simp: sidecar_ok_def)
  qed
qed

lemma keys_agree_admit:
  assumes "keys_agree st"
  shows "keys_agree \<lparr>sk_order = touch (sk_order st) key, sk_values = AList.update key entries (sk_values st)\<rparr>"
  using assms by (auto simp: keys_agree_def set_touch distinct_touch distinct_update dom_update)

lemma sidecar_admit_ok:
  assumes "keys_agree st"
  obtains st' where "sidecar_admit capacity st key entries = Some st'" and "sidecar_ok capacity st'"
    and "\<forall>k v. map_of (sk_values st') k = Some v \<longrightarrow> k = key \<and> v = entries \<or> map_of (sk_values st) k = Some v"
proof -
  let ?st = "\<lparr>sk_order = touch (sk_order st) key, sk_values = AList.update key entries (sk_values st)\<rparr>"
  obtain st' where t: "trim capacity ?st = Some st'" "sidecar_ok capacity st'"
      "\<forall>k. k \<in> set (sk_order st') \<longrightarrow> map_of (sk_values st') k = map_of (sk_values ?st) k"
    using trim_returns [OF keys_agree_admit [OF assms]] by blast
  have "k \<in> set (sk_order st')" if "map_of (sk_values st') k = Some v" for k v
    using t(2) that by (force simp: sidecar_ok_def keys_agree_def dest: map_of_SomeD)
  then have "\<forall>k v. map_of (sk_values st') k = Some v \<longrightarrow> k = key \<and> v = entries \<or> map_of (sk_values st) k = Some v"
    using t(3) by (fastforce simp: update_conv' split: if_splits)
  then show thesis using t(1,2) by (intro that [of st']) (simp_all add: sidecar_admit_def)
qed

lemma sidecar_lookup_ok:
  assumes "sidecar_ok capacity st" and "sidecar_lookup st key = Some (st', entries)"
  shows "sidecar_ok capacity st'" and "sk_values st' = sk_values st" and "map_of (sk_values st) key = Some entries"
proof -
  have m: "map_of (sk_values st) key = Some entries" and st: "st' = st\<lparr>sk_order := touch (sk_order st) key\<rparr>"
    using assms(2) by (auto simp: sidecar_lookup_def split: option.splits)
  then have "key \<in> fst ` set (sk_values st)" by (force dest: map_of_SomeD)
  then show "sidecar_ok capacity st'" "sk_values st' = sk_values st" "map_of (sk_values st) key = Some entries"
    using assms(1) m by (auto simp: st sidecar_ok_def keys_agree_def set_touch distinct_touch)
qed

lemma invalidate_matching_ok: "sidecar_ok capacity st \<Longrightarrow> sidecar_ok capacity (invalidate_matching st s)"
proof -
  assume ok: "sidecar_ok capacity st"
  have "length (filter P (sk_values st)) \<le> capacity" for P
    using ok le_trans [OF length_filter_le [of P "sk_values st"]] by (simp add: sidecar_ok_def)
  moreover have "distinct (map fst (filter P (sk_values st)))" for P
    using ok by (simp add: sidecar_ok_def keys_agree_def distinct_map_filter)
  ultimately show ?thesis
    using ok by (force simp: sidecar_ok_def keys_agree_def invalidate_matching_def)
qed

lemma sidecar_state_ok: "sidecar_ok capacity sidecar_state_default" "sidecar_ok capacity (clear_state st)"
  by (simp_all add: sidecar_ok_def keys_agree_def sidecar_state_default_def clear_state_def)

section \<open>Every interleaving\<close>

text \<open>
  The sections that run under one of the two locks, as steps of any number of threads. The
  admitted entries are what some earlier read of the file gave.
\<close>

inductive sidecar_step :: "nat \<Rightarrow> 'e SidecarCacheState \<Rightarrow> 'e SidecarCacheState \<Rightarrow> bool" for capacity where
  look: "sidecar_lookup st key = Some (st', entries) \<Longrightarrow> sidecar_step capacity st st'"
| admit: "sidecar_admit capacity st key entries = Some st' \<Longrightarrow> sidecar_step capacity st st'"
| invalidate: "sidecar_step capacity st (invalidate_matching st s)"
| clear: "sidecar_step capacity st (clear_state st)"

inductive_cases sidecar_stepE: "sidecar_step capacity st st'"

lemma sidecar_step_ok: "sidecar_step capacity st st' \<Longrightarrow> sidecar_ok capacity st \<Longrightarrow> sidecar_ok capacity st'"
proof (induction rule: sidecar_step.induct)
  case (admit st key entries st')
  then show ?case using sidecar_admit_ok [of st capacity key entries] by (metis option.inject sidecar_ok_def)
qed (auto intro: sidecar_lookup_ok invalidate_matching_ok sidecar_state_ok)

lemma sidecar_steps_ok:
  "(sidecar_step capacity)\<^sup>*\<^sup>* st st' \<Longrightarrow> sidecar_ok capacity st \<Longrightarrow> sidecar_ok capacity st'"
  by (induction rule: rtranclp_induct) (auto dest: sidecar_step_ok)

section \<open>Cached answers\<close>

text \<open>
  The cache agrees with the files: every entry is what a checked read of the key's file gives.
  Sidecar files are never modified once they are published.
\<close>

definition sidecars_agree ::
  "(path \<Rightarrow> u64 \<Rightarrow> 'e res) \<Rightarrow> (SidecarCacheKey \<Rightarrow> path) \<Rightarrow> nat \<Rightarrow> 'e SidecarCacheState \<Rightarrow> bool" where
  "sidecars_agree read where_is capacity st \<longleftrightarrow>
     sidecar_ok capacity st
     \<and> (\<forall>k v. map_of (sk_values st) k = Some v \<longrightarrow> read (where_is k) (sk_checksum k) = Inr v)"

text \<open>A lookup is a checked read of the file, from the cache or not, and it always returns.\<close>

lemma sidecar_get_exact:
  assumes a: "sidecars_agree read where_is capacity st" and p: "where_is key = p"
  obtains st' where "sidecar_get read capacity st key p = Some (st', read p (sk_checksum key))"
    and "sidecars_agree read where_is capacity st'"
proof (cases "sidecar_lookup st key")
  case (Some q)
  obtain st' entries where q: "q = (st', entries)" by (cases q)
  note l = sidecar_lookup_ok [OF _ Some [unfolded q], of capacity]
  have "read p (sk_checksum key) = Inr entries" using a l(3) p by (auto simp: sidecars_agree_def)
  then show thesis using that [of st'] a l Some by (simp add: sidecar_get_def sidecars_agree_def q)
next
  case None
  show thesis
  proof (cases "read p (sk_checksum key)")
    case (Inl e)
    then show thesis using that [of st] a None by (simp add: sidecar_get_def)
  next
    case (Inr entries)
    have "keys_agree st" using a by (simp add: sidecars_agree_def sidecar_ok_def)
    then obtain st' where s: "sidecar_admit capacity st key entries = Some st'" "sidecar_ok capacity st'"
        "\<forall>k v. map_of (sk_values st') k = Some v \<longrightarrow> k = key \<and> v = entries \<or> map_of (sk_values st) k = Some v"
      by (rule sidecar_admit_ok)
    have "sidecars_agree read where_is capacity st'"
      unfolding sidecars_agree_def
    proof (intro conjI allI impI)
      fix k v assume "map_of (sk_values st') k = Some v"
      then show "read (where_is k) (sk_checksum k) = Inr v"
        using s(3) Inr p a by (fastforce simp: sidecars_agree_def)
    qed (rule s(2))
    then show thesis using that [of st'] s(1) None Inr by (simp add: sidecar_get_def)
  qed
qed

definition sidecars_coherent :: "(path \<rightharpoonup> u8 list) \<Rightarrow> (SidecarCacheKey \<Rightarrow> path) \<Rightarrow> ScalarSidecarRuntime \<Rightarrow> bool" where
  "sidecars_coherent fs where_is sr \<longleftrightarrow>
     sidecars_agree (zmap_read_entries_checked fs) where_is (sr_capacity sr) (sr_zmap sr)
     \<and> sidecars_agree (vix_read_entries_checked fs) where_is (sr_capacity sr) (sr_vix sr)"

lemma sidecars_coherent_new: "sidecars_coherent fs where_is sidecar_runtime_new"
  by (simp add: sidecars_coherent_def sidecars_agree_def sidecar_runtime_new_def sidecar_state_ok)
    (simp add: sidecar_state_default_def)

lemma get_zmap_exact:
  assumes "sidecars_coherent fs where_is sr" and "where_is key = p"
  obtains sr' where "get_zmap fs sr key p = Some (sr', zmap_read_entries_checked fs p (sk_checksum key))"
    and "sidecars_coherent fs where_is sr'"
proof -
  obtain st' where "sidecar_get (zmap_read_entries_checked fs) (sr_capacity sr) (sr_zmap sr) key p
      = Some (st', zmap_read_entries_checked fs p (sk_checksum key))"
    and "sidecars_agree (zmap_read_entries_checked fs) where_is (sr_capacity sr) st'"
    using assms sidecar_get_exact [of "zmap_read_entries_checked fs" where_is] unfolding sidecars_coherent_def by metis
  then show thesis using that [of "sr\<lparr>sr_zmap := st'\<rparr>"] assms(1) by (simp add: get_zmap_def sidecars_coherent_def)
qed

lemma get_vix_exact:
  assumes "sidecars_coherent fs where_is sr" and "where_is key = p"
  obtains sr' where "get_vix fs sr key p = Some (sr', vix_read_entries_checked fs p (sk_checksum key))"
    and "sidecars_coherent fs where_is sr'"
proof -
  obtain st' where "sidecar_get (vix_read_entries_checked fs) (sr_capacity sr) (sr_vix sr) key p
      = Some (st', vix_read_entries_checked fs p (sk_checksum key))"
    and "sidecars_agree (vix_read_entries_checked fs) where_is (sr_capacity sr) st'"
    using assms sidecar_get_exact [of "vix_read_entries_checked fs" where_is] unfolding sidecars_coherent_def by metis
  then show thesis using that [of "sr\<lparr>sr_vix := st'\<rparr>"] assms(1) by (simp add: get_vix_def sidecars_coherent_def)
qed

end
