(* ===== verification/Manifest.thy ===== *)
theory Manifest
  imports Writers
begin

text \<open>
  The persistent series manifest (\<^verbatim>\<open>src/src/store_core/storage/manifest.rs\<close>): its binary
  encoding and decoding, the updates of the chunk list, the migration of legacy manifests, and
  saving and loading through the process-wide cache. Encoding a manifest and decoding the bytes
  gives it back; a corrupted byte of the body is always noticed; what was saved is what is
  loaded.
\<close>

definition MANIFEST_MAGIC :: "u8 list" where
  "MANIFEST_MAGIC = [0x46, 0x4B, 0x4D, 0x45, 0x54, 0x41, 0x30, 0x32]"

definition MANIFEST_VERSION :: u32 where "MANIFEST_VERSION = 2"
definition MANIFEST_HEADER_LEN :: nat where "MANIFEST_HEADER_LEN = 24"

section \<open>Writing fields\<close>

definition put_u8 :: "u8 list \<Rightarrow> u8 \<Rightarrow> u8 list" where
  "put_u8 out value = out @ [value]"

definition put_u32 :: "u8 list \<Rightarrow> u32 \<Rightarrow> u8 list" where
  "put_u32 out value = out @ le_bytes 4 value"

definition put_u64 :: "u8 list \<Rightarrow> u64 \<Rightarrow> u8 list" where
  "put_u64 out value = out @ le_bytes 8 value"

definition put_i64 :: "u8 list \<Rightarrow> i64 \<Rightarrow> u8 list" where
  "put_i64 out value = out @ i64_le_bytes value"

definition put_str :: "u8 list \<Rightarrow> string \<Rightarrow> u8 list res" where
  "put_str out value =
     (let bytes = as_bytes value in
      and_then (ensure (length bytes < 2 ^ 16) (InvalidInput ''string field too long for manifest'')) (\<lambda>_.
      let len = word_of_nat (length bytes) :: u16 in
      Inr (out @ le_bytes 2 len @ bytes)))"

section \<open>Reading fields\<close>

text \<open>A \<open>Cursor\<close> is the part of its bytes that is still unread.\<close>

type_synonym Cursor = "u8 list"

definition cursor_read_exact :: "Cursor \<Rightarrow> nat \<Rightarrow> (u8 list \<times> Cursor) res" where
  "cursor_read_exact c len =
     (if len > length c then Inl (InvalidData ''manifest ended unexpectedly'')
      else Inr (take len c, drop len c))"

definition cursor_read_u8 :: "Cursor \<Rightarrow> (u8 \<times> Cursor) res" where
  "cursor_read_u8 c = and_then (cursor_read_exact c 1) (\<lambda>(bytes, c). Inr (bytes ! 0, c))"

definition cursor_read_u32 :: "Cursor \<Rightarrow> (u32 \<times> Cursor) res" where
  "cursor_read_u32 c = and_then (cursor_read_exact c 4) (\<lambda>(bytes, c). Inr (le_word bytes, c))"

definition cursor_read_u64 :: "Cursor \<Rightarrow> (u64 \<times> Cursor) res" where
  "cursor_read_u64 c = and_then (cursor_read_exact c 8) (\<lambda>(bytes, c). Inr (le_word bytes, c))"

definition cursor_read_i64 :: "Cursor \<Rightarrow> (i64 \<times> Cursor) res" where
  "cursor_read_i64 c = and_then (cursor_read_exact c 8) (\<lambda>(bytes, c). Inr (i64_of_le_bytes bytes, c))"

definition cursor_read_string :: "Cursor \<Rightarrow> (string \<times> Cursor) res" where
  "cursor_read_string c =
     and_then (cursor_read_exact c 2) (\<lambda>(len_bytes, c).
     let len = unat (le_word len_bytes :: u16) in
     and_then (cursor_read_exact c len) (\<lambda>(bytes, c).
     and_then (ok_or (from_utf8 bytes) (InvalidData ''invalid utf8 string'')) (\<lambda>s.
     Inr (s, c))))"

text \<open>\<open>for _ in 0..n\<close> with a push of what each round reads.\<close>

fun read_times :: "(Cursor \<Rightarrow> ('a \<times> Cursor) res) \<Rightarrow> nat \<Rightarrow> Cursor \<Rightarrow> ('a list \<times> Cursor) res" where
  "read_times f 0 c = Inr ([], c)"
| "read_times f (Suc n) c =
     and_then (f c) (\<lambda>(x, c). and_then (read_times f n c) (\<lambda>(xs, c). Inr (x # xs, c)))"

text \<open>A loop over a list that may fail, with the output threaded through.\<close>

fun put_all :: "(u8 list \<Rightarrow> 'a \<Rightarrow> u8 list res) \<Rightarrow> u8 list \<Rightarrow> 'a list \<Rightarrow> u8 list res" where
  "put_all f out [] = Inr out"
| "put_all f out (x # xs) = and_then (f out x) (\<lambda>out. put_all f out xs)"

section \<open>Encoding\<close>

definition encode_sidecar :: "u8 list \<Rightarrow> SidecarMeta \<Rightarrow> u8 list res" where
  "encode_sidecar out sidecar =
     and_then (put_str out (sc_kind sidecar)) (\<lambda>out.
     and_then (put_str out (sc_relative_path sidecar)) (\<lambda>out.
     let out = put_u32 out (sc_generation sidecar);
         out = put_u64 out (sc_checksum sidecar);
         out = put_u32 out (sc_block_size sidecar);
         out = put_u64 out (sc_record_count sidecar) in
     Inr out))"

definition encode_chunk :: "u8 list \<Rightarrow> ChunkMeta \<Rightarrow> u8 list res" where
  "encode_chunk out chunk =
     (let out = put_u64 out (cm_chunk_id chunk) in
      and_then (put_str out (cm_month_key chunk)) (\<lambda>out.
      let out = put_i64 out (cm_start_ts chunk);
          out = put_i64 out (cm_end_ts chunk);
          out = put_u64 out (cm_count chunk);
          out = put_u8 out (chunk_state_as_u8 (cm_state chunk));
          out = put_u32 out (cm_layout_version chunk);
          out = put_u32 out (cm_header_len chunk);
          out = put_u32 out (cm_sparse_index_every chunk);
          out = put_u64 out (cm_sparse_index_offset chunk);
          out = put_u32 out (cm_sparse_index_len chunk);
          out = put_u64 out (cm_chunk_checksum chunk);
          out = put_u32 out (cm_generation chunk) in
      and_then (put_str out (cm_relative_path chunk)) (\<lambda>out.
      let out = put_u32 out (word_of_nat (length (cm_sidecars chunk))) in
      put_all encode_sidecar out (cm_sidecars chunk))))"

definition encode_manifest_body :: "SeriesMeta \<Rightarrow> u8 list res" where
  "encode_manifest_body meta =
     (let out = put_u32 [] (record_type_as_u32 (sm_record_type meta));
          out = put_u32 out (sm_record_size meta);
          out = put_u32 out (sm_schema_id meta);
          out = put_u64 out (sm_series_id meta);
          out = put_u64 out (sm_manifest_seq meta);
          out = put_i64 out (sm_created_at meta);
          out = put_i64 out (sm_updated_at meta);
          out = put_i64 out (sm_timeframe_ms meta);
          out = put_i64 out (sm_price_scale meta);
          out = put_i64 out (sm_volume_scale meta) in
      and_then (put_str out (sm_chunk_unit meta)) (\<lambda>out.
      let out = put_u64 out (case sm_active_chunk_id meta of None \<Rightarrow> 0 | Some chunk_id \<Rightarrow> chunk_id) in
      and_then (put_str out (sm_symbol meta)) (\<lambda>out.
      and_then (put_str out (sm_category meta)) (\<lambda>out.
      and_then (put_str out (sm_name meta)) (\<lambda>out.
      let out = put_u32 out (word_of_nat (length (sm_chunks meta))) in
      put_all encode_chunk out (sm_chunks meta))))))"

definition encode_manifest :: "SeriesMeta \<Rightarrow> u8 list res" where
  "encode_manifest meta =
     and_then (series_meta_validate meta) (\<lambda>_.
     and_then (encode_manifest_body meta) (\<lambda>body.
     let checksum = checksum64 body;
         bytes = MANIFEST_MAGIC;
         bytes = put_u32 bytes MANIFEST_VERSION;
         bytes = put_u32 bytes (sm_flags meta);
         bytes = put_u64 bytes checksum in
     Inr (bytes @ body)))"

section \<open>Decoding\<close>

definition decode_sidecar :: "Cursor \<Rightarrow> (SidecarMeta \<times> Cursor) res" where
  "decode_sidecar c =
     and_then (cursor_read_string c) (\<lambda>(kind, c).
     and_then (cursor_read_string c) (\<lambda>(relative_path, c).
     and_then (cursor_read_u32 c) (\<lambda>(generation, c).
     and_then (cursor_read_u64 c) (\<lambda>(checksum, c).
     and_then (cursor_read_u32 c) (\<lambda>(block_size, c).
     and_then (cursor_read_u64 c) (\<lambda>(record_count, c).
     Inr (\<lparr>sc_kind = kind, sc_relative_path = relative_path, sc_generation = generation,
           sc_checksum = checksum, sc_block_size = block_size, sc_record_count = record_count\<rparr>, c)))))))"

definition decode_chunk :: "Cursor \<Rightarrow> (ChunkMeta \<times> Cursor) res" where
  "decode_chunk c =
     and_then (cursor_read_u64 c) (\<lambda>(chunk_id, c).
     and_then (cursor_read_string c) (\<lambda>(key, c).
     and_then (cursor_read_i64 c) (\<lambda>(start_ts, c).
     and_then (cursor_read_i64 c) (\<lambda>(end_ts, c).
     and_then (cursor_read_u64 c) (\<lambda>(count, c).
     and_then (cursor_read_u8 c) (\<lambda>(state_byte, c).
     and_then (chunk_state_from_u8 state_byte) (\<lambda>state.
     and_then (cursor_read_u32 c) (\<lambda>(layout_version, c).
     and_then (cursor_read_u32 c) (\<lambda>(header_len, c).
     and_then (cursor_read_u32 c) (\<lambda>(sparse_index_every, c).
     and_then (cursor_read_u64 c) (\<lambda>(sparse_index_offset, c).
     and_then (cursor_read_u32 c) (\<lambda>(sparse_index_len, c).
     and_then (cursor_read_u64 c) (\<lambda>(chunk_checksum, c).
     and_then (cursor_read_u32 c) (\<lambda>(generation, c).
     and_then (cursor_read_string c) (\<lambda>(relative_path, c).
     and_then (cursor_read_u32 c) (\<lambda>(sidecar_count, c).
     and_then (read_times decode_sidecar (unat sidecar_count) c) (\<lambda>(sidecars, c).
     Inr (\<lparr>cm_chunk_id = chunk_id, cm_month_key = key, cm_start_ts = start_ts, cm_end_ts = end_ts,
           cm_count = count, cm_state = state, cm_layout_version = layout_version,
           cm_header_len = header_len, cm_sparse_index_every = sparse_index_every,
           cm_sparse_index_offset = sparse_index_offset, cm_sparse_index_len = sparse_index_len,
           cm_chunk_checksum = chunk_checksum, cm_generation = generation,
           cm_relative_path = relative_path, cm_sidecars = sidecars\<rparr>, c))))))))))))))))))"

definition decode_manifest_body :: "u32 \<Rightarrow> Cursor \<Rightarrow> SeriesMeta res" where
  "decode_manifest_body flags c =
     and_then (cursor_read_u32 c) (\<lambda>(record_type_word, c).
     and_then (record_type_from_u32 record_type_word) (\<lambda>record_type.
     and_then (cursor_read_u32 c) (\<lambda>(record_size, c).
     and_then (cursor_read_u32 c) (\<lambda>(schema_id, c).
     and_then (cursor_read_u64 c) (\<lambda>(series_id, c).
     and_then (cursor_read_u64 c) (\<lambda>(manifest_seq, c).
     and_then (cursor_read_i64 c) (\<lambda>(created_at, c).
     and_then (cursor_read_i64 c) (\<lambda>(updated_at, c).
     and_then (cursor_read_i64 c) (\<lambda>(timeframe_ms, c).
     and_then (cursor_read_i64 c) (\<lambda>(price_scale, c).
     and_then (cursor_read_i64 c) (\<lambda>(volume_scale, c).
     and_then (cursor_read_string c) (\<lambda>(chunk_unit, c).
     and_then (cursor_read_u64 c) (\<lambda>(active, c).
     and_then (cursor_read_string c) (\<lambda>(symbol, c).
     and_then (cursor_read_string c) (\<lambda>(category, c).
     and_then (cursor_read_string c) (\<lambda>(name, c).
     and_then (cursor_read_u32 c) (\<lambda>(chunk_count, c).
     and_then (read_times decode_chunk (unat chunk_count) c) (\<lambda>(chunks, c).
     Inr \<lparr>sm_symbol = symbol, sm_category = category, sm_name = name, sm_timeframe_ms = timeframe_ms,
          sm_record_type = record_type, sm_record_size = record_size, sm_schema_id = schema_id,
          sm_price_scale = price_scale, sm_volume_scale = volume_scale, sm_chunk_unit = chunk_unit,
          sm_series_id = series_id, sm_manifest_seq = manifest_seq, sm_created_at = created_at,
          sm_updated_at = updated_at, sm_flags = flags,
          sm_active_chunk_id = (if active = 0 then None else Some active), sm_chunks = chunks\<rparr>))))))))))))))))))"

definition decode_manifest :: "u8 list \<Rightarrow> SeriesMeta res" where
  "decode_manifest bytes =
     and_then (ensure (\<not> length bytes < MANIFEST_HEADER_LEN) (InvalidData ''manifest is too short'')) (\<lambda>_.
     and_then (ensure (slice_of 0 8 bytes = MANIFEST_MAGIC) (InvalidData ''invalid manifest magic'')) (\<lambda>_.
     and_then (cursor_read_u32 (drop 8 bytes)) (\<lambda>(version, c).
     and_then (cursor_read_u32 c) (\<lambda>(flags, c).
     and_then (cursor_read_u64 c) (\<lambda>(checksum, c).
     and_then (ensure (version = MANIFEST_VERSION) (InvalidData ''unsupported manifest version'')) (\<lambda>_.
     let body = drop MANIFEST_HEADER_LEN bytes in
     and_then (ensure (checksum64 body = checksum) (InvalidData ''manifest checksum mismatch'')) (\<lambda>_.
     decode_manifest_body flags body)))))))"

section \<open>Round trip\<close>

lemma cursor_read_simps [simp]:
  "cursor_read_u32 (le_bytes 4 (v :: u32) @ r) = Inr (v, r)"
  "cursor_read_u64 (le_bytes 8 (w :: u64) @ r) = Inr (w, r)"
  "cursor_read_i64 (i64_le_bytes x @ r) = Inr (x, r)"
  "cursor_read_u8 (b # r) = Inr (b, r)"
  by (simp_all add: cursor_read_u32_def cursor_read_u64_def cursor_read_i64_def cursor_read_u8_def
      cursor_read_exact_def)

text \<open>The bytes of a string field, and when it can be written and read.\<close>

definition str_bytes :: "string \<Rightarrow> u8 list" where
  "str_bytes s = le_bytes 2 (word_of_nat (length s) :: u16) @ as_bytes s"

lemma put_str_eq: "put_str out s = Inr r \<longleftrightarrow> length s < 2 ^ 16 \<and> r = out @ str_bytes s"
  by (auto simp: put_str_def str_bytes_def res_simps Let_def)

lemma cursor_read_string_simp:
  assumes "length s < 2 ^ 16" and "valid_utf8 s"
  shows "cursor_read_string (str_bytes s @ r) = Inr (s, r)"
proof -
  have "unat (word_of_nat (length s) :: u16) = length s"
    using assms(1) by (simp add: unsigned_of_nat take_bit_nat_eq_self)
  then show ?thesis using assms(2)
    by (simp add: cursor_read_string_def str_bytes_def cursor_read_exact_def Let_def)
qed

text \<open>Loops: if each item's bytes are read back, so are the bytes of the list.\<close>

lemma put_all_bytes:
  assumes "\<And>out x r. x \<in> set xs \<Longrightarrow> f out x = Inr r \<Longrightarrow> r = out @ g x"
  shows "put_all f out xs = Inr r \<Longrightarrow> r = out @ concat (map g xs)"
  using assms
proof (induction xs arbitrary: out)
  case (Cons x xs)
  then obtain o' where o': "f out x = Inr o'" "put_all f o' xs = Inr r" by (auto simp: res_simps)
  have "o' = out @ g x" using Cons.prems(2) o'(1) by simp
  moreover have "r = o' @ concat (map g xs)" using Cons.IH [OF o'(2)] Cons.prems(2) by simp
  ultimately show ?case by simp
qed simp

lemma put_all_each: "put_all f out xs = Inr r \<Longrightarrow> x \<in> set xs \<Longrightarrow> \<exists>o1 o2. f o1 x = Inr o2"
  by (induction xs arbitrary: out) (auto simp: res_simps)

lemma read_times_concat:
  "(\<And>x r. x \<in> set xs \<Longrightarrow> f (g x @ r) = Inr (x, r)) \<Longrightarrow>
     read_times f (length xs) (concat (map g xs) @ r) = Inr (xs, r)"
  by (induction xs) simp_all

text \<open>
  Strings are valid UTF-8 (which the Rust type guarantees) and the counts fit their fields;
  the code truncates a count with \<open>as u32\<close> and writes an absent active chunk as zero.
\<close>

definition sidecar_fits :: "SidecarMeta \<Rightarrow> bool" where
  "sidecar_fits s \<longleftrightarrow> valid_utf8 (sc_kind s) \<and> valid_utf8 (sc_relative_path s)"

definition chunk_fits :: "ChunkMeta \<Rightarrow> bool" where
  "chunk_fits c \<longleftrightarrow> valid_utf8 (cm_month_key c) \<and> valid_utf8 (cm_relative_path c)
     \<and> length (cm_sidecars c) < 2 ^ 32 \<and> (\<forall>s \<in> set (cm_sidecars c). sidecar_fits s)"

definition manifest_fits :: "SeriesMeta \<Rightarrow> bool" where
  "manifest_fits m \<longleftrightarrow> valid_utf8 (sm_chunk_unit m) \<and> valid_utf8 (sm_symbol m) \<and> valid_utf8 (sm_category m)
     \<and> valid_utf8 (sm_name m) \<and> length (sm_chunks m) < 2 ^ 32 \<and> (\<forall>c \<in> set (sm_chunks m). chunk_fits c)
     \<and> sm_active_chunk_id m \<noteq> Some 0"

definition sidecar_bytes :: "SidecarMeta \<Rightarrow> u8 list" where
  "sidecar_bytes s =
     str_bytes (sc_kind s) @ str_bytes (sc_relative_path s) @ le_bytes 4 (sc_generation s)
     @ le_bytes 8 (sc_checksum s) @ le_bytes 4 (sc_block_size s) @ le_bytes 8 (sc_record_count s)"

lemma encode_sidecar_eq:
  "encode_sidecar out s = Inr r \<longleftrightarrow>
     length (sc_kind s) < 2 ^ 16 \<and> length (sc_relative_path s) < 2 ^ 16 \<and> r = out @ sidecar_bytes s"
  by (auto simp: encode_sidecar_def res_simps put_str_eq put_u32_def put_u64_def sidecar_bytes_def)

lemma decode_sidecar_bytes:
  "encode_sidecar out s = Inr o' \<Longrightarrow> sidecar_fits s \<Longrightarrow> decode_sidecar (sidecar_bytes s @ r) = Inr (s, r)"
  by (simp add: encode_sidecar_eq sidecar_fits_def decode_sidecar_def sidecar_bytes_def cursor_read_string_simp)

definition chunk_bytes :: "ChunkMeta \<Rightarrow> u8 list" where
  "chunk_bytes c =
     le_bytes 8 (cm_chunk_id c) @ str_bytes (cm_month_key c) @ i64_le_bytes (cm_start_ts c)
     @ i64_le_bytes (cm_end_ts c) @ le_bytes 8 (cm_count c) @ chunk_state_as_u8 (cm_state c)
     # le_bytes 4 (cm_layout_version c) @ le_bytes 4 (cm_header_len c) @ le_bytes 4 (cm_sparse_index_every c)
     @ le_bytes 8 (cm_sparse_index_offset c) @ le_bytes 4 (cm_sparse_index_len c)
     @ le_bytes 8 (cm_chunk_checksum c) @ le_bytes 4 (cm_generation c) @ str_bytes (cm_relative_path c)
     @ le_bytes 4 (word_of_nat (length (cm_sidecars c)) :: u32) @ concat (map sidecar_bytes (cm_sidecars c))"

lemma encode_chunk_bytes:
  assumes "encode_chunk out c = Inr r"
  shows "r = out @ chunk_bytes c" and "length (cm_month_key c) < 2 ^ 16" and "length (cm_relative_path c) < 2 ^ 16"
    and "s \<in> set (cm_sidecars c) \<Longrightarrow> \<exists>o1 o2. encode_sidecar o1 s = Inr o2"
proof -
  obtain o1 where o1: "put_all encode_sidecar o1 (cm_sidecars c) = Inr r"
    and b: "o1 @ concat (map sidecar_bytes (cm_sidecars c)) = out @ chunk_bytes c"
    and l: "length (cm_month_key c) < 2 ^ 16" "length (cm_relative_path c) < 2 ^ 16"
    using assms by (auto simp: encode_chunk_def res_simps put_str_eq put_u32_def put_u64_def put_i64_def
        put_u8_def chunk_bytes_def Let_def)
  have "r = o1 @ concat (map sidecar_bytes (cm_sidecars c))"
    using put_all_bytes [of "cm_sidecars c" encode_sidecar sidecar_bytes, OF _ o1] by (simp add: encode_sidecar_eq)
  with b show "r = out @ chunk_bytes c" by simp
  show "length (cm_month_key c) < 2 ^ 16" "length (cm_relative_path c) < 2 ^ 16" by (rule l)+
  show "s \<in> set (cm_sidecars c) \<Longrightarrow> \<exists>o1 o2. encode_sidecar o1 s = Inr o2" using put_all_each [OF o1] .
qed

lemma decode_chunk_bytes:
  assumes "encode_chunk out c = Inr o'" and "chunk_fits c"
  shows "decode_chunk (chunk_bytes c @ r) = Inr (c, r)"
proof -
  note e = encode_chunk_bytes [OF assms(1)]
  have n: "unat (word_of_nat (length (cm_sidecars c)) :: u32) = length (cm_sidecars c)"
    using assms(2) by (simp add: chunk_fits_def unsigned_of_nat take_bit_nat_eq_self)
  have s: "read_times decode_sidecar (length (cm_sidecars c)) (concat (map sidecar_bytes (cm_sidecars c)) @ r)
      = Inr (cm_sidecars c, r)" for r
    using e(4) assms(2) decode_sidecar_bytes by (intro read_times_concat) (fastforce simp: chunk_fits_def)
  show ?thesis using e(2,3) assms(2)
    by (simp add: decode_chunk_def chunk_bytes_def cursor_read_string_simp chunk_fits_def n s)
qed

definition body_bytes :: "SeriesMeta \<Rightarrow> u8 list" where
  "body_bytes m =
     le_bytes 4 (record_type_as_u32 (sm_record_type m)) @ le_bytes 4 (sm_record_size m)
     @ le_bytes 4 (sm_schema_id m) @ le_bytes 8 (sm_series_id m) @ le_bytes 8 (sm_manifest_seq m)
     @ i64_le_bytes (sm_created_at m) @ i64_le_bytes (sm_updated_at m) @ i64_le_bytes (sm_timeframe_ms m)
     @ i64_le_bytes (sm_price_scale m) @ i64_le_bytes (sm_volume_scale m) @ str_bytes (sm_chunk_unit m)
     @ le_bytes 8 (case sm_active_chunk_id m of None \<Rightarrow> 0 | Some chunk_id \<Rightarrow> chunk_id)
     @ str_bytes (sm_symbol m) @ str_bytes (sm_category m) @ str_bytes (sm_name m)
     @ le_bytes 4 (word_of_nat (length (sm_chunks m)) :: u32) @ concat (map chunk_bytes (sm_chunks m))"

lemma encode_body_bytes:
  assumes "encode_manifest_body m = Inr r"
  shows "r = body_bytes m" and "length (sm_chunk_unit m) < 2 ^ 16" and "length (sm_symbol m) < 2 ^ 16"
    and "length (sm_category m) < 2 ^ 16" and "length (sm_name m) < 2 ^ 16"
    and "c \<in> set (sm_chunks m) \<Longrightarrow> \<exists>o1 o2. encode_chunk o1 c = Inr o2"
proof -
  obtain o1 where o1: "put_all encode_chunk o1 (sm_chunks m) = Inr r"
    and b: "o1 @ concat (map chunk_bytes (sm_chunks m)) = body_bytes m"
    and l: "length (sm_chunk_unit m) < 2 ^ 16" "length (sm_symbol m) < 2 ^ 16"
      "length (sm_category m) < 2 ^ 16" "length (sm_name m) < 2 ^ 16"
    using assms by (auto simp: encode_manifest_body_def res_simps put_str_eq put_u32_def put_u64_def put_i64_def
        body_bytes_def Let_def)
  have "r = o1 @ concat (map chunk_bytes (sm_chunks m))"
    using put_all_bytes [of "sm_chunks m" encode_chunk chunk_bytes, OF _ o1] encode_chunk_bytes(1) by blast
  with b show "r = body_bytes m" by simp
  show "length (sm_chunk_unit m) < 2 ^ 16" "length (sm_symbol m) < 2 ^ 16"
    "length (sm_category m) < 2 ^ 16" "length (sm_name m) < 2 ^ 16" by (rule l)+
  show "c \<in> set (sm_chunks m) \<Longrightarrow> \<exists>o1 o2. encode_chunk o1 c = Inr o2" using put_all_each [OF o1] .
qed

lemma decode_body_bytes:
  assumes "encode_manifest_body m = Inr r" and "manifest_fits m"
  shows "decode_manifest_body (sm_flags m) (body_bytes m) = Inr m"
proof -
  note e = encode_body_bytes [OF assms(1)]
  have n: "unat (word_of_nat (length (sm_chunks m)) :: u32) = length (sm_chunks m)"
    using assms(2) by (simp add: manifest_fits_def unsigned_of_nat take_bit_nat_eq_self)
  have c: "read_times decode_chunk (length (sm_chunks m)) (concat (map chunk_bytes (sm_chunks m)))
      = Inr (sm_chunks m, [])"
    using read_times_concat [of "sm_chunks m" decode_chunk chunk_bytes "[]"] e(6) assms(2) decode_chunk_bytes
    by (fastforce simp: manifest_fits_def)
  have a: "(if (case sm_active_chunk_id m of None \<Rightarrow> 0 | Some chunk_id \<Rightarrow> chunk_id) = 0 then None
      else Some (case sm_active_chunk_id m of None \<Rightarrow> 0 | Some chunk_id \<Rightarrow> chunk_id)) = sm_active_chunk_id m"
    using assms(2) by (auto simp: manifest_fits_def split: option.splits)
  show ?thesis using e(2-5) assms(2)
    by (simp add: decode_manifest_body_def body_bytes_def cursor_read_string_simp manifest_fits_def n c a)
qed

lemma encode_manifest_eq:
  "encode_manifest m = Inr bytes \<Longrightarrow>
     encode_manifest_body m = Inr (body_bytes m) \<and> series_meta_validate m = Inr ()
     \<and> bytes = MANIFEST_MAGIC @ le_bytes 4 MANIFEST_VERSION @ le_bytes 4 (sm_flags m)
         @ le_bytes 8 (checksum64 (body_bytes m)) @ body_bytes m"
  by (auto simp: encode_manifest_def res_simps put_u32_def put_u64_def Let_def dest: encode_body_bytes(1))

lemma length_MANIFEST_MAGIC [simp]: "length MANIFEST_MAGIC = 8"
  by (simp add: MANIFEST_MAGIC_def)

lemma decode_manifest_frame:
  "decode_manifest (MANIFEST_MAGIC @ le_bytes 4 version @ le_bytes 4 flags @ le_bytes 8 checksum @ body) =
     and_then (ensure (version = MANIFEST_VERSION) (InvalidData ''unsupported manifest version'')) (\<lambda>_.
     and_then (ensure (checksum64 body = checksum) (InvalidData ''manifest checksum mismatch'')) (\<lambda>_.
     decode_manifest_body flags body))"
  by (simp add: decode_manifest_def slice_of_def MANIFEST_HEADER_LEN_def)

text \<open>The encoder rejects nothing but an invalid manifest or a string of 64 KiB and more.\<close>

definition manifest_strings :: "SeriesMeta \<Rightarrow> string list" where
  "manifest_strings m =
     [sm_chunk_unit m, sm_symbol m, sm_category m, sm_name m]
     @ concat (map (\<lambda>c. [cm_month_key c, cm_relative_path c]
         @ concat (map (\<lambda>s. [sc_kind s, sc_relative_path s]) (cm_sidecars c))) (sm_chunks m))"

lemma put_str_ok: "length s < 2 ^ 16 \<Longrightarrow> put_str out s = Inr (out @ str_bytes s)"
  by (simp add: put_str_eq)

lemma put_all_total: "\<forall>x \<in> set xs. \<forall>out. \<exists>r. f out x = Inr r \<Longrightarrow> \<exists>r. put_all f out xs = Inr r"
  by (induction xs arbitrary: out) (simp, metis and_then.simps(2) list.set_intros put_all.simps(2))

lemma encode_chunk_total:
  assumes "length (cm_month_key c) < 2 ^ 16" and "length (cm_relative_path c) < 2 ^ 16"
    and "\<forall>s \<in> set (cm_sidecars c). length (sc_kind s) < 2 ^ 16 \<and> length (sc_relative_path s) < 2 ^ 16"
  shows "\<exists>r. encode_chunk out c = Inr r"
proof -
  have "\<exists>r. encode_sidecar o' s = Inr r" if "s \<in> set (cm_sidecars c)" for s o'
    using assms(3) that by (simp add: encode_sidecar_def put_str_ok)
  then have "\<exists>r. put_all encode_sidecar o' (cm_sidecars c) = Inr r" for o' by (intro put_all_total) blast
  with assms(1,2) show ?thesis by (simp add: encode_chunk_def put_str_ok Let_def)
qed

lemma encode_manifest_total:
  assumes v: "series_meta_validate m = Inr ()" and short: "\<forall>s \<in> set (manifest_strings m). length s < 2 ^ 16"
  shows "\<exists>bytes. encode_manifest m = Inr bytes"
proof -
  have "\<exists>r. put_all encode_chunk o' (sm_chunks m) = Inr r" for o'
  proof (rule put_all_total, intro ballI allI)
    fix c o'' assume "c \<in> set (sm_chunks m)"
    then show "\<exists>r. encode_chunk o'' c = Inr r"
      using short by (intro encode_chunk_total) (auto simp: manifest_strings_def)
  qed
  then have "\<exists>body. encode_manifest_body m = Inr body"
    using short by (simp add: encode_manifest_body_def put_str_ok Let_def manifest_strings_def)
  then show ?thesis using v by (auto simp: encode_manifest_def Let_def)
qed

lemma manifest_roundtrip:
  assumes "encode_manifest m = Inr bytes" and "manifest_fits m"
  shows "decode_manifest bytes = Inr m"
  using encode_manifest_eq [OF assms(1)] decode_body_bytes [OF _ assms(2)]
  by (auto simp: decode_manifest_frame)

section \<open>Updates of the chunk list\<close>

text \<open>The first entry with the id is overwritten, or the entry is appended.\<close>

fun overwrite_chunk :: "ChunkMeta \<Rightarrow> ChunkMeta list \<Rightarrow> ChunkMeta list" where
  "overwrite_chunk c [] = [c]"
| "overwrite_chunk c (d # ds) = (if cm_chunk_id d = cm_chunk_id c then c # ds else d # overwrite_chunk c ds)"

text \<open>Both updates change the manifest even when the final validation fails.\<close>

definition upsert_chunk_meta :: "i64 \<Rightarrow> SeriesMeta \<Rightarrow> ChunkMeta \<Rightarrow> SeriesMeta \<times> unit res" where
  "upsert_chunk_meta now meta chunk_meta =
     (let chunks = sort_key cm_start_ts (overwrite_chunk chunk_meta (sm_chunks meta));
          meta = meta\<lparr>sm_chunks := chunks, sm_manifest_seq := saturating_add (sm_manifest_seq meta) 1,
                      sm_updated_at := now\<rparr> in
      (meta, series_meta_validate meta))"

definition replace_month_chunks ::
  "i64 \<Rightarrow> SeriesMeta \<Rightarrow> string \<Rightarrow> ChunkMeta \<Rightarrow> SeriesMeta \<times> ChunkMeta list res" where
  "replace_month_chunks now meta key replacement =
     (let removed = filter (\<lambda>c. cm_month_key c = key) (sm_chunks meta);
          kept = filter (\<lambda>c. cm_month_key c \<noteq> key) (sm_chunks meta);
          chunks = sort_key cm_start_ts (kept @ [replacement]);
          meta = meta\<lparr>sm_chunks := chunks,
                      sm_active_chunk_id := map_option cm_chunk_id (find (\<lambda>c. cm_state c = Active) (rev chunks)),
                      sm_manifest_seq := saturating_add (sm_manifest_seq meta) 1,
                      sm_updated_at := now\<rparr> in
      (meta, and_then (series_meta_validate meta) (\<lambda>_. Inr removed)))"

lemma set_overwrite_chunk:
  "distinct (map cm_chunk_id cs) \<Longrightarrow>
     set (overwrite_chunk c cs) = insert c {d \<in> set cs. cm_chunk_id d \<noteq> cm_chunk_id c}"
  by (induction cs) (auto, metis rev_image_eqI)

lemma distinct_overwrite_chunk:
  "distinct (map cm_chunk_id cs) \<Longrightarrow> distinct (map cm_chunk_id (overwrite_chunk c cs))"
proof (induction cs)
  case (Cons d ds)
  have "set (overwrite_chunk c ds) = insert c {e \<in> set ds. cm_chunk_id e \<noteq> cm_chunk_id c}"
    using Cons.prems by (intro set_overwrite_chunk) simp
  with Cons show ?case by auto
qed simp

lemma spans_of_sorted:
  assumes "sorted (map cm_start_ts cs)" and "\<forall>c \<in> set cs. cm_start_ts c \<le> cm_end_ts c"
    and "\<forall>c \<in> set cs. \<forall>d \<in> set cs. c \<noteq> d \<longrightarrow> cm_end_ts c < cm_start_ts d \<or> cm_end_ts d < cm_start_ts c"
    and "distinct cs"
  shows "spans_ordered cs"
proof -
  have "cm_end_ts (cs ! i) < cm_start_ts (cs ! j)" if "i < j" "j < length cs" for i j
  proof -
    have "cs ! i \<noteq> cs ! j" using assms(4) that by (simp add: nth_eq_iff_index_eq)
    moreover have "cm_start_ts (cs ! i) \<le> cm_start_ts (cs ! j)"
      using sorted_nth_mono [OF assms(1), of i j] that by simp
    ultimately show ?thesis using assms(2,3) that nth_mem
      by (metis leD order.strict_trans1 less_trans)
  qed
  then show ?thesis using assms(2) by (auto simp: spans_ordered_def sorted_wrt_iff_nth_less)
qed

lemma sort_key_spans:
  assumes "\<forall>c \<in> set cs. cm_start_ts c \<le> cm_end_ts c" and "distinct cs"
    and "\<forall>c \<in> set cs. \<forall>d \<in> set cs. c \<noteq> d \<longrightarrow> cm_end_ts c < cm_start_ts d \<or> cm_end_ts d < cm_start_ts c"
  shows "spans_ordered (sort_key cm_start_ts cs)"
  using assms by (intro spans_of_sorted) simp_all

section \<open>Legacy manifests\<close>

record LegacyChunkMeta =
  lc_file_name :: string
  lc_start_ts :: i64
  lc_end_ts :: i64
  lc_count :: u64

record LegacySeriesMeta =
  ls_symbol :: string
  ls_category :: string
  ls_name :: string
  ls_timeframe_ms :: i64
  ls_record_size :: u32
  ls_schema_id :: u32
  ls_price_scale :: i64
  ls_volume_scale :: i64
  ls_chunk_unit :: string
  ls_series_id :: u64
  ls_chunks :: "LegacyChunkMeta list"

definition migrate_legacy_chunk :: "calendar \<Rightarrow> nat \<times> LegacyChunkMeta \<Rightarrow> ChunkMeta res" where
  "migrate_legacy_chunk utc = (\<lambda>(index, chunk).
     and_then (month_key utc (lc_start_ts chunk)) (\<lambda>key.
     Inr \<lparr>cm_chunk_id = word_of_nat (index + 1), cm_month_key = key, cm_start_ts = lc_start_ts chunk,
          cm_end_ts = lc_end_ts chunk, cm_count = lc_count chunk, cm_state = Sealed,
          cm_layout_version = 1, cm_header_len = 88,
          cm_sparse_index_every = DEFAULT_SPARSE_INDEX_EVERY, cm_sparse_index_offset = 0,
          cm_sparse_index_len = 0, cm_chunk_checksum = 0, cm_generation = 1,
          cm_relative_path = chunk_relative_path (lc_file_name chunk), cm_sidecars = []\<rparr>))"

definition migrate_legacy_json :: "calendar \<Rightarrow> i64 \<Rightarrow> LegacySeriesMeta \<Rightarrow> SeriesMeta res" where
  "migrate_legacy_json utc now legacy =
     and_then (collect_res (migrate_legacy_chunk utc) (enumerate 0 (ls_chunks legacy))) (\<lambda>chunks.
     let meta =
       \<lparr>sm_symbol = ls_symbol legacy, sm_category = ls_category legacy, sm_name = ls_name legacy,
        sm_timeframe_ms = ls_timeframe_ms legacy, sm_record_type = Kline,
        sm_record_size = ls_record_size legacy, sm_schema_id = ls_schema_id legacy,
        sm_price_scale = ls_price_scale legacy, sm_volume_scale = ls_volume_scale legacy,
        sm_chunk_unit = ls_chunk_unit legacy, sm_series_id = ls_series_id legacy,
        sm_manifest_seq = 1, sm_created_at = now, sm_updated_at = now, sm_flags = 0,
        sm_active_chunk_id = None, sm_chunks = chunks\<rparr> in
     and_then (series_meta_validate meta) (\<lambda>_. Inr meta))"

section \<open>Saving and loading\<close>

text \<open>
  The file system with the process-wide manifest cache. A fingerprint is a file's length and
  modification time; modification times (\<open>mtime\<close>), the clock and the JSON parser are
  parameters. The cache is keyed by the manifest's path.
\<close>

record ManifestFingerprint =
  fp_len :: u64
  fp_modified_ns :: nat

record CachedManifest =
  cached_fingerprint :: ManifestFingerprint
  cached_meta :: SeriesMeta

record ManifestStore =
  ms_fs :: fs_state
  ms_cache :: "path \<rightharpoonup> CachedManifest"

type_synonym mtime = "fs_state \<Rightarrow> path \<Rightarrow> nat"

definition manifest_fingerprint :: "mtime \<Rightarrow> fs_state \<Rightarrow> path \<Rightarrow> ManifestFingerprint res" where
  "manifest_fingerprint mtime fs p =
     and_then (ok_or (fs_files fs p) (Io NotFoundKind)) (\<lambda>f.
     Inr \<lparr>fp_len = word_of_nat (length (f_data f)), fp_modified_ns = mtime fs p\<rparr>)"

definition save_series_meta ::
  "mtime \<Rightarrow> os_outcome \<Rightarrow> ManifestStore \<Rightarrow> path \<Rightarrow> SeriesMeta \<Rightarrow> ManifestStore \<times> unit res" where
  "save_series_meta mtime os st dir meta =
     (let meta_path = series_meta_path dir in
      case and_then (series_meta_validate meta) (\<lambda>_. encode_manifest meta) of
        Inl e \<Rightarrow> (st, Inl e)
      | Inr bytes \<Rightarrow>
          let (trace, r) = atomic_write_replace os meta_path (bytes, None) (ms_fs st);
              st = st\<lparr>ms_fs := last trace\<rparr> in
          (case and_then r (\<lambda>_. manifest_fingerprint mtime (ms_fs st) meta_path) of
             Inl e \<Rightarrow> (st, Inl e)
           | Inr fp \<Rightarrow>
               (st\<lparr>ms_cache := (ms_cache st)(meta_path \<mapsto> \<lparr>cached_fingerprint = fp, cached_meta = meta\<rparr>)\<rparr>, Inr ())))"

definition load_series_meta_shared_cached :: "ManifestStore \<Rightarrow> path \<Rightarrow> SeriesMeta option" where
  "load_series_meta_shared_cached st dir = map_option cached_meta (ms_cache st (series_meta_path dir))"

text \<open>
  \<open>decode_or_migrate\<close> is the part of the load that turns the bytes into a manifest; a legacy one
  is saved in the binary format on the way.
\<close>

definition decode_or_migrate ::
  "(u8 list \<Rightarrow> LegacySeriesMeta option) \<Rightarrow> calendar \<Rightarrow> i64 \<Rightarrow> mtime \<Rightarrow> os_outcome \<Rightarrow> ManifestStore \<Rightarrow> path \<Rightarrow>
   bool \<Rightarrow> u8 list \<Rightarrow> ManifestStore \<times> SeriesMeta res" where
  "decode_or_migrate json utc now mtime os st dir read_only bytes =
     (if take 8 bytes = MANIFEST_MAGIC then (st, decode_manifest bytes)
      else if read_only then
        (st, Inl (InvalidInput ''legacy JSON manifest requires explicit writable migration''))
      else case and_then (ok_or (json bytes) (Serde ''invalid json'')) (migrate_legacy_json utc now) of
        Inl e \<Rightarrow> (st, Inl e)
      | Inr migrated \<Rightarrow>
          let (st, saved) = save_series_meta mtime os st dir migrated in
          (st, and_then saved (\<lambda>_. Inr migrated)))"

definition load_series_meta_shared_mode ::
  "(u8 list \<Rightarrow> LegacySeriesMeta option) \<Rightarrow> calendar \<Rightarrow> i64 \<Rightarrow> mtime \<Rightarrow> os_outcome \<Rightarrow> ManifestStore \<Rightarrow> path \<Rightarrow>
   bool \<Rightarrow> ManifestStore \<times> SeriesMeta res" where
  "load_series_meta_shared_mode json utc now mtime os st dir read_only =
     (let meta_path = series_meta_path dir in
      if \<not> read_only \<and> \<not> fs_exists (ms_fs st) meta_path then (st, Inl (NotFound ''series meta not found''))
      else
        let hit = (if read_only then Inr None
                   else and_then (manifest_fingerprint mtime (ms_fs st) meta_path) (\<lambda>fp.
                     case ms_cache st meta_path of
                       Some cached \<Rightarrow> Inr (if cached_fingerprint cached = fp then Some (cached_meta cached) else None)
                     | None \<Rightarrow> Inr None)) in
        case hit of
          Inl e \<Rightarrow> (st, Inl e)
        | Inr (Some meta) \<Rightarrow> (st, Inr meta)
        | Inr None \<Rightarrow>
            (case fs_files (ms_fs st) meta_path of
               None \<Rightarrow> (st, Inl (NotFound ''series meta not found''))
             | Some f \<Rightarrow>
                 let (st, decoded) = decode_or_migrate json utc now mtime os st dir read_only (f_data f) in
                 (case and_then decoded (\<lambda>meta. and_then (series_meta_validate meta) (\<lambda>_. Inr meta)) of
                    Inl e \<Rightarrow> (st, Inl e)
                  | Inr meta \<Rightarrow>
                      if read_only then (st, Inr meta)
                      else (case manifest_fingerprint mtime (ms_fs st) meta_path of
                          Inl e \<Rightarrow> (st, Inl e)
                        | Inr fp \<Rightarrow>
                            (st\<lparr>ms_cache := (ms_cache st)(meta_path \<mapsto> \<lparr>cached_fingerprint = fp, cached_meta = meta\<rparr>)\<rparr>,
                             Inr meta)))))"

lemma save_series_meta_Inr:
  assumes "save_series_meta mtime os st dir m = (st', Inr ())"
  obtains bytes where "encode_manifest m = Inr bytes" and "series_meta_validate m = Inr ()"
    and "fs_files (ms_fs st') (series_meta_path dir) = Some \<lparr>f_data = bytes, f_synced = True\<rparr>"
    and "map_option cached_meta (ms_cache st' (series_meta_path dir)) = Some m"
    and "map_option cached_fingerprint (ms_cache st' (series_meta_path dir))
      = Some \<lparr>fp_len = word_of_nat (length bytes), fp_modified_ns = mtime (ms_fs st') (series_meta_path dir)\<rparr>"
proof -
  let ?p = "series_meta_path dir"
  obtain bytes where b: "encode_manifest m = Inr bytes" "series_meta_validate m = Inr ()"
    using assms by (auto simp: save_series_meta_def Let_def res_simps split: sum.splits)
  obtain trace r where w: "atomic_write_replace os ?p (bytes, None) (ms_fs st) = (trace, r)" by fastforce
  from assms b w obtain fp where r: "r = Inr ()" and fp: "manifest_fingerprint mtime (last trace) ?p = Inr fp"
    and st': "st' = st\<lparr>ms_fs := last trace, ms_cache := (ms_cache st)(?p \<mapsto> \<lparr>cached_fingerprint = fp, cached_meta = m\<rparr>)\<rparr>"
    by (auto simp: save_series_meta_def Let_def res_simps split: sum.splits)
  note d = atomic_write_done [OF w [unfolded atomic_write_replace_def r]]
  show thesis using that b st' d fp by (auto simp: manifest_fingerprint_def)
qed

lemma save_then_load:
  assumes s: "save_series_meta mtime os st dir m = (st', Inr ())" and f: "manifest_fits m"
  shows "load_series_meta_shared_mode json utc now mtime os' st' dir read_only = (st', Inr m)"
proof -
  let ?p = "series_meta_path dir"
  obtain bytes where b: "encode_manifest m = Inr bytes" "series_meta_validate m = Inr ()"
    and d: "fs_files (ms_fs st') ?p = Some \<lparr>f_data = bytes, f_synced = True\<rparr>"
    and c: "map_option cached_meta (ms_cache st' ?p) = Some m"
      "map_option cached_fingerprint (ms_cache st' ?p)
        = Some \<lparr>fp_len = word_of_nat (length bytes), fp_modified_ns = mtime (ms_fs st') ?p\<rparr>"
    using save_series_meta_Inr [OF s] by metis
  have m: "take 8 bytes = MANIFEST_MAGIC" using encode_manifest_eq [OF b(1)] by simp
  show ?thesis
  proof (cases read_only)
    case True
    then show ?thesis using d m manifest_roundtrip [OF b(1) f] b(2)
      by (simp add: load_series_meta_shared_mode_def decode_or_migrate_def Let_def)
  next
    case False
    then show ?thesis using d c
      by (auto simp: load_series_meta_shared_mode_def manifest_fingerprint_def fs_exists_def Let_def)
  qed
qed

end
