(* ===== verification/Compaction.thy ===== *)
theory Compaction
  imports Meta Paths
begin

text \<open>
  Compaction decisions and the chunk life cycle (\<^verbatim>\<open>src/src/store_core/engine/compaction.rs\<close>):
  when the deltas of a month are merged, which state changes a chunk may make, and the state of
  a merged chunk. The state changes are a step relation; a replaced chunk never changes again.
\<close>

record CompactionPolicy =
  cp_delta_chunk_threshold :: nat
  cp_delta_total_bytes_threshold :: u64
  cp_append_count_threshold :: nat
  cp_auto_merge :: bool

definition compaction_policy_default :: CompactionPolicy where
  "compaction_policy_default =
     \<lparr>cp_delta_chunk_threshold = 4, cp_delta_total_bytes_threshold = 4 * 1024 * 1024,
      cp_append_count_threshold = 4, cp_auto_merge = False\<rparr>"

record CompactionDecision =
  cd_month_key :: string
  cd_total_chunks :: nat
  cd_delta_chunk_count :: nat
  cd_delta_total_bytes :: u64
  cd_append_count :: nat
  cd_should_merge :: bool
  cd_reasons :: "string list"

text \<open>The sum of the byte sizes wraps, as unchecked arithmetic does in a release build.\<close>

definition evaluate_month :: "CompactionPolicy \<Rightarrow> SeriesMeta \<Rightarrow> string \<Rightarrow> CompactionDecision option" where
  "evaluate_month policy meta key =
     (let month_chunks = filter (\<lambda>c. cm_month_key c = key) (sm_chunks meta) in
      if month_chunks = [] then None
      else
        let readable = sort_key cm_start_ts (filter (\<lambda>c. is_readable (cm_state c)) month_chunks);
            delta_chunk_count = length readable - 1;
            delta_total_bytes = sum_list (map (\<lambda>c. saturating_mul (cm_count c) (ucast (sm_record_size meta))) (drop 1 readable));
            append_count = delta_chunk_count;
            reasons =
              (if delta_chunk_count \<ge> cp_delta_chunk_threshold policy then
                 [''delta chunk count '' @ fmt_nat delta_chunk_count @ '' reached threshold ''
                  @ fmt_nat (cp_delta_chunk_threshold policy)] else [])
              @ (if delta_total_bytes \<ge> cp_delta_total_bytes_threshold policy then
                 [''delta bytes '' @ fmt_nat (unat delta_total_bytes) @ '' reached threshold ''
                  @ fmt_nat (unat (cp_delta_total_bytes_threshold policy))] else [])
              @ (if append_count \<ge> cp_append_count_threshold policy then
                 [''append count '' @ fmt_nat append_count @ '' reached threshold ''
                  @ fmt_nat (cp_append_count_threshold policy)] else []) in
        Some \<lparr>cd_month_key = key, cd_total_chunks = length month_chunks, cd_delta_chunk_count = delta_chunk_count,
          cd_delta_total_bytes = delta_total_bytes, cd_append_count = append_count,
          cd_should_merge = (reasons \<noteq> []), cd_reasons = reasons\<rparr>)"

text \<open>A month key is pushed unless it equals the last one pushed.\<close>

definition evaluate_all :: "CompactionPolicy \<Rightarrow> SeriesMeta \<Rightarrow> CompactionDecision list" where
  "evaluate_all policy meta =
     (let months = remdups_adj (map cm_month_key (sm_chunks meta)) in
      List.map_filter (evaluate_month policy meta) months)"

definition can_transition :: "ChunkState \<Rightarrow> ChunkState \<Rightarrow> bool" where
  "can_transition from to \<longleftrightarrow>
     (from, to) \<in> {(Active, Merging), (Active, Sealed), (Active, Replaced), (Sealed, Merging), (Sealed, Replaced),
       (Merging, Active), (Merging, Sealed), (Merging, Replaced)}"

definition merge_output_state :: "ChunkMeta list \<Rightarrow> ChunkState" where
  "merge_output_state sources = (if \<exists>c \<in> set sources. cm_state c = Active then Active else Sealed)"

section \<open>Decisions\<close>

text \<open>
  The deltas of a month by the places of its chunks in the manifest: the readable chunks of the
  month after its base chunk, the one with the earliest start and among equals the first.
\<close>

definition month_readable :: "SeriesMeta \<Rightarrow> string \<Rightarrow> nat set" where
  "month_readable meta key = {i. i < length (sm_chunks meta)
     \<and> cm_month_key (sm_chunks meta ! i) = key \<and> is_readable (cm_state (sm_chunks meta ! i))}"

definition month_deltas :: "SeriesMeta \<Rightarrow> string \<Rightarrow> nat set" where
  "month_deltas meta key = {i \<in> month_readable meta key. \<exists>j \<in> month_readable meta key.
     cm_start_ts (sm_chunks meta ! j) < cm_start_ts (sm_chunks meta ! i)
     \<or> cm_start_ts (sm_chunks meta ! j) = cm_start_ts (sm_chunks meta ! i) \<and> j < i}"

definition stored_bytes :: "SeriesMeta \<Rightarrow> ChunkMeta \<Rightarrow> u64" where
  "stored_bytes meta c = saturating_mul (cm_count c) (ucast (sm_record_size meta))"

text \<open>The stable sort puts the first of the least elements in front.\<close>

lemma hd_filter_nth:
  "filter P xs \<noteq> [] \<Longrightarrow> \<exists>i < length xs. P (xs ! i) \<and> (\<forall>j < i. \<not> P (xs ! j)) \<and> hd (filter P xs) = xs ! i"
proof (induction xs)
  case (Cons x xs)
  show ?case
  proof (cases "P x")
    case False
    with Cons obtain i where "i < length xs" "P (xs ! i)" "\<forall>j < i. \<not> P (xs ! j)" "hd (filter P xs) = xs ! i" by auto
    with False show ?thesis by (intro exI [of _ "Suc i"]) (auto simp: less_Suc_eq_0_disj)
  qed (auto intro: exI [of _ 0])
qed simp

lemma hd_sort_key_filter:
  fixes f :: "'a \<Rightarrow> 'b :: linorder"
  assumes "filter P xs \<noteq> []"
  obtains i where "i < length xs" and "P (xs ! i)" and "hd (sort_key f (filter P xs)) = xs ! i"
    and "\<And>j. j < length xs \<Longrightarrow> P (xs ! j) \<Longrightarrow> f (xs ! i) < f (xs ! j) \<or> f (xs ! i) = f (xs ! j) \<and> i \<le> j"
proof -
  let ?s = "sort_key f (filter P xs)"
  obtain h r where s: "?s = h # r" using assms by (cases ?s) (auto dest: arg_cong [of _ _ length])
  have "filter (\<lambda>y. f y = f h) ?s = filter (\<lambda>y. f y = f h) (filter P xs)" by (rule sort_key_stable)
  then have hd: "filter (\<lambda>y. P y \<and> f y = f h) xs \<noteq> []" "hd (filter (\<lambda>y. P y \<and> f y = f h) xs) = h"
    unfolding s by (auto simp: conj_commute) (metis list.sel(1))
  obtain i where i: "i < length xs" "P (xs ! i)" "\<forall>j < i. \<not> (P (xs ! j) \<and> f (xs ! j) = f h)" "h = xs ! i"
    using hd_filter_nth [OF hd(1)] hd(2) by auto
  have "sorted (map f ?s)" by simp
  then have least: "f h \<le> f y" if "y \<in> set ?s" for y using that unfolding s by auto
  show thesis
  proof (rule that [OF i(1,2)])
    show "hd ?s = xs ! i" unfolding s by (simp add: i(4))
    fix j assume j: "j < length xs" "P (xs ! j)"
    then have "f h \<le> f (xs ! j)" by (intro least) simp
    with j(2) i(3,4) show "f (xs ! i) < f (xs ! j) \<or> f (xs ! i) = f (xs ! j) \<and> i \<le> j"
      by (metis le_less not_le)
  qed
qed

lemma sum_list_filter_nth:
  fixes w :: "'a \<Rightarrow> 'b :: comm_monoid_add"
  shows "sum_list (map w (filter P xs)) = (\<Sum>i \<in> {i. i < length xs \<and> P (xs ! i)}. w (xs ! i))"
proof -
  have "sum_list (map w (filter P xs)) = (\<Sum>i < length xs. if P (xs ! i) then w (xs ! i) else 0)"
    unfolding sum_list_map_filter' by (simp add: sum_list_sum_nth atLeast0LessThan)
  also have "\<dots> = (\<Sum>i \<in> {i. i < length xs \<and> P (xs ! i)}. w (xs ! i))"
    by (simp add: sum.inter_filter [symmetric])
  finally show ?thesis .
qed

lemma sum_list_sort_key:
  fixes w :: "'a \<Rightarrow> 'b :: comm_monoid_add"
  shows "sum_list (map w (sort_key f xs)) = sum_list (map w xs)"
proof -
  have "sum_list (map w (insort_key f x ys)) = w x + sum_list (map w ys)" for x ys
    by (induction ys) (simp_all add: add.left_commute)
  then show ?thesis by (induction xs) simp_all
qed

lemma sum_drop_sorted:
  fixes w :: "'a \<Rightarrow> 'b :: ab_group_add" and f :: "'a \<Rightarrow> 'c :: linorder"
  defines "S \<equiv> \<lambda>xs P. {i. i < length xs \<and> P (xs ! i)}"
  shows "sum_list (map w (drop 1 (sort_key f (filter P xs))))
    = (\<Sum>i \<in> {i \<in> S xs P. \<exists>j \<in> S xs P. f (xs ! j) < f (xs ! i) \<or> f (xs ! j) = f (xs ! i) \<and> j < i}. w (xs ! i))"
proof (cases "filter P xs = []")
  case True
  then have "S xs P = {}" by (auto simp: S_def filter_empty_conv)
  with True show ?thesis by simp
next
  case False
  obtain i where i: "i < length xs" "P (xs ! i)" "hd (sort_key f (filter P xs)) = xs ! i"
    and least: "\<And>j. j < length xs \<Longrightarrow> P (xs ! j) \<Longrightarrow> f (xs ! i) < f (xs ! j) \<or> f (xs ! i) = f (xs ! j) \<and> i \<le> j"
    by (rule hd_sort_key_filter [OF False, where f = f]) blast
  have "sort_key f (filter P xs) = xs ! i # drop 1 (sort_key f (filter P xs))"
    using i(3) False by (cases "sort_key f (filter P xs)") (auto dest: arg_cong [of _ _ length])
  moreover have "sum_list (map w (sort_key f (filter P xs))) = sum_list (map w (filter P xs))"
    by (rule sum_list_sort_key)
  ultimately have "w (xs ! i) + sum_list (map w (drop 1 (sort_key f (filter P xs)))) = (\<Sum>i \<in> S xs P. w (xs ! i))"
    unfolding S_def sum_list_filter_nth [symmetric] by (metis list.simps(9) sum_list.Cons)
  moreover have "(\<Sum>i \<in> S xs P. w (xs ! i)) = w (xs ! i) + (\<Sum>i \<in> S xs P - {i}. w (xs ! i))"
    using i by (intro sum.remove) (auto simp: S_def)
  moreover have "S xs P - {i} = {i \<in> S xs P. \<exists>j \<in> S xs P. f (xs ! j) < f (xs ! i) \<or> f (xs ! j) = f (xs ! i) \<and> j < i}"
  proof (rule set_eqI, rule iffI)
    fix k assume "k \<in> S xs P - {i}"
    then have k: "k \<in> S xs P" "k \<noteq> i" by auto
    with least [of k] have "f (xs ! i) < f (xs ! k) \<or> f (xs ! i) = f (xs ! k) \<and> i < k" by (auto simp: S_def)
    with k i(1,2) show "k \<in> {i \<in> S xs P. \<exists>j \<in> S xs P. f (xs ! j) < f (xs ! i) \<or> f (xs ! j) = f (xs ! i) \<and> j < i}"
      by (auto simp: S_def)
  qed (auto simp: S_def dest: least)
  ultimately show ?thesis by simp
qed

lemma card_drop_sorted:
  fixes f :: "'a \<Rightarrow> 'c :: linorder" and xs :: "'a list"
  defines "S \<equiv> \<lambda>xs P. {i. i < length xs \<and> P (xs ! i)}"
  shows "card {i \<in> S xs P. \<exists>j \<in> S xs P. f (xs ! j) < f (xs ! i) \<or> f (xs ! j) = f (xs ! i) \<and> j < i}
    = length (filter P xs) - 1"
  using sum_drop_sorted [of "\<lambda>_. 1 :: int" f P xs] unfolding S_def
  by (simp add: sum_list_triv)

text \<open>
  A decision counts the deltas and adds up their bytes, and asks for a merge exactly when one of
  these reaches its threshold.
\<close>

lemma evaluate_month_decides:
  assumes "evaluate_month policy meta key = Some d"
  shows "cd_should_merge d \<longleftrightarrow>
      cd_delta_chunk_count d \<ge> min (cp_delta_chunk_threshold policy) (cp_append_count_threshold policy)
      \<or> cd_delta_total_bytes d \<ge> cp_delta_total_bytes_threshold policy"
    and "cd_delta_chunk_count d = card (month_deltas meta key)"
    and "cd_delta_total_bytes d = (\<Sum>i \<in> month_deltas meta key. stored_bytes meta (sm_chunks meta ! i))"
proof -
  let ?P = "\<lambda>c. cm_month_key c = key \<and> is_readable (cm_state c)"
  show "cd_should_merge d \<longleftrightarrow>
      cd_delta_chunk_count d \<ge> min (cp_delta_chunk_threshold policy) (cp_append_count_threshold policy)
      \<or> cd_delta_total_bytes d \<ge> cp_delta_total_bytes_threshold policy"
    using assms by (auto simp: evaluate_month_def Let_def split: if_splits)
  have "cd_delta_chunk_count d = length (filter ?P (sm_chunks meta)) - 1"
    using assms by (auto simp: evaluate_month_def Let_def conj_commute split: if_splits)
  then show "cd_delta_chunk_count d = card (month_deltas meta key)"
    unfolding card_drop_sorted [symmetric, where f = cm_start_ts] month_deltas_def month_readable_def .
  have "cd_delta_total_bytes d
      = sum_list (map (stored_bytes meta) (drop 1 (sort_key cm_start_ts (filter ?P (sm_chunks meta)))))"
    using assms by (auto simp: evaluate_month_def Let_def conj_commute stored_bytes_def [abs_def] split: if_splits)
  also have "\<dots> = (\<Sum>i \<in> month_deltas meta key. stored_bytes meta (sm_chunks meta ! i))"
    unfolding sum_drop_sorted month_deltas_def month_readable_def ..
  finally show "cd_delta_total_bytes d = (\<Sum>i \<in> month_deltas meta key. stored_bytes meta (sm_chunks meta ! i))" .
qed

lemma evaluate_month_None: "evaluate_month policy meta key = None \<longleftrightarrow> (\<forall>c \<in> set (sm_chunks meta). cm_month_key c \<noteq> key)"
  by (auto simp: evaluate_month_def Let_def filter_empty_conv)

text \<open>The advice covers every month of the series.\<close>

lemma evaluate_all_covers:
  "cd_month_key ` set (evaluate_all policy meta) = cm_month_key ` set (sm_chunks meta)"
proof -
  have key: "evaluate_month policy meta k = Some d \<Longrightarrow> cd_month_key d = k" for k d
    by (auto simp: evaluate_month_def Let_def split: if_splits)
  have "\<exists>d. evaluate_month policy meta (cm_month_key c) = Some d" if "c \<in> set (sm_chunks meta)" for c
    using evaluate_month_None [of policy meta "cm_month_key c"] that by auto
  then show ?thesis
    by (force simp: evaluate_all_def Let_def List.map_filter_def evaluate_month_None image_iff dest: key)
qed

section \<open>The life cycle of a chunk\<close>

inductive chunk_step :: "ChunkState \<Rightarrow> ChunkState \<Rightarrow> bool" where
  "can_transition s s' \<Longrightarrow> chunk_step s s'"

inductive_cases chunk_stepE: "chunk_step s s'"

lemma replaced_is_final: "chunk_step\<^sup>*\<^sup>* Replaced s \<Longrightarrow> s = Replaced"
  by (induction rule: rtranclp_induct) (auto elim: chunk_stepE simp: can_transition_def)

text \<open>Every chunk can be replaced, a merge may publish its output state, and no merge starts twice.\<close>

lemma merge_transitions:
  "can_transition Merging (merge_output_state sources)"
  "s \<noteq> Replaced \<Longrightarrow> can_transition s Replaced"
  "can_transition s Merging \<longleftrightarrow> s \<in> {Active, Sealed}"
  by (cases s; auto simp: can_transition_def merge_output_state_def)+

end
