(* ===== verification/Derived.thy ===== *)
theory Derived
  imports ScalarQuery "HOL-Library.Sublist"
begin

text \<open>
  Scoped scalar series (\<^verbatim>\<open>src/src/store_core/engine/derived.rs\<close>): the timeframe of a derived
  series is encoded into its name. Decoding splits at the first separator, so the round trip
  holds for timeframes that do not form a separator with what follows.
\<close>

definition INDICATOR_CATEGORY :: string where "INDICATOR_CATEGORY = ''indicator''"
definition FEATURE_CATEGORY :: string where "FEATURE_CATEGORY = ''feature''"
definition FACTOR_CATEGORY :: string where "FACTOR_CATEGORY = ''factor''"
definition SIGNAL_CATEGORY :: string where "SIGNAL_CATEGORY = ''signal''"
definition PORTFOLIO_CATEGORY :: string where "PORTFOLIO_CATEGORY = ''portfolio''"
definition RISK_CATEGORY :: string where "RISK_CATEGORY = ''risk''"
definition METRIC_CATEGORY :: string where "METRIC_CATEGORY = ''metric''"
definition SCALAR_SCOPE_SEPARATOR :: string where "SCALAR_SCOPE_SEPARATOR = ''@@''"

record ScopedScalarBinding =
  sb_symbol :: string
  sb_timeframe :: string
  sb_category :: string
  sb_name :: string

definition binding_new :: "string \<Rightarrow> string \<Rightarrow> string \<Rightarrow> string \<Rightarrow> ScopedScalarBinding" where
  "binding_new symbol timeframe category name =
     \<lparr>sb_symbol = symbol, sb_timeframe = timeframe, sb_category = category, sb_name = name\<rparr>"

definition binding_indicator :: "string \<Rightarrow> string \<Rightarrow> string \<Rightarrow> ScopedScalarBinding" where
  "binding_indicator symbol timeframe name = binding_new symbol timeframe INDICATOR_CATEGORY name"

definition binding_feature :: "string \<Rightarrow> string \<Rightarrow> string \<Rightarrow> ScopedScalarBinding" where
  "binding_feature symbol timeframe name = binding_new symbol timeframe FEATURE_CATEGORY name"

definition binding_factor :: "string \<Rightarrow> string \<Rightarrow> string \<Rightarrow> ScopedScalarBinding" where
  "binding_factor symbol timeframe name = binding_new symbol timeframe FACTOR_CATEGORY name"

definition binding_signal :: "string \<Rightarrow> string \<Rightarrow> string \<Rightarrow> ScopedScalarBinding" where
  "binding_signal symbol timeframe name = binding_new symbol timeframe SIGNAL_CATEGORY name"

definition binding_portfolio :: "string \<Rightarrow> string \<Rightarrow> ScopedScalarBinding" where
  "binding_portfolio timeframe name = binding_new ''__portfolio__'' timeframe PORTFOLIO_CATEGORY name"

definition binding_risk :: "string \<Rightarrow> string \<Rightarrow> string \<Rightarrow> ScopedScalarBinding" where
  "binding_risk symbol timeframe name = binding_new symbol timeframe RISK_CATEGORY name"

definition binding_metric :: "string \<Rightarrow> string \<Rightarrow> string \<Rightarrow> ScopedScalarBinding" where
  "binding_metric symbol timeframe name = binding_new symbol timeframe METRIC_CATEGORY name"

definition encode_scoped_scalar_name :: "string \<Rightarrow> string \<Rightarrow> string" where
  "encode_scoped_scalar_name timeframe name = timeframe @ SCALAR_SCOPE_SEPARATOR @ name"

text \<open>\<open>str::split_once\<close>: the parts before and after the first occurrence of the separator.\<close>

fun split_once :: "string \<Rightarrow> string \<Rightarrow> (string \<times> string) option" where
  "split_once sep [] = (if sep = [] then Some ([], []) else None)"
| "split_once sep (c # cs) =
     (if prefix sep (c # cs) then Some ([], drop (length sep) (c # cs))
      else map_option (\<lambda>(a, b). (c # a, b)) (split_once sep cs))"

definition decode_scoped_scalar_name :: "string \<Rightarrow> (string \<times> string) option" where
  "decode_scoped_scalar_name name = split_once SCALAR_SCOPE_SEPARATOR name"

definition scoped_scalar_series_key :: "string \<Rightarrow> string \<Rightarrow> string \<Rightarrow> string \<Rightarrow> ScalarSeriesKey" where
  "scoped_scalar_series_key symbol timeframe category name =
     \<lparr>key_symbol = symbol, key_category = category, key_name = encode_scoped_scalar_name timeframe name\<rparr>"

definition to_series_key :: "ScopedScalarBinding \<Rightarrow> ScalarSeriesKey" where
  "to_series_key b = scoped_scalar_series_key (sb_symbol b) (sb_timeframe b) (sb_category b) (sb_name b)"

definition indicator_series_key :: "string \<Rightarrow> string \<Rightarrow> string \<Rightarrow> ScalarSeriesKey" where
  "indicator_series_key symbol timeframe name = scoped_scalar_series_key symbol timeframe INDICATOR_CATEGORY name"

definition feature_series_key :: "string \<Rightarrow> string \<Rightarrow> string \<Rightarrow> ScalarSeriesKey" where
  "feature_series_key symbol timeframe name = scoped_scalar_series_key symbol timeframe FEATURE_CATEGORY name"

definition factor_series_key :: "string \<Rightarrow> string \<Rightarrow> string \<Rightarrow> ScalarSeriesKey" where
  "factor_series_key symbol timeframe name = scoped_scalar_series_key symbol timeframe FACTOR_CATEGORY name"

definition signal_series_key :: "string \<Rightarrow> string \<Rightarrow> string \<Rightarrow> ScalarSeriesKey" where
  "signal_series_key symbol timeframe name = scoped_scalar_series_key symbol timeframe SIGNAL_CATEGORY name"

definition portfolio_series_key :: "string \<Rightarrow> string \<Rightarrow> ScalarSeriesKey" where
  "portfolio_series_key timeframe name = scoped_scalar_series_key ''__portfolio__'' timeframe PORTFOLIO_CATEGORY name"

definition risk_series_key :: "string \<Rightarrow> string \<Rightarrow> string \<Rightarrow> ScalarSeriesKey" where
  "risk_series_key symbol timeframe name = scoped_scalar_series_key symbol timeframe RISK_CATEGORY name"

definition metric_series_key :: "string \<Rightarrow> string \<Rightarrow> string \<Rightarrow> ScalarSeriesKey" where
  "metric_series_key symbol timeframe name = scoped_scalar_series_key symbol timeframe METRIC_CATEGORY name"

definition reserved_scalar_categories :: "string list" where
  "reserved_scalar_categories =
     [INDICATOR_CATEGORY, FEATURE_CATEGORY, FACTOR_CATEGORY, SIGNAL_CATEGORY, PORTFOLIO_CATEGORY, RISK_CATEGORY,
      METRIC_CATEGORY]"

definition decode_scoped_scalar_key :: "ScalarSeriesKey \<Rightarrow> ScopedScalarBinding option" where
  "decode_scoped_scalar_key key =
     map_option (\<lambda>(timeframe, name).
       \<lparr>sb_symbol = key_symbol key, sb_timeframe = timeframe, sb_category = key_category key, sb_name = name\<rparr>)
       (decode_scoped_scalar_name (key_name key))"

section \<open>Splitting undoes joining\<close>

text \<open>
  The split is at the appended separator if no occurrence begins earlier, neither inside the
  timeframe nor across its end.
\<close>

definition scopes_cleanly :: "string \<Rightarrow> bool" where
  "scopes_cleanly timeframe \<longleftrightarrow> \<not> sublist ''@@'' (timeframe @ ''@'')"

lemma split_once_join: "scopes_cleanly t \<Longrightarrow> split_once ''@@'' (t @ ''@@'' @ n) = Some (t, n)"
proof (induction t)
  case Nil
  then show ?case by simp
next
  case (Cons c t)
  have "scopes_cleanly t"
    using Cons.prems by (auto simp: scopes_cleanly_def sublist_Cons_right)
  moreover have "\<not> prefix ''@@'' (c # t @ ''@@'' @ n)"
    using Cons.prems by (cases t) (auto simp: scopes_cleanly_def sublist_Cons_right)
  ultimately show ?case using Cons.IH by (simp add: map_option_case)
qed

text \<open>Joining undoes every successful split.\<close>

lemma join_split_once: "split_once sep s = Some (a, b) \<Longrightarrow> s = a @ sep @ b"
proof (induction s arbitrary: a)
  case (Cons c cs)
  show ?case
  proof (cases "prefix sep (c # cs)")
    case True
    then obtain zs where z: "c # cs = sep @ zs" by (auto simp: prefix_def)
    have "a = []" "b = drop (length sep) (c # cs)" using Cons.prems True by auto
    then show ?thesis by (simp add: z)
  next
    case False
    then show ?thesis using Cons by auto
  qed
qed (auto split: if_splits)

lemma binding_roundtrip:
  "scopes_cleanly (sb_timeframe b) \<Longrightarrow> decode_scoped_scalar_key (to_series_key b) = Some b"
  by (simp add: decode_scoped_scalar_key_def to_series_key_def scoped_scalar_series_key_def
      decode_scoped_scalar_name_def encode_scoped_scalar_name_def SCALAR_SCOPE_SEPARATOR_def
      split_once_join [simplified])

lemma key_roundtrip: "decode_scoped_scalar_key key = Some b \<Longrightarrow> to_series_key b = key"
  by (auto simp: decode_scoped_scalar_key_def to_series_key_def scoped_scalar_series_key_def
      decode_scoped_scalar_name_def encode_scoped_scalar_name_def dest!: join_split_once)

end
