(* ===== verification/Store.thy ===== *)
theory Store
  imports Series ReadPlan SidecarCache Manifest Compaction Derived
begin

text \<open>
  The store (\<^verbatim>\<open>src/src/store_core/engine/store.rs\<close>, \<^verbatim>\<open>catalog.rs\<close>): its state, the loading of
  manifests through the two manifest caches, and the reads of klines, scalars and the other
  record families over whole series. The file system and the process-wide manifest cache are
  part of the state; the outside world (clock, calendar, JSON parser, system calls) is the
  record \<open>Env\<close>. Metrics and timers are left out.
\<close>

text \<open>
  \<open>e_os\<close> gives the outcome of the system calls that a write, a removal or a directory creation at a
  path makes when it starts in a file system state; \<open>e_read_dir\<close> lists the names in a directory,
  in any order, with whether each is a directory; \<open>e_try_lock\<close> and \<open>e_try_lock_shared\<close> are the
  outcomes of locking a file.
\<close>

record Env =
  e_json :: "u8 list \<Rightarrow> LegacySeriesMeta option"
  e_utc :: calendar
  e_now :: i64
  e_mtime :: mtime
  e_os :: "fs_state \<Rightarrow> path \<Rightarrow> os_outcome"
  e_read_dir :: "fs_state \<Rightarrow> path \<Rightarrow> (string \<times> bool) list res"
  e_try_lock :: "fs_state \<Rightarrow> path \<Rightarrow> FastKError option"
  e_try_lock_shared :: "fs_state \<Rightarrow> path \<Rightarrow> FastKError option"

record FastKStore =
  fk_root :: path
  fk_disk :: ManifestStore
  fk_manifest_cache :: "string \<rightharpoonup> SeriesMeta"
  fk_chunk_runtime :: ChunkRuntime
  fk_scalar_sidecars :: ScalarSidecarRuntime
  fk_compaction_policy :: CompactionPolicy
  fk_read_only :: bool
  fk_read_pool :: "nat option"

definition fk_files :: "FastKStore \<Rightarrow> path \<rightharpoonup> u8 list" where
  "fk_files st = visible (ms_fs (fk_disk st))"

section \<open>Catalog\<close>

definition catalog_load_cached_report :: "FastKStore \<Rightarrow> path \<Rightarrow> SeriesMeta option" where
  "catalog_load_cached_report st dir =
     (if fk_read_only st then None else load_series_meta_shared_cached (fk_disk st) dir)"

definition catalog_load_report :: "Env \<Rightarrow> FastKStore \<Rightarrow> path \<Rightarrow> FastKStore \<times> SeriesMeta res" where
  "catalog_load_report E st dir =
     (let (disk, r) = load_series_meta_shared_mode (e_json E) (e_utc E) (e_now E) (e_mtime E)
            (e_os E (ms_fs (fk_disk st)) (series_meta_path dir)) (fk_disk st) dir (fk_read_only st) in
      (st\<lparr>fk_disk := disk\<rparr>, r))"

definition fnv_step :: "u64 \<Rightarrow> u8 \<Rightarrow> u64" where
  "fnv_step hash byte = (hash XOR ucast byte) * 0x100000001b3"

definition series_cache_key :: "string \<Rightarrow> string \<Rightarrow> string \<Rightarrow> string" where
  "series_cache_key symbol category name = symbol @ '':'' @ category @ '':'' @ name"

definition series_id_for :: "string \<Rightarrow> string \<Rightarrow> string \<Rightarrow> u64" where
  "series_id_for symbol category name =
     foldl fnv_step 0xcbf29ce484222325 (as_bytes (symbol @ '':'' @ category @ '':'' @ name))"

definition build_meta ::
  "i64 \<Rightarrow> string \<Rightarrow> string \<Rightarrow> string \<Rightarrow> i64 \<Rightarrow> RecordType \<Rightarrow> nat \<Rightarrow> u32 \<Rightarrow> i64 \<Rightarrow> i64 \<Rightarrow> string \<Rightarrow> SeriesMeta" where
  "build_meta now symbol category name timeframe_ms record_type record_size schema_id price_scale volume_scale chunk_unit =
     \<lparr>sm_symbol = symbol, sm_category = category, sm_name = name, sm_timeframe_ms = timeframe_ms,
      sm_record_type = record_type, sm_record_size = word_of_nat record_size, sm_schema_id = schema_id,
      sm_price_scale = price_scale, sm_volume_scale = volume_scale, sm_chunk_unit = chunk_unit,
      sm_series_id = series_id_for symbol category name, sm_manifest_seq = 1, sm_created_at = now,
      sm_updated_at = now, sm_flags = 0, sm_active_chunk_id = None, sm_chunks = []\<rparr>"

definition build_kline_meta :: "i64 \<Rightarrow> string \<Rightarrow> string \<Rightarrow> i64 \<Rightarrow> i64 \<Rightarrow> i64 \<Rightarrow> SeriesMeta" where
  "build_kline_meta now symbol timeframe timeframe_ms price_scale volume_scale =
     build_meta now symbol KLINE_CATEGORY timeframe timeframe_ms Kline kline_BYTE_SIZE KLINE_SCHEMA_ID
       price_scale volume_scale ''month''"

definition build_scalar_meta :: "i64 \<Rightarrow> ScalarSeriesKey \<Rightarrow> i64 \<Rightarrow> SeriesMeta" where
  "build_scalar_meta now key timeframe_ms =
     build_meta now (key_symbol key) (key_category key) (key_name key) timeframe_ms Scalar scalar_BYTE_SIZE
       SCALAR_SCHEMA_ID (i64_of_int 1) (i64_of_int 1) ''month''"

definition build_fixed_meta ::
  "'r FixedRecord \<Rightarrow> i64 \<Rightarrow> string \<Rightarrow> string \<Rightarrow> string \<Rightarrow> i64 \<Rightarrow> PartitionPolicy \<Rightarrow> SeriesMeta" where
  "build_fixed_meta R now symbol category name timeframe_ms policy =
     build_meta now symbol category name timeframe_ms (RECORD_TYPE R) (BYTE_SIZE R) (SCHEMA_ID R)
       (i64_of_int 1) (i64_of_int 1) (partition_unit_as_str (pp_unit policy))"

section \<open>Manifests\<close>

text \<open>
  The body that \<open>load_kline_meta\<close>, \<open>load_scalar_meta\<close> and \<open>load_fixed_meta\<close> share: the store's own
  cache, then the process-wide one, then the file.
\<close>

definition load_meta :: "Env \<Rightarrow> FastKStore \<Rightarrow> string \<Rightarrow> path \<Rightarrow> FastKStore \<times> SeriesMeta res" where
  "load_meta E st cache_key dir =
     (case fk_manifest_cache st cache_key of
        Some meta \<Rightarrow> (st, Inr meta)
      | None \<Rightarrow>
          let (st, report) =
            (case catalog_load_cached_report st dir of
               Some meta \<Rightarrow> (st, Inr meta)
             | None \<Rightarrow> catalog_load_report E st dir) in
          (case report of
             Inl e \<Rightarrow> (st, Inl e)
           | Inr meta \<Rightarrow> (st\<lparr>fk_manifest_cache := (fk_manifest_cache st)(cache_key \<mapsto> meta)\<rparr>, Inr meta)))"

definition load_kline_meta :: "Env \<Rightarrow> FastKStore \<Rightarrow> string \<Rightarrow> string \<Rightarrow> FastKStore \<times> SeriesMeta res" where
  "load_kline_meta E st symbol timeframe =
     load_meta E st (series_cache_key symbol KLINE_CATEGORY timeframe) (kline_series_dir (fk_root st) symbol timeframe)"

definition load_scalar_meta :: "Env \<Rightarrow> FastKStore \<Rightarrow> ScalarSeriesKey \<Rightarrow> FastKStore \<times> SeriesMeta res" where
  "load_scalar_meta E st key =
     load_meta E st (series_cache_key (key_symbol key) (key_category key) (key_name key))
       (scalar_series_dir (fk_root st) (key_symbol key) (key_category key) (key_name key))"

definition load_fixed_meta :: "Env \<Rightarrow> FastKStore \<Rightarrow> string \<Rightarrow> string \<Rightarrow> string \<Rightarrow> FastKStore \<times> SeriesMeta res" where
  "load_fixed_meta E st symbol category name =
     load_meta E st (series_cache_key symbol category name) (series_dir (fk_root st) symbol category name)"

definition store_series_in_cache :: "FastKStore \<Rightarrow> SeriesMeta \<Rightarrow> FastKStore" where
  "store_series_in_cache st meta =
     st\<lparr>fk_manifest_cache :=
       (fk_manifest_cache st)(series_cache_key (sm_symbol meta) (sm_category meta) (sm_name meta) \<mapsto> meta)\<rparr>"

definition clear_read_caches :: "FastKStore \<Rightarrow> FastKStore" where
  "clear_read_caches st =
     st\<lparr>fk_manifest_cache := Map.empty, fk_chunk_runtime := runtime_clear (fk_chunk_runtime st),
        fk_scalar_sidecars := sidecar_clear (fk_scalar_sidecars st)\<rparr>"

definition clear_runtime_caches :: "FastKStore \<Rightarrow> FastKStore" where
  "clear_runtime_caches st =
     st\<lparr>fk_chunk_runtime := runtime_clear_layouts (fk_chunk_runtime st),
        fk_scalar_sidecars := sidecar_clear (fk_scalar_sidecars st)\<rparr>"

definition clear_scalar_query_caches :: "FastKStore \<Rightarrow> FastKStore" where
  "clear_scalar_query_caches st = st\<lparr>fk_scalar_sidecars := sidecar_clear (fk_scalar_sidecars st)\<rparr>"

section \<open>Loops over chunks\<close>

text \<open>Three shapes: appending to a result, collecting one value per chunk, and the tail from the last chunk on.\<close>

fun try_each :: "('s \<Rightarrow> 'x \<Rightarrow> 'a \<Rightarrow> 's \<times> 'a res) \<Rightarrow> 's \<Rightarrow> 'x list \<Rightarrow> 'a \<Rightarrow> 's \<times> 'a res" where
  "try_each step s [] acc = (s, Inr acc)"
| "try_each step s (x # xs) acc =
     (case step s x acc of
        (s', Inl e) \<Rightarrow> (s', Inl e)
      | (s', Inr acc') \<Rightarrow> try_each step s' xs acc')"

fun collect_each :: "('s \<Rightarrow> 'x \<Rightarrow> 's \<times> 'y res) \<Rightarrow> 's \<Rightarrow> 'x list \<Rightarrow> 's \<times> 'y list res" where
  "collect_each f s [] = (s, Inr [])"
| "collect_each f s (x # xs) =
     (case f s x of
        (s', Inl e) \<Rightarrow> (s', Inl e)
      | (s', Inr y) \<Rightarrow>
          (case collect_each f s' xs of (s'', Inl e) \<Rightarrow> (s'', Inl e) | (s'', Inr ys) \<Rightarrow> (s'', Inr (y # ys))))"

fun collect_tail :: "('s \<Rightarrow> ChunkMeta \<Rightarrow> nat \<Rightarrow> 's \<times> 'y res) \<Rightarrow> 's \<Rightarrow> ChunkMeta list \<Rightarrow> nat \<Rightarrow> 's \<times> 'y list res" where
  "collect_tail f s [] remaining = (s, Inr [])"
| "collect_tail f s (c # cs) remaining =
     (if remaining = 0 then (s, Inr [])
      else
        let take_rows = min remaining (unat (cm_count c)) in
        case f s c take_rows of
          (s', Inl e) \<Rightarrow> (s', Inl e)
        | (s', Inr y) \<Rightarrow>
            (case collect_tail f s' cs (remaining - take_rows) of
               (s'', Inl e) \<Rightarrow> (s'', Inl e)
             | (s'', Inr ys) \<Rightarrow> (s'', Inr (y # ys))))"

definition on_runtime :: "FastKStore \<Rightarrow> (ChunkRuntime \<Rightarrow> ChunkRuntime \<times> 'a) \<Rightarrow> FastKStore \<times> 'a" where
  "on_runtime st f = (let (rt, r) = f (fk_chunk_runtime st) in (st\<lparr>fk_chunk_runtime := rt\<rparr>, r))"

text \<open>\<open>snd\<close> of a successful result, where a reader also reports the path it took.\<close>

definition drop_path :: "'s \<times> ('p \<times> 'a) res \<Rightarrow> 's \<times> 'a res" where
  "drop_path = (\<lambda>(s, r). (s, and_then r (\<lambda>x. Inr (snd x))))"

section \<open>Reads of klines\<close>

definition estimate_short_range_rows :: "i64 \<Rightarrow> i64 \<Rightarrow> i64 \<Rightarrow> u64" where
  "estimate_short_range_rows timeframe_ms start_ts end_ts =
     (if timeframe_ms \<le> i64_of_int 0 then word_of_nat SHORT_RANGE_MAX_RECORDS
      else word_of_int (max 0 (min (int SHORT_RANGE_MAX_RECORDS)
        (ival (i64_saturating_add (i64_div (i64_saturating_sub end_ts start_ts) timeframe_ms) (i64_of_int 1))))))"

definition range_capacity :: "SeriesMeta \<Rightarrow> ChunkMeta list \<Rightarrow> i64 \<Rightarrow> i64 \<Rightarrow> u64 res" where
  "range_capacity meta cs start_ts end_ts =
     foldl (\<lambda>sum chunk. and_then sum (\<lambda>s.
         let count = (if start_ts \<le> cm_start_ts chunk \<and> end_ts \<ge> cm_end_ts chunk then cm_count chunk
               else min (cm_count chunk) (estimate_short_range_rows (sm_timeframe_ms meta) start_ts end_ts)) in
         ok_or (checked_add s count) (InvalidData ''range capacity overflow'')))
       (Inr 0) cs"

definition get_kline_at_prepared :: "FastKStore \<Rightarrow> path \<Rightarrow> SeriesMeta \<Rightarrow> i64 \<Rightarrow> FastKStore \<times> KlineRecord option res" where
  "get_kline_at_prepared st dir meta ts =
     (case find_chunk_for_ts meta ts of
        None \<Rightarrow> (st, Inr None)
      | Some index \<Rightarrow> on_runtime st (\<lambda>rt. kline_find_in_chunk (fk_files st) rt dir (sm_series_id meta) (sm_chunks meta ! index) ts))"

definition get_kline_range_prepared ::
  "FastKStore \<Rightarrow> path \<Rightarrow> SeriesMeta \<Rightarrow> i64 \<Rightarrow> i64 \<Rightarrow> FastKStore \<times> KlineRecord list res" where
  "get_kline_range_prepared st dir meta start_ts end_ts =
     (if start_ts > end_ts then (st, Inr [])
      else
        let (a, b) = find_chunks_for_range meta start_ts end_ts in
        if \<not> a < b then (st, Inr [])
        else
          let cs = slice_of a b (sm_chunks meta) in
          case range_capacity meta cs start_ts end_ts of
            Inl e \<Rightarrow> (st, Inl e)
          | Inr _ \<Rightarrow>
              if should_plan_read meta cs start_ts end_ts then
                let (st', spans) = on_runtime st (\<lambda>rt. collect_each
                      (\<lambda>rt c. kline_plan_range (fk_files st) rt dir (sm_series_id meta) c start_ts end_ts) rt cs) in
                (st', and_then spans (\<lambda>spans. read_spans (fk_read_pool st) spans kline_BYTE_SIZE kline_read_planned))
              else
                on_runtime st (\<lambda>rt. try_each
                  (\<lambda>rt c out. drop_path (kline_append_range_in_chunk (fk_files st) rt dir (sm_series_id meta) c start_ts end_ts out))
                  rt cs []))"

definition get_kline_latest_n_prepared ::
  "FastKStore \<Rightarrow> path \<Rightarrow> SeriesMeta \<Rightarrow> nat \<Rightarrow> FastKStore \<times> KlineRecord list res" where
  "get_kline_latest_n_prepared st dir meta n =
     (if n = 0 then (st, Inr [])
      else
        let (st', spans) = on_runtime st (\<lambda>rt. collect_tail
              (\<lambda>rt c take_rows. kline_plan_tail (fk_files st) rt dir (sm_series_id meta) c take_rows)
              rt (rev (sm_chunks meta)) n) in
        (st', and_then spans (\<lambda>spans. read_spans (fk_read_pool st) (rev spans) kline_BYTE_SIZE kline_read_planned)))"

text \<open>The public reads load the manifest first.\<close>

definition with_meta ::
  "FastKStore \<times> SeriesMeta res \<Rightarrow> (FastKStore \<Rightarrow> SeriesMeta \<Rightarrow> FastKStore \<times> 'a res) \<Rightarrow> FastKStore \<times> 'a res" where
  "with_meta m f = (case m of (st, Inl e) \<Rightarrow> (st, Inl e) | (st, Inr meta) \<Rightarrow> f st meta)"

definition get_kline_at :: "Env \<Rightarrow> FastKStore \<Rightarrow> string \<Rightarrow> string \<Rightarrow> i64 \<Rightarrow> FastKStore \<times> KlineRecord option res" where
  "get_kline_at E st symbol timeframe ts =
     with_meta (load_kline_meta E st symbol timeframe) (\<lambda>st meta.
       get_kline_at_prepared st (kline_series_dir (fk_root st) symbol timeframe) meta ts)"

definition get_kline_range ::
  "Env \<Rightarrow> FastKStore \<Rightarrow> string \<Rightarrow> string \<Rightarrow> i64 \<Rightarrow> i64 \<Rightarrow> FastKStore \<times> KlineRecord list res" where
  "get_kline_range E st symbol timeframe start_ts end_ts =
     (if start_ts > end_ts then (st, Inr [])
      else with_meta (load_kline_meta E st symbol timeframe) (\<lambda>st meta.
        get_kline_range_prepared st (kline_series_dir (fk_root st) symbol timeframe) meta start_ts end_ts))"

definition get_kline_latest_n ::
  "Env \<Rightarrow> FastKStore \<Rightarrow> string \<Rightarrow> string \<Rightarrow> nat \<Rightarrow> FastKStore \<times> KlineRecord list res" where
  "get_kline_latest_n E st symbol timeframe n =
     (if n = 0 then (st, Inr [])
      else with_meta (load_kline_meta E st symbol timeframe) (\<lambda>st meta.
        get_kline_latest_n_prepared st (kline_series_dir (fk_root st) symbol timeframe) meta n))"

section \<open>Reads of scalars\<close>

definition get_scalar_at_prepared :: "FastKStore \<Rightarrow> path \<Rightarrow> SeriesMeta \<Rightarrow> i64 \<Rightarrow> FastKStore \<times> ScalarRecord option res" where
  "get_scalar_at_prepared st dir meta ts =
     (case find_chunk_for_ts meta ts of
        None \<Rightarrow> (st, Inr None)
      | Some index \<Rightarrow> on_runtime st (\<lambda>rt. scalar_find_in_chunk (fk_files st) rt dir (sm_series_id meta) (sm_chunks meta ! index) ts))"

definition get_scalar_range_prepared ::
  "FastKStore \<Rightarrow> path \<Rightarrow> SeriesMeta \<Rightarrow> i64 \<Rightarrow> i64 \<Rightarrow> FastKStore \<times> ScalarRecord list res" where
  "get_scalar_range_prepared st dir meta start_ts end_ts =
     (if start_ts > end_ts then (st, Inr [])
      else
        let (a, b) = find_chunks_for_range meta start_ts end_ts in
        if \<not> a < b then (st, Inr [])
        else
          let cs = slice_of a b (sm_chunks meta) in
          if should_plan_read meta cs start_ts end_ts then
            let (st', spans) = on_runtime st (\<lambda>rt. collect_each
                  (\<lambda>rt c. scalar_plan_range (fk_files st) rt dir (sm_series_id meta) c start_ts end_ts) rt cs) in
            (st', and_then spans (\<lambda>spans. read_spans (fk_read_pool st) spans scalar_BYTE_SIZE scalar_read_planned))
          else
            on_runtime st (\<lambda>rt. try_each
              (\<lambda>rt c out. drop_path (scalar_append_range_in_chunk (fk_files st) rt dir (sm_series_id meta) c start_ts end_ts out))
              rt cs []))"

definition get_scalar_at :: "Env \<Rightarrow> FastKStore \<Rightarrow> ScalarSeriesKey \<Rightarrow> i64 \<Rightarrow> FastKStore \<times> ScalarRecord option res" where
  "get_scalar_at E st key ts =
     with_meta (load_scalar_meta E st key) (\<lambda>st meta.
       get_scalar_at_prepared st (scalar_series_dir (fk_root st) (key_symbol key) (key_category key) (key_name key)) meta ts)"

definition get_scalar_range ::
  "Env \<Rightarrow> FastKStore \<Rightarrow> ScalarSeriesKey \<Rightarrow> i64 \<Rightarrow> i64 \<Rightarrow> FastKStore \<times> ScalarRecord list res" where
  "get_scalar_range E st key start_ts end_ts =
     (if start_ts > end_ts then (st, Inr [])
      else with_meta (load_scalar_meta E st key) (\<lambda>st meta.
        get_scalar_range_prepared st
          (scalar_series_dir (fk_root st) (key_symbol key) (key_category key) (key_name key)) meta start_ts end_ts))"

definition get_indicator_at ::
  "Env \<Rightarrow> FastKStore \<Rightarrow> string \<Rightarrow> string \<Rightarrow> string \<Rightarrow> i64 \<Rightarrow> FastKStore \<times> ScalarRecord option res" where
  "get_indicator_at E st symbol timeframe name ts = get_scalar_at E st (indicator_series_key symbol timeframe name) ts"

definition get_indicator_range ::
  "Env \<Rightarrow> FastKStore \<Rightarrow> string \<Rightarrow> string \<Rightarrow> string \<Rightarrow> i64 \<Rightarrow> i64 \<Rightarrow> FastKStore \<times> ScalarRecord list res" where
  "get_indicator_range E st symbol timeframe name start_ts end_ts =
     get_scalar_range E st (indicator_series_key symbol timeframe name) start_ts end_ts"

section \<open>Reads of the other record families\<close>

definition get_fixed_range ::
  "'r FixedRecord \<Rightarrow> Env \<Rightarrow> FastKStore \<Rightarrow> string \<Rightarrow> string \<Rightarrow> string \<Rightarrow> i64 \<Rightarrow> i64 \<Rightarrow> FastKStore \<times> 'r list res" where
  "get_fixed_range R E st symbol category name start_ts end_ts =
     (if start_ts > end_ts then (st, Inr [])
      else with_meta (load_fixed_meta E st symbol category name) (\<lambda>st meta.
        let dir = series_dir (fk_root st) symbol category name;
            (a, b) = find_chunks_for_range meta start_ts end_ts in
        if \<not> a < b then (st, Inr [])
        else on_runtime st (\<lambda>rt. try_each
          (\<lambda>rt c out. fixed_append_range_in_chunk R (fk_files st) rt dir (sm_series_id meta) c start_ts end_ts out)
          rt (slice_of a b (sm_chunks meta)) [])))"

definition get_fixed_latest_n ::
  "'r FixedRecord \<Rightarrow> Env \<Rightarrow> FastKStore \<Rightarrow> string \<Rightarrow> string \<Rightarrow> string \<Rightarrow> nat \<Rightarrow> FastKStore \<times> 'r list res" where
  "get_fixed_latest_n R E st symbol category name n =
     (if n = 0 then (st, Inr [])
      else with_meta (load_fixed_meta E st symbol category name) (\<lambda>st meta.
        let dir = series_dir (fk_root st) symbol category name;
            (st', parts) = on_runtime st (\<lambda>rt. collect_tail
              (\<lambda>rt c take_rows. fixed_read_tail_in_chunk R (fk_files st) rt dir (sm_series_id meta) c take_rows)
              rt (rev (sm_chunks meta)) n) in
        (st', and_then parts (\<lambda>parts. Inr (concat (rev parts))))))"

definition get_trade_range :: "Env \<Rightarrow> FastKStore \<Rightarrow> string \<Rightarrow> string \<Rightarrow> i64 \<Rightarrow> i64 \<Rightarrow> FastKStore \<times> TradeRecord list res" where
  "get_trade_range E st symbol name = get_fixed_range trade_record E st symbol TRADE_CATEGORY name"

definition get_trade_latest_n :: "Env \<Rightarrow> FastKStore \<Rightarrow> string \<Rightarrow> string \<Rightarrow> nat \<Rightarrow> FastKStore \<times> TradeRecord list res" where
  "get_trade_latest_n E st symbol name = get_fixed_latest_n trade_record E st symbol TRADE_CATEGORY name"

definition get_bbo_range :: "Env \<Rightarrow> FastKStore \<Rightarrow> string \<Rightarrow> string \<Rightarrow> i64 \<Rightarrow> i64 \<Rightarrow> FastKStore \<times> BboRecord list res" where
  "get_bbo_range E st symbol name = get_fixed_range bbo_record E st symbol BBO_CATEGORY name"

definition get_bbo_latest_n :: "Env \<Rightarrow> FastKStore \<Rightarrow> string \<Rightarrow> string \<Rightarrow> nat \<Rightarrow> FastKStore \<times> BboRecord list res" where
  "get_bbo_latest_n E st symbol name = get_fixed_latest_n bbo_record E st symbol BBO_CATEGORY name"

definition get_book_delta_range :: "Env \<Rightarrow> FastKStore \<Rightarrow> string \<Rightarrow> string \<Rightarrow> i64 \<Rightarrow> i64 \<Rightarrow> FastKStore \<times> BookDeltaRecord list res" where
  "get_book_delta_range E st symbol name = get_fixed_range book_delta_record E st symbol BOOK_DELTA_CATEGORY name"

definition get_book_delta_latest_n :: "Env \<Rightarrow> FastKStore \<Rightarrow> string \<Rightarrow> string \<Rightarrow> nat \<Rightarrow> FastKStore \<times> BookDeltaRecord list res" where
  "get_book_delta_latest_n E st symbol name = get_fixed_latest_n book_delta_record E st symbol BOOK_DELTA_CATEGORY name"

end
