(* ===== verification/Overlaps.thy ===== *)
theory Overlaps
  imports Manifest "HOL-Library.Product_Lexorder" "HOL-Library.Sublist"
begin

text \<open>
  Overlapping chunks in recovery (\<^verbatim>\<open>src/src/store_core/storage/recovery.rs\<close>): the groups of chunks
  whose spans overlap, the choice of the chunk that survives a group, the selection of chunks
  without overlap for a rebuilt manifest, the reset of interrupted merges, and the adoption of
  chunk files that the manifest does not list. Selection keeps every covered timestamp covered;
  adoption keeps the spans of a manifest disjoint and replaces chunks only by newer ones that
  cover them.
\<close>

definition fmt_i64 :: "i64 \<Rightarrow> string" where
  "fmt_i64 t = (if ival t < 0 then ''-'' @ fmt_nat (nat (- ival t)) else fmt_nat (nat (ival t)))"

definition ranges_overlap :: "i64 \<Rightarrow> i64 \<Rightarrow> i64 \<Rightarrow> i64 \<Rightarrow> bool" where
  "ranges_overlap left_start left_end right_start right_end \<longleftrightarrow> left_start \<le> right_end \<and> left_end \<ge> right_start"

record OverlapResolution =
  or_month_key :: string
  or_winner_relative_path :: "string option"
  or_participants :: "string list"
  or_reason :: string

text \<open>\<open>sort_by\<close> with the operands of \<open>cmp\<close> exchanged is a stable descending sort.\<close>

definition rank_chunks :: "ChunkMeta list \<Rightarrow> ChunkMeta list" where
  "rank_chunks cs =
     rev (sort_key (\<lambda>c. (cm_generation c, i64_saturating_sub (cm_end_ts c) (cm_start_ts c), cm_count c, cm_relative_path c)) (rev cs))"

definition choose_surviving_chunk_for_overlap :: "ChunkMeta list \<Rightarrow> OverlapResolution" where
  "choose_surviving_chunk_for_overlap cs =
     (let participants = sort (map cm_relative_path cs) in
      if cs = [] then
        \<lparr>or_month_key = [], or_winner_relative_path = None, or_participants = participants, or_reason = ''empty overlap set''\<rparr>
      else
        let min_start = Min (set (map cm_start_ts cs));
            max_end = Max (set (map cm_end_ts cs)) in
        case find (\<lambda>c. cm_start_ts c \<le> min_start \<and> cm_end_ts c \<ge> max_end) (rank_chunks cs) of
          Some c \<Rightarrow>
            \<lparr>or_month_key = cm_month_key c, or_winner_relative_path = Some (cm_relative_path c), or_participants = participants,
             or_reason = ''generation '' @ fmt_nat (unat (cm_generation c)) @ '' fully covers overlap window ['' @ fmt_i64 min_start
               @ ''..='' @ fmt_i64 max_end @ '']''\<rparr>
        | None \<Rightarrow>
            \<lparr>or_month_key = cm_month_key (hd cs), or_winner_relative_path = None, or_participants = participants,
             or_reason = ''no single chunk fully covers the overlap window''\<rparr>)"

fun group_loop :: "ChunkMeta list \<Rightarrow> i64 \<Rightarrow> ChunkMeta list \<Rightarrow> ChunkMeta list list" where
  "group_loop current current_end [] = (if length current > 1 then [current] else [])"
| "group_loop current current_end (c # cs) =
     (if current = [] then group_loop [c] (cm_end_ts c) cs
      else if cm_start_ts c \<le> current_end then group_loop (current @ [c]) (max current_end (cm_end_ts c)) cs
      else (if length current > 1 then [current] else []) @ group_loop [c] (cm_end_ts c) cs)"

definition overlap_groups :: "ChunkMeta list \<Rightarrow> ChunkMeta list list" where
  "overlap_groups cs = group_loop [] i64_min (sort_key cm_start_ts cs)"

definition overlap_groups_as_strings :: "ChunkMeta list \<Rightarrow> string list list" where
  "overlap_groups_as_strings cs = map (\<lambda>grp. sort (map cm_relative_path grp)) (overlap_groups cs)"

fun discard_losers :: "ChunkMeta list list \<Rightarrow> string set \<Rightarrow> string set res" where
  "discard_losers [] discarded = Inr discarded"
| "discard_losers (grp # groups) discarded =
     (case or_winner_relative_path (choose_surviving_chunk_for_overlap grp) of
        None \<Rightarrow> Inl (InvalidData ''cannot rebuild manifest because overlap is ambiguous'')
      | Some winner \<Rightarrow>
          discard_losers groups (discarded \<union> set (filter (\<lambda>p. p \<noteq> winner) (map cm_relative_path grp))))"

definition select_non_overlapping_chunks :: "ChunkMeta list \<Rightarrow> ChunkMeta list res" where
  "select_non_overlapping_chunks cs =
     (let groups = overlap_groups cs in
      if groups = [] then Inr cs
      else and_then (discard_losers groups {}) (\<lambda>discarded.
        Inr (sort_key cm_start_ts (filter (\<lambda>c. cm_relative_path c \<notin> discarded) cs))))"

text \<open>The chunk as \<open>normalize_dangling_merging_states\<close> leaves it, and whether it changed.\<close>

definition settle_merging :: "u64 option \<Rightarrow> ChunkMeta list \<Rightarrow> ChunkMeta \<Rightarrow> ChunkMeta \<times> bool" where
  "settle_merging active readable_chunks chunk =
     (if cm_state chunk \<noteq> Merging then (chunk, False)
      else
        let overlaps = filter (\<lambda>candidate. cm_relative_path candidate \<noteq> cm_relative_path chunk
              \<and> cm_generation candidate > cm_generation chunk
              \<and> ranges_overlap (cm_start_ts candidate) (cm_end_ts candidate) (cm_start_ts chunk) (cm_end_ts chunk)) readable_chunks;
            winner = or_winner_relative_path (choose_surviving_chunk_for_overlap (overlaps @ [chunk])) in
        if winner = None \<or> winner = Some (cm_relative_path chunk) then
          (chunk\<lparr>cm_state := (if active = Some (cm_chunk_id chunk) then Active else Sealed)\<rparr>, True)
        else (chunk, False))"

definition normalize_dangling_merging_states :: "SeriesMeta \<Rightarrow> SeriesMeta \<times> bool" where
  "normalize_dangling_merging_states meta =
     (let settled = map (settle_merging (sm_active_chunk_id meta) (sm_chunks meta)) (sm_chunks meta) in
      (meta\<lparr>sm_chunks := map fst settled\<rparr>, list_ex snd settled))"

section \<open>Adoption\<close>

record SeriesOverlapExplanation =
  se_series_dir :: path
  se_resolution :: OverlapResolution

record RecoveryReport =
  rr_removed_temp_files :: nat
  rr_rebuilt_manifests :: nat
  rr_adopted_chunks :: nat
  rr_dry_run :: bool
  rr_removed_temp_paths :: "path list"
  rr_rebuilt_manifest_paths :: "path list"
  rr_adopted_chunk_paths :: "path list"
  rr_overlap_resolutions :: "SeriesOverlapExplanation list"

definition recovery_report_default :: RecoveryReport where
  "recovery_report_default =
     \<lparr>rr_removed_temp_files = 0, rr_rebuilt_manifests = 0, rr_adopted_chunks = 0, rr_dry_run = False,
      rr_removed_temp_paths = [], rr_rebuilt_manifest_paths = [], rr_adopted_chunk_paths = [], rr_overlap_resolutions = []\<rparr>"

abbreviation overlaps_with :: "ChunkMeta \<Rightarrow> ChunkMeta \<Rightarrow> bool" where
  "overlaps_with a b \<equiv> ranges_overlap (cm_start_ts a) (cm_end_ts a) (cm_start_ts b) (cm_end_ts b)"

type_synonym adoption = "ChunkMeta list \<times> bool \<times> RecoveryReport"

text \<open>The chunks at the overlap indices are those that overlap the candidate.\<close>

definition adopt_candidate :: "path \<Rightarrow> ChunkMeta \<Rightarrow> adoption \<Rightarrow> adoption" where
  "adopt_candidate dir candidate = (\<lambda>(cs, changed, report).
     if list_ex (\<lambda>c. cm_relative_path c = cm_relative_path candidate) cs then (cs, changed, report)
     else
       let overlapping = filter (\<lambda>c. overlaps_with c candidate) cs in
       if overlapping = [] then
         (cs @ [candidate], True, report\<lparr>rr_adopted_chunks := rr_adopted_chunks report + 1\<rparr>)
       else if list_ex (\<lambda>c. cm_generation c \<ge> cm_generation candidate) overlapping then (cs, changed, report)
       else
         let resolution = choose_surviving_chunk_for_overlap (overlapping @ [candidate]);
             report = report\<lparr>rr_overlap_resolutions := rr_overlap_resolutions report @
               [\<lparr>se_series_dir = dir, se_resolution = resolution\<rparr>]\<rparr> in
         if or_winner_relative_path resolution = Some (cm_relative_path candidate) then
           (filter (\<lambda>c. \<not> overlaps_with c candidate) cs @ [candidate], True,
            report\<lparr>rr_adopted_chunks := rr_adopted_chunks report + 1,
              rr_adopted_chunk_paths := rr_adopted_chunk_paths report @ [path_join dir (cm_relative_path candidate)]\<rparr>)
         else (cs, changed, report))"

definition adopt_candidates :: "path \<Rightarrow> ChunkMeta list \<Rightarrow> adoption \<Rightarrow> adoption" where
  "adopt_candidates dir candidates st = fold (adopt_candidate dir) candidates st"

section \<open>The surviving chunk\<close>

lemma set_rank_chunks [simp]: "set (rank_chunks cs) = set cs"
  by (simp add: rank_chunks_def)

lemma survivor_covers:
  assumes "or_winner_relative_path (choose_surviving_chunk_for_overlap cs) = Some w"
  obtains c where "c \<in> set cs" and "cm_relative_path c = w"
    and "\<forall>d \<in> set cs. cm_start_ts c \<le> cm_start_ts d \<and> cm_end_ts d \<le> cm_end_ts c"
proof -
  let ?P = "\<lambda>c. cm_start_ts c \<le> Min (set (map cm_start_ts cs)) \<and> cm_end_ts c \<ge> Max (set (map cm_end_ts cs))"
  obtain c where c: "find ?P (rank_chunks cs) = Some c" "cm_relative_path c = w"
    using assms by (auto simp: choose_surviving_chunk_for_overlap_def Let_def split: if_splits option.splits)
  then have m: "c \<in> set cs" "?P c" by (auto simp: find_Some_iff) (metis nth_mem set_rank_chunks)
  have "cm_start_ts c \<le> cm_start_ts d \<and> cm_end_ts d \<le> cm_end_ts c" if "d \<in> set cs" for d
  proof -
    have "Min (set (map cm_start_ts cs)) \<le> cm_start_ts d" "cm_end_ts d \<le> Max (set (map cm_end_ts cs))" using that by auto
    with m(2) show ?thesis by (auto intro: order_trans)
  qed
  with m(1) c(2) show thesis using that by blast
qed

section \<open>Groups\<close>

text \<open>
  The runs of the loop, single chunks included. Their concatenation is the sorted list, and every
  chunk of a run ends before every chunk of a later run starts.
\<close>

fun runs :: "ChunkMeta list \<Rightarrow> i64 \<Rightarrow> ChunkMeta list \<Rightarrow> ChunkMeta list list" where
  "runs current current_end [] = (if current = [] then [] else [current])"
| "runs current current_end (c # cs) =
     (if current = [] then runs [c] (cm_end_ts c) cs
      else if cm_start_ts c \<le> current_end then runs (current @ [c]) (max current_end (cm_end_ts c)) cs
      else current # runs [c] (cm_end_ts c) cs)"

lemma group_loop_runs: "group_loop current e cs = filter (\<lambda>g. length g > 1) (runs current e cs)"
  by (induction current e cs rule: runs.induct) auto

lemma concat_runs: "concat (runs current e cs) = current @ cs"
  by (induction current e cs rule: runs.induct) auto

definition before :: "ChunkMeta list \<Rightarrow> ChunkMeta list \<Rightarrow> bool" where
  "before g h \<longleftrightarrow> (\<forall>c \<in> set g. \<forall>d \<in> set h. cm_end_ts c < cm_start_ts d)"

lemma runs_before:
  assumes "sorted (map cm_start_ts cs)" and "\<forall>c \<in> set current. cm_end_ts c \<le> e"
  shows "sorted_wrt before (runs current e cs) \<and> (\<forall>g \<in> set (runs current e cs). g \<noteq> [])"
  using assms
proof (induction current e cs rule: runs.induct)
  case (2 current e c cs)
  show ?case
  proof (cases "current = [] \<or> cm_start_ts c \<le> e")
    case True
    have "\<forall>x \<in> set (current @ [c]). cm_end_ts x \<le> max e (cm_end_ts c)" using 2(5) by (auto simp: le_max_iff_disj)
    with True 2(1,2,4) show ?thesis by (cases "current = []") simp_all
  next
    case False
    have IH: "sorted_wrt before (runs [c] (cm_end_ts c) cs) \<and> (\<forall>g \<in> set (runs [c] (cm_end_ts c) cs). g \<noteq> [])"
      using 2(3) False 2(4) by simp
    have "before current h" if "h \<in> set (runs [c] (cm_end_ts c) cs)" for h
      unfolding before_def
    proof (intro ballI)
      fix x d assume x: "x \<in> set current" and d: "d \<in> set h"
      have "d \<in> set (concat (runs [c] (cm_end_ts c) cs))" using that d by auto
      then have "cm_start_ts c \<le> cm_start_ts d" using 2(4) unfolding concat_runs by auto
      moreover have "cm_end_ts x \<le> e" using 2(5) x by blast
      ultimately show "cm_end_ts x < cm_start_ts d" using False by (auto simp: i64_ord)
    qed
    with IH False show ?thesis by simp
  qed
qed auto

definition separated :: "ChunkMeta \<Rightarrow> ChunkMeta \<Rightarrow> bool" where
  "separated c d \<longleftrightarrow> cm_end_ts c < cm_start_ts d \<or> cm_end_ts d < cm_start_ts c"

lemma not_overlaps: "\<not> overlaps_with c d \<longleftrightarrow> separated c d"
  by (auto simp: ranges_overlap_def separated_def)

text \<open>Chunks with distinct paths, proper spans and no overlap: what a manifest lists.\<close>

definition disjoint_spans :: "ChunkMeta list \<Rightarrow> bool" where
  "disjoint_spans cs \<longleftrightarrow> distinct (map cm_relative_path cs) \<and> (\<forall>c \<in> set cs. cm_start_ts c \<le> cm_end_ts c)
     \<and> (\<forall>c \<in> set cs. \<forall>d \<in> set cs. c \<noteq> d \<longrightarrow> separated c d)"

lemma disjoint_spans_sorted:
  assumes "disjoint_spans cs"
  shows "spans_ordered (sort_key cm_start_ts cs)"
  using assms by (intro sort_key_spans) (auto simp: disjoint_spans_def separated_def distinct_map)

definition covers :: "ChunkMeta \<Rightarrow> ChunkMeta \<Rightarrow> bool" where
  "covers d c \<longleftrightarrow> cm_start_ts d \<le> cm_start_ts c \<and> cm_end_ts c \<le> cm_end_ts d"

lemma covers_refl [simp]: "covers c c"
  by (simp add: covers_def)

lemma covers_trans: "covers e d \<Longrightarrow> covers d c \<Longrightarrow> covers e c"
  by (auto simp: covers_def i64_ord)

section \<open>Selection\<close>

abbreviation winner_of :: "ChunkMeta list \<Rightarrow> string option" where
  "winner_of g \<equiv> or_winner_relative_path (choose_surviving_chunk_for_overlap g)"

lemma discard_losers_Inr:
  "discard_losers groups D = Inr D' \<Longrightarrow>
     (\<forall>g \<in> set groups. winner_of g \<noteq> None)
     \<and> D' = D \<union> (\<Union>g \<in> set groups. {p \<in> cm_relative_path ` set g. Some p \<noteq> winner_of g})"
  by (induction groups D rule: discard_losers.induct) (auto split: option.splits)

lemma runs_of_member:
  assumes "c \<in> set cs"
  obtains g where "g \<in> set (runs [] e cs)" and "c \<in> set g"
proof -
  have "c \<in> set (concat (runs [] e cs))" using assms by (simp add: concat_runs)
  then show thesis using that by (simp only: set_concat) blast
qed

lemma same_run:
  assumes "sorted_wrt before gs" and "\<forall>g \<in> set gs. \<forall>c \<in> set g. cm_start_ts c \<le> cm_end_ts c"
    and "g \<in> set gs" and "h \<in> set gs" and "c \<in> set g" and "d \<in> set h"
  shows "g = h \<or> separated c d"
proof -
  obtain i j where ij: "i < length gs" "gs ! i = g" "j < length gs" "gs ! j = h"
    using assms(3,4) by (auto simp: in_set_conv_nth)
  consider "i = j" | "i < j" | "j < i" by linarith
  then show ?thesis
  proof cases
    case 2
    then have "before g h" using assms(1) ij by (auto simp: sorted_wrt_iff_nth_less)
    then show ?thesis using assms(5,6) by (auto simp: before_def separated_def)
  next
    case 3
    then have "before h g" using assms(1) ij by (auto simp: sorted_wrt_iff_nth_less)
    then show ?thesis using assms(5,6) by (auto simp: before_def separated_def)
  qed (use ij in simp)
qed

lemma select_non_overlapping:
  assumes "select_non_overlapping_chunks cs = Inr ss" and "distinct (map cm_relative_path cs)"
    and "\<forall>c \<in> set cs. cm_start_ts c \<le> cm_end_ts c" and "sorted (map cm_start_ts cs)"
  shows "disjoint_spans ss" and "spans_ordered ss" and "set ss \<subseteq> set cs" and "\<forall>c \<in> set cs. \<exists>d \<in> set ss. covers d c"
proof -
  let ?R = "runs [] i64_min cs" and ?K = "\<lambda>D c. cm_relative_path c \<notin> D"
  have so: "sort_key cm_start_ts cs = cs" by (rule sort_key_id_if_sorted [OF assms(4)])
  have g: "overlap_groups cs = filter (\<lambda>g. length g > 1) ?R" by (simp add: overlap_groups_def so group_loop_runs)
  have R: "sorted_wrt before ?R" "\<forall>g \<in> set ?R. g \<noteq> []" using runs_before [OF assms(4), of "[]"] by simp_all
  have in_cs: "c \<in> set cs" if "g \<in> set ?R" "c \<in> set g" for g c
    using that concat_runs [of "[]" i64_min cs] by (metis UN_I append_Nil set_concat)
  obtain D where D: "\<forall>g \<in> set (overlap_groups cs). winner_of g \<noteq> None"
      "D = (\<Union>g \<in> set (overlap_groups cs). {p \<in> cm_relative_path ` set g. Some p \<noteq> winner_of g})"
      "ss = sort_key cm_start_ts (filter (?K D) cs)"
  proof (cases "overlap_groups cs = []")
    case True
    then show thesis using that [of "{}"] assms(1) so by (simp add: select_non_overlapping_chunks_def Let_def)
  next
    case False
    then obtain D where d: "discard_losers (overlap_groups cs) {} = Inr D" and s: "ss = sort_key cm_start_ts (filter (?K D) cs)"
      using assms(1) by (auto simp: select_non_overlapping_chunks_def Let_def res_simps)
    show thesis by (rule that [of D]) (use discard_losers_Inr [OF d] s in simp_all)
  qed
  have path_inj: "c = d" if "c \<in> set cs" "d \<in> set cs" "cm_relative_path c = cm_relative_path d" for c d
    using assms(2) that by (auto simp: distinct_map dest: inj_onD)
  have own: "g = h" if "g \<in> set ?R" "h \<in> set ?R" "c \<in> set g" "c \<in> set h" for g h c
  proof -
    have "cm_start_ts c \<le> cm_end_ts c" using assms(3) in_cs that by blast
    then have "\<not> separated c c" by (auto simp: separated_def)
    then show ?thesis using same_run [OF R(1) _ that] assms(3) in_cs by blast
  qed
  have kept: "?K D c \<longleftrightarrow> length g \<le> 1 \<or> Some (cm_relative_path c) = winner_of g" if "g \<in> set ?R" "c \<in> set g" for g c
  proof -
    have "cm_relative_path c \<in> D \<longleftrightarrow> (\<exists>h \<in> set ?R. length h > 1 \<and> c \<in> set h \<and> Some (cm_relative_path c) \<noteq> winner_of h)"
    proof
      assume "cm_relative_path c \<in> D"
      then obtain h d where h: "h \<in> set ?R" "length h > 1" "d \<in> set h" "cm_relative_path d = cm_relative_path c"
          "Some (cm_relative_path c) \<noteq> winner_of h"
        unfolding D(2) g by (simp add: image_iff) metis
      then have "d = c" using path_inj in_cs that by blast
      with h show "\<exists>h \<in> set ?R. length h > 1 \<and> c \<in> set h \<and> Some (cm_relative_path c) \<noteq> winner_of h" by blast
    next
      assume "\<exists>h \<in> set ?R. length h > 1 \<and> c \<in> set h \<and> Some (cm_relative_path c) \<noteq> winner_of h"
      then show "cm_relative_path c \<in> D" unfolding D(2) g by auto
    qed
    note D_iff = this
    have one: "h = g" if "h \<in> set ?R" "c \<in> set h" for h by (rule own [OF that(1) \<open>g \<in> set ?R\<close> that(2) \<open>c \<in> set g\<close>])
    have "(\<exists>h \<in> set ?R. length h > 1 \<and> c \<in> set h \<and> Some (cm_relative_path c) \<noteq> winner_of h)
        \<longleftrightarrow> length g > 1 \<and> Some (cm_relative_path c) \<noteq> winner_of g"
      by (rule iffI, elim bexE conjE, drule (1) one, simp, rule bexI [OF _ that(1)], simp add: that(2))
    with D_iff show ?thesis unfolding not_less [symmetric] by metis
  qed
  have sep: "separated c d" if "c \<in> set cs" "d \<in> set cs" "?K D c" "?K D d" "c \<noteq> d" for c d
  proof -
    note m = that
    obtain a where a: "a \<in> set ?R" "c \<in> set a" by (rule runs_of_member [OF m(1)])
    obtain b where b: "b \<in> set ?R" "d \<in> set b" by (rule runs_of_member [OF m(2)])
    note ab = a b
    have "a \<noteq> b"
    proof
      assume "a = b"
      then have "\<not> length a \<le> 1" using a(2) b(2) m(5) by (cases a) auto
      then have "Some (cm_relative_path c) = winner_of b" "Some (cm_relative_path d) = winner_of b" using kept [OF ab(1,2)] kept [OF ab(3,4)] \<open>a = b\<close> m(3,4) by auto
      then have "cm_relative_path c = cm_relative_path d" by (metis option.inject)
      then show False using path_inj m(1,2,5) by blast
    qed
    then show ?thesis using same_run [OF R(1) _ ab(1,3,2,4)] assms(3) in_cs by blast
  qed
  show sub: "set ss \<subseteq> set cs" by (auto simp: D(3))
  have d: "disjoint_spans (filter (?K D) cs)"
    using sep assms(2,3) by (auto simp: disjoint_spans_def distinct_map inj_on_def)
  then show "spans_ordered ss" unfolding D(3) by (rule disjoint_spans_sorted)
  have "distinct (map cm_relative_path ss)" using d by (simp add: disjoint_spans_def D(3) distinct_map)
  then show "disjoint_spans ss" using d by (simp add: disjoint_spans_def D(3))
  show "\<forall>c \<in> set cs. \<exists>d \<in> set ss. covers d c"
  proof
    fix c assume c: "c \<in> set cs"
    obtain a where a: "a \<in> set ?R" "c \<in> set a" by (rule runs_of_member [OF c])
    show "\<exists>d \<in> set ss. covers d c"
    proof (cases "length a > 1")
      case True
      then obtain w where "winner_of a = Some w" using D(1) a by (auto simp: g)
      then obtain d where d: "d \<in> set a" "Some (cm_relative_path d) = winner_of a" "covers d c"
        using survivor_covers [of a w] a(2) unfolding covers_def by metis
      then have "?K D d" "d \<in> set cs" using kept [OF a(1) d(1)] in_cs [OF a(1) d(1)] by simp_all
      then show ?thesis using d(3) by (auto simp: D(3))
    next
      case False
      then have "?K D c" using kept [OF a] by simp
      then show ?thesis using c covers_refl by (auto simp: D(3))
    qed
  qed
qed

section \<open>Adoption keeps spans disjoint and replaces only older chunks\<close>

definition superseded :: "ChunkMeta list \<Rightarrow> ChunkMeta \<Rightarrow> bool" where
  "superseded cs c \<longleftrightarrow> c \<in> set cs \<or> (\<exists>d \<in> set cs. cm_generation c < cm_generation d \<and> covers d c)"

lemma adopt_candidate_chunks:
  "fst (adopt_candidate dir candidate (cs, changed, report)) =
     (let overlapping = filter (\<lambda>c. overlaps_with c candidate) cs in
      if cm_relative_path candidate \<in> cm_relative_path ` set cs then cs
      else if overlapping = [] then cs @ [candidate]
      else if (\<exists>c \<in> set overlapping. cm_generation c \<ge> cm_generation candidate)
        \<or> winner_of (overlapping @ [candidate]) \<noteq> Some (cm_relative_path candidate) then cs
      else filter (\<lambda>c. \<not> overlaps_with c candidate) cs @ [candidate])"
proof -
  have "list_ex (\<lambda>c. cm_relative_path c = cm_relative_path candidate) cs \<longleftrightarrow> cm_relative_path candidate \<in> cm_relative_path ` set cs"
    by (simp add: list_ex_iff image_iff) metis
  then show ?thesis by (auto simp: adopt_candidate_def Let_def list_ex_iff)
qed

lemma adopt_candidate_sound:
  assumes "disjoint_spans cs" and "cm_start_ts candidate \<le> cm_end_ts candidate"
    and "adopt_candidate dir candidate (cs, changed, report) = (cs', changed', report')"
  shows "disjoint_spans cs'" and "\<forall>c \<in> set cs. superseded cs' c" and "set cs' \<subseteq> insert candidate (set cs)"
proof -
  let ?o = "filter (\<lambda>c. overlaps_with c candidate) cs"
  consider (same) "cs' = cs"
    | (new) "cm_relative_path candidate \<notin> cm_relative_path ` set cs" "?o = []" "cs' = cs @ [candidate]"
    | (replaced) "cm_relative_path candidate \<notin> cm_relative_path ` set cs" "\<forall>c \<in> set ?o. cm_generation c < cm_generation candidate"
        "winner_of (?o @ [candidate]) = Some (cm_relative_path candidate)"
        "cs' = filter (\<lambda>c. \<not> overlaps_with c candidate) cs @ [candidate]"
  proof (cases "cs' = cs")
    case False
    have "cs' = fst (adopt_candidate dir candidate (cs, changed, report))" using assms(3) by simp
    note e = this [unfolded adopt_candidate_chunks Let_def]
    have p: "cm_relative_path candidate \<notin> cm_relative_path ` set cs" using False e by metis
    show thesis
    proof (cases "?o = []")
      case True
      then show thesis using that(2) p e by simp
    next
      case o: False
      have n: "\<not> ((\<exists>c \<in> set ?o. cm_generation c \<ge> cm_generation candidate)
          \<or> winner_of (?o @ [candidate]) \<noteq> Some (cm_relative_path candidate))" 
        using False e p o by (metis (no_types, lifting))
      with e p o n have "cs' = filter (\<lambda>c. \<not> overlaps_with c candidate) cs @ [candidate]" by (simp only: if_False)
      with that(3) p n show thesis by (simp only: not_le not_ex disj_not1 de_Morgan_disj ball_simps bex_simps not_not) simp
    qed
  qed
  then have "disjoint_spans cs' \<and> (\<forall>c \<in> set cs. superseded cs' c) \<and> set cs' \<subseteq> insert candidate (set cs)"
  proof cases
    case same
    then show ?thesis using assms(1) by (auto simp: superseded_def)
  next
    case new
    have "separated c candidate \<and> separated candidate c" if "c \<in> set cs" for c
      using new(2) that not_overlaps by (auto simp: filter_empty_conv separated_def)
    then show ?thesis using new assms(1,2) by (auto simp: disjoint_spans_def superseded_def)
  next
    case replaced
    obtain w where w: "w \<in> set (?o @ [candidate])" "cm_relative_path w = cm_relative_path candidate"
        "\<forall>d \<in> set (?o @ [candidate]). cm_start_ts w \<le> cm_start_ts d \<and> cm_end_ts d \<le> cm_end_ts w"
      by (rule survivor_covers [OF replaced(3)])
    have "w = candidate"
    proof (rule ccontr)
      assume "w \<noteq> candidate"
      then have "w \<in> set cs" using w(1) by simp
      then have "cm_relative_path w \<in> cm_relative_path ` set cs" by (rule imageI)
      then show False using replaced(1) w(2) by simp
    qed
    then have "superseded cs' c" if "c \<in> set cs" for c
      using replaced(2,4) w(3) that by (cases "overlaps_with c candidate") (auto simp: superseded_def covers_def)
    moreover have "disjoint_spans cs'"
      using replaced(1,4) assms(1,2) not_overlaps
      by (auto simp: disjoint_spans_def distinct_map inj_on_def) (auto simp: separated_def)
    ultimately show ?thesis using replaced(4) by auto
  qed
  then show "disjoint_spans cs'" "\<forall>c \<in> set cs. superseded cs' c" "set cs' \<subseteq> insert candidate (set cs)" by simp_all
qed

lemma superseded_trans: "superseded cs c \<Longrightarrow> \<forall>d \<in> set cs. superseded ds d \<Longrightarrow> superseded ds c"
  unfolding superseded_def by (meson covers_trans order.strict_trans)

lemma adopt_candidates_sound:
  assumes "disjoint_spans cs" and "\<forall>c \<in> set candidates. cm_start_ts c \<le> cm_end_ts c"
    and "adopt_candidates dir candidates (cs, changed, report) = (cs', changed', report')"
  shows "disjoint_spans cs' \<and> (\<forall>c \<in> set cs. superseded cs' c) \<and> set cs' \<subseteq> set cs \<union> set candidates"
  using assms
proof (induction candidates arbitrary: cs changed report)
  case Nil
  then show ?case by (auto simp: adopt_candidates_def superseded_def)
next
  case (Cons c cands)
  obtain ds ch rep where s: "adopt_candidate dir c (cs, changed, report) = (ds, ch, rep)" by (metis prod_cases3)
  have "cm_start_ts c \<le> cm_end_ts c" using Cons.prems(2) by simp
  note a = adopt_candidate_sound [OF Cons.prems(1) this s]
  have "disjoint_spans cs' \<and> (\<forall>c \<in> set ds. superseded cs' c) \<and> set cs' \<subseteq> set ds \<union> set cands"
    using Cons.IH [of ds ch rep] Cons.prems(2,3) a(1) s by (simp add: adopt_candidates_def)
  then show ?case using a(2,3) superseded_trans by fastforce
qed

lemma adopt_changed: "adopt_candidates dir candidates (cs, True, report) = (cs', changed', report') \<Longrightarrow> changed'"
proof (induction candidates arbitrary: cs report)
  case (Cons c cands)
  obtain ds ch rep where s: "adopt_candidate dir c (cs, True, report) = (ds, ch, rep)" by (metis prod_cases3)
  then have ch by (auto simp: adopt_candidate_def Let_def split: if_splits)
  then show ?case using Cons s by (simp add: adopt_candidates_def)
qed (simp add: adopt_candidates_def)

section \<open>Interrupted merges\<close>

lemma settle_merging_keeps:
  "cm_relative_path (fst (settle_merging active cs c)) = cm_relative_path c"
  "cm_start_ts (fst (settle_merging active cs c)) = cm_start_ts c"
  "cm_end_ts (fst (settle_merging active cs c)) = cm_end_ts c"
  "\<not> snd (settle_merging active cs c) \<Longrightarrow> fst (settle_merging active cs c) = c"
  by (auto simp: settle_merging_def Let_def)

lemma disjoint_spans_map:
  assumes "disjoint_spans cs" and "\<And>c. cm_relative_path (f c) = cm_relative_path c"
    and "\<And>c. cm_start_ts (f c) = cm_start_ts c" and "\<And>c. cm_end_ts (f c) = cm_end_ts c"
  shows "disjoint_spans (map f cs)"
proof -
  have "separated (f c) (f d)" if "c \<in> set cs" "d \<in> set cs" "f c \<noteq> f d" for c d
    using assms that unfolding disjoint_spans_def separated_def by metis
  then show ?thesis using assms by (auto simp: disjoint_spans_def comp_def)
qed

lemma normalize_sound:
  assumes "normalize_dangling_merging_states meta = (meta', changed)" and "disjoint_spans (sm_chunks meta)"
  shows "disjoint_spans (sm_chunks meta')" and "\<not> changed \<Longrightarrow> meta' = meta"
    and "map cm_relative_path (sm_chunks meta') = map cm_relative_path (sm_chunks meta)"
proof -
  let ?f = "\<lambda>c. fst (settle_merging (sm_active_chunk_id meta) (sm_chunks meta) c)"
  have m: "meta' = meta\<lparr>sm_chunks := map ?f (sm_chunks meta)\<rparr>"
    "changed \<longleftrightarrow> list_ex (\<lambda>c. snd (settle_merging (sm_active_chunk_id meta) (sm_chunks meta) c)) (sm_chunks meta)"
    using assms(1) by (auto simp: normalize_dangling_merging_states_def Let_def list_ex_iff comp_def)
  show "disjoint_spans (sm_chunks meta')"
    unfolding m(1) by (simp add: disjoint_spans_map [OF assms(2)] settle_merging_keeps)
  show "map cm_relative_path (sm_chunks meta') = map cm_relative_path (sm_chunks meta)"
    unfolding m(1) by (simp add: settle_merging_keeps comp_def)
  assume "\<not> changed"
  then have "map ?f (sm_chunks meta) = sm_chunks meta"
    using m(2) settle_merging_keeps(4) by (intro map_idI) (auto simp: list_ex_iff)
  then show "meta' = meta" unfolding m(1) by simp
qed

end
