(* ===== verification/Recovery.thy ===== *)
theory Recovery
  imports Store Overlaps
begin

text \<open>
  Recovery of a store (\<^verbatim>\<open>src/src/store_core/storage/recovery.rs\<close>): the marker that a mutation leaves
  while it runs, the scans of the series directories, the rebuilding of manifests from chunk
  files, the repair of one series, and the recovery of the whole store. Directory trees are
  walked with a bound on their depth as fuel; \<open>None\<close> is a walk that exceeds it.
\<close>

definition RECOVERY_MARKER_FILE :: string where "RECOVERY_MARKER_FILE = ''.fastk.recovery.pending''"

definition recovery_marker_path :: "path \<Rightarrow> path" where
  "recovery_marker_path root = path_join root RECOVERY_MARKER_FILE"

definition has_pending_recovery :: "fs_state \<Rightarrow> path \<Rightarrow> bool" where
  "has_pending_recovery s root \<longleftrightarrow> fs_exists s (recovery_marker_path root)"

text \<open>\<open>create_dir_all\<close> and \<open>remove_file\<close> with their outcomes.\<close>

definition make_dir :: "Env \<Rightarrow> path \<Rightarrow> fs_state \<Rightarrow> fs_state \<times> unit res" where
  "make_dir E p s =
     (case os_mkdir (e_os E s p) of Some e \<Rightarrow> (s, Inl (Io e)) | None \<Rightarrow> (ensure_dir p s, Inr ()))"

definition remove_file :: "Env \<Rightarrow> path \<Rightarrow> fs_state \<Rightarrow> fs_state \<times> unit res" where
  "remove_file E p s =
     (if fs_files s p = None then (s, Inl (Io (if p \<in> fs_dirs s then OtherKind else NotFoundKind)))
      else (case os_remove (e_os E s p) of Some e \<Rightarrow> (s, Inl (Io e)) | None \<Rightarrow> (fs_remove None p s, Inr ())))"

definition arm_marker :: "Env \<Rightarrow> path \<Rightarrow> fs_state \<Rightarrow> fs_state \<times> unit res" where
  "arm_marker E root s =
     (case make_dir E root s of
        (s, Inl e) \<Rightarrow> (s, Inl e)
      | (s, Inr _) \<Rightarrow>
          let p = recovery_marker_path root;
              (trace, r) = atomic_write_replace (e_os E s p) p
                (as_bytes (''dirty_since='' @ fmt_i64 (e_now E) @ [char_of (10 :: nat)]), None) s in
          (last trace, r))"

definition clear_recovery_marker_path :: "Env \<Rightarrow> path \<Rightarrow> fs_state \<Rightarrow> fs_state \<times> unit res" where
  "clear_recovery_marker_path E p s =
     (case remove_file E p s of
        (s', Inr _) \<Rightarrow>
          (case os_sync_parent (e_os E s p) of
             Some e \<Rightarrow> (s', Inl (Io e))
           | None \<Rightarrow> (case path_parent p of None \<Rightarrow> (s', Inl (Panic ''marker has parent'')) | Some dir \<Rightarrow> (sync_parent_dir dir s', Inr ())))
      | (s', Inl e) \<Rightarrow> (s', if e = Io NotFoundKind then Inr () else Inl e))"

definition clear_recovery_marker :: "Env \<Rightarrow> path \<Rightarrow> fs_state \<Rightarrow> fs_state \<times> unit res" where
  "clear_recovery_marker E root s = clear_recovery_marker_path E (recovery_marker_path root) s"

section \<open>File names\<close>

text \<open>\<open>str::rsplit_once\<close> and \<open>Path::extension\<close>.\<close>

definition rsplit_once :: "char \<Rightarrow> string \<Rightarrow> (string \<times> string) option" where
  "rsplit_once sep s =
     (let rest = dropWhile (\<lambda>c. c \<noteq> sep) (rev s) in
      if rest = [] then None else Some (rev (tl rest), rev (takeWhile (\<lambda>c. c \<noteq> sep) (rev s))))"

definition path_extension :: "string \<Rightarrow> string option" where
  "path_extension file_name =
     (case rsplit_once CHR ''.'' file_name of
        None \<Rightarrow> None
      | Some (stem, ext) \<Rightarrow> if stem = [] then None else Some ext)"

definition to_ascii_lowercase :: "char \<Rightarrow> char" where
  "to_ascii_lowercase c = (if of_char c \<in> {65..90 :: nat} then char_of (of_char c + 32 :: nat) else c)"

definition is_temp_name :: "string \<Rightarrow> bool" where
  "is_temp_name file_name \<longleftrightarrow> map_option (map to_ascii_lowercase) (path_extension file_name) = Some ''tmp''"

definition decode_chunk_state :: "string \<Rightarrow> ChunkState" where
  "decode_chunk_state file_name = (if sublist ''.delta.'' file_name then Active else Sealed)"

definition parent_chunk_relative_path :: "string \<Rightarrow> string res" where
  "parent_chunk_relative_path relative_path =
     and_then (ok_or (map_option fst (rsplit_once CHR ''.'' relative_path))
       (InvalidData ''invalid sidecar relative path'')) (\<lambda>parent.
     and_then (ensure (suffix ''.chunk'' parent)
       (InvalidData ''sidecar path does not resolve to a chunk'')) (\<lambda>_.
     Inr parent))"

section \<open>Walking directories\<close>

fun try_entries :: "('x \<Rightarrow> 'a \<Rightarrow> 'a res option) \<Rightarrow> 'x list \<Rightarrow> 'a \<Rightarrow> 'a res option" where
  "try_entries f [] out = Some (Inr out)"
| "try_entries f (x # xs) out =
     (case f x out of
        None \<Rightarrow> None
      | Some (Inl e) \<Rightarrow> Some (Inl e)
      | Some (Inr out') \<Rightarrow> try_entries f xs out')"

primrec collect_series_dirs :: "nat \<Rightarrow> Env \<Rightarrow> fs_state \<Rightarrow> path \<Rightarrow> path list \<Rightarrow> path list res option" where
  "collect_series_dirs 0 E s current out = None"
| "collect_series_dirs (Suc depth) E s current out =
     (if current \<notin> fs_dirs s then Some (Inr out)
      else if path_join current CHUNKS_DIR \<in> fs_dirs s \<or> fs_files s (path_join current MANIFEST_FILE) \<noteq> None
      then Some (Inr (out @ [current]))
      else
        (case e_read_dir E s current of
           Inl e \<Rightarrow> Some (Inl e)
         | Inr entries \<Rightarrow>
             try_entries (\<lambda>(name, is_dir) out.
               if is_dir then collect_series_dirs depth E s (path_join current name) out else Some (Inr out)) entries out))"

definition discover_series_dirs :: "nat \<Rightarrow> Env \<Rightarrow> fs_state \<Rightarrow> path \<Rightarrow> path list res option" where
  "discover_series_dirs depth E s below = collect_series_dirs depth E s below []"

primrec collect_temp_files :: "nat \<Rightarrow> Env \<Rightarrow> fs_state \<Rightarrow> path \<Rightarrow> path list \<Rightarrow> path list res option" where
  "collect_temp_files 0 E s current out = None"
| "collect_temp_files (Suc depth) E s current out =
     (if \<not> fs_exists s current then Some (Inr out)
      else
        (case e_read_dir E s current of
           Inl e \<Rightarrow> Some (Inl e)
         | Inr entries \<Rightarrow>
             try_entries (\<lambda>(name, is_dir) out.
               if is_dir then collect_temp_files depth E s (path_join current name) out
               else Some (Inr (if is_temp_name name then out @ [path_join current name] else out))) entries out))"

definition scan_temp_files :: "nat \<Rightarrow> Env \<Rightarrow> fs_state \<Rightarrow> path \<Rightarrow> path list res option" where
  "scan_temp_files depth E s root = collect_temp_files depth E s root []"

section \<open>Scanning a series directory\<close>

definition read_file :: "fs_state \<Rightarrow> path \<Rightarrow> u8 list res" where
  "read_file s p = ok_or (visible s p) (Io NotFoundKind)"

definition scan_sidecar_file :: "fs_state \<Rightarrow> path \<Rightarrow> string \<Rightarrow> SidecarMeta res" where
  "scan_sidecar_file s dir file_name =
     (let kind = (case rsplit_once CHR ''.'' file_name of None \<Rightarrow> file_name | Some (_, ext) \<Rightarrow> ext) in
      and_then (read_file s (path_join (chunks_dir dir) file_name)) (\<lambda>bytes.
      Inr \<lparr>sc_kind = kind, sc_relative_path = chunk_relative_path file_name, sc_generation = 0,
           sc_checksum = checksum64 bytes, sc_block_size = 0,
           sc_record_count = (if kind = ''zmap'' then word_of_nat (length bytes div zmap_BYTE_SIZE)
             else if kind = ''vix'' then word_of_nat (length bytes div vix_BYTE_SIZE) else 0)\<rparr>))"

definition scan_sidecar_files :: "Env \<Rightarrow> fs_state \<Rightarrow> path \<Rightarrow> SidecarMeta list res" where
  "scan_sidecar_files E s dir =
     (if \<not> fs_exists s (chunks_dir dir) then Inr []
      else and_then (e_read_dir E s (chunks_dir dir)) (\<lambda>entries.
        collect_res (scan_sidecar_file s dir)
          (filter (\<lambda>name. \<not> (suffix ''.chunk'' name \<or> \<not> sublist ''.chunk.'' name)) (map fst (filter (\<lambda>e. \<not> snd e) entries)))))"

definition scan_chunk_file :: "Env \<Rightarrow> fs_state \<Rightarrow> path \<Rightarrow> (string \<times> SidecarMeta) list \<Rightarrow> string \<Rightarrow> ChunkMeta res" where
  "scan_chunk_file E s dir sidecars file_name =
     and_then (read_file s (path_join (chunks_dir dir) file_name)) (\<lambda>bytes.
     and_then (header_read_from bytes) (\<lambda>header.
     and_then (month_key (e_utc E) (h_start_ts header)) (\<lambda>key.
     let relative_path = chunk_relative_path file_name in
     Inr \<lparr>cm_chunk_id = h_chunk_id header, cm_month_key = key, cm_start_ts = h_start_ts header,
          cm_end_ts = h_end_ts header, cm_count = h_count header, cm_state = decode_chunk_state file_name,
          cm_layout_version = h_version header, cm_header_len = h_header_size header,
          cm_sparse_index_every = ucast (h_sparse_index_every header), cm_sparse_index_offset = h_index_offset header,
          cm_sparse_index_len = ucast (h_index_len header), cm_chunk_checksum = checksum64 bytes,
          cm_generation = ucast (h_generation header), cm_relative_path = relative_path,
          cm_sidecars = sort_key sc_relative_path (map snd (filter (\<lambda>(p, _). p = relative_path) sidecars))\<rparr>)))"

definition scan_chunk_files :: "Env \<Rightarrow> fs_state \<Rightarrow> path \<Rightarrow> ChunkMeta list res" where
  "scan_chunk_files E s dir =
     (if \<not> fs_exists s (chunks_dir dir) then Inr []
      else
        and_then (scan_sidecar_files E s dir) (\<lambda>sidecars.
        and_then (collect_res (\<lambda>sidecar. and_then (parent_chunk_relative_path (sc_relative_path sidecar)) (\<lambda>p. Inr (p, sidecar)))
          sidecars) (\<lambda>sidecars.
        and_then (e_read_dir E s (chunks_dir dir)) (\<lambda>entries.
        and_then (collect_res (scan_chunk_file E s dir sidecars)
          (filter (suffix ''.chunk'') (map fst (filter (\<lambda>e. \<not> snd e) entries)))) (\<lambda>cs.
        Inr (sort_key cm_start_ts cs))))))"

section \<open>Rebuilding a manifest\<close>

definition record_type_of_schema :: "u32 \<Rightarrow> RecordType res" where
  "record_type_of_schema schema_id =
     (if schema_id = KLINE_SCHEMA_ID then Inr Kline
      else if schema_id = SCALAR_SCHEMA_ID then Inr Scalar
      else if schema_id = TRADE_SCHEMA_ID then Inr Trade
      else if schema_id = BBO_SCHEMA_ID then Inr Bbo
      else if schema_id = BOOK_DELTA_SCHEMA_ID then Inr BookDelta
      else Inl (InvalidData ''unsupported schema_id during recovery''))"

definition load_disk :: "Env \<Rightarrow> ManifestStore \<Rightarrow> path \<Rightarrow> bool \<Rightarrow> ManifestStore \<times> SeriesMeta res" where
  "load_disk E disk dir read_only =
     load_series_meta_shared_mode (e_json E) (e_utc E) (e_now E) (e_mtime E)
       (e_os E (ms_fs disk) (series_meta_path dir)) disk dir read_only"

definition save_disk :: "Env \<Rightarrow> ManifestStore \<Rightarrow> path \<Rightarrow> SeriesMeta \<Rightarrow> ManifestStore \<times> unit res" where
  "save_disk E disk dir meta =
     save_series_meta (e_mtime E) (e_os E (ms_fs disk) (series_meta_path dir)) disk dir meta"

definition active_chunk :: "ChunkMeta list \<Rightarrow> u64 option" where
  "active_chunk cs = map_option cm_chunk_id (find (\<lambda>c. cm_state c = Active) (rev cs))"

text \<open>The names of the directories above a series are those of its symbol and category.\<close>

definition dir_name :: "path option \<Rightarrow> string \<Rightarrow> string res" where
  "dir_name dir message =
     ok_or (case dir of None \<Rightarrow> None | Some p \<Rightarrow> path_file_name p) (InvalidData message)"

definition build_series_meta_from_chunks :: "Env \<Rightarrow> ManifestStore \<Rightarrow> path \<Rightarrow> ChunkMeta list \<Rightarrow> SeriesMeta res" where
  "build_series_meta_from_chunks E disk dir cs =
     (case cs of
        [] \<Rightarrow> Inl (Panic ''index out of bounds'')
      | first # _ \<Rightarrow>
          and_then (read_file (ms_fs disk) (resolve_relative_path dir (cm_relative_path first))) (\<lambda>bytes.
          and_then (header_read_from bytes) (\<lambda>header.
          and_then (dir_name (Some dir) ''invalid series dir name'') (\<lambda>name.
          and_then (dir_name (path_parent dir) ''invalid category dir name'') (\<lambda>category.
          and_then (dir_name (Option.bind (path_parent dir) path_parent) ''invalid symbol dir name'') (\<lambda>symbol.
          and_then (record_type_of_schema (h_schema_id header)) (\<lambda>record_type.
          and_then
            (case snd (load_disk E disk dir True) of
               Inr existing \<Rightarrow>
                 and_then (ensure (\<not> (sm_record_type existing \<noteq> record_type \<or> sm_schema_id existing \<noteq> h_schema_id header
                     \<or> sm_timeframe_ms existing \<noteq> h_timeframe_ms header \<or> sm_symbol existing \<noteq> symbol
                     \<or> sm_category existing \<noteq> category \<or> sm_name existing \<noteq> name))
                   (InvalidData ''existing semantic metadata does not match chunk identity'')) (\<lambda>_. Inr existing)
             | Inl _ \<Rightarrow>
                 if record_type = Scalar then
                   Inr (build_scalar_meta (e_now E) \<lparr>key_symbol = symbol, key_category = category, key_name = name\<rparr>
                     (h_timeframe_ms header))
                 else Inl (InvalidData ''cannot reconstruct semantic metadata from chunk headers'')) (\<lambda>meta.
          let meta = meta\<lparr>sm_category := category, sm_record_size := h_record_size header, sm_schema_id := h_schema_id header,
                sm_series_id := max (h_series_id header) (series_id_for symbol category name), sm_chunks := cs,
                sm_active_chunk_id := active_chunk cs, sm_manifest_seq := saturating_add (sm_manifest_seq meta) 1,
                sm_updated_at := e_now E\<rparr> in
          and_then (series_meta_validate meta) (\<lambda>_. Inr meta)))))))))"

definition rebuild_manifest_preview :: "Env \<Rightarrow> ManifestStore \<Rightarrow> path \<Rightarrow> SeriesMeta res" where
  "rebuild_manifest_preview E disk dir =
     and_then (scan_chunk_files E (ms_fs disk) dir) (\<lambda>cs.
     and_then (ensure (cs \<noteq> []) (NotFound ''no chunk files found'')) (\<lambda>_.
     and_then (select_non_overlapping_chunks cs) (\<lambda>survivors.
     build_series_meta_from_chunks E disk dir survivors)))"

definition rebuild_manifest_locked :: "Env \<Rightarrow> ManifestStore \<Rightarrow> path \<Rightarrow> ManifestStore \<times> SeriesMeta res" where
  "rebuild_manifest_locked E disk dir =
     (case rebuild_manifest_preview E disk dir of
        Inl e \<Rightarrow> (disk, Inl e)
      | Inr meta \<Rightarrow> let (disk, r) = save_disk E disk dir meta in (disk, and_then r (\<lambda>_. Inr meta)))"

section \<open>Repairing a series\<close>

definition recover_series_dir ::
  "Env \<Rightarrow> bool \<Rightarrow> path \<Rightarrow> ManifestStore \<Rightarrow> RecoveryReport \<Rightarrow> ManifestStore \<times> RecoveryReport res" where
  "recover_series_dir E dry_run dir disk report =
     (case scan_chunk_files E (ms_fs disk) dir of
        Inl e \<Rightarrow> (disk, Inl e)
      | Inr candidates \<Rightarrow>
          if candidates = [] then (disk, Inr report)
          else
            let (disk, loaded) = load_disk E disk dir dry_run;
                (disk, report, loaded) =
                  (case loaded of
                     Inr meta \<Rightarrow> (disk, report, Inr meta)
                   | Inl _ \<Rightarrow>
                       let report = report\<lparr>rr_rebuilt_manifests := rr_rebuilt_manifests report + 1,
                             rr_rebuilt_manifest_paths := rr_rebuilt_manifest_paths report @ [dir]\<rparr>;
                           (disk, rebuilt) = (if dry_run then (disk, rebuild_manifest_preview E disk dir)
                             else rebuild_manifest_locked E disk dir) in
                       (disk, report, rebuilt)) in
            (case loaded of
               Inl e \<Rightarrow> (disk, Inl e)
             | Inr meta \<Rightarrow>
                 let (meta, changed) = normalize_dangling_merging_states meta;
                     (cs, changed, report) = adopt_candidates dir candidates (sm_chunks meta, changed, report) in
                 if \<not> changed then (disk, Inr report)
                 else
                   let cs = sort_key cm_start_ts cs;
                       meta = meta\<lparr>sm_chunks := cs, sm_active_chunk_id := active_chunk cs,
                         sm_manifest_seq := saturating_add (sm_manifest_seq meta) 1, sm_updated_at := e_now E\<rparr> in
                   if dry_run then (disk, Inr report)
                   else let (disk, r) = save_disk E disk dir meta in (disk, and_then r (\<lambda>_. Inr report))))"

fun recover_each ::
  "Env \<Rightarrow> bool \<Rightarrow> path list \<Rightarrow> ManifestStore \<Rightarrow> RecoveryReport \<Rightarrow> ManifestStore \<times> RecoveryReport res" where
  "recover_each E dry_run [] disk report = (disk, Inr report)"
| "recover_each E dry_run (dir # dirs) disk report =
     (case recover_series_dir E dry_run dir disk report of
        (disk, Inl e) \<Rightarrow> (disk, Inl e)
      | (disk, Inr report) \<Rightarrow> recover_each E dry_run dirs disk report)"

fun remove_each :: "Env \<Rightarrow> path list \<Rightarrow> fs_state \<Rightarrow> fs_state" where
  "remove_each E [] s = s"
| "remove_each E (p # ps) s = remove_each E ps (fst (remove_file E p s))"

definition clear_disk_marker ::
  "Env \<Rightarrow> bool \<Rightarrow> path \<Rightarrow> ManifestStore \<Rightarrow> RecoveryReport \<Rightarrow> ManifestStore \<times> RecoveryReport res" where
  "clear_disk_marker E dry_run root disk report =
     (if dry_run then (disk, Inr report)
      else let (s, r) = clear_recovery_marker E root (ms_fs disk) in (disk\<lparr>ms_fs := s\<rparr>, and_then r (\<lambda>_. Inr report)))"

definition startup_recover_locked ::
  "nat \<Rightarrow> Env \<Rightarrow> bool \<Rightarrow> path \<Rightarrow> ManifestStore \<Rightarrow> (ManifestStore \<times> RecoveryReport res) option" where
  "startup_recover_locked depth E dry_run root disk =
     (let report = recovery_report_default\<lparr>rr_dry_run := dry_run\<rparr> in
      if \<not> fs_exists (ms_fs disk) root then Some (disk, Inr report)
      else
        (case scan_temp_files depth E (ms_fs disk) root of
           None \<Rightarrow> None
         | Some (Inl e) \<Rightarrow> Some (disk, Inl e)
         | Some (Inr removed) \<Rightarrow>
             let report = report\<lparr>rr_removed_temp_files := length removed, rr_removed_temp_paths := removed\<rparr>;
                 disk = (if dry_run then disk else disk\<lparr>ms_fs := remove_each E removed (ms_fs disk)\<rparr>) in
             if \<not> fs_exists (ms_fs disk) (series_root root) then Some (clear_disk_marker E dry_run root disk report)
             else
               (case discover_series_dirs depth E (ms_fs disk) (series_root root) of
                  None \<Rightarrow> None
                | Some (Inl e) \<Rightarrow> Some (disk, Inl e)
                | Some (Inr dirs) \<Rightarrow>
                    (case recover_each E dry_run dirs disk report of
                       (disk, Inl e) \<Rightarrow> Some (disk, Inl e)
                     | (disk, Inr report) \<Rightarrow> Some (clear_disk_marker E dry_run root disk report)))))"

section \<open>A dry run changes nothing\<close>

lemma load_read_only: "fst (load_series_meta_shared_mode json utc now mtime os disk dir True) = disk"
  by (simp add: load_series_meta_shared_mode_def decode_or_migrate_def Let_def split: option.splits sum.splits prod.splits)

lemma load_disk_read_only: "load_disk E disk dir True = (disk, snd (load_disk E disk dir True))"
  unfolding load_disk_def by (metis load_read_only prod.collapse)

lemma recover_series_dir_dry: "fst (recover_series_dir E True dir disk report) = disk"
  by (subst recover_series_dir_def, subst load_disk_read_only) (simp add: Let_def split: sum.splits prod.splits)

lemma recover_each_dry: "fst (recover_each E True dirs disk report) = disk"
proof (induction dirs arbitrary: report)
  case (Cons dir dirs)
  obtain r where "recover_series_dir E True dir disk report = (disk, r)"
    using recover_series_dir_dry by (metis prod.collapse)
  with Cons show ?case by (simp split: sum.splits)
qed simp

lemma startup_recover_dry:
  assumes "startup_recover_locked depth E True root disk = Some (disk', r)"
  shows "disk' = disk"
proof -
  have "recover_each E True dirs disk report = (d, r') \<Longrightarrow> d = disk" for dirs report d r'
    using recover_each_dry [of E dirs disk report] by simp
  then show ?thesis using assms
    by (auto simp: startup_recover_locked_def clear_disk_marker_def Let_def split: if_splits option.splits sum.splits prod.splits)
qed

section \<open>Repair keeps the manifest sound\<close>

lemma scan_sorted:
  "scan_chunk_files E s dir = Inr cs \<Longrightarrow> sorted (map cm_start_ts cs)"
  by (auto simp: scan_chunk_files_def res_simps split: if_splits)

text \<open>
  What a repair leaves: the saved manifest is valid, its chunks do not overlap, and every chunk of
  the manifest it started from is still listed, up to the reset of an interrupted merge, or a
  newer chunk covers its span.
\<close>

lemma recover_series_saved:
  assumes r: "recover_series_dir E False dir disk report = (disk', Inr report')"
    and scan: "scan_chunk_files E (ms_fs disk) dir = Inr candidates" "candidates \<noteq> []"
    and load: "load_disk E disk dir False = (disk1, Inr meta)"
    and start: "\<forall>c \<in> set candidates. cm_start_ts c \<le> cm_end_ts c" "disjoint_spans (sm_chunks meta)"
  obtains (unchanged) "disk' = disk1" and "normalize_dangling_merging_states meta = (meta, False)"
  | (saved) meta1 meta' ch where "normalize_dangling_merging_states meta = (meta1, ch)"
      and "save_disk E disk1 dir meta' = (disk', Inr ())" and "disjoint_spans (sm_chunks meta')" and "spans_ordered (sm_chunks meta')"
      and "\<forall>c \<in> set (sm_chunks meta1). superseded (sm_chunks meta') c"
      and "set (sm_chunks meta') \<subseteq> set (sm_chunks meta1) \<union> set candidates"
proof -
  obtain meta1 ch where n: "normalize_dangling_merging_states meta = (meta1, ch)" by fastforce
  obtain cs ch' rep where a: "adopt_candidates dir candidates (sm_chunks meta1, ch, report) = (cs, ch', rep)" by (metis prod_cases3)
  note no = normalize_sound [OF n start(2)]
  have ad: "disjoint_spans cs" "\<forall>c \<in> set (sm_chunks meta1). superseded cs c" "set cs \<subseteq> set (sm_chunks meta1) \<union> set candidates"
    using adopt_candidates_sound [OF no(1) start(1) a] by simp_all
  show thesis
  proof (cases ch')
    case False
    then have "\<not> ch" using adopt_changed a by metis
    then show thesis using unchanged n no(2) False r scan load a by (simp add: recover_series_dir_def)
  next
    case True
    let ?cs = "sort_key cm_start_ts cs"
    let ?m = "meta1\<lparr>sm_chunks := ?cs, sm_active_chunk_id := active_chunk ?cs,
       sm_manifest_seq := saturating_add (sm_manifest_seq meta1) 1, sm_updated_at := e_now E\<rparr>"
    have s: "save_disk E disk1 dir ?m = (disk', Inr ())"
      using True r scan load n a by (auto simp: recover_series_dir_def Let_def res_simps split: prod.splits)
    have "disjoint_spans ?cs" using ad(1) by (simp add: disjoint_spans_def distinct_map)
    then show thesis using saved [OF n s] ad(2,3) disjoint_spans_sorted [OF ad(1)] by (simp add: superseded_def)
  qed
qed

section \<open>What a rebuilt manifest lists\<close>

lemma header_read_valid: "header_read_from bytes = Inr h \<Longrightarrow> header_validate h = Inr ()"
proof -
  assume "header_read_from bytes = Inr h"
  then obtain b where "header_from_le_bytes b = Inr h" unfolding header_read_from_def Let_def by (auto simp: res_simps split: if_splits)
  then show ?thesis unfolding header_from_le_bytes_def Let_def by (auto simp: res_simps)
qed

lemma collect_res_list_all2: "collect_res f xs = Inr ys \<Longrightarrow> list_all2 (\<lambda>x y. f x = Inr y) xs ys"
  by (induction xs arbitrary: ys) (auto simp: res_simps)

lemma scan_chunk_file_facts:
  assumes "scan_chunk_file E s dir sidecars name = Inr c"
  shows "cm_relative_path c = chunk_relative_path name" and "cm_count c > 0 \<Longrightarrow> cm_start_ts c \<le> cm_end_ts c"
  using assms by (auto simp: scan_chunk_file_def res_simps Let_def header_validate_iff dest!: header_read_valid)

lemma chunk_relative_path_inj [simp]: "chunk_relative_path a = chunk_relative_path b \<longleftrightarrow> a = b"
  by (simp add: chunk_relative_path_def)

lemma scan_chunk_files_facts:
  assumes "scan_chunk_files E s dir = Inr cs"
    and "\<And>entries. e_read_dir E s (chunks_dir dir) = Inr entries \<Longrightarrow> distinct (map fst entries)"
  shows "distinct (map cm_relative_path cs)" and "\<forall>c \<in> set cs. cm_count c > 0 \<longrightarrow> cm_start_ts c \<le> cm_end_ts c"
proof -
  have "distinct (map cm_relative_path cs) \<and> (\<forall>c \<in> set cs. cm_count c > 0 \<longrightarrow> cm_start_ts c \<le> cm_end_ts c)"
  proof (cases "fs_exists s (chunks_dir dir)")
    case True
    then obtain entries sidecars ds where e: "e_read_dir E s (chunks_dir dir) = Inr entries"
      and d: "collect_res (scan_chunk_file E s dir sidecars) (filter (suffix ''.chunk'') (map fst (filter (\<lambda>e. \<not> snd e) entries))) = Inr ds"
      and cs: "cs = sort_key cm_start_ts ds"
      using assms(1) unfolding scan_chunk_files_def by (auto simp: res_simps)
    let ?names = "filter (suffix ''.chunk'') (map fst (filter (\<lambda>e. \<not> snd e) entries))"
    have l: "list_all2 (\<lambda>n c. scan_chunk_file E s dir sidecars n = Inr c) ?names ds" by (rule collect_res_list_all2 [OF d])
    then have "map cm_relative_path ds = map chunk_relative_path ?names"
      by (induction rule: list_all2_induct) (auto dest: scan_chunk_file_facts)
    moreover have "distinct ?names" using assms(2) [OF e] by (simp add: distinct_map inj_on_def)
    ultimately have "distinct (map cm_relative_path ds)" by (simp only: distinct_map) (auto simp: inj_on_def)
    moreover have "\<forall>c \<in> set ds. cm_count c > 0 \<longrightarrow> cm_start_ts c \<le> cm_end_ts c"
      using l by (induction rule: list_all2_induct) (auto dest: scan_chunk_file_facts)
    ultimately show ?thesis by (simp add: cs distinct_map)
  next
    case False
    then show ?thesis using assms(1) by (simp add: scan_chunk_files_def)
  qed
  then show "distinct (map cm_relative_path cs)" "\<forall>c \<in> set cs. cm_count c > 0 \<longrightarrow> cm_start_ts c \<le> cm_end_ts c" by simp_all
qed

lemma build_meta_chunks:
  assumes "build_series_meta_from_chunks E disk dir cs = Inr meta"
  shows "sm_chunks meta = cs" and "series_meta_validate meta = Inr ()"
proof -
  have "sm_chunks meta = cs \<and> series_meta_validate meta = Inr ()"
    using assms unfolding build_series_meta_from_chunks_def Let_def and_then_Inr by (cases cs) (clarsimp simp: and_then_Inr)+
  then show "sm_chunks meta = cs" "series_meta_validate meta = Inr ()" by simp_all
qed

lemma rebuild_chunks:
  assumes "rebuild_manifest_preview E disk dir = Inr meta"
  obtains cs where "scan_chunk_files E (ms_fs disk) dir = Inr cs" and "select_non_overlapping_chunks cs = Inr (sm_chunks meta)"
    and "series_meta_validate meta = Inr ()"
  using assms unfolding rebuild_manifest_preview_def and_then_Inr by (metis build_meta_chunks)

section \<open>The walks end\<close>

text \<open>A directory tree of bounded depth, as the listings show it.\<close>

primrec shallow :: "nat \<Rightarrow> Env \<Rightarrow> fs_state \<Rightarrow> path \<Rightarrow> bool" where
  "shallow 0 E s p \<longleftrightarrow> False"
| "shallow (Suc n) E s p \<longleftrightarrow>
     (case e_read_dir E s p of
        Inl _ \<Rightarrow> True
      | Inr entries \<Rightarrow> \<forall>(name, is_dir) \<in> set entries. is_dir \<longrightarrow> shallow n E s (path_join p name))"

lemma try_entries_total:
  "(\<And>x out. x \<in> set xs \<Longrightarrow> f x out \<noteq> None) \<Longrightarrow> try_entries f xs out \<noteq> None"
  by (induction xs arbitrary: out) (fastforce split: option.splits sum.splits)+

lemma collect_series_dirs_total: "shallow n E s p \<Longrightarrow> collect_series_dirs n E s p out \<noteq> None"
proof (induction n arbitrary: p out)
  case (Suc n)
  then have "try_entries (\<lambda>(name, is_dir) out.
      if is_dir then collect_series_dirs n E s (path_join p name) out else Some (Inr out)) entries out \<noteq> None"
    if "e_read_dir E s p = Inr entries" for entries
    using that by (intro try_entries_total) (fastforce split: if_splits)
  then show ?case by (auto split: sum.splits)
qed simp

lemma collect_temp_files_total: "shallow n E s p \<Longrightarrow> collect_temp_files n E s p out \<noteq> None"
proof (induction n arbitrary: p out)
  case (Suc n)
  then have "try_entries (\<lambda>(name, is_dir) out.
      if is_dir then collect_temp_files n E s (path_join p name) out
      else Some (Inr (if is_temp_name name then out @ [path_join p name] else out))) entries out \<noteq> None"
    if "e_read_dir E s p = Inr entries" for entries
    using that by (intro try_entries_total) (fastforce split: if_splits)
  then show ?case by (auto split: sum.splits)
qed simp

text \<open>
  The two walks of a recovery see the directories it started from: in between only temporary files
  are removed.
\<close>

lemma remove_file_dirs [simp]: "fs_dirs (fst (remove_file E p s)) = fs_dirs s"
  by (simp add: remove_file_def fs_remove_def split: option.splits)

lemma remove_each_dirs [simp]: "fs_dirs (remove_each E ps s) = fs_dirs s"
  by (induction ps arbitrary: s) simp_all

lemma startup_recover_total:
  assumes "\<forall>s. fs_dirs s = fs_dirs (ms_fs disk) \<longrightarrow> shallow depth E s root \<and> shallow depth E s (series_root root)"
  obtains disk' r where "startup_recover_locked depth E dry_run root disk = Some (disk', r)"
proof -
  have t: "collect_temp_files depth E s root out \<noteq> None" "collect_series_dirs depth E s (series_root root) out \<noteq> None"
    if "fs_dirs s = fs_dirs (ms_fs disk)" for s out
    using assms that collect_temp_files_total collect_series_dirs_total by blast+
  obtain removed where "collect_temp_files depth E (ms_fs disk) root [] = Some removed" using t(1) by blast
  moreover obtain d1 where "collect_series_dirs depth E (ms_fs disk) (series_root root) [] = Some d1" using t(2) by blast
  moreover have "\<exists>d. collect_series_dirs depth E (remove_each E ps (ms_fs disk)) (series_root root) [] = Some d" for ps
    using t(2) [of "remove_each E ps (ms_fs disk)"] by simp
  then obtain d2 where "\<And>ps. collect_series_dirs depth E (remove_each E ps (ms_fs disk)) (series_root root) [] = Some (d2 ps)" by metis
  ultimately have "startup_recover_locked depth E dry_run root disk \<noteq> None"
    by (simp add: startup_recover_locked_def Let_def scan_temp_files_def discover_series_dirs_def split: sum.splits prod.splits)
  then show thesis using that by (metis not_None_eq surj_pair)
qed

section \<open>A finished recovery clears the marker\<close>

text \<open>Removing a file that is there does not report that it is missing.\<close>

definition removals_ok :: "Env \<Rightarrow> bool" where
  "removals_ok E \<longleftrightarrow> (\<forall>s p. os_remove (e_os E s p) \<noteq> Some NotFoundKind)"

text \<open>
  A directory tree: what lies above a directory are directories, and no directory is a file. A
  recovery writes manifests into directories that it found, so that it keeps the tree.
\<close>

definition fs_tree :: "fs_state \<Rightarrow> bool" where
  "fs_tree s \<longleftrightarrow> (\<forall>p \<in> fs_dirs s. fs_files s p = None \<and> (\<forall>n. p\<lparr>comps := take n (comps p)\<rparr> \<in> fs_dirs s))"

definition tree_on :: "path set \<Rightarrow> fs_state \<Rightarrow> bool" where
  "tree_on D s \<longleftrightarrow> fs_tree s \<and> fs_dirs s = D"

lemma ensure_dir_tree: "fs_tree s \<Longrightarrow> d \<in> fs_dirs s \<Longrightarrow> ensure_dir d s = s"
  by (auto simp: ensure_dir_def fs_tree_def intro!: fs_state.equality)

lemma atomic_write_tree:
  assumes "atomic_write os dest allow_replace write_fn s = (trace, r)" and "tree_on D s"
    and "path_parent dest = Some d" and "d \<in> D"
  shows "tree_on D (last trace)"
proof -
  have e: "ensure_dir d s = s" using assms(2,4) by (simp add: ensure_dir_tree tree_on_def)
  have "tree_on D (last rest)"
    if "write_and_rename os dest d temp write_fn s = (rest, r)" "temp \<notin> fs_dirs s" "temp_path_for nanos dest = Inr temp" for temp rest nanos
    using that(1,2) assms(2) temp_path_neq [OF that(3)] unfolding write_and_rename_def tree_on_def
    by (auto simp: Let_def fs_tree_def fs_write_def fs_sync_file_def replace_file_atomically_def fs_remove_def sync_parent_dir_def
        split: option.splits sum.splits if_splits)
  moreover have "rest \<noteq> []" if "write_and_rename os dest d temp write_fn s = (rest, r)" for temp rest
    using that by (auto simp: write_and_rename_def Let_def split: option.splits sum.splits if_splits)
  ultimately show ?thesis using assms(1-3)
    by (auto simp: atomic_write_def e Let_def fs_exists_def split: option.splits sum.splits if_splits prod.splits)
qed

lemma series_meta_parent [simp]: "path_parent (series_meta_path dir) = Some dir"
  by (simp add: series_meta_path_def path_join_def MANIFEST_FILE_def components_def path_parent_def)

lemma save_tree:
  assumes "save_series_meta mtime os st dir m = (st', r)" and "tree_on D (ms_fs st)" and "dir \<in> D"
  shows "tree_on D (ms_fs st')"
proof -
  have "tree_on D (last trace)" if "atomic_write os (series_meta_path dir) b w (ms_fs st) = (trace, r)" for b w trace r
    by (rule atomic_write_tree [OF that assms(2) series_meta_parent assms(3)])
  then show ?thesis using assms(1,2)
    by (auto simp: save_series_meta_def atomic_write_replace_def Let_def split: sum.splits prod.splits)
qed

lemma load_tree:
  assumes "load_disk E disk dir read_only = (disk', r)" and "tree_on D (ms_fs disk)" and "dir \<in> D"
  shows "tree_on D (ms_fs disk')"
proof -
  have "tree_on D (ms_fs d')" if "decode_or_migrate json utc now mtime os disk dir read_only bytes = (d', r')" for json utc now mtime os bytes d' r'
    using that assms(2) save_tree [OF _ assms(2,3)] unfolding decode_or_migrate_def
    by (auto simp: Let_def split: sum.splits prod.splits if_splits)
  then show ?thesis using assms(1,2)
    by (auto simp: load_disk_def load_series_meta_shared_mode_def Let_def split: sum.splits prod.splits option.splits if_splits)
qed

lemma recover_series_tree:
  assumes "recover_series_dir E dry_run dir disk report = (disk', r)" and "tree_on D (ms_fs disk)" and "dir \<in> D"
  shows "tree_on D (ms_fs disk')"
proof -
  obtain d1 l where l: "load_disk E disk dir dry_run = (d1, l)" by fastforce
  note t1 = load_tree [OF l assms(2,3)]
  have t2: "tree_on D (ms_fs d2)" if "rebuild_manifest_locked E d1 dir = (d2, m)" for d2 m
    using that t1 save_tree [OF _ t1 assms(3)]
    by (auto simp: rebuild_manifest_locked_def save_disk_def Let_def split: sum.splits prod.splits)
  have t3: "tree_on D (ms_fs d2)" if "save_disk E d dir m = (d2, r)" "tree_on D (ms_fs d)" for d d2 m r
    using that save_tree [OF _ that(2) assms(3)] by (auto simp: save_disk_def)
  show ?thesis using assms(1,2) t1 t2 t3
    by (auto simp: recover_series_dir_def l Let_def split: sum.splits prod.splits if_splits)
qed

lemma recover_each_tree:
  assumes "recover_each E dry_run dirs disk report = (disk', r)" and "tree_on D (ms_fs disk)" and "set dirs \<subseteq> D"
  shows "tree_on D (ms_fs disk')"
  using assms
proof (induction dirs arbitrary: disk report)
  case (Cons dir dirs)
  obtain d1 r1 where d: "recover_series_dir E dry_run dir disk report = (d1, r1)" by fastforce
  have "tree_on D (ms_fs d1)" using recover_series_tree [OF d Cons.prems(2)] Cons.prems(3) by simp
  with Cons d show ?case by (auto split: sum.splits)
qed simp

lemma remove_each_tree: "tree_on D s \<Longrightarrow> tree_on D (remove_each E ps s)"
proof (induction ps arbitrary: s)
  case (Cons p ps)
  have "tree_on D (fst (remove_file E p s))"
    using Cons.prems by (auto simp: tree_on_def fs_tree_def remove_file_def fs_remove_def split: option.splits)
  with Cons.IH show ?case by simp
qed simp

lemma try_entries_inv:
  assumes "try_entries f xs out = Some (Inr out')" and "I out"
    and "\<And>x out out'. x \<in> set xs \<Longrightarrow> f x out = Some (Inr out') \<Longrightarrow> I out \<Longrightarrow> I out'"
  shows "I out'"
  using assms
proof (induction xs arbitrary: out)
  case (Cons x xs)
  obtain o1 where f: "f x out = Some (Inr o1)" "try_entries f xs o1 = Some (Inr out')" using Cons.prems(1) by (auto split: option.splits sum.splits)
  have "I o1" using Cons.prems(3) [OF _ f(1) Cons.prems(2)] by simp
  then show ?case
  proof (rule Cons.IH [OF f(2)])
    show "I v" if "y \<in> set xs" "f y u = Some (Inr v)" "I u" for y u v using Cons.prems(3) [OF _ that(2,3)] that(1) by simp
  qed
qed simp


lemma collect_series_dirs_found:
  "collect_series_dirs n E s p out = Some (Inr dirs) \<Longrightarrow> set out \<subseteq> fs_dirs s \<Longrightarrow> set dirs \<subseteq> fs_dirs s"
proof (induction n arbitrary: p out dirs)
  case (Suc n)
  have "set dirs \<subseteq> fs_dirs s"
    if "try_entries (\<lambda>(name, is_dir) out.
      if is_dir then collect_series_dirs n E s (path_join p name) out else Some (Inr out)) entries out = Some (Inr dirs)" for entries
  proof (rule try_entries_inv [where I = "\<lambda>out. set out \<subseteq> fs_dirs s", OF that Suc.prems(2)])
    fix x o1 o2
    assume "(case x of (name, is_dir) \<Rightarrow> \<lambda>out. if is_dir then collect_series_dirs n E s (path_join p name) out else Some (Inr out)) o1 = Some (Inr o2)"
      and "set o1 \<subseteq> fs_dirs s"
    then show "set o2 \<subseteq> fs_dirs s" using Suc.IH [of "path_join p (fst x)" o1 o2] by (cases x) (simp split: if_splits)
  qed
  then show ?case using Suc.prems by (auto split: if_splits sum.splits)
qed simp

lemma clear_marker_done:
  "clear_recovery_marker E root s = (s', Inr ()) \<Longrightarrow> removals_ok E \<Longrightarrow> fs_tree s \<Longrightarrow> \<not> has_pending_recovery s' root"
  by (auto simp: clear_recovery_marker_def clear_recovery_marker_path_def remove_file_def removals_ok_def has_pending_recovery_def fs_exists_def
      fs_tree_def fs_remove_def sync_parent_dir_def split: prod.splits sum.splits option.splits if_splits)

lemma startup_recover_clears:
  assumes "startup_recover_locked depth E False root disk = Some (disk', Inr report)" and "fs_exists (ms_fs disk) root"
    and "removals_ok E" and "fs_tree (ms_fs disk)"
  shows "\<not> has_pending_recovery (ms_fs disk') root"
proof -
  let ?D = "fs_dirs (ms_fs disk)"
  have clear: "\<not> has_pending_recovery (ms_fs disk') root"
    if "clear_disk_marker E False root d rep = (disk', Inr report)" "tree_on ?D (ms_fs d)" for d rep
    using that assms(3) by (auto simp: clear_disk_marker_def tree_on_def Let_def res_simps dest: clear_marker_done split: prod.splits)
  have t: "tree_on ?D (remove_each E ps (ms_fs disk))" for ps using assms(4) by (intro remove_each_tree) (simp add: tree_on_def)
  have each: "tree_on ?D (ms_fs d)"
    if "recover_each E False dirs (disk\<lparr>ms_fs := remove_each E ps (ms_fs disk)\<rparr>) rep = (d, r)"
      "discover_series_dirs depth E (remove_each E ps (ms_fs disk)) (series_root root) = Some (Inr dirs)" for d dirs ps rep r
    using recover_each_tree [OF that(1), of ?D] t collect_series_dirs_found [OF that(2) [unfolded discover_series_dirs_def]] by simp
  show ?thesis using assms(1,2) clear t each
    by (auto simp: startup_recover_locked_def Let_def split: if_splits option.splits sum.splits prod.splits)
qed

section \<open>Recovery reads what the writers wrote\<close>

lemma u32_u64 [simp]: "ucast (ucast (w :: u32) :: u64) = w"
  by transfer simp

lemma written_header_valid:
  assumes "chunk_image R rows every (new_header R meta options rows) bytes" and "sorted (map (ts_of R) rows)"
  shows "header_read_from bytes = Inr (new_header R meta options rows)"
proof -
  let ?h = "new_header R meta options rows"
  have v: "h_version ?h = 2" and ne: "rows \<noteq> []" using assms(1) by (simp_all add: chunk_image_def header_spans_def)
  have "h_start_ts ?h \<le> h_end_ts ?h"
    using assms(1) sorted_hd_last(1) [OF assms(2), of "last rows"] ne by (simp add: chunk_image_def header_spans_def)
  moreover have "h_sparse_index_every ?h \<noteq> 0" using assms(1) by (simp add: chunk_image_def) (metis u32_u64 ucast_0)
  ultimately have val: "header_validate ?h = Inr ()" using assms(1) by (simp add: header_validate_iff chunk_image_def)
  then have "header_to_le_bytes ?h = Inr (CHUNK_MAGIC @ concat (map (le_bytes 8) (header_words ?h)))"
    using assms(1) header_to_le_bytes_v2 [of ?h] by (simp add: chunk_image_def)
  from header_read_from_prefix [OF val v this] show ?thesis using assms(1) by (simp add: chunk_image_def)
qed

lemma scan_written:
  assumes "chunk_image R rows (max (wo_sparse_index_every options) 1) (new_header R meta options rows) bytes"
    and "cm = written_meta options (cm_month_key cm) (new_header R meta options rows) (max (wo_sparse_index_every options) 1) bytes"
    and "sorted (map (ts_of R) rows)" and "month_key (e_utc E) (ts_of R (hd rows)) = Inr (cm_month_key cm)"
    and "visible s (path_join (chunks_dir dir) name) = Some bytes" and "wo_relative_path options = chunk_relative_path name"
  shows "scan_chunk_file E s dir [] name = Inr (cm\<lparr>cm_state := decode_chunk_state name\<rparr>)"
proof -
  let ?h = "new_header R meta options rows"
  have "h_start_ts ?h = ts_of R (hd rows)" using assms(1) by (simp add: chunk_image_def header_spans_def)
  then have "month_key (e_utc E) (h_start_ts ?h) = Inr (cm_month_key cm)" using assms(4) by simp
  moreover have "h_chunk_id ?h = wo_chunk_id options" "ucast (h_generation ?h) = wo_generation options"
      "ucast (h_sparse_index_every ?h) = max (wo_sparse_index_every options) 1"
    by (simp_all add: new_header_def Let_def)
  ultimately show ?thesis
    using written_header_valid [OF assms(1,3)] assms(5,6)
    by (subst assms(2)) (simp add: scan_chunk_file_def read_file_def written_meta_def Let_def)
qed

lemma kline_scan_written:
  assumes "kline_build (e_utc E) meta rows options = Inr (bytes, cm)" and "visible s (path_join (chunks_dir dir) name) = Some bytes"
    and "wo_relative_path options = chunk_relative_path name"
  shows "scan_chunk_file E s dir [] name = Inr (cm\<lparr>cm_state := decode_chunk_state name\<rparr>)"
proof -
  note b = kline_build_header [OF assms(1)]
  have ts: "ts_of kline_record = k_ts" by (simp add: kline_record_def)
  show ?thesis
    by (rule scan_written [where R = kline_record, OF b(2,3) _ _ assms(2,3)]) (use strict_sorted_imp_sorted [OF b(1)] b(4) in \<open>simp_all add: ts\<close>)
qed

lemma scalar_scan_written:
  assumes "scalar_build (e_utc E) meta rows options = Inr (bytes, cm)" and "visible s (path_join (chunks_dir dir) name) = Some bytes"
    and "wo_relative_path options = chunk_relative_path name"
  shows "scan_chunk_file E s dir [] name = Inr (cm\<lparr>cm_state := decode_chunk_state name\<rparr>)"
proof -
  note b = scalar_build_header [OF assms(1)]
  have ts: "ts_of scalar_record = s_ts" by (simp add: scalar_record_def)
  show ?thesis
    by (rule scan_written [where R = scalar_record, OF b(2,3) _ _ assms(2,3)]) (use strict_sorted_imp_sorted [OF b(1)] b(4) in \<open>simp_all add: ts\<close>)
qed

end
