(* ===== verification/StoreWrites.thy ===== *)
theory StoreWrites
  imports Recovery
begin

text \<open>
  The mutations of the store (\<^verbatim>\<open>src/src/store_core/engine/store.rs\<close>, \<^verbatim>\<open>store_writes.rs\<close>,
  \<^verbatim>\<open>storage/lock.rs\<close>): taking the write lock, registering series, writing klines, scalars with their
  sidecars and the other record families, appending scalars, and merging the chunks of a month.
  Every mutation takes the lock, arms the recovery marker, writes and clears the marker; an early
  return leaves the marker, so that the next writer recovers first. The fault points of
  instrumented builds and the metrics are left out.
\<close>

text \<open>\<open>?\<close> in a call that changes the state, and the lift of a file system operation to the store.\<close>

definition then_do :: "'s \<times> 'a res \<Rightarrow> ('s \<Rightarrow> 'a \<Rightarrow> 's \<times> 'b res) \<Rightarrow> 's \<times> 'b res" where
  "then_do m f = (case m of (s, Inl e) \<Rightarrow> (s, Inl e) | (s, Inr x) \<Rightarrow> f s x)"

lemma then_do_simps [simp]: "then_do (s, Inl e) f = (s, Inl e)" "then_do (s, Inr x) f = f s x"
  by (simp_all add: then_do_def)

lemma then_do_Inr: "then_do m f = (s', Inr y) \<longleftrightarrow> (\<exists>s x. m = (s, Inr x) \<and> f s x = (s', Inr y))"
  by (auto simp: then_do_def split: prod.splits sum.splits)

lemma then_do_InrE:
  assumes "then_do m f = (s', Inr y)"
  obtains s x where "m = (s, Inr x)" and "f s x = (s', Inr y)"
  using assms by (auto simp: then_do_Inr)

definition on_fs :: "FastKStore \<Rightarrow> (fs_state \<Rightarrow> fs_state \<times> 'a res) \<Rightarrow> FastKStore \<times> 'a res" where
  "on_fs st f =
     (let (s, r) = f (ms_fs (fk_disk st)) in (st\<lparr>fk_disk := (fk_disk st)\<lparr>ms_fs := s\<rparr>\<rparr>, r))"

definition last_state :: "fs_state list \<times> 'a \<Rightarrow> fs_state \<times> 'a" where
  "last_state = (\<lambda>(trace, r). (last trace, r))"

section \<open>The write lock\<close>

definition LOCK_FILE_NAME :: string where "LOCK_FILE_NAME = ''.fastk.write.lock''"
definition SNAPSHOT_FILE_NAME :: string where "SNAPSHOT_FILE_NAME = ''.fastk.snapshot.json''"

definition open_or_create :: "Env \<Rightarrow> path \<Rightarrow> fs_state \<Rightarrow> fs_state \<times> unit res" where
  "open_or_create E p s =
     (case os_open (e_os E s p) of
        Some e \<Rightarrow> (s, Inl (Io e))
      | None \<Rightarrow> (if fs_files s p = None then fs_write p [] s else s, Inr ()))"

definition write_lock_acquire :: "Env \<Rightarrow> path \<Rightarrow> fs_state \<Rightarrow> fs_state \<times> unit res" where
  "write_lock_acquire E root s =
     then_do (make_dir E root s) (\<lambda>s _.
     let p = path_join root LOCK_FILE_NAME in
     then_do (open_or_create E p s) (\<lambda>s _.
     case e_try_lock E s p of
       Some e \<Rightarrow> (s, Inl e)
     | None \<Rightarrow>
         (s, ensure (\<not> fs_exists s (path_join root SNAPSHOT_FILE_NAME))
           (InvalidInput ''sealed snapshot is read-only; create a new version''))))"

definition path_starts_with :: "path \<Rightarrow> path \<Rightarrow> bool" where
  "path_starts_with p base \<longleftrightarrow> has_root p = has_root base \<and> prefix (comps base) (comps p)"

definition invalidate_root :: "ManifestStore \<Rightarrow> path \<Rightarrow> ManifestStore" where
  "invalidate_root disk root = disk\<lparr>ms_cache := (\<lambda>p. if path_starts_with p root then None else ms_cache disk p)\<rparr>"

definition acquire_write_ownership :: "nat \<Rightarrow> Env \<Rightarrow> FastKStore \<Rightarrow> bool \<Rightarrow> (FastKStore \<times> unit res) option" where
  "acquire_write_ownership depth E st recover =
     (if fk_read_only st then Some (st, Inl (InvalidInput ''read-only store handle''))
      else
        (case on_fs st (write_lock_acquire E (fk_root st)) of
           (st, Inl e) \<Rightarrow> Some (st, Inl e)
         | (st, Inr _) \<Rightarrow>
             let finish = (\<lambda>st. clear_read_caches st\<lparr>fk_disk := invalidate_root (fk_disk st) (fk_root st)\<rparr>) in
             if recover \<and> has_pending_recovery (ms_fs (fk_disk st)) (fk_root st) then
               (case startup_recover_locked depth E False (fk_root st) (fk_disk st) of
                  None \<Rightarrow> None
                | Some (disk, Inl e) \<Rightarrow> Some (st\<lparr>fk_disk := disk\<rparr>, Inl e)
                | Some (disk, Inr _) \<Rightarrow> Some (finish (st\<lparr>fk_disk := disk\<rparr>), Inr ()))
             else Some (finish st, Inr ())))"

definition begin_mutation :: "nat \<Rightarrow> Env \<Rightarrow> FastKStore \<Rightarrow> (FastKStore \<times> unit res) option" where
  "begin_mutation depth E st = acquire_write_ownership depth E st True"

definition with_lock ::
  "nat \<Rightarrow> Env \<Rightarrow> FastKStore \<Rightarrow> (FastKStore \<Rightarrow> FastKStore \<times> 'a res) \<Rightarrow> (FastKStore \<times> 'a res) option" where
  "with_lock depth E st f =
     (case begin_mutation depth E st of
        None \<Rightarrow> None
      | Some m \<Rightarrow> Some (then_do m (\<lambda>st _. f st)))"

definition arm :: "Env \<Rightarrow> FastKStore \<Rightarrow> FastKStore \<times> unit res" where
  "arm E st = on_fs st (arm_marker E (fk_root st))"

definition commit :: "Env \<Rightarrow> FastKStore \<Rightarrow> FastKStore \<times> unit res" where
  "commit E st = on_fs st (clear_recovery_marker E (fk_root st))"

definition catalog_save :: "Env \<Rightarrow> FastKStore \<Rightarrow> path \<Rightarrow> SeriesMeta \<Rightarrow> FastKStore \<times> unit res" where
  "catalog_save E st dir meta = (let (disk, r) = save_disk E (fk_disk st) dir meta in (st\<lparr>fk_disk := disk\<rparr>, r))"

definition save_kline_meta :: "Env \<Rightarrow> FastKStore \<Rightarrow> SeriesMeta \<Rightarrow> FastKStore \<times> unit res" where
  "save_kline_meta E st meta = catalog_save E st (kline_series_dir (fk_root st) (sm_symbol meta) (sm_name meta)) meta"

definition save_scalar_meta :: "Env \<Rightarrow> FastKStore \<Rightarrow> SeriesMeta \<Rightarrow> FastKStore \<times> unit res" where
  "save_scalar_meta E st meta =
     catalog_save E st (scalar_series_dir (fk_root st) (sm_symbol meta) (sm_category meta) (sm_name meta)) meta"

definition catalog_save_series_meta :: "Env \<Rightarrow> FastKStore \<Rightarrow> SeriesMeta \<Rightarrow> FastKStore \<times> unit res" where
  "catalog_save_series_meta E st meta =
     catalog_save E st (series_dir (fk_root st) (sm_symbol meta) (sm_category meta) (sm_name meta)) meta"

section \<open>Registration\<close>

definition validate_configuration :: "i64 \<Rightarrow> i64 \<Rightarrow> i64 \<Rightarrow> unit res" where
  "validate_configuration timeframe_ms price_scale volume_scale =
     ensure (\<not> (timeframe_ms \<le> i64_of_int 0 \<or> price_scale \<le> i64_of_int 0 \<or> volume_scale \<le> i64_of_int 0))
       (InvalidInput ''timeframe and scales must be positive'')"

definition validate_existing_series :: "SeriesMeta \<Rightarrow> i64 \<Rightarrow> i64 \<Rightarrow> i64 \<Rightarrow> unit res" where
  "validate_existing_series existing timeframe_ms price_scale volume_scale =
     ensure (\<not> (sm_timeframe_ms existing \<noteq> timeframe_ms \<or> sm_price_scale existing \<noteq> price_scale
         \<or> sm_volume_scale existing \<noteq> volume_scale))
       (InvalidInput ''series already exists with different configuration'')"

text \<open>What the three registrations do when the series has no manifest yet.\<close>

definition register_new :: "Env \<Rightarrow> FastKStore \<Rightarrow> path \<Rightarrow> SeriesMeta \<Rightarrow> FastKStore \<times> unit res" where
  "register_new E st dir meta =
     then_do (arm E st) (\<lambda>st _.
     then_do (on_fs st (make_dir E (chunks_dir dir))) (\<lambda>st _.
     then_do (catalog_save E st dir meta) (\<lambda>st _.
     commit E (store_series_in_cache st meta))))"

definition register_kline_series_locked ::
  "Env \<Rightarrow> FastKStore \<Rightarrow> string \<Rightarrow> string \<Rightarrow> i64 \<Rightarrow> i64 \<Rightarrow> i64 \<Rightarrow> FastKStore \<times> unit res" where
  "register_kline_series_locked E st symbol timeframe timeframe_ms price_scale volume_scale =
     (let dir = kline_series_dir (fk_root st) symbol timeframe in
      if fs_exists (ms_fs (fk_disk st)) (series_meta_path dir) then
        then_do (load_kline_meta E st symbol timeframe) (\<lambda>st existing.
          (st, validate_existing_series existing timeframe_ms price_scale volume_scale))
      else register_new E st dir (build_kline_meta (e_now E) symbol timeframe timeframe_ms price_scale volume_scale))"

definition register_kline_series ::
  "nat \<Rightarrow> Env \<Rightarrow> FastKStore \<Rightarrow> string \<Rightarrow> string \<Rightarrow> i64 \<Rightarrow> i64 \<Rightarrow> i64 \<Rightarrow> (FastKStore \<times> unit res) option" where
  "register_kline_series depth E st symbol timeframe timeframe_ms price_scale volume_scale =
     (case validate_configuration timeframe_ms price_scale volume_scale of
        Inl e \<Rightarrow> Some (st, Inl e)
      | Inr _ \<Rightarrow> with_lock depth E st (\<lambda>st.
          register_kline_series_locked E st symbol timeframe timeframe_ms price_scale volume_scale))"

definition register_scalar_series_locked :: "Env \<Rightarrow> FastKStore \<Rightarrow> ScalarSeriesKey \<Rightarrow> i64 \<Rightarrow> FastKStore \<times> unit res" where
  "register_scalar_series_locked E st key timeframe_ms =
     (let dir = scalar_series_dir (fk_root st) (key_symbol key) (key_category key) (key_name key) in
      if fs_exists (ms_fs (fk_disk st)) (series_meta_path dir) then
        then_do (load_scalar_meta E st key) (\<lambda>st existing.
          (st, ensure (\<not> sm_timeframe_ms existing \<noteq> timeframe_ms)
            (InvalidInput ''scalar series already exists with another timeframe_ms'')))
      else register_new E st dir (build_scalar_meta (e_now E) key timeframe_ms))"

definition register_scalar_series ::
  "nat \<Rightarrow> Env \<Rightarrow> FastKStore \<Rightarrow> ScalarSeriesKey \<Rightarrow> i64 \<Rightarrow> (FastKStore \<times> unit res) option" where
  "register_scalar_series depth E st key timeframe_ms =
     (if timeframe_ms \<le> i64_of_int 0 then Some (st, Inl (InvalidInput ''timeframe_ms must be positive''))
      else with_lock depth E st (\<lambda>st. register_scalar_series_locked E st key timeframe_ms))"

text \<open>The check that a series holds records of the family of \<open>R\<close>.\<close>

definition holds_records :: "'r FixedRecord \<Rightarrow> SeriesMeta \<Rightarrow> bool" where
  "holds_records R meta \<longleftrightarrow>
     \<not> (sm_record_type meta \<noteq> RECORD_TYPE R \<or> sm_schema_id meta \<noteq> SCHEMA_ID R \<or> unat (sm_record_size meta) \<noteq> BYTE_SIZE R)"

definition register_fixed_series ::
  "'r FixedRecord \<Rightarrow> nat \<Rightarrow> Env \<Rightarrow> FastKStore \<Rightarrow> string \<Rightarrow> string \<Rightarrow> string \<Rightarrow> i64 \<Rightarrow> PartitionPolicy \<Rightarrow> (FastKStore \<times> unit res) option" where
  "register_fixed_series R depth E st symbol category name timeframe_ms policy =
     (if \<not> is_time_based (pp_unit policy)
      then Some (st, Inl (InvalidInput ''partition unit is declared but not implemented yet''))
      else with_lock depth E st (\<lambda>st.
        let dir = series_dir (fk_root st) symbol category name in
        if fs_exists (ms_fs (fk_disk st)) (series_meta_path dir) then
          then_do (load_fixed_meta E st symbol category name) (\<lambda>st existing.
            (st, and_then (ensure (\<not> sm_timeframe_ms existing \<noteq> timeframe_ms)
                   (InvalidInput ''series already exists with another timeframe_ms'')) (\<lambda>_.
                 and_then (ensure (holds_records R existing)
                   (InvalidData ''existing series does not match requested fixed record type'')) (\<lambda>_.
                 ensure (\<not> sm_chunk_unit existing \<noteq> partition_unit_as_str (pp_unit policy))
                   (InvalidInput ''series already exists with another chunk_unit'')))))
        else register_new E st dir (build_fixed_meta R (e_now E) symbol category name timeframe_ms policy)))"

section \<open>Klines\<close>

definition next_chunk_id :: "SeriesMeta \<Rightarrow> u64" where
  "next_chunk_id meta = saturating_add (foldl max 0 (map cm_chunk_id (sm_chunks meta))) 1"

definition next_generation :: "ChunkMeta list \<Rightarrow> u32" where
  "next_generation cs = saturating_add (foldl max 0 (map cm_generation cs)) 1"

definition month_chunks :: "SeriesMeta \<Rightarrow> string \<Rightarrow> ChunkMeta list" where
  "month_chunks meta key = map (\<lambda>i. sm_chunks meta ! i) (chunk_indices_for_month meta key)"

definition validate_month_records :: "'r FixedRecord \<Rightarrow> Env \<Rightarrow> 'r list \<Rightarrow> unit res" where
  "validate_month_records R E records =
     and_then (validate_strict_order R records) (\<lambda>_.
     case records of
       [] \<Rightarrow> Inl (Panic ''index out of bounds'')
     | _ \<Rightarrow>
         and_then (month_key (e_utc E) (ts_of R (hd records))) (\<lambda>first.
         and_then (month_key (e_utc E) (ts_of R (last records))) (\<lambda>final.
         ensure (\<not> first \<noteq> final) (InvalidInput ''records span multiple UTC months''))))"

definition write_kline_file ::
  "Env \<Rightarrow> FastKStore \<Rightarrow> path \<Rightarrow> SeriesMeta \<Rightarrow> KlineRecord list \<Rightarrow> WriteChunkOptions \<Rightarrow> FastKStore \<times> ChunkMeta res" where
  "write_kline_file E st chunk_path meta records options =
     on_fs st (\<lambda>s. last_state (kline_write_chunk (e_utc E) (e_os E s chunk_path) chunk_path meta records options s))"

text \<open>
  \<open>merge_kline_month_locked\<close>: read the chunks of the month, mark them, write the merged chunk,
  replace them in the manifest, delete their files and forget them in the caches.
\<close>

definition mark_merging :: "SeriesMeta \<Rightarrow> string \<Rightarrow> SeriesMeta" where
  "mark_merging meta key =
     meta\<lparr>sm_chunks := foldl (\<lambda>cs i. cs[i := (cs ! i)\<lparr>cm_state := Merging\<rparr>]) (sm_chunks meta) (chunk_indices_for_month meta key)\<rparr>"

definition drop_merged :: "Env \<Rightarrow> path \<Rightarrow> u64 \<Rightarrow> FastKStore \<Rightarrow> ChunkMeta \<Rightarrow> FastKStore" where
  "drop_merged E dir series_id st chunk =
     (let st = fst (on_fs st (remove_file E (resolve_relative_path dir (cm_relative_path chunk)))) in
      st\<lparr>fk_chunk_runtime := runtime_invalidate (fk_chunk_runtime st) chunk series_id,
         fk_scalar_sidecars := sidecar_invalidate (fk_scalar_sidecars st) (cm_relative_path chunk)\<rparr>)"

definition merge_kline_month_locked ::
  "Env \<Rightarrow> FastKStore \<Rightarrow> string \<Rightarrow> string \<Rightarrow> string \<Rightarrow> SeriesMeta \<Rightarrow> FastKStore \<times> unit res" where
  "merge_kline_month_locked E st symbol timeframe key meta =
     (let dir = kline_series_dir (fk_root st) symbol timeframe;
          source_chunks = month_chunks meta key in
      if length (chunk_indices_for_month meta key) \<le> 1 then (st, Inr ())
      else
        then_do (on_runtime st (\<lambda>rt. try_each
            (\<lambda>rt c out. drop_path (kline_append_range_in_chunk (fk_files st) rt dir (sm_series_id meta) c (cm_start_ts c) (cm_end_ts c) out))
            rt source_chunks [])) (\<lambda>st merged_records.
        then_do (st, kline_validate_strict_order merged_records) (\<lambda>st _.
        then_do (st, ensure (\<forall>c \<in> set source_chunks. can_transition (cm_state c) Merging)
            (InvalidData ''chunk cannot transition to Merging'')) (\<lambda>st _.
        let meta = mark_merging meta key in
        then_do (save_kline_meta E st meta) (\<lambda>st _.
        let generation = next_generation source_chunks;
            relative_path = chunk_relative_path (month_merged_chunk_file_name key generation) in
        then_do (write_kline_file E st (resolve_relative_path dir relative_path) meta merged_records
            \<lparr>wo_chunk_id = next_chunk_id meta, wo_generation = generation, wo_state = merge_output_state source_chunks,
             wo_relative_path = relative_path, wo_sparse_index_every = DEFAULT_SPARSE_INDEX_EVERY\<rparr>) (\<lambda>st merged_chunk.
        let (meta, replaced) = replace_month_chunks (e_now E) meta key merged_chunk in
        then_do (st, replaced) (\<lambda>st removed.
        then_do (save_kline_meta E st meta) (\<lambda>st _.
        let st = foldl (drop_merged E dir (sm_series_id meta)) st removed in
        (store_series_in_cache st meta, Inr ())))))))))"

text \<open>The file and state of the new chunk, and the steps from the marker to its removal.\<close>

definition put_kline_target :: "Env \<Rightarrow> SeriesMeta \<Rightarrow> string \<Rightarrow> KlineRecord \<Rightarrow> (string \<times> ChunkState) res" where
  "put_kline_target E meta key first =
     (let existing = month_chunks meta key in
      if existing = [] then
        and_then (month_chunk_file_name (e_utc E) (k_ts first)) (\<lambda>file_name. Inr (file_name, Sealed))
      else if k_ts first \<le> cm_end_ts (last existing) then Inl (InvalidInput ''append overlaps existing month chunk'')
      else Inr (month_delta_chunk_file_name key (next_generation existing), Active))"

definition put_kline_finish ::
  "Env \<Rightarrow> FastKStore \<Rightarrow> string \<Rightarrow> string \<Rightarrow> string \<Rightarrow> SeriesMeta \<Rightarrow> FastKStore \<times> unit res" where
  "put_kline_finish E st symbol timeframe key meta =
     then_do (save_kline_meta E st meta) (\<lambda>st _.
     let st = store_series_in_cache st meta in
     then_do
       (case evaluate_month (fk_compaction_policy st) meta key of
          Some decision \<Rightarrow>
            if cp_auto_merge (fk_compaction_policy st) \<and> cd_should_merge decision
            then merge_kline_month_locked E st symbol timeframe key meta
            else (st, Inr ())
        | None \<Rightarrow> (st, Inr ())) (\<lambda>st _.
     commit E st))"

definition put_kline_publish ::
  "Env \<Rightarrow> FastKStore \<Rightarrow> string \<Rightarrow> string \<Rightarrow> string \<Rightarrow> SeriesMeta \<Rightarrow> KlineRecord list \<Rightarrow> string \<Rightarrow> ChunkState \<Rightarrow> FastKStore \<times> unit res" where
  "put_kline_publish E st symbol timeframe key meta records file_name state =
     (let relative_path = chunk_relative_path file_name;
          chunk_path = resolve_relative_path (kline_series_dir (fk_root st) symbol timeframe) relative_path in
      then_do (arm E st) (\<lambda>st _.
      then_do (write_kline_file E st chunk_path meta records
          \<lparr>wo_chunk_id = next_chunk_id meta, wo_generation = next_generation (month_chunks meta key), wo_state = state,
           wo_relative_path = relative_path, wo_sparse_index_every = DEFAULT_SPARSE_INDEX_EVERY\<rparr>) (\<lambda>st chunk_meta.
      let (meta, upserted) = upsert_chunk_meta (e_now E) meta chunk_meta in
      then_do (st, upserted) (\<lambda>st _.
      let meta = (if cm_state chunk_meta = Active then meta\<lparr>sm_active_chunk_id := Some (cm_chunk_id chunk_meta)\<rparr> else meta) in
      put_kline_finish E st symbol timeframe key meta))))"

definition put_kline_chunk_locked ::
  "Env \<Rightarrow> FastKStore \<Rightarrow> string \<Rightarrow> string \<Rightarrow> KlineRecord list \<Rightarrow> FastKStore \<times> unit res" where
  "put_kline_chunk_locked E st symbol timeframe records =
     then_do (load_kline_meta E st symbol timeframe) (\<lambda>st meta.
     case records of
       [] \<Rightarrow> (st, Inl (InvalidInput ''records must not be empty''))
     | first # _ \<Rightarrow>
         then_do (st, month_key (e_utc E) (k_ts first)) (\<lambda>st key.
         then_do (st, put_kline_target E meta key first) (\<lambda>st (file_name, state).
         put_kline_publish E st symbol timeframe key meta records file_name state)))"

definition put_kline_chunk ::
  "nat \<Rightarrow> Env \<Rightarrow> FastKStore \<Rightarrow> string \<Rightarrow> string \<Rightarrow> KlineRecord list \<Rightarrow> (FastKStore \<times> unit res) option" where
  "put_kline_chunk depth E st symbol timeframe records =
     (case validate_month_records kline_record E records of
        Inl e \<Rightarrow> Some (st, Inl e)
      | Inr _ \<Rightarrow> with_lock depth E st (\<lambda>st. put_kline_chunk_locked E st symbol timeframe records))"

definition merge_kline_month ::
  "nat \<Rightarrow> Env \<Rightarrow> FastKStore \<Rightarrow> string \<Rightarrow> string \<Rightarrow> string \<Rightarrow> (FastKStore \<times> unit res) option" where
  "merge_kline_month depth E st symbol timeframe key =
     with_lock depth E st (\<lambda>st.
       then_do (arm E st) (\<lambda>st _.
       then_do (load_kline_meta E st symbol timeframe) (\<lambda>st meta.
       then_do (merge_kline_month_locked E st symbol timeframe key meta) (\<lambda>st _.
       commit E st))))"

definition kline_compaction_advice :: "Env \<Rightarrow> FastKStore \<Rightarrow> string \<Rightarrow> string \<Rightarrow> FastKStore \<times> CompactionDecision list res" where
  "kline_compaction_advice E st symbol timeframe =
     with_meta (load_kline_meta E st symbol timeframe) (\<lambda>st meta. (st, Inr (evaluate_all (fk_compaction_policy st) meta)))"

section \<open>Scalars\<close>

definition DEFAULT_SCALAR_ZMAP_BLOCK_SIZE :: nat where "DEFAULT_SCALAR_ZMAP_BLOCK_SIZE = 256"

definition write_scalar_file ::
  "Env \<Rightarrow> FastKStore \<Rightarrow> path \<Rightarrow> SeriesMeta \<Rightarrow> ScalarRecord list \<Rightarrow> WriteChunkOptions \<Rightarrow> FastKStore \<times> ChunkMeta res" where
  "write_scalar_file E st chunk_path meta records options =
     on_fs st (\<lambda>s. last_state (scalar_write_chunk (e_utc E) (e_os E s chunk_path) chunk_path meta records options s))"

definition build_scalar_sidecars ::
  "Env \<Rightarrow> path \<Rightarrow> ChunkMeta \<Rightarrow> ScalarRecord list \<Rightarrow> nat \<Rightarrow> fs_state \<Rightarrow> fs_state \<times> SidecarMeta list res" where
  "build_scalar_sidecars E dir chunk_meta records zmap_block_size s =
     then_do (s, zmap_build_entries records (max zmap_block_size 1)) (\<lambda>s zmap_entries.
     let zmap_relative = sidecar_relative_path (cm_relative_path chunk_meta) ''zmap'';
         zmap_path = resolve_relative_path dir zmap_relative in
     then_do (last_state (zmap_write_entries (e_os E s zmap_path) zmap_path zmap_entries s)) (\<lambda>s _.
     then_do (s, read_file s zmap_path) (\<lambda>s zmap_bytes.
     let vix_entries = vix_build_entries records;
         vix_relative = sidecar_relative_path (cm_relative_path chunk_meta) ''vix'';
         vix_path = resolve_relative_path dir vix_relative in
     then_do (last_state (vix_write_entries (e_os E s vix_path) vix_path vix_entries s)) (\<lambda>s _.
     then_do (s, read_file s vix_path) (\<lambda>s vix_bytes.
     (s, Inr
       [\<lparr>sc_kind = ''zmap'', sc_relative_path = zmap_relative, sc_generation = cm_generation chunk_meta,
         sc_checksum = checksum64 zmap_bytes, sc_block_size = word_of_nat (max zmap_block_size 1),
         sc_record_count = word_of_nat (length zmap_entries)\<rparr>,
        \<lparr>sc_kind = ''vix'', sc_relative_path = vix_relative, sc_generation = cm_generation chunk_meta,
         sc_checksum = checksum64 vix_bytes, sc_block_size = 0,
         sc_record_count = word_of_nat (length vix_entries)\<rparr>]))))))"

definition remove_sidecars_for_chunks :: "Env \<Rightarrow> path \<Rightarrow> ChunkMeta list \<Rightarrow> fs_state \<Rightarrow> fs_state" where
  "remove_sidecars_for_chunks E dir cs s =
     remove_each E (concat (map (\<lambda>c. map (resolve_relative_path dir)
       (cm_relative_path c # map sc_relative_path (cm_sidecars c))) cs)) s"

definition put_scalar_chunk_locked ::
  "Env \<Rightarrow> FastKStore \<Rightarrow> ScalarSeriesKey \<Rightarrow> i64 \<Rightarrow> ScalarRecord list \<Rightarrow> nat \<Rightarrow> FastKStore \<times> unit res" where
  "put_scalar_chunk_locked E st series_key timeframe_ms records zmap_block_size =
     (let dir = scalar_series_dir (fk_root st) (key_symbol series_key) (key_category series_key) (key_name series_key) in
      then_do
        (if fs_exists (ms_fs (fk_disk st)) (series_meta_path dir) then
           then_do (load_scalar_meta E st series_key) (\<lambda>st meta.
             (st, and_then (ensure (\<not> sm_timeframe_ms meta \<noteq> timeframe_ms)
                (InvalidInput ''scalar series already exists with another timeframe_ms'')) (\<lambda>_. Inr meta)))
         else (st, Inr (build_scalar_meta (e_now E) series_key timeframe_ms))) (\<lambda>st meta.
      case records of
        [] \<Rightarrow> (st, Inl (InvalidInput ''records must not be empty''))
      | first # _ \<Rightarrow>
          then_do (st, month_key (e_utc E) (s_ts first)) (\<lambda>st key.
          let existing = month_chunks meta key;
              generation = next_generation existing in
          then_do (st,
              if existing = [] then month_chunk_file_name (e_utc E) (s_ts first)
              else Inr (month_merged_chunk_file_name key generation)) (\<lambda>st file_name.
          let relative_path = chunk_relative_path file_name in
          then_do (arm E st) (\<lambda>st _.
          then_do (write_scalar_file E st (resolve_relative_path dir relative_path) meta records
              \<lparr>wo_chunk_id = next_chunk_id meta, wo_generation = generation, wo_state = Sealed,
               wo_relative_path = relative_path, wo_sparse_index_every = DEFAULT_SPARSE_INDEX_EVERY\<rparr>) (\<lambda>st chunk_meta.
          then_do (on_fs st (build_scalar_sidecars E dir chunk_meta records zmap_block_size)) (\<lambda>st sidecars.
          let chunk_meta = chunk_meta\<lparr>cm_sidecars := sidecars\<rparr>;
              (meta, replaced) =
                (if existing = [] then
                   let (meta, r) = upsert_chunk_meta (e_now E) meta chunk_meta in (meta, and_then r (\<lambda>_. Inr []))
                 else replace_month_chunks (e_now E) meta key chunk_meta) in
          then_do (st, replaced) (\<lambda>st obsolete.
          let st = st\<lparr>fk_scalar_sidecars := foldl sidecar_invalidate (fk_scalar_sidecars st) (map cm_relative_path obsolete)\<rparr> in
          then_do (save_scalar_meta E st meta) (\<lambda>st _.
          let st = fst (on_fs st (\<lambda>s. (remove_sidecars_for_chunks E dir obsolete s, Inr ()))) in
          commit E (store_series_in_cache st meta)))))))))) "

definition put_scalar_chunk ::
  "nat \<Rightarrow> Env \<Rightarrow> FastKStore \<Rightarrow> ScalarSeriesKey \<Rightarrow> i64 \<Rightarrow> ScalarRecord list \<Rightarrow> nat \<Rightarrow> (FastKStore \<times> unit res) option" where
  "put_scalar_chunk depth E st series_key timeframe_ms records zmap_block_size =
     (if timeframe_ms \<le> i64_of_int 0 \<or> zmap_block_size = 0
      then Some (st, Inl (InvalidInput ''timeframe and zone-map block size must be positive''))
      else (case validate_month_records scalar_record E records of
        Inl e \<Rightarrow> Some (st, Inl e)
      | Inr _ \<Rightarrow> with_lock depth E st (\<lambda>st. put_scalar_chunk_locked E st series_key timeframe_ms records zmap_block_size)))"

text \<open>Appending reads the rows of the month and writes them back with the new ones.\<close>

definition append_scalar_chunk_locked ::
  "Env \<Rightarrow> FastKStore \<Rightarrow> ScalarSeriesKey \<Rightarrow> i64 \<Rightarrow> ScalarRecord list \<Rightarrow> nat \<Rightarrow> FastKStore \<times> unit res" where
  "append_scalar_chunk_locked E st key timeframe_ms records block_size =
     (case records of
        [] \<Rightarrow> (st, Inl (Panic ''index out of bounds''))
      | first # _ \<Rightarrow>
          then_do (st, month_key (e_utc E) (s_ts first)) (\<lambda>st month.
          then_do
            (case load_scalar_meta E st key of
               (st, Inr meta) \<Rightarrow>
                 if sm_timeframe_ms meta \<noteq> timeframe_ms
                 then (st, Inl (InvalidInput ''scalar timeframe does not match existing series''))
                 else
                   try_each (\<lambda>st chunk rows. then_do (get_scalar_range E st key (cm_start_ts chunk) (cm_end_ts chunk))
                       (\<lambda>st more. (st, Inr (rows @ more))))
                     st (filter (\<lambda>c. is_readable (cm_state c)) (month_chunks meta month)) []
             | (st, Inl (NotFound _)) \<Rightarrow> (st, Inr [])
             | (st, Inl e) \<Rightarrow> (st, Inl e)) (\<lambda>st combined.
          if combined \<noteq> [] \<and> s_ts (last combined) \<ge> s_ts first
          then (st, Inl (InvalidInput ''scalar append overlaps existing month''))
          else put_scalar_chunk_locked E st key timeframe_ms (combined @ records) block_size)))"

definition append_scalar_chunk ::
  "nat \<Rightarrow> Env \<Rightarrow> FastKStore \<Rightarrow> ScalarSeriesKey \<Rightarrow> i64 \<Rightarrow> ScalarRecord list \<Rightarrow> nat \<Rightarrow> (FastKStore \<times> unit res) option" where
  "append_scalar_chunk depth E st key timeframe_ms records block_size =
     (if timeframe_ms \<le> i64_of_int 0 \<or> block_size = 0
      then Some (st, Inl (InvalidInput ''timeframe and zone-map block size must be positive''))
      else (case validate_month_records scalar_record E records of
        Inl e \<Rightarrow> Some (st, Inl e)
      | Inr _ \<Rightarrow> with_lock depth E st (\<lambda>st. append_scalar_chunk_locked E st key timeframe_ms records block_size)))"

definition register_indicator_series ::
  "nat \<Rightarrow> Env \<Rightarrow> FastKStore \<Rightarrow> string \<Rightarrow> string \<Rightarrow> string \<Rightarrow> (FastKStore \<times> unit res) option" where
  "register_indicator_series depth E st symbol timeframe indicator_name =
     (case load_kline_meta E st symbol timeframe of
        (st, Inl e) \<Rightarrow> Some (st, Inl e)
      | (st, Inr meta) \<Rightarrow>
          register_scalar_series depth E st (indicator_series_key symbol timeframe indicator_name) (sm_timeframe_ms meta))"

definition put_indicator_chunk ::
  "nat \<Rightarrow> Env \<Rightarrow> FastKStore \<Rightarrow> string \<Rightarrow> string \<Rightarrow> string \<Rightarrow> ScalarRecord list \<Rightarrow> (FastKStore \<times> unit res) option" where
  "put_indicator_chunk depth E st symbol timeframe indicator_name records =
     (case load_kline_meta E st symbol timeframe of
        (st, Inl e) \<Rightarrow> Some (st, Inl e)
      | (st, Inr meta) \<Rightarrow>
          put_scalar_chunk depth E st (indicator_series_key symbol timeframe indicator_name) (sm_timeframe_ms meta) records
            DEFAULT_SCALAR_ZMAP_BLOCK_SIZE)"

section \<open>The other record families\<close>

fun split_loop :: "'r FixedRecord \<Rightarrow> Env \<Rightarrow> PartitionUnit \<Rightarrow> string \<Rightarrow> 'r list \<Rightarrow> 'r list \<Rightarrow> (string \<times> 'r list) list res" where
  "split_loop R E unit current rows [] = Inr [(current, rows)]"
| "split_loop R E unit current rows (r # rs) =
     and_then (partition_key (e_utc E) (ts_of R r) unit) (\<lambda>key.
     if key \<noteq> current then
       and_then (split_loop R E unit key [r] rs) (\<lambda>batches. Inr ((current, rows) # batches))
     else split_loop R E unit current (rows @ [r]) rs)"

definition split_fixed_records_by_partition ::
  "'r FixedRecord \<Rightarrow> Env \<Rightarrow> PartitionUnit \<Rightarrow> 'r list \<Rightarrow> (string \<times> 'r list) list res" where
  "split_fixed_records_by_partition R E unit records =
     (case records of
        [] \<Rightarrow> Inl (InvalidInput ''records must not be empty'')
      | r # rs \<Rightarrow> and_then (partition_key (e_utc E) (ts_of R r) unit) (\<lambda>key. split_loop R E unit key [r] rs))"

definition partition_chunks :: "SeriesMeta \<Rightarrow> string \<Rightarrow> ChunkMeta list" where
  "partition_chunks meta key = map (\<lambda>i. sm_chunks meta ! i) (chunk_indices_for_partition meta key)"

definition write_fixed_file ::
  "'r FixedRecord \<Rightarrow> Env \<Rightarrow> FastKStore \<Rightarrow> path \<Rightarrow> SeriesMeta \<Rightarrow> 'r list \<Rightarrow> WriteFixedChunkOptions \<Rightarrow> FastKStore \<times> ChunkMeta res" where
  "write_fixed_file R E st chunk_path meta records options =
     on_fs st (\<lambda>s. last_state (fixed_write_chunk R (e_utc E) (e_os E s chunk_path) chunk_path meta records options s))"

definition append_fixed_partition_locked ::
  "'r FixedRecord \<Rightarrow> Env \<Rightarrow> path \<Rightarrow> PartitionUnit \<Rightarrow> FastKStore \<Rightarrow> string \<times> 'r list \<Rightarrow> SeriesMeta \<Rightarrow> FastKStore \<times> SeriesMeta res" where
  "append_fixed_partition_locked R E dir unit st batch meta =
     (let (key, records) = batch;
          existing = partition_chunks meta key;
          generation = next_generation existing in
      then_do (st,
          if existing = [] then Inr (partition_chunk_file_name key, Sealed)
          else if ts_of R (hd records) \<le> cm_end_ts (last existing)
          then Inl (InvalidInput ''append overlaps existing partition chunk'')
          else Inr (partition_delta_chunk_file_name key generation, Active)) (\<lambda>st (file_name, state).
      let relative_path = chunk_relative_path file_name in
      then_do (write_fixed_file R E st (resolve_relative_path dir relative_path) meta records
          \<lparr>wo_chunk_id = next_chunk_id meta, wo_generation = generation, wo_state = state, wo_relative_path = relative_path,
           wo_sparse_index_every = DEFAULT_SPARSE_INDEX_EVERY, wo_partition_unit = unit\<rparr>) (\<lambda>st chunk_meta.
      let (meta, upserted) = upsert_chunk_meta (e_now E) meta chunk_meta in
      (st, and_then upserted (\<lambda>_. Inr
        (if cm_state chunk_meta = Active then meta\<lparr>sm_active_chunk_id := Some (cm_chunk_id chunk_meta)\<rparr> else meta))))))"

text \<open>A batch must start after the readable chunks of its partition.\<close>

definition batch_fits :: "'r FixedRecord \<Rightarrow> SeriesMeta \<Rightarrow> string \<times> 'r list \<Rightarrow> bool" where
  "batch_fits R meta batch \<longleftrightarrow>
     (\<forall>c \<in> set (partition_chunks meta (fst batch)). is_readable (cm_state c) \<longrightarrow> \<not> ts_of R (hd (snd batch)) \<le> cm_end_ts c)"

definition put_fixed_chunk ::
  "'r FixedRecord \<Rightarrow> nat \<Rightarrow> Env \<Rightarrow> FastKStore \<Rightarrow> string \<Rightarrow> string \<Rightarrow> string \<Rightarrow> 'r list \<Rightarrow> (FastKStore \<times> unit res) option" where
  "put_fixed_chunk R depth E st symbol category name records =
     (case validate_strict_order R records of
        Inl e \<Rightarrow> Some (st, Inl e)
      | Inr _ \<Rightarrow> with_lock depth E st (\<lambda>st.
          then_do (load_fixed_meta E st symbol category name) (\<lambda>st meta.
          then_do (st, ensure (holds_records R meta)
            (InvalidData ''series does not match requested fixed record type'')) (\<lambda>st _.
          then_do (st, partition_unit_from_str (sm_chunk_unit meta)) (\<lambda>st unit.
          then_do (st, ensure (is_time_based unit)
            (InvalidInput ''partition unit is not implemented for fixed record writes'')) (\<lambda>st _.
          then_do (st, split_fixed_records_by_partition R E unit records) (\<lambda>st batches.
          then_do (st, ensure (list_all (batch_fits R meta) batches)
            (InvalidInput ''append overlaps existing partition chunk'')) (\<lambda>st _.
          let dir = series_dir (fk_root st) symbol category name in
          then_do (arm E st) (\<lambda>st _.
          then_do (on_fs st (make_dir E (chunks_dir dir))) (\<lambda>st _.
          then_do (try_each (append_fixed_partition_locked R E dir unit) st batches meta) (\<lambda>st meta.
          then_do (catalog_save_series_meta E st meta) (\<lambda>st _.
          commit E (store_series_in_cache st meta)))))))))))))"

section \<open>Inventories\<close>

record MonthInventoryEntry =
  mi_month_key :: string
  mi_chunk_count :: nat
  mi_record_count :: u64
  mi_sealed_chunk_count :: nat
  mi_active_delta_count :: nat
  mi_sidecar_count :: nat

definition month_entry :: "ChunkMeta \<Rightarrow> MonthInventoryEntry" where
  "month_entry c =
     \<lparr>mi_month_key = cm_month_key c, mi_chunk_count = 1, mi_record_count = cm_count c,
      mi_sealed_chunk_count = of_bool (cm_state c = Sealed), mi_active_delta_count = of_bool (cm_state c = Active),
      mi_sidecar_count = length (cm_sidecars c)\<rparr>"

definition extend_month :: "MonthInventoryEntry \<Rightarrow> ChunkMeta \<Rightarrow> MonthInventoryEntry" where
  "extend_month m c =
     \<lparr>mi_month_key = mi_month_key m, mi_chunk_count = mi_chunk_count m + 1,
      mi_record_count = saturating_add (mi_record_count m) (cm_count c),
      mi_sealed_chunk_count = mi_sealed_chunk_count m + of_bool (cm_state c = Sealed),
      mi_active_delta_count = mi_active_delta_count m + of_bool (cm_state c = Active),
      mi_sidecar_count = mi_sidecar_count m + length (cm_sidecars c)\<rparr>"

fun month_inventory_loop :: "MonthInventoryEntry list \<Rightarrow> ChunkMeta list \<Rightarrow> MonthInventoryEntry list" where
  "month_inventory_loop months [] = months"
| "month_inventory_loop months (c # cs) =
     month_inventory_loop
       (if months \<noteq> [] \<and> mi_month_key (last months) = cm_month_key c then butlast months @ [extend_month (last months) c]
        else months @ [month_entry c]) cs"

definition month_inventory :: "SeriesMeta \<Rightarrow> MonthInventoryEntry list" where
  "month_inventory meta = month_inventory_loop [] (sm_chunks meta)"

end
