(* ===== verification/StoreReads.thy ===== *)
theory StoreReads
  imports Store
begin

text \<open>
  What the store's reads return. The locales are the interfaces between the loops over chunks
  and the per-chunk reads: a read that succeeds on the chunks of the series and keeps the caches
  coherent. They are interpreted for the readers of every record family, and give: a range read
  returns exactly the rows of the range, a point lookup the row of its timestamp, a tail read
  the last rows, over a series of any number of chunks, planned or not, for every pool.
\<close>

locale chunk_append =
  fixes inv :: "'s \<Rightarrow> bool" and good :: "'x \<Rightarrow> bool"
    and step :: "'s \<Rightarrow> 'x \<Rightarrow> 'r list \<Rightarrow> 's \<times> 'r list res" and rows :: "'x \<Rightarrow> 'r list"
  assumes step_ok: "inv s \<Longrightarrow> good x \<Longrightarrow> \<exists>s'. step s x out = (s', Inr (out @ rows x)) \<and> inv s'"
begin

lemma try_each_ok:
  "inv s \<Longrightarrow> \<forall>x \<in> set xs. good x \<Longrightarrow>
     \<exists>s'. try_each step s xs out = (s', Inr (out @ concat (map rows xs))) \<and> inv s'"
proof (induction xs arbitrary: s out)
  case (Cons x xs)
  obtain s1 where 1: "step s x out = (s1, Inr (out @ rows x))" "inv s1" using step_ok [of s x out] Cons.prems by auto
  obtain s2 where "try_each step s1 xs (out @ rows x) = (s2, Inr ((out @ rows x) @ concat (map rows xs)))" "inv s2"
    using Cons.IH [OF 1(2), of "out @ rows x"] Cons.prems by auto
  with 1 show ?case by simp
qed simp

end

locale chunk_collect =
  fixes inv :: "'s \<Rightarrow> bool" and good :: "'x \<Rightarrow> bool"
    and read :: "'s \<Rightarrow> 'x \<Rightarrow> 's \<times> 'y res" and gives :: "'x \<Rightarrow> 'y \<Rightarrow> bool"
  assumes read_ok: "inv s \<Longrightarrow> good x \<Longrightarrow> \<exists>s' y. read s x = (s', Inr y) \<and> inv s' \<and> gives x y"
begin

lemma collect_each_ok:
  "inv s \<Longrightarrow> \<forall>x \<in> set xs. good x \<Longrightarrow>
     \<exists>s' ys. collect_each read s xs = (s', Inr ys) \<and> inv s' \<and> list_all2 gives xs ys"
proof (induction xs arbitrary: s)
  case (Cons x xs)
  obtain s1 y where 1: "read s x = (s1, Inr y)" "inv s1" "gives x y" using read_ok [of s x] Cons.prems by auto
  obtain s2 ys where "collect_each read s1 xs = (s2, Inr ys)" "inv s2" "list_all2 gives xs ys"
    using Cons.IH [OF 1(2)] Cons.prems by auto
  with 1 show ?case by simp
qed simp

end

text \<open>The tail of one chunk, where a chunk of the series has the rows that its metadata counts.\<close>

locale chunk_tail =
  fixes inv :: "'s \<Rightarrow> bool" and good :: "ChunkMeta \<Rightarrow> bool"
    and tail :: "'s \<Rightarrow> ChunkMeta \<Rightarrow> nat \<Rightarrow> 's \<times> 'y res" and rows :: "ChunkMeta \<Rightarrow> 'r list"
    and gives :: "'y \<Rightarrow> 'r list \<Rightarrow> bool"
  assumes count_ok: "good c \<Longrightarrow> unat (cm_count c) = length (rows c)"
    and tail_ok: "inv s \<Longrightarrow> good c \<Longrightarrow>
      \<exists>s' y. tail s c n = (s', Inr y) \<and> inv s' \<and> gives y (drop (length (rows c) - n) (rows c))"
begin

lemma collect_tail_ok:
  "inv s \<Longrightarrow> \<forall>c \<in> set cs. good c \<Longrightarrow>
     \<exists>s' ys parts. collect_tail tail s cs n = (s', Inr ys) \<and> inv s' \<and> list_all2 gives ys parts
       \<and> concat (rev parts) = (let all = concat (map rows (rev cs)) in drop (length all - n) all)"
proof (induction cs arbitrary: s n)
  case Nil
  then show ?case by simp
next
  case (Cons c cs)
  show ?case
  proof (cases "n = 0")
    case True
    then show ?thesis using Cons.prems by (intro exI [of _ s] exI [of _ "[]"]) simp
  next
    case False
    let ?t = "min n (length (rows c))" and ?all = "concat (map rows (rev cs))"
    obtain s1 y where 1: "tail s c ?t = (s1, Inr y)" "inv s1" "gives y (drop (length (rows c) - ?t) (rows c))"
      using tail_ok [of s c ?t] Cons.prems by auto
    obtain s2 ys parts where 2: "collect_tail tail s1 cs (n - ?t) = (s2, Inr ys)" "inv s2" "list_all2 gives ys parts"
        "concat (rev parts) = drop (length ?all - (n - ?t)) ?all"
      using Cons.IH [OF 1(2), of "n - ?t"] Cons.prems by (auto simp: Let_def)
    have "drop (length ?all - (n - ?t)) ?all @ drop (length (rows c) - ?t) (rows c)
        = drop (length (?all @ rows c) - n) (?all @ rows c)"
      by (cases "n \<le> length (rows c)") (auto simp: min_def)
    then show ?thesis
      using False 1 2 Cons.prems count_ok [of c]
      by (intro exI [of _ s2] exI [of _ "y # ys"] exI [of _ "drop (length (rows c) - ?t) (rows c) # parts"])
        (simp add: Let_def)
  qed
qed

end

section \<open>The readers provide the interfaces\<close>

abbreviation in_range :: "('r \<Rightarrow> i64) \<Rightarrow> i64 \<Rightarrow> i64 \<Rightarrow> 'r \<Rightarrow> bool" where
  "in_range f a b r \<equiv> a \<le> f r \<and> f r \<le> b"

text \<open>A chunk of the series, in the place where the caches look it up.\<close>

definition located ::
  "'r FixedRecord \<Rightarrow> ('r \<Rightarrow> bool) \<Rightarrow> (path \<rightharpoonup> u8 list) \<Rightarrow> (ChunkCacheKey \<Rightarrow> path) \<Rightarrow> path \<Rightarrow> u64 \<Rightarrow>
   (ChunkMeta \<Rightarrow> 'r list) \<Rightarrow> ChunkMeta \<Rightarrow> bool" where
  "located R ok fs where_is dir sid rows_of c \<longleftrightarrow>
     chunk_stored R ok fs dir sid c (rows_of c)
     \<and> where_is (key_from_meta c sid) = path_join dir (cm_relative_path c)"

lemma stored_kline_chunk:
  assumes "chunk_stored kline_record (\<lambda>_. True) fs dir sid c rows"
  obtains bytes layout where "fs (path_join dir (cm_relative_path c)) = Some bytes" "load_layout bytes = Inr layout"
    "kline_validate_header (l_header layout) = Inr ()" "kline_chunk bytes layout rows"
  using assms that
  by (auto simp: chunk_stored_def kline_chunk_def fixed_validate_header_def kline_validate_header_def res_simps
      KLINE_SCHEMA_ID_def kline_BYTE_SIZE_def)

lemma stored_scalar_chunk:
  assumes "chunk_stored scalar_record (\<lambda>_. True) fs dir sid c rows"
  obtains bytes layout where "fs (path_join dir (cm_relative_path c)) = Some bytes" "load_layout bytes = Inr layout"
    "scalar_validate_header (l_header layout) = Inr ()" "scalar_chunk bytes layout rows"
  using assms that
  by (auto simp: chunk_stored_def scalar_chunk_def fixed_validate_header_def scalar_validate_header_def res_simps
      SCALAR_SCHEMA_ID_def scalar_BYTE_SIZE_def)

lemma chunk_stored_count:
  assumes "chunk_stored R ok fs dir sid c rows" and "0 < BYTE_SIZE R"
  shows "unat (cm_count c) = length rows" and "length rows < 2 ^ 63"
proof -
  obtain h bytes where h: "chunk_holds R ok h rows bytes" using assms(1) by (auto simp: chunk_stored_def)
  have "length rows * 1 \<le> length rows * BYTE_SIZE R" using assms(2) by (intro mult_le_mono2) simp
  then show l: "length rows < 2 ^ 63" using h unfolding chunk_holds_def mult.commute [of "BYTE_SIZE R"] by linarith
  then show "unat (cm_count c) = length rows" using assms(1) by (simp add: chunk_stored_def)
qed

text \<open>What a span delivers when it is read.\<close>

definition delivers :: "(ReadSpan \<Rightarrow> nat \<Rightarrow> 'r list res) \<Rightarrow> ReadSpan \<Rightarrow> 'r list \<Rightarrow> bool" where
  "delivers fill span rows \<longleftrightarrow>
     length (cf_file (rs_file span)) < 2 ^ 63 \<and> rs_rows span < 2 ^ 64 \<and> fill span (rs_rows span) = Inr rows"

lemma kline_reads_chunk:
  assumes co: "coherent fs where_is rt" and l: "located kline_record (\<lambda>_. True) fs where_is dir sid rows_of c"
  shows "\<exists>rt'. drop_path (kline_append_range_in_chunk fs rt dir sid c a b out)
      = (rt', Inr (out @ filter (in_range k_ts a b) (rows_of c))) \<and> coherent fs where_is rt'"
    and "\<exists>rt' span. kline_plan_range fs rt dir sid c a b = (rt', Inr span) \<and> coherent fs where_is rt'
      \<and> delivers kline_read_planned span (filter (in_range k_ts a b) (rows_of c))"
    and "\<exists>rt' span. kline_plan_tail fs rt dir sid c n = (rt', Inr span) \<and> coherent fs where_is rt'
      \<and> delivers kline_read_planned span (drop (length (rows_of c) - n) (rows_of c))"
    and "\<exists>rt'. kline_find_in_chunk fs rt dir sid c t = (rt', Inr (find (\<lambda>r. k_ts r = t) (rows_of c))) \<and> coherent fs where_is rt'"
proof -
  have p: "where_is (key_from_meta c sid) = path_join dir (cm_relative_path c)"
    and s: "chunk_stored kline_record (\<lambda>_. True) fs dir sid c (rows_of c)" using l by (simp_all add: located_def)
  obtain bytes layout where f: "fs (path_join dir (cm_relative_path c)) = Some bytes" "load_layout bytes = Inr layout"
      "kline_validate_header (l_header layout) = Inr ()" and k: "kline_chunk bytes layout (rows_of c)"
    by (rule stored_kline_chunk [OF s])
  have len: "length bytes < 2 ^ 63" "length (rows_of c) < 2 ^ 63" using kline_chunkD(1,7) [OF k] by (simp_all add: chunk_holds_def)
  note r = kline_chunk_reads [OF co p f k]
  show "\<exists>rt'. drop_path (kline_append_range_in_chunk fs rt dir sid c a b out)
      = (rt', Inr (out @ filter (in_range k_ts a b) (rows_of c))) \<and> coherent fs where_is rt'"
    using r(1) [of a b out] by (auto simp: drop_path_def)
  show "\<exists>rt' span. kline_plan_range fs rt dir sid c a b = (rt', Inr span) \<and> coherent fs where_is rt'
      \<and> delivers kline_read_planned span (filter (in_range k_ts a b) (rows_of c))"
    using r(3) [of a b] len by (fastforce simp: delivers_def)
  show "\<exists>rt' span. kline_plan_tail fs rt dir sid c n = (rt', Inr span) \<and> coherent fs where_is rt'
      \<and> delivers kline_read_planned span (drop (length (rows_of c) - n) (rows_of c))"
    using r(4) [of n] len by (fastforce simp: delivers_def)
  show "\<exists>rt'. kline_find_in_chunk fs rt dir sid c t = (rt', Inr (find (\<lambda>r. k_ts r = t) (rows_of c))) \<and> coherent fs where_is rt'"
    by (rule r(2))
qed

lemma scalar_reads_chunk:
  assumes co: "coherent fs where_is rt" and l: "located scalar_record (\<lambda>_. True) fs where_is dir sid rows_of c"
  shows "\<exists>rt'. drop_path (scalar_append_range_in_chunk fs rt dir sid c a b out)
      = (rt', Inr (out @ filter (in_range s_ts a b) (rows_of c))) \<and> coherent fs where_is rt'"
    and "\<exists>rt' span. scalar_plan_range fs rt dir sid c a b = (rt', Inr span) \<and> coherent fs where_is rt'
      \<and> delivers scalar_read_planned span (filter (in_range s_ts a b) (rows_of c))"
    and "\<exists>rt'. scalar_find_in_chunk fs rt dir sid c t = (rt', Inr (find (\<lambda>r. s_ts r = t) (rows_of c))) \<and> coherent fs where_is rt'"
proof -
  have p: "where_is (key_from_meta c sid) = path_join dir (cm_relative_path c)"
    and s: "chunk_stored scalar_record (\<lambda>_. True) fs dir sid c (rows_of c)" using l by (simp_all add: located_def)
  obtain bytes layout where f: "fs (path_join dir (cm_relative_path c)) = Some bytes" "load_layout bytes = Inr layout"
      "scalar_validate_header (l_header layout) = Inr ()" and k: "scalar_chunk bytes layout (rows_of c)"
    by (rule stored_scalar_chunk [OF s])
  have len: "length bytes < 2 ^ 63" "length (rows_of c) < 2 ^ 63" using scalar_chunkD(1,7) [OF k] by (simp_all add: chunk_holds_def)
  note r = scalar_chunk_reads [OF co p f k]
  show "\<exists>rt'. drop_path (scalar_append_range_in_chunk fs rt dir sid c a b out)
      = (rt', Inr (out @ filter (in_range s_ts a b) (rows_of c))) \<and> coherent fs where_is rt'"
    using r(1) [of a b out] by (auto simp: drop_path_def)
  show "\<exists>rt' span. scalar_plan_range fs rt dir sid c a b = (rt', Inr span) \<and> coherent fs where_is rt'
      \<and> delivers scalar_read_planned span (filter (in_range s_ts a b) (rows_of c))"
    using r(3) [of a b] len by (fastforce simp: delivers_def)
  show "\<exists>rt'. scalar_find_in_chunk fs rt dir sid c t = (rt', Inr (find (\<lambda>r. s_ts r = t) (rows_of c))) \<and> coherent fs where_is rt'"
    by (rule r(2))
qed

lemma located_count:
  assumes "located R ok fs where_is dir sid rows_of c" and "0 < BYTE_SIZE R"
  shows "unat (cm_count c) = length (rows_of c)"
  using assms chunk_stored_count(1) by (auto simp: located_def)

interpretation kline_tail: chunk_tail "coherent fs where_is" "located kline_record (\<lambda>_. True) fs where_is dir sid rows_of"
    "\<lambda>rt c n. kline_plan_tail fs rt dir sid c n" rows_of "delivers kline_read_planned"
  for fs where_is dir sid rows_of
proof unfold_locales
  fix c assume "located kline_record (\<lambda>_. True) fs where_is dir sid rows_of c"
  from located_count [OF this kline.size_pos] show "unat (cm_count c) = length (rows_of c)" .
qed (rule kline_reads_chunk(3))

text \<open>Every other record family reads through the generic reader.\<close>

context fixed_record
begin

lemma reads_chunk:
  assumes co: "coherent fs where_is rt" and l: "located R wf fs where_is dir sid rows_of c"
  shows "\<exists>rt'. fixed_append_range_in_chunk R fs rt dir sid c a b out
      = (rt', Inr (out @ filter (in_range (ts_of R) a b) (rows_of c))) \<and> coherent fs where_is rt'"
    and "\<exists>rt'. fixed_read_tail_in_chunk R fs rt dir sid c n
      = (rt', Inr (drop (length (rows_of c) - n) (rows_of c))) \<and> coherent fs where_is rt'"
proof -
  have p: "where_is (key_from_meta c sid) = path_join dir (cm_relative_path c)"
    and s: "chunk_stored R wf fs dir sid c (rows_of c)" using l by (simp_all add: located_def)
  obtain bytes layout where f: "fs (path_join dir (cm_relative_path c)) = Some bytes" "load_layout bytes = Inr layout"
      "fixed_validate_header R (l_header layout) = Inr ()" and k: "chunk_holds R wf (l_header layout) (rows_of c) bytes"
      "header_spans R (l_header layout) (rows_of c)" and i: "index_of R (rows_of c) (l_sparse_index layout)"
      and o: "sorted_wrt (<) (map (ts_of R) (rows_of c))"
    using s by (auto simp: chunk_stored_def)
  note r = chunk_reads [OF co p f k]
  show "\<exists>rt'. fixed_append_range_in_chunk R fs rt dir sid c a b out
      = (rt', Inr (out @ filter (in_range (ts_of R) a b) (rows_of c))) \<and> coherent fs where_is rt'"
    by (rule r(1) [OF o i])
  show "\<exists>rt'. fixed_read_tail_in_chunk R fs rt dir sid c n
      = (rt', Inr (drop (length (rows_of c) - n) (rows_of c))) \<and> coherent fs where_is rt'"
    by (rule r(2))
qed

end

sublocale fixed_record \<subseteq> ranges: chunk_append "coherent fs where_is" "located R wf fs where_is dir sid rows_of"
    "\<lambda>rt c out. fixed_append_range_in_chunk R fs rt dir sid c a b out" "\<lambda>c. filter (in_range (ts_of R) a b) (rows_of c)"
  for fs where_is dir sid rows_of a b
  by unfold_locales (rule reads_chunk(1))

sublocale fixed_record \<subseteq> tails: chunk_tail "coherent fs where_is" "located R wf fs where_is dir sid rows_of"
    "\<lambda>rt c n. fixed_read_tail_in_chunk R fs rt dir sid c n" rows_of "\<lambda>y part. y = part"
  for fs where_is dir sid rows_of
proof unfold_locales
  fix c assume "located R wf fs where_is dir sid rows_of c"
  from located_count [OF this size_pos] show "unat (cm_count c) = length (rows_of c)" .
qed (use reads_chunk(2) in blast)

section \<open>Whole series\<close>

text \<open>
  A series the store can read: its chunks are on disk, the caches agree with the disk and know
  each chunk by its own key, and its rows fit into memory.
\<close>

definition readable_series ::
  "'r FixedRecord \<Rightarrow> ('r \<Rightarrow> bool) \<Rightarrow> (ChunkCacheKey \<Rightarrow> path) \<Rightarrow> FastKStore \<Rightarrow> path \<Rightarrow> SeriesMeta \<Rightarrow>
   (ChunkMeta \<Rightarrow> 'r list) \<Rightarrow> bool" where
  "readable_series R ok where_is st dir meta rows_of \<longleftrightarrow>
     series_stored R ok (fk_files st) dir meta rows_of
     \<and> coherent (fk_files st) where_is (fk_chunk_runtime st)
     \<and> (\<forall>c \<in> set (sm_chunks meta). where_is (key_from_meta c (sm_series_id meta)) = path_join dir (cm_relative_path c))
     \<and> length (series_rows rows_of meta) * BYTE_SIZE R < 2 ^ 64"

lemma readable_located:
  assumes "readable_series R ok where_is st dir meta rows_of" and "c \<in> set (sm_chunks meta)"
  shows "located R ok (fk_files st) where_is dir (sm_series_id meta) rows_of c"
  using assms by (simp add: readable_series_def series_stored_def located_def)

lemma readable_again:
  assumes "readable_series R ok where_is st dir meta rows_of" and "coherent (fk_files st) where_is rt"
  shows "readable_series R ok where_is (st\<lparr>fk_chunk_runtime := rt\<rparr>) dir meta rows_of"
  using assms by (simp add: readable_series_def fk_files_def)

lemma set_slice_subset: "x \<in> set (slice_of a b xs) \<Longrightarrow> x \<in> set xs"
  by (auto simp: slice_of_def dest: in_set_dropD in_set_takeD)

lemma length_series_slice:
  "sum_list (map (\<lambda>c. length (rows_of c)) (slice_of a b cs)) \<le> sum_list (map (\<lambda>c. length (rows_of c)) cs)"
proof -
  let ?f = "\<lambda>c. length (rows_of c)"
  have "sum_list (map ?f cs) = sum_list (map ?f (take b cs)) + sum_list (map ?f (drop b cs))"
    by (metis append_take_drop_id map_append sum_list.append)
  moreover have "sum_list (map ?f (take b cs)) = sum_list (map ?f (take a (take b cs))) + sum_list (map ?f (drop a (take b cs)))"
    by (metis append_take_drop_id map_append sum_list.append)
  ultimately show ?thesis by (simp add: slice_of_def)
qed

lemma range_capacity_ok:
  assumes "sum_list (map (\<lambda>c. unat (cm_count c)) cs) < 2 ^ 64"
  shows "\<exists>n. range_capacity meta cs a b = Inr n"
proof -
  let ?step = "\<lambda>sum chunk. and_then sum (\<lambda>s.
         let count = (if a \<le> cm_start_ts chunk \<and> b \<ge> cm_end_ts chunk then cm_count chunk
               else min (cm_count chunk) (estimate_short_range_rows (sm_timeframe_ms meta) a b)) in
         ok_or (checked_add s count) (InvalidData ''range capacity overflow''))"
  have "\<exists>m. foldl ?step (Inr n) cs = Inr m" if "unat n + sum_list (map (\<lambda>c. unat (cm_count c)) cs) < 2 ^ 64" for n
    using that
  proof (induction cs arbitrary: n)
    case (Cons c cs)
    define k where "k = (if a \<le> cm_start_ts c \<and> b \<ge> cm_end_ts c then cm_count c
        else min (cm_count c) (estimate_short_range_rows (sm_timeframe_ms meta) a b))"
    have k: "unat k \<le> unat (cm_count c)" by (simp add: k_def word_le_nat_alt [symmetric])
    then have s: "unat n + unat k < 2 ^ 64" using Cons.prems by simp
    then have "unat (n + k) = unat n + unat k" by (subst unat_add_lem [THEN iffD1]) auto
    then have "\<exists>m. foldl ?step (Inr (n + k)) cs = Inr m" using Cons.IH [of "n + k"] Cons.prems k by simp
    moreover have "?step (Inr n) c = Inr (n + k)"
      using s by (simp add: k_def [symmetric] checked_add_def Let_def)
    ultimately show ?case by (simp only: foldl_Cons)
  qed simp
  from this [of 0] assms show ?thesis by (simp add: range_capacity_def)
qed

text \<open>Spans that deliver parts, read together.\<close>

lemma delivered_spans:
  assumes "list_all2 (\<lambda>c span. delivers fill span (part c)) cs spans"
  obtains f where "\<forall>span \<in> set spans. length (cf_file (rs_file span)) < 2 ^ 63 \<and> rs_rows span < 2 ^ 64
      \<and> fill span (rs_rows span) = Inr (f span)" and "map f spans = map part cs"
proof -
  define f where "f = (\<lambda>span. case fill span (rs_rows span) of Inr xs \<Rightarrow> xs | Inl _ \<Rightarrow> [])"
  have "\<forall>span \<in> set spans. length (cf_file (rs_file span)) < 2 ^ 63 \<and> rs_rows span < 2 ^ 64
      \<and> fill span (rs_rows span) = Inr (f span)"
    using assms by (auto simp: list_all2_conv_all_nth in_set_conv_nth delivers_def f_def)
  moreover have "map f spans = map part cs"
    using assms by (auto simp: list_all2_conv_all_nth delivers_def f_def intro: nth_equalityI)
  ultimately show thesis by (rule that)
qed

text \<open>
  The interface of a range read: the append and the plan of one chunk, and the read of planned
  spans. The two readers that can plan provide it.
\<close>

locale range_reader = planned_read size fill
  for size :: nat and fill :: "ReadSpan \<Rightarrow> nat \<Rightarrow> 'r list res" +
  fixes R :: "'r FixedRecord"
    and app :: "(path \<rightharpoonup> u8 list) \<Rightarrow> ChunkRuntime \<Rightarrow> path \<Rightarrow> u64 \<Rightarrow> ChunkMeta \<Rightarrow> i64 \<Rightarrow> i64 \<Rightarrow> 'r list \<Rightarrow> ChunkRuntime \<times> 'r list res"
    and plan :: "(path \<rightharpoonup> u8 list) \<Rightarrow> ChunkRuntime \<Rightarrow> path \<Rightarrow> u64 \<Rightarrow> ChunkMeta \<Rightarrow> i64 \<Rightarrow> i64 \<Rightarrow> ChunkRuntime \<times> ReadSpan res"
  assumes size_R: "BYTE_SIZE R = size"
    and app_ok: "coherent fs where_is rt \<Longrightarrow> located R (\<lambda>_. True) fs where_is dir sid rows_of c \<Longrightarrow>
      \<exists>rt'. app fs rt dir sid c a b out = (rt', Inr (out @ filter (in_range (ts_of R) a b) (rows_of c))) \<and> coherent fs where_is rt'"
    and plan_ok: "coherent fs where_is rt \<Longrightarrow> located R (\<lambda>_. True) fs where_is dir sid rows_of c \<Longrightarrow>
      \<exists>rt' span. plan fs rt dir sid c a b = (rt', Inr span) \<and> coherent fs where_is rt'
        \<and> delivers fill span (filter (in_range (ts_of R) a b) (rows_of c))"
begin

lemma append_loop:
  assumes rd: "readable_series R (\<lambda>_. True) where_is st dir meta rows_of" and w: "find_chunks_for_range meta a b = (i, j)"
  shows "\<exists>rt. try_each (\<lambda>rt c out. app (fk_files st) rt dir (sm_series_id meta) c a b out)
      (fk_chunk_runtime st) (slice_of i j (sm_chunks meta)) []
    = (rt, Inr (filter (in_range (ts_of R) a b) (series_rows rows_of meta))) \<and> coherent (fk_files st) where_is rt"
proof -
  have co: "coherent (fk_files st) where_is (fk_chunk_runtime st)" using rd by (simp add: readable_series_def)
  have loop: "coherent (fk_files st) where_is rt \<Longrightarrow> \<forall>c \<in> set cs. c \<in> set (sm_chunks meta) \<Longrightarrow>
      \<exists>rt'. try_each (\<lambda>rt c out. app (fk_files st) rt dir (sm_series_id meta) c a b out) rt cs out
        = (rt', Inr (out @ concat (map (\<lambda>c. filter (in_range (ts_of R) a b) (rows_of c)) cs))) \<and> coherent (fk_files st) where_is rt'"
    for rt cs out
    by (rule chunk_append.try_each_ok [where good = "\<lambda>c. c \<in> set (sm_chunks meta)"], unfold_locales)
      (use app_ok readable_located [OF rd] in auto)
  show ?thesis
    using loop [OF co, of "slice_of i j (sm_chunks meta)" "[]"] series_range [OF _ w, of R "\<lambda>_. True" "fk_files st" dir rows_of] rd
    by (auto simp: readable_series_def dest: set_slice_subset)
qed

lemma plan_loop:
  assumes rd: "readable_series R (\<lambda>_. True) where_is st dir meta rows_of" and w: "find_chunks_for_range meta a b = (i, j)"
  shows "\<exists>rt spans. collect_each (\<lambda>rt c. plan (fk_files st) rt dir (sm_series_id meta) c a b)
      (fk_chunk_runtime st) (slice_of i j (sm_chunks meta)) = (rt, Inr spans) \<and> coherent (fk_files st) where_is rt
    \<and> read_spans pool spans size fill = Inr (filter (in_range (ts_of R) a b) (series_rows rows_of meta))"
proof -
  let ?cs = "slice_of i j (sm_chunks meta)" and ?part = "\<lambda>c. filter (in_range (ts_of R) a b) (rows_of c)"
  have co: "coherent (fk_files st) where_is (fk_chunk_runtime st)" using rd by (simp add: readable_series_def)
  have out: "filter (in_range (ts_of R) a b) (series_rows rows_of meta) = concat (map ?part ?cs)"
    using series_range [OF _ w] rd by (auto simp: readable_series_def)
  have "\<exists>rt spans. collect_each (\<lambda>rt c. plan (fk_files st) rt dir (sm_series_id meta) c a b) (fk_chunk_runtime st) ?cs
      = (rt, Inr spans) \<and> coherent (fk_files st) where_is rt \<and> list_all2 (\<lambda>c span. delivers fill span (?part c)) ?cs spans"
    by (rule chunk_collect.collect_each_ok [where good = "\<lambda>c. c \<in> set (sm_chunks meta)"], unfold_locales)
      (use plan_ok readable_located [OF rd] co in \<open>auto dest: set_slice_subset\<close>)
  then obtain rt spans where c: "collect_each (\<lambda>rt c. plan (fk_files st) rt dir (sm_series_id meta) c a b)
      (fk_chunk_runtime st) ?cs = (rt, Inr spans)" "coherent (fk_files st) where_is rt"
      "list_all2 (\<lambda>c span. delivers fill span (?part c)) ?cs spans" by blast
  obtain f where f: "\<forall>span \<in> set spans. length (cf_file (rs_file span)) < 2 ^ 63 \<and> rs_rows span < 2 ^ 64
      \<and> fill span (rs_rows span) = Inr (f span)" "map f spans = map ?part ?cs"
    by (rule delivered_spans [OF c(3)])
  have "length (filter (in_range (ts_of R) a b) (series_rows rows_of meta)) * size \<le> length (series_rows rows_of meta) * size"
    by (rule mult_le_mono1) (rule length_filter_le)
  also have "\<dots> < 2 ^ 64" using rd size_R by (simp add: readable_series_def)
  finally have "read_spans pool spans size fill = Inr (concat (map ?part ?cs))"
    using read_spans_exact [OF f(1)] by (simp add: f(2) out)
  with c out show ?thesis by metis
qed

end

interpretation kline_ranges: range_reader kline_BYTE_SIZE kline_read_planned kline_record
    "\<lambda>fs rt dir sid c a b out. drop_path (kline_append_range_in_chunk fs rt dir sid c a b out)" kline_plan_range
proof unfold_locales
  show "BYTE_SIZE kline_record = kline_BYTE_SIZE" by (simp add: kline_BYTE_SIZE_def)
qed (use kline_reads_chunk(1,2) in simp_all)

interpretation scalar_ranges: range_reader scalar_BYTE_SIZE scalar_read_planned scalar_record
    "\<lambda>fs rt dir sid c a b out. drop_path (scalar_append_range_in_chunk fs rt dir sid c a b out)" scalar_plan_range
proof unfold_locales
  show "BYTE_SIZE scalar_record = scalar_BYTE_SIZE" by (simp add: scalar_BYTE_SIZE_def)
qed (use scalar_reads_chunk(1,2) in simp_all)

text \<open>An empty window of chunks holds no row of the range.\<close>

lemma no_window:
  assumes "readable_series R ok where_is st dir meta rows_of" and "find_chunks_for_range meta a b = (i, j)" and "a > b \<or> \<not> i < j"
  shows "filter (in_range (ts_of R) a b) (series_rows rows_of meta) = []"
  using assms series_range [OF _ assms(2), of R ok "fk_files st" dir rows_of]
  by (auto simp: readable_series_def filter_empty_conv i64_ord)

lemma kline_range_prepared:
  assumes rd: "readable_series kline_record (\<lambda>_. True) where_is st dir meta rows_of"
  shows "\<exists>rt. get_kline_range_prepared st dir meta a b
      = (st\<lparr>fk_chunk_runtime := rt\<rparr>, Inr (filter (in_range k_ts a b) (series_rows rows_of meta)))
    \<and> coherent (fk_files st) where_is rt"
proof -
  obtain i j where w: "find_chunks_for_range meta a b = (i, j)" by fastforce
  let ?cs = "slice_of i j (sm_chunks meta)"
  have co: "coherent (fk_files st) where_is (fk_chunk_runtime st)" using rd by (simp add: readable_series_def)
  show ?thesis
  proof (cases "a > b \<or> \<not> i < j")
    case True
    then show ?thesis using no_window [OF rd w True] co w
      by (intro exI [of _ "fk_chunk_runtime st"]) (auto simp: get_kline_range_prepared_def)
  next
    case False
    have c: "map (\<lambda>c. unat (cm_count c)) ?cs = map (\<lambda>c. length (rows_of c)) ?cs"
      using located_count [OF readable_located [OF rd] kline.size_pos] by (auto simp: map_eq_conv dest: set_slice_subset)
    have "length (series_rows rows_of meta) * BYTE_SIZE kline_record < 2 ^ 64" using rd by (simp add: readable_series_def)
    then have "sum_list (map (\<lambda>c. length (rows_of c)) (sm_chunks meta)) < 2 ^ 64"
      by (simp add: kline_BYTE_SIZE_def series_rows_def length_concat comp_def)
    then have "sum_list (map (\<lambda>c. unat (cm_count c)) ?cs) < 2 ^ 64"
      unfolding c using length_series_slice [of rows_of i j "sm_chunks meta"] by linarith
    then obtain cap where cap: "range_capacity meta ?cs a b = Inr cap" using range_capacity_ok by blast
    show ?thesis
      using False w cap kline_ranges.append_loop [OF rd w] kline_ranges.plan_loop [OF rd w, of "fk_read_pool st"]
      by (auto simp: get_kline_range_prepared_def on_runtime_def Let_def)
  qed
qed

lemma scalar_range_prepared:
  assumes rd: "readable_series scalar_record (\<lambda>_. True) where_is st dir meta rows_of"
  shows "\<exists>rt. get_scalar_range_prepared st dir meta a b
      = (st\<lparr>fk_chunk_runtime := rt\<rparr>, Inr (filter (in_range s_ts a b) (series_rows rows_of meta)))
    \<and> coherent (fk_files st) where_is rt"
proof -
  obtain i j where w: "find_chunks_for_range meta a b = (i, j)" by fastforce
  have co: "coherent (fk_files st) where_is (fk_chunk_runtime st)" using rd by (simp add: readable_series_def)
  show ?thesis
  proof (cases "a > b \<or> \<not> i < j")
    case True
    then show ?thesis using no_window [OF rd w True] co w
      by (intro exI [of _ "fk_chunk_runtime st"]) (auto simp: get_scalar_range_prepared_def)
  next
    case False
    then show ?thesis
      using w scalar_ranges.append_loop [OF rd w] scalar_ranges.plan_loop [OF rd w, of "fk_read_pool st"]
      by (auto simp: get_scalar_range_prepared_def on_runtime_def Let_def)
  qed
qed

lemma point_prepared:
  assumes rd: "readable_series R ok where_is st dir meta rows_of"
    and find: "\<And>c. located R ok (fk_files st) where_is dir (sm_series_id meta) rows_of c \<Longrightarrow>
      \<exists>rt'. read c = (rt', Inr (find (\<lambda>r. ts_of R r = t) (rows_of c))) \<and> coherent (fk_files st) where_is rt'"
  shows "\<exists>rt'. (case find_chunk_for_ts meta t of None \<Rightarrow> (fk_chunk_runtime st, Inr None) | Some i \<Rightarrow> read (sm_chunks meta ! i))
      = (rt', Inr (find (\<lambda>r. ts_of R r = t) (series_rows rows_of meta))) \<and> coherent (fk_files st) where_is rt'"
proof -
  have s: "series_stored R ok (fk_files st) dir meta rows_of" and co: "coherent (fk_files st) where_is (fk_chunk_runtime st)"
    using rd by (simp_all add: readable_series_def)
  show ?thesis
  proof (cases "find_chunk_for_ts meta t")
    case None
    then show ?thesis using series_point [OF s, of t] co by simp
  next
    case (Some i)
    then have "i < length (sm_chunks meta)"
      using s find_chunk_for_ts_exact [of meta t i] by (auto simp: series_stored_def)
    then show ?thesis using series_point [OF s, of t] find [OF readable_located [OF rd nth_mem]] Some by simp
  qed
qed

lemma kline_at_prepared:
  assumes rd: "readable_series kline_record (\<lambda>_. True) where_is st dir meta rows_of"
  shows "\<exists>rt. get_kline_at_prepared st dir meta t
      = (st\<lparr>fk_chunk_runtime := rt\<rparr>, Inr (find (\<lambda>r. k_ts r = t) (series_rows rows_of meta)))
    \<and> coherent (fk_files st) where_is rt"
proof -
  have "get_kline_at_prepared st dir meta t = on_runtime st (\<lambda>rt. case find_chunk_for_ts meta t of None \<Rightarrow> (rt, Inr None)
      | Some i \<Rightarrow> kline_find_in_chunk (fk_files st) rt dir (sm_series_id meta) (sm_chunks meta ! i) t)"
    by (simp add: get_kline_at_prepared_def on_runtime_def split: option.split)
  then show ?thesis
    using point_prepared [OF rd, of "\<lambda>c. kline_find_in_chunk (fk_files st) (fk_chunk_runtime st) dir (sm_series_id meta) c t" t]
      kline_reads_chunk(4) [of "fk_files st" where_is "fk_chunk_runtime st" dir "sm_series_id meta" rows_of _ t] rd
    by (fastforce simp: on_runtime_def readable_series_def)
qed

lemma scalar_at_prepared:
  assumes rd: "readable_series scalar_record (\<lambda>_. True) where_is st dir meta rows_of"
  shows "\<exists>rt. get_scalar_at_prepared st dir meta t
      = (st\<lparr>fk_chunk_runtime := rt\<rparr>, Inr (find (\<lambda>r. s_ts r = t) (series_rows rows_of meta)))
    \<and> coherent (fk_files st) where_is rt"
proof -
  have "get_scalar_at_prepared st dir meta t = on_runtime st (\<lambda>rt. case find_chunk_for_ts meta t of None \<Rightarrow> (rt, Inr None)
      | Some i \<Rightarrow> scalar_find_in_chunk (fk_files st) rt dir (sm_series_id meta) (sm_chunks meta ! i) t)"
    by (simp add: get_scalar_at_prepared_def on_runtime_def split: option.split)
  then show ?thesis
    using point_prepared [OF rd, of "\<lambda>c. scalar_find_in_chunk (fk_files st) (fk_chunk_runtime st) dir (sm_series_id meta) c t" t]
      scalar_reads_chunk(3) [of "fk_files st" where_is "fk_chunk_runtime st" dir "sm_series_id meta" rows_of _ t] rd
    by (fastforce simp: on_runtime_def readable_series_def)
qed

lemma kline_latest_prepared:
  assumes rd: "readable_series kline_record (\<lambda>_. True) where_is st dir meta rows_of"
  shows "\<exists>rt. get_kline_latest_n_prepared st dir meta n
      = (st\<lparr>fk_chunk_runtime := rt\<rparr>, Inr (drop (length (series_rows rows_of meta) - n) (series_rows rows_of meta)))
    \<and> coherent (fk_files st) where_is rt"
proof (cases "n = 0")
  case True
  then show ?thesis using rd
    by (intro exI [of _ "fk_chunk_runtime st"]) (simp add: get_kline_latest_n_prepared_def readable_series_def)
next
  case False
  have co: "coherent (fk_files st) where_is (fk_chunk_runtime st)" using rd by (simp add: readable_series_def)
  have loc: "\<forall>c \<in> set (rev (sm_chunks meta)). located kline_record (\<lambda>_. True) (fk_files st) where_is dir (sm_series_id meta) rows_of c"
    using readable_located [OF rd] by simp
  obtain rt spans parts where c: "collect_tail (\<lambda>rt c n. kline_plan_tail (fk_files st) rt dir (sm_series_id meta) c n)
      (fk_chunk_runtime st) (rev (sm_chunks meta)) n = (rt, Inr spans)" "coherent (fk_files st) where_is rt"
      "list_all2 (delivers kline_read_planned) spans parts"
      "concat (rev parts) = (let all = concat (map rows_of (rev (rev (sm_chunks meta)))) in drop (length all - n) all)"
    using kline_tail.collect_tail_ok [OF co loc, of n] by blast
  let ?tail = "drop (length (series_rows rows_of meta) - n) (series_rows rows_of meta)"
  have out: "concat (rev parts) = ?tail" using c(4) by (simp add: series_rows_def Let_def)
  have d: "list_all2 (\<lambda>part span. delivers kline_read_planned span part) (rev parts) (rev spans)"
    using c(3) unfolding list_all2_conv_all_nth by (auto simp: rev_nth)
  obtain f where f: "\<forall>span \<in> set (rev spans). length (cf_file (rs_file span)) < 2 ^ 63 \<and> rs_rows span < 2 ^ 64
      \<and> kline_read_planned span (rs_rows span) = Inr (f span)" "map f (rev spans) = map (\<lambda>x. x) (rev parts)"
    by (rule delivered_spans [OF d])
  have "length ?tail * kline_BYTE_SIZE \<le> length (series_rows rows_of meta) * kline_BYTE_SIZE"
    by (rule mult_le_mono1) simp
  also have "\<dots> < 2 ^ 64" using rd by (simp add: readable_series_def kline_BYTE_SIZE_def)
  finally have small: "length ?tail * kline_BYTE_SIZE < 2 ^ 64" .
  have "read_spans (fk_read_pool st) (rev spans) kline_BYTE_SIZE kline_read_planned = Inr ?tail"
    using kline_spans.read_spans_exact [OF f(1)] small unfolding f(2) by (simp only: map_ident out)
  then show ?thesis using False c(1,2)
    by (intro exI [of _ rt]) (simp add: get_kline_latest_n_prepared_def on_runtime_def)
qed

text \<open>The reads of the families without planned spans, on any series whose manifest loads.\<close>

context fixed_record
begin

lemma range_exact:
  assumes l: "load_fixed_meta E st symbol category name = (st1, Inr meta)"
    and rd: "readable_series R wf where_is st1 (series_dir (fk_root st1) symbol category name) meta rows_of"
  shows "\<exists>st'. get_fixed_range R E st symbol category name a b = (st', Inr (filter (in_range (ts_of R) a b) (series_rows rows_of meta)))"
proof -
  let ?dir = "series_dir (fk_root st1) symbol category name"
  obtain i j where w: "find_chunks_for_range meta a b = (i, j)" by fastforce
  show ?thesis
  proof (cases "a > b \<or> \<not> i < j")
    case True
    then show ?thesis using no_window [OF rd w True] l w by (auto simp: get_fixed_range_def with_meta_def)
  next
    case False
    have co: "coherent (fk_files st1) where_is (fk_chunk_runtime st1)" using rd by (simp add: readable_series_def)
    have "\<forall>c \<in> set (slice_of i j (sm_chunks meta)). located R wf (fk_files st1) where_is ?dir (sm_series_id meta) rows_of c"
      using readable_located [OF rd] by (auto dest: set_slice_subset)
    from ranges.try_each_ok [OF co this, of a b "[]"] show ?thesis
      using False l w series_range [OF _ w, of R wf "fk_files st1" ?dir rows_of] rd
      by (auto simp: get_fixed_range_def with_meta_def on_runtime_def readable_series_def)
  qed
qed

lemma latest_exact:
  assumes l: "load_fixed_meta E st symbol category name = (st1, Inr meta)"
    and rd: "readable_series R wf where_is st1 (series_dir (fk_root st1) symbol category name) meta rows_of"
  shows "\<exists>st'. get_fixed_latest_n R E st symbol category name n
    = (st', Inr (drop (length (series_rows rows_of meta) - n) (series_rows rows_of meta)))"
proof (cases "n = 0")
  case True
  then show ?thesis by (simp add: get_fixed_latest_n_def)
next
  case False
  let ?dir = "series_dir (fk_root st1) symbol category name"
  have co: "coherent (fk_files st1) where_is (fk_chunk_runtime st1)" using rd by (simp add: readable_series_def)
  have "\<forall>c \<in> set (rev (sm_chunks meta)). located R wf (fk_files st1) where_is ?dir (sm_series_id meta) rows_of c"
    using readable_located [OF rd] by simp
  from tails.collect_tail_ok [OF co this, of n] obtain rt ys parts where
      c: "collect_tail (\<lambda>rt c n. fixed_read_tail_in_chunk R (fk_files st1) rt ?dir (sm_series_id meta) c n)
        (fk_chunk_runtime st1) (rev (sm_chunks meta)) n = (rt, Inr ys)" "list_all2 (\<lambda>y part. y = part) ys parts"
      "concat (rev parts) = (let all = concat (map rows_of (rev (rev (sm_chunks meta)))) in drop (length all - n) all)"
    by blast
  from c(2) have "ys = parts" by (simp add: list.rel_eq)
  then show ?thesis using False l c(1,3)
    by (simp add: get_fixed_latest_n_def with_meta_def on_runtime_def series_rows_def Let_def)
qed

end

end
