(* ===== verification/ScalarStore.thy ===== *)
theory ScalarStore
  imports StoreReads
begin

text \<open>
  Predicate queries over scalar series (\<^verbatim>\<open>src/src/store_core/engine/store.rs\<close>): the sidecars of a
  chunk, the three ways to find the timestamps that satisfy a predicate, and the predicate query
  that picks an index per chunk. Whatever it picks, the answer is the rows of the series that
  lie in the time range and satisfy the predicate. A call that goes through the sidecar cache is
  \<open>None\<close> if its eviction loop does not return.
\<close>

text \<open>\<open>to_string_lossy\<close> of a path in its normal form.\<close>

fun join_with :: "string \<Rightarrow> string list \<Rightarrow> string" where
  "join_with sep [] = []"
| "join_with sep [p] = p"
| "join_with sep (p # ps) = p @ sep @ join_with sep ps"

definition path_string :: "path \<Rightarrow> string" where
  "path_string p = (if has_root p then ''/'' else []) @ join_with ''/'' (comps p)"

text \<open>\<open>?\<close> in a call that changes the store.\<close>

definition ok_then ::
  "('s \<times> 'a res) option \<Rightarrow> ('s \<Rightarrow> 'a \<Rightarrow> ('s \<times> 'b res) option) \<Rightarrow> ('s \<times> 'b res) option" where
  "ok_then m f =
     (case m of
        None \<Rightarrow> None
      | Some (s, Inl e) \<Rightarrow> Some (s, Inl e)
      | Some (s, Inr x) \<Rightarrow> f s x)"

lemma ok_then_simps [simp]:
  "ok_then None f = None" "ok_then (Some (s, Inl e)) f = Some (s, Inl e)" "ok_then (Some (s, Inr x)) f = f s x"
  by (simp_all add: ok_then_def)

fun try_chunks :: "('s \<Rightarrow> 'x \<Rightarrow> 'a \<Rightarrow> ('s \<times> 'a res) option) \<Rightarrow> 's \<Rightarrow> 'x list \<Rightarrow> 'a \<Rightarrow> ('s \<times> 'a res) option" where
  "try_chunks step s [] acc = Some (s, Inr acc)"
| "try_chunks step s (x # xs) acc = ok_then (step s x acc) (\<lambda>s acc. try_chunks step s xs acc)"

section \<open>Sidecars of a chunk\<close>

definition has_sidecar_kind :: "ChunkMeta \<Rightarrow> string \<Rightarrow> bool" where
  "has_sidecar_kind chunk kind \<longleftrightarrow> list_ex (\<lambda>s. sc_kind s = kind) (cm_sidecars chunk)"

definition load_sidecar_path :: "path \<Rightarrow> ChunkMeta \<Rightarrow> string \<Rightarrow> path res" where
  "load_sidecar_path dir chunk kind =
     (case find (\<lambda>s. sc_kind s = kind) (cm_sidecars chunk) of
        None \<Rightarrow> Inl (NotFound ''missing sidecar for chunk'')
      | Some sidecar \<Rightarrow> Inr (resolve_relative_path dir (sc_relative_path sidecar)))"

definition sidecar_cache_key :: "ChunkMeta \<Rightarrow> string \<Rightarrow> path \<Rightarrow> SidecarCacheKey" where
  "sidecar_cache_key chunk kind sidecar =
     \<lparr>sk_generation = cm_generation chunk,
      sk_checksum = (case find (\<lambda>s. sc_kind s = kind) (cm_sidecars chunk) of None \<Rightarrow> 0 | Some s \<Rightarrow> sc_checksum s),
      sk_relative_path = path_string sidecar\<rparr>"

definition chunk_zmap :: "FastKStore \<Rightarrow> path \<Rightarrow> ChunkMeta \<Rightarrow> (FastKStore \<times> ZoneMapEntry list res) option" where
  "chunk_zmap st dir chunk =
     (case load_sidecar_path dir chunk ''zmap'' of
        Inl e \<Rightarrow> Some (st, Inl e)
      | Inr sidecar \<Rightarrow>
          map_option (\<lambda>(sr, r). (st\<lparr>fk_scalar_sidecars := sr\<rparr>, r))
            (get_zmap (fk_files st) (fk_scalar_sidecars st) (sidecar_cache_key chunk ''zmap'' sidecar) sidecar))"

definition chunk_vix :: "FastKStore \<Rightarrow> path \<Rightarrow> ChunkMeta \<Rightarrow> (FastKStore \<times> ValueIndexEntry list res) option" where
  "chunk_vix st dir chunk =
     (case load_sidecar_path dir chunk ''vix'' of
        Inl e \<Rightarrow> Some (st, Inl e)
      | Inr sidecar \<Rightarrow>
          map_option (\<lambda>(sr, r). (st\<lparr>fk_scalar_sidecars := sr\<rparr>, r))
            (get_vix (fk_files st) (fk_scalar_sidecars st) (sidecar_cache_key chunk ''vix'' sidecar) sidecar))"

section \<open>Timestamps that satisfy a predicate\<close>

datatype ScalarQueryStrategy = Zmap | Vix | Raw

definition query_scalar_via_zmap ::
  "FastKStore \<Rightarrow> path \<Rightarrow> ChunkMeta \<Rightarrow> ScalarPredicate \<Rightarrow> i64 \<Rightarrow> i64 \<Rightarrow> (FastKStore \<times> i64 list res) option" where
  "query_scalar_via_zmap st dir chunk p start_ts end_ts =
     ok_then (chunk_zmap st dir chunk) (\<lambda>st entries.
     Some (st,
       and_then (candidate_row_ranges entries p start_ts end_ts) (\<lambda>row_ranges.
       if row_ranges = [] then Inr []
       else
         and_then (scalar_read_row_ranges (fk_files st) (resolve_relative_path dir (cm_relative_path chunk))
           (merge_row_ranges row_ranges)) (\<lambda>records.
         and_then (push_matching p start_ts end_ts records []) (\<lambda>timestamps.
         Inr (sort_dedup timestamps))))))"

definition query_scalar_via_vix ::
  "FastKStore \<Rightarrow> path \<Rightarrow> ScalarSeriesKey \<Rightarrow> ChunkMeta \<Rightarrow> ScalarPredicate \<Rightarrow> i64 \<Rightarrow> i64 \<Rightarrow> (FastKStore \<times> i64 list res) option" where
  "query_scalar_via_vix st dir key chunk p start_ts end_ts =
     ok_then (chunk_vix st dir chunk) (\<lambda>st entries.
     Some (st, find_timestamps_via_vix key entries p start_ts end_ts))"

definition query_scalar_via_raw_scan ::
  "FastKStore \<Rightarrow> path \<Rightarrow> u64 \<Rightarrow> ChunkMeta \<Rightarrow> ScalarPredicate \<Rightarrow> i64 \<Rightarrow> i64 \<Rightarrow> (FastKStore \<times> i64 list res) option" where
  "query_scalar_via_raw_scan st dir series_id chunk p start_ts end_ts =
     (let (st', r) = on_runtime st (\<lambda>rt.
            drop_path (scalar_append_range_in_chunk (fk_files st) rt dir series_id chunk start_ts end_ts [])) in
      Some (st', and_then r (\<lambda>records. push_matching p start_ts end_ts records [])))"

definition find_scalar_timestamps_prepared ::
  "FastKStore \<Rightarrow> path \<Rightarrow> SeriesMeta \<Rightarrow> ScalarSeriesKey \<Rightarrow> ScalarPredicate \<Rightarrow> i64 \<Rightarrow> i64 \<Rightarrow> ScalarQueryStrategy \<Rightarrow>
   (FastKStore \<times> i64 list res) option" where
  "find_scalar_timestamps_prepared st dir meta key p start_ts end_ts strategy =
     (if start_ts > end_ts then Some (st, Inr [])
      else
        let (a, b) = find_chunks_for_range meta start_ts end_ts in
        if \<not> a < b then Some (st, Inr [])
        else
          ok_then
            (try_chunks (\<lambda>st chunk timestamps.
                ok_then
                  (case strategy of
                     Zmap \<Rightarrow> query_scalar_via_zmap st dir chunk p start_ts end_ts
                   | Vix \<Rightarrow> query_scalar_via_vix st dir key chunk p start_ts end_ts
                   | Raw \<Rightarrow> query_scalar_via_raw_scan st dir (sm_series_id meta) chunk p start_ts end_ts)
                  (\<lambda>st found. Some (st, Inr (timestamps @ found))))
              st (slice_of a b (sm_chunks meta)) [])
            (\<lambda>st timestamps. Some (st, Inr (sort_dedup timestamps))))"

definition find_scalar_timestamps ::
  "Env \<Rightarrow> FastKStore \<Rightarrow> ScalarSeriesKey \<Rightarrow> ScalarPredicate \<Rightarrow> i64 \<Rightarrow> i64 \<Rightarrow> ScalarQueryStrategy \<Rightarrow>
   (FastKStore \<times> i64 list res) option" where
  "find_scalar_timestamps E st key p start_ts end_ts strategy =
     (if start_ts > end_ts then Some (st, Inr [])
      else
        ok_then (Some (load_scalar_meta E st key)) (\<lambda>st meta.
        find_scalar_timestamps_prepared st
          (scalar_series_dir (fk_root st) (key_symbol key) (key_category key) (key_name key)) meta key p start_ts end_ts strategy))"

definition find_scalar_timestamps_via_zmap ::
  "Env \<Rightarrow> FastKStore \<Rightarrow> ScalarSeriesKey \<Rightarrow> ScalarPredicate \<Rightarrow> i64 \<Rightarrow> i64 \<Rightarrow> (FastKStore \<times> i64 list res) option" where
  "find_scalar_timestamps_via_zmap E st key p start_ts end_ts = find_scalar_timestamps E st key p start_ts end_ts Zmap"

definition find_scalar_timestamps_via_vix ::
  "Env \<Rightarrow> FastKStore \<Rightarrow> ScalarSeriesKey \<Rightarrow> ScalarPredicate \<Rightarrow> i64 \<Rightarrow> i64 \<Rightarrow> (FastKStore \<times> i64 list res) option" where
  "find_scalar_timestamps_via_vix E st key p start_ts end_ts = find_scalar_timestamps E st key p start_ts end_ts Vix"

definition find_scalar_timestamps_raw ::
  "Env \<Rightarrow> FastKStore \<Rightarrow> ScalarSeriesKey \<Rightarrow> ScalarPredicate \<Rightarrow> i64 \<Rightarrow> i64 \<Rightarrow> (FastKStore \<times> i64 list res) option" where
  "find_scalar_timestamps_raw E st key p start_ts end_ts = find_scalar_timestamps E st key p start_ts end_ts Raw"

definition find_indicator_timestamps_via_zmap ::
  "Env \<Rightarrow> FastKStore \<Rightarrow> string \<Rightarrow> string \<Rightarrow> string \<Rightarrow> ScalarPredicate \<Rightarrow> i64 \<Rightarrow> i64 \<Rightarrow> (FastKStore \<times> i64 list res) option" where
  "find_indicator_timestamps_via_zmap E st symbol timeframe name p start_ts end_ts =
     find_scalar_timestamps_via_zmap E st (indicator_series_key symbol timeframe name) p start_ts end_ts"

definition find_indicator_timestamps_via_vix ::
  "Env \<Rightarrow> FastKStore \<Rightarrow> string \<Rightarrow> string \<Rightarrow> string \<Rightarrow> ScalarPredicate \<Rightarrow> i64 \<Rightarrow> i64 \<Rightarrow> (FastKStore \<times> i64 list res) option" where
  "find_indicator_timestamps_via_vix E st symbol timeframe name p start_ts end_ts =
     find_scalar_timestamps_via_vix E st (indicator_series_key symbol timeframe name) p start_ts end_ts"

section \<open>Predicate queries\<close>

record ScalarPredicateQueryResult =
  qr_matches :: "ScalarPredicateMatch list"
  qr_stats :: ScalarPredicateQueryStats

definition validate_scalar_predicate_query :: "ScalarPredicateQuery \<Rightarrow> unit res" where
  "validate_scalar_predicate_query query =
     and_then (ensure (\<not> (is_blank (key_symbol (q_key query)) \<or> is_blank (key_category (q_key query))
         \<or> is_blank (key_name (q_key query))))
       (InvalidInput ''scalar predicate query key fields must not be empty'')) (\<lambda>_.
     and_then (ensure (\<not> q_start_ts query > q_end_ts query)
       (InvalidInput ''scalar predicate query start_ts must be <= end_ts'')) (\<lambda>_.
     expr_validate (q_predicate query)))"

definition mark_index_used :: "ScalarPredicateQueryStats \<Rightarrow> ScalarIndexKind \<Rightarrow> ScalarPredicateQueryStats" where
  "mark_index_used stats kind =
     stats\<lparr>st_index_used :=
       (case st_index_used stats of
          None \<Rightarrow> Some kind
        | Some used \<Rightarrow>
            if used = FullScanIndex then Some kind
            else if kind = FullScanIndex then Some used
            else if used = ZoneMap \<and> kind = ValueIndex \<or> used = ValueIndex \<and> kind = ZoneMap \<or> used = ZoneMapAndValueIndex
              then Some ZoneMapAndValueIndex
            else if used = kind then Some used
            else Some ZoneMapAndValueIndex)\<rparr>"

definition match_of :: "ScalarPredicateQuery \<Rightarrow> i64 \<Rightarrow> i64 \<Rightarrow> ScalarPredicateMatch" where
  "match_of query ts v = \<lparr>pm_ts = ts, pm_value = (if q_return_values query then Some v else None)\<rparr>"

type_synonym matches = "ScalarPredicateMatch list \<times> ScalarPredicateQueryStats"

definition add_u64 :: "u64 \<Rightarrow> nat \<Rightarrow> u64" where
  "add_u64 counter n = saturating_add counter (word_of_nat n)"

definition query_scalar_predicate_via_zmap ::
  "FastKStore \<Rightarrow> path \<Rightarrow> ChunkMeta \<Rightarrow> ScalarPredicateQuery \<Rightarrow> matches \<Rightarrow> (FastKStore \<times> matches res) option" where
  "query_scalar_predicate_via_zmap st dir chunk query = (\<lambda>(matches, stats).
     ok_then (chunk_zmap st dir chunk) (\<lambda>st entries.
     let blocks_considered = length (filter (\<lambda>e. z_end_ts e \<ge> q_start_ts query \<and> z_start_ts e \<le> q_end_ts query) entries);
         stats = stats\<lparr>st_blocks_considered := add_u64 (st_blocks_considered stats) blocks_considered\<rparr> in
     Some (st,
       and_then (candidate_row_ranges_for_expr entries (q_predicate query) (q_start_ts query) (q_end_ts query)) (\<lambda>row_ranges.
       let stats = stats\<lparr>st_blocks_pruned := add_u64 (st_blocks_pruned stats) (blocks_considered - length row_ranges)\<rparr> in
       if row_ranges = [] then Inr (matches, stats\<lparr>st_chunks_pruned := add_u64 (st_chunks_pruned stats) 1\<rparr>)
       else
         let merged = merge_row_ranges row_ranges;
             stats = stats\<lparr>st_blocks_scanned := add_u64 (st_blocks_scanned stats) (length merged),
                           st_chunks_scanned := add_u64 (st_chunks_scanned stats) 1\<rparr> in
         and_then (scalar_read_row_ranges (fk_files st) (resolve_relative_path dir (cm_relative_path chunk)) merged) (\<lambda>records.
         let stats = stats\<lparr>st_rows_checked := add_u64 (st_rows_checked stats) (length records)\<rparr> in
         Inr (matches @ map (\<lambda>r. match_of query (s_ts r) (s_value r))
             (filter (\<lambda>r. s_ts r \<ge> q_start_ts query \<and> s_ts r \<le> q_end_ts query
                \<and> expr_matches (q_predicate query) (s_value r)) records), stats))))))"

text \<open>The loop over the slices, which counts each slice before it looks at its entries.\<close>

fun vix_scan_slices ::
  "ValueIndexEntry list \<Rightarrow> ScalarPredicateQuery \<Rightarrow> (nat \<times> nat) list \<Rightarrow> matches \<Rightarrow> matches" where
  "vix_scan_slices entries query [] acc = acc"
| "vix_scan_slices entries query ((a, b) # slices) (matches, stats) =
     vix_scan_slices entries query slices
       (matches @ map (\<lambda>e. match_of query (v_ts e) (v_value e))
          (filter (\<lambda>e. v_ts e \<ge> q_start_ts query \<and> v_ts e \<le> q_end_ts query
             \<and> expr_matches (q_predicate query) (v_value e)) (slice_of a b entries)),
        stats\<lparr>st_rows_checked := add_u64 (st_rows_checked stats) (b - a)\<rparr>)"

definition query_scalar_predicate_via_vix ::
  "FastKStore \<Rightarrow> path \<Rightarrow> ChunkMeta \<Rightarrow> ScalarPredicateQuery \<Rightarrow> matches \<Rightarrow> (FastKStore \<times> matches res) option" where
  "query_scalar_predicate_via_vix st dir chunk query = (\<lambda>(matches, stats).
     ok_then (chunk_vix st dir chunk) (\<lambda>st entries.
     Some (st,
       and_then (matching_slices_for_expr entries (q_predicate query)) (\<lambda>slices.
       if slices = [] then Inr (matches, stats\<lparr>st_chunks_pruned := add_u64 (st_chunks_pruned stats) 1\<rparr>)
       else Inr (vix_scan_slices entries query slices
         (matches, stats\<lparr>st_chunks_scanned := add_u64 (st_chunks_scanned stats) 1\<rparr>))))))"

definition query_scalar_predicate_via_raw_scan ::
  "FastKStore \<Rightarrow> path \<Rightarrow> u64 \<Rightarrow> ChunkMeta \<Rightarrow> ScalarPredicateQuery \<Rightarrow> matches \<Rightarrow> (FastKStore \<times> matches res) option" where
  "query_scalar_predicate_via_raw_scan st dir series_id chunk query = (\<lambda>(matches, stats).
     let (st', r) = on_runtime st (\<lambda>rt.
           drop_path (scalar_append_range_in_chunk (fk_files st) rt dir series_id chunk (q_start_ts query) (q_end_ts query) [])) in
     Some (st',
       and_then r (\<lambda>records.
       if records = [] then Inr (matches, stats)
       else
         Inr (matches @ map (\<lambda>r. match_of query (s_ts r) (s_value r))
             (filter (\<lambda>r. expr_matches (q_predicate query) (s_value r)) records),
           stats\<lparr>st_chunks_scanned := add_u64 (st_chunks_scanned stats) 1,
                 st_rows_checked := add_u64 (st_rows_checked stats) (length records)\<rparr>))))"

text \<open>One chunk of the loop: the index that fits the predicate and that the chunk has.\<close>

definition query_chunk ::
  "path \<Rightarrow> u64 \<Rightarrow> ScalarPredicateQuery \<Rightarrow> FastKStore \<Rightarrow> ChunkMeta \<Rightarrow> matches \<Rightarrow> (FastKStore \<times> matches res) option" where
  "query_chunk dir series_id query st chunk = (\<lambda>(matches, stats).
     let stats = stats\<lparr>st_chunks_considered := add_u64 (st_chunks_considered stats) 1\<rparr> in
     if expr_is_discrete_lookup_like (q_predicate query) \<and> has_sidecar_kind chunk ''vix'' then
       query_scalar_predicate_via_vix st dir chunk query (matches, mark_index_used stats ValueIndex)
     else if expr_is_continuous_range_like (q_predicate query) \<and> has_sidecar_kind chunk ''zmap'' then
       query_scalar_predicate_via_zmap st dir chunk query (matches, mark_index_used stats ZoneMap)
     else
       query_scalar_predicate_via_raw_scan st dir series_id chunk query
         (matches, (mark_index_used stats FullScanIndex)\<lparr>st_fallback_scan := True\<rparr>))"

definition query_scalar_predicate_prepared ::
  "FastKStore \<Rightarrow> path \<Rightarrow> SeriesMeta \<Rightarrow> ScalarPredicateQuery \<Rightarrow> (FastKStore \<times> ScalarPredicateQueryResult res) option" where
  "query_scalar_predicate_prepared st dir meta query =
     (let (a, b) = find_chunks_for_range meta (q_start_ts query) (q_end_ts query) in
      if \<not> a < b then Some (st, Inr \<lparr>qr_matches = [], qr_stats = stats_default\<rparr>)
      else
        ok_then (try_chunks (query_chunk dir (sm_series_id meta) query) st (slice_of a b (sm_chunks meta)) ([], stats_default))
          (\<lambda>st (matches, stats).
            let matches = sort_key pm_ts matches in
            Some (st, Inr \<lparr>qr_matches = matches, qr_stats = stats\<lparr>st_rows_matched := word_of_nat (length matches)\<rparr>\<rparr>)))"

definition query_scalar_predicate ::
  "Env \<Rightarrow> FastKStore \<Rightarrow> ScalarPredicateQuery \<Rightarrow> (FastKStore \<times> ScalarPredicateQueryResult res) option" where
  "query_scalar_predicate E st query =
     (case validate_scalar_predicate_query query of
        Inl e \<Rightarrow> Some (st, Inl e)
      | Inr _ \<Rightarrow>
          if expr_is_impossible (q_predicate query) then Some (st, Inr \<lparr>qr_matches = [], qr_stats = stats_default\<rparr>)
          else
            ok_then (Some (load_scalar_meta E st (q_key query))) (\<lambda>st meta.
            query_scalar_predicate_prepared st
              (scalar_series_dir (fk_root st) (key_symbol (q_key query)) (key_category (q_key query)) (key_name (q_key query)))
              meta query))"

definition find_scalar_timestamps_by_predicate ::
  "Env \<Rightarrow> FastKStore \<Rightarrow> ScalarSeriesKey \<Rightarrow> i64 \<Rightarrow> i64 \<Rightarrow> ScalarPredicateExpr \<Rightarrow> (FastKStore \<times> i64 list res) option" where
  "find_scalar_timestamps_by_predicate E st key start_ts end_ts p =
     ok_then (query_scalar_predicate E st
         \<lparr>q_key = key, q_start_ts = start_ts, q_end_ts = end_ts, q_predicate = p, q_return_values = False\<rparr>) (\<lambda>st result.
     Some (st, Inr (map pm_ts (qr_matches result))))"

definition find_scalar_points_by_predicate ::
  "Env \<Rightarrow> FastKStore \<Rightarrow> ScalarSeriesKey \<Rightarrow> i64 \<Rightarrow> i64 \<Rightarrow> ScalarPredicateExpr \<Rightarrow> (FastKStore \<times> ScalarRecord list res) option" where
  "find_scalar_points_by_predicate E st key start_ts end_ts p =
     ok_then (query_scalar_predicate E st
         \<lparr>q_key = key, q_start_ts = start_ts, q_end_ts = end_ts, q_predicate = p, q_return_values = True\<rparr>) (\<lambda>st result.
     Some (st, Inr (List.map_filter (\<lambda>m. map_option (\<lambda>v. \<lparr>s_ts = pm_ts m, s_value = v\<rparr>) (pm_value m)) (qr_matches result))))"

record ScalarQueryCapabilities =
  qc_raw_scan :: bool
  qc_has_zmap :: bool
  qc_has_vix :: bool

definition capabilities_from_meta :: "SeriesMeta \<Rightarrow> ScalarQueryCapabilities" where
  "capabilities_from_meta meta =
     \<lparr>qc_raw_scan = True,
      qc_has_zmap = list_ex (\<lambda>s. sc_kind s = ''zmap'') (concat (map cm_sidecars (sm_chunks meta))),
      qc_has_vix = list_ex (\<lambda>s. sc_kind s = ''vix'') (concat (map cm_sidecars (sm_chunks meta)))\<rparr>"

definition scalar_query_capabilities ::
  "Env \<Rightarrow> FastKStore \<Rightarrow> ScalarSeriesKey \<Rightarrow> FastKStore \<times> ScalarQueryCapabilities res" where
  "scalar_query_capabilities E st key = with_meta (load_scalar_meta E st key) (\<lambda>st meta. (st, Inr (capabilities_from_meta meta)))"

end
