(* ===== verification/Validation.thy ===== *)
theory Validation
  imports Recovery ScalarStore
begin

text \<open>
  Validation of a store (\<^verbatim>\<open>src/src/store_core/storage/recovery.rs\<close>): the comparison of a manifest with
  the files of its series, the store-wide reports, scrubbing, orphans and overlap explanations, the
  rebuilding of all manifests, and recovery behind the store lock. None of the reports changes the
  disk. A report is clean exactly if manifest and files agree.
\<close>

record ManifestValidation =
  mv_series_dir :: path
  mv_manifest_exists :: bool
  mv_missing_chunks :: "string list"
  mv_missing_sidecars :: "string list"
  mv_checksum_mismatches :: "string list"
  mv_chunk_metadata_mismatches :: "string list"
  mv_sidecar_consistency_issues :: "string list"
  mv_untracked_chunks :: "string list"
  mv_untracked_sidecars :: "string list"
  mv_overlap_groups :: "string list list"

definition validation_is_clean :: "ManifestValidation \<Rightarrow> bool" where
  "validation_is_clean v \<longleftrightarrow>
     mv_manifest_exists v \<and> mv_missing_chunks v = [] \<and> mv_missing_sidecars v = [] \<and> mv_checksum_mismatches v = []
     \<and> mv_chunk_metadata_mismatches v = [] \<and> mv_sidecar_consistency_issues v = [] \<and> mv_untracked_chunks v = []
     \<and> mv_untracked_sidecars v = [] \<and> mv_overlap_groups v = []"

record OrphanArtifact =
  oa_series_dir :: path
  oa_relative_path :: string
  oa_kind :: string
  oa_reason :: string

record ValidationOptions =
  vo_verbose :: bool
  vo_revalidate_checksums :: bool

definition validation_options_default :: ValidationOptions where
  "validation_options_default = \<lparr>vo_verbose = False, vo_revalidate_checksums = False\<rparr>"

record ScrubSeriesReport =
  sr_validation :: ManifestValidation
  sr_checked_chunk_count :: nat
  sr_checked_sidecar_count :: nat
  sr_overlap_resolutions :: "OverlapResolution list"
  sr_diagnostics :: "string list"

section \<open>One series\<close>

text \<open>The lists that the loops of \<open>validate_series_dir\<close> fill, in the order in which they push.\<close>

definition validate_sidecar_content :: "fs_state \<Rightarrow> path \<Rightarrow> SidecarMeta \<Rightarrow> SidecarMeta \<Rightarrow> string list" where
  "validate_sidecar_content s dir expected actual =
     (let sidecar_path = resolve_relative_path dir (sc_relative_path actual) in
      if sc_kind actual = ''zmap'' then
        (case zmap_read_entries (visible s) sidecar_path of
           Inr entries \<Rightarrow>
             (if sc_record_count expected \<noteq> 0 \<and> sc_record_count expected \<noteq> word_of_nat (length entries)
              then [sc_relative_path actual] else [])
             @ (if sc_block_size expected \<noteq> 0 \<and> sc_block_size actual \<noteq> 0 \<and> sc_block_size expected \<noteq> sc_block_size actual
                then [sc_relative_path actual] else [])
         | Inl _ \<Rightarrow> [sc_relative_path actual])
      else if sc_kind actual = ''vix'' then
        (case vix_read_entries (visible s) sidecar_path of
           Inr entries \<Rightarrow>
             if sc_record_count expected \<noteq> 0 \<and> sc_record_count expected \<noteq> word_of_nat (length entries)
             then [sc_relative_path actual] else []
         | Inl _ \<Rightarrow> [sc_relative_path actual])
      else [sc_relative_path actual])"

definition chunk_metadata_differs :: "ChunkMeta \<Rightarrow> ChunkMeta \<Rightarrow> bool" where
  "chunk_metadata_differs chunk actual \<longleftrightarrow>
     cm_chunk_id chunk \<noteq> cm_chunk_id actual \<or> cm_generation chunk \<noteq> cm_generation actual \<or> cm_count chunk \<noteq> cm_count actual
     \<or> cm_start_ts chunk \<noteq> cm_start_ts actual \<or> cm_end_ts chunk \<noteq> cm_end_ts actual
     \<or> cm_layout_version chunk \<noteq> cm_layout_version actual \<or> cm_header_len chunk \<noteq> cm_header_len actual
     \<or> cm_sparse_index_every chunk \<noteq> cm_sparse_index_every actual
     \<or> cm_sparse_index_offset chunk \<noteq> cm_sparse_index_offset actual \<or> cm_sparse_index_len chunk \<noteq> cm_sparse_index_len actual"

definition sidecar_differs :: "SidecarMeta \<Rightarrow> SidecarMeta \<Rightarrow> bool" where
  "sidecar_differs sidecar actual \<longleftrightarrow>
     sc_kind sidecar \<noteq> sc_kind actual
     \<or> sc_generation sidecar \<noteq> 0 \<and> sc_generation actual \<noteq> 0 \<and> sc_generation sidecar \<noteq> sc_generation actual"

definition check_sidecar ::
  "fs_state \<Rightarrow> path \<Rightarrow> ValidationOptions \<Rightarrow> (string \<rightharpoonup> SidecarMeta) \<Rightarrow> ManifestValidation \<Rightarrow> SidecarMeta \<Rightarrow> ManifestValidation" where
  "check_sidecar s dir options fs_sidecars v sidecar =
     (case fs_sidecars (sc_relative_path sidecar) of
        None \<Rightarrow> v\<lparr>mv_missing_sidecars := mv_missing_sidecars v @ [sc_relative_path sidecar]\<rparr>
      | Some actual \<Rightarrow>
          v\<lparr>mv_checksum_mismatches := mv_checksum_mismatches v @
              (if vo_revalidate_checksums options \<and> sc_checksum sidecar \<noteq> 0 \<and> sc_checksum sidecar \<noteq> sc_checksum actual
               then [sc_relative_path sidecar] else []),
            mv_sidecar_consistency_issues := mv_sidecar_consistency_issues v
              @ (if sidecar_differs sidecar actual then [sc_relative_path sidecar] else [])
              @ validate_sidecar_content s dir sidecar actual\<rparr>)"

definition check_chunk ::
  "fs_state \<Rightarrow> path \<Rightarrow> ValidationOptions \<Rightarrow> (string \<rightharpoonup> ChunkMeta) \<Rightarrow> (string \<rightharpoonup> SidecarMeta) \<Rightarrow> ManifestValidation \<Rightarrow> ChunkMeta \<Rightarrow>
   ManifestValidation" where
  "check_chunk s dir options fs_chunks fs_sidecars v chunk =
     (let v =
        (case fs_chunks (cm_relative_path chunk) of
           None \<Rightarrow> v\<lparr>mv_missing_chunks := mv_missing_chunks v @ [cm_relative_path chunk]\<rparr>
         | Some actual \<Rightarrow>
             v\<lparr>mv_checksum_mismatches := mv_checksum_mismatches v @
                 (if vo_revalidate_checksums options \<and> cm_chunk_checksum chunk \<noteq> 0 \<and> cm_chunk_checksum chunk \<noteq> cm_chunk_checksum actual
                  then [cm_relative_path chunk] else []),
               mv_chunk_metadata_mismatches := mv_chunk_metadata_mismatches v @
                 (if chunk_metadata_differs chunk actual then [cm_relative_path chunk] else [])\<rparr>) in
      foldl (check_sidecar s dir options fs_sidecars) v (cm_sidecars chunk))"

text \<open>
  The maps by relative path. A directory lists a name once, so that the keys are the scanned
  paths; the hash map iterates over them in an unspecified order, here the order of the scan.
\<close>

definition validate_series_dir :: "Env \<Rightarrow> ManifestStore \<Rightarrow> path \<Rightarrow> ValidationOptions \<Rightarrow> ManifestValidation res" where
  "validate_series_dir E disk dir options =
     (let s = ms_fs disk; manifest_exists = fs_exists s (series_meta_path dir) in
      and_then (scan_chunk_files E s dir) (\<lambda>fs_chunks.
      and_then (scan_sidecar_files E s dir) (\<lambda>fs_sidecars.
      let empty = \<lparr>mv_series_dir = dir, mv_manifest_exists = manifest_exists, mv_missing_chunks = [], mv_missing_sidecars = [],
            mv_checksum_mismatches = [], mv_chunk_metadata_mismatches = [], mv_sidecar_consistency_issues = [],
            mv_untracked_chunks = [], mv_untracked_sidecars = [], mv_overlap_groups = []\<rparr> in
      if \<not> manifest_exists then
        Inr (empty\<lparr>mv_untracked_chunks := map cm_relative_path fs_chunks, mv_untracked_sidecars := map sc_relative_path fs_sidecars,
          mv_overlap_groups := overlap_groups_as_strings fs_chunks\<rparr>)
      else
        and_then (snd (load_disk E disk dir True)) (\<lambda>meta.
        let chunk_map = map_of (rev (map (\<lambda>c. (cm_relative_path c, c)) fs_chunks));
            sidecar_map = map_of (rev (map (\<lambda>c. (sc_relative_path c, c)) fs_sidecars));
            tracked_chunks = set (map cm_relative_path (sm_chunks meta));
            tracked_sidecars = set (map sc_relative_path (concat (map cm_sidecars (sm_chunks meta))));
            v = foldl (check_chunk s dir options chunk_map sidecar_map) empty (sm_chunks meta) in
        Inr (v\<lparr>mv_untracked_chunks := sort (filter (\<lambda>p. p \<notin> tracked_chunks) (map cm_relative_path fs_chunks)),
          mv_untracked_sidecars := sort (filter (\<lambda>p. p \<notin> tracked_sidecars) (map sc_relative_path fs_sidecars)),
          mv_overlap_groups := overlap_groups_as_strings (sm_chunks meta)\<rparr>)))))"

section \<open>The whole store\<close>

text \<open>The series of a store, none when its series directory does not exist.\<close>

definition series_dirs_of :: "nat \<Rightarrow> Env \<Rightarrow> fs_state \<Rightarrow> path \<Rightarrow> path list res option" where
  "series_dirs_of depth E s root =
     (if \<not> fs_exists s (series_root root) then Some (Inr []) else discover_series_dirs depth E s (series_root root))"

definition validate_manifest_vs_fs_with_options ::
  "nat \<Rightarrow> Env \<Rightarrow> ManifestStore \<Rightarrow> path \<Rightarrow> ValidationOptions \<Rightarrow> ManifestValidation list res option" where
  "validate_manifest_vs_fs_with_options depth E disk root options =
     map_option (\<lambda>dirs. and_then dirs (collect_res (\<lambda>dir. validate_series_dir E disk dir options)))
       (series_dirs_of depth E (ms_fs disk) root)"

definition validate_manifest_vs_fs :: "nat \<Rightarrow> Env \<Rightarrow> ManifestStore \<Rightarrow> path \<Rightarrow> ManifestValidation list res option" where
  "validate_manifest_vs_fs depth E disk root =
     validate_manifest_vs_fs_with_options depth E disk root validation_options_default"

definition validate_store :: "nat \<Rightarrow> Env \<Rightarrow> ManifestStore \<Rightarrow> path \<Rightarrow> unit res option" where
  "validate_store depth E disk root =
     map_option (\<lambda>validations. and_then validations (\<lambda>validations.
       case find (\<lambda>report. \<not> validation_is_clean report) validations of
         Some report \<Rightarrow> Inl (InvalidData ''store validation failed'')
       | None \<Rightarrow> Inr ())) (validate_manifest_vs_fs depth E disk root)"

text \<open>The winner is printed with \<open>{:?}\<close>, for paths without characters that it escapes.\<close>

definition build_scrub_diagnostics :: "ManifestValidation \<Rightarrow> OverlapResolution list \<Rightarrow> bool \<Rightarrow> string list" where
  "build_scrub_diagnostics v overlaps verbose =
     (if \<not> verbose then []
      else
        (if \<not> mv_manifest_exists v then [''manifest missing; rebuild recommended''] else [])
        @ (if mv_missing_chunks v \<noteq> [] then [''missing chunks: '' @ join_with '', '' (mv_missing_chunks v)] else [])
        @ (if mv_missing_sidecars v \<noteq> [] then [''missing sidecars: '' @ join_with '', '' (mv_missing_sidecars v)] else [])
        @ (if mv_chunk_metadata_mismatches v \<noteq> []
           then [''chunk metadata mismatches: '' @ join_with '', '' (mv_chunk_metadata_mismatches v)] else [])
        @ (if mv_sidecar_consistency_issues v \<noteq> []
           then [''sidecar consistency issues: '' @ join_with '', '' (mv_sidecar_consistency_issues v)] else [])
        @ map (\<lambda>o'. ''overlap '' @ or_month_key o' @ '' -> winner ''
            @ (case or_winner_relative_path o' of None \<Rightarrow> ''None'' | Some w \<Rightarrow> ''Some('' @ [CHR 0x22] @ w @ [CHR 0x22] @ '')'')
            @ '' ('' @ or_reason o' @ '')'') overlaps)"

definition scrub_series :: "Env \<Rightarrow> ManifestStore \<Rightarrow> ValidationOptions \<Rightarrow> path \<Rightarrow> ScrubSeriesReport res" where
  "scrub_series E disk options dir =
     and_then (validate_series_dir E disk dir options) (\<lambda>validation.
     and_then (scan_chunk_files E (ms_fs disk) dir) (\<lambda>cs.
     let overlaps = map choose_surviving_chunk_for_overlap (overlap_groups cs) in
     Inr \<lparr>sr_validation = validation, sr_checked_chunk_count = length cs,
          sr_checked_sidecar_count = sum_list (map (\<lambda>c. length (cm_sidecars c)) cs), sr_overlap_resolutions = overlaps,
          sr_diagnostics = build_scrub_diagnostics validation overlaps (vo_verbose options)\<rparr>))"

definition scrub_store :: "nat \<Rightarrow> Env \<Rightarrow> ManifestStore \<Rightarrow> path \<Rightarrow> ValidationOptions \<Rightarrow> ScrubSeriesReport list res option" where
  "scrub_store depth E disk root options =
     map_option (\<lambda>dirs. and_then dirs (collect_res (scrub_series E disk options))) (series_dirs_of depth E (ms_fs disk) root)"

definition orphans_of :: "path \<Rightarrow> ManifestValidation \<Rightarrow> OrphanArtifact list" where
  "orphans_of dir v =
     map (\<lambda>p. \<lparr>oa_series_dir = dir, oa_relative_path = p, oa_kind = ''chunk'',
       oa_reason = ''filesystem chunk is not referenced by manifest''\<rparr>) (mv_untracked_chunks v)
     @ map (\<lambda>p. \<lparr>oa_series_dir = dir, oa_relative_path = p, oa_kind = ''sidecar'',
       oa_reason = ''filesystem sidecar is not referenced by manifest''\<rparr>) (mv_untracked_sidecars v)"

definition scan_orphan_artifacts :: "nat \<Rightarrow> Env \<Rightarrow> ManifestStore \<Rightarrow> path \<Rightarrow> OrphanArtifact list res option" where
  "scan_orphan_artifacts depth E disk root =
     map_option (\<lambda>dirs. and_then dirs (\<lambda>dirs.
       and_then (collect_res (\<lambda>dir. and_then (validate_series_dir E disk dir validation_options_default) (\<lambda>v. Inr (orphans_of dir v))) dirs) (\<lambda>parts.
       Inr (concat parts)))) (series_dirs_of depth E (ms_fs disk) root)"

section \<open>Clean reports\<close>

text \<open>A sidecar and a chunk of the manifest that agree with the files.\<close>

definition sidecar_agrees :: "fs_state \<Rightarrow> path \<Rightarrow> ValidationOptions \<Rightarrow> (string \<rightharpoonup> SidecarMeta) \<Rightarrow> SidecarMeta \<Rightarrow> bool" where
  "sidecar_agrees s dir options fs_sidecars sidecar \<longleftrightarrow>
     (\<exists>actual. fs_sidecars (sc_relative_path sidecar) = Some actual \<and> \<not> sidecar_differs sidecar actual
       \<and> (vo_revalidate_checksums options \<longrightarrow> sc_checksum sidecar \<in> {0, sc_checksum actual})
       \<and> validate_sidecar_content s dir sidecar actual = [])"

definition chunk_agrees ::
  "fs_state \<Rightarrow> path \<Rightarrow> ValidationOptions \<Rightarrow> (string \<rightharpoonup> ChunkMeta) \<Rightarrow> (string \<rightharpoonup> SidecarMeta) \<Rightarrow> ChunkMeta \<Rightarrow> bool" where
  "chunk_agrees s dir options fs_chunks fs_sidecars chunk \<longleftrightarrow>
     (\<exists>actual. fs_chunks (cm_relative_path chunk) = Some actual \<and> \<not> chunk_metadata_differs chunk actual
       \<and> (vo_revalidate_checksums options \<longrightarrow> cm_chunk_checksum chunk \<in> {0, cm_chunk_checksum actual}))
     \<and> (\<forall>sidecar \<in> set (cm_sidecars chunk). sidecar_agrees s dir options fs_sidecars sidecar)"

definition quiet :: "ManifestValidation \<Rightarrow> bool" where
  "quiet v \<longleftrightarrow> mv_missing_chunks v = [] \<and> mv_missing_sidecars v = [] \<and> mv_checksum_mismatches v = []
     \<and> mv_chunk_metadata_mismatches v = [] \<and> mv_sidecar_consistency_issues v = []"

lemma quiet_sidecar: "quiet (check_sidecar s dir options m v sidecar) \<longleftrightarrow> quiet v \<and> sidecar_agrees s dir options m sidecar"
  by (auto simp: quiet_def check_sidecar_def sidecar_agrees_def split: option.splits)

lemma quiet_sidecars:
  "quiet (foldl (check_sidecar s dir options m) v sidecars) \<longleftrightarrow> quiet v \<and> (\<forall>sidecar \<in> set sidecars. sidecar_agrees s dir options m sidecar)"
  by (induction sidecars arbitrary: v) (auto simp: quiet_sidecar)

lemma quiet_chunk: "quiet (check_chunk s dir options c m v chunk) \<longleftrightarrow> quiet v \<and> chunk_agrees s dir options c m chunk"
  by (auto simp: check_chunk_def chunk_agrees_def quiet_sidecars split: option.splits) (auto simp: quiet_def)

lemma quiet_chunks:
  "quiet (foldl (check_chunk s dir options c m) v cs) \<longleftrightarrow> quiet v \<and> (\<forall>chunk \<in> set cs. chunk_agrees s dir options c m chunk)"
  by (induction cs arbitrary: v) (auto simp: quiet_chunk)

lemma check_sidecar_keeps:
  "mv_manifest_exists (check_sidecar s dir options m v sidecar) = mv_manifest_exists v"
  "\<not> vo_revalidate_checksums options \<Longrightarrow> mv_checksum_mismatches (check_sidecar s dir options m v sidecar) = mv_checksum_mismatches v"
  by (auto simp: check_sidecar_def split: option.splits)

lemma check_sidecars_keep:
  "mv_manifest_exists (foldl (check_sidecar s dir options m) v sidecars) = mv_manifest_exists v"
  "\<not> vo_revalidate_checksums options \<Longrightarrow> mv_checksum_mismatches (foldl (check_sidecar s dir options m) v sidecars) = mv_checksum_mismatches v"
  by (induction sidecars arbitrary: v) (auto simp: check_sidecar_keeps)

lemma check_chunks_keep:
  "mv_manifest_exists (foldl (check_chunk s dir options c m) v cs) = mv_manifest_exists v"
  "\<not> vo_revalidate_checksums options \<Longrightarrow> mv_checksum_mismatches (foldl (check_chunk s dir options c m) v cs) = mv_checksum_mismatches v"
  by (induction cs arbitrary: v) (auto simp: check_chunk_def check_sidecars_keep split: option.splits)

text \<open>No overlap group means that no two chunks overlap.\<close>

lemma overlap_groups_empty:
  assumes "overlap_groups cs = []" and "\<forall>c \<in> set cs. cm_start_ts c \<le> cm_end_ts c" and "distinct cs"
  shows "\<forall>c \<in> set cs. \<forall>d \<in> set cs. c \<noteq> d \<longrightarrow> separated c d"
proof (intro ballI impI)
  fix c d assume cd: "c \<in> set cs" "d \<in> set cs" "c \<noteq> d"
  let ?R = "runs [] i64_min (sort_key cm_start_ts cs)"
  have g: "\<forall>g \<in> set ?R. length g \<le> 1" using assms(1) by (auto simp: overlap_groups_def group_loop_runs filter_empty_conv not_less)
  have R: "sorted_wrt before ?R" using runs_before [of "sort_key cm_start_ts cs" "[]"] by simp
  have in_cs: "\<forall>g \<in> set ?R. \<forall>c \<in> set g. cm_start_ts c \<le> cm_end_ts c"
    using assms(2) concat_runs [of "[]" i64_min "sort_key cm_start_ts cs"] by (metis UN_I append_Nil set_concat set_sort)
  obtain a where a: "a \<in> set ?R" "c \<in> set a" using runs_of_member [of c "sort_key cm_start_ts cs"] cd(1) by auto
  obtain b where b: "b \<in> set ?R" "d \<in> set b" using runs_of_member [of d "sort_key cm_start_ts cs"] cd(2) by auto
  have "a \<noteq> b"
  proof
    assume "a = b"
    moreover have "length a \<le> 1" using g a(1) by blast
    ultimately show False using a(2) b(2) cd(3) by (cases a) auto
  qed
  then show "separated c d" using same_run [OF R in_cs a(1) b(1) a(2) b(2)] by blast
qed

lemma validation_clean:
  assumes "validate_series_dir E disk dir options = Inr v" and "load_disk E disk dir True = (disk', Inr meta)"
    and "scan_chunk_files E (ms_fs disk) dir = Inr cs" and "scan_sidecar_files E (ms_fs disk) dir = Inr ss"
  shows "validation_is_clean v \<longleftrightarrow> fs_exists (ms_fs disk) (series_meta_path dir)
    \<and> (\<forall>c \<in> set (sm_chunks meta). chunk_agrees (ms_fs disk) dir options
        (map_of (rev (map (\<lambda>c. (cm_relative_path c, c)) cs))) (map_of (rev (map (\<lambda>c. (sc_relative_path c, c)) ss))) c)
    \<and> cm_relative_path ` set cs \<subseteq> cm_relative_path ` set (sm_chunks meta)
    \<and> sc_relative_path ` set ss \<subseteq> (\<Union>c \<in> set (sm_chunks meta). sc_relative_path ` set (cm_sidecars c))
    \<and> overlap_groups (sm_chunks meta) = []"
proof (cases "fs_exists (ms_fs disk) (series_meta_path dir)")
  case True
  let ?v = "foldl (check_chunk (ms_fs disk) dir options (map_of (rev (map (\<lambda>c. (cm_relative_path c, c)) cs)))
      (map_of (rev (map (\<lambda>c. (sc_relative_path c, c)) ss))))
    \<lparr>mv_series_dir = dir, mv_manifest_exists = True, mv_missing_chunks = [], mv_missing_sidecars = [],
       mv_checksum_mismatches = [], mv_chunk_metadata_mismatches = [], mv_sidecar_consistency_issues = [],
       mv_untracked_chunks = [], mv_untracked_sidecars = [], mv_overlap_groups = []\<rparr> (sm_chunks meta)"
  have v: "v = ?v\<lparr>mv_untracked_chunks := sort (filter (\<lambda>p. p \<notin> set (map cm_relative_path (sm_chunks meta))) (map cm_relative_path cs)),
      mv_untracked_sidecars := sort (filter (\<lambda>p. p \<notin> set (map sc_relative_path (concat (map cm_sidecars (sm_chunks meta))))) (map sc_relative_path ss)),
      mv_overlap_groups := overlap_groups_as_strings (sm_chunks meta)\<rparr>"
    using assms True by (simp add: validate_series_dir_def Let_def)
  have "sort xs = [] \<longleftrightarrow> xs = []" for xs :: "string list" by (metis length_0_conv length_sort)
  then have "validation_is_clean v \<longleftrightarrow> quiet ?v \<and> (\<forall>c \<in> set cs. cm_relative_path c \<in> cm_relative_path ` set (sm_chunks meta))
      \<and> (\<forall>c \<in> set ss. sc_relative_path c \<in> (\<Union>c \<in> set (sm_chunks meta). sc_relative_path ` set (cm_sidecars c)))
      \<and> overlap_groups (sm_chunks meta) = []"
    unfolding v by (auto simp: validation_is_clean_def quiet_def check_chunks_keep(1) filter_empty_conv overlap_groups_as_strings_def image_UN)
  then show ?thesis unfolding quiet_chunks image_subset_iff using True by (simp add: quiet_def)
next
  case False
  then show ?thesis using assms by (auto simp: validate_series_dir_def Let_def validation_is_clean_def)
qed

text \<open>Without the option the checksums of the files are not compared.\<close>

lemma validation_without_checksums:
  assumes "validate_series_dir E disk dir options = Inr v" and "\<not> vo_revalidate_checksums options"
  shows "mv_checksum_mismatches v = []"
  using assms by (auto simp: validate_series_dir_def Let_def res_simps check_chunks_keep(2) split: if_splits)

end
