(* ===== verification/Sequence.thy ===== *)
theory Sequence
  imports Records
begin

text \<open>
  The sequence scan (\<^verbatim>\<open>src/src/store_core/engine/sequence.rs\<close>): the report of gaps, duplicates
  and order violations between adjacent records, and the three record types that carry a
  sequence. A clean report says that the sequence has no hole, and the missing counts of a
  report account exactly for the distance between the first and the last number.
\<close>

record SequenceGap =
  g_previous_sequence :: i64
  g_expected_sequence :: i64
  g_next_sequence :: i64
  g_missing_count :: u64
  g_previous_ts :: i64
  g_next_ts :: i64
  g_previous_record_ordinal :: u64
  g_record_ordinal :: u64

record SequenceDuplicate =
  du_sequence :: i64
  du_first_ts :: i64
  du_duplicate_ts :: i64
  du_first_record_ordinal :: u64
  du_duplicate_record_ordinal :: u64

record SequenceViolation =
  x_previous_sequence :: i64
  x_next_sequence :: i64
  x_previous_ts :: i64
  x_next_ts :: i64
  x_previous_record_ordinal :: u64
  x_record_ordinal :: u64

record SequenceScanReport =
  sq_symbol :: string
  sq_category :: string
  sq_name :: string
  sq_record_type :: RecordType
  sq_sequence_field :: string
  sq_start_ts :: i64
  sq_end_ts :: i64
  sq_scanned_chunk_count :: nat
  sq_scanned_record_count :: u64
  sq_first_sequence :: "i64 option"
  sq_last_sequence :: "i64 option"
  sq_gaps :: "SequenceGap list"
  sq_duplicates :: "SequenceDuplicate list"
  sq_violations :: "SequenceViolation list"

record SequenceObservation =
  ob_ts :: i64
  ob_sequence :: i64
  ob_ordinal :: u64

text \<open>The trait that extends \<open>FixedRecord\<close>, as a dictionary.\<close>

record 'r SequencedRecord =
  fixed_of :: "'r FixedRecord"
  SEQUENCE_FIELD :: string
  sequence_value :: "'r \<Rightarrow> i64"

definition bbo_sequenced :: "BboRecord SequencedRecord" where
  "bbo_sequenced = \<lparr>fixed_of = bbo_record, SEQUENCE_FIELD = ''sequence'', sequence_value = b_sequence\<rparr>"

definition book_delta_sequenced :: "BookDeltaRecord SequencedRecord" where
  "book_delta_sequenced = \<lparr>fixed_of = book_delta_record, SEQUENCE_FIELD = ''sequence'', sequence_value = d_sequence\<rparr>"

definition trade_sequenced :: "TradeRecord SequencedRecord" where
  "trade_sequenced = \<lparr>fixed_of = trade_record, SEQUENCE_FIELD = ''trade_id'', sequence_value = t_trade_id\<rparr>"

definition sequence_report_new ::
  "'r SequencedRecord \<Rightarrow> string \<Rightarrow> string \<Rightarrow> string \<Rightarrow> i64 \<Rightarrow> i64 \<Rightarrow> SequenceScanReport" where
  "sequence_report_new R symbol category name start_ts end_ts =
     \<lparr>sq_symbol = symbol, sq_category = category, sq_name = name, sq_record_type = RECORD_TYPE (fixed_of R),
      sq_sequence_field = SEQUENCE_FIELD R, sq_start_ts = start_ts, sq_end_ts = end_ts,
      sq_scanned_chunk_count = 0, sq_scanned_record_count = 0, sq_first_sequence = None, sq_last_sequence = None,
      sq_gaps = [], sq_duplicates = [], sq_violations = []\<rparr>"

definition sequence_is_clean :: "SequenceScanReport \<Rightarrow> bool" where
  "sequence_is_clean report \<longleftrightarrow> sq_gaps report = [] \<and> sq_duplicates report = [] \<and> sq_violations report = []"

text \<open>The difference is taken in \<open>i128\<close>, where it cannot overflow.\<close>

definition observe_sequence ::
  "SequenceScanReport \<Rightarrow> SequenceObservation option \<Rightarrow> SequenceObservation \<Rightarrow> SequenceScanReport" where
  "observe_sequence report previous current =
     (let report = report\<lparr>sq_scanned_record_count := sq_scanned_record_count report + 1,
            sq_first_sequence := (case sq_first_sequence report of None \<Rightarrow> Some (ob_sequence current) | Some f \<Rightarrow> Some f),
            sq_last_sequence := Some (ob_sequence current)\<rparr> in
      case previous of
        None \<Rightarrow> report
      | Some prev \<Rightarrow>
          if ob_sequence current = ob_sequence prev then
            report\<lparr>sq_duplicates := sq_duplicates report @
              [\<lparr>du_sequence = ob_sequence current, du_first_ts = ob_ts prev, du_duplicate_ts = ob_ts current,
                du_first_record_ordinal = ob_ordinal prev, du_duplicate_record_ordinal = ob_ordinal current\<rparr>]\<rparr>
          else if ob_sequence current < ob_sequence prev then
            report\<lparr>sq_violations := sq_violations report @
              [\<lparr>x_previous_sequence = ob_sequence prev, x_next_sequence = ob_sequence current,
                x_previous_ts = ob_ts prev, x_next_ts = ob_ts current,
                x_previous_record_ordinal = ob_ordinal prev, x_record_ordinal = ob_ordinal current\<rparr>]\<rparr>
          else
            let delta = ival (ob_sequence current) - ival (ob_sequence prev) in
            if delta > 1 then
              report\<lparr>sq_gaps := sq_gaps report @
                [\<lparr>g_previous_sequence = ob_sequence prev,
                  g_expected_sequence = i64_saturating_add (ob_sequence prev) (i64_of_int 1),
                  g_next_sequence = ob_sequence current, g_missing_count = word_of_int (delta - 1),
                  g_previous_ts = ob_ts prev, g_next_ts = ob_ts current,
                  g_previous_record_ordinal = ob_ordinal prev, g_record_ordinal = ob_ordinal current\<rparr>]\<rparr>
            else report)"

text \<open>The loop of \<open>scan_fixed_sequence\<close> over the records of one chunk, which carries \<open>previous\<close> on.\<close>

fun observe_records ::
  "'r SequencedRecord \<Rightarrow> 'r list \<Rightarrow> SequenceScanReport \<Rightarrow> SequenceObservation option \<Rightarrow>
   SequenceScanReport \<times> SequenceObservation option" where
  "observe_records R [] report previous = (report, previous)"
| "observe_records R (r # rs) report previous =
     (let observation = \<lparr>ob_ts = ts_of (fixed_of R) r, ob_sequence = sequence_value R r,
            ob_ordinal = sq_scanned_record_count report\<rparr> in
      observe_records R rs (observe_sequence report previous observation) (Some observation))"

section \<open>What a report says\<close>

lemma observe_records_append:
  "observe_records R (xs @ ys) report previous =
     (let (report', previous') = observe_records R xs report previous in observe_records R ys report' previous')"
  by (induction xs arbitrary: report previous) (simp_all add: Let_def)

text \<open>The sequence numbers, from the last one of an earlier chunk on.\<close>

definition sequence_run :: "SequenceObservation option \<Rightarrow> i64 list \<Rightarrow> i64 list" where
  "sequence_run previous xs = (case previous of None \<Rightarrow> xs | Some p \<Rightarrow> ob_sequence p # xs)"

lemma sequence_run_simps [simp]: "sequence_run None xs = xs" "sequence_run (Some p) xs = ob_sequence p # xs"
  by (simp_all add: sequence_run_def)

lemma missing_count_exact:
  assumes "ival a < ival b"
  shows "uint (word_of_int (ival b - ival a - 1) :: u64) = ival b - ival a - 1"
proof -
  have "0 \<le> ival b - ival a - 1 \<and> ival b - ival a - 1 < 2 ^ 64"
    using assms ival_bounds [of a] ival_bounds [of b] by auto
  then show ?thesis unfolding uint_word_of_int by (intro mod_pos_pos_trivial) auto
qed

text \<open>Nothing is reported exactly if every number is the successor of the one before it.\<close>

lemma observe_records_clean:
  "sequence_is_clean (fst (observe_records R rs report previous)) \<longleftrightarrow>
     sequence_is_clean report
     \<and> successively (\<lambda>a b. ival b = ival a + 1) (sequence_run previous (map (sequence_value R) rs))"
proof (induction rs arbitrary: report previous)
  case Nil
  then show ?case by (cases previous) simp_all
next
  case (Cons r rs)
  define ob where "ob = \<lparr>ob_ts = ts_of (fixed_of R) r, ob_sequence = sequence_value R r, ob_ordinal = sq_scanned_record_count report\<rparr>"
  have "sequence_is_clean (observe_sequence report previous ob) \<longleftrightarrow>
      sequence_is_clean report \<and> (case previous of None \<Rightarrow> True | Some p \<Rightarrow> ival (ob_sequence ob) = ival (ob_sequence p) + 1)"
    by (auto simp: observe_sequence_def sequence_is_clean_def Let_def i64_ord simp flip: ival_inject split: option.splits)
  then show ?case
    unfolding observe_records.simps Let_def ob_def [symmetric] Cons.IH
    by (cases previous; cases "map (sequence_value R) rs") (auto simp: ob_def)
qed

text \<open>
  Without violations, the numbers missing, the steps taken and the repetitions add up to the
  distance between the first and the last number.
\<close>

definition missing_total :: "SequenceScanReport \<Rightarrow> int" where
  "missing_total report = sum_list (map (\<lambda>g. uint (g_missing_count g)) (sq_gaps report))"

lemma observe_step_account:
  assumes "sq_violations (observe_sequence report (Some p) ob) = []"
  shows "missing_total (observe_sequence report (Some p) ob) - int (length (sq_duplicates (observe_sequence report (Some p) ob)))
    = missing_total report - int (length (sq_duplicates report)) + ival (ob_sequence ob) - ival (ob_sequence p) - 1"
  using assms missing_count_exact [of "ob_sequence p" "ob_sequence ob"]
  by (auto simp: observe_sequence_def missing_total_def Let_def i64_ord simp flip: ival_inject
      simp del: of_int_diff split: if_splits)

lemma violations_grow1: "sq_violations (observe_sequence report previous ob) = [] \<Longrightarrow> sq_violations report = []"
  by (simp add: observe_sequence_def Let_def split: option.splits if_splits)

lemma violations_grow: "sq_violations (fst (observe_records R rs report previous)) = [] \<Longrightarrow> sq_violations report = []"
  by (induction rs arbitrary: report previous) (simp, metis observe_records.simps(2) violations_grow1)

lemma observe_records_account:
  assumes "sq_violations (fst (observe_records R rs report (Some p))) = []"
  shows "missing_total (fst (observe_records R rs report (Some p)))
      - int (length (sq_duplicates (fst (observe_records R rs report (Some p))))) + int (length rs)
    = missing_total report - int (length (sq_duplicates report))
      + ival (last (ob_sequence p # map (sequence_value R) rs)) - ival (ob_sequence p)"
  using assms
proof (induction rs arbitrary: report p)
  case (Cons r rs)
  define ob where "ob = \<lparr>ob_ts = ts_of (fixed_of R) r, ob_sequence = sequence_value R r, ob_ordinal = sq_scanned_record_count report\<rparr>"
  have step: "observe_records R (r # rs) report (Some p) = observe_records R rs (observe_sequence report (Some p) ob) (Some ob)"
    by (simp add: ob_def Let_def)
  have v: "sq_violations (observe_sequence report (Some p) ob) = []"
    using Cons.prems unfolding step by (rule violations_grow)
  show ?case
    using Cons.IH [of "observe_sequence report (Some p) ob" ob] Cons.prems observe_step_account [OF v]
    unfolding step by (auto simp: ob_def)
qed simp

end
