(* ===== verification/StoreAdmin.thy ===== *)
theory StoreAdmin
  imports StoreWrites Validation Sequence
begin

text \<open>
  The rest of the store's interface (\<^verbatim>\<open>src/src/store_core/engine/store.rs\<close>, \<^verbatim>\<open>storage/lock.rs\<close>,
  \<^verbatim>\<open>storage/recovery.rs\<close>): opening and initialising a store, the read lock, repair, the writes of the
  record families, sequence scans, inventories, statistics and health. A read-only handle changes no
  file, and every mutation through it is refused.
\<close>

section \<open>The read lock and opening\<close>

text \<open>\<open>File::open\<close> of an existing file.\<close>

definition open_existing :: "Env \<Rightarrow> path \<Rightarrow> fs_state \<Rightarrow> unit res" where
  "open_existing E p s =
     (case os_open (e_os E s p) of
        Some e \<Rightarrow> Inl (Io e)
      | None \<Rightarrow> if fs_exists s p then Inr () else Inl (Io NotFoundKind))"

definition read_lock_acquire :: "Env \<Rightarrow> path \<Rightarrow> fs_state \<Rightarrow> unit option res" where
  "read_lock_acquire E root s =
     (if \<not> fs_exists s root then Inr None
      else
        (case open_existing E (path_join root LOCK_FILE_NAME) s of
           Inr _ \<Rightarrow>
             (case e_try_lock_shared E s (path_join root LOCK_FILE_NAME) of Some e \<Rightarrow> Inl e | None \<Rightarrow> Inr (Some ()))
         | Inl e \<Rightarrow>
             if e = Io NotFoundKind then
               if \<not> fs_exists s (path_join root ''series'') then Inr None
               else Inl (InvalidInput ''legacy store has no persistent lock; initialize it once with a writable handle'')
             else Inl e))"

definition startup_recover_with_options ::
  "nat \<Rightarrow> Env \<Rightarrow> bool \<Rightarrow> path \<Rightarrow> ManifestStore \<Rightarrow> (ManifestStore \<times> RecoveryReport res) option" where
  "startup_recover_with_options depth E dry_run root disk =
     (if \<not> fs_exists (ms_fs disk) root then Some (disk, Inr (recovery_report_default\<lparr>rr_dry_run := dry_run\<rparr>))
      else if dry_run then
        (case read_lock_acquire E root (ms_fs disk) of
           Inl e \<Rightarrow> Some (disk, Inl e)
         | Inr _ \<Rightarrow> startup_recover_locked depth E dry_run root disk)
      else
        (case write_lock_acquire E root (ms_fs disk) of
           (s, Inl e) \<Rightarrow> Some (disk\<lparr>ms_fs := s\<rparr>, Inl e)
         | (s, Inr _) \<Rightarrow> startup_recover_locked depth E dry_run root (invalidate_root (disk\<lparr>ms_fs := s\<rparr>) root)))"

definition startup_recover :: "nat \<Rightarrow> Env \<Rightarrow> path \<Rightarrow> ManifestStore \<Rightarrow> (ManifestStore \<times> RecoveryReport res) option" where
  "startup_recover depth E root disk = startup_recover_with_options depth E False root disk"

definition preview_recovery :: "nat \<Rightarrow> Env \<Rightarrow> path \<Rightarrow> ManifestStore \<Rightarrow> (ManifestStore \<times> RecoveryReport res) option" where
  "preview_recovery depth E root disk = startup_recover_with_options depth E True root disk"

definition fresh_store :: "path \<Rightarrow> ManifestStore \<Rightarrow> bool \<Rightarrow> FastKStore" where
  "fresh_store root disk read_only =
     \<lparr>fk_root = root, fk_disk = disk, fk_manifest_cache = Map.empty, fk_chunk_runtime = runtime_new DEFAULT_FILE_CACHE_CAPACITY,
      fk_scalar_sidecars = sidecar_runtime_new, fk_compaction_policy = compaction_policy_default, fk_read_only = read_only,
      fk_read_pool = None\<rparr>"

definition open_mode :: "nat \<Rightarrow> Env \<Rightarrow> path \<Rightarrow> ManifestStore \<Rightarrow> bool \<Rightarrow> (ManifestStore \<times> FastKStore res) option" where
  "open_mode depth E root disk read_only =
     (if read_only then
        Some (case read_lock_acquire E root (ms_fs disk) of
          Inl e \<Rightarrow> (disk, Inl e)
        | Inr _ \<Rightarrow>
            if has_pending_recovery (ms_fs disk) root then (disk, Inl (InvalidData ''store requires explicit writable recovery''))
            else let disk = invalidate_root disk root in (disk, Inr (fresh_store root disk True)))
      else if has_pending_recovery (ms_fs disk) root then
        (case startup_recover depth E root disk of
           None \<Rightarrow> None
         | Some (disk, Inl e) \<Rightarrow> Some (disk, Inl e)
         | Some (disk, Inr _) \<Rightarrow> Some (disk, Inr (fresh_store root disk False)))
      else Some (disk, Inr (fresh_store root disk False)))"

definition store_open :: "nat \<Rightarrow> Env \<Rightarrow> path \<Rightarrow> ManifestStore \<Rightarrow> (ManifestStore \<times> FastKStore res) option" where
  "store_open depth E root disk = open_mode depth E root disk False"

definition open_read_only :: "nat \<Rightarrow> Env \<Rightarrow> path \<Rightarrow> ManifestStore \<Rightarrow> (ManifestStore \<times> FastKStore res) option" where
  "open_read_only depth E root disk = open_mode depth E root disk True"

definition recover_locked :: "nat \<Rightarrow> Env \<Rightarrow> FastKStore \<Rightarrow> (FastKStore \<times> RecoveryReport res) option" where
  "recover_locked depth E st =
     map_option (\<lambda>(disk, r). (st\<lparr>fk_disk := disk\<rparr>, r)) (startup_recover_locked depth E False (fk_root st) (fk_disk st))"

definition init_locked :: "nat \<Rightarrow> Env \<Rightarrow> FastKStore \<Rightarrow> (FastKStore \<times> unit res) option" where
  "init_locked depth E st =
     (case on_fs st (make_dir E (series_root (fk_root st))) of
        (st, Inl e) \<Rightarrow> Some (st, Inl e)
      | (st, Inr _) \<Rightarrow> map_option (\<lambda>(st, r). (st, and_then r (\<lambda>_. Inr ()))) (recover_locked depth E st))"

definition init :: "nat \<Rightarrow> Env \<Rightarrow> FastKStore \<Rightarrow> (FastKStore \<times> unit res) option" where
  "init depth E st =
     (case begin_mutation depth E st of
        None \<Rightarrow> None
      | Some (st, Inl e) \<Rightarrow> Some (st, Inl e)
      | Some (st, Inr _) \<Rightarrow> init_locked depth E st)"

definition repair_store :: "nat \<Rightarrow> Env \<Rightarrow> FastKStore \<Rightarrow> (FastKStore \<times> RecoveryReport res) option" where
  "repair_store depth E st =
     (case acquire_write_ownership depth E st False of
        None \<Rightarrow> None
      | Some (st, Inl e) \<Rightarrow> Some (st, Inl e)
      | Some (st, Inr _) \<Rightarrow>
          map_option (\<lambda>m. then_do m (\<lambda>st report. (clear_read_caches st, Inr report))) (recover_locked depth E st))"

definition repair_store_dry_run :: "nat \<Rightarrow> Env \<Rightarrow> FastKStore \<Rightarrow> (FastKStore \<times> RecoveryReport res) option" where
  "repair_store_dry_run depth E st =
     map_option (\<lambda>(disk, r). (st\<lparr>fk_disk := disk\<rparr>, r)) (startup_recover_with_options depth E True (fk_root st) (fk_disk st))"

definition store_validate_store :: "nat \<Rightarrow> Env \<Rightarrow> FastKStore \<Rightarrow> unit res option" where
  "store_validate_store depth E st = validate_store depth E (fk_disk st) (fk_root st)"

definition store_validate_manifest_vs_fs :: "nat \<Rightarrow> Env \<Rightarrow> FastKStore \<Rightarrow> ManifestValidation list res option" where
  "store_validate_manifest_vs_fs depth E st = validate_manifest_vs_fs depth E (fk_disk st) (fk_root st)"

definition validate_manifest_vs_fs_verbose :: "nat \<Rightarrow> Env \<Rightarrow> FastKStore \<Rightarrow> ManifestValidation list res option" where
  "validate_manifest_vs_fs_verbose depth E st =
     validate_manifest_vs_fs_with_options depth E (fk_disk st) (fk_root st) \<lparr>vo_verbose = True, vo_revalidate_checksums = True\<rparr>"

definition list_orphans :: "nat \<Rightarrow> Env \<Rightarrow> FastKStore \<Rightarrow> OrphanArtifact list res option" where
  "list_orphans depth E st = scan_orphan_artifacts depth E (fk_disk st) (fk_root st)"

definition store_scrub_store :: "nat \<Rightarrow> Env \<Rightarrow> FastKStore \<Rightarrow> bool \<Rightarrow> ScrubSeriesReport list res option" where
  "store_scrub_store depth E st verbose =
     scrub_store depth E (fk_disk st) (fk_root st) \<lparr>vo_verbose = verbose, vo_revalidate_checksums = True\<rparr>"

definition set_compaction_policy :: "FastKStore \<Rightarrow> CompactionPolicy \<Rightarrow> FastKStore" where
  "set_compaction_policy st policy = st\<lparr>fk_compaction_policy := policy\<rparr>"

definition kline_metadata :: "Env \<Rightarrow> FastKStore \<Rightarrow> string \<Rightarrow> string \<Rightarrow> FastKStore \<times> SeriesMeta res" where
  "kline_metadata E st symbol timeframe = load_kline_meta E st symbol timeframe"

definition scalar_metadata :: "Env \<Rightarrow> FastKStore \<Rightarrow> ScalarSeriesKey \<Rightarrow> FastKStore \<times> SeriesMeta res" where
  "scalar_metadata E st key = load_scalar_meta E st key"

definition indicator_capabilities ::
  "Env \<Rightarrow> FastKStore \<Rightarrow> string \<Rightarrow> string \<Rightarrow> string \<Rightarrow> FastKStore \<times> ScalarQueryCapabilities res" where
  "indicator_capabilities E st symbol timeframe indicator_name =
     scalar_query_capabilities E st (indicator_series_key symbol timeframe indicator_name)"

section \<open>Rebuilding and explaining\<close>

definition rebuild_one :: "Env \<Rightarrow> ManifestStore \<Rightarrow> path \<Rightarrow> path list \<Rightarrow> ManifestStore \<times> path list res" where
  "rebuild_one E disk dir rebuilt =
     (case scan_chunk_files E (ms_fs disk) dir of
        Inl e \<Rightarrow> (disk, Inl e)
      | Inr cs \<Rightarrow>
          if cs = [] then (disk, Inr rebuilt)
          else
            (case and_then (select_non_overlapping_chunks cs) (build_series_meta_from_chunks E disk dir) of
               Inl e \<Rightarrow> (disk, Inl e)
             | Inr meta \<Rightarrow> then_do (save_disk E disk dir meta) (\<lambda>disk _. (disk, Inr (rebuilt @ [dir])))))"

definition rebuild_all_manifests_from_fs :: "nat \<Rightarrow> Env \<Rightarrow> ManifestStore \<Rightarrow> path \<Rightarrow> (ManifestStore \<times> path list res) option" where
  "rebuild_all_manifests_from_fs depth E disk root =
     (case write_lock_acquire E root (ms_fs disk) of
        (s, Inl e) \<Rightarrow> Some (disk\<lparr>ms_fs := s\<rparr>, Inl e)
      | (s, Inr _) \<Rightarrow>
          let disk = invalidate_root (disk\<lparr>ms_fs := s\<rparr>) root in
          (case series_dirs_of depth E (ms_fs disk) root of
             None \<Rightarrow> None
           | Some (Inl e) \<Rightarrow> Some (disk, Inl e)
           | Some (Inr dirs) \<Rightarrow> Some (try_each (rebuild_one E) disk dirs [])))"

definition explain_series ::
  "Env \<Rightarrow> ManifestStore \<Rightarrow> path \<Rightarrow> SeriesOverlapExplanation list \<Rightarrow> ManifestStore \<times> SeriesOverlapExplanation list res" where
  "explain_series E disk dir out =
     (let (disk, loaded) = load_disk E disk dir False in
      then_do (disk, case loaded of Inr meta \<Rightarrow> Inr (sm_chunks meta) | Inl _ \<Rightarrow> scan_chunk_files E (ms_fs disk) dir) (\<lambda>disk cs.
      (disk, Inr (out @ map (\<lambda>grp. \<lparr>se_series_dir = dir, se_resolution = choose_surviving_chunk_for_overlap grp\<rparr>) (overlap_groups cs)))))"

definition explain_overlaps :: "nat \<Rightarrow> Env \<Rightarrow> ManifestStore \<Rightarrow> path \<Rightarrow> (ManifestStore \<times> SeriesOverlapExplanation list res) option" where
  "explain_overlaps depth E disk root =
     (case series_dirs_of depth E (ms_fs disk) root of
        None \<Rightarrow> None
      | Some (Inl e) \<Rightarrow> Some (disk, Inl e)
      | Some (Inr dirs) \<Rightarrow> Some (try_each (explain_series E) disk dirs []))"

section \<open>Record families\<close>

definition register_trade_series_with_partition ::
  "nat \<Rightarrow> Env \<Rightarrow> FastKStore \<Rightarrow> string \<Rightarrow> string \<Rightarrow> i64 \<Rightarrow> PartitionPolicy \<Rightarrow> (FastKStore \<times> unit res) option" where
  "register_trade_series_with_partition depth E st symbol channel timeframe_ms policy =
     register_fixed_series trade_record depth E st symbol TRADE_CATEGORY channel timeframe_ms policy"

definition register_trade_series :: "nat \<Rightarrow> Env \<Rightarrow> FastKStore \<Rightarrow> string \<Rightarrow> string \<Rightarrow> i64 \<Rightarrow> (FastKStore \<times> unit res) option" where
  "register_trade_series depth E st symbol channel timeframe_ms =
     register_trade_series_with_partition depth E st symbol channel timeframe_ms partition_policy_hour"

definition put_trade_chunk :: "nat \<Rightarrow> Env \<Rightarrow> FastKStore \<Rightarrow> string \<Rightarrow> string \<Rightarrow> TradeRecord list \<Rightarrow> (FastKStore \<times> unit res) option" where
  "put_trade_chunk depth E st symbol channel records = put_fixed_chunk trade_record depth E st symbol TRADE_CATEGORY channel records"

definition register_bbo_series_with_partition ::
  "nat \<Rightarrow> Env \<Rightarrow> FastKStore \<Rightarrow> string \<Rightarrow> string \<Rightarrow> i64 \<Rightarrow> PartitionPolicy \<Rightarrow> (FastKStore \<times> unit res) option" where
  "register_bbo_series_with_partition depth E st symbol channel timeframe_ms policy =
     register_fixed_series bbo_record depth E st symbol BBO_CATEGORY channel timeframe_ms policy"

definition register_bbo_series :: "nat \<Rightarrow> Env \<Rightarrow> FastKStore \<Rightarrow> string \<Rightarrow> string \<Rightarrow> i64 \<Rightarrow> (FastKStore \<times> unit res) option" where
  "register_bbo_series depth E st symbol channel timeframe_ms =
     register_bbo_series_with_partition depth E st symbol channel timeframe_ms partition_policy_day"

definition put_bbo_chunk :: "nat \<Rightarrow> Env \<Rightarrow> FastKStore \<Rightarrow> string \<Rightarrow> string \<Rightarrow> BboRecord list \<Rightarrow> (FastKStore \<times> unit res) option" where
  "put_bbo_chunk depth E st symbol channel records = put_fixed_chunk bbo_record depth E st symbol BBO_CATEGORY channel records"

definition register_book_delta_series_with_partition ::
  "nat \<Rightarrow> Env \<Rightarrow> FastKStore \<Rightarrow> string \<Rightarrow> string \<Rightarrow> i64 \<Rightarrow> PartitionPolicy \<Rightarrow> (FastKStore \<times> unit res) option" where
  "register_book_delta_series_with_partition depth E st symbol channel timeframe_ms policy =
     register_fixed_series book_delta_record depth E st symbol BOOK_DELTA_CATEGORY channel timeframe_ms policy"

definition register_book_delta_series :: "nat \<Rightarrow> Env \<Rightarrow> FastKStore \<Rightarrow> string \<Rightarrow> string \<Rightarrow> i64 \<Rightarrow> (FastKStore \<times> unit res) option" where
  "register_book_delta_series depth E st symbol channel timeframe_ms =
     register_book_delta_series_with_partition depth E st symbol channel timeframe_ms partition_policy_hour"

definition put_book_delta_chunk ::
  "nat \<Rightarrow> Env \<Rightarrow> FastKStore \<Rightarrow> string \<Rightarrow> string \<Rightarrow> BookDeltaRecord list \<Rightarrow> (FastKStore \<times> unit res) option" where
  "put_book_delta_chunk depth E st symbol channel records =
     put_fixed_chunk book_delta_record depth E st symbol BOOK_DELTA_CATEGORY channel records"

section \<open>Sequence scans\<close>

definition scan_chunk_sequence ::
  "'r SequencedRecord \<Rightarrow> (path \<rightharpoonup> u8 list) \<Rightarrow> path \<Rightarrow> u64 \<Rightarrow> i64 \<Rightarrow> i64 \<Rightarrow> ChunkRuntime \<Rightarrow> ChunkMeta \<Rightarrow>
   SequenceScanReport \<times> SequenceObservation option \<Rightarrow> ChunkRuntime \<times> (SequenceScanReport \<times> SequenceObservation option) res" where
  "scan_chunk_sequence R fs dir series_id start_ts end_ts rt chunk progress =
     then_do (fixed_append_range_in_chunk (fixed_of R) fs rt dir series_id chunk start_ts end_ts []) (\<lambda>rt records.
     let (report, previous) = progress in
     if records = [] then (rt, Inr (report, previous))
     else (rt, Inr (observe_records R records (report\<lparr>sq_scanned_chunk_count := sq_scanned_chunk_count report + 1\<rparr>) previous)))"

definition scan_fixed_sequence ::
  "'r SequencedRecord \<Rightarrow> Env \<Rightarrow> FastKStore \<Rightarrow> string \<Rightarrow> string \<Rightarrow> string \<Rightarrow> i64 \<Rightarrow> i64 \<Rightarrow> FastKStore \<times> SequenceScanReport res" where
  "scan_fixed_sequence R E st symbol category name start_ts end_ts =
     (if start_ts > end_ts then (st, Inl (InvalidInput ''sequence scan start_ts is after end_ts''))
      else with_meta (load_fixed_meta E st symbol category name) (\<lambda>st meta.
        if \<not> holds_records (fixed_of R) meta
        then (st, Inl (InvalidData ''series does not match requested sequence record type''))
        else
          let report = sequence_report_new R symbol category name start_ts end_ts;
              (a, b) = find_chunks_for_range meta start_ts end_ts in
          if \<not> a < b then (st, Inr report)
          else
            let dir = series_dir (fk_root st) symbol category name in
            then_do (on_runtime st (\<lambda>rt. try_each (scan_chunk_sequence R (fk_files st) dir (sm_series_id meta) start_ts end_ts)
              rt (slice_of a b (sm_chunks meta)) (report, None))) (\<lambda>st progress. (st, Inr (fst progress)))))"

definition scan_trade_id_sequence :: "Env \<Rightarrow> FastKStore \<Rightarrow> string \<Rightarrow> string \<Rightarrow> i64 \<Rightarrow> i64 \<Rightarrow> FastKStore \<times> SequenceScanReport res" where
  "scan_trade_id_sequence E st symbol channel start_ts end_ts =
     scan_fixed_sequence trade_sequenced E st symbol TRADE_CATEGORY channel start_ts end_ts"

definition scan_bbo_sequence :: "Env \<Rightarrow> FastKStore \<Rightarrow> string \<Rightarrow> string \<Rightarrow> i64 \<Rightarrow> i64 \<Rightarrow> FastKStore \<times> SequenceScanReport res" where
  "scan_bbo_sequence E st symbol channel start_ts end_ts =
     scan_fixed_sequence bbo_sequenced E st symbol BBO_CATEGORY channel start_ts end_ts"

definition scan_book_delta_sequence :: "Env \<Rightarrow> FastKStore \<Rightarrow> string \<Rightarrow> string \<Rightarrow> i64 \<Rightarrow> i64 \<Rightarrow> FastKStore \<times> SequenceScanReport res" where
  "scan_book_delta_sequence E st symbol channel start_ts end_ts =
     scan_fixed_sequence book_delta_sequenced E st symbol BOOK_DELTA_CATEGORY channel start_ts end_ts"

section \<open>Inventories and health\<close>

record SeriesInventoryEntry =
  si_symbol :: string
  si_category :: string
  si_name :: string
  si_record_type :: RecordType
  si_timeframe_ms :: i64
  si_chunk_count :: nat
  si_record_count :: u64
  si_sidecar_count :: nat
  si_active_delta_count :: nat

record StoreStats =
  ss_series_count :: nat
  ss_kline_series_count :: nat
  ss_scalar_series_count :: nat
  ss_chunk_count :: nat
  ss_record_count :: u64
  ss_sidecar_count :: nat
  ss_active_delta_count :: nat

record StoreHealthSummary =
  sh_series_count :: nat
  sh_clean_series_count :: nat
  sh_issue_series_count :: nat
  sh_orphan_count :: nat
  sh_overlap_group_count :: nat
  sh_pending_recovery :: bool
  sh_platform_fsync_guarantee :: string

record IndicatorInventoryEntry =
  ii_symbol :: string
  ii_timeframe :: string
  ii_indicator_name :: string
  ii_chunk_count :: nat
  ii_record_count :: u64
  ii_sidecar_count :: nat
  ii_active_delta_count :: nat

text \<open>The sum of the record counts wraps, as unchecked arithmetic does in a release build.\<close>

definition inventory_entry :: "SeriesMeta \<Rightarrow> SeriesInventoryEntry" where
  "inventory_entry meta =
     \<lparr>si_symbol = sm_symbol meta, si_category = sm_category meta, si_name = sm_name meta, si_record_type = sm_record_type meta,
      si_timeframe_ms = sm_timeframe_ms meta, si_chunk_count = length (sm_chunks meta),
      si_record_count = sum_list (map cm_count (sm_chunks meta)),
      si_sidecar_count = sum_list (map (\<lambda>c. length (cm_sidecars c)) (sm_chunks meta)),
      si_active_delta_count = length (filter (\<lambda>c. cm_state c = Active) (sm_chunks meta))\<rparr>"

definition load_series_inventory_entry :: "Env \<Rightarrow> FastKStore \<Rightarrow> path \<Rightarrow> FastKStore \<times> SeriesInventoryEntry res" where
  "load_series_inventory_entry E st dir =
     (let (disk, r) = load_disk E (fk_disk st) dir (fk_read_only st) in
      (st\<lparr>fk_disk := disk\<rparr>, and_then r (\<lambda>meta. Inr (inventory_entry meta))))"

definition list_series :: "nat \<Rightarrow> Env \<Rightarrow> FastKStore \<Rightarrow> (FastKStore \<times> SeriesInventoryEntry list res) option" where
  "list_series depth E st =
     (case discover_series_dirs depth E (ms_fs (fk_disk st)) (series_root (fk_root st)) of
        None \<Rightarrow> None
      | Some (Inl e) \<Rightarrow> Some (st, Inl e)
      | Some (Inr dirs) \<Rightarrow>
          Some (then_do (collect_each (load_series_inventory_entry E) st dirs) (\<lambda>st entries.
            (st, Inr (sort_key (\<lambda>e. (si_symbol e, si_category e, si_name e)) entries)))))"

definition on_list :: "('a \<Rightarrow> 'b) \<Rightarrow> (FastKStore \<times> 'a res) option \<Rightarrow> (FastKStore \<times> 'b res) option" where
  "on_list f = map_option (\<lambda>(st, r). (st, and_then r (\<lambda>x. Inr (f x))))"

definition list_kline_series :: "nat \<Rightarrow> Env \<Rightarrow> FastKStore \<Rightarrow> (FastKStore \<times> SeriesInventoryEntry list res) option" where
  "list_kline_series depth E st = on_list (filter (\<lambda>e. si_category e = KLINE_CATEGORY)) (list_series depth E st)"

definition list_scalar_series :: "nat \<Rightarrow> Env \<Rightarrow> FastKStore \<Rightarrow> (FastKStore \<times> SeriesInventoryEntry list res) option" where
  "list_scalar_series depth E st = on_list (filter (\<lambda>e. si_category e \<noteq> KLINE_CATEGORY)) (list_series depth E st)"

definition kline_chunk_inventory :: "Env \<Rightarrow> FastKStore \<Rightarrow> string \<Rightarrow> string \<Rightarrow> FastKStore \<times> ChunkMeta list res" where
  "kline_chunk_inventory E st symbol timeframe = with_meta (load_kline_meta E st symbol timeframe) (\<lambda>st meta. (st, Inr (sm_chunks meta)))"

definition scalar_chunk_inventory :: "Env \<Rightarrow> FastKStore \<Rightarrow> ScalarSeriesKey \<Rightarrow> FastKStore \<times> ChunkMeta list res" where
  "scalar_chunk_inventory E st key = with_meta (load_scalar_meta E st key) (\<lambda>st meta. (st, Inr (sm_chunks meta)))"

definition kline_month_inventory :: "Env \<Rightarrow> FastKStore \<Rightarrow> string \<Rightarrow> string \<Rightarrow> FastKStore \<times> MonthInventoryEntry list res" where
  "kline_month_inventory E st symbol timeframe = with_meta (load_kline_meta E st symbol timeframe) (\<lambda>st meta. (st, Inr (month_inventory meta)))"

definition scalar_month_inventory :: "Env \<Rightarrow> FastKStore \<Rightarrow> ScalarSeriesKey \<Rightarrow> FastKStore \<times> MonthInventoryEntry list res" where
  "scalar_month_inventory E st key = with_meta (load_scalar_meta E st key) (\<lambda>st meta. (st, Inr (month_inventory meta)))"

text \<open>The binding of an entry that is an indicator of the symbol and timeframe.\<close>

definition indicator_of :: "string \<Rightarrow> string \<Rightarrow> SeriesInventoryEntry \<Rightarrow> ScopedScalarBinding option" where
  "indicator_of symbol timeframe e =
     (if si_symbol e \<noteq> symbol \<or> si_category e \<noteq> INDICATOR_CATEGORY then None
      else
        (case decode_scoped_scalar_key \<lparr>key_symbol = si_symbol e, key_category = si_category e, key_name = si_name e\<rparr> of
           None \<Rightarrow> None
         | Some binding \<Rightarrow> if sb_timeframe binding = timeframe then Some binding else None))"

definition list_indicators :: "nat \<Rightarrow> Env \<Rightarrow> FastKStore \<Rightarrow> string \<Rightarrow> string \<Rightarrow> (FastKStore \<times> string list res) option" where
  "list_indicators depth E st symbol timeframe =
     on_list (\<lambda>entries. remdups_adj (sort (map sb_name (List.map_filter (indicator_of symbol timeframe) entries))))
       (list_scalar_series depth E st)"

definition indicator_inventory :: "nat \<Rightarrow> Env \<Rightarrow> FastKStore \<Rightarrow> string \<Rightarrow> string \<Rightarrow> (FastKStore \<times> IndicatorInventoryEntry list res) option" where
  "indicator_inventory depth E st symbol timeframe =
     on_list (\<lambda>entries. sort_key ii_indicator_name (List.map_filter (\<lambda>e. map_option (\<lambda>binding.
         \<lparr>ii_symbol = si_symbol e, ii_timeframe = sb_timeframe binding, ii_indicator_name = sb_name binding,
          ii_chunk_count = si_chunk_count e, ii_record_count = si_record_count e, ii_sidecar_count = si_sidecar_count e,
          ii_active_delta_count = si_active_delta_count e\<rparr>) (indicator_of symbol timeframe e)) entries))
       (list_scalar_series depth E st)"

definition count_series :: "StoreStats \<Rightarrow> SeriesInventoryEntry \<Rightarrow> StoreStats" where
  "count_series stats e =
     (let stats = (if si_category e = KLINE_CATEGORY then stats\<lparr>ss_kline_series_count := ss_kline_series_count stats + 1\<rparr>
        else stats\<lparr>ss_scalar_series_count := ss_scalar_series_count stats + 1\<rparr>) in
      stats\<lparr>ss_chunk_count := ss_chunk_count stats + si_chunk_count e,
        ss_record_count := saturating_add (ss_record_count stats) (si_record_count e),
        ss_sidecar_count := ss_sidecar_count stats + si_sidecar_count e,
        ss_active_delta_count := ss_active_delta_count stats + si_active_delta_count e\<rparr>)"

definition store_stats :: "nat \<Rightarrow> Env \<Rightarrow> FastKStore \<Rightarrow> (FastKStore \<times> StoreStats res) option" where
  "store_stats depth E st =
     on_list (\<lambda>entries. foldl count_series
       \<lparr>ss_series_count = length entries, ss_kline_series_count = 0, ss_scalar_series_count = 0, ss_chunk_count = 0,
        ss_record_count = 0, ss_sidecar_count = 0, ss_active_delta_count = 0\<rparr> entries) (list_series depth E st)"

definition health_of :: "ManifestValidation list \<Rightarrow> OrphanArtifact list \<Rightarrow> bool \<Rightarrow> StoreHealthSummary" where
  "health_of validations orphans pending =
     (let clean = length (filter validation_is_clean validations) in
      \<lparr>sh_series_count = length validations, sh_clean_series_count = clean, sh_issue_series_count = length validations - clean,
       sh_orphan_count = length orphans, sh_overlap_group_count = sum_list (map (\<lambda>v. length (mv_overlap_groups v)) validations),
       sh_pending_recovery = pending, sh_platform_fsync_guarantee = ''fsync-parent-dir''\<rparr>)"

definition health_summary :: "nat \<Rightarrow> Env \<Rightarrow> FastKStore \<Rightarrow> StoreHealthSummary res option" where
  "health_summary depth E st =
     (case validate_manifest_vs_fs depth E (fk_disk st) (fk_root st) of
        None \<Rightarrow> None
      | Some (Inl e) \<Rightarrow> Some (Inl e)
      | Some (Inr validations) \<Rightarrow>
          map_option (\<lambda>orphans. and_then orphans (\<lambda>orphans.
            Inr (health_of validations orphans (has_pending_recovery (ms_fs (fk_disk st)) (fk_root st)))))
            (scan_orphan_artifacts depth E (fk_disk st) (fk_root st)))"

end
