(* ===== verification/Snapshot.thy ===== *)
theory Snapshot
  imports StoreAdmin
begin

text \<open>
  Immutable snapshots (\<^verbatim>\<open>src/src/snapshot.rs\<close>): sealing repairs and checks a store, turns its open chunks into sealed
  ones, lists every file below \<^verbatim>\<open>series\<close> with its size and SHA-256 and writes the list; verifying compares the
  list with the files. The hash, the JSON codec and the kind of a directory entry are parameters.
\<close>

record SnapshotFile =
  sf_path :: string
  sf_bytes :: u64
  sf_sha256 :: string

record SnapshotManifest =
  sn_format_version :: u32
  sn_digest :: string
  sn_files :: "SnapshotFile list"

text \<open>What the module uses of sha2, serde_json and \<open>DirEntry::file_type\<close>. The digest is in lower-case hexadecimal.\<close>

datatype FileType = Symlink | Directory | Regular | Special

record SnapshotEnv =
  se_sha256 :: "u8 list \<Rightarrow> string"
  se_files_json :: "SnapshotFile list \<Rightarrow> u8 list res"
  se_to_json :: "SnapshotManifest \<Rightarrow> u8 list res"
  se_from_json :: "u8 list \<Rightarrow> SnapshotManifest res"
  se_file_type :: "fs_state \<Rightarrow> path \<Rightarrow> FileType res"

definition files_digest :: "SnapshotEnv \<Rightarrow> SnapshotFile list \<Rightarrow> string res" where
  "files_digest S files = and_then (se_files_json S files) (\<lambda>bytes. Inr (se_sha256 S bytes))"

section \<open>The inventory of the files\<close>

text \<open>\<open>Path::strip_prefix\<close> and the text of the relative path, with forward slashes.\<close>

definition strip_prefix :: "path \<Rightarrow> path \<Rightarrow> string list option" where
  "strip_prefix p base =
     (if has_root p = has_root base \<and> prefix (comps base) (comps p) then Some (drop (length (comps base)) (comps p)) else None)"

fun join_slash :: "string list \<Rightarrow> string" where
  "join_slash [] = []"
| "join_slash [p] = p"
| "join_slash (p # ps) = p @ ''/'' @ join_slash ps"

definition snapshot_path :: "path \<Rightarrow> path \<Rightarrow> string res" where
  "snapshot_path root p =
     and_then (ok_or (strip_prefix p root) (InvalidInput ''prefix not found'')) (\<lambda>parts.
     and_then (ensure (valid_utf8 (join_slash parts)) (InvalidInput ''snapshot path must be UTF-8'')) (\<lambda>_.
     Inr (map (\<lambda>c. if c = CHR 0x5C then CHR ''/'' else c) (join_slash parts))))"

definition snapshot_file :: "SnapshotEnv \<Rightarrow> fs_state \<Rightarrow> path \<Rightarrow> path \<Rightarrow> SnapshotFile res" where
  "snapshot_file S s root p =
     and_then (read_file s p) (\<lambda>bytes.
     and_then (snapshot_path root p) (\<lambda>name.
     Inr \<lparr>sf_path = name, sf_bytes = word_of_nat (length bytes), sf_sha256 = se_sha256 S bytes\<rparr>))"

primrec visit :: "nat \<Rightarrow> Env \<Rightarrow> SnapshotEnv \<Rightarrow> fs_state \<Rightarrow> path \<Rightarrow> path \<Rightarrow> SnapshotFile list \<Rightarrow> SnapshotFile list res option" where
  "visit 0 E S s root dir files = None"
| "visit (Suc depth) E S s root dir files =
     (case e_read_dir E s dir of
        Inl e \<Rightarrow> Some (Inl e)
      | Inr entries \<Rightarrow>
          try_entries (\<lambda>name files.
            let p = path_join dir name in
            case se_file_type S s p of
              Inl e \<Rightarrow> Some (Inl e)
            | Inr Symlink \<Rightarrow> Some (Inl (InvalidInput ''snapshot cannot contain symlinks''))
            | Inr Directory \<Rightarrow> visit depth E S s root p files
            | Inr Regular \<Rightarrow> Some (and_then (snapshot_file S s root p) (\<lambda>f. Inr (files @ [f])))
            | Inr Special \<Rightarrow> Some (Inr files)) (map fst entries) files)"

definition collect_files :: "nat \<Rightarrow> Env \<Rightarrow> SnapshotEnv \<Rightarrow> fs_state \<Rightarrow> path \<Rightarrow> SnapshotFile list res option" where
  "collect_files depth E S s root =
     map_option (\<lambda>r. and_then r (\<lambda>files. Inr (sort_key sf_path files))) (visit depth E S s root (path_join root ''series'') [])"

section \<open>Verification\<close>

definition verify_snapshot ::
  "nat \<Rightarrow> Env \<Rightarrow> SnapshotEnv \<Rightarrow> path \<Rightarrow> string option \<Rightarrow> fs_state \<Rightarrow> SnapshotManifest res option" where
  "verify_snapshot depth E S root expected_digest s =
     (let mismatch = Inl (InvalidData ''snapshot digest or file inventory mismatch'') in
      case and_then (read_lock_acquire E root s) (\<lambda>_.
        and_then (ensure (\<not> has_pending_recovery s root) (InvalidData ''snapshot has pending recovery'')) (\<lambda>_.
        and_then (read_file s (path_join root SNAPSHOT_FILE_NAME)) (se_from_json S))) of
        Inl e \<Rightarrow> Some (Inl e)
      | Inr snapshot \<Rightarrow>
          if sn_format_version snapshot \<noteq> 1 then Some mismatch
          else
            (case files_digest S (sn_files snapshot) of
               Inl e \<Rightarrow> Some (Inl e)
             | Inr digest \<Rightarrow>
                 if digest \<noteq> sn_digest snapshot \<or> (case expected_digest of None \<Rightarrow> False | Some expected \<Rightarrow> expected \<noteq> sn_digest snapshot)
                 then Some mismatch
                 else
                   map_option (\<lambda>r. and_then r (\<lambda>files. if files \<noteq> sn_files snapshot then mismatch else Inr snapshot))
                     (collect_files depth E S s root)))"

section \<open>Sealing\<close>

definition finalize_chunks :: "ChunkMeta list \<Rightarrow> ChunkMeta list res" where
  "finalize_chunks cs =
     and_then (ensure (\<forall>c \<in> set cs. cm_state c \<in> {Active, Sealed}) (InvalidData ''resolve transitional chunks before sealing'')) (\<lambda>_.
     Inr (map (\<lambda>c. if cm_state c = Active then c\<lparr>cm_state := Sealed\<rparr> else c) cs))"

definition finalize_series :: "Env \<Rightarrow> ManifestStore \<Rightarrow> path \<Rightarrow> unit \<Rightarrow> ManifestStore \<times> unit res" where
  "finalize_series E disk dir _ =
     then_do (load_disk E disk dir True) (\<lambda>disk meta.
     then_do (disk, finalize_chunks (sm_chunks meta)) (\<lambda>disk cs.
     if list_ex (\<lambda>c. cm_state c = Active) (sm_chunks meta) then
       save_disk E disk dir (meta\<lparr>sm_chunks := cs, sm_active_chunk_id := None,
         sm_manifest_seq := saturating_add (sm_manifest_seq meta) 1, sm_updated_at := e_now E\<rparr>)
     else (disk, Inr ())))"

definition snapshot_options :: ValidationOptions where
  "snapshot_options = \<lparr>vo_verbose = True, vo_revalidate_checksums = True\<rparr>"

definition write_snapshot :: "Env \<Rightarrow> SnapshotEnv \<Rightarrow> path \<Rightarrow> SnapshotFile list \<Rightarrow> ManifestStore \<Rightarrow> ManifestStore \<times> SnapshotManifest res" where
  "write_snapshot E S root files disk =
     then_do (disk, files_digest S files) (\<lambda>disk digest.
     let snapshot = \<lparr>sn_format_version = 1, sn_digest = digest, sn_files = files\<rparr>; dest = path_join root SNAPSHOT_FILE_NAME in
     then_do (disk, se_to_json S snapshot) (\<lambda>disk bytes.
     let (trace, r) = atomic_write_new (e_os E (ms_fs disk) dest) dest (bytes, None) (ms_fs disk) in
     (disk\<lparr>ms_fs := last trace\<rparr>, and_then r (\<lambda>_. Inr snapshot))))"

definition seal_snapshot ::
  "nat \<Rightarrow> Env \<Rightarrow> SnapshotEnv \<Rightarrow> path \<Rightarrow> ManifestStore \<Rightarrow> (ManifestStore \<times> SnapshotManifest res) option" where
  "seal_snapshot depth E S root disk =
     (if fs_exists (ms_fs disk) (path_join root SNAPSHOT_FILE_NAME)
      then map_option (Pair disk) (verify_snapshot depth E S root None (ms_fs disk))
      else
        ok_then (Some (case write_lock_acquire E root (ms_fs disk) of (s, r) \<Rightarrow> (disk\<lparr>ms_fs := s\<rparr>, r))) (\<lambda>disk _.
        ok_then (startup_recover_locked depth E False root (invalidate_root disk root)) (\<lambda>disk _.
        ok_then (map_option (Pair disk) (scrub_store depth E disk root snapshot_options)) (\<lambda>disk reports.
        ok_then (Some (disk, ensure (\<not> (reports = [] \<or> list_ex (\<lambda>report. \<not> validation_is_clean (sr_validation report)) reports))
          (InvalidData ''snapshot requires a non-empty, clean store; scrub/repair it first''))) (\<lambda>disk _.
        ok_then (map_option (Pair disk) (discover_series_dirs depth E (ms_fs disk) (path_join root ''series''))) (\<lambda>disk dirs.
        ok_then (Some (try_each (finalize_series E) disk dirs ())) (\<lambda>disk _.
        ok_then (map_option (Pair disk) (collect_files depth E S (ms_fs disk) root)) (\<lambda>disk files.
        Some (write_snapshot E S root files disk)))))))))"

end
