(* ===== verification/Registry.thy ===== *)
theory Registry
  imports Snapshot
begin

text \<open>
  The dataset registry (\<^verbatim>\<open>src/src/control/dataset_registry.rs\<close>): datasets, features and factors in SQL tables, and the
  bindings of published datasets to sealed snapshots. The SQL statements of the source are translated
  to functions on tables; the engine may fail any statement, in which case that statement changes nothing.
\<close>

section \<open>Rows\<close>

record DatasetRef =
  dr_dataset_id :: string
  dr_version :: string
  dr_fastk_root :: string

record DatasetManifestRecord =
  dm_dataset_id :: string
  dm_version :: string
  dm_fastk_root :: string
  dm_source :: string
  dm_market :: string
  dm_start_ts :: i64
  dm_end_ts :: i64
  dm_schema_version :: string
  dm_checksum :: "string option"
  dm_status :: string
  dm_created_at :: i64

record FeatureRegistryRecord =
  fe_feature_id :: string
  fe_name :: string
  fe_version :: string
  fe_input_dataset_id :: string
  fe_input_dataset_version :: string
  fe_fastk_series_key :: string
  fe_config_hash :: string
  fe_code_version :: "string option"
  fe_created_at :: i64
  fe_status :: string

record FactorRegistryRecord =
  fa_factor_id :: string
  fa_name :: string
  fa_version :: string
  fa_input_dataset_id :: string
  fa_input_dataset_version :: string
  fa_input_feature_refs :: string
  fa_fastk_series_key :: string
  fa_formula :: "string option"
  fa_method :: "string option"
  fa_config_hash :: string
  fa_code_version :: "string option"
  fa_created_at :: i64
  fa_status :: string

text \<open>A row of \<open>dataset_snapshot\<close>.\<close>

record SnapshotBinding =
  sb_dataset_id :: string
  sb_version :: string
  sb_fastk_root :: string
  sb_digest :: string

definition validate_required :: "string \<Rightarrow> string \<Rightarrow> unit res" where
  "validate_required field text = ensure (\<not> is_blank text) (InvalidInput (field @ '' must not be empty''))"

fun validate_all :: "(string \<times> string) list \<Rightarrow> unit res" where
  "validate_all [] = Inr ()"
| "validate_all ((field, text) # rest) = and_then (validate_required field text) (\<lambda>_. validate_all rest)"

definition versioned_dataset_root :: "path \<Rightarrow> string \<Rightarrow> string \<Rightarrow> path" where
  "versioned_dataset_root base_root dataset_id version = path_join (path_join (path_join base_root ''datasets'') dataset_id) version"

definition dataset_ref_new :: "string \<Rightarrow> string \<Rightarrow> string \<Rightarrow> DatasetRef res" where
  "dataset_ref_new dataset_id version fastk_root =
     and_then (validate_all [(''dataset_id'', dataset_id), (''version'', version), (''fastk_root'', fastk_root)]) (\<lambda>_.
     Inr \<lparr>dr_dataset_id = dataset_id, dr_version = version, dr_fastk_root = fastk_root\<rparr>)"

definition dataset_ref_versioned :: "path \<Rightarrow> string \<Rightarrow> string \<Rightarrow> DatasetRef res" where
  "dataset_ref_versioned base_root dataset_id version =
     dataset_ref_new dataset_id version (path_string (versioned_dataset_root base_root dataset_id version))"

text \<open>\<open>PathBuf::from\<close>.\<close>

definition path_of :: "string \<Rightarrow> path" where
  "path_of s = path_join \<lparr>has_root = False, comps = []\<rparr> s"

definition fastk_root_path :: "DatasetRef \<Rightarrow> path" where
  "fastk_root_path r = path_of (dr_fastk_root r)"

definition dm_dataset_ref :: "DatasetManifestRecord \<Rightarrow> DatasetRef" where
  "dm_dataset_ref r = \<lparr>dr_dataset_id = dm_dataset_id r, dr_version = dm_version r, dr_fastk_root = dm_fastk_root r\<rparr>"

definition dataset_validate :: "DatasetManifestRecord \<Rightarrow> unit res" where
  "dataset_validate r =
     and_then (validate_all [(''dataset_id'', dm_dataset_id r), (''version'', dm_version r), (''fastk_root'', dm_fastk_root r),
       (''source'', dm_source r), (''market'', dm_market r), (''schema_version'', dm_schema_version r), (''status'', dm_status r)]) (\<lambda>_.
     ensure (dm_start_ts r \<le> dm_end_ts r)
       (InvalidInput (''dataset '' @ dm_dataset_id r @ ''@'' @ dm_version r @ '' has start_ts '' @ fmt_i64 (dm_start_ts r)
         @ '' after end_ts '' @ fmt_i64 (dm_end_ts r))))"

definition feature_validate :: "FeatureRegistryRecord \<Rightarrow> unit res" where
  "feature_validate r =
     validate_all [(''feature_id'', fe_feature_id r), (''name'', fe_name r), (''version'', fe_version r),
       (''input_dataset_id'', fe_input_dataset_id r), (''input_dataset_version'', fe_input_dataset_version r),
       (''fastk_series_key'', fe_fastk_series_key r), (''config_hash'', fe_config_hash r), (''status'', fe_status r)]"

definition factor_validate :: "FactorRegistryRecord \<Rightarrow> unit res" where
  "factor_validate r =
     validate_all [(''factor_id'', fa_factor_id r), (''name'', fa_name r), (''version'', fa_version r),
       (''input_dataset_id'', fa_input_dataset_id r), (''input_dataset_version'', fa_input_dataset_version r),
       (''input_feature_refs'', fa_input_feature_refs r), (''fastk_series_key'', fa_fastk_series_key r),
       (''config_hash'', fa_config_hash r), (''status'', fa_status r)]"

section \<open>Tables\<close>

record 'r SqlTable =
  tb_columns :: "string list"
  tb_key :: "string list"
  tb_rows :: "'r list"

record RegistryDb =
  db_dataset_manifest :: "DatasetManifestRecord SqlTable option"
  db_legacy_manifest :: "DatasetManifestRecord SqlTable option"
  db_feature_registry :: "FeatureRegistryRecord SqlTable option"
  db_factor_registry :: "FactorRegistryRecord SqlTable option"
  db_dataset_snapshot :: "SnapshotBinding SqlTable option"

definition empty_db :: RegistryDb where
  "empty_db = \<lparr>db_dataset_manifest = None, db_legacy_manifest = None, db_feature_registry = None, db_factor_registry = None, db_dataset_snapshot = None\<rparr>"

text \<open>The statements the registry sends, for the failures of the engine: the message of the error, if it fails in a state.\<close>

datatype Statement =
    Connect | Foreign_keys | Table_exists | Table_info | Create_manifest | Rename_manifest | Copy_legacy | Drop_legacy | Create_indexes
  | Create_features | Create_factors | Create_snapshots | Add_column string
  | Upsert_dataset | Upsert_feature | Upsert_factor | Insert_snapshot | Begin_tx | Commit_tx
  | Select_dataset | Select_feature | Select_factor | Select_snapshot

type_synonym sql_faults = "Statement \<Rightarrow> RegistryDb \<Rightarrow> string option"

definition sql_query :: "sql_faults \<Rightarrow> Statement \<Rightarrow> RegistryDb \<Rightarrow> 'a res \<Rightarrow> 'a res" where
  "sql_query Q stmt db r = (case Q stmt db of Some m \<Rightarrow> Inl (Sqlite m) | None \<Rightarrow> r)"

definition sql_exec :: "sql_faults \<Rightarrow> Statement \<Rightarrow> (RegistryDb \<Rightarrow> (RegistryDb \<times> 'a) res) \<Rightarrow> RegistryDb \<Rightarrow> RegistryDb \<times> 'a res" where
  "sql_exec Q stmt f db =
     (case sql_query Q stmt db (f db) of Inl e \<Rightarrow> (db, Inl e) | Inr (db', x) \<Rightarrow> (db', Inr x))"

text \<open>The rows of a table whose columns and conflict target a statement names.\<close>

definition table_rows :: "string list \<Rightarrow> 'r SqlTable option \<Rightarrow> 'r list res" where
  "table_rows columns t =
     (case t of
        None \<Rightarrow> Inl (Sqlite ''no such table'')
      | Some t \<Rightarrow> and_then (ensure (set columns \<subseteq> set (tb_columns t)) (Sqlite ''no such column'')) (\<lambda>_. Inr (tb_rows t)))"

definition unique_on :: "string list \<Rightarrow> 'r SqlTable option \<Rightarrow> unit res" where
  "unique_on key t =
     ensure (case t of None \<Rightarrow> False | Some t \<Rightarrow> tb_key t = key)
       (Sqlite ''ON CONFLICT clause does not match any PRIMARY KEY or UNIQUE constraint'')"

definition with_rows :: "'r SqlTable option \<Rightarrow> 'r list \<Rightarrow> 'r SqlTable option" where
  "with_rows t rows = map_option (\<lambda>t. t\<lparr>tb_rows := rows\<rparr>) t"

text \<open>\<open>INSERT ... ON CONFLICT(key) DO UPDATE\<close> of every other column.\<close>

definition upsert_row :: "('r \<Rightarrow> 'k) \<Rightarrow> 'r \<Rightarrow> 'r list \<Rightarrow> 'r list" where
  "upsert_row key row rows =
     (if key row \<in> key ` set rows then map (\<lambda>r. if key r = key row then row else r) rows else rows @ [row])"

definition DATASET_COLUMNS :: "string list" where
  "DATASET_COLUMNS = [''dataset_id'', ''version'', ''fastk_root'', ''source'', ''market'', ''start_ts'', ''end_ts'',
     ''schema_version'', ''checksum'', ''status'', ''created_at'']"

definition FEATURE_COLUMNS :: "string list" where
  "FEATURE_COLUMNS = [''feature_id'', ''name'', ''version'', ''input_dataset_id'', ''input_dataset_version'',
     ''fastk_series_key'', ''config_hash'', ''code_version'', ''created_at'', ''status'']"

definition FACTOR_COLUMNS :: "string list" where
  "FACTOR_COLUMNS = [''factor_id'', ''name'', ''version'', ''input_dataset_id'', ''input_dataset_version'',
     ''input_feature_refs'', ''fastk_series_key'', ''formula'', ''method'', ''config_hash'', ''code_version'', ''created_at'', ''status'']"

definition SNAPSHOT_COLUMNS :: "string list" where
  "SNAPSHOT_COLUMNS = [''dataset_id'', ''version'', ''fastk_root'', ''digest'']"

abbreviation dm_key :: "DatasetManifestRecord \<Rightarrow> string \<times> string" where
  "dm_key r \<equiv> (dm_dataset_id r, dm_version r)"

abbreviation sb_key :: "SnapshotBinding \<Rightarrow> string \<times> string" where
  "sb_key b \<equiv> (sb_dataset_id b, sb_version b)"

section \<open>Schema\<close>

definition create_if_missing :: "string list \<Rightarrow> string list \<Rightarrow> 'r SqlTable option \<Rightarrow> 'r SqlTable option" where
  "create_if_missing columns key t = (case t of None \<Rightarrow> Some \<lparr>tb_columns = columns, tb_key = key, tb_rows = []\<rparr> | Some t \<Rightarrow> Some t)"

definition table_exists :: "sql_faults \<Rightarrow> RegistryDb \<Rightarrow> 'r SqlTable option \<Rightarrow> bool res" where
  "table_exists Q db t = sql_query Q Table_exists db (Inr (t \<noteq> None))"

definition primary_key_columns :: "sql_faults \<Rightarrow> RegistryDb \<Rightarrow> 'r SqlTable option \<Rightarrow> string list res" where
  "primary_key_columns Q db t = sql_query Q Table_info db (Inr (case t of None \<Rightarrow> [] | Some t \<Rightarrow> tb_key t))"

definition table_columns :: "sql_faults \<Rightarrow> RegistryDb \<Rightarrow> 'r SqlTable option \<Rightarrow> string list res" where
  "table_columns Q db t = sql_query Q Table_info db (Inr (case t of None \<Rightarrow> [] | Some t \<Rightarrow> tb_columns t))"

text \<open>
  \<open>ALTER TABLE ... ADD COLUMN\<close>: every row of the table gets the default value of the column, written
  by \<open>fill\<close>. The table is given by its field of the database.
\<close>

definition add_text_column_if_missing ::
  "sql_faults \<Rightarrow> (RegistryDb \<Rightarrow> 'r SqlTable option) \<Rightarrow> ('r SqlTable option \<Rightarrow> RegistryDb \<Rightarrow> RegistryDb) \<Rightarrow> string \<Rightarrow> ('r \<Rightarrow> 'r)
    \<Rightarrow> RegistryDb \<Rightarrow> RegistryDb \<times> unit res" where
  "add_text_column_if_missing Q table set_table column fill db =
     then_do (db, table_columns Q db (table db)) (\<lambda>db existing.
     if column \<in> set existing then (db, Inr ())
     else
       sql_exec Q (Add_column column) (\<lambda>db.
         case table db of
           None \<Rightarrow> Inl (Sqlite ''no such table'')
         | Some t \<Rightarrow> Inr (set_table (Some (t\<lparr>tb_columns := tb_columns t @ [column], tb_rows := map fill (tb_rows t)\<rparr>)) db, ())) db)"

definition create_dataset_manifest_table :: "sql_faults \<Rightarrow> RegistryDb \<Rightarrow> RegistryDb \<times> unit res" where
  "create_dataset_manifest_table Q db =
     then_do (sql_exec Q Create_manifest (\<lambda>db. Inr (db\<lparr>db_dataset_manifest :=
       create_if_missing DATASET_COLUMNS [''dataset_id'', ''version''] (db_dataset_manifest db)\<rparr>, ())) db) (\<lambda>db _.
     sql_exec Q Create_indexes (\<lambda>db. Inr (db, ())) db)"

definition migrate_dataset_manifest :: "sql_faults \<Rightarrow> RegistryDb \<Rightarrow> RegistryDb \<times> unit res" where
  "migrate_dataset_manifest Q db =
     then_do (sql_exec Q Rename_manifest (\<lambda>db.
       and_then (ensure (db_legacy_manifest db = None) (Sqlite ''there is already another table with this name'')) (\<lambda>_.
       Inr (db\<lparr>db_legacy_manifest := db_dataset_manifest db, db_dataset_manifest := None\<rparr>, ()))) db) (\<lambda>db _.
     then_do (create_dataset_manifest_table Q db) (\<lambda>db _.
     then_do (sql_exec Q Copy_legacy (\<lambda>db.
       and_then (table_rows DATASET_COLUMNS (db_legacy_manifest db)) (\<lambda>legacy.
       and_then (table_rows DATASET_COLUMNS (db_dataset_manifest db)) (\<lambda>rows.
       Inr (db\<lparr>db_dataset_manifest := with_rows (db_dataset_manifest db)
         (foldl (\<lambda>rows r. filter (\<lambda>x. dm_key x \<noteq> dm_key r) rows @ [r]) rows legacy)\<rparr>, ())))) db) (\<lambda>db _.
     sql_exec Q Drop_legacy (\<lambda>db. Inr (db\<lparr>db_legacy_manifest := None\<rparr>, ())) db)))"

definition ensure_dataset_manifest_schema :: "sql_faults \<Rightarrow> RegistryDb \<Rightarrow> RegistryDb \<times> unit res" where
  "ensure_dataset_manifest_schema Q db =
     then_do (db, table_exists Q db (db_dataset_manifest db)) (\<lambda>db exists.
     if \<not> exists then create_dataset_manifest_table Q db
     else
       then_do (db, primary_key_columns Q db (db_dataset_manifest db)) (\<lambda>db pk.
       then_do (if pk \<noteq> [''dataset_id'', ''version''] then migrate_dataset_manifest Q db else (db, Inr ())) (\<lambda>db _.
       sql_exec Q Create_indexes (\<lambda>db. Inr (db, ())) db)))"

abbreviation add_feature_column :: "sql_faults \<Rightarrow> string \<Rightarrow> (FeatureRegistryRecord \<Rightarrow> FeatureRegistryRecord) \<Rightarrow> RegistryDb \<Rightarrow> RegistryDb \<times> unit res" where
  "add_feature_column Q \<equiv> add_text_column_if_missing Q db_feature_registry (\<lambda>t db. db\<lparr>db_feature_registry := t\<rparr>)"

abbreviation add_factor_column :: "sql_faults \<Rightarrow> string \<Rightarrow> (FactorRegistryRecord \<Rightarrow> FactorRegistryRecord) \<Rightarrow> RegistryDb \<Rightarrow> RegistryDb \<times> unit res" where
  "add_factor_column Q \<equiv> add_text_column_if_missing Q db_factor_registry (\<lambda>t db. db\<lparr>db_factor_registry := t\<rparr>)"

definition ensure_feature_registry_schema :: "sql_faults \<Rightarrow> RegistryDb \<Rightarrow> RegistryDb \<times> unit res" where
  "ensure_feature_registry_schema Q db =
     then_do (sql_exec Q Create_features (\<lambda>db. Inr (db\<lparr>db_feature_registry :=
       create_if_missing FEATURE_COLUMNS [''feature_id''] (db_feature_registry db)\<rparr>, ())) db) (\<lambda>db _.
     then_do (add_feature_column Q ''input_dataset_version'' (\<lambda>r. r\<lparr>fe_input_dataset_version := []\<rparr>) db) (\<lambda>db _.
     then_do (add_feature_column Q ''status'' (\<lambda>r. r\<lparr>fe_status := ''active''\<rparr>) db) (\<lambda>db _.
     sql_exec Q Create_indexes (\<lambda>db. Inr (db, ())) db)))"

definition ensure_factor_registry_schema :: "sql_faults \<Rightarrow> RegistryDb \<Rightarrow> RegistryDb \<times> unit res" where
  "ensure_factor_registry_schema Q db =
     then_do (sql_exec Q Create_factors (\<lambda>db. Inr (db\<lparr>db_factor_registry :=
       create_if_missing FACTOR_COLUMNS [''factor_id''] (db_factor_registry db)\<rparr>, ())) db) (\<lambda>db _.
     then_do (add_factor_column Q ''input_dataset_id'' (\<lambda>r. r\<lparr>fa_input_dataset_id := []\<rparr>) db) (\<lambda>db _.
     then_do (add_factor_column Q ''input_dataset_version'' (\<lambda>r. r\<lparr>fa_input_dataset_version := []\<rparr>) db) (\<lambda>db _.
     then_do (add_factor_column Q ''input_feature_refs'' (\<lambda>r. r\<lparr>fa_input_feature_refs := ''[]''\<rparr>) db) (\<lambda>db _.
     then_do (add_factor_column Q ''method'' (\<lambda>r. r\<lparr>fa_method := None\<rparr>) db) (\<lambda>db _.
     then_do (add_factor_column Q ''code_version'' (\<lambda>r. r\<lparr>fa_code_version := None\<rparr>) db) (\<lambda>db _.
     then_do (add_factor_column Q ''status'' (\<lambda>r. r\<lparr>fa_status := ''active''\<rparr>) db) (\<lambda>db _.
     sql_exec Q Create_indexes (\<lambda>db. Inr (db, ())) db)))))))"

definition registry_init :: "sql_faults \<Rightarrow> RegistryDb \<Rightarrow> RegistryDb \<times> unit res" where
  "registry_init Q db =
     then_do (sql_exec Q Foreign_keys (\<lambda>db. Inr (db, ())) db) (\<lambda>db _.
     then_do (ensure_dataset_manifest_schema Q db) (\<lambda>db _.
     then_do (ensure_feature_registry_schema Q db) (\<lambda>db _.
     then_do (ensure_factor_registry_schema Q db) (\<lambda>db _.
     sql_exec Q Create_snapshots (\<lambda>db. Inr (db\<lparr>db_dataset_snapshot :=
       create_if_missing SNAPSHOT_COLUMNS [''dataset_id'', ''version''] (db_dataset_snapshot db)\<rparr>, ())) db))))"

text \<open>The database a file holds is given to \<open>open\<close>; the parent directory is created first.\<close>

definition registry_open :: "sql_faults \<Rightarrow> Env \<Rightarrow> path \<Rightarrow> fs_state \<Rightarrow> RegistryDb \<Rightarrow> (fs_state \<times> RegistryDb) \<times> unit res" where
  "registry_open Q E p s db =
     (case (case path_parent p of
              Some parent \<Rightarrow> if parent = \<lparr>has_root = False, comps = []\<rparr> then (s, Inr ()) else make_dir E parent s
            | None \<Rightarrow> (s, Inr ())) of
        (s, Inl e) \<Rightarrow> ((s, db), Inl e)
      | (s, Inr _) \<Rightarrow>
          let (db, r) = then_do (sql_exec Q Connect (\<lambda>db. Inr (db, ())) db) (\<lambda>db _. registry_init Q db) in ((s, db), r))"

definition in_memory :: "sql_faults \<Rightarrow> RegistryDb \<times> unit res" where
  "in_memory Q = then_do (sql_exec Q Connect (\<lambda>db. Inr (db, ())) empty_db) (\<lambda>db _. registry_init Q db)"

section \<open>Datasets\<close>

definition get_dataset :: "sql_faults \<Rightarrow> RegistryDb \<Rightarrow> string \<Rightarrow> string \<Rightarrow> DatasetManifestRecord option res" where
  "get_dataset Q db dataset_id version =
     and_then (validate_all [(''dataset_id'', dataset_id), (''version'', version)]) (\<lambda>_.
     sql_query Q Select_dataset db (and_then (table_rows DATASET_COLUMNS (db_dataset_manifest db)) (\<lambda>rows.
       Inr (find (\<lambda>r. dm_key r = (dataset_id, version)) rows))))"

text \<open>The statement of \<open>upsert_dataset\<close>: a conflicting row is updated unless the version is bound to a snapshot; the number of rows changed.\<close>

definition upsert_dataset_sql :: "DatasetManifestRecord \<Rightarrow> RegistryDb \<Rightarrow> (RegistryDb \<times> nat) res" where
  "upsert_dataset_sql record db =
     and_then (table_rows DATASET_COLUMNS (db_dataset_manifest db)) (\<lambda>rows.
     and_then (unique_on [''dataset_id'', ''version''] (db_dataset_manifest db)) (\<lambda>_.
     and_then (table_rows [''dataset_id'', ''version''] (db_dataset_snapshot db)) (\<lambda>bindings.
     if dm_key record \<in> dm_key ` set rows \<and> dm_key record \<in> sb_key ` set bindings then Inr (db, 0)
     else Inr (db\<lparr>db_dataset_manifest := with_rows (db_dataset_manifest db) (upsert_row dm_key record rows)\<rparr>, 1))))"

definition upsert_dataset :: "sql_faults \<Rightarrow> DatasetManifestRecord \<Rightarrow> RegistryDb \<Rightarrow> RegistryDb \<times> unit res" where
  "upsert_dataset Q record db =
     then_do (db, dataset_validate record) (\<lambda>db _.
     then_do (sql_exec Q Upsert_dataset (upsert_dataset_sql record) db) (\<lambda>db changed.
     if changed = 0 then
       then_do (db, get_dataset Q db (dm_dataset_id record) (dm_version record)) (\<lambda>db stored.
       (db, ensure (stored = Some record) (InvalidInput ''sealed dataset binding cannot change; publish a new version'')))
     else (db, Inr ())))"

definition snapshot_binding :: "sql_faults \<Rightarrow> RegistryDb \<Rightarrow> string \<Rightarrow> string \<Rightarrow> (string \<times> string) option res" where
  "snapshot_binding Q db dataset_id version =
     sql_query Q Select_snapshot db (and_then (table_rows SNAPSHOT_COLUMNS (db_dataset_snapshot db)) (\<lambda>rows.
       Inr (map_option (\<lambda>b. (sb_fastk_root b, sb_digest b)) (find (\<lambda>b. sb_key b = (dataset_id, version)) rows))))"

definition insert_snapshot_sql :: "SnapshotBinding \<Rightarrow> RegistryDb \<Rightarrow> (RegistryDb \<times> unit) res" where
  "insert_snapshot_sql b db =
     and_then (table_rows SNAPSHOT_COLUMNS (db_dataset_snapshot db)) (\<lambda>rows.
     and_then (ensure (sb_key b \<notin> sb_key ` set rows) (Sqlite ''UNIQUE constraint failed'')) (\<lambda>_.
     Inr (db\<lparr>db_dataset_snapshot := with_rows (db_dataset_snapshot db) (rows @ [b])\<rparr>, ())))"

text \<open>The transaction of \<open>publish_dataset\<close>: it is rolled back when it is dropped before the commit.\<close>

definition publish_tx :: "sql_faults \<Rightarrow> DatasetManifestRecord \<Rightarrow> string \<Rightarrow> RegistryDb \<Rightarrow> RegistryDb \<times> DatasetManifestRecord res" where
  "publish_tx Q published digest db =
     (let b = \<lparr>sb_dataset_id = dm_dataset_id published, sb_version = dm_version published,
               sb_fastk_root = dm_fastk_root published, sb_digest = digest\<rparr> in
      case then_do (sql_exec Q Begin_tx (\<lambda>db. Inr (db, ())) db) (\<lambda>db _.
        then_do (upsert_dataset Q published db) (\<lambda>db _.
        then_do (sql_exec Q Insert_snapshot (insert_snapshot_sql b) db) (\<lambda>db _.
        sql_exec Q Commit_tx (\<lambda>db. Inr (db, ())) db))) of
        (db', Inr _) \<Rightarrow> (db', Inr published)
      | (_, Inl e) \<Rightarrow> (db, Inl e))"

definition publish_dataset ::
  "nat \<Rightarrow> Env \<Rightarrow> SnapshotEnv \<Rightarrow> sql_faults \<Rightarrow> DatasetManifestRecord \<Rightarrow> RegistryDb \<times> ManifestStore
    \<Rightarrow> ((RegistryDb \<times> ManifestStore) \<times> DatasetManifestRecord res) option" where
  "publish_dataset depth E S Q record = (\<lambda>(db, disk).
     case and_then (dataset_validate record) (\<lambda>_. snapshot_binding Q db (dm_dataset_id record) (dm_version record)) of
       Inl e \<Rightarrow> Some ((db, disk), Inl e)
     | Inr (Some (root, digest)) \<Rightarrow>
         if root \<noteq> dm_fastk_root record then Some ((db, disk), Inl (InvalidInput ''sealed dataset binding cannot change''))
         else
           map_option (\<lambda>v. ((db, disk), and_then v (\<lambda>_.
             and_then (get_dataset Q db (dm_dataset_id record) (dm_version record)) (\<lambda>stored.
             ok_or stored (InvalidData ''snapshot catalog row missing'')))))
             (verify_snapshot depth E S (path_of root) (Some digest) (ms_fs disk))
     | Inr None \<Rightarrow>
         map_option (\<lambda>(disk, r).
           case r of
             Inl e \<Rightarrow> ((db, disk), Inl e)
           | Inr snapshot \<Rightarrow>
               let (db, r) = publish_tx Q (record\<lparr>dm_status := ''sealed'', dm_checksum := Some (sn_digest snapshot)\<rparr>) (sn_digest snapshot) db
               in ((db, disk), r))
           (seal_snapshot depth E S (path_of (dm_fastk_root record)) disk))"

definition get_latest_dataset :: "sql_faults \<Rightarrow> RegistryDb \<Rightarrow> string \<Rightarrow> DatasetManifestRecord option res" where
  "get_latest_dataset Q db dataset_id =
     and_then (validate_required ''dataset_id'' dataset_id) (\<lambda>_.
     sql_query Q Select_dataset db (and_then (table_rows DATASET_COLUMNS (db_dataset_manifest db)) (\<lambda>rows.
       let matching = sort_key dm_created_at (sort_key dm_version (filter (\<lambda>r. dm_dataset_id r = dataset_id) rows)) in
       Inr (if matching = [] then None else Some (last matching)))))"

definition list_datasets :: "sql_faults \<Rightarrow> RegistryDb \<Rightarrow> DatasetManifestRecord list res" where
  "list_datasets Q db =
     sql_query Q Select_dataset db (and_then (table_rows DATASET_COLUMNS (db_dataset_manifest db)) (\<lambda>rows.
       Inr (sort_key dm_dataset_id (sort_key dm_version rows))))"

definition dataset_ref ::
  "nat \<Rightarrow> Env \<Rightarrow> SnapshotEnv \<Rightarrow> sql_faults \<Rightarrow> RegistryDb \<Rightarrow> fs_state \<Rightarrow> string \<Rightarrow> string \<Rightarrow> DatasetRef option res option" where
  "dataset_ref depth E S Q db s dataset_id version =
     (case and_then (get_dataset Q db dataset_id version) (\<lambda>record.
        and_then (snapshot_binding Q db dataset_id version) (\<lambda>binding. Inr (record, binding))) of
        Inl e \<Rightarrow> Some (Inl e)
      | Inr (record, None) \<Rightarrow> Some (Inr (map_option dm_dataset_ref record))
      | Inr (record, Some (root, digest)) \<Rightarrow>
          if (case record of None \<Rightarrow> True | Some record \<Rightarrow> dm_fastk_root record \<noteq> root)
          then Some (Inl (InvalidData ''snapshot catalog binding mismatch''))
          else map_option (\<lambda>v. and_then v (\<lambda>_. Inr (map_option dm_dataset_ref record)))
                 (verify_snapshot depth E S (path_of root) (Some digest) s))"

definition resolve_fastk_root ::
  "nat \<Rightarrow> Env \<Rightarrow> SnapshotEnv \<Rightarrow> sql_faults \<Rightarrow> RegistryDb \<Rightarrow> fs_state \<Rightarrow> string \<Rightarrow> string \<Rightarrow> path res option" where
  "resolve_fastk_root depth E S Q db s dataset_id version =
     map_option (\<lambda>r. and_then r (\<lambda>found. ok_or (map_option fastk_root_path found) (NotFound (''dataset not found: '' @ dataset_id @ ''@'' @ version))))
       (dataset_ref depth E S Q db s dataset_id version)"

definition resolve_dataset_ref ::
  "nat \<Rightarrow> Env \<Rightarrow> SnapshotEnv \<Rightarrow> sql_faults \<Rightarrow> RegistryDb \<Rightarrow> fs_state \<Rightarrow> DatasetRef \<Rightarrow> path res option" where
  "resolve_dataset_ref depth E S Q db s r =
     map_option (\<lambda>found. and_then found (\<lambda>found.
       and_then (ok_or found (NotFound (''dataset not found: '' @ dr_dataset_id r @ ''@'' @ dr_version r))) (\<lambda>stored.
       and_then (ensure (dr_fastk_root stored = dr_fastk_root r)
         (InvalidInput (''dataset ref root mismatch for '' @ dr_dataset_id r @ ''@'' @ dr_version r
           @ '': registry='' @ dr_fastk_root stored @ '' ref='' @ dr_fastk_root r))) (\<lambda>_.
       Inr (fastk_root_path stored)))))
       (dataset_ref depth E S Q db s (dr_dataset_id r) (dr_version r))"

definition resolve_latest_fastk_root :: "sql_faults \<Rightarrow> RegistryDb \<Rightarrow> string \<Rightarrow> path res" where
  "resolve_latest_fastk_root Q db dataset_id =
     and_then (get_latest_dataset Q db dataset_id) (\<lambda>found.
     ok_or (map_option (\<lambda>d. fastk_root_path (dm_dataset_ref d)) found) (NotFound (''dataset not found: '' @ dataset_id)))"

section \<open>Features and factors\<close>

definition upsert_feature :: "sql_faults \<Rightarrow> FeatureRegistryRecord \<Rightarrow> RegistryDb \<Rightarrow> RegistryDb \<times> unit res" where
  "upsert_feature Q record db =
     then_do (db, feature_validate record) (\<lambda>db _.
     sql_exec Q Upsert_feature (\<lambda>db.
       and_then (table_rows FEATURE_COLUMNS (db_feature_registry db)) (\<lambda>rows.
       and_then (unique_on [''feature_id''] (db_feature_registry db)) (\<lambda>_.
       Inr (db\<lparr>db_feature_registry := with_rows (db_feature_registry db) (upsert_row fe_feature_id record rows)\<rparr>, ())))) db)"

definition get_feature :: "sql_faults \<Rightarrow> RegistryDb \<Rightarrow> string \<Rightarrow> FeatureRegistryRecord option res" where
  "get_feature Q db feature_id =
     and_then (validate_required ''feature_id'' feature_id) (\<lambda>_.
     sql_query Q Select_feature db (and_then (table_rows FEATURE_COLUMNS (db_feature_registry db)) (\<lambda>rows.
       Inr (find (\<lambda>r. fe_feature_id r = feature_id) rows))))"

definition select_features :: "sql_faults \<Rightarrow> RegistryDb \<Rightarrow> (FeatureRegistryRecord \<Rightarrow> bool) \<Rightarrow> FeatureRegistryRecord list res" where
  "select_features Q db P =
     sql_query Q Select_feature db (and_then (table_rows FEATURE_COLUMNS (db_feature_registry db)) (\<lambda>rows.
       Inr (sort_key fe_feature_id (filter P rows))))"

definition list_features :: "sql_faults \<Rightarrow> RegistryDb \<Rightarrow> string option \<Rightarrow> FeatureRegistryRecord list res" where
  "list_features Q db input_dataset_id =
     (case input_dataset_id of
        Some d \<Rightarrow> and_then (validate_required ''input_dataset_id'' d) (\<lambda>_. select_features Q db (\<lambda>r. fe_input_dataset_id r = d))
      | None \<Rightarrow> select_features Q db (\<lambda>_. True))"

definition list_features_for_dataset :: "sql_faults \<Rightarrow> RegistryDb \<Rightarrow> string \<Rightarrow> string \<Rightarrow> FeatureRegistryRecord list res" where
  "list_features_for_dataset Q db d v =
     and_then (validate_all [(''input_dataset_id'', d), (''input_dataset_version'', v)]) (\<lambda>_.
     select_features Q db (\<lambda>r. fe_input_dataset_id r = d \<and> fe_input_dataset_version r = v))"

definition upsert_factor :: "sql_faults \<Rightarrow> FactorRegistryRecord \<Rightarrow> RegistryDb \<Rightarrow> RegistryDb \<times> unit res" where
  "upsert_factor Q record db =
     then_do (db, factor_validate record) (\<lambda>db _.
     sql_exec Q Upsert_factor (\<lambda>db.
       and_then (table_rows FACTOR_COLUMNS (db_factor_registry db)) (\<lambda>rows.
       and_then (unique_on [''factor_id''] (db_factor_registry db)) (\<lambda>_.
       Inr (db\<lparr>db_factor_registry := with_rows (db_factor_registry db) (upsert_row fa_factor_id record rows)\<rparr>, ())))) db)"

definition get_factor :: "sql_faults \<Rightarrow> RegistryDb \<Rightarrow> string \<Rightarrow> FactorRegistryRecord option res" where
  "get_factor Q db factor_id =
     and_then (validate_required ''factor_id'' factor_id) (\<lambda>_.
     sql_query Q Select_factor db (and_then (table_rows FACTOR_COLUMNS (db_factor_registry db)) (\<lambda>rows.
       Inr (find (\<lambda>r. fa_factor_id r = factor_id) rows))))"

definition select_factors :: "sql_faults \<Rightarrow> RegistryDb \<Rightarrow> (FactorRegistryRecord \<Rightarrow> bool) \<Rightarrow> FactorRegistryRecord list res" where
  "select_factors Q db P =
     sql_query Q Select_factor db (and_then (table_rows FACTOR_COLUMNS (db_factor_registry db)) (\<lambda>rows.
       Inr (sort_key fa_factor_id (filter P rows))))"

definition list_factors :: "sql_faults \<Rightarrow> RegistryDb \<Rightarrow> string option \<Rightarrow> FactorRegistryRecord list res" where
  "list_factors Q db input_dataset_id =
     (case input_dataset_id of
        Some d \<Rightarrow> and_then (validate_required ''input_dataset_id'' d) (\<lambda>_. select_factors Q db (\<lambda>r. fa_input_dataset_id r = d))
      | None \<Rightarrow> select_factors Q db (\<lambda>_. True))"

definition list_factors_for_dataset :: "sql_faults \<Rightarrow> RegistryDb \<Rightarrow> string \<Rightarrow> string \<Rightarrow> FactorRegistryRecord list res" where
  "list_factors_for_dataset Q db d v =
     and_then (validate_all [(''input_dataset_id'', d), (''input_dataset_version'', v)]) (\<lambda>_.
     select_factors Q db (\<lambda>r. fa_input_dataset_id r = d \<and> fa_input_dataset_version r = v))"

end
