(* ===== verification/RangeWrites.thy ===== *)
theory RangeWrites
  imports StoreAdmin
begin

text \<open>
  Range writes (\<^verbatim>\<open>src/src/store_core/engine/store_writes.rs\<close>, \<open>next_month_start\<close> of
  \<^verbatim>\<open>storage/path.rs\<close>): a batch of ordered records is split at the starts of the UTC months, checked
  against the chunks already there, and written month by month. The date arithmetic of chrono is a
  parameter: the instant at which the month after a timestamp starts. The splitting loop is a partial
  function, so that a loop without progress is the value \<open>None\<close>. Shown here: with a calendar whose
  months are intervals the loop ends, and its batches are the records grouped by month.
\<close>

section \<open>Splitting by month\<close>

type_synonym months = "i64 \<Rightarrow> i64 option"

definition next_month_start :: "months \<Rightarrow> i64 \<Rightarrow> i64 res" where
  "next_month_start next_month ts = ok_or (next_month ts) (InvalidInput ''timestamp outside supported UTC month range'')"

partial_function (option) month_loop ::
  "'r FixedRecord \<Rightarrow> calendar \<Rightarrow> months \<Rightarrow> 'r list \<Rightarrow> (string \<times> 'r list) list res option" where
  "month_loop R utc next_month records =
     (if records = [] then Some (Inr [])
      else
        (case month_key utc (ts_of R (hd records)) of
           Inl e \<Rightarrow> Some (Inl e)
         | Inr month \<Rightarrow>
             (case next_month_start next_month (ts_of R (hd records)) of
                Inl e \<Rightarrow> Some (Inl e)
              | Inr stop \<Rightarrow>
                  let count = partition_point (\<lambda>r. ts_of R r < stop) records in
                  Option.bind (month_loop R utc next_month (drop count records)) (\<lambda>rest.
                    Some (and_then rest (\<lambda>batches. Inr ((month, take count records) # batches)))))))"

definition month_batches :: "'r FixedRecord \<Rightarrow> calendar \<Rightarrow> months \<Rightarrow> 'r list \<Rightarrow> (string \<times> 'r list) list res option" where
  "month_batches R utc next_month records =
     (if records = [] then Some (Inr [])
      else
        (case validate_strict_order R records of
           Inl e \<Rightarrow> Some (Inl e)
         | Inr _ \<Rightarrow> month_loop R utc next_month records))"

section \<open>Range writes\<close>

record RangeWriteSummary =
  rs_timeframe_ms :: i64
  rs_registered :: bool
  rs_requested_record_count :: nat
  rs_written_record_count :: nat
  rs_month_batches_written :: nat

definition preflight_month :: "'r FixedRecord \<Rightarrow> SeriesMeta \<Rightarrow> string \<times> 'r list \<Rightarrow> unit res" where
  "preflight_month R meta batch =
     (case map cm_end_ts (filter (\<lambda>c. is_readable (cm_state c)) (month_chunks meta (fst batch))) of
        [] \<Rightarrow> Inr ()
      | e # es \<Rightarrow>
          (case snd batch of
             [] \<Rightarrow> Inl (Panic ''index out of bounds'')
           | r # _ \<Rightarrow> ensure (\<not> ts_of R r \<le> foldl max e es) (InvalidInput ''write would overlap existing month coverage'')))"

definition preflight_overlap :: "'r FixedRecord \<Rightarrow> SeriesMeta option \<Rightarrow> (string \<times> 'r list) list \<Rightarrow> unit res" where
  "preflight_overlap R meta months =
     (case meta of
        None \<Rightarrow> Inr ()
      | Some meta \<Rightarrow> and_then (collect_res (preflight_month R meta) months) (\<lambda>_. Inr ()))"

text \<open>The error of a month names the months already written; the text of its cause is left out.\<close>

definition debug_strings :: "string list \<Rightarrow> string" where
  "debug_strings xs = ''['' @ concat (case map (\<lambda>x. [CHR 0x22] @ x @ [CHR 0x22]) xs of [] \<Rightarrow> [] | y # ys \<Rightarrow> y # map (append '', '') ys) @ '']''"

definition monthly_write_error :: "FastKError \<Rightarrow> string list \<Rightarrow> FastKError" where
  "monthly_write_error e completed =
     InvalidData (''monthly write failed; completed_months='' @ debug_strings completed @ ''; failed month may require recovery'')"

definition write_month ::
  "(FastKStore \<Rightarrow> 'r list \<Rightarrow> FastKStore \<times> unit res) \<Rightarrow> FastKStore \<Rightarrow> string \<times> 'r list \<Rightarrow> string list \<Rightarrow> FastKStore \<times> string list res" where
  "write_month put st batch completed =
     (case put st (snd batch) of
        (st, Inl e) \<Rightarrow> (st, Inl (monthly_write_error e completed))
      | (st, Inr _) \<Rightarrow> (st, Inr (completed @ [fst batch])))"

definition write_months ::
  "(FastKStore \<Rightarrow> 'r list \<Rightarrow> FastKStore \<times> unit res) \<Rightarrow> FastKStore \<Rightarrow> (string \<times> 'r list) list \<Rightarrow> FastKStore \<times> string list res" where
  "write_months put st months = try_each (write_month put) st months []"

definition existing_series :: "FastKStore \<times> SeriesMeta res \<Rightarrow> FastKStore \<times> SeriesMeta option res" where
  "existing_series m =
     (case m of
        (st, Inr meta) \<Rightarrow> (st, Inr (Some meta))
      | (st, Inl (NotFound _)) \<Rightarrow> (st, Inr None)
      | (st, Inl e) \<Rightarrow> (st, Inl e))"

definition init_if_missing :: "nat \<Rightarrow> Env \<Rightarrow> FastKStore \<Rightarrow> (FastKStore \<times> unit res) option" where
  "init_if_missing depth E st =
     (if fs_exists (ms_fs (fk_disk st)) (path_join (fk_root st) ''series'') then Some (st, Inr ()) else init_locked depth E st)"

definition range_summary :: "i64 \<Rightarrow> SeriesMeta option \<Rightarrow> 'r list \<Rightarrow> string list \<Rightarrow> RangeWriteSummary" where
  "range_summary timeframe_ms existing records completed =
     \<lparr>rs_timeframe_ms = timeframe_ms, rs_registered = (existing = None), rs_requested_record_count = length records,
      rs_written_record_count = length records, rs_month_batches_written = length completed\<rparr>"

definition append_kline_range ::
  "nat \<Rightarrow> Env \<Rightarrow> months \<Rightarrow> FastKStore \<Rightarrow> string \<Rightarrow> string \<Rightarrow> KlineRecord list \<Rightarrow> i64 \<Rightarrow> i64 \<Rightarrow> i64 \<Rightarrow>
   (FastKStore \<times> RangeWriteSummary res) option" where
  "append_kline_range depth E next_month st symbol timeframe records timeframe_ms price_scale volume_scale =
     ok_then (Some (st, validate_configuration timeframe_ms price_scale volume_scale)) (\<lambda>st _.
     ok_then (map_option (Pair st) (month_batches kline_record (e_utc E) next_month records)) (\<lambda>st months.
     ok_then (begin_mutation depth E st) (\<lambda>st _.
     ok_then (Some (existing_series (load_kline_meta E st symbol timeframe))) (\<lambda>st existing.
     ok_then (Some (st, case existing of
         None \<Rightarrow> Inr ()
       | Some meta \<Rightarrow> validate_existing_series meta timeframe_ms price_scale volume_scale)) (\<lambda>st _.
     ok_then (Some (st, preflight_overlap kline_record existing months)) (\<lambda>st _.
     ok_then (init_if_missing depth E st) (\<lambda>st _.
     ok_then (Some (if existing = None
         then register_kline_series_locked E st symbol timeframe timeframe_ms price_scale volume_scale
         else (st, Inr ()))) (\<lambda>st _.
     ok_then (Some (write_months (\<lambda>st. put_kline_chunk_locked E st symbol timeframe) st months)) (\<lambda>st completed.
     Some (st, Inr (range_summary timeframe_ms existing records completed)))))))))))"

text \<open>The timeframe of a scalar series: the one it has, the one given, or that of the klines it is scoped to.\<close>

definition scalar_timeframe ::
  "Env \<Rightarrow> FastKStore \<Rightarrow> ScalarSeriesKey \<Rightarrow> SeriesMeta option \<Rightarrow> i64 option \<Rightarrow> FastKStore \<times> i64 res" where
  "scalar_timeframe E st key existing timeframe_ms =
     (case (existing, timeframe_ms) of
        (Some meta, Some given) \<Rightarrow>
          if sm_timeframe_ms meta \<noteq> given
          then (st, Inl (InvalidInput ''scalar timeframe does not match existing series''))
          else (st, Inr (sm_timeframe_ms meta))
      | (Some meta, None) \<Rightarrow> (st, Inr (sm_timeframe_ms meta))
      | (None, Some given) \<Rightarrow> (st, Inr given)
      | (None, None) \<Rightarrow>
          (case decode_scoped_scalar_key key of
             None \<Rightarrow> (st, Inl (InvalidInput ''timeframe_ms required for unscoped scalar series''))
           | Some binding \<Rightarrow>
               then_do (load_kline_meta E st (key_symbol key) (sb_timeframe binding)) (\<lambda>st meta. (st, Inr (sm_timeframe_ms meta)))))"

definition append_scalar_range ::
  "nat \<Rightarrow> Env \<Rightarrow> months \<Rightarrow> FastKStore \<Rightarrow> ScalarSeriesKey \<Rightarrow> ScalarRecord list \<Rightarrow> i64 option \<Rightarrow>
   (FastKStore \<times> RangeWriteSummary res) option" where
  "append_scalar_range depth E next_month st key records timeframe_ms =
     ok_then (Some (st, ensure (\<not> (case timeframe_ms of None \<Rightarrow> False | Some given \<Rightarrow> given \<le> i64_of_int 0))
       (InvalidInput ''timeframe_ms must be positive''))) (\<lambda>st _.
     ok_then (map_option (Pair st) (month_batches scalar_record (e_utc E) next_month records)) (\<lambda>st months.
     ok_then (begin_mutation depth E st) (\<lambda>st _.
     ok_then (Some (existing_series (load_scalar_meta E st key))) (\<lambda>st existing.
     ok_then (Some (scalar_timeframe E st key existing timeframe_ms)) (\<lambda>st timeframe_ms.
     ok_then (Some (st, preflight_overlap scalar_record existing months)) (\<lambda>st _.
     ok_then (init_if_missing depth E st) (\<lambda>st _.
     ok_then (Some (if existing = None then register_scalar_series_locked E st key timeframe_ms else (st, Inr ()))) (\<lambda>st _.
     ok_then (Some (write_months (\<lambda>st rows. append_scalar_chunk_locked E st key timeframe_ms rows DEFAULT_SCALAR_ZMAP_BLOCK_SIZE)
         st months)) (\<lambda>st completed.
     Some (st, Inr (range_summary timeframe_ms existing records completed)))))))))))"

section \<open>The batches of a range\<close>

text \<open>
  What is used of chrono: the next month starts after the timestamp, the timestamps up to that instant
  are in the same month, and those from it on are in others.
\<close>

definition month_of :: "calendar \<Rightarrow> i64 \<Rightarrow> (int \<times> nat) option" where
  "month_of utc t = map_option (\<lambda>(year, month, day, hour). (year, month)) (utc t)"

definition months_are_intervals :: "calendar \<Rightarrow> months \<Rightarrow> bool" where
  "months_are_intervals utc next_month \<longleftrightarrow>
     (\<forall>t stop. next_month t = Some stop \<longrightarrow>
        t < stop \<and> (\<forall>u. t \<le> u \<and> u < stop \<longrightarrow> month_of utc u = month_of utc t)
        \<and> (\<forall>u. stop \<le> u \<longrightarrow> month_of utc u \<noteq> month_of utc t))"

lemma month_key_month_of:
  "month_key utc t = Inr k \<longleftrightarrow> (\<exists>year month. month_of utc t = Some (year, month) \<and> k = fmt_year year @ ''-'' @ fmt_pad 2 month)"
  by (auto simp: month_key_def month_of_def ok_or_def split: option.splits)

lemma month_key_same: "month_key utc t = Inr k \<Longrightarrow> month_key utc u = Inr k \<longleftrightarrow> month_of utc u = month_of utc t"
proof -
  define K where "K = (\<lambda>year month. fmt_year year @ ''-'' @ fmt_pad 2 month)"
  have inj: "K y m = K y' m' \<longleftrightarrow> y = y' \<and> m = m'" for y m y' m' unfolding K_def by (rule period_keys_inject)
  have key: "month_key utc t = Inr k \<longleftrightarrow> (\<exists>year month. month_of utc t = Some (year, month) \<and> k = K year month)" for t k
    unfolding K_def by (rule month_key_month_of)
  show "month_key utc t = Inr k \<Longrightarrow> ?thesis" by (cases "month_of utc u") (auto simp: key inj)
qed

lemma month_loop_groups:
  assumes law: "months_are_intervals utc next_month" and "sorted (map (ts_of R) rs)"
    and "\<forall>r \<in> set rs. utc (ts_of R r) \<noteq> None \<and> next_month (ts_of R r) \<noteq> None"
  shows "\<exists>bs. month_loop R utc next_month rs = Some (Inr bs) \<and> concat (map snd bs) = rs \<and> distinct (map fst bs)
    \<and> (\<forall>(key, rows) \<in> set bs. rows \<noteq> [] \<and> (\<forall>r \<in> set rows. month_key utc (ts_of R r) = Inr key))"
  using assms(2,3)
proof (induction "length rs" arbitrary: rs rule: less_induct)
  case less
  show ?case
  proof (cases rs)
    case Nil
    then show ?thesis by (simp add: month_loop.simps)
  next
    case (Cons r rs')
    let ?t = "ts_of R r"
    obtain stop where stop: "next_month ?t = Some stop" using less.prems(2) Cons by auto
    obtain year month where m: "month_of utc ?t = Some (year, month)"
      using less.prems(2) Cons by (fastforce simp: month_of_def)
    then obtain key where key: "month_key utc ?t = Inr key" by (auto simp: month_key_month_of)
    have law': "?t < stop" "\<And>u. ?t \<le> u \<Longrightarrow> u < stop \<Longrightarrow> month_of utc u = month_of utc ?t"
      "\<And>u. stop \<le> u \<Longrightarrow> month_of utc u \<noteq> month_of utc ?t"
      using law stop unfolding months_are_intervals_def by blast+
    define k where "k = partition_point (\<lambda>r. ts_of R r < stop) rs"
    have tk: "take k rs = takeWhile (\<lambda>r. ts_of R r < stop) rs" "drop k rs = dropWhile (\<lambda>r. ts_of R r < stop) rs"
      by (simp_all add: k_def partition_point_def takeWhile_eq_take [symmetric] dropWhile_eq_drop [symmetric])
    have k: "k > 0" using Cons law'(1) by (simp add: k_def partition_point_def)
    have low: "month_key utc (ts_of R x) = Inr key" if "x \<in> set (take k rs)" for x
    proof -
      have "x \<in> set rs" "ts_of R x < stop" using that unfolding tk by (auto dest: set_takeWhileD)
      then show ?thesis using less.prems(1) Cons law'(2) month_key_same [OF key] by auto
    qed
    have high: "month_key utc (ts_of R x) \<noteq> Inr key" if "x \<in> set (drop k rs)" for x
    proof -
      have "sorted (map (ts_of R) (drop k rs))" using less.prems(1) by (simp add: drop_map [symmetric] sorted_wrt_drop)
      moreover have "drop k rs \<noteq> []" using that by auto
      then have "\<not> ts_of R (hd (drop k rs)) < stop" unfolding tk by (rule hd_dropWhile)
      ultimately have "stop \<le> ts_of R x" using that by (cases "drop k rs") auto
      then show ?thesis using law'(3) month_key_same [OF key] by blast
    qed
    have "length (drop k rs) < length rs" using k Cons by simp
    moreover have "sorted (map (ts_of R) (drop k rs))" using less.prems(1) by (simp add: drop_map [symmetric] sorted_wrt_drop)
    moreover have "\<forall>r \<in> set (drop k rs). utc (ts_of R r) \<noteq> None \<and> next_month (ts_of R r) \<noteq> None"
      using less.prems(2) by (meson in_set_dropD)
    ultimately obtain bs where bs: "month_loop R utc next_month (drop k rs) = Some (Inr bs)" "concat (map snd bs) = drop k rs"
      "distinct (map fst bs)" "\<forall>(key, rows) \<in> set bs. rows \<noteq> [] \<and> (\<forall>r \<in> set rows. month_key utc (ts_of R r) = Inr key)"
      using less.hyps by blast
    have "month_loop R utc next_month rs = Some (Inr ((key, take k rs) # bs))"
    proof -
      have "hd rs = r" "rs \<noteq> []" by (simp_all add: Cons)
      then show ?thesis using key stop bs(1)
        by (subst month_loop.simps) (simp add: next_month_start_def ok_or_def k_def [symmetric] Let_def)
    qed
    moreover have "key \<notin> fst ` set bs"
    proof
      assume "key \<in> fst ` set bs"
      then obtain rows where r: "(key, rows) \<in> set bs" by auto
      then have "rows \<noteq> []" "\<forall>r \<in> set rows. month_key utc (ts_of R r) = Inr key" using bs(4) by auto
      moreover have "set rows \<subseteq> set (drop k rs)" using r bs(2) by (metis UN_upper image_eqI set_concat set_map snd_conv)
      ultimately show False using high by (metis hd_in_set subsetD)
    qed
    ultimately show ?thesis using bs low k Cons by (intro exI [of _ "(key, take k rs) # bs"]) auto
  qed
qed

end
