(* ===== verification/ScalarAnswers.thy ===== *)
theory ScalarAnswers
  imports ScalarStore
begin

text \<open>
  The answers of the predicate queries. The locale \<open>query_loop\<close> is the interface of the loops
  over chunks: a step that adds the hits of its chunk, in any order, and keeps the caches
  coherent. It is interpreted for the timestamp queries of all three strategies and for the
  predicate query with its choice of index.
\<close>

section \<open>Plain relative paths\<close>

text \<open>The relative paths that the store makes: separated by slashes, not absolute.\<close>

definition plain_relative :: "string \<Rightarrow> bool" where
  "plain_relative s \<longleftrightarrow> CHR 0x5C \<notin> set s \<and> take 1 s \<noteq> ''/''"

lemma path_join_part:
  assumes "CHR ''/'' \<notin> set s" and "s \<noteq> []"
  shows "path_join p s = p\<lparr>comps := comps p @ filter (\<lambda>c. c \<noteq> ''.'') [s]\<rparr>"
proof -
  have "take 1 s \<noteq> ''/''" using assms by (cases s) auto
  then show ?thesis using assms by (simp add: path_join_def components_def split_on_single)
qed

lemma foldl_path_join:
  assumes "\<forall>s \<in> set parts. CHR ''/'' \<notin> set s \<and> s \<noteq> []"
  shows "foldl path_join p parts = p\<lparr>comps := comps p @ filter (\<lambda>c. c \<noteq> ''.'') parts\<rparr>"
  using assms by (induction parts arbitrary: p) (auto simp: path_join_part)

lemma resolve_plain:
  assumes "plain_relative rel"
  shows "resolve_relative_path dir rel = path_join dir rel"
proof -
  have n: "map (\<lambda>c. if c = CHR 0x5C then CHR ''/'' else c) rel = rel"
    using assms by (intro map_idI) (auto simp: plain_relative_def)
  have "\<forall>s \<in> set (filter (\<lambda>part. part \<noteq> []) (split_on CHR ''/'' rel)). CHR ''/'' \<notin> set s \<and> s \<noteq> []"
    using split_on_no_sep by auto
  from foldl_path_join [OF this] show ?thesis
    using assms by (simp add: resolve_relative_path_def n path_join_def components_def plain_relative_def conj_commute)
qed

section \<open>Indexed chunks\<close>

definition chunk_indexed :: "(path \<rightharpoonup> u8 list) \<Rightarrow> path \<Rightarrow> ChunkMeta \<Rightarrow> ScalarRecord list \<Rightarrow> bool" where
  "chunk_indexed fs dir c rows \<longleftrightarrow>
     (\<forall>s. find (\<lambda>s. sc_kind s = ''zmap'') (cm_sidecars c) = Some s \<longrightarrow>
        (\<exists>n entries. zmap_build_entries rows n = Inr entries
          \<and> fs (resolve_relative_path dir (sc_relative_path s)) = Some (zmap_encode_entries entries)
          \<and> (sc_checksum s = 0 \<or> sc_checksum s = checksum64 (zmap_encode_entries entries))))
     \<and> (\<forall>s. find (\<lambda>s. sc_kind s = ''vix'') (cm_sidecars c) = Some s \<longrightarrow>
        (let entries = vix_build_entries rows in
         fs (resolve_relative_path dir (sc_relative_path s)) = Some (vix_encode_entries entries)
         \<and> (sc_checksum s = 0 \<or> sc_checksum s = checksum64 (vix_encode_entries entries))))"

text \<open>
  A scalar series that can be queried: it can be read, its sidecars belong to its rows, and the
  sidecar cache agrees with the disk and knows each sidecar by its own key.
\<close>

definition queryable_series ::
  "(ChunkCacheKey \<Rightarrow> path) \<Rightarrow> (SidecarCacheKey \<Rightarrow> path) \<Rightarrow> FastKStore \<Rightarrow> path \<Rightarrow> SeriesMeta \<Rightarrow>
   (ChunkMeta \<Rightarrow> ScalarRecord list) \<Rightarrow> bool" where
  "queryable_series where_is side_is st dir meta rows_of \<longleftrightarrow>
     readable_series scalar_record (\<lambda>_. True) where_is st dir meta rows_of
     \<and> sidecars_coherent (fk_files st) side_is (fk_scalar_sidecars st)
     \<and> (\<forall>c \<in> set (sm_chunks meta). plain_relative (cm_relative_path c)
          \<and> chunk_indexed (fk_files st) dir c (rows_of c)
          \<and> (\<forall>kind p. load_sidecar_path dir c kind = Inr p \<longrightarrow> side_is (sidecar_cache_key c kind p) = p))"

text \<open>The stores that a query passes through differ from the first one in the caches only.\<close>

definition caches_of ::
  "(ChunkCacheKey \<Rightarrow> path) \<Rightarrow> (SidecarCacheKey \<Rightarrow> path) \<Rightarrow> FastKStore \<Rightarrow> FastKStore \<Rightarrow> bool" where
  "caches_of where_is side_is st st' \<longleftrightarrow>
     (\<exists>rt sr. st' = st\<lparr>fk_chunk_runtime := rt, fk_scalar_sidecars := sr\<rparr>
       \<and> coherent (fk_files st) where_is rt \<and> sidecars_coherent (fk_files st) side_is sr)"

lemma caches_files [simp]: "fk_files (st\<lparr>fk_chunk_runtime := rt\<rparr>) = fk_files st" "fk_files (st\<lparr>fk_scalar_sidecars := sr\<rparr>) = fk_files st"
  by (simp_all add: fk_files_def)

lemma caches_of_queryable:
  "queryable_series where_is side_is st dir meta rows_of \<Longrightarrow> caches_of where_is side_is st st' \<Longrightarrow>
     queryable_series where_is side_is st' dir meta rows_of"
  by (auto simp: caches_of_def queryable_series_def readable_series_def)

lemma caches_of_self: "queryable_series where_is side_is st dir meta rows_of \<Longrightarrow> caches_of where_is side_is st st"
  unfolding caches_of_def queryable_series_def readable_series_def
  by (intro exI [of _ "fk_chunk_runtime st"] exI [of _ "fk_scalar_sidecars st"]) simp

lemma caches_of_trans: "caches_of w k st st1 \<Longrightarrow> caches_of w k st1 st2 \<Longrightarrow> caches_of w k st st2"
  unfolding caches_of_def by (elim exE conjE) (intro exI conjI, assumption?, simp_all)

lemma chunk_zmap_exact:
  assumes q: "queryable_series where_is side_is st dir meta rows_of" and c: "c \<in> set (sm_chunks meta)"
    and k: "has_sidecar_kind c ''zmap''"
  obtains st' n entries where "chunk_zmap st dir c = Some (st', Inr entries)" and "zmap_build_entries (rows_of c) n = Inr entries"
    and "caches_of where_is side_is st st'"
proof -
  have "find (\<lambda>s. sc_kind s = ''zmap'') (cm_sidecars c) \<noteq> None"
    using k by (auto simp: has_sidecar_kind_def list_ex_iff find_None_iff)
  then obtain s where s: "find (\<lambda>s. sc_kind s = ''zmap'') (cm_sidecars c) = Some s" by auto
  have "chunk_indexed (fk_files st) dir c (rows_of c)" using q c by (simp add: queryable_series_def)
  then obtain n entries where e: "zmap_build_entries (rows_of c) n = Inr entries"
      "fk_files st (resolve_relative_path dir (sc_relative_path s)) = Some (zmap_encode_entries entries)"
      "sc_checksum s = 0 \<or> sc_checksum s = checksum64 (zmap_encode_entries entries)"
    using s by (auto simp: chunk_indexed_def)
  let ?p = "resolve_relative_path dir (sc_relative_path s)"
  have l: "load_sidecar_path dir c ''zmap'' = Inr ?p" by (simp add: load_sidecar_path_def s)
  have sc: "sidecars_coherent (fk_files st) side_is (fk_scalar_sidecars st)" and si: "side_is (sidecar_cache_key c ''zmap'' ?p) = ?p"
    using q c l by (simp_all add: queryable_series_def)
  obtain sr where g: "get_zmap (fk_files st) (fk_scalar_sidecars st) (sidecar_cache_key c ''zmap'' ?p) ?p
      = Some (sr, zmap_read_entries_checked (fk_files st) ?p (sk_checksum (sidecar_cache_key c ''zmap'' ?p)))"
      "sidecars_coherent (fk_files st) side_is sr"
    by (rule get_zmap_exact [OF sc si])
  have "zmap_read_entries_checked (fk_files st) ?p (sc_checksum s) = Inr entries" using zmap_read_encoded [of "fk_files st" ?p entries] e by blast
  then have "chunk_zmap st dir c = Some (st\<lparr>fk_scalar_sidecars := sr\<rparr>, Inr entries)"
    using l g(1) by (simp add: chunk_zmap_def sidecar_cache_key_def s)
  moreover have "caches_of where_is side_is st (st\<lparr>fk_scalar_sidecars := sr\<rparr>)"
    using q g(2) unfolding caches_of_def queryable_series_def readable_series_def
    by (intro exI [of _ "fk_chunk_runtime st"] exI [of _ sr]) simp
  ultimately show thesis using that e(1) by blast
qed

lemma chunk_vix_exact:
  assumes q: "queryable_series where_is side_is st dir meta rows_of" and c: "c \<in> set (sm_chunks meta)"
    and k: "has_sidecar_kind c ''vix''"
  obtains st' where "chunk_vix st dir c = Some (st', Inr (vix_build_entries (rows_of c)))" and "caches_of where_is side_is st st'"
proof -
  let ?entries = "vix_build_entries (rows_of c)"
  have "find (\<lambda>s. sc_kind s = ''vix'') (cm_sidecars c) \<noteq> None"
    using k by (auto simp: has_sidecar_kind_def list_ex_iff find_None_iff)
  then obtain s where s: "find (\<lambda>s. sc_kind s = ''vix'') (cm_sidecars c) = Some s" by auto
  have "chunk_indexed (fk_files st) dir c (rows_of c)" using q c by (simp add: queryable_series_def)
  then have e: "fk_files st (resolve_relative_path dir (sc_relative_path s)) = Some (vix_encode_entries ?entries)"
      "sc_checksum s = 0 \<or> sc_checksum s = checksum64 (vix_encode_entries ?entries)"
    using s by (auto simp: chunk_indexed_def Let_def)
  let ?p = "resolve_relative_path dir (sc_relative_path s)"
  have l: "load_sidecar_path dir c ''vix'' = Inr ?p" by (simp add: load_sidecar_path_def s)
  have sc: "sidecars_coherent (fk_files st) side_is (fk_scalar_sidecars st)" and si: "side_is (sidecar_cache_key c ''vix'' ?p) = ?p"
    using q c l by (simp_all add: queryable_series_def)
  obtain sr where g: "get_vix (fk_files st) (fk_scalar_sidecars st) (sidecar_cache_key c ''vix'' ?p) ?p
      = Some (sr, vix_read_entries_checked (fk_files st) ?p (sk_checksum (sidecar_cache_key c ''vix'' ?p)))"
      "sidecars_coherent (fk_files st) side_is sr"
    by (rule get_vix_exact [OF sc si])
  have "vix_read_entries_checked (fk_files st) ?p (sc_checksum s) = Inr ?entries" using vix_read_encoded [of "fk_files st" ?p ?entries] e by blast
  then have "chunk_vix st dir c = Some (st\<lparr>fk_scalar_sidecars := sr\<rparr>, Inr ?entries)"
    using l g(1) by (simp add: chunk_vix_def sidecar_cache_key_def s)
  moreover have "caches_of where_is side_is st (st\<lparr>fk_scalar_sidecars := sr\<rparr>)"
    using q g(2) unfolding caches_of_def queryable_series_def readable_series_def
    by (intro exI [of _ "fk_chunk_runtime st"] exI [of _ sr]) simp
  ultimately show thesis using that by blast
qed

lemma read_row_ranges_exact:
  assumes s: "chunk_stored scalar_record (\<lambda>_. True) fs dir sid c rows"
    and r: "\<forall>(s, e) \<in> set ranges. s \<le> e \<and> unat e < length rows"
  shows "scalar_read_row_ranges fs (path_join dir (cm_relative_path c)) ranges = Inr (range_rows rows ranges)"
proof -
  obtain bytes layout where f: "fs (path_join dir (cm_relative_path c)) = Some bytes" "load_layout bytes = Inr layout"
      "scalar_validate_header (l_header layout) = Inr ()" and k: "scalar_chunk bytes layout rows"
    by (rule stored_scalar_chunk [OF s])
  have "scalar_load_layout_from_file bytes = Inr layout"
    using f(2,3) by (auto simp: load_layout_def scalar_load_layout_from_file_def res_simps)
  then show ?thesis
    using f scalar_append_row_ranges_exact [OF k r, of "[]"]
    by (simp add: scalar_read_row_ranges_def chunk_file_open_def chunk_file_new_def
        scalar_read_row_ranges_from_file_def range_rows_def)
qed

section \<open>The loops\<close>

locale query_loop =
  fixes inv :: "'s \<Rightarrow> bool" and good :: "'x \<Rightarrow> bool" and step :: "'s \<Rightarrow> 'x \<Rightarrow> 'a \<Rightarrow> ('s \<times> 'a res) option"
    and val :: "'a \<Rightarrow> 'm multiset" and adds :: "'x \<Rightarrow> 'm list"
  assumes step_ok: "inv s \<Longrightarrow> good x \<Longrightarrow> \<exists>s' acc'. step s x acc = Some (s', Inr acc') \<and> inv s' \<and> val acc' = val acc + mset (adds x)"
begin

lemma loop_ok:
  "inv s \<Longrightarrow> \<forall>x \<in> set xs. good x \<Longrightarrow>
     \<exists>s' acc'. try_chunks step s xs acc = Some (s', Inr acc') \<and> inv s' \<and> val acc' = val acc + mset (concat (map adds xs))"
proof (induction xs arbitrary: s acc)
  case (Cons x xs)
  obtain s1 acc1 where 1: "step s x acc = Some (s1, Inr acc1)" "inv s1" "val acc1 = val acc + mset (adds x)"
    using step_ok [of s x acc] Cons.prems by auto
  obtain s2 acc2 where "try_chunks step s1 xs acc1 = Some (s2, Inr acc2)" "inv s2"
      "val acc2 = val acc1 + mset (concat (map adds xs))"
    using Cons.IH [OF 1(2), of acc1] Cons.prems by auto
  with 1 show ?case by simp
qed simp

end

text \<open>Which chunks a strategy can answer for.\<close>

fun answerable :: "ScalarQueryStrategy \<Rightarrow> ChunkMeta \<Rightarrow> bool" where
  "answerable Zmap c \<longleftrightarrow> has_sidecar_kind c ''zmap''"
| "answerable Vix c \<longleftrightarrow> has_sidecar_kind c ''vix''"
| "answerable Raw c \<longleftrightarrow> True"

lemma queryable_chunk:
  assumes "queryable_series where_is side_is st dir meta rows_of" and "c \<in> set (sm_chunks meta)"
  shows "chunk_stored scalar_record (\<lambda>_. True) (fk_files st) dir (sm_series_id meta) c (rows_of c)"
    and "located scalar_record (\<lambda>_. True) (fk_files st) where_is dir (sm_series_id meta) rows_of c"
    and "coherent (fk_files st) where_is (fk_chunk_runtime st)"
    and "resolve_relative_path dir (cm_relative_path c) = path_join dir (cm_relative_path c)"
    and "sorted_wrt (<) (map s_ts (rows_of c))"
  using assms readable_located [of scalar_record "\<lambda>_. True" where_is st dir meta rows_of c]
  by (auto simp: queryable_series_def readable_series_def series_stored_def chunk_stored_def intro: resolve_plain)

text \<open>A raw scan of one chunk reads the rows of the range.\<close>

lemma raw_scan_chunk:
  assumes q: "queryable_series where_is side_is st dir meta rows_of" and c: "c \<in> set (sm_chunks meta)"
  obtains st' where "on_runtime st (\<lambda>rt. drop_path (scalar_append_range_in_chunk (fk_files st) rt dir (sm_series_id meta) c a b []))
      = (st', Inr (filter (in_range s_ts a b) (rows_of c)))" and "caches_of where_is side_is st st'"
proof -
  obtain rt where "drop_path (scalar_append_range_in_chunk (fk_files st) (fk_chunk_runtime st) dir (sm_series_id meta) c a b [])
      = (rt, Inr (filter (in_range s_ts a b) (rows_of c)))" "coherent (fk_files st) where_is rt"
    using scalar_reads_chunk(1) [OF queryable_chunk(3,2) [OF q c], of a b "[]"] by auto
  moreover have "caches_of where_is side_is st (st\<lparr>fk_chunk_runtime := rt\<rparr>)"
    using q \<open>coherent (fk_files st) where_is rt\<close> unfolding caches_of_def queryable_series_def
    by (intro exI [of _ rt] exI [of _ "fk_scalar_sidecars st"]) simp
  ultimately show thesis using that [of "st\<lparr>fk_chunk_runtime := rt\<rparr>"] by (simp add: on_runtime_def)
qed

lemma filter_hit_range: "filter (hit p a b) (filter (in_range s_ts a b) rows) = filter (hit p a b) rows"
  by (auto simp: hit_def intro: filter_cong)

lemma strategy_chunk:
  assumes q: "queryable_series where_is side_is st dir meta rows_of" and c: "c \<in> set (sm_chunks meta)"
    and p: "expr_try_from p = Inr ex" and k: "answerable strategy c" and key: "validate_series_key key = Inr ()"
  shows "\<exists>st'. (case strategy of
        Zmap \<Rightarrow> query_scalar_via_zmap st dir c p a b
      | Vix \<Rightarrow> query_scalar_via_vix st dir key c p a b
      | Raw \<Rightarrow> query_scalar_via_raw_scan st dir (sm_series_id meta) c p a b)
    = Some (st', Inr (map s_ts (filter (hit ex a b) (rows_of c)))) \<and> caches_of where_is side_is st st'"
proof (cases strategy)
  case Zmap
  have hk: "has_sidecar_kind c ''zmap''" using k Zmap by simp
  obtain st' n entries where z: "chunk_zmap st dir c = Some (st', Inr entries)" "zmap_build_entries (rows_of c) n = Inr entries"
      "caches_of where_is side_is st st'"
    by (rule chunk_zmap_exact [OF q c hk])
  note q' = queryable_chunk [OF caches_of_queryable [OF q z(3)] c]
  obtain ranges where r: "candidate_row_ranges_for_expr entries ex a b = Inr ranges"
    by (simp add: candidate_row_ranges_for_expr_def expr_try_from_valid [OF p])
  note cr = candidate_rows [OF zmap_build_tiles(1) [OF z(2)] r]
  have s: "sort_dedup (map s_ts (filter (hit ex a b) (rows_of c))) = map s_ts (filter (hit ex a b) (rows_of c))"
    by (rule sort_dedup_strict) (rule strict_filter [OF q'(5)])
  have "ranges = [] \<Longrightarrow> filter (hit ex a b) (rows_of c) = []" using cr(1) by (simp add: range_rows_def)
  then show ?thesis
    using z(1,3) r read_row_ranges_exact [OF q'(1) cr(5)] q'(4) s cr(2)
    by (auto simp: Zmap query_scalar_via_zmap_def candidate_row_ranges_expr [OF p] push_matching_eq [OF p])
next
  case Vix
  have hk: "has_sidecar_kind c ''vix''" using k Vix by simp
  obtain st' where v: "chunk_vix st dir c = Some (st', Inr (vix_build_entries (rows_of c)))" "caches_of where_is side_is st st'"
    by (rule chunk_vix_exact [OF q c hk])
  then show ?thesis
    using vix_find_exact [OF queryable_chunk(5) [OF q c] p] key
    by (simp add: Vix query_scalar_via_vix_def find_timestamps_via_vix_def)
next
  case Raw
  obtain st' where "on_runtime st (\<lambda>rt. drop_path (scalar_append_range_in_chunk (fk_files st) rt dir (sm_series_id meta) c a b []))
      = (st', Inr (filter (in_range s_ts a b) (rows_of c)))" "caches_of where_is side_is st st'"
    by (rule raw_scan_chunk [OF q c])
  then show ?thesis
    by (simp add: Raw query_scalar_via_raw_scan_def push_matching_eq [OF p] filter_hit_range del: filter_filter)
qed

interpretation timestamps: query_loop
    "\<lambda>st'. queryable_series where_is side_is st dir meta rows_of \<and> caches_of where_is side_is st st'"
    "\<lambda>c. c \<in> set (sm_chunks meta) \<and> answerable strategy c \<and> expr_try_from p = Inr ex \<and> validate_series_key key = Inr ()"
    "\<lambda>st c timestamps. ok_then
       (case strategy of
          Zmap \<Rightarrow> query_scalar_via_zmap st dir c p a b
        | Vix \<Rightarrow> query_scalar_via_vix st dir key c p a b
        | Raw \<Rightarrow> query_scalar_via_raw_scan st dir (sm_series_id meta) c p a b)
       (\<lambda>st found. Some (st, Inr (timestamps @ found)))"
    mset "\<lambda>c. map s_ts (filter (hit ex a b) (rows_of c))"
  for where_is side_is st dir meta rows_of strategy p ex key a b
proof
  fix s x acc
  assume i: "queryable_series where_is side_is st dir meta rows_of \<and> caches_of where_is side_is st s"
    and g: "x \<in> set (sm_chunks meta) \<and> answerable strategy x \<and> expr_try_from p = Inr ex \<and> validate_series_key key = Inr ()"
  have "queryable_series where_is side_is s dir meta rows_of" using i caches_of_queryable by blast
  from strategy_chunk [OF this, of x p ex strategy key a b] g obtain s' where
      "(case strategy of
          Zmap \<Rightarrow> query_scalar_via_zmap s dir x p a b
        | Vix \<Rightarrow> query_scalar_via_vix s dir key x p a b
        | Raw \<Rightarrow> query_scalar_via_raw_scan s dir (sm_series_id meta) x p a b)
        = Some (s', Inr (map s_ts (filter (hit ex a b) (rows_of x))))" "caches_of where_is side_is s s'"
    by blast
  then show "\<exists>s' acc'. ok_then
       (case strategy of
          Zmap \<Rightarrow> query_scalar_via_zmap s dir x p a b
        | Vix \<Rightarrow> query_scalar_via_vix s dir key x p a b
        | Raw \<Rightarrow> query_scalar_via_raw_scan s dir (sm_series_id meta) x p a b)
       (\<lambda>st found. Some (st, Inr (acc @ found))) = Some (s', Inr acc')
     \<and> (queryable_series where_is side_is st dir meta rows_of \<and> caches_of where_is side_is st s')
     \<and> mset acc' = mset acc + mset (map s_ts (filter (hit ex a b) (rows_of x)))"
    using i by (auto intro: caches_of_trans)
qed

lemma series_hits:
  assumes "queryable_series where_is side_is st dir meta rows_of" and "find_chunks_for_range meta a b = (i, j)"
  shows "filter (hit p a b) (series_rows rows_of meta) = concat (map (\<lambda>c. filter (hit p a b) (rows_of c)) (slice_of i j (sm_chunks meta)))"
    and "sorted_wrt (<) (map s_ts (filter (hit p a b) (series_rows rows_of meta)))"
proof -
  have s: "series_stored scalar_record (\<lambda>_. True) (fk_files st) dir meta rows_of"
    using assms(1) by (simp add: queryable_series_def readable_series_def)
  have "filter (hit p a b) (filter (in_range s_ts a b) (series_rows rows_of meta))
      = filter (hit p a b) (concat (map (\<lambda>c. filter (in_range s_ts a b) (rows_of c)) (slice_of i j (sm_chunks meta))))"
    using series_range [OF s assms(2)] by simp
  then show "filter (hit p a b) (series_rows rows_of meta) = concat (map (\<lambda>c. filter (hit p a b) (rows_of c)) (slice_of i j (sm_chunks meta)))"
    by (simp only: filter_hit_range filter_concat map_map comp_def)
  show "sorted_wrt (<) (map s_ts (filter (hit p a b) (series_rows rows_of meta)))"
    using strict_filter [OF series_sorted [OF s]] by simp
qed

lemma find_timestamps_exact:
  assumes q: "queryable_series where_is side_is st dir meta rows_of" and p: "expr_try_from p = Inr ex"
    and k: "\<forall>c \<in> set (sm_chunks meta). answerable strategy c" and key: "validate_series_key key = Inr ()"
  shows "\<exists>st'. find_scalar_timestamps_prepared st dir meta key p a b strategy
      = Some (st', Inr (map s_ts (filter (hit ex a b) (series_rows rows_of meta)))) \<and> caches_of where_is side_is st st'"
proof -
  obtain i j where w: "find_chunks_for_range meta a b = (i, j)" by fastforce
  note h = series_hits [OF q w, of ex]
  show ?thesis
  proof (cases "a > b \<or> \<not> i < j")
    case True
    then have "filter (hit ex a b) (series_rows rows_of meta) = []"
    proof
      assume "a > b" then show ?thesis by (auto simp: filter_empty_conv hit_def i64_ord)
    qed (simp add: h(1))
    then show ?thesis using True w caches_of_self [OF q] by (auto simp: find_scalar_timestamps_prepared_def)
  next
    case False
    have good: "\<forall>c \<in> set (slice_of i j (sm_chunks meta)). c \<in> set (sm_chunks meta) \<and> answerable strategy c
        \<and> expr_try_from p = Inr ex \<and> validate_series_key key = Inr ()"
      using k key p by (auto dest: set_slice_subset)
    obtain st' ts where t: "try_chunks (\<lambda>st c timestamps. ok_then
         (case strategy of
            Zmap \<Rightarrow> query_scalar_via_zmap st dir c p a b
          | Vix \<Rightarrow> query_scalar_via_vix st dir key c p a b
          | Raw \<Rightarrow> query_scalar_via_raw_scan st dir (sm_series_id meta) c p a b)
         (\<lambda>st found. Some (st, Inr (timestamps @ found)))) st (slice_of i j (sm_chunks meta)) [] = Some (st', Inr ts)"
        "caches_of where_is side_is st st'"
        "mset ts = mset (concat (map (\<lambda>c. map s_ts (filter (hit ex a b) (rows_of c))) (slice_of i j (sm_chunks meta))))"
      using timestamps.loop_ok [OF conjI [OF q caches_of_self [OF q]] good, of a b "[]"] by auto
    have "mset ts = mset (map s_ts (filter (hit ex a b) (series_rows rows_of meta)))"
      by (simp add: t(3) h(1) map_concat comp_def)
    then have "set ts = set (map s_ts (filter (hit ex a b) (series_rows rows_of meta)))" by (rule mset_eq_setD)
    then have "sort_dedup ts = map s_ts (filter (hit ex a b) (series_rows rows_of meta))"
      by (rule sort_dedup_eqI [OF h(2)])
    then show ?thesis using False w t(1,2) by (simp add: find_scalar_timestamps_prepared_def)
  qed
qed

section \<open>Predicate queries\<close>

abbreviation hit_of :: "ScalarPredicateQuery \<Rightarrow> ScalarRecord \<Rightarrow> bool" where
  "hit_of query \<equiv> hit (q_predicate query) (q_start_ts query) (q_end_ts query)"

abbreviation matches_of :: "ScalarPredicateQuery \<Rightarrow> ScalarRecord list \<Rightarrow> ScalarPredicateMatch list" where
  "matches_of query rows \<equiv> map (\<lambda>r. match_of query (s_ts r) (s_value r)) (filter (hit_of query) rows)"

lemma vix_scan_slices_eq:
  "fst (vix_scan_slices entries query slices (matches, stats)) =
     matches @ map (\<lambda>e. match_of query (v_ts e) (v_value e))
       (filter (\<lambda>e. q_start_ts query \<le> v_ts e \<and> v_ts e \<le> q_end_ts query)
         (filter (\<lambda>e. expr_matches (q_predicate query) (v_value e)) (concat (map (\<lambda>(a, b). slice_of a b entries) slices))))"
  by (induction entries query slices "(matches, stats)" arbitrary: matches stats rule: vix_scan_slices.induct)
    (simp_all add: conj_ac)

lemma vix_entries_mset:
  "mset (map (\<lambda>e. match_of query (v_ts e) (v_value e))
     (filter (\<lambda>e. q_start_ts query \<le> v_ts e \<and> v_ts e \<le> q_end_ts query)
       (filter (\<lambda>e. expr_matches (q_predicate query) (v_value e)) (vix_build_entries rows))))
   = mset (matches_of query rows)"
  by (induction rows)
    (simp_all add: vix_build_entries_def mset_filter [symmetric] mset_map [symmetric] del: mset_map mset_filter,
     simp_all add: mset_map mset_filter hit_def)

lemma matching_slices_total: "expr_validate p = Inr () \<Longrightarrow> \<exists>slices. matching_slices_for_expr entries p = Inr slices"
  by (cases "entries = []") (simp_all add: matching_slices_for_expr_def Let_def)

lemma query_chunk_adds:
  assumes q: "queryable_series where_is side_is st dir meta rows_of" and c: "c \<in> set (sm_chunks meta)"
    and v: "expr_validate (q_predicate query) = Inr ()"
  shows "\<exists>st' acc'. query_chunk dir (sm_series_id meta) query st c acc = Some (st', Inr acc')
    \<and> caches_of where_is side_is st st' \<and> mset (fst acc') = mset (fst acc) + mset (matches_of query (rows_of c))"
proof -
  obtain matches stats where acc: "acc = (matches, stats)" by (cases acc)
  consider (vix) "expr_is_discrete_lookup_like (q_predicate query)" "has_sidecar_kind c ''vix''"
    | (zmap) "\<not> (expr_is_discrete_lookup_like (q_predicate query) \<and> has_sidecar_kind c ''vix'')"
        "expr_is_continuous_range_like (q_predicate query)" "has_sidecar_kind c ''zmap''"
    | (raw) "\<not> (expr_is_discrete_lookup_like (q_predicate query) \<and> has_sidecar_kind c ''vix'')"
        "\<not> (expr_is_continuous_range_like (q_predicate query) \<and> has_sidecar_kind c ''zmap'')"
    by blast
  then show ?thesis
  proof cases
    case vix
    obtain st' where e: "chunk_vix st dir c = Some (st', Inr (vix_build_entries (rows_of c)))" "caches_of where_is side_is st st'"
      by (rule chunk_vix_exact [OF q c vix(2)])
    obtain slices where sl: "matching_slices_for_expr (vix_build_entries (rows_of c)) (q_predicate query) = Inr slices"
      using matching_slices_total [OF v] by blast
    note m = matching_slices_exact(1) [OF vix_build_facts(1) sl]
    have scan: "mset (fst (vix_scan_slices (vix_build_entries (rows_of c)) query slices (matches, stats')))
        = mset matches + mset (matches_of query (rows_of c))" for stats'
      unfolding vix_scan_slices_eq m mset_append vix_entries_mset ..
    show ?thesis
    proof (cases "slices = []")
      case True
      then show ?thesis using vix e sl scan [of stats]
        by (simp add: acc query_chunk_def query_scalar_predicate_via_vix_def Let_def del: mset_map mset_filter)
    next
      case False
      then show ?thesis using vix e sl scan
        by (simp add: acc query_chunk_def query_scalar_predicate_via_vix_def Let_def del: mset_map mset_filter)
    qed
  next
    case zmap
    obtain st' n entries where z: "chunk_zmap st dir c = Some (st', Inr entries)" "zmap_build_entries (rows_of c) n = Inr entries"
        "caches_of where_is side_is st st'"
      by (rule chunk_zmap_exact [OF q c zmap(3)])
    note q' = queryable_chunk [OF caches_of_queryable [OF q z(3)] c]
    obtain ranges where r: "candidate_row_ranges_for_expr entries (q_predicate query) (q_start_ts query) (q_end_ts query) = Inr ranges"
      by (simp add: candidate_row_ranges_for_expr_def v)
    note cr = candidate_rows [OF zmap_build_tiles(1) [OF z(2)] r]
    have "ranges = [] \<Longrightarrow> filter (hit_of query) (rows_of c) = []" using cr(1) by (simp add: range_rows_def)
    moreover have "filter (\<lambda>r. q_start_ts query \<le> s_ts r \<and> s_ts r \<le> q_end_ts query \<and> expr_matches (q_predicate query) (s_value r)) xs
        = filter (hit_of query) xs" for xs
      by (rule filter_cong) (auto simp: hit_def)
    ultimately show ?thesis
      using zmap z(1,3) r read_row_ranges_exact [OF q'(1) cr(5)] q'(4) cr(2)
      by (cases "ranges = []") (auto simp: acc query_chunk_def query_scalar_predicate_via_zmap_def Let_def simp del: mset_map mset_filter)
  next
    case raw
    obtain st' where s: "on_runtime st (\<lambda>rt. drop_path (scalar_append_range_in_chunk (fk_files st) rt dir (sm_series_id meta) c
          (q_start_ts query) (q_end_ts query) [])) = (st', Inr (filter (in_range s_ts (q_start_ts query) (q_end_ts query)) (rows_of c)))"
        "caches_of where_is side_is st st'"
      by (rule raw_scan_chunk [OF q c])
    have "filter (\<lambda>r. expr_matches (q_predicate query) (s_value r)) (filter (in_range s_ts (q_start_ts query) (q_end_ts query)) (rows_of c))
        = filter (hit_of query) (rows_of c)"
      by (auto simp: hit_def intro!: filter_cong)
    moreover have "filter (in_range s_ts (q_start_ts query) (q_end_ts query)) (rows_of c) = [] \<Longrightarrow> filter (hit_of query) (rows_of c) = []"
      by (auto simp: hit_def filter_empty_conv)
    ultimately show ?thesis
      using raw s by (auto simp: acc query_chunk_def query_scalar_predicate_via_raw_scan_def Let_def simp del: mset_map mset_filter)
  qed
qed

interpretation predicate_query: query_loop
    "\<lambda>st'. queryable_series where_is side_is st dir meta rows_of \<and> caches_of where_is side_is st st'"
    "\<lambda>c. c \<in> set (sm_chunks meta) \<and> expr_validate (q_predicate query) = Inr ()"
    "query_chunk dir (sm_series_id meta) query" "\<lambda>acc. mset (fst acc)" "\<lambda>c. matches_of query (rows_of c)"
  for where_is side_is st dir meta rows_of query
proof
  fix s x acc
  assume i: "queryable_series where_is side_is st dir meta rows_of \<and> caches_of where_is side_is st s"
    and g: "x \<in> set (sm_chunks meta) \<and> expr_validate (q_predicate query) = Inr ()"
  have "queryable_series where_is side_is s dir meta rows_of" using i caches_of_queryable by blast
  from query_chunk_adds [OF this, of x query acc] g i show "\<exists>s' acc'. query_chunk dir (sm_series_id meta) query s x acc = Some (s', Inr acc')
      \<and> (queryable_series where_is side_is st dir meta rows_of \<and> caches_of where_is side_is st s')
      \<and> mset (fst acc') = mset (fst acc) + mset (matches_of query (rows_of x))"
    by (auto intro: caches_of_trans)
qed

lemma query_predicate_exact:
  assumes q: "queryable_series where_is side_is st dir meta rows_of" and v: "expr_validate (q_predicate query) = Inr ()"
  shows "\<exists>st' result. query_scalar_predicate_prepared st dir meta query = Some (st', Inr result)
    \<and> qr_matches result = matches_of query (series_rows rows_of meta) \<and> caches_of where_is side_is st st'"
proof -
  obtain i j where w: "find_chunks_for_range meta (q_start_ts query) (q_end_ts query) = (i, j)" by fastforce
  note h = series_hits [OF q w, of "q_predicate query"]
  show ?thesis
  proof (cases "i < j")
    case False
    then show ?thesis using w caches_of_self [OF q] by (simp add: query_scalar_predicate_prepared_def h(1))
  next
    case True
    have good: "\<forall>c \<in> set (slice_of i j (sm_chunks meta)). c \<in> set (sm_chunks meta) \<and> expr_validate (q_predicate query) = Inr ()"
      using v by (auto dest: set_slice_subset)
    obtain st' acc where t: "try_chunks (query_chunk dir (sm_series_id meta) query) st (slice_of i j (sm_chunks meta)) ([], stats_default)
        = Some (st', Inr acc)" "caches_of where_is side_is st st'"
        "mset (fst acc) = mset (concat (map (\<lambda>c. matches_of query (rows_of c)) (slice_of i j (sm_chunks meta))))"
      using predicate_query.loop_ok [OF conjI [OF q caches_of_self [OF q]] good, of "([], stats_default)"] by auto
    let ?out = "matches_of query (series_rows rows_of meta)"
    have m: "mset (fst acc) = mset ?out" by (simp add: t(3) h(1) map_concat comp_def)
    have ts: "map pm_ts ?out = map s_ts (filter (hit_of query) (series_rows rows_of meta))" by (simp add: match_of_def)
    have "sort_key pm_ts (fst acc) = ?out"
    proof (rule sort_key_inj_key_eq [OF m])
      show "sorted (map pm_ts ?out)" unfolding ts using h(2) by (rule strict_sorted_imp_sorted)
      have "inj_on pm_ts (set ?out)" using h(2) unfolding ts [symmetric] strict_sorted_iff distinct_map by blast
      then show "inj_on pm_ts (set (fst acc))" using mset_eq_setD [OF m] by simp
    qed
    then show ?thesis using True w t(1,2) by (cases acc) (simp add: query_scalar_predicate_prepared_def Let_def)
  qed
qed

section \<open>The public queries\<close>

lemma find_scalar_timestamps_exact:
  assumes l: "load_scalar_meta E st key = (st1, Inr meta)"
    and q: "queryable_series where_is side_is st1
      (scalar_series_dir (fk_root st1) (key_symbol key) (key_category key) (key_name key)) meta rows_of"
    and p: "expr_try_from p = Inr ex" and k: "\<forall>c \<in> set (sm_chunks meta). answerable strategy c"
    and key: "validate_series_key key = Inr ()"
  shows "map_option snd (find_scalar_timestamps E st key p a b strategy)
    = Some (Inr (map s_ts (filter (hit ex a b) (series_rows rows_of meta))))"
proof (cases "a > b")
  case True
  then have "filter (hit ex a b) (series_rows rows_of meta) = []" by (auto simp: filter_empty_conv hit_def i64_ord)
  with True show ?thesis by (simp add: find_scalar_timestamps_def)
next
  case False
  with find_timestamps_exact [OF q p k key, of a b] l show ?thesis by (auto simp: find_scalar_timestamps_def)
qed

lemma query_scalar_predicate_exact:
  assumes v: "validate_scalar_predicate_query query = Inr ()" and l: "load_scalar_meta E st (q_key query) = (st1, Inr meta)"
    and q: "queryable_series where_is side_is st1 (scalar_series_dir (fk_root st1) (key_symbol (q_key query))
      (key_category (q_key query)) (key_name (q_key query))) meta rows_of"
  obtains st' result where "query_scalar_predicate E st query = Some (st', Inr result)"
    and "qr_matches result = matches_of query (series_rows rows_of meta)"
proof (cases "expr_is_impossible (q_predicate query)")
  case True
  then have "filter (hit_of query) (series_rows rows_of meta) = []"
    using impossible_matches_nothing by (auto simp: filter_empty_conv hit_def)
  then show thesis using that v True by (simp add: query_scalar_predicate_def)
next
  case False
  have "expr_validate (q_predicate query) = Inr ()" using v by (simp add: validate_scalar_predicate_query_def res_simps)
  from query_predicate_exact [OF q this] show thesis using that v l False by (auto simp: query_scalar_predicate_def)
qed

lemma map_filter_matches:
  assumes "q_return_values query"
  shows "List.map_filter (\<lambda>m. map_option (\<lambda>v. \<lparr>s_ts = pm_ts m, s_value = v\<rparr>) (pm_value m)) (matches_of query rows)
    = filter (hit_of query) rows"
  using assms by (induction rows) (simp_all add: map_filter_simps match_of_def)

end
