(* ===== verification/PutGet.thy ===== *)
theory PutGet
  imports StoreWrites ScalarAnswers
begin

text \<open>
  What a write does to the rest of the store and to later reads. A frame calculus follows the files
  that exist: replacing a file keeps every other one, whatever the outcome. With it, a kline write
  that returns \<open>Ok\<close> is seen by every later read, in order with the rows that were there.
\<close>

section \<open>Files that a step keeps\<close>

definition keeps :: "path set \<Rightarrow> fs_state \<Rightarrow> fs_state \<Rightarrow> bool" where
  "keeps ps s s' \<longleftrightarrow> (\<forall>p f. fs_files s p = Some f \<longrightarrow> p \<notin> ps \<longrightarrow> fs_files s' p = Some f)"

lemma keeps_refl [simp]: "keeps ps s s"
  by (simp add: keeps_def)

lemma keeps_trans: "keeps ps s t \<Longrightarrow> keeps qs t u \<Longrightarrow> keeps (ps \<union> qs) s u"
  by (auto simp: keeps_def)

lemma keeps_mono: "keeps ps s t \<Longrightarrow> ps \<subseteq> qs \<Longrightarrow> keeps qs s t"
  by (auto simp: keeps_def)

lemma keeps_visible: "keeps ps s s' \<Longrightarrow> visible s p = Some b \<Longrightarrow> p \<notin> ps \<Longrightarrow> visible s' p = Some b"
  by (auto simp: keeps_def visible_def)

lemma keeps_ensure_dir [simp]: "keeps ps s (ensure_dir p s)"
  by (simp add: keeps_def ensure_dir_def)

text \<open>The temporary file is new, so that no other file is touched even when the write fails.\<close>

lemma atomic_write_keeps:
  assumes "atomic_write os dest allow_replace write_fn s = (trace, r)"
  shows "keeps {dest} s (last trace)"
proof -
  have "fs_files (last trace) p = Some f" if p: "fs_files s p = Some f" "p \<noteq> dest" for p f
  proof (cases "temp_path_for (os_nanos os) dest = Inr p")
    case True
    have "fs_exists (ensure_dir d s) p" for d using p by (simp add: fs_exists_def ensure_dir_def)
    then show ?thesis using assms True p by (auto simp: atomic_write_def Let_def ensure_dir_def split: option.splits if_splits)
  next
    case False
    have "trace \<noteq> []" using assms by (auto simp: atomic_write_def Let_def split: option.splits if_splits sum.splits prod.splits)
    then show ?thesis using atomic_write_frame [OF assms last_in_set p(2) False] p(1) by simp
  qed
  then show ?thesis by (auto simp: keeps_def)
qed

lemma publish_keeps:
  assumes "publish os chunk_path built s = (trace, r)"
  shows "keeps {chunk_path} s (last trace)"
  using assms by (auto simp: publish_def atomic_write_new_def dest: atomic_write_keeps split: sum.splits prod.splits)

lemma make_dir_keeps: "keeps ps s (fst (make_dir E p s))"
  by (simp add: make_dir_def split: option.splits)

lemma remove_file_keeps: "keeps {p} s (fst (remove_file E p s))"
  by (auto simp: remove_file_def keeps_def fs_remove_def split: option.splits)

lemma clear_marker_keeps: "keeps {recovery_marker_path root} s (fst (clear_recovery_marker E root s))"
proof -
  obtain s' r where r: "remove_file E (recovery_marker_path root) s = (s', r)" by fastforce
  have k: "keeps {recovery_marker_path root} s s'" using remove_file_keeps [of "recovery_marker_path root" s E] by (simp add: r)
  have "keeps {} s' (sync_parent_dir d s')" for d by (simp add: keeps_def sync_parent_dir_def)
  then show ?thesis using k keeps_trans [OF k, of "{}"]
    by (auto simp: clear_recovery_marker_def clear_recovery_marker_path_def r split: sum.splits option.splits)
qed

lemma arm_marker_keeps: "keeps {recovery_marker_path root} s (fst (arm_marker E root s))"
proof -
  obtain s1 r where m: "make_dir E root s = (s1, r)" by fastforce
  have k: "keeps {} s s1" using make_dir_keeps [of "{}" s E root] by (simp add: m)
  show ?thesis using keeps_trans [OF k] keeps_mono [OF k]
    by (auto simp: arm_marker_def m atomic_write_replace_def Let_def dest!: atomic_write_keeps split: sum.splits prod.splits)
qed

lemma save_series_meta_keeps:
  "keeps {series_meta_path dir} (ms_fs disk) (ms_fs (fst (save_series_meta mtime os disk dir meta)))"
  by (auto simp: save_series_meta_def Let_def atomic_write_replace_def dest!: atomic_write_keeps split: sum.splits prod.splits)

section \<open>Chunk file names\<close>

definition chunk_name :: "string \<Rightarrow> bool" where
  "chunk_name name \<longleftrightarrow> CHR ''/'' \<notin> set name \<and> CHR 0x5C \<notin> set name \<and> suffix ''.chunk'' name"

lemma chunk_path_comps:
  assumes "chunk_name name"
  shows "path_join dir (chunk_relative_path name) = dir\<lparr>comps := comps dir @ [''chunks'', name]\<rparr>"
    and "resolve_relative_path dir (chunk_relative_path name) = dir\<lparr>comps := comps dir @ [''chunks'', name]\<rparr>"
proof -
  have n: "CHR ''/'' \<notin> set name" "name \<noteq> []" "name \<noteq> ''.''" using assms by (auto simp: chunk_name_def suffix_def)
  then have "split_on CHR ''/'' name = [name]" by (simp add: split_on_single)
  then have "components (chunk_relative_path name) = [''chunks'', name]"
    using n by (simp add: components_def chunk_relative_path_def CHUNKS_DIR_def)
  then show j: "path_join dir (chunk_relative_path name) = dir\<lparr>comps := comps dir @ [''chunks'', name]\<rparr>"
    by (simp add: path_join_def chunk_relative_path_def CHUNKS_DIR_def)
  have "plain_relative (chunk_relative_path name)"
    using assms by (simp add: plain_relative_def chunk_relative_path_def CHUNKS_DIR_def chunk_name_def)
  then show "resolve_relative_path dir (chunk_relative_path name) = dir\<lparr>comps := comps dir @ [''chunks'', name]\<rparr>"
    using resolve_plain j by metis
qed

lemma chunk_path_apart:
  assumes "chunk_name name"
  shows "path_join dir (chunk_relative_path name) \<noteq> series_meta_path dir"
    and "path_join dir (chunk_relative_path name) \<noteq> recovery_marker_path root"
proof -
  have c: "comps (path_join dir (chunk_relative_path name)) = comps dir @ [''chunks'', name]" by (simp add: chunk_path_comps [OF assms])
  have m: "comps (series_meta_path dir) = comps dir @ [''series.meta'']"
    by (simp add: series_meta_path_def MANIFEST_FILE_def path_join_def components_def)
  have "length (comps (path_join dir (chunk_relative_path name))) \<noteq> length (comps (series_meta_path dir))" unfolding c m by simp
  then show "path_join dir (chunk_relative_path name) \<noteq> series_meta_path dir" by fastforce
  have r: "comps (recovery_marker_path root) = comps root @ [''.fastk.recovery.pending'']"
    by (simp add: recovery_marker_path_def RECOVERY_MARKER_FILE_def path_join_def components_def)
  have "name \<noteq> ''.fastk.recovery.pending''"
  proof
    assume "name = ''.fastk.recovery.pending''"
    moreover have "\<not> suffix ''.chunk'' ''.fastk.recovery.pending''" by code_simp
    ultimately show False using assms by (simp add: chunk_name_def)
  qed
  then have "last (comps (path_join dir (chunk_relative_path name))) \<noteq> last (comps (recovery_marker_path root))" unfolding c r by simp
  then show "path_join dir (chunk_relative_path name) \<noteq> recovery_marker_path root" by fastforce
qed

lemma manifest_path_apart: "series_meta_path dir \<noteq> recovery_marker_path root"
proof -
  have "last (comps (series_meta_path dir)) = ''series.meta''"
    by (simp add: series_meta_path_def MANIFEST_FILE_def path_join_def components_def)
  moreover have "last (comps (recovery_marker_path root)) = ''.fastk.recovery.pending''"
    by (simp add: recovery_marker_path_def RECOVERY_MARKER_FILE_def path_join_def components_def)
  ultimately show ?thesis by fastforce
qed

lemma fmt_pad_plain [simp]: "CHR ''/'' \<notin> set (fmt_pad w n)" "CHR 0x5C \<notin> set (fmt_pad w n)"
proof -
  have "of_char c \<in> {48..57 :: nat}" if "c \<in> set (fmt_pad w n)" for c
    using fmt_pad_digits [OF that] by (auto simp: of_char_digit)
  from this [of "CHR ''/''"] this [of "CHR 0x5C"]
  show "CHR ''/'' \<notin> set (fmt_pad w n)" "CHR 0x5C \<notin> set (fmt_pad w n)" by auto
qed

lemma month_key_plain: "month_key utc t = Inr key \<Longrightarrow> CHR ''/'' \<notin> set key \<and> CHR 0x5C \<notin> set key"
  by (auto simp: month_key_def fmt_year_def res_simps split: option.splits prod.splits if_splits)

lemma month_file_names:
  assumes "CHR ''/'' \<notin> set key \<and> CHR 0x5C \<notin> set key"
  shows "chunk_name (partition_chunk_file_name key)" and "chunk_name (partition_delta_chunk_file_name key g)"
    and "chunk_name (partition_merged_chunk_file_name key g)"
  using assms by (auto simp: chunk_name_def partition_chunk_file_name_def partition_delta_chunk_file_name_def
      partition_merged_chunk_file_name_def suffix_def)

section \<open>Fresh chunk ids\<close>

lemma foldl_max_start: "a \<le> foldl max a (xs :: 'a :: linorder list)"
  by (induction xs arbitrary: a) (auto intro: order_trans [OF max.cobounded1])

lemma foldl_max_upper: "x \<in> set xs \<Longrightarrow> x \<le> foldl max a (xs :: 'a :: linorder list)"
proof (induction xs arbitrary: a)
  case (Cons y ys)
  then show ?case using order_trans [OF max.cobounded2 foldl_max_start] by (cases "x = y") auto
qed simp

lemma foldl_max_mem: "foldl max a xs \<in> insert a (set (xs :: 'a :: linorder list))"
  by (induction xs arbitrary: a) (fastforce simp: max_def split: if_splits)+

lemma next_chunk_id_fresh:
  assumes "\<forall>c \<in> set (sm_chunks meta). cm_chunk_id c < - 1" and "c \<in> set (sm_chunks meta)"
  shows "cm_chunk_id c < next_chunk_id meta"
proof -
  let ?m = "foldl max 0 (map cm_chunk_id (sm_chunks meta))"
  have "?m < - 1" using foldl_max_mem [of 0 "map cm_chunk_id (sm_chunks meta)"] assms by (auto simp: word_less_nat_alt)
  then have "?m < saturating_add ?m 1" by (auto simp: saturating_add_def word_less_nat_alt unat_word_ariths)
  moreover have "cm_chunk_id c \<le> ?m" using assms(2) by (intro foldl_max_upper) simp
  ultimately show ?thesis by (simp add: next_chunk_id_def)
qed

lemma overwrite_fresh: "\<forall>d \<in> set cs. cm_chunk_id d \<noteq> cm_chunk_id c \<Longrightarrow> overwrite_chunk c cs = cs @ [c]"
  by (induction cs) auto

section \<open>The steps of a mutation\<close>

abbreviation fs_of :: "FastKStore \<Rightarrow> fs_state" where
  "fs_of st \<equiv> ms_fs (fk_disk st)"

text \<open>A step that touches the disk only, and of the existing files at most \<open>ps\<close>.\<close>

definition disk_step :: "path set \<Rightarrow> FastKStore \<Rightarrow> FastKStore \<Rightarrow> bool" where
  "disk_step ps st st' \<longleftrightarrow> (\<exists>d. st' = st\<lparr>fk_disk := d\<rparr> \<and> keeps ps (fs_of st) (ms_fs d))"

lemma disk_step_fields:
  assumes "disk_step ps st st'"
  shows "fk_root st' = fk_root st" "fk_manifest_cache st' = fk_manifest_cache st" "fk_chunk_runtime st' = fk_chunk_runtime st"
    "fk_compaction_policy st' = fk_compaction_policy st" "fk_read_pool st' = fk_read_pool st" "keeps ps (fs_of st) (fs_of st')"
    "fk_scalar_sidecars st' = fk_scalar_sidecars st"
  using assms by (auto simp: disk_step_def)

lemma disk_step_trans: "disk_step ps st t \<Longrightarrow> disk_step qs t u \<Longrightarrow> disk_step (ps \<union> qs) st u"
  unfolding disk_step_def using keeps_trans by fastforce

lemma on_fs_step:
  assumes "on_fs st f = (st', r)" and "keeps ps (fs_of st) (fst (f (fs_of st)))"
  shows "disk_step ps st st'" and "f (fs_of st) = (fs_of st', r)"
  using assms by (auto simp: on_fs_def disk_step_def split: prod.splits)

lemma arm_step: "arm E st = (st', r) \<Longrightarrow> disk_step {recovery_marker_path (fk_root st)} st st'"
  unfolding arm_def by (erule on_fs_step(1)) (rule arm_marker_keeps)

lemma commit_step: "commit E st = (st', r) \<Longrightarrow> disk_step {recovery_marker_path (fk_root st)} st st'"
  unfolding commit_def by (erule on_fs_step(1)) (rule clear_marker_keeps)

lemma catalog_save_step:
  assumes "catalog_save E st dir meta = (st', r)"
  shows "disk_step {series_meta_path dir} st st'" and "r = Inr () \<Longrightarrow> series_meta_validate meta = Inr ()"
    and "r = Inr () \<Longrightarrow> \<exists>bytes. encode_manifest meta = Inr bytes \<and> fk_files st' (series_meta_path dir) = Some bytes"
proof -
  have d: "save_disk E (fk_disk st) dir meta = (fk_disk st', r)" "st' = st\<lparr>fk_disk := fk_disk st'\<rparr>"
    using assms by (auto simp: catalog_save_def split: prod.splits)
  have "keeps {series_meta_path dir} (fs_of st) (fs_of st')"
    using save_series_meta_keeps [of dir "fk_disk st" "e_mtime E" "e_os E (fs_of st) (series_meta_path dir)" meta] d(1) by (simp add: save_disk_def)
  with d(2) show "disk_step {series_meta_path dir} st st'" unfolding disk_step_def by blast
  show "series_meta_validate meta = Inr ()" if "r = Inr ()"
    by (rule save_series_meta_Inr [OF d(1) [unfolded save_disk_def that]])
  show "\<exists>bytes. encode_manifest meta = Inr bytes \<and> fk_files st' (series_meta_path dir) = Some bytes" if "r = Inr ()"
    by (rule save_series_meta_Inr [OF d(1) [unfolded save_disk_def that]]) (simp add: fk_files_def visible_def)
qed

lemma write_kline_file_step:
  assumes "write_kline_file E st p meta records options = (st', r)"
  shows "disk_step {p} st st'"
    and "r = Inr cm \<Longrightarrow> \<exists>bytes. kline_build (e_utc E) meta records options = Inr (bytes, cm) \<and> fk_files st' p = Some bytes \<and> fs_files (fs_of st) p = None"
proof -
  let ?f = "\<lambda>s. last_state (kline_write_chunk (e_utc E) (e_os E s p) p meta records options s)"
  have "keeps {p} s (fst (?f s))" for s
    by (auto simp: last_state_def kline_write_chunk_def dest: publish_keeps split: prod.splits)
  note st = on_fs_step [OF assms [unfolded write_kline_file_def] this]
  show "disk_step {p} st st'" by (rule st(1))
  obtain trace where t: "publish (e_os E (fs_of st) p) p (kline_build (e_utc E) meta records options) (fs_of st) = (trace, r)" "fs_of st' = last trace"
    using st(2) by (auto simp: last_state_def kline_write_chunk_def split: prod.splits)
  show "\<exists>bytes. kline_build (e_utc E) meta records options = Inr (bytes, cm) \<and> fk_files st' p = Some bytes \<and> fs_files (fs_of st) p = None" if "r = Inr cm"
    by (rule publish_visible [OF t(1) [unfolded that]]) (auto simp: fk_files_def t(2))
qed

section \<open>A kline write\<close>

text \<open>The file name and state that a write chooses.\<close>

definition names_put :: "Env \<Rightarrow> SeriesMeta \<Rightarrow> string \<Rightarrow> i64 \<Rightarrow> string \<Rightarrow> ChunkState \<Rightarrow> bool" where
  "names_put E meta key ts name state \<longleftrightarrow>
     (let existing = month_chunks meta key in
      if existing = [] then name = partition_chunk_file_name key \<and> state = Sealed
      else cm_end_ts (last existing) < ts \<and> name = partition_delta_chunk_file_name key (next_generation existing) \<and> state = Active)"

abbreviation put_options :: "SeriesMeta \<Rightarrow> string \<Rightarrow> string \<Rightarrow> ChunkState \<Rightarrow> WriteChunkOptions" where
  "put_options meta key name state \<equiv>
     \<lparr>wo_chunk_id = next_chunk_id meta, wo_generation = next_generation (month_chunks meta key), wo_state = state,
      wo_relative_path = chunk_relative_path name, wo_sparse_index_every = DEFAULT_SPARSE_INDEX_EVERY\<rparr>"

lemma put_kline_locked:
  assumes "put_kline_chunk_locked E st symbol timeframe records = (st', Inr ())"
    and "load_kline_meta E st symbol timeframe = (st2, Inr meta)" and "\<not> cp_auto_merge (fk_compaction_policy st2)"
  obtains key name state cm bytes meta' ps where "records \<noteq> []" and "month_key (e_utc E) (k_ts (hd records)) = Inr key"
    and "names_put E meta key (k_ts (hd records)) name state"
    and "kline_build (e_utc E) meta records (put_options meta key name state) = Inr (bytes, cm)"
    and "sm_chunks meta' = sort_key cm_start_ts (overwrite_chunk cm (sm_chunks meta))" and "series_meta_validate meta' = Inr ()"
    and "sm_symbol meta' = sm_symbol meta" "sm_category meta' = sm_category meta" "sm_name meta' = sm_name meta"
      "sm_series_id meta' = sm_series_id meta"
    and "ps = {recovery_marker_path (fk_root st2), series_meta_path (kline_series_dir (fk_root st2) (sm_symbol meta) (sm_name meta))}"
    and "keeps (insert (resolve_relative_path (kline_series_dir (fk_root st2) symbol timeframe) (chunk_relative_path name)) ps) (fs_of st2) (fs_of st')"
    and "resolve_relative_path (kline_series_dir (fk_root st2) symbol timeframe) (chunk_relative_path name) \<notin> ps \<Longrightarrow>
      fk_files st' (resolve_relative_path (kline_series_dir (fk_root st2) symbol timeframe) (chunk_relative_path name)) = Some bytes
      \<and> fk_files st2 (resolve_relative_path (kline_series_dir (fk_root st2) symbol timeframe) (chunk_relative_path name)) = None"
    and "fk_manifest_cache st' (series_cache_key (sm_symbol meta) (sm_category meta) (sm_name meta)) = Some meta'"
    and "fk_root st' = fk_root st2" and "fk_chunk_runtime st' = fk_chunk_runtime st2"
    and "fk_compaction_policy st' = fk_compaction_policy st2"
    and "\<exists>encoded. encode_manifest meta' = Inr encoded
      \<and> fk_files st' (series_meta_path (kline_series_dir (fk_root st2) (sm_symbol meta) (sm_name meta))) = Some encoded"
    and "sm_chunk_unit meta' = sm_chunk_unit meta" "sm_active_chunk_id meta' \<in> {sm_active_chunk_id meta, Some (next_chunk_id meta)}"
proof -
  let ?dir = "kline_series_dir (fk_root st2) symbol timeframe"
  obtain first rs where rs: "records = first # rs"
    using assms(1,2) by (cases records) (auto simp: put_kline_chunk_locked_def)
  obtain key name state where key: "month_key (e_utc E) (k_ts first) = Inr key"
    and nm: "put_kline_target E meta key first = Inr (name, state)"
    and pub: "put_kline_publish E st2 symbol timeframe key meta records name state = (st', Inr ())"
    using assms(1,2) by (auto simp: put_kline_chunk_locked_def rs then_do_Inr)
  have nms: "names_put E meta key (k_ts first) name state"
    using nm key by (auto simp: put_kline_target_def names_put_def Let_def month_chunk_file_name_def month_delta_chunk_file_name_def not_le split: if_splits)
  let ?p = "resolve_relative_path ?dir (chunk_relative_path name)"
  obtain stA where a: "arm E st2 = (stA, Inr ())" 
    by (rule then_do_InrE [OF pub [unfolded put_kline_publish_def Let_def]]) (rule that, simp)
  obtain stW cm where w: "write_kline_file E stA ?p meta records (put_options meta key name state) = (stW, Inr cm)"
    by (rule then_do_InrE [OF pub [unfolded put_kline_publish_def Let_def a then_do_simps]]) (rule that)
  obtain m u where up: "upsert_chunk_meta (e_now E) meta cm = (m, u)" by fastforce
  define meta' where "meta' = (if cm_state cm = Active then m\<lparr>sm_active_chunk_id := Some (cm_chunk_id cm)\<rparr> else m)"
  have m': "sm_chunks meta' = sort_key cm_start_ts (overwrite_chunk cm (sm_chunks meta))" "sm_symbol meta' = sm_symbol meta"
      "sm_category meta' = sm_category meta" "sm_name meta' = sm_name meta" "sm_series_id meta' = sm_series_id meta"
    using up by (auto simp: meta'_def upsert_chunk_meta_def Let_def)
  have "then_do (stW, u) (\<lambda>st _. put_kline_finish E st symbol timeframe key meta') = (st', Inr ())"
    using pub unfolding put_kline_publish_def Let_def a w up then_do_simps meta'_def by simp
  then have fin: "put_kline_finish E stW symbol timeframe key meta' = (st', Inr ())" by (auto simp: then_do_Inr)
  obtain stS where sv: "save_kline_meta E stW meta' = (stS, Inr ())"
    by (rule then_do_InrE [OF fin [unfolded put_kline_finish_def]]) (rule that, simp)
  note A = arm_step [OF a] and W = write_kline_file_step [OF w] and S = catalog_save_step [OF sv [unfolded save_kline_meta_def m']]
  note fA = disk_step_fields [OF A] and fW = disk_step_fields [OF W(1)] and fS = disk_step_fields [OF S(1)]
  let ?c = "store_series_in_cache stS meta'"
  have "fk_compaction_policy ?c = fk_compaction_policy st2" by (simp add: store_series_in_cache_def fA fW fS)
  then have cm: "commit E ?c = (st', Inr ())"
    using fin assms(3) by (auto simp: put_kline_finish_def sv Let_def split: option.splits)
  note C = commit_step [OF cm]
  have fC: "fk_root st' = fk_root st2" "fk_chunk_runtime st' = fk_chunk_runtime st2" "fk_compaction_policy st' = fk_compaction_policy st2"
      "fk_manifest_cache st' = fk_manifest_cache ?c"
    using disk_step_fields [OF C] by (simp_all add: store_series_in_cache_def fA fW fS)
  let ?mk = "recovery_marker_path (fk_root st2)" and ?mf = "series_meta_path (kline_series_dir (fk_root st2) (sm_symbol meta) (sm_name meta))"
  have kA: "keeps {?mk} (fs_of st2) (fs_of stA)" using fA(6) .
  have kW: "keeps {?p} (fs_of stA) (fs_of stW)" using fW(6) .
  have kS: "keeps {?mf} (fs_of stW) (fs_of stS)" using fS(6) by (simp add: fA fW)
  have kC: "keeps {?mk} (fs_of stS) (fs_of st')" using disk_step_fields(6) [OF C] by (simp add: store_series_in_cache_def fA fW fS)
  have k: "keeps (insert ?p {?mk, ?mf}) (fs_of st2) (fs_of st')"
    using keeps_trans [OF keeps_trans [OF kA kW] keeps_trans [OF kS kC]] by (rule keeps_mono) auto
  obtain bytes where b: "kline_build (e_utc E) meta records (put_options meta key name state) = Inr (bytes, cm)" "fk_files stW ?p = Some bytes" "fs_files (fs_of stA) ?p = None"
    using W(2) by blast
  have f: "fk_files st' ?p = Some bytes \<and> fk_files st2 ?p = None" if "?p \<notin> {?mk, ?mf}"
  proof
    have "fs_files (fs_of st2) ?p = None" using kA b(3) that by (cases "fs_files (fs_of st2) ?p") (auto simp: keeps_def)
    then show "fk_files st2 ?p = None" by (simp add: fk_files_def visible_def)
    have "visible (fs_of st') ?p = Some bytes"
      by (rule keeps_visible [OF keeps_trans [OF kS kC]]) (use b(2) that in \<open>auto simp: fk_files_def\<close>)
    then show "fk_files st' ?p = Some bytes" by (simp add: fk_files_def)
  qed
  have cache: "fk_manifest_cache st' (series_cache_key (sm_symbol meta) (sm_category meta) (sm_name meta)) = Some meta'"
    by (simp add: fC store_series_in_cache_def m')
  have saved: "\<exists>encoded. encode_manifest meta' = Inr encoded \<and> fk_files st' ?mf = Some encoded"
    using S(3) [OF refl] keeps_visible [OF kC] manifest_path_apart by (fastforce simp: fA fW fk_files_def)
  have "cm_chunk_id cm = next_chunk_id meta"
    using kline_build_image(2) [OF b(1)] by (auto simp: written_meta_def dest: arg_cong [where f = cm_chunk_id])
  then have rest: "sm_chunk_unit meta' = sm_chunk_unit meta" "sm_active_chunk_id meta' \<in> {sm_active_chunk_id meta, Some (next_chunk_id meta)}"
    using up by (auto simp: meta'_def upsert_chunk_meta_def Let_def)
  show thesis
    by (rule that [OF _ _ _ b(1) m'(1) S(2) [OF refl] m'(2-5) refl k f cache fC(1-3) saved rest]) (use rs key nms in simp_all)
qed

section \<open>A write is seen by later reads\<close>

lemma coherent_clear: "file_cache_ok (rt_files rt) \<Longrightarrow> coherent fs where_is (runtime_clear rt)"
  by (simp add: coherent_def runtime_clear_def file_cache_clear_def header_cache_clear_def file_cache_ok_def queue_ok_def)

lemma load_meta_fields:
  assumes "load_meta E st key dir = (st', r)"
  shows "fk_root st' = fk_root st" and "fk_compaction_policy st' = fk_compaction_policy st" and "fk_chunk_runtime st' = fk_chunk_runtime st"
  using assms by (auto simp: load_meta_def catalog_load_report_def Let_def split: option.splits sum.splits prod.splits)

lemma begin_mutation_fields:
  assumes "begin_mutation depth E st = Some (st1, Inr ())"
  shows "fk_root st1 = fk_root st" and "fk_compaction_policy st1 = fk_compaction_policy st"
    and "fk_chunk_runtime st1 = runtime_clear (fk_chunk_runtime st)"
  using assms by (auto simp: begin_mutation_def acquire_write_ownership_def on_fs_def clear_read_caches_def Let_def
      split: if_splits option.splits sum.splits prod.splits)

text \<open>Every chunk is named as the store names chunks.\<close>

definition named_chunks :: "SeriesMeta \<Rightarrow> bool" where
  "named_chunks meta \<longleftrightarrow> (\<forall>c \<in> set (sm_chunks meta). \<exists>name. chunk_name name \<and> cm_relative_path c = chunk_relative_path name)"

lemma stored_keeps:
  assumes "series_stored R ok (fk_files st) dir meta rows_of" and "keeps ps (fs_of st) (fs_of st')"
    and "\<And>c. c \<in> set (sm_chunks meta) \<Longrightarrow> path_join dir (cm_relative_path c) \<notin> ps" and "c \<in> set (sm_chunks meta)"
  shows "chunk_stored R ok (fk_files st') dir (sm_series_id meta) c (rows_of c)"
proof -
  have "chunk_stored R ok (fk_files st) dir (sm_series_id meta) c (rows_of c)" using assms(1,4) by (simp add: series_stored_def)
  moreover have "fk_files st (path_join dir (cm_relative_path c)) = Some b \<Longrightarrow> fk_files st' (path_join dir (cm_relative_path c)) = Some b" for b
    using keeps_visible [OF assms(2)] assms(3,4) unfolding fk_files_def by blast
  ultimately show ?thesis unfolding chunk_stored_def by blast
qed

text \<open>Adding a chunk to a stored series adds its rows, in order.\<close>

lemma series_rows_insert:
  assumes "series_stored R ok fs dir meta' (rows_of(cm := records))"
    and "sm_chunks meta' = sort_key cm_start_ts (sm_chunks meta @ [cm])" and "cm \<notin> set (sm_chunks meta)"
  shows "series_rows (rows_of(cm := records)) meta' = sort_key (ts_of R) (series_rows rows_of meta @ records)"
proof -
  let ?r = "rows_of(cm := records)"
  have s: "sorted_wrt (<) (map (ts_of R) (series_rows ?r meta'))" by (rule series_sorted [OF assms(1)])
  have "mset (concat (map ?r cs)) = sum_list (map (mset \<circ> ?r) cs)" for cs by (induction cs) auto
  then have "mset (series_rows ?r meta') = mset (concat (map ?r (sm_chunks meta @ [cm])))"
    unfolding series_rows_def assms(2)
    by (metis mset_map mset_sort sum_mset_sum_list)
  also have "\<dots> = mset (series_rows rows_of meta @ records)"
  proof -
    have "concat (map ?r (sm_chunks meta)) = concat (map rows_of (sm_chunks meta))"
      using assms(3) by (intro arg_cong [where f = concat] map_cong) auto
    then show ?thesis by (simp add: series_rows_def)
  qed
  finally have m: "mset (series_rows ?r meta') = mset (series_rows rows_of meta @ records)" .
  have "inj_on (ts_of R) (set (series_rows ?r meta'))" using s by (metis distinct_map strict_sorted_iff)
  then have i: "inj_on (ts_of R) (set (series_rows rows_of meta @ records))" using m by (metis mset_eq_setD)
  show ?thesis
    by (rule sort_key_inj_key_eq [OF m [symmetric] i, symmetric]) (use s strict_sorted_imp_sorted in blast)
qed

lemma upsert_stored:
  assumes stored: "series_stored kline_record (\<lambda>_. True) (fk_files st) dir meta rows_of" and nm: "named_chunks meta"
    and ids: "\<forall>c \<in> set (sm_chunks meta). cm_chunk_id c < - 1"
    and size: "72 * (length (series_rows rows_of meta) + length records) + 128 < 2 ^ 63"
    and put: "kline_build utc meta records options = Inr (bytes, cm)" "wo_chunk_id options = next_chunk_id meta"
      "wo_relative_path options = chunk_relative_path name" "chunk_name name"
    and m': "sm_chunks meta' = sort_key cm_start_ts (overwrite_chunk cm (sm_chunks meta))" "series_meta_validate meta' = Inr ()"
      "sm_series_id meta' = sm_series_id meta"
    and fs: "keeps (insert (path_join dir (chunk_relative_path name)) {recovery_marker_path root, series_meta_path dir}) (fs_of st) (fs_of st')"
      "fk_files st' (path_join dir (chunk_relative_path name)) = Some bytes"
      "fk_files st (path_join dir (chunk_relative_path name)) = None"
  shows "series_stored kline_record (\<lambda>_. True) (fk_files st') dir meta' (rows_of(cm := records))"
    and "series_rows (rows_of(cm := records)) meta' = sort_key k_ts (series_rows rows_of meta @ records)"
proof -
  have id: "cm_chunk_id cm = next_chunk_id meta" using kline_build_image(2) [OF put(1)] put(2) by (metis ChunkMeta.select_convs(1) written_meta_def)
  have fresh: "\<forall>c \<in> set (sm_chunks meta). cm_chunk_id c \<noteq> cm_chunk_id cm" using next_chunk_id_fresh [OF ids] id by fastforce
  then have new: "cm \<notin> set (sm_chunks meta)" by blast
  have chunks: "sm_chunks meta' = sort_key cm_start_ts (sm_chunks meta @ [cm])" using m'(1) overwrite_fresh [OF fresh] by simp
  have bound: "length (rows_of c) \<le> length (series_rows rows_of meta)" if "c \<in> set (sm_chunks meta)" for c
    using that by (auto simp: series_rows_def length_concat comp_def intro: member_le_sum_list)
  have c1: "chunk_stored kline_record (\<lambda>_. True) (fk_files st') dir (sm_series_id meta) cm records"
    by (rule kline_build_stored [OF put(1)]) (use size put(3) fs(2) in simp_all)
  have c2: "chunk_stored kline_record (\<lambda>_. True) (fk_files st') dir (sm_series_id meta) c (rows_of c)" if c: "c \<in> set (sm_chunks meta)" for c
  proof (rule stored_keeps [OF stored fs(1) _ c])
    fix d assume d: "d \<in> set (sm_chunks meta)"
    then obtain n where n: "chunk_name n" "cm_relative_path d = chunk_relative_path n" using nm by (auto simp: named_chunks_def)
    have "fk_files st (path_join dir (cm_relative_path d)) \<noteq> None" using stored d by (auto simp: series_stored_def chunk_stored_def)
    then show "path_join dir (cm_relative_path d) \<notin> insert (path_join dir (chunk_relative_path name)) {recovery_marker_path root, series_meta_path dir}"
      using chunk_path_apart [OF n(1)] n(2) fs(3) by auto
  qed
  have all: "chunk_stored kline_record (\<lambda>_. True) (fk_files st') dir (sm_series_id meta') c ((rows_of(cm := records)) c)"
    if "c \<in> set (sm_chunks meta')" for c using that c1 c2 new m'(3) by (auto simp: chunks)
  have "cm_count c > 0" if "c \<in> set (sm_chunks meta')" for c
  proof -
    let ?rs = "(rows_of(cm := records)) c"
    have "length ?rs < 2 ^ 64" using that size bound by (fastforce simp: chunks)
    moreover have "?rs \<noteq> []" "cm_count c = word_of_nat (length ?rs)" using all [OF that] by (simp_all add: chunk_stored_def)
    ultimately show ?thesis by (simp add: word_less_nat_alt unsigned_of_nat take_bit_nat_eq_self)
  qed
  then have "spans_ordered (sm_chunks meta')" using series_meta_validate_spans [OF m'(2)] by blast
  then show st': "series_stored kline_record (\<lambda>_. True) (fk_files st') dir meta' (rows_of(cm := records))"
    using all by (simp add: series_stored_def)
  show "series_rows (rows_of(cm := records)) meta' = sort_key k_ts (series_rows rows_of meta @ records)"
    using series_rows_insert [OF st' chunks new] by (simp add: kline_record_def)
qed

text \<open>A kline series as a write finds it: its manifest, stored rows and names.\<close>

definition kline_series_at :: "FastKStore \<Rightarrow> string \<Rightarrow> string \<Rightarrow> SeriesMeta \<Rightarrow> (ChunkMeta \<Rightarrow> KlineRecord list) \<Rightarrow> bool" where
  "kline_series_at st symbol timeframe meta rows_of \<longleftrightarrow>
     series_stored kline_record (\<lambda>_. True) (fk_files st) (kline_series_dir (fk_root st) symbol timeframe) meta rows_of
     \<and> sm_symbol meta = symbol \<and> sm_category meta = KLINE_CATEGORY \<and> sm_name meta = timeframe
     \<and> named_chunks meta \<and> (\<forall>c \<in> set (sm_chunks meta). cm_chunk_id c < - 1)"

text \<open>A write to it leaves such a series; the identifier of its new chunk is the next one.\<close>

lemma next_chunk_id_room:
  assumes "\<forall>c \<in> set (sm_chunks meta). unat (cm_chunk_id c) + Suc k < 2 ^ 64 - 1" and "Suc k < 2 ^ 64 - 1"
  shows "unat (next_chunk_id meta) + k < 2 ^ 64 - 1"
proof -
  have "foldl max a xs \<in> insert a (set xs)" for a :: u64 and xs
  proof (induction xs arbitrary: a)
    case (Cons x xs)
    then show ?case using Cons [of "max a x"] by (auto simp: max_def split: if_splits)
  qed simp
  from this [of 0 "map cm_chunk_id (sm_chunks meta)"]
  have "unat (foldl max 0 (map cm_chunk_id (sm_chunks meta))) + Suc k < 2 ^ 64 - 1" using assms by auto
  moreover have "unat (saturating_add a 1) \<le> unat a + 1" for a :: u64
  proof (cases "unat a < 2 ^ 64 - 1")
    case False
    then show ?thesis using unsigned_less [where 'a = nat, of "saturating_add a 1"] by simp
  qed (simp add: saturating_add_def checked_add_def unat_word_ariths)
  ultimately show ?thesis unfolding next_chunk_id_def by (metis (no_types, lifting) add.assoc add_le_mono1 le_less_trans plus_1_eq_Suc)
qed

text \<open>The manifest that a read of the file system finds, without the caches of the process.\<close>

definition manifest_on_disk :: "Env \<Rightarrow> FastKStore \<Rightarrow> path \<Rightarrow> SeriesMeta \<Rightarrow> bool" where
  "manifest_on_disk E st dir meta \<longleftrightarrow> snd (load_disk E (fk_disk st) dir True) = Inr meta"

lemma encoded_on_disk:
  assumes "encode_manifest meta = Inr bytes" and "fk_files st (series_meta_path dir) = Some bytes"
    and "series_meta_validate meta = Inr ()" and "manifest_fits meta"
  shows "manifest_on_disk E st dir meta"
proof -
  have "take 8 bytes = MANIFEST_MAGIC" using encode_manifest_eq [OF assms(1)] by simp
  with assms manifest_roundtrip [OF assms(1,4)] show ?thesis
    by (auto simp: manifest_on_disk_def load_disk_def load_series_meta_shared_mode_def decode_or_migrate_def fk_files_def visible_def)
qed

lemma ascii_valid: "\<forall>c \<in> set s. of_char c < (128 :: nat) \<Longrightarrow> valid_utf8 s"
  unfolding valid_utf8_def by (induction s) auto

lemma fmt_pad_ascii: "c \<in> set (fmt_pad w n) \<Longrightarrow> of_char c < (128 :: nat)"
  using fmt_pad_digits [of c w n] by (auto simp: of_char_digit)

lemma month_key_ascii: "month_key utc t = Inr key \<Longrightarrow> c \<in> set key \<Longrightarrow> of_char c < (128 :: nat)"
  by (auto simp: month_key_def fmt_year_def res_simps fmt_pad_ascii split: option.splits prod.splits if_splits)

lemma put_chunk_fits:
  assumes bd: "kline_build (e_utc E) meta records (put_options meta key name state) = Inr (bytes, cm)"
    and np: "names_put E meta key t name state" and key: "month_key (e_utc E) (k_ts (hd records)) = Inr key"
  shows "chunk_fits cm"
proof -
  note k = month_key_ascii [OF key]
  have "of_char c < (128 :: nat)" if "c \<in> set (chunk_relative_path name)" for c
    using that np k by (auto simp: names_put_def Let_def chunk_relative_path_def CHUNKS_DIR_def partition_chunk_file_name_def
        partition_delta_chunk_file_name_def fmt_pad_ascii split: if_splits)
  then have n: "valid_utf8 (chunk_relative_path name)" by (auto intro: ascii_valid)
  have "cm_month_key cm = key \<and> cm_relative_path cm = chunk_relative_path name \<and> cm_sidecars cm = []"
    using kline_build_image(2) [OF bd] key
    by (auto simp: written_meta_def dest: arg_cong [where f = cm_relative_path] arg_cong [where f = cm_sidecars])
  with n k show ?thesis by (auto simp: chunk_fits_def intro: ascii_valid)
qed

lemma next_chunk_id_pos: "next_chunk_id meta \<noteq> 0"
proof -
  have "saturating_add a 1 \<noteq> 0" for a :: u64
  proof -
    have "unat (saturating_add a 1) \<noteq> 0" by (auto simp: saturating_add_def unat_word_ariths unsigned_minus_1_eq_mask mask_eq_exp_minus_1)
    then show ?thesis by auto
  qed
  then show ?thesis by (simp add: next_chunk_id_def)
qed

lemma put_kline_step:
  assumes put: "put_kline_chunk_locked E st symbol timeframe records = (st', Inr ())"
    and load: "load_kline_meta E st symbol timeframe = (st2, Inr meta)"
    and series: "kline_series_at st2 symbol timeframe meta rows_of" and policy: "\<not> cp_auto_merge (fk_compaction_policy st2)"
    and size: "72 * (length (series_rows rows_of meta) + length records) + 128 < 2 ^ 63"
  obtains meta' rows' where "load_kline_meta E st' symbol timeframe = (st', Inr meta')"
    and "series_stored kline_record (\<lambda>_. True) (fk_files st') (kline_series_dir (fk_root st') symbol timeframe) meta' rows'"
    and "series_rows rows' meta' = sort_key k_ts (series_rows rows_of meta @ records)"
    and "sm_symbol meta' = symbol" "sm_category meta' = KLINE_CATEGORY" "sm_name meta' = timeframe" "named_chunks meta'"
    and "cm_chunk_id ` set (sm_chunks meta') \<subseteq> insert (next_chunk_id meta) (cm_chunk_id ` set (sm_chunks meta))"
    and "fk_root st' = fk_root st2" "fk_chunk_runtime st' = fk_chunk_runtime st2" "fk_compaction_policy st' = fk_compaction_policy st2"
    and "length (sm_chunks meta') \<le> Suc (length (sm_chunks meta))"
    and "manifest_fits meta \<Longrightarrow> Suc (length (sm_chunks meta)) < 2 ^ 32 \<Longrightarrow>
      manifest_fits meta' \<and> manifest_on_disk E st' (kline_series_dir (fk_root st') symbol timeframe) meta'"
proof -
  have s: "series_stored kline_record (\<lambda>_. True) (fk_files st2) (kline_series_dir (fk_root st2) symbol timeframe) meta rows_of"
    and nm: "sm_symbol meta = symbol" "sm_category meta = KLINE_CATEGORY" "sm_name meta = timeframe" "named_chunks meta"
    and ids: "\<forall>c \<in> set (sm_chunks meta). cm_chunk_id c < - 1" using series by (simp_all add: kline_series_at_def)
  obtain key name state cm bytes meta' ps where p: "month_key (e_utc E) (k_ts (hd records)) = Inr key"
    and np: "names_put E meta key (k_ts (hd records)) name state"
    and bd: "kline_build (e_utc E) meta records (put_options meta key name state) = Inr (bytes, cm)"
    and m': "sm_chunks meta' = sort_key cm_start_ts (overwrite_chunk cm (sm_chunks meta))" "series_meta_validate meta' = Inr ()"
      "sm_series_id meta' = sm_series_id meta"
    and nm': "sm_symbol meta' = sm_symbol meta" "sm_category meta' = sm_category meta" "sm_name meta' = sm_name meta"
    and ps: "ps = {recovery_marker_path (fk_root st2), series_meta_path (kline_series_dir (fk_root st2) (sm_symbol meta) (sm_name meta))}"
    and kp: "keeps (insert (resolve_relative_path (kline_series_dir (fk_root st2) symbol timeframe) (chunk_relative_path name)) ps) (fs_of st2) (fs_of st')"
    and f: "resolve_relative_path (kline_series_dir (fk_root st2) symbol timeframe) (chunk_relative_path name) \<notin> ps \<Longrightarrow>
      fk_files st' (resolve_relative_path (kline_series_dir (fk_root st2) symbol timeframe) (chunk_relative_path name)) = Some bytes
      \<and> fk_files st2 (resolve_relative_path (kline_series_dir (fk_root st2) symbol timeframe) (chunk_relative_path name)) = None"
    and mc: "fk_manifest_cache st' (series_cache_key (sm_symbol meta) (sm_category meta) (sm_name meta)) = Some meta'"
    and rt: "fk_root st' = fk_root st2" "fk_chunk_runtime st' = fk_chunk_runtime st2" "fk_compaction_policy st' = fk_compaction_policy st2"
    and sv: "\<exists>encoded. encode_manifest meta' = Inr encoded
      \<and> fk_files st' (series_meta_path (kline_series_dir (fk_root st2) (sm_symbol meta) (sm_name meta))) = Some encoded"
    and mu: "sm_chunk_unit meta' = sm_chunk_unit meta" "sm_active_chunk_id meta' \<in> {sm_active_chunk_id meta, Some (next_chunk_id meta)}"
    by (rule put_kline_locked [OF put load policy]) (rule that)
  let ?dir = "kline_series_dir (fk_root st2) symbol timeframe"
  have name: "chunk_name name"
    using np month_file_names [OF month_key_plain [OF p]] by (auto simp: names_put_def Let_def split: if_splits)
  have path: "resolve_relative_path ?dir (chunk_relative_path name) = path_join ?dir (chunk_relative_path name)"
    by (simp add: chunk_path_comps [OF name])
  have "path_join ?dir (chunk_relative_path name) \<notin> ps" using chunk_path_apart [OF name] by (simp add: ps nm)
  note f' = f [unfolded path, OF this]
  have kp': "keeps (insert (path_join ?dir (chunk_relative_path name)) {recovery_marker_path (fk_root st2), series_meta_path ?dir}) (fs_of st2) (fs_of st')"
    using kp by (simp add: ps nm path)
  note up = upsert_stored [OF s nm(4) ids size bd _ _ name m' kp', simplified, OF conjunct1 [OF f'] conjunct2 [OF f']]
  have w: "cm_chunk_id cm = next_chunk_id meta" "cm_relative_path cm = chunk_relative_path name"
    using kline_build_image(2) [OF bd] by (auto simp: written_meta_def elim!: exE dest: arg_cong [where f = cm_chunk_id] arg_cong [where f = cm_relative_path])
  have "set (overwrite_chunk cm cs) \<subseteq> insert cm (set cs)" "length (overwrite_chunk cm cs) \<le> Suc (length cs)" for cs
    by (induction cs) auto
  then have cs: "set (sm_chunks meta') \<subseteq> insert cm (set (sm_chunks meta))" and len: "length (sm_chunks meta') \<le> Suc (length (sm_chunks meta))"
    by (simp_all add: m'(1))
  have fits: "manifest_fits meta' \<and> manifest_on_disk E st' (kline_series_dir (fk_root st') symbol timeframe) meta'"
    if "manifest_fits meta" "Suc (length (sm_chunks meta)) < 2 ^ 32"
  proof -
    have f': "manifest_fits meta'"
      using that cs len put_chunk_fits [OF bd np p] mu nm' next_chunk_id_pos [of meta] by (auto simp: manifest_fits_def)
    with sv encoded_on_disk [OF _ _ m'(2)] show ?thesis by (auto simp: nm rt)
  qed
  have "load_kline_meta E st' symbol timeframe = (st', Inr meta')"
    using mc nm by (simp add: load_kline_meta_def load_meta_def)
  moreover have "named_chunks meta'" using cs nm(4) name w(2) by (auto simp: named_chunks_def)
  moreover have "cm_chunk_id ` set (sm_chunks meta') \<subseteq> insert (next_chunk_id meta) (cm_chunk_id ` set (sm_chunks meta))"
    using cs w(1) by auto
  ultimately show thesis using that up rt nm nm' len fits by metis
qed

lemma kline_stored_readable:
  assumes "series_stored kline_record (\<lambda>_. True) (fk_files st) dir meta rows_of" and "72 * length (series_rows rows_of meta) + 128 < 2 ^ 63"
    and "file_cache_ok (rt_files rt)" and "fk_chunk_runtime st = runtime_clear rt"
  shows "readable_series kline_record (\<lambda>_. True) (\<lambda>k. path_join dir (ck_relative_path k)) st dir meta rows_of"
  using assms coherent_clear [OF assms(3)] by (simp add: readable_series_def key_from_meta_def kline_BYTE_SIZE_def)

lemma put_kline_readable:
  assumes put: "put_kline_chunk depth E st symbol timeframe records = Some (st', Inr ())"
    and own: "begin_mutation depth E st = Some (st1, Inr ())"
    and load: "load_kline_meta E st1 symbol timeframe = (st2, Inr meta)"
    and series: "kline_series_at st2 symbol timeframe meta rows_of"
    and cache: "file_cache_ok (rt_files (fk_chunk_runtime st))" and policy: "\<not> cp_auto_merge (fk_compaction_policy st)"
    and size: "72 * (length (series_rows rows_of meta) + length records) + 128 < 2 ^ 63"
  obtains meta' rows' where "load_kline_meta E st' symbol timeframe = (st', Inr meta')"
    and "readable_series kline_record (\<lambda>_. True) (\<lambda>k. path_join (kline_series_dir (fk_root st') symbol timeframe) (ck_relative_path k))
      st' (kline_series_dir (fk_root st') symbol timeframe) meta' rows'"
    and "series_rows rows' meta' = sort_key k_ts (series_rows rows_of meta @ records)"
proof -
  note l = load_meta_fields [OF load [unfolded load_kline_meta_def]] and b = begin_mutation_fields [OF own]
  have pol: "\<not> cp_auto_merge (fk_compaction_policy st2)" using policy l b by simp
  have put': "put_kline_chunk_locked E st1 symbol timeframe records = (st', Inr ())"
    using put own by (auto simp: put_kline_chunk_def with_lock_def split: sum.splits)
  obtain meta' rows' where m: "load_kline_meta E st' symbol timeframe = (st', Inr meta')"
    "series_stored kline_record (\<lambda>_. True) (fk_files st') (kline_series_dir (fk_root st') symbol timeframe) meta' rows'"
    "series_rows rows' meta' = sort_key k_ts (series_rows rows_of meta @ records)"
    "fk_chunk_runtime st' = fk_chunk_runtime st2"
    by (rule put_kline_step [OF put' load series pol size])
  show thesis
    by (rule that [OF m(1) kline_stored_readable [OF m(2) _ cache] m(3)]) (use size l b m in simp_all)
qed

end
