(* ===== verification/RangePut.thy ===== *)
theory RangePut
  imports RangeWrites PutGet
begin

text \<open>
  What a range write leaves behind: its batches are the records in order, each month is written to
  the series that the months before it left, and the reads that follow see all rows.
\<close>

lemma month_loop_Cons:
  assumes "month_loop R utc next_month rs = Some (Inr bs)"
  shows "rs = [] \<and> bs = [] \<or> (\<exists>month k bs'. bs = (month, take k rs) # bs' \<and> k > 0 \<and> rs \<noteq> []
    \<and> month_loop R utc next_month (drop k rs) = Some (Inr bs'))"
proof (cases "rs = []")
  case True
  then show ?thesis using assms by (simp add: month_loop.simps)
next
  case False
  then obtain month k bs' where b: "bs = (month, take k rs) # bs'" "month_loop R utc next_month (drop k rs) = Some (Inr bs')"
    using assms by (subst (asm) month_loop.simps) (auto simp: Let_def res_simps split: sum.splits Option.bind_splits)
  moreover have "k \<noteq> 0"
  proof
    assume "k = 0"
    with b assms have "bs = bs'" by simp
    with b(1) show False by simp
  qed
  ultimately show ?thesis using False by (metis gr0I)
qed

lemma month_loop_batches:
  assumes "month_loop R utc next_month rs = Some (Inr bs)"
  shows "concat (map snd bs) = rs" and "\<forall>b \<in> set bs. snd b \<noteq> []"
proof -
  have "concat (map snd bs) = rs \<and> (\<forall>b \<in> set bs. snd b \<noteq> [])"
    using assms
  proof (induction bs arbitrary: rs)
    case Nil
    then show ?case using month_loop_Cons by force
  next
    case (Cons b bs)
    from month_loop_Cons [OF Cons.prems] obtain month k where "b = (month, take k rs)" "k > 0" "rs \<noteq> []"
      "month_loop R utc next_month (drop k rs) = Some (Inr bs)" by auto
    with Cons.IH [of "drop k rs"] show ?case by simp
  qed
  then show "concat (map snd bs) = rs" "\<forall>b \<in> set bs. snd b \<noteq> []" by blast+
qed

lemma month_batches_concat:
  assumes "month_batches R utc next_month rs = Some (Inr bs)"
  shows "concat (map snd bs) = rs" and "length bs \<le> length rs"
proof -
  have b: "concat (map snd bs) = rs" "\<forall>b \<in> set bs. snd b \<noteq> []"
    using assms month_loop_batches by (fastforce simp: month_batches_def split: if_splits sum.splits)+
  have "length xs \<le> length (concat (map snd xs))" if "\<forall>b \<in> set xs. snd b \<noteq> []" for xs :: "(string \<times> 'a list) list"
    using that by (induction xs) (auto simp: Suc_le_eq length_greater_0_conv [symmetric] simp del: length_greater_0_conv)
  with b show "concat (map snd bs) = rs" "length bs \<le> length rs" by auto
qed

lemma sort_key_again: "sort_key f (sort_key f xs @ ys) = sort_key f (xs @ ys)"
proof (rule properties_for_sort_key)
  have e: "(\<lambda>x. f k = f x) = (\<lambda>x. f x = f k)" for k by auto
  show "filter (\<lambda>x. f k = f x) (sort_key f (xs @ ys)) = filter (\<lambda>x. f k = f x) (sort_key f xs @ ys)" for k
    unfolding e by (simp add: sort_key_stable)
qed simp_all

lemma load_meta_again:
  assumes "load_meta E st k dir = (st', Inr meta)"
  shows "load_meta E st' k dir = (st', Inr meta)"
  using assms by (auto simp: load_meta_def split: option.splits sum.splits prod.splits)

text \<open>The loop over the months keeps a stored series, as long as there are identifiers for its chunks.\<close>

lemma write_months_stored:
  assumes "try_each (write_month (\<lambda>st. put_kline_chunk_locked E st symbol timeframe)) st months completed = (st', Inr written)"
    and "load_kline_meta E st symbol timeframe = (st, Inr meta)" and "kline_series_at st symbol timeframe meta rows_of"
    and "\<not> cp_auto_merge (fk_compaction_policy st)"
    and "72 * (length (series_rows rows_of meta) + length (concat (map snd months))) + 128 < 2 ^ 63"
    and "\<forall>c \<in> set (sm_chunks meta). unat (cm_chunk_id c) + length months < 2 ^ 64 - 1" and "length months < 2 ^ 64 - 1"
  shows "\<exists>meta' rows'. load_kline_meta E st' symbol timeframe = (st', Inr meta')
    \<and> series_stored kline_record (\<lambda>_. True) (fk_files st') (kline_series_dir (fk_root st') symbol timeframe) meta' rows'
    \<and> series_rows rows' meta' = sort_key k_ts (series_rows rows_of meta @ concat (map snd months))
    \<and> fk_root st' = fk_root st \<and> fk_chunk_runtime st' = fk_chunk_runtime st \<and> written = completed @ map fst months
    \<and> (manifest_fits meta \<and> length (sm_chunks meta) + length months < 2 ^ 32
        \<and> manifest_on_disk E st (kline_series_dir (fk_root st) symbol timeframe) meta \<longrightarrow>
      manifest_on_disk E st' (kline_series_dir (fk_root st) symbol timeframe) meta')"
  using assms
proof (induction months arbitrary: st meta rows_of completed)
  case Nil
  then have "series_stored kline_record (\<lambda>_. True) (fk_files st) (kline_series_dir (fk_root st) symbol timeframe) meta rows_of"
    by (simp add: kline_series_at_def)
  moreover from this have "sort_key k_ts (series_rows rows_of meta) = series_rows rows_of meta"
    using series_sorted [of kline_record] by (intro sorted_sort_id sort_key_id_if_sorted) (simp add: kline_record_def strict_sorted_imp_sorted)
  ultimately show ?case using Nil by auto
next
  case (Cons b months)
  obtain st1 where put: "put_kline_chunk_locked E st symbol timeframe (snd b) = (st1, Inr ())"
    and rest: "try_each (write_month (\<lambda>st. put_kline_chunk_locked E st symbol timeframe)) st1 months (completed @ [fst b]) = (st', Inr written)"
    using Cons.prems(1) write_month_def [of "\<lambda>st. put_kline_chunk_locked E st symbol timeframe" st b completed]
    by (auto split: prod.splits sum.splits)
  have size: "72 * (length (series_rows rows_of meta) + length (snd b)) + 128 < 2 ^ 63" using Cons.prems(5) by simp
  obtain m1 r1 where s: "load_kline_meta E st1 symbol timeframe = (st1, Inr m1)"
    "series_stored kline_record (\<lambda>_. True) (fk_files st1) (kline_series_dir (fk_root st1) symbol timeframe) m1 r1"
    "series_rows r1 m1 = sort_key k_ts (series_rows rows_of meta @ snd b)"
    "sm_symbol m1 = symbol" "sm_category m1 = KLINE_CATEGORY" "sm_name m1 = timeframe" "named_chunks m1"
    "cm_chunk_id ` set (sm_chunks m1) \<subseteq> insert (next_chunk_id meta) (cm_chunk_id ` set (sm_chunks meta))"
    "fk_root st1 = fk_root st" "fk_chunk_runtime st1 = fk_chunk_runtime st" "fk_compaction_policy st1 = fk_compaction_policy st"
    and mf: "length (sm_chunks m1) \<le> Suc (length (sm_chunks meta))"
      "manifest_fits meta \<Longrightarrow> Suc (length (sm_chunks meta)) < 2 ^ 32 \<Longrightarrow>
        manifest_fits m1 \<and> manifest_on_disk E st1 (kline_series_dir (fk_root st1) symbol timeframe) m1"
    by (rule put_kline_step [OF put Cons.prems(2-4) size]) (rule that)
  have "unat (next_chunk_id meta) + length months < 2 ^ 64 - 1"
    by (rule next_chunk_id_room) (use Cons.prems(6,7) in simp_all)
  then have ids: "\<forall>c \<in> set (sm_chunks m1). unat (cm_chunk_id c) + length months < 2 ^ 64 - 1"
    using s(8) Cons.prems(6) by fastforce
  then have "\<forall>c \<in> set (sm_chunks m1). cm_chunk_id c < - 1" by (auto simp: word_less_nat_alt unsigned_minus_1_eq_mask mask_eq_exp_minus_1)
  then have k: "kline_series_at st1 symbol timeframe m1 r1" using s by (simp add: kline_series_at_def)
  have pol: "\<not> cp_auto_merge (fk_compaction_policy st1)" using s Cons.prems(4) by simp
  have sz: "72 * (length (series_rows r1 m1) + length (concat (map snd months))) + 128 < 2 ^ 63" using Cons.prems(5) s(3) by simp
  have "length months < 2 ^ 64 - 1" using Cons.prems(7) by simp
  from Cons.IH [OF rest s(1) k pol sz ids this] obtain m2 r2 where
    "load_kline_meta E st' symbol timeframe = (st', Inr m2)"
    "series_stored kline_record (\<lambda>_. True) (fk_files st') (kline_series_dir (fk_root st') symbol timeframe) m2 r2"
    "series_rows r2 m2 = sort_key k_ts (series_rows r1 m1 @ concat (map snd months))"
    "fk_root st' = fk_root st1" "fk_chunk_runtime st' = fk_chunk_runtime st1" "written = (completed @ [fst b]) @ map fst months"
    "manifest_fits m1 \<and> length (sm_chunks m1) + length months < 2 ^ 32
        \<and> manifest_on_disk E st1 (kline_series_dir (fk_root st1) symbol timeframe) m1 \<longrightarrow>
      manifest_on_disk E st' (kline_series_dir (fk_root st1) symbol timeframe) m2" by (elim exE conjE)
  then show ?case using s mf by (auto simp: sort_key_again)
qed

text \<open>The steps of a range write to an existing series.\<close>

lemma ok_then_InrE:
  assumes "ok_then m f = Some (st', Inr y)"
  obtains st x where "m = Some (st, Inr x)" and "f st x = Some (st', Inr y)"
  using assms by (auto simp: ok_then_def split: option.splits prod.splits sum.splits)

lemma append_kline_steps:
  assumes app: "append_kline_range depth E next_month st symbol timeframe records timeframe_ms price_scale volume_scale = Some (st', Inr summary)"
    and own: "begin_mutation depth E st = Some (st1, Inr ())"
    and load: "load_kline_meta E st1 symbol timeframe = (st2, Inr meta)"
    and dir: "fs_exists (ms_fs (fk_disk st2)) (path_join (fk_root st2) ''series'')"
  obtains months written where "month_batches kline_record (e_utc E) next_month records = Some (Inr months)"
    and "write_months (\<lambda>st. put_kline_chunk_locked E st symbol timeframe) st2 months = (st', Inr written)"
    and "summary = range_summary timeframe_ms (Some meta) records written"
proof -
  obtain u where c: "validate_configuration timeframe_ms price_scale volume_scale = Inr u"
    by (rule ok_then_InrE [OF app [unfolded append_kline_range_def]]) (rule that, simp)
  obtain months where m: "month_batches kline_record (e_utc E) next_month records = Some (Inr months)"
    by (rule ok_then_InrE [OF app [unfolded append_kline_range_def c ok_then_simps]]) (rule that, auto)
  have ex: "existing_series (load_kline_meta E st1 symbol timeframe) = (st2, Inr (Some meta))"
    by (simp add: load existing_series_def)
  have i: "init_if_missing depth E st2 = Some (st2, Inr ())" using dir by (simp add: init_if_missing_def)
  note app' = app [unfolded append_kline_range_def c m option.map ok_then_simps own ex, simplified]
  obtain u1 where v: "validate_existing_series meta timeframe_ms price_scale volume_scale = Inr u1"
    by (rule ok_then_InrE [OF app']) (rule that, simp)
  obtain u2 where pf: "preflight_overlap kline_record (Some meta) months = Inr u2"
    by (rule ok_then_InrE [OF app' [unfolded v ok_then_simps]]) (rule that, simp)
  note app'' = app' [unfolded v pf i ok_then_simps, simplified]
  obtain st3 written where w: "write_months (\<lambda>st. put_kline_chunk_locked E st symbol timeframe) st2 months = (st3, Inr written)"
    by (rule ok_then_InrE [OF app'']) (rule that, simp)
  from app'' [unfolded w ok_then_simps] have "st3 = st'" "summary = range_summary timeframe_ms (Some meta) records written" by simp_all
  with that m w show thesis by blast
qed

lemma append_kline_readable:
  assumes app: "append_kline_range depth E next_month st symbol timeframe records timeframe_ms price_scale volume_scale = Some (st', Inr summary)"
    and own: "begin_mutation depth E st = Some (st1, Inr ())"
    and load: "load_kline_meta E st1 symbol timeframe = (st2, Inr meta)"
    and dir: "fs_exists (ms_fs (fk_disk st2)) (path_join (fk_root st2) ''series'')"
    and series: "kline_series_at st2 symbol timeframe meta rows_of"
    and cache: "file_cache_ok (rt_files (fk_chunk_runtime st))" and policy: "\<not> cp_auto_merge (fk_compaction_policy st)"
    and size: "72 * (length (series_rows rows_of meta) + length records) + 128 < 2 ^ 63"
    and room: "\<forall>c \<in> set (sm_chunks meta). unat (cm_chunk_id c) < 2 ^ 63"
  obtains meta' rows' where "load_kline_meta E st' symbol timeframe = (st', Inr meta')"
    and "readable_series kline_record (\<lambda>_. True) (\<lambda>k. path_join (kline_series_dir (fk_root st') symbol timeframe) (ck_relative_path k))
      st' (kline_series_dir (fk_root st') symbol timeframe) meta' rows'"
    and "series_rows rows' meta' = sort_key k_ts (series_rows rows_of meta @ records)"
    and "fk_root st' = fk_root st"
    and "manifest_fits meta \<Longrightarrow> length (sm_chunks meta) + length records < 2 ^ 32 \<Longrightarrow>
      manifest_on_disk E st2 (kline_series_dir (fk_root st) symbol timeframe) meta \<Longrightarrow>
      manifest_on_disk E st' (kline_series_dir (fk_root st) symbol timeframe) meta'"
proof -
  obtain months written where m: "month_batches kline_record (e_utc E) next_month records = Some (Inr months)"
    and w: "write_months (\<lambda>st. put_kline_chunk_locked E st symbol timeframe) st2 months = (st', Inr written)"
    by (rule append_kline_steps [OF app own load dir])
  have c: "concat (map snd months) = records" by (rule month_batches_concat [OF m])
  have nm: "length months \<le> length records"
    by (rule month_batches_concat [OF m])
  then have n: "length months < 2 ^ 63" using size by simp
  note l = load_meta_fields [OF load [unfolded load_kline_meta_def]] and b = begin_mutation_fields [OF own]
  have again: "load_kline_meta E st2 symbol timeframe = (st2, Inr meta)"
    using load_meta_again [OF load [unfolded load_kline_meta_def]] l by (simp add: load_kline_meta_def)
  have "\<exists>meta' rows'. load_kline_meta E st' symbol timeframe = (st', Inr meta')
    \<and> series_stored kline_record (\<lambda>_. True) (fk_files st') (kline_series_dir (fk_root st') symbol timeframe) meta' rows'
    \<and> series_rows rows' meta' = sort_key k_ts (series_rows rows_of meta @ concat (map snd months))
    \<and> fk_root st' = fk_root st2 \<and> fk_chunk_runtime st' = fk_chunk_runtime st2 \<and> written = [] @ map fst months
    \<and> (manifest_fits meta \<and> length (sm_chunks meta) + length months < 2 ^ 32
        \<and> manifest_on_disk E st2 (kline_series_dir (fk_root st2) symbol timeframe) meta \<longrightarrow>
      manifest_on_disk E st' (kline_series_dir (fk_root st2) symbol timeframe) meta')"
    by (rule write_months_stored [OF w [unfolded write_months_def] again series]) (use policy l b size c n room in fastforce)+
  then obtain meta' rows' where r: "load_kline_meta E st' symbol timeframe = (st', Inr meta')"
    "series_stored kline_record (\<lambda>_. True) (fk_files st') (kline_series_dir (fk_root st') symbol timeframe) meta' rows'"
    "series_rows rows' meta' = sort_key k_ts (series_rows rows_of meta @ records)" "fk_chunk_runtime st' = fk_chunk_runtime st2"
    "fk_root st' = fk_root st"
    "manifest_fits meta \<and> length (sm_chunks meta) + length months < 2 ^ 32
        \<and> manifest_on_disk E st2 (kline_series_dir (fk_root st) symbol timeframe) meta \<longrightarrow>
      manifest_on_disk E st' (kline_series_dir (fk_root st) symbol timeframe) meta'"
    unfolding c l(1) b(1) by (elim exE conjE)
  show thesis
    by (rule that [OF r(1) kline_stored_readable [OF r(2) _ cache] r(3,5)]) (use size l b r nm in simp_all)
qed

text \<open>The reads of a readable kline series.\<close>

lemma kline_series_reads:
  assumes l: "load_kline_meta E st symbol timeframe = (st, Inr meta)"
    and rd: "readable_series kline_record (\<lambda>_. True) (\<lambda>k. path_join (kline_series_dir (fk_root st) symbol timeframe) (ck_relative_path k))
      st (kline_series_dir (fk_root st) symbol timeframe) meta rows_of"
    and s: "series_rows rows_of meta = rows"
  shows "snd (get_kline_range E st symbol timeframe a b) = Inr (filter (in_range k_ts a b) rows)
    \<and> snd (get_kline_at E st symbol timeframe t) = Inr (find (\<lambda>r. k_ts r = t) rows)
    \<and> snd (get_kline_latest_n E st symbol timeframe n) = Inr (drop (length rows - n) rows)"
proof -
  have "snd (get_kline_range E st symbol timeframe a b) = Inr (filter (in_range k_ts a b) rows)"
  proof (cases "a > b")
    case True
    then have "filter (in_range k_ts a b) rows = []" by (auto simp: filter_empty_conv i64_ord)
    with True show ?thesis by (simp add: get_kline_range_def)
  next
    case False
    then show ?thesis using kline_range_prepared [OF rd, of a b] l s by (auto simp: get_kline_range_def with_meta_def)
  qed
  moreover have "snd (get_kline_at E st symbol timeframe t) = Inr (find (\<lambda>r. k_ts r = t) rows)"
    using kline_at_prepared [OF rd, of t] l s by (auto simp: get_kline_at_def with_meta_def)
  moreover have "snd (get_kline_latest_n E st symbol timeframe n) = Inr (drop (length rows - n) rows)"
    using kline_latest_prepared [OF rd, of n] l s by (cases "n = 0") (auto simp: get_kline_latest_n_def with_meta_def)
  ultimately show ?thesis by blast
qed

end
