(* ===== verification/ReadOnly.thy ===== *)
theory ReadOnly
  imports RangeWrites
begin

text \<open>
  Read-only handles: opening one changes no file, and every mutation through it fails before the
  first file operation, whichever entry point is used.
\<close>

definition refused :: "FastKStore \<Rightarrow> (FastKStore \<times> 'a res) option \<Rightarrow> bool" where
  "refused st m \<longleftrightarrow>
     (case m of
        None \<Rightarrow> True
      | Some (st', Inr _) \<Rightarrow> False
      | Some (st', Inl _) \<Rightarrow> ms_fs (fk_disk st') = ms_fs (fk_disk st))"

lemma refused_simps [simp]:
  "refused st None" "refused st (Some (st', Inl e)) \<longleftrightarrow> ms_fs (fk_disk st') = ms_fs (fk_disk st)" "\<not> refused st (Some (st', Inr x))"
  by (simp_all add: refused_def)

lemma refused_trans: "refused st' m \<Longrightarrow> ms_fs (fk_disk st') = ms_fs (fk_disk st) \<Longrightarrow> refused st m"
  by (auto simp: refused_def split: option.splits sum.splits)

lemma begin_refused: "fk_read_only st \<Longrightarrow> begin_mutation depth E st = Some (st, Inl (InvalidInput ''read-only store handle''))"
  by (simp add: begin_mutation_def acquire_write_ownership_def)

lemma load_meta_read_only:
  assumes "fk_read_only st" and "load_meta E st key dir = (st', r)"
  shows "fk_read_only st'" and "ms_fs (fk_disk st') = ms_fs (fk_disk st)"
  using assms by (auto simp: load_meta_def catalog_load_report_def load_series_meta_shared_mode_def decode_or_migrate_def Let_def
      split: option.splits sum.splits prod.splits if_splits)

lemma with_lock_refused: "fk_read_only st \<Longrightarrow> refused st (with_lock depth E st f)"
  by (simp add: with_lock_def begin_refused)

lemma run_begin_refused: "fk_read_only st \<Longrightarrow> refused st (ok_then (begin_mutation depth E st) f)"
  by (simp add: begin_refused)

lemmas locked_writes =
  register_kline_series_def register_scalar_series_def register_fixed_series_def put_kline_chunk_def put_scalar_chunk_def
  append_scalar_chunk_def put_fixed_chunk_def merge_kline_month_def

lemma locked_writes_refused:
  assumes "fk_read_only st"
  shows "refused st (register_kline_series depth E st symbol timeframe timeframe_ms price_scale volume_scale)"
    and "refused st (register_scalar_series depth E st key timeframe_ms)"
    and "refused st (register_fixed_series R depth E st symbol category name timeframe_ms policy)"
    and "refused st (put_kline_chunk depth E st symbol timeframe rows)"
    and "refused st (put_scalar_chunk depth E st key timeframe_ms points block_size)"
    and "refused st (append_scalar_chunk depth E st key timeframe_ms points block_size)"
    and "refused st (put_fixed_chunk R depth E st symbol category name records)"
    and "refused st (merge_kline_month depth E st symbol timeframe month)"
  by (simp_all add: locked_writes with_lock_refused [OF assms] split: sum.splits)

lemma indicator_writes_refused:
  assumes "fk_read_only st"
  shows "refused st (register_indicator_series depth E st symbol timeframe indicator)"
    and "refused st (put_indicator_chunk depth E st symbol timeframe indicator points)"
proof -
  obtain st' r where l: "load_kline_meta E st symbol timeframe = (st', r)" by fastforce
  note k = load_meta_read_only [OF assms l [unfolded load_kline_meta_def]]
  show "refused st (register_indicator_series depth E st symbol timeframe indicator)"
    "refused st (put_indicator_chunk depth E st symbol timeframe indicator points)"
    by (simp_all add: register_indicator_series_def put_indicator_chunk_def l k(2) refused_trans [OF _ k(2)] locked_writes_refused(2,5) [OF k(1)]
        split: sum.splits)
qed

lemma range_writes_refused:
  assumes "fk_read_only st"
  shows "refused st (append_kline_range depth E next_month st symbol timeframe rows timeframe_ms price_scale volume_scale)"
    and "refused st (append_scalar_range depth E next_month st key points scalar_ms)"
  using begin_refused [OF assms]
  by (simp_all add: append_kline_range_def append_scalar_range_def ok_then_def split: option.splits sum.splits prod.splits)

lemma maintenance_refused:
  assumes "fk_read_only st"
  shows "refused st (init depth E st)" and "refused st (repair_store depth E st)"
  using begin_refused [OF assms] assms by (simp_all add: init_def repair_store_def acquire_write_ownership_def)

lemma open_read_only_keeps:
  assumes "open_read_only depth E root disk = Some (disk', r)"
  shows "ms_fs disk' = ms_fs disk" and "r = Inr st \<Longrightarrow> fk_read_only st \<and> ms_fs (fk_disk st) = ms_fs disk"
  using assms by (auto simp: open_read_only_def open_mode_def Let_def invalidate_root_def fresh_store_def split: sum.splits if_splits)

end
