(* ===== verification/Sealed.thy ===== *)
theory Sealed
  imports Snapshot RangePut ReadOnly
begin

text \<open>
  What a seal guarantees: a sealed store verifies, every writer is turned away, and two states that
  verify against the same pinned digest hold the same files.
\<close>

section \<open>The inventory depends on the files below the directory\<close>

definition same_below :: "path \<Rightarrow> fs_state \<Rightarrow> fs_state \<Rightarrow> bool" where
  "same_below d s s' \<longleftrightarrow>
     (\<forall>p. path_starts_with p d \<longrightarrow> fs_files s p = fs_files s' p \<and> (p \<in> fs_dirs s \<longleftrightarrow> p \<in> fs_dirs s'))"

text \<open>
  What is used of directory listings: they name children of the directory, and they and the kinds
  of the entries are determined by what lies below.
\<close>

definition listing_ok :: "Env \<Rightarrow> SnapshotEnv \<Rightarrow> bool" where
  "listing_ok E S \<longleftrightarrow>
     (\<forall>s s' d. same_below d s s' \<longrightarrow> e_read_dir E s d = e_read_dir E s' d \<and> se_file_type S s d = se_file_type S s' d)
     \<and> (\<forall>s d entries. e_read_dir E s d = Inr entries \<longrightarrow> (\<forall>(name, is_dir) \<in> set entries. path_starts_with (path_join d name) d))"

lemma starts_with_trans: "path_starts_with p q \<Longrightarrow> path_starts_with q r \<Longrightarrow> path_starts_with p r"
  by (auto simp: path_starts_with_def)

lemma starts_with_refl [simp]: "path_starts_with p p"
  by (simp add: path_starts_with_def)

lemma same_below_child: "same_below d s s' \<Longrightarrow> path_starts_with p d \<Longrightarrow> same_below p s s'"
  unfolding same_below_def using starts_with_trans by blast

lemma try_entries_cong: "(\<And>x out. x \<in> set xs \<Longrightarrow> f x out = g x out) \<Longrightarrow> try_entries f xs out = try_entries g xs out"
  by (induction xs arbitrary: out) (auto split: option.splits sum.splits)

lemma visit_local:
  assumes "listing_ok E S" and "same_below d s s'"
  shows "visit n E S s root d files = visit n E S s' root d files"
  using assms(2)
proof (induction n arbitrary: d files)
  case (Suc n)
  have l: "e_read_dir E s d = e_read_dir E s' d" using assms(1) Suc.prems unfolding listing_ok_def by blast
  show ?case
  proof (cases "e_read_dir E s' d")
    case (Inr entries)
    have "same_below (path_join d name) s s'" if "name \<in> fst ` set entries" for name
      using assms(1) Inr that Suc.prems same_below_child unfolding listing_ok_def by fastforce
    moreover from this have "se_file_type S s (path_join d name) = se_file_type S s' (path_join d name)" if "name \<in> fst ` set entries" for name
      using assms(1) that unfolding listing_ok_def by blast
    moreover have "snapshot_file S s root p = snapshot_file S s' root p" if "same_below p s s'" for p
      using that by (simp add: same_below_def snapshot_file_def read_file_def visible_def)
    ultimately show ?thesis unfolding visit.simps l Inr sum.case
      by (intro try_entries_cong) (auto simp: Let_def Suc.IH split: sum.splits FileType.splits)
  qed (simp add: l)
qed simp

section \<open>Writing the list\<close>

lemma plain_join: "components name = [name] \<Longrightarrow> take 1 name \<noteq> ''/'' \<Longrightarrow> path_join root name = root\<lparr>comps := comps root @ [name]\<rparr>"
  by (simp add: path_join_def)

lemma snapshot_path_comps: "path_join root SNAPSHOT_FILE_NAME = root\<lparr>comps := comps root @ [''.fastk.snapshot.json'']\<rparr>"
  by (simp add: path_join_def SNAPSHOT_FILE_NAME_def components_def)

lemma series_path_comps: "path_join root ''series'' = root\<lparr>comps := comps root @ [''series'']\<rparr>"
  by (simp add: path_join_def components_def)

lemma sibling_not_below: "name \<noteq> ''series'' \<Longrightarrow> \<not> path_starts_with (root\<lparr>comps := comps root @ [name]\<rparr>) (path_join root ''series'')"
  by (simp add: series_path_comps path_starts_with_def)

lemma temp_not_below:
  assumes "temp_path_for nanos (path_join root SNAPSHOT_FILE_NAME) = Inr t"
  shows "\<not> path_starts_with t (path_join root ''series'')"
proof -
  obtain k where t: "t = path_with_file_name (path_join root SNAPSHOT_FILE_NAME) (''.fastk.snapshot.json'' @ ''.'' @ fmt_nat k @ ''.tmp'')"
    using assms by (auto simp: temp_path_for_def res_simps snapshot_path_comps path_file_name_def)
  obtain n where n: "n = ''.fastk.snapshot.json'' @ ''.'' @ fmt_nat k @ ''.tmp''" by simp
  have "of_char c \<in> {48..57 :: nat}" if "c \<in> set (fmt_nat k)" for c
    using fmt_nat_digits [OF that] by (auto simp: of_char_digit)
  from this [of "CHR ''/''"] have "CHR ''/'' \<notin> set (fmt_nat k)" by auto
  then have c: "components n = [n]" "take 1 n \<noteq> ''/''" "n \<noteq> ''series''" by (simp_all add: n components_def split_on_single)
  have "path_file_name (path_join root SNAPSHOT_FILE_NAME) \<noteq> None" by (simp add: snapshot_path_comps path_file_name_def)
  then have "t = path_join (path_join root SNAPSHOT_FILE_NAME\<lparr>comps := comps root\<rparr>) n"
    unfolding t n [symmetric] path_with_file_name_def by (auto simp: snapshot_path_comps)
  also have "\<dots> = root\<lparr>comps := comps root @ [n]\<rparr>" by (simp add: plain_join [OF c(1,2)] snapshot_path_comps)
  finally show ?thesis using sibling_not_below [OF c(3)] by simp
qed

lemma snapshot_not_below: "\<not> path_starts_with (path_join root SNAPSHOT_FILE_NAME) (path_join root ''series'')"
  unfolding snapshot_path_comps by (rule sibling_not_below) simp

lemma write_snapshot_Inr:
  assumes "write_snapshot E S root files disk = (disk', Inr snapshot)"
  obtains digest bytes where "snapshot = \<lparr>sn_format_version = 1, sn_digest = digest, sn_files = files\<rparr>"
    and "files_digest S files = Inr digest" and "se_to_json S snapshot = Inr bytes"
    and "visible (ms_fs disk') (path_join root SNAPSHOT_FILE_NAME) = Some bytes"
    and "same_below (path_join root ''series'') (ms_fs disk) (ms_fs disk')"
proof -
  let ?d = "path_join root SNAPSHOT_FILE_NAME" and ?b = "path_join root ''series''"
  obtain digest where g: "files_digest S files = Inr digest"
    by (rule then_do_InrE [OF assms [unfolded write_snapshot_def]]) (rule that, simp)
  let ?sn = "\<lparr>sn_format_version = 1, sn_digest = digest, sn_files = files\<rparr>"
  obtain bytes where j: "se_to_json S ?sn = Inr bytes"
    by (rule then_do_InrE [OF assms [unfolded write_snapshot_def g then_do_simps Let_def]]) (rule that, simp)
  obtain trace r where a: "atomic_write (e_os E (ms_fs disk) ?d) ?d False (bytes, None) (ms_fs disk) = (trace, r)" by fastforce
  have r: "disk' = disk\<lparr>ms_fs := last trace\<rparr>" "snapshot = ?sn" "r = Inr ()"
    using assms by (simp_all add: write_snapshot_def g j a atomic_write_new_def res_simps)
  have w: "files_digest S files = Inr digest" "snapshot = ?sn" "se_to_json S snapshot = Inr bytes" "disk' = disk\<lparr>ms_fs := last trace\<rparr>"
    "atomic_write (e_os E (ms_fs disk) ?d) ?d False (bytes, None) (ms_fs disk) = (trace, Inr ())"
    using g j a r by simp_all
  have "trace \<noteq> []" using w(5) by (auto simp: atomic_write_def Let_def split: option.splits if_splits sum.splits prod.splits)
  then have last: "last trace \<in> set trace" by simp
  have files: "fs_files (last trace) p = fs_files (ms_fs disk) p" if "path_starts_with p ?b" for p
  proof (rule atomic_write_frame [OF w(5) last])
    show "p \<noteq> ?d" using that snapshot_not_below by blast
    show "temp_path_for (os_nanos (e_os E (ms_fs disk) ?d)) ?d \<noteq> Inr p" using that temp_not_below by blast
  qed
  have dirs: "fs_dirs (last trace) = fs_dirs (ensure_dir root (ms_fs disk))"
    using w(5) unfolding atomic_write_def write_and_rename_def
    by (auto simp: snapshot_path_comps path_parent_def Let_def fs_write_def fs_sync_file_def replace_file_atomically_def sync_parent_dir_def
        split: option.splits sum.splits if_splits prod.splits)
  have "p \<in> fs_dirs (ms_fs disk) \<longleftrightarrow> p \<in> fs_dirs (last trace)" if "path_starts_with p ?b" for p
  proof -
    have "length (comps root) < length (comps p)"
      using that prefix_length_le by (fastforce simp: path_starts_with_def series_path_comps)
    then show ?thesis by (auto simp: dirs ensure_dir_def)
  qed
  with files have "same_below ?b (ms_fs disk) (ms_fs disk')" by (simp add: same_below_def w(4))
  moreover have "visible (ms_fs disk') ?d = Some bytes" using atomic_write_done(1) [OF w(5)] by (simp add: visible_def w(4))
  ultimately show thesis using that w(1-3) by blast
qed

section \<open>Sealing and verifying\<close>

lemma collect_files_local:
  "listing_ok E S \<Longrightarrow> same_below (path_join root ''series'') s s' \<Longrightarrow> collect_files depth E S s root = collect_files depth E S s' root"
  by (simp add: collect_files_def visit_local)

text \<open>A store that a reader can open: the shared lock is free and no recovery is pending.\<close>

definition readable_root :: "Env \<Rightarrow> path \<Rightarrow> fs_state \<Rightarrow> bool" where
  "readable_root E root s \<longleftrightarrow> (\<exists>x. read_lock_acquire E root s = Inr x) \<and> \<not> has_pending_recovery s root"

definition snapshot_codec :: "SnapshotEnv \<Rightarrow> bool" where
  "snapshot_codec S \<longleftrightarrow> (\<forall>m bytes. se_to_json S m = Inr bytes \<longrightarrow> se_from_json S bytes = Inr m)"

abbreviation mismatch :: "SnapshotManifest res" where
  "mismatch \<equiv> Inl (InvalidData ''snapshot digest or file inventory mismatch'')"

lemma verify_written:
  assumes "readable_root E root s" and "visible s (path_join root SNAPSHOT_FILE_NAME) = Some bytes" and "se_from_json S bytes = Inr snapshot"
    and "sn_format_version snapshot = 1" and "files_digest S (sn_files snapshot) = Inr (sn_digest snapshot)"
    and "collect_files depth E S s root = Some (Inr (sn_files snapshot))"
  shows "verify_snapshot depth E S root expected s =
    Some (if expected \<in> {None, Some (sn_digest snapshot)} then Inr snapshot else mismatch)"
proof -
  obtain x where "read_lock_acquire E root s = Inr x" "\<not> has_pending_recovery s root" using assms(1) by (auto simp: readable_root_def)
  then show ?thesis using assms(2-6) by (auto simp: verify_snapshot_def Let_def read_file_def split: option.splits)
qed

lemma verify_Inr:
  assumes "verify_snapshot depth E S root expected s = Some (Inr snapshot)"
  shows "files_digest S (sn_files snapshot) = Inr (sn_digest snapshot)" and "collect_files depth E S s root = Some (Inr (sn_files snapshot))"
    and "expected \<in> {None, Some (sn_digest snapshot)}" and "sn_format_version snapshot = 1"
proof -
  obtain sn where r: "and_then (read_lock_acquire E root s) (\<lambda>_.
        and_then (ensure (\<not> has_pending_recovery s root) (InvalidData ''snapshot has pending recovery'')) (\<lambda>_.
        and_then (read_file s (path_join root SNAPSHOT_FILE_NAME)) (se_from_json S))) = Inr sn"
    using assms by (simp add: verify_snapshot_def Let_def split: sum.splits)
  note v = assms [unfolded verify_snapshot_def Let_def r sum.case]
  have f: "sn_format_version sn = 1" using v by (simp split: if_splits)
  obtain d where d: "files_digest S (sn_files sn) = Inr d" using v f by (simp split: sum.splits)
  have e: "d = sn_digest sn" "expected \<in> {None, Some (sn_digest sn)}" using v f d by (simp_all split: if_splits option.splits)
  obtain files where c: "collect_files depth E S s root = Some (Inr files)" "files = sn_files sn" "sn = snapshot"
    using v f d e by (auto simp: res_simps split: if_splits)
  show "files_digest S (sn_files snapshot) = Inr (sn_digest snapshot)" "collect_files depth E S s root = Some (Inr (sn_files snapshot))"
    "expected \<in> {None, Some (sn_digest snapshot)}" "sn_format_version snapshot = 1"
    using c d e f by auto
qed

lemma seal_Inr:
  assumes "seal_snapshot depth E S root disk = Some (disk', Inr snapshot)" and "\<not> fs_exists (ms_fs disk) (path_join root SNAPSHOT_FILE_NAME)"
  obtains files disk1 where "collect_files depth E S (ms_fs disk1) root = Some (Inr files)" and "write_snapshot E S root files disk1 = (disk', Inr snapshot)"
proof -
  note s = assms(1) [unfolded seal_snapshot_def if_not_P [OF assms(2)]]
  obtain d1 x1 where s: "ok_then (startup_recover_locked depth E False root (invalidate_root d1 root)) (\<lambda>disk _.
      ok_then (map_option (Pair disk) (scrub_store depth E disk root snapshot_options)) (\<lambda>disk reports.
      ok_then (Some (disk, ensure (\<not> (reports = [] \<or> list_ex (\<lambda>report. \<not> validation_is_clean (sr_validation report)) reports))
        (InvalidData ''snapshot requires a non-empty, clean store; scrub/repair it first''))) (\<lambda>disk _.
      ok_then (map_option (Pair disk) (discover_series_dirs depth E (ms_fs disk) (path_join root ''series''))) (\<lambda>disk dirs.
      ok_then (Some (try_each (finalize_series E) disk dirs ())) (\<lambda>disk _.
      ok_then (map_option (Pair disk) (collect_files depth E S (ms_fs disk) root)) (\<lambda>disk files.
      Some (write_snapshot E S root files disk))))))) = Some (disk', Inr snapshot)"
    by (rule ok_then_InrE [OF s]) (rule that)
  obtain d2 where s: "ok_then (map_option (Pair d2) (scrub_store depth E d2 root snapshot_options)) (\<lambda>disk reports.
      ok_then (Some (disk, ensure (\<not> (reports = [] \<or> list_ex (\<lambda>report. \<not> validation_is_clean (sr_validation report)) reports))
        (InvalidData ''snapshot requires a non-empty, clean store; scrub/repair it first''))) (\<lambda>disk _.
      ok_then (map_option (Pair disk) (discover_series_dirs depth E (ms_fs disk) (path_join root ''series''))) (\<lambda>disk dirs.
      ok_then (Some (try_each (finalize_series E) disk dirs ())) (\<lambda>disk _.
      ok_then (map_option (Pair disk) (collect_files depth E S (ms_fs disk) root)) (\<lambda>disk files.
      Some (write_snapshot E S root files disk)))))) = Some (disk', Inr snapshot)"
    by (rule ok_then_InrE [OF s]) (rule that)
  obtain d3 dirs where "ok_then (Some (try_each (finalize_series E) d3 dirs ())) (\<lambda>disk _.
      ok_then (map_option (Pair disk) (collect_files depth E S (ms_fs disk) root)) (\<lambda>disk files.
      Some (write_snapshot E S root files disk))) = Some (disk', Inr snapshot)"
    using s by (auto simp: ok_then_def ensure_def split: option.splits prod.splits sum.splits if_splits)
  then obtain d4 where "ok_then (map_option (Pair d4) (collect_files depth E S (ms_fs d4) root)) (\<lambda>disk files.
      Some (write_snapshot E S root files disk)) = Some (disk', Inr snapshot)"
    by (rule ok_then_InrE)
  then show thesis by (rule ok_then_InrE) (use that in auto)
qed

lemma sealed_verifies:
  assumes "listing_ok E S" and "snapshot_codec S" and "\<not> fs_exists (ms_fs disk) (path_join root SNAPSHOT_FILE_NAME)"
    and "seal_snapshot depth E S root disk = Some (disk', Inr snapshot)" and "readable_root E root (ms_fs disk')"
  shows "verify_snapshot depth E S root expected (ms_fs disk') =
      Some (if expected \<in> {None, Some (sn_digest snapshot)} then Inr snapshot else mismatch)"
    and "fs_files (ms_fs disk') (path_join root SNAPSHOT_FILE_NAME) \<noteq> None"
proof -
  obtain files disk1 where c: "collect_files depth E S (ms_fs disk1) root = Some (Inr files)" "write_snapshot E S root files disk1 = (disk', Inr snapshot)"
    by (rule seal_Inr [OF assms(4,3)])
  obtain digest bytes where w: "snapshot = \<lparr>sn_format_version = 1, sn_digest = digest, sn_files = files\<rparr>"
    "files_digest S files = Inr digest" "se_to_json S snapshot = Inr bytes"
    "visible (ms_fs disk') (path_join root SNAPSHOT_FILE_NAME) = Some bytes" "same_below (path_join root ''series'') (ms_fs disk1) (ms_fs disk')"
    by (rule write_snapshot_Inr [OF c(2)])
  have "collect_files depth E S (ms_fs disk') root = Some (Inr files)" using collect_files_local [OF assms(1) w(5)] c(1) by simp
  moreover have "se_from_json S bytes = Inr snapshot" using assms(2) w(3) by (simp add: snapshot_codec_def)
  ultimately show "verify_snapshot depth E S root expected (ms_fs disk') =
      Some (if expected \<in> {None, Some (sn_digest snapshot)} then Inr snapshot else mismatch)"
    using w(1,2) by (intro verify_written [OF assms(5) w(4)]) simp_all
  show "fs_files (ms_fs disk') (path_join root SNAPSHOT_FILE_NAME) \<noteq> None" using w(4) by (auto simp: visible_def)
qed

section \<open>A sealed store turns writers away\<close>

definition rejected :: "FastKStore \<Rightarrow> (FastKStore \<times> 'a res) option \<Rightarrow> bool" where
  "rejected st m \<longleftrightarrow>
     (case m of Some (st', Inl _) \<Rightarrow> same_below (path_join (fk_root st) ''series'') (fs_of st) (fs_of st') | _ \<Rightarrow> False)"

lemma rejected_simps [simp]:
  "\<not> rejected st None" "\<not> rejected st (Some (st', Inr x))"
  "rejected st (Some (st', Inl e)) \<longleftrightarrow> same_below (path_join (fk_root st) ''series'') (fs_of st) (fs_of st')"
  by (simp_all add: rejected_def)

lemma same_below_refl [simp]: "same_below d s s"
  by (simp add: same_below_def)

lemma lock_not_below: "\<not> path_starts_with (path_join root LOCK_FILE_NAME) (path_join root ''series'')"
proof -
  have "path_join root LOCK_FILE_NAME = root\<lparr>comps := comps root @ [LOCK_FILE_NAME]\<rparr>"
    by (simp add: path_join_def LOCK_FILE_NAME_def components_def)
  then show ?thesis using sibling_not_below [of LOCK_FILE_NAME root] by (simp add: LOCK_FILE_NAME_def)
qed

lemma same_below_ensure_root: "same_below (path_join root ''series'') s (ensure_dir root s)"
proof -
  have "p \<in> fs_dirs s \<longleftrightarrow> p \<in> fs_dirs (ensure_dir root s)" if "path_starts_with p (path_join root ''series'')" for p
  proof -
    have "length (comps root) < length (comps p)"
      using that prefix_length_le by (fastforce simp: path_starts_with_def series_path_comps)
    then show ?thesis by (auto simp: ensure_dir_def)
  qed
  then show ?thesis by (simp add: same_below_def ensure_dir_def)
qed

lemma same_below_trans: "same_below d s t \<Longrightarrow> same_below d t u \<Longrightarrow> same_below d s u"
  by (simp add: same_below_def)

lemma sealed_lock:
  assumes "fs_files s (path_join root SNAPSHOT_FILE_NAME) \<noteq> None"
  obtains s' e where "write_lock_acquire E root s = (s', Inl e)" and "same_below (path_join root ''series'') s s'"
proof -
  have l: "same_below (path_join root ''series'') t (fs_write (path_join root LOCK_FILE_NAME) [] t)" for t
    using lock_not_below by (auto simp: same_below_def fs_write_def)
  have "\<exists>s' e. write_lock_acquire E root s = (s', Inl e) \<and> same_below (path_join root ''series'') s s'"
    using assms same_below_ensure_root [of root s] same_below_trans [OF same_below_ensure_root [of root s] l]
    by (auto simp: write_lock_acquire_def make_dir_def open_or_create_def Let_def fs_exists_def fs_write_def ensure_dir_def split: option.splits)
  then show thesis using that by blast
qed

lemma sealed_ownership:
  assumes "fs_files (fs_of st) (path_join (fk_root st) SNAPSHOT_FILE_NAME) \<noteq> None"
  obtains st' e where "acquire_write_ownership depth E st recover = Some (st', Inl e)"
    and "same_below (path_join (fk_root st) ''series'') (fs_of st) (fs_of st')"
proof (cases "fk_read_only st")
  case True
  then show ?thesis using that by (simp add: acquire_write_ownership_def)
next
  case False
  obtain s' e where "write_lock_acquire E (fk_root st) (fs_of st) = (s', Inl e)" "same_below (path_join (fk_root st) ''series'') (fs_of st) s'"
    by (rule sealed_lock [OF assms])
  with False show ?thesis using that by (simp add: acquire_write_ownership_def on_fs_def)
qed

lemma sealed_with_lock:
  assumes "fs_files (fs_of st) (path_join (fk_root st) SNAPSHOT_FILE_NAME) \<noteq> None"
  shows "rejected st (with_lock depth E st f)"
proof -
  obtain st' e where "begin_mutation depth E st = Some (st', Inl e)" "same_below (path_join (fk_root st) ''series'') (fs_of st) (fs_of st')"
    unfolding begin_mutation_def by (rule sealed_ownership [OF assms])
  then show ?thesis by (simp add: with_lock_def)
qed

lemma sealed_rejects:
  assumes "fs_files (fs_of st) (path_join (fk_root st) SNAPSHOT_FILE_NAME) \<noteq> None"
  shows "rejected st (register_kline_series depth E st symbol timeframe timeframe_ms price_scale volume_scale)"
    and "rejected st (register_scalar_series depth E st key timeframe_ms)"
    and "rejected st (register_fixed_series R depth E st symbol category name timeframe_ms policy)"
    and "rejected st (put_kline_chunk depth E st symbol timeframe rows)"
    and "rejected st (put_scalar_chunk depth E st key timeframe_ms points block_size)"
    and "rejected st (append_scalar_chunk depth E st key timeframe_ms points block_size)"
    and "rejected st (put_fixed_chunk R depth E st symbol category name records)"
    and "rejected st (merge_kline_month depth E st symbol timeframe month)"
  by (simp_all add: locked_writes sealed_with_lock [OF assms] split: sum.splits)

lemma sealed_rejects_maintenance:
  assumes "fs_files (fs_of st) (path_join (fk_root st) SNAPSHOT_FILE_NAME) \<noteq> None"
  shows "rejected st (init depth E st)" and "rejected st (repair_store depth E st)"
proof -
  obtain st1 e1 where b: "begin_mutation depth E st = Some (st1, Inl e1)" "same_below (path_join (fk_root st) ''series'') (fs_of st) (fs_of st1)"
    unfolding begin_mutation_def by (rule sealed_ownership [OF assms])
  obtain st2 e2 where o: "acquire_write_ownership depth E st False = Some (st2, Inl e2)"
      "same_below (path_join (fk_root st) ''series'') (fs_of st) (fs_of st2)"
    by (rule sealed_ownership [OF assms])
  show "rejected st (init depth E st)" "rejected st (repair_store depth E st)"
    using b o by (simp_all add: init_def repair_store_def)
qed

text \<open>The range writers split the records before they ask for the lock, and the split may not end.\<close>

lemma sealed_rejects_ranges:
  assumes "fs_files (fs_of st) (path_join (fk_root st) SNAPSHOT_FILE_NAME) \<noteq> None"
  shows "month_batches kline_record (e_utc E) next_month rows \<noteq> None \<Longrightarrow>
      rejected st (append_kline_range depth E next_month st symbol timeframe rows timeframe_ms price_scale volume_scale)"
    and "month_batches scalar_record (e_utc E) next_month points \<noteq> None \<Longrightarrow>
      rejected st (append_scalar_range depth E next_month st key points scalar_ms)"
    and "append_kline_range depth E next_month st symbol timeframe rows timeframe_ms price_scale volume_scale = Some m \<Longrightarrow> rejected st (Some m)"
    and "append_scalar_range depth E next_month st key points scalar_ms = Some m' \<Longrightarrow> rejected st (Some m')"
proof -
  obtain st1 e1 where b: "begin_mutation depth E st = Some (st1, Inl e1)" "same_below (path_join (fk_root st) ''series'') (fs_of st) (fs_of st1)"
    unfolding begin_mutation_def by (rule sealed_ownership [OF assms])
  show "month_batches kline_record (e_utc E) next_month rows \<noteq> None \<Longrightarrow>
      rejected st (append_kline_range depth E next_month st symbol timeframe rows timeframe_ms price_scale volume_scale)"
    "month_batches scalar_record (e_utc E) next_month points \<noteq> None \<Longrightarrow>
      rejected st (append_scalar_range depth E next_month st key points scalar_ms)"
    "append_kline_range depth E next_month st symbol timeframe rows timeframe_ms price_scale volume_scale = Some m \<Longrightarrow> rejected st (Some m)"
    "append_scalar_range depth E next_month st key points scalar_ms = Some m' \<Longrightarrow> rejected st (Some m')"
    using b by (auto simp: append_kline_range_def append_scalar_range_def ok_then_def split: option.splits sum.splits prod.splits)
qed

text \<open>
  The indicator writers load the kline manifest before they ask for the lock, and loading it through a
  writable handle rewrites a manifest of the old JSON format. A manifest in the binary format
  is only read.
\<close>

definition binary_manifest :: "fs_state \<Rightarrow> path \<Rightarrow> bool" where
  "binary_manifest s dir \<longleftrightarrow> (\<forall>f. fs_files s (series_meta_path dir) = Some f \<longrightarrow> take 8 (f_data f) = MANIFEST_MAGIC)"

lemma load_binary_keeps:
  assumes "binary_manifest (fs_of st) dir" and "load_meta E st key dir = (st', r)"
  shows "fk_root st' = fk_root st" and "fs_of st' = fs_of st"
  using assms by (auto simp: binary_manifest_def load_meta_def catalog_load_report_def load_series_meta_shared_mode_def decode_or_migrate_def
      Let_def split: option.splits sum.splits prod.splits if_splits)

lemma rejected_after: "rejected st' m \<Longrightarrow> fk_root st' = fk_root st \<Longrightarrow> fs_of st' = fs_of st \<Longrightarrow> rejected st m"
  by (auto simp: rejected_def split: option.splits prod.splits sum.splits)

lemma sealed_rejects_indicators:
  assumes "fs_files (fs_of st) (path_join (fk_root st) SNAPSHOT_FILE_NAME) \<noteq> None"
    and "binary_manifest (fs_of st) (kline_series_dir (fk_root st) symbol timeframe)"
  shows "rejected st (register_indicator_series depth E st symbol timeframe indicator)"
    and "rejected st (put_indicator_chunk depth E st symbol timeframe indicator points)"
proof -
  obtain st' r where l: "load_kline_meta E st symbol timeframe = (st', r)" by fastforce
  note k = load_binary_keeps [OF assms(2) l [unfolded load_kline_meta_def]]
  note rej = sealed_rejects(2,5) [of st', unfolded k, OF assms(1), THEN rejected_after, OF k]
  show "rejected st (register_indicator_series depth E st symbol timeframe indicator)"
    "rejected st (put_indicator_chunk depth E st symbol timeframe indicator points)"
    using rej k by (auto simp: register_indicator_series_def put_indicator_chunk_def l split: sum.splits)
qed

section \<open>A pinned digest fixes the bytes\<close>

text \<open>No two inventories and no two file contents of the two states share a hash.\<close>

definition no_collision :: "SnapshotEnv \<Rightarrow> fs_state \<Rightarrow> fs_state \<Rightarrow> bool" where
  "no_collision S s s' \<longleftrightarrow>
     (\<forall>p p' b b'. visible s p = Some b \<longrightarrow> visible s' p' = Some b' \<longrightarrow> se_sha256 S b = se_sha256 S b' \<longrightarrow> b = b')"

definition inventory_fixed :: "SnapshotEnv \<Rightarrow> SnapshotFile list \<Rightarrow> SnapshotFile list \<Rightarrow> bool" where
  "inventory_fixed S files files' \<longleftrightarrow> (files_digest S files = files_digest S files' \<longrightarrow> files = files')"

text \<open>The file of an inventory entry, and its bytes.\<close>

definition holds :: "path \<Rightarrow> fs_state \<Rightarrow> string \<Rightarrow> u8 list \<Rightarrow> bool" where
  "holds root s name bytes \<longleftrightarrow> (\<exists>p. path_starts_with p (path_join root ''series'') \<and> snapshot_path root p = Inr name \<and> visible s p = Some bytes)"

lemma visit_holds:
  assumes "listing_ok E S" and "visit n E S s root d files = Some (Inr files')" and "path_starts_with d (path_join root ''series'')"
    and "\<forall>f \<in> set files. \<exists>b. holds root s (sf_path f) b \<and> se_sha256 S b = sf_sha256 f"
  shows "\<forall>f \<in> set files'. \<exists>b. holds root s (sf_path f) b \<and> se_sha256 S b = sf_sha256 f"
  using assms(2-4)
proof (induction n arbitrary: d files files')
  case (Suc n)
  let ?I = "\<lambda>files. \<forall>f \<in> set files. \<exists>b. holds root s (sf_path f) b \<and> se_sha256 S b = sf_sha256 f"
  obtain entries where l: "e_read_dir E s d = Inr entries" using Suc.prems(1) by (auto split: sum.splits)
  show ?case
  proof (rule try_entries_inv [where I = ?I, OF Suc.prems(1) [unfolded visit.simps l sum.case] Suc.prems(3)])
    fix name out out'
    let ?p = "path_join d name"
    assume n: "name \<in> set (map fst entries)" and I: "?I out"
      and step: "(let p = ?p in case se_file_type S s p of
              Inl e \<Rightarrow> Some (Inl e)
            | Inr Symlink \<Rightarrow> Some (Inl (InvalidInput ''snapshot cannot contain symlinks''))
            | Inr Directory \<Rightarrow> visit n E S s root p out
            | Inr Regular \<Rightarrow> Some (and_then (snapshot_file S s root p) (\<lambda>f. Inr (out @ [f])))
            | Inr Special \<Rightarrow> Some (Inr out)) = Some (Inr out')"
    have "path_starts_with ?p d" using assms(1) l n unfolding listing_ok_def by fastforce
    then have b: "path_starts_with ?p (path_join root ''series'')" using starts_with_trans Suc.prems(2) by blast
    have new: "\<exists>b. holds root s (sf_path f) b \<and> se_sha256 S b = sf_sha256 f" if e: "snapshot_file S s root ?p = Inr f" for f
    proof -
      obtain b name where "visible s ?p = Some b" "snapshot_path root ?p = Inr name" "sf_path f = name" "sf_sha256 f = se_sha256 S b"
        using e by (auto simp: snapshot_file_def read_file_def res_simps)
      then show ?thesis using b by (auto simp: holds_def)
    qed
    show "?I out'"
    proof (cases "se_file_type S s ?p")
      case (Inr k)
      show ?thesis
      proof (cases k)
        case Directory
        then show ?thesis using step Inr I Suc.IH [OF _ b] by (simp add: Let_def)
      next
        case Regular
        obtain f where f: "snapshot_file S s root ?p = Inr f" "out' = out @ [f]" using step Inr Regular by (auto simp: Let_def res_simps)
        show ?thesis using I new [OF f(1)] unfolding f(2) by auto
      qed (use step Inr I in \<open>simp_all add: Let_def\<close>)
    qed (use step in \<open>simp add: Let_def\<close>)
  qed
qed simp

lemma collected_holds:
  assumes "listing_ok E S" and "collect_files depth E S s root = Some (Inr files)" and "f \<in> set files"
  obtains b where "holds root s (sf_path f) b" and "se_sha256 S b = sf_sha256 f"
proof -
  obtain found where v: "visit depth E S s root (path_join root ''series'') [] = Some (Inr found)" "files = sort_key sf_path found"
    using assms(2) by (auto simp: collect_files_def res_simps)
  have "\<forall>f \<in> set found. \<exists>b. holds root s (sf_path f) b \<and> se_sha256 S b = sf_sha256 f"
    by (rule visit_holds [OF assms(1) v(1)]) simp_all
  then show thesis using assms(3) v(2) that by auto
qed

lemma same_digest_same_files:
  assumes "listing_ok E S" and "verify_snapshot depth E S root (Some digest) s = Some (Inr snapshot)"
    and "verify_snapshot depth E S root (Some digest) s' = Some (Inr snapshot')"
    and "inventory_fixed S (sn_files snapshot) (sn_files snapshot')" and "no_collision S s s'"
  shows "snapshot' = snapshot" and "collect_files depth E S s' root = collect_files depth E S s root"
    and "\<forall>f \<in> set (sn_files snapshot). \<exists>bytes. holds root s (sf_path f) bytes \<and> holds root s' (sf_path f) bytes"
proof -
  note v = verify_Inr [OF assms(2)] and v' = verify_Inr [OF assms(3)]
  have f: "sn_files snapshot = sn_files snapshot'" using assms(4) v(1,3) v'(1,3) by (auto simp: inventory_fixed_def)
  then show "snapshot' = snapshot" using v(3,4) v'(3,4) by (auto intro: SnapshotManifest.equality)
  show "collect_files depth E S s' root = collect_files depth E S s root" using v(2) v'(2) f by simp
  show "\<forall>f \<in> set (sn_files snapshot). \<exists>bytes. holds root s (sf_path f) bytes \<and> holds root s' (sf_path f) bytes"
  proof
    fix x assume x: "x \<in> set (sn_files snapshot)"
    obtain b where b: "holds root s (sf_path x) b" "se_sha256 S b = sf_sha256 x" by (rule collected_holds [OF assms(1) v(2) x])
    obtain b' where b': "holds root s' (sf_path x) b'" "se_sha256 S b' = sf_sha256 x"
      by (rule collected_holds [OF assms(1) v'(2) x [unfolded f]])
    have "b = b'" using assms(5) b b' unfolding no_collision_def holds_def by metis
    then show "\<exists>bytes. holds root s (sf_path x) bytes \<and> holds root s' (sf_path x) bytes" using b b' by blast
  qed
qed

end
