(* ===== verification/Published.thy ===== *)
theory Published
  imports Registry Sealed
begin

text \<open>
  What publishing a dataset promises: whatever the registry does afterwards, the binding of the
  version to its root and digest stays, and a later resolution succeeds only on the published bytes.
\<close>

section \<open>The invariant of the registry\<close>

definition manifest_rows :: "RegistryDb \<Rightarrow> DatasetManifestRecord list" where
  "manifest_rows db = (case db_dataset_manifest db of None \<Rightarrow> [] | Some t \<Rightarrow> tb_rows t)"

definition bindings :: "RegistryDb \<Rightarrow> SnapshotBinding list" where
  "bindings db = (case db_dataset_snapshot db of None \<Rightarrow> [] | Some t \<Rightarrow> tb_rows t)"

definition bound_row :: "SnapshotBinding \<Rightarrow> DatasetManifestRecord \<Rightarrow> bool" where
  "bound_row b r \<longleftrightarrow>
     dm_key r = sb_key b \<and> dm_fastk_root r = sb_fastk_root b \<and> dm_checksum r = Some (sb_digest b) \<and> dm_status r = ''sealed''"

definition schema_ok :: "RegistryDb \<Rightarrow> bool" where
  "schema_ok db \<longleftrightarrow>
     (case (db_dataset_manifest db, db_dataset_snapshot db) of
        (Some t, Some b) \<Rightarrow> tb_key t = [''dataset_id'', ''version''] \<and> set DATASET_COLUMNS \<subseteq> set (tb_columns t)
          \<and> set SNAPSHOT_COLUMNS \<subseteq> set (tb_columns b)
      | _ \<Rightarrow> False)"

definition registry_wf :: "RegistryDb \<Rightarrow> bool" where
  "registry_wf db \<longleftrightarrow>
     schema_ok db \<and> distinct (map dm_key (manifest_rows db)) \<and> distinct (map sb_key (bindings db))
     \<and> (\<forall>b \<in> set (bindings db). \<exists>r \<in> set (manifest_rows db). bound_row b r)"

text \<open>A step that keeps the invariant, every binding and every bound row.\<close>

definition keeps_bound :: "RegistryDb \<Rightarrow> RegistryDb \<Rightarrow> bool" where
  "keeps_bound db db' \<longleftrightarrow>
     registry_wf db' \<and> set (bindings db) \<subseteq> set (bindings db')
     \<and> (\<forall>r \<in> set (manifest_rows db). dm_key r \<in> sb_key ` set (bindings db) \<longrightarrow> r \<in> set (manifest_rows db'))"

lemma keeps_bound_refl: "registry_wf db \<Longrightarrow> keeps_bound db db"
  by (simp add: keeps_bound_def)

lemma keeps_bound_trans: "keeps_bound a b \<Longrightarrow> keeps_bound b c \<Longrightarrow> keeps_bound a c"
  unfolding keeps_bound_def by blast

lemma keeps_bound_same:
  "registry_wf db \<Longrightarrow> db_dataset_manifest db' = db_dataset_manifest db \<Longrightarrow> db_dataset_snapshot db' = db_dataset_snapshot db \<Longrightarrow> keeps_bound db db'"
  by (simp add: keeps_bound_def registry_wf_def schema_ok_def manifest_rows_def bindings_def)

lemma schema_okE:
  assumes "schema_ok db"
  obtains t b where "db_dataset_manifest db = Some t" and "db_dataset_snapshot db = Some b" and "tb_key t = [''dataset_id'', ''version'']"
    and "set DATASET_COLUMNS \<subseteq> set (tb_columns t)" and "set SNAPSHOT_COLUMNS \<subseteq> set (tb_columns b)"
  using assms by (auto simp: schema_ok_def split: option.splits)

lemma exec_Inr: "sql_exec Q stmt f db = (db', Inr x) \<longleftrightarrow> Q stmt db = None \<and> f db = Inr (db', x)"
  by (auto simp: sql_exec_def sql_query_def split: option.splits sum.splits)

lemma exec_keeps:
  assumes "registry_wf db" and "\<And>db' x. f db = Inr (db', x) \<Longrightarrow> keeps_bound db db'"
  shows "keeps_bound db (fst (sql_exec Q stmt f db))"
  using assms keeps_bound_refl by (auto simp: sql_exec_def sql_query_def split: option.splits sum.splits)

lemma then_do_keeps:
  assumes "keeps_bound db (fst m)" and "\<And>s x. m = (s, Inr x) \<Longrightarrow> keeps_bound s (fst (f s x))"
  shows "keeps_bound db (fst (then_do m f))"
  using assms by (auto simp: then_do_def split: prod.splits sum.splits intro: keeps_bound_trans)

section \<open>The operations keep it\<close>

lemma upsert_row_facts:
  assumes "distinct (map key rows)"
  shows "distinct (map key (upsert_row key row rows))" and "row \<in> set (upsert_row key row rows)"
    and "r \<in> set rows \<Longrightarrow> key r \<noteq> key row \<Longrightarrow> r \<in> set (upsert_row key row rows)"
    and "key row \<notin> key ` set rows \<Longrightarrow> set rows \<subseteq> set (upsert_row key row rows)"
proof -
  show "distinct (map key (upsert_row key row rows))"
    using assms by (cases "key row \<in> key ` set rows") (simp_all add: upsert_row_def comp_def if_distrib cong: if_cong)
qed (auto simp: upsert_row_def)

lemma upsert_sql_keeps:
  assumes "registry_wf db" and "upsert_dataset_sql record db = Inr (db', n)"
  shows "keeps_bound db db'" and "bindings db' = bindings db"
    and "n \<noteq> 0 \<Longrightarrow> record \<in> set (manifest_rows db')" and "n = 0 \<Longrightarrow> dm_key record \<in> sb_key ` set (bindings db) \<and> db' = db"
proof -
  obtain t b where t: "db_dataset_manifest db = Some t" "db_dataset_snapshot db = Some b" "tb_key t = [''dataset_id'', ''version'']"
    "set DATASET_COLUMNS \<subseteq> set (tb_columns t)" "set SNAPSHOT_COLUMNS \<subseteq> set (tb_columns b)"
    using assms(1) unfolding registry_wf_def by (auto elim: schema_okE)
  have w: "distinct (map dm_key (tb_rows t))" "distinct (map sb_key (tb_rows b))" "\<forall>x \<in> set (tb_rows b). \<exists>r \<in> set (tb_rows t). bound_row x r"
    using assms(1) t by (simp_all add: registry_wf_def manifest_rows_def bindings_def)
  let ?hit = "dm_key record \<in> dm_key ` set (tb_rows t) \<and> dm_key record \<in> sb_key ` set (tb_rows b)"
  let ?db = "db\<lparr>db_dataset_manifest := Some (t\<lparr>tb_rows := upsert_row dm_key record (tb_rows t)\<rparr>)\<rparr>"
  have d: "(db', n) = (if ?hit then (db, 0) else (?db, 1))"
    using assms(2) t(1,2) by (auto simp: upsert_dataset_sql_def res_simps table_rows_def with_rows_def split: if_splits)
  note u = upsert_row_facts [OF w(1), where row = "record"]
  have "keeps_bound db ?db" if h: "\<not> ?hit"
  proof -
    have k: "r \<in> set (upsert_row dm_key record (tb_rows t))" if "r \<in> set (tb_rows t)" "dm_key r \<in> sb_key ` set (tb_rows b)" for r
    proof (cases "dm_key r = dm_key record")
      case True
      then have "dm_key record \<notin> dm_key ` set (tb_rows t)" using that(2) h by argo
      then show ?thesis using u(4) that(1) by blast
    qed (rule u(3) [OF that(1)])
    have "\<forall>x \<in> set (tb_rows b). \<exists>r \<in> set (upsert_row dm_key record (tb_rows t)). bound_row x r"
    proof
      fix x assume x: "x \<in> set (tb_rows b)"
      then obtain r where r: "r \<in> set (tb_rows t)" "bound_row x r" using w(3) by blast
      have "dm_key r = sb_key x" using r(2) unfolding bound_row_def by (rule conjunct1)
      then have "dm_key r \<in> sb_key ` set (tb_rows b)" by (rule image_eqI [OF _ x])
      then show "\<exists>r \<in> set (upsert_row dm_key record (tb_rows t)). bound_row x r" using k r by blast
    qed
    then show ?thesis using t w(2) u(1) k by (simp add: keeps_bound_def registry_wf_def schema_ok_def manifest_rows_def bindings_def)
  qed
  then show "keeps_bound db db'" using d keeps_bound_refl [OF assms(1)] by (auto split: if_splits)
  show "bindings db' = bindings db" using d by (auto simp: bindings_def split: if_splits)
  show "n \<noteq> 0 \<Longrightarrow> record \<in> set (manifest_rows db')" using d u(2) by (auto simp: manifest_rows_def split: if_splits)
  show "n = 0 \<Longrightarrow> dm_key record \<in> sb_key ` set (bindings db) \<and> db' = db" using d t(2) by (auto simp: bindings_def split: if_splits)
qed

lemma upsert_dataset_keeps:
  assumes "registry_wf db"
  shows "keeps_bound db (fst (upsert_dataset Q record db))"
proof -
  have "keeps_bound db (fst (sql_exec Q Upsert_dataset (upsert_dataset_sql record) db))"
    by (rule exec_keeps [OF assms]) (rule upsert_sql_keeps(1) [OF assms])
  then show ?thesis unfolding upsert_dataset_def
    by (intro then_do_keeps) (auto simp: keeps_bound_refl assms keeps_bound_def then_do_def split: sum.splits)
qed

lemma upsert_dataset_stores:
  assumes "registry_wf db" and "upsert_dataset Q record db = (db', Inr ())" and "dm_key record \<notin> sb_key ` set (bindings db)"
  shows "record \<in> set (manifest_rows db')" and "bindings db' = bindings db"
proof -
  obtain n where s: "upsert_dataset_sql record db = Inr (db', n)"
    using assms(2) by (auto simp: upsert_dataset_def then_do_Inr exec_Inr split: if_splits)
  note u = upsert_sql_keeps [OF assms(1) s]
  show "bindings db' = bindings db" by (rule u(2))
  show "record \<in> set (manifest_rows db')" using u(3,4) assms(3) by (cases "n = 0") auto
qed

lemma others_keep:
  assumes "registry_wf db"
  shows "keeps_bound db (fst (upsert_feature Q feature db))" and "keeps_bound db (fst (upsert_factor Q factor db))"
  using keeps_bound_same [OF assms] keeps_bound_refl [OF assms]
  by (auto simp: upsert_feature_def upsert_factor_def then_do_def sql_exec_def sql_query_def res_simps split: sum.splits option.splits prod.splits)

lemma add_column_keeps:
  assumes "registry_wf db"
    and "\<And>t db. db_dataset_manifest (set_table t db) = db_dataset_manifest db \<and> db_dataset_snapshot (set_table t db) = db_dataset_snapshot db"
  shows "keeps_bound db (fst (add_text_column_if_missing Q table set_table column fill db))"
  using keeps_bound_same [OF assms(1)] keeps_bound_refl [OF assms(1)] assms(2)
  by (auto simp: add_text_column_if_missing_def then_do_def sql_exec_def sql_query_def table_columns_def split: sum.splits option.splits prod.splits)

lemma exec_same_keeps:
  assumes "registry_wf db"
    and "\<And>db' x. f db = Inr (db', x) \<Longrightarrow> db_dataset_manifest db' = db_dataset_manifest db \<and> db_dataset_snapshot db' = db_dataset_snapshot db"
  shows "keeps_bound db (fst (sql_exec Q stmt f db))"
  by (rule exec_keeps [OF assms(1)]) (use assms(2) in \<open>blast intro: keeps_bound_same [OF assms(1)]\<close>)

lemma keeps_wf: "keeps_bound db db' \<Longrightarrow> registry_wf db'"
  by (simp add: keeps_bound_def)

lemma schema_keeps:
  assumes "registry_wf db"
  shows "keeps_bound db (fst (ensure_feature_registry_schema Q db))" and "keeps_bound db (fst (ensure_factor_registry_schema Q db))"
    and "keeps_bound db (fst (ensure_dataset_manifest_schema Q db))"
proof -
  have wf: "registry_wf s" if "keeps_bound d (fst m)" "m = (s, Inr x)" for d s x and m :: "RegistryDb \<times> unit res"
    using that keeps_wf by auto
  show "keeps_bound db (fst (ensure_feature_registry_schema Q db))" unfolding ensure_feature_registry_schema_def
    by (rule then_do_keeps, rule exec_same_keeps [OF assms], force, drule wf [rotated], rule exec_same_keeps [OF assms], force,
      (rule then_do_keeps, rule add_column_keeps, assumption, simp, drule wf [rotated], rule add_column_keeps, assumption, simp)+,
      rule exec_same_keeps, assumption, simp)
  show "keeps_bound db (fst (ensure_factor_registry_schema Q db))" unfolding ensure_factor_registry_schema_def
    by (rule then_do_keeps, rule exec_same_keeps [OF assms], force, drule wf [rotated], rule exec_same_keeps [OF assms], force,
      (rule then_do_keeps, rule add_column_keeps, assumption, simp, drule wf [rotated], rule add_column_keeps, assumption, simp)+,
      rule exec_same_keeps, assumption, simp)
  obtain t where "db_dataset_manifest db = Some t" "tb_key t = [''dataset_id'', ''version'']"
    using assms unfolding registry_wf_def by (auto elim: schema_okE)
  then show "keeps_bound db (fst (ensure_dataset_manifest_schema Q db))"
    using keeps_bound_refl [OF assms]
    by (auto simp: ensure_dataset_manifest_schema_def then_do_def table_exists_def primary_key_columns_def sql_query_def sql_exec_def
        split: sum.splits option.splits prod.splits if_splits)
qed

lemma registry_init_keeps:
  assumes "registry_wf db"
  shows "keeps_bound db (fst (registry_init Q db))"
proof -
  have last: "keeps_bound d (fst (sql_exec Q Create_snapshots (\<lambda>db. Inr (db\<lparr>db_dataset_snapshot :=
       create_if_missing SNAPSHOT_COLUMNS [''dataset_id'', ''version''] (db_dataset_snapshot db)\<rparr>, ())) d))" if d: "registry_wf d" for d
  proof -
    obtain b where "db_dataset_snapshot d = Some b" using d unfolding registry_wf_def by (auto elim: schema_okE)
    then show ?thesis by (intro exec_same_keeps [OF d]) (auto simp: create_if_missing_def)
  qed
  have wf: "registry_wf s" if "keeps_bound d (fst m)" "m = (s, Inr x)" for d s x and m :: "RegistryDb \<times> unit res"
    using that keeps_wf by auto
  show ?thesis unfolding registry_init_def
    by (rule then_do_keeps, rule exec_same_keeps [OF assms], simp, drule wf [rotated], rule exec_same_keeps [OF assms], simp,
      (rule then_do_keeps, rule schema_keeps, assumption, drule wf [rotated], rule schema_keeps, assumption)+, rule last)
qed

section \<open>A new registry\<close>

lemma then_do_inv:
  assumes "P (fst m)" and "\<And>s x. P s \<Longrightarrow> P (fst (f s x))"
  shows "P (fst (then_do m f))"
  using assms by (auto simp: then_do_def split: prod.splits sum.splits)

definition tables_are :: "DatasetManifestRecord SqlTable option \<Rightarrow> SnapshotBinding SqlTable option \<Rightarrow> RegistryDb \<Rightarrow> bool" where
  "tables_are t b db \<longleftrightarrow> db_dataset_manifest db = t \<and> db_dataset_snapshot db = b"

lemma exec_tables:
  "(\<And>db' x. f db = Inr (db', x) \<Longrightarrow> tables_are t b db') \<Longrightarrow> tables_are t b db \<Longrightarrow> tables_are t b (fst (sql_exec Q stmt f db))"
  by (auto simp: sql_exec_def sql_query_def split: option.splits sum.splits)

lemma add_column_tables:
  assumes "tables_are t b db" and "\<And>x db. tables_are t b db \<Longrightarrow> tables_are t b (set_table x db)"
  shows "tables_are t b (fst (add_text_column_if_missing Q table set_table column fill db))"
  using assms
  by (auto simp: add_text_column_if_missing_def then_do_def sql_exec_def sql_query_def table_columns_def split: sum.splits option.splits prod.splits)

lemma schema_tables:
  assumes "tables_are t b db"
  shows "tables_are t b (fst (ensure_feature_registry_schema Q db))" and "tables_are t b (fst (ensure_factor_registry_schema Q db))"
  using assms unfolding ensure_feature_registry_schema_def ensure_factor_registry_schema_def
  by (intro then_do_inv [where P = "tables_are t b"] exec_tables add_column_tables; auto simp: tables_are_def)+

lemma in_memory_wf:
  assumes "in_memory Q = (db, Inr ())"
  shows "registry_wf db" and "bindings db = []"
proof -
  let ?t = "Some \<lparr>tb_columns = DATASET_COLUMNS, tb_key = [''dataset_id'', ''version''], tb_rows = []\<rparr>"
  obtain d1 x1 where d1: "ensure_dataset_manifest_schema Q empty_db = (d1, Inr x1)"
      and r1: "then_do (ensure_feature_registry_schema Q d1) (\<lambda>db _. then_do (ensure_factor_registry_schema Q db) (\<lambda>db _.
        sql_exec Q Create_snapshots (\<lambda>db. Inr (db\<lparr>db_dataset_snapshot :=
          create_if_missing SNAPSHOT_COLUMNS [''dataset_id'', ''version''] (db_dataset_snapshot db)\<rparr>, ())) db)) = (db, Inr ())"
    using assms unfolding in_memory_def registry_init_def by (auto simp: then_do_Inr exec_Inr)
  obtain d2 x2 where d2: "ensure_feature_registry_schema Q d1 = (d2, Inr x2)"
      and r2: "then_do (ensure_factor_registry_schema Q d2) (\<lambda>db _.
        sql_exec Q Create_snapshots (\<lambda>db. Inr (db\<lparr>db_dataset_snapshot :=
          create_if_missing SNAPSHOT_COLUMNS [''dataset_id'', ''version''] (db_dataset_snapshot db)\<rparr>, ())) db) = (db, Inr ())"
    by (rule then_do_InrE [OF r1])
  obtain d3 x3 where d3: "ensure_factor_registry_schema Q d2 = (d3, Inr x3)"
      and r3: "sql_exec Q Create_snapshots (\<lambda>db. Inr (db\<lparr>db_dataset_snapshot :=
        create_if_missing SNAPSHOT_COLUMNS [''dataset_id'', ''version''] (db_dataset_snapshot db)\<rparr>, ())) d3 = (db, Inr ())"
    by (rule then_do_InrE [OF r2])
  have "tables_are ?t None d1"
    using d1 by (auto simp: ensure_dataset_manifest_schema_def create_dataset_manifest_table_def then_do_Inr exec_Inr table_exists_def sql_query_def
        tables_are_def empty_db_def create_if_missing_def split: option.splits)
  then have "tables_are ?t None d3" using schema_tables(1) [of ?t None d1 Q] schema_tables(2) [of ?t None d2 Q] d2 d3 by simp
  then have "tables_are ?t (Some \<lparr>tb_columns = SNAPSHOT_COLUMNS, tb_key = [''dataset_id'', ''version''], tb_rows = []\<rparr>) db"
    using r3 by (auto simp: exec_Inr tables_are_def create_if_missing_def)
  then show "registry_wf db" "bindings db = []"
    by (simp_all add: tables_are_def registry_wf_def schema_ok_def manifest_rows_def bindings_def)
qed

section \<open>Publishing\<close>

lemma insert_snapshot_keeps:
  assumes "registry_wf db" and "insert_snapshot_sql b db = Inr (db', ())" and "\<exists>r \<in> set (manifest_rows db). bound_row b r"
  shows "keeps_bound db db'" and "b \<in> set (bindings db')" and "manifest_rows db' = manifest_rows db" and "sb_key b \<notin> sb_key ` set (bindings db)"
proof -
  obtain t x where t: "db_dataset_manifest db = Some t" "db_dataset_snapshot db = Some x" "set SNAPSHOT_COLUMNS \<subseteq> set (tb_columns x)"
    using assms(1) unfolding registry_wf_def by (auto elim: schema_okE)
  have d: "db' = db\<lparr>db_dataset_snapshot := Some (x\<lparr>tb_rows := tb_rows x @ [b]\<rparr>)\<rparr>" "sb_key b \<notin> sb_key ` set (tb_rows x)"
    using assms(2) t by (auto simp: insert_snapshot_sql_def res_simps table_rows_def with_rows_def)
  show "sb_key b \<notin> sb_key ` set (bindings db)" using d(2) t(2) by (simp add: bindings_def)
  show "b \<in> set (bindings db')" "manifest_rows db' = manifest_rows db" by (simp_all add: d(1) bindings_def manifest_rows_def)
  show "keeps_bound db db'" using assms(1,3) d(2) t(2,3)
    by (simp add: d(1) keeps_bound_def registry_wf_def schema_ok_def bindings_def manifest_rows_def t(1) subset_insertI)
qed

lemma publish_tx_keeps:
  assumes "registry_wf db" and "publish_tx Q published digest db = (db', r)"
    and "dm_status published = ''sealed''" and "dm_checksum published = Some digest"
  shows "keeps_bound db db'"
    and "r = Inr p \<Longrightarrow> p = published \<and> published \<in> set (manifest_rows db') \<and> (\<exists>b \<in> set (bindings db'). bound_row b published)"
proof -
  let ?b = "\<lparr>sb_dataset_id = dm_dataset_id published, sb_version = dm_version published, sb_fastk_root = dm_fastk_root published, sb_digest = digest\<rparr>"
  have br: "bound_row ?b published" using assms(3,4) by (simp add: bound_row_def)
  have "keeps_bound db db' \<and> (r = Inr p \<longrightarrow> p = published \<and> published \<in> set (manifest_rows db') \<and> (\<exists>b \<in> set (bindings db'). bound_row b published))"
  proof (cases r)
    case (Inl e)
    then have "db' = db" using assms(2) by (auto simp: publish_tx_def Let_def split: prod.splits sum.splits)
    then show ?thesis using keeps_bound_refl [OF assms(1)] Inl by simp
  next
    case (Inr x)
    let ?body = "\<lambda>db _. then_do (upsert_dataset Q published db) (\<lambda>db _.
        then_do (sql_exec Q Insert_snapshot (insert_snapshot_sql ?b) db) (\<lambda>db _. sql_exec Q Commit_tx (\<lambda>db. Inr (db, ())) db))"
    obtain u where x: "then_do (sql_exec Q Begin_tx (\<lambda>db. Inr (db, ())) db) ?body = (db', Inr u)" "x = published"
      using assms(2) [unfolded publish_tx_def Let_def Inr] by (auto split: prod.splits sum.splits)
    have "?body db () = (db', Inr u)" by (rule then_do_InrE [OF x(1)]) (simp add: exec_Inr)
    then obtain db1 v where u: "upsert_dataset Q published db = (db1, Inr v)"
        and i: "then_do (sql_exec Q Insert_snapshot (insert_snapshot_sql ?b) db1) (\<lambda>db _. sql_exec Q Commit_tx (\<lambda>db. Inr (db, ())) db) = (db', Inr u)"
      by (rule then_do_InrE)
    have "insert_snapshot_sql ?b db1 = Inr (db', ())" by (rule then_do_InrE [OF i]) (simp add: exec_Inr)
    with u x(2) have u: "upsert_dataset Q published db = (db1, Inr ())" "insert_snapshot_sql ?b db1 = Inr (db', ())" "x = published" by simp_all
    have k: "keeps_bound db db1" using upsert_dataset_keeps [OF assms(1), of Q published] u(1) by simp
    have "dm_key published \<notin> sb_key ` set (bindings db1)"
      using u(2) by (auto simp: insert_snapshot_sql_def res_simps table_rows_def bindings_def split: option.splits)
    then have "dm_key published \<notin> sb_key ` set (bindings db)" using k unfolding keeps_bound_def by blast
    note st = upsert_dataset_stores(1) [OF assms(1) u(1) this]
    have "\<exists>r \<in> set (manifest_rows db1). bound_row ?b r" using st br by blast
    note i = insert_snapshot_keeps [OF keeps_wf [OF k] u(2) this]
    show ?thesis using keeps_bound_trans [OF k i(1)] i(2,3) st br u(3) Inr by auto
  qed
  then show "keeps_bound db db'"
    "r = Inr p \<Longrightarrow> p = published \<and> published \<in> set (manifest_rows db') \<and> (\<exists>b \<in> set (bindings db'). bound_row b published)" by blast+
qed

lemma find_key:
  assumes "distinct (map key rows)" and "r \<in> set rows"
  shows "find (\<lambda>x. key x = key r) rows = Some r"
  using assms by (induction rows) auto

text \<open>What the tables say about a version that is bound.\<close>

lemma bound_lookup:
  assumes "registry_wf db" and "b \<in> set (bindings db)" and "r \<in> set (manifest_rows db)" and "bound_row b r"
  shows "Q Select_snapshot db = None \<Longrightarrow> snapshot_binding Q db (dm_dataset_id r) (dm_version r) = Inr (Some (sb_fastk_root b, sb_digest b))"
    and "Q Select_dataset db = None \<Longrightarrow> validate_all [(''dataset_id'', dm_dataset_id r), (''version'', dm_version r)] = Inr ()
      \<Longrightarrow> get_dataset Q db (dm_dataset_id r) (dm_version r) = Inr (Some r)"
proof -
  obtain t x where t: "db_dataset_manifest db = Some t" "db_dataset_snapshot db = Some x" "set DATASET_COLUMNS \<subseteq> set (tb_columns t)"
    "set SNAPSHOT_COLUMNS \<subseteq> set (tb_columns x)"
    using assms(1) unfolding registry_wf_def by (auto elim: schema_okE)
  have w: "distinct (map dm_key (tb_rows t))" "distinct (map sb_key (tb_rows x))" "b \<in> set (tb_rows x)" "r \<in> set (tb_rows t)"
    using assms(1-3) t by (simp_all add: registry_wf_def manifest_rows_def bindings_def)
  have k: "sb_key b = dm_key r" using assms(4) by (simp add: bound_row_def)
  show "snapshot_binding Q db (dm_dataset_id r) (dm_version r) = Inr (Some (sb_fastk_root b, sb_digest b))" if "Q Select_snapshot db = None"
    using find_key [OF w(2,3)] that t by (simp add: snapshot_binding_def sql_query_def table_rows_def k)
  show "get_dataset Q db (dm_dataset_id r) (dm_version r) = Inr (Some r)"
    if "Q Select_dataset db = None" "validate_all [(''dataset_id'', dm_dataset_id r), (''version'', dm_version r)] = Inr ()"
    using find_key [OF w(1,4)] that t by (simp add: get_dataset_def sql_query_def table_rows_def)
qed

lemma bound_binding:
  assumes "registry_wf db" and "snapshot_binding Q db dataset_id version = Inr (Some (root, digest))"
  obtains b r where "b \<in> set (bindings db)" and "r \<in> set (manifest_rows db)" and "bound_row b r"
    and "dm_key r = (dataset_id, version)" and "sb_fastk_root b = root" and "sb_digest b = digest"
proof -
  obtain x where x: "db_dataset_snapshot db = Some x" using assms(1) unfolding registry_wf_def by (auto elim: schema_okE)
  obtain b where "find (\<lambda>b. sb_key b = (dataset_id, version)) (tb_rows x) = Some b" and b: "sb_fastk_root b = root" "sb_digest b = digest"
    using assms(2) x by (auto simp: snapshot_binding_def sql_query_def table_rows_def res_simps split: option.splits)
  then have f: "sb_key b = (dataset_id, version)" "b \<in> set (bindings db)" using x by (auto simp: find_Some_iff bindings_def)
  then obtain r where r: "r \<in> set (manifest_rows db)" "bound_row b r" using assms(1) unfolding registry_wf_def by blast
  have "dm_key r = (dataset_id, version)" using r(2) f(1) by (simp add: bound_row_def)
  then show thesis by (rule that [OF f(2) r _ b])
qed

text \<open>The outcomes of a successful publication: an earlier one is confirmed, or the root is sealed and bound.\<close>

lemma publish_Inr:
  assumes "publish_dataset depth E S Q record (db, disk) = Some ((db', disk'), Inr published)"
  obtains (again) root digest snapshot where "snapshot_binding Q db (dm_dataset_id record) (dm_version record) = Inr (Some (root, digest))"
      and "root = dm_fastk_root record" and "verify_snapshot depth E S (path_of root) (Some digest) (ms_fs disk) = Some (Inr snapshot)"
      and "get_dataset Q db (dm_dataset_id record) (dm_version record) = Inr (Some published)" and "db' = db" and "disk' = disk"
  | (fresh) snapshot where "seal_snapshot depth E S (path_of (dm_fastk_root record)) disk = Some (disk', Inr snapshot)"
      and "publish_tx Q (record\<lparr>dm_status := ''sealed'', dm_checksum := Some (sn_digest snapshot)\<rparr>) (sn_digest snapshot) db = (db', Inr published)"
proof -
  let ?g = "and_then (dataset_validate record) (\<lambda>_. snapshot_binding Q db (dm_dataset_id record) (dm_version record))"
  note p = assms [unfolded publish_dataset_def prod.case]
  show thesis
  proof (cases ?g)
    case (Inr x)
    have sb: "snapshot_binding Q db (dm_dataset_id record) (dm_version record) = Inr x" using Inr by (auto simp: res_simps)
    show ?thesis
    proof (cases x)
      case None
      obtain disk1 r where d: "seal_snapshot depth E S (path_of (dm_fastk_root record)) disk = Some (disk1, r)"
        using p by (auto simp: Inr None)
      obtain snapshot where "r = Inr snapshot" using p d by (auto simp: Inr None split: sum.splits)
      then show ?thesis using p d by (intro fresh [of snapshot]) (auto simp: Inr None split: prod.splits)
    next
      case (Some y)
      obtain root digest where y: "y = (root, digest)" by fastforce
      obtain v where v: "verify_snapshot depth E S (path_of root) (Some digest) (ms_fs disk) = Some v" "root = dm_fastk_root record"
        using p by (auto simp: Inr Some y split: if_splits)
      have q: "and_then v (\<lambda>_. and_then (get_dataset Q db (dm_dataset_id record) (dm_version record)) (\<lambda>stored.
          ok_or stored (InvalidData ''snapshot catalog row missing''))) = Inr published" "db' = db" "disk' = disk"
        using p by (auto simp: Inr Some y v(2) v(1) [unfolded v(2)])
      obtain snapshot stored where "v = Inr snapshot" "get_dataset Q db (dm_dataset_id record) (dm_version record) = Inr stored"
          "stored = Some published"
        using q(1) by (cases v; cases "get_dataset Q db (dm_dataset_id record) (dm_version record)") (auto simp: res_simps)
      then show ?thesis using sb Some y v q by (intro again [of root digest snapshot]) simp_all
    qed
  qed (use p in simp)
qed

lemma publish_keeps_bound:
  assumes "registry_wf db" and "publish_dataset depth E S Q record (db, disk) = Some ((db', disk'), r)"
  shows "keeps_bound db db'"
proof -
  let ?p = "\<lambda>snapshot. record\<lparr>dm_status := ''sealed'', dm_checksum := Some (sn_digest snapshot)\<rparr>"
  have "keeps_bound db (fst (publish_tx Q (?p snapshot) (sn_digest snapshot) db))" for snapshot
    using publish_tx_keeps(1) [OF assms(1), of Q "?p snapshot" "sn_digest snapshot"] by (cases "publish_tx Q (?p snapshot) (sn_digest snapshot) db") simp
  then have k: "keeps_bound db db1" if "publish_tx Q (?p snapshot) (sn_digest snapshot) db = (db1, x)" for snapshot db1 x
    using that by (metis fst_conv)
  let ?g = "and_then (dataset_validate record) (\<lambda>_. snapshot_binding Q db (dm_dataset_id record) (dm_version record))"
  note p = assms(2) [unfolded publish_dataset_def prod.case] and refl = keeps_bound_refl [OF assms(1)]
  show ?thesis
  proof (cases "?g = Inr None")
    case True
    obtain disk1 x where d: "seal_snapshot depth E S (path_of (dm_fastk_root record)) disk = Some (disk1, x)"
      using p by (auto simp: True)
    show ?thesis
    proof (cases x)
      case (Inr snapshot)
      show ?thesis
        using p k [of snapshot] by (cases "publish_tx Q (?p snapshot) (sn_digest snapshot) db") (simp add: True d Inr)
    qed (use p refl in \<open>simp add: True d\<close>)
  next
    case False
    then have "db' = db" using p by (auto split: sum.splits option.splits if_splits)
    then show ?thesis using refl by simp
  qed
qed

section \<open>Everything the registry does\<close>

inductive registry_step :: "nat \<Rightarrow> Env \<Rightarrow> SnapshotEnv \<Rightarrow> RegistryDb \<Rightarrow> RegistryDb \<Rightarrow> bool" for depth E S where
  init_step: "registry_init Q db = (db', r) \<Longrightarrow> registry_step depth E S db db'"
| dataset_step: "upsert_dataset Q d db = (db', r) \<Longrightarrow> registry_step depth E S db db'"
| feature_step: "upsert_feature Q f db = (db', r) \<Longrightarrow> registry_step depth E S db db'"
| factor_step: "upsert_factor Q a db = (db', r) \<Longrightarrow> registry_step depth E S db db'"
| publish_step: "publish_dataset depth E S Q d (db, disk) = Some ((db', disk'), p) \<Longrightarrow> registry_step depth E S db db'"

lemma registry_step_keeps: "registry_step depth E S db db' \<Longrightarrow> registry_wf db \<Longrightarrow> keeps_bound db db'"
proof (induction rule: registry_step.induct)
  case (init_step Q db db' r)
  then show ?case using registry_init_keeps [of db Q] by simp
next
  case (dataset_step Q d db db' r)
  then show ?case using upsert_dataset_keeps [of db Q d] by simp
next
  case (feature_step Q f db db' r)
  then show ?case using others_keep(1) [of db Q f] by simp
next
  case (factor_step Q a db db' r)
  then show ?case using others_keep(2) [of db Q a] by simp
next
  case (publish_step Q d db disk db' disk' p)
  then show ?case using publish_keeps_bound by blast
qed

lemma registry_steps_keep: "(registry_step depth E S)\<^sup>*\<^sup>* db db' \<Longrightarrow> registry_wf db \<Longrightarrow> keeps_bound db db'"
proof (induction rule: rtranclp_induct)
  case (step y z)
  then show ?case using registry_step_keeps keeps_wf keeps_bound_trans by blast
qed (rule keeps_bound_refl)

lemma get_dataset_Inr:
  "get_dataset Q db dataset_id version = Inr found \<Longrightarrow>
    Q Select_dataset db = None \<and> validate_all [(''dataset_id'', dataset_id), (''version'', version)] = Inr ()"
  by (auto simp: get_dataset_def sql_query_def res_simps split: option.splits)

text \<open>An update of a bound version is accepted only if it changes nothing.\<close>

lemma bound_upsert:
  assumes "registry_wf db" and "b \<in> set (bindings db)" and "r \<in> set (manifest_rows db)" and "bound_row b r"
    and "dm_key record = sb_key b" and "upsert_dataset Q record db = (db', Inr ())"
  shows "record = r" and "db' = db"
proof -
  have k: "dm_key r = dm_key record" using assms(4,5) by (simp add: bound_row_def)
  obtain n where s: "upsert_dataset_sql record db = Inr (db', n)" "n = 0 \<Longrightarrow> get_dataset Q db' (dm_dataset_id record) (dm_version record) = Inr (Some record)"
    using assms(6) by (auto simp: upsert_dataset_def then_do_Inr exec_Inr split: if_splits)
  have n: "n = 0"
  proof -
    obtain t x where t: "db_dataset_manifest db = Some t" "db_dataset_snapshot db = Some x"
      using assms(1) unfolding registry_wf_def by (auto elim: schema_okE)
    have m: "r \<in> set (tb_rows t)" "b \<in> set (tb_rows x)" using assms(2,3) t by (simp_all add: manifest_rows_def bindings_def)
    have "dm_key record \<in> dm_key ` set (tb_rows t)" "dm_key record \<in> sb_key ` set (tb_rows x)"
      by (rule image_eqI [OF _ m(1)], rule k [symmetric], rule image_eqI [OF _ m(2)], rule assms(5))
    then show ?thesis using s(1) t by (auto simp: upsert_dataset_sql_def res_simps table_rows_def split: if_splits)
  qed
  show d: "db' = db" using upsert_sql_keeps(4) [OF assms(1) s(1) n] by simp
  have g: "get_dataset Q db (dm_dataset_id r) (dm_version r) = Inr (Some record)" using s(2) [OF n] k d by simp
  show "record = r" using bound_lookup(2) [OF assms(1-4)] get_dataset_Inr [OF g] g by simp
qed

section \<open>Resolving a published dataset\<close>

lemma verify_pinned:
  assumes "verify_snapshot depth E S root None s = Some (Inr snapshot)"
  shows "verify_snapshot depth E S root (Some (sn_digest snapshot)) s = Some (Inr snapshot)"
  using assms by (auto simp: verify_snapshot_def Let_def res_simps split: sum.splits if_splits)

lemma seal_verified:
  assumes "listing_ok E S" and "snapshot_codec S" and "seal_snapshot depth E S root disk = Some (disk', Inr snapshot)"
    and "readable_root E root (ms_fs disk')"
  shows "verify_snapshot depth E S root (Some (sn_digest snapshot)) (ms_fs disk') = Some (Inr snapshot)"
proof (cases "fs_exists (ms_fs disk) (path_join root SNAPSHOT_FILE_NAME)")
  case True
  then have "disk' = disk" "verify_snapshot depth E S root None (ms_fs disk) = Some (Inr snapshot)"
    using assms(3) by (auto simp: seal_snapshot_def)
  then show ?thesis using verify_pinned by simp
next
  case False
  show ?thesis using sealed_verifies(1) [OF assms(1,2) False assms(3,4)] by simp
qed

lemma snapshot_binding_Inr: "snapshot_binding Q db dataset_id version = Inr found \<Longrightarrow> Q Select_snapshot db = None"
  by (auto simp: snapshot_binding_def sql_query_def split: option.splits)

lemma publish_binds:
  assumes "registry_wf db" and "publish_dataset depth E S Q record (db, disk) = Some ((db', disk'), Inr published)"
    and "listing_ok E S" and "snapshot_codec S" and "readable_root E (path_of (dm_fastk_root record)) (ms_fs disk')"
  obtains b snapshot where "b \<in> set (bindings db')" and "published \<in> set (manifest_rows db')" and "bound_row b published"
    and "dm_key published = dm_key record" and "dm_fastk_root published = dm_fastk_root record"
    and "verify_snapshot depth E S (path_of (dm_fastk_root record)) (Some (sb_digest b)) (ms_fs disk') = Some (Inr snapshot)"
  using assms(2)
proof (cases rule: publish_Inr)
  case (again root digest snapshot)
  obtain b r where b: "b \<in> set (bindings db)" "r \<in> set (manifest_rows db)" "bound_row b r" "dm_key r = dm_key record"
      "sb_fastk_root b = root" "sb_digest b = digest"
    by (rule bound_binding [OF assms(1) again(1)])
  have "get_dataset Q db (dm_dataset_id r) (dm_version r) = Inr (Some r)"
    using bound_lookup(2) [OF assms(1) b(1-3)] get_dataset_Inr [OF again(4)] b(4) by simp
  then have "r = published" using again(4) b(4) by simp
  then show ?thesis using that [of b snapshot] b again by (simp add: bound_row_def)
next
  case (fresh snapshot)
  let ?p = "record\<lparr>dm_status := ''sealed'', dm_checksum := Some (sn_digest snapshot)\<rparr>"
  have p: "published = ?p \<and> ?p \<in> set (manifest_rows db') \<and> (\<exists>b \<in> set (bindings db'). bound_row b ?p)"
    using publish_tx_keeps(2) [OF assms(1) fresh(2)] by simp
  then obtain b where b: "b \<in> set (bindings db')" "bound_row b ?p" by blast
  have "sb_digest b = sn_digest snapshot" using b(2) by (simp add: bound_row_def)
  then show ?thesis using that [OF b(1), of snapshot] p b(2) seal_verified [OF assms(3,4) fresh(1) assms(5)] by simp
qed

lemma resolve_bound:
  assumes "registry_wf db" and "b \<in> set (bindings db)" and "r \<in> set (manifest_rows db)" and "bound_row b r"
    and "dataset_ref depth E S Q db s (dm_dataset_id r) (dm_version r) = Some (Inr found)"
  obtains snapshot where "found = Some (dm_dataset_ref r)"
    and "verify_snapshot depth E S (path_of (dm_fastk_root r)) (Some (sb_digest b)) s = Some (Inr snapshot)"
proof -
  obtain g x where g: "get_dataset Q db (dm_dataset_id r) (dm_version r) = Inr g" "snapshot_binding Q db (dm_dataset_id r) (dm_version r) = Inr x"
    using assms(5) unfolding dataset_ref_def by (auto simp: res_simps split: sum.splits)
  have l: "get_dataset Q db (dm_dataset_id r) (dm_version r) = Inr (Some r)"
      "snapshot_binding Q db (dm_dataset_id r) (dm_version r) = Inr (Some (sb_fastk_root b, sb_digest b))"
    using bound_lookup [OF assms(1-4)] get_dataset_Inr [OF g(1)] snapshot_binding_Inr [OF g(2)] by simp_all
  have f: "sb_fastk_root b = dm_fastk_root r" using assms(4) by (simp add: bound_row_def)
  show thesis using assms(5) that unfolding dataset_ref_def l f by (auto simp: res_simps)
qed

text \<open>The files of the two states that the two verifications look at do not share a hash.\<close>

definition distinct_hashes :: "nat \<Rightarrow> Env \<Rightarrow> SnapshotEnv \<Rightarrow> path \<Rightarrow> fs_state \<Rightarrow> fs_state \<Rightarrow> bool" where
  "distinct_hashes depth E S root s s' \<longleftrightarrow> no_collision S s s'
     \<and> (\<forall>files files'. collect_files depth E S s root = Some (Inr files) \<longrightarrow> collect_files depth E S s' root = Some (Inr files') \<longrightarrow>
          inventory_fixed S files files')"

lemma pinned_bytes:
  assumes "listing_ok E S" and "verify_snapshot depth E S root (Some digest) s = Some (Inr snapshot)"
    and "verify_snapshot depth E S root (Some digest) s' = Some (Inr snapshot')" and "distinct_hashes depth E S root s s'"
  shows "snapshot' = snapshot" and "collect_files depth E S s' root = collect_files depth E S s root"
    and "\<forall>f \<in> set (sn_files snapshot). \<exists>bytes. holds root s (sf_path f) bytes \<and> holds root s' (sf_path f) bytes"
proof -
  have "inventory_fixed S (sn_files snapshot) (sn_files snapshot')" "no_collision S s s'"
    using assms(4) verify_Inr(2) [OF assms(2)] verify_Inr(2) [OF assms(3)] by (auto simp: distinct_hashes_def)
  from same_digest_same_files [OF assms(1-3) this]
  show "snapshot' = snapshot" "collect_files depth E S s' root = collect_files depth E S s root"
    "\<forall>f \<in> set (sn_files snapshot). \<exists>bytes. holds root s (sf_path f) bytes \<and> holds root s' (sf_path f) bytes" .
qed

end
