(* ===== verification/Samples.thy ===== *)
theory Samples
  imports Manifest WriteRead Compaction
begin

text \<open>
  Concrete inputs at which the properties are applied: a small kline, scalar and quote series,
  an empty file system, a calendar in which every timestamp lies in January 2024, and the facts
  that the writers accept these inputs.
\<close>

definition sample_calendar :: calendar where
  "sample_calendar ts = Some (2024, 1, 1, 0)"

definition sample_options :: WriteChunkOptions where
  "sample_options =
     \<lparr>wo_chunk_id = 1, wo_generation = 1, wo_state = Sealed, wo_relative_path = ''chunks/2024-01.kc'',
      wo_sparse_index_every = 2\<rparr>"

definition sample_fixed_options :: WriteFixedChunkOptions where
  "sample_fixed_options =
     \<lparr>wo_chunk_id = 1, wo_generation = 1, wo_state = Sealed, wo_relative_path = ''chunks/2024-01.kc'',
      wo_sparse_index_every = 2, wo_partition_unit = Month\<rparr>"

definition sample_chunk :: ChunkMeta where
  "sample_chunk =
     \<lparr>cm_chunk_id = 1, cm_month_key = ''2024-01'', cm_start_ts = I64 10, cm_end_ts = I64 30, cm_count = 3,
      cm_state = Sealed, cm_layout_version = 2, cm_header_len = 128, cm_sparse_index_every = 2,
      cm_sparse_index_offset = 272, cm_sparse_index_len = 2, cm_chunk_checksum = 77, cm_generation = 1,
      cm_relative_path = ''chunks/2024-01.kc'',
      cm_sidecars = [\<lparr>sc_kind = ''zmap'', sc_relative_path = ''chunks/2024-01.zmap'', sc_generation = 1,
        sc_checksum = 5, sc_block_size = 2, sc_record_count = 3\<rparr>]\<rparr>"

definition sample_series :: SeriesMeta where
  "sample_series =
     \<lparr>sm_symbol = ''BTC'', sm_category = ''kline'', sm_name = ''1m'', sm_timeframe_ms = I64 10,
      sm_record_type = Kline, sm_record_size = 48, sm_schema_id = 1, sm_price_scale = I64 100,
      sm_volume_scale = I64 100, sm_chunk_unit = ''month'', sm_series_id = 42, sm_manifest_seq = 7,
      sm_created_at = I64 1, sm_updated_at = I64 2, sm_flags = 9, sm_active_chunk_id = Some 1,
      sm_chunks = [sample_chunk]\<rparr>"

definition sample_kline :: "u64 \<Rightarrow> KlineRecord" where
  "sample_kline t = \<lparr>k_ts = I64 t, k_open = I64 1, k_high = I64 2, k_low = I64 3, k_close = I64 4, k_volume = I64 5\<rparr>"

definition sample_scalar :: "u64 \<Rightarrow> u64 \<Rightarrow> ScalarRecord" where
  "sample_scalar t v = \<lparr>s_ts = I64 t, s_value = I64 v\<rparr>"

definition sample_bbo :: "u64 \<Rightarrow> BboRecord" where
  "sample_bbo t = \<lparr>b_ts = I64 t, b_recv_ts = I64 t, b_bid_price = I64 1, b_bid_qty = I64 2, b_ask_price = I64 3,
     b_ask_qty = I64 4, b_sequence = I64 5\<rparr>"

definition sample_trade :: "u64 \<Rightarrow> TradeRecord" where
  "sample_trade t = \<lparr>t_ts = I64 t, t_recv_ts = I64 t, t_trade_id = I64 1, t_price = I64 2, t_qty = I64 3,
     t_side = 1, t_flags = 0, t_pad = replicate 6 0\<rparr>"

text \<open>A kernel that transfers one byte at a time and interrupts every other call.\<close>

definition slow_pread :: pread where
  "slow_pread k file n offset = (if odd k then Inl Interrupted else Inr (take (min 1 n) (drop (unat offset) file)))"

definition sample_v1_header :: ChunkHeader where
  "sample_v1_header =
     \<lparr>h_magic = CHUNK_MAGIC, h_version = 1, h_header_size = 88, h_record_size = 48, h_schema_id = 1, h_series_id = 42,
      h_chunk_id = 0, h_generation = 0, h_timeframe_ms = I64 60000, h_start_ts = I64 10, h_end_ts = I64 30, h_count = 3,
      h_flags = 0, h_index_offset = 88, h_index_len = 0, h_sparse_index_every = 0\<rparr>"

definition empty_fs :: fs_state where
  "empty_fs = \<lparr>fs_files = Map.empty, fs_stable = Map.empty, fs_dirs = {}, fs_stable_dirs = {}\<rparr>"

definition sample_dir :: path where
  "sample_dir = \<lparr>has_root = True, comps = [''data'', ''btc'']\<rparr>"

lemma digit_chars:
  "digit_char 0 = CHR ''0''" "digit_char (Suc 0) = CHR ''1''" "digit_char 2 = CHR ''2''" "digit_char 4 = CHR ''4''"
  "digit_char 7 = CHR ''7''"
  by code_simp+

lemma sample_month [simp]: "month_key sample_calendar t = Inr ''2024-01''"
  by (simp add: month_key_def sample_calendar_def fmt_year_def fmt_pad_def fmt_nat.simps digit_chars)

lemma sample_partition [simp]: "partition_key sample_calendar t Month = Inr ''2024-01''"
  by (simp add: partition_key_def sample_calendar_def fmt_year_def fmt_pad_def fmt_nat.simps digit_chars)

lemma sample_new_path:
  "\<exists>trace. atomic_write_new (os_ok 7) (path_join sample_dir ''chunks/2024-01.kc'') (bytes, None) empty_fs = (trace, Inr ())"
proof (rule atomic_write_new_ok)
  let ?d = "\<lparr>has_root = True, comps = [''data'', ''btc'', ''chunks'']\<rparr>"
  have d: "path_join sample_dir ''chunks/2024-01.kc'' = ?d\<lparr>comps := comps ?d @ [''2024-01.kc'']\<rparr>"
    by (simp add: path_join_def components_def sample_dir_def)
  show "path_parent (path_join sample_dir ''chunks/2024-01.kc'') = Some ?d"
    by (simp add: d path_parent_def)
  show "temp_path_for (Some 7) (path_join sample_dir ''chunks/2024-01.kc'')
      = Inr (?d\<lparr>comps := comps ?d @ [''2024-01.kc.7.tmp'']\<rparr>)"
    unfolding d by (simp add: temp_path_for_def path_file_name_def path_with_file_name_def path_join_def components_def
        digit_chars fmt_nat.simps [of 7])
  show "\<not> fs_exists (ensure_dir ?d empty_fs) (path_join sample_dir ''chunks/2024-01.kc'')"
    "\<not> fs_exists (ensure_dir ?d empty_fs) (?d\<lparr>comps := comps ?d @ [''2024-01.kc.7.tmp'']\<rparr>)"
    by (simp_all add: d fs_exists_def ensure_dir_def empty_fs_def upt_rec)
qed

text \<open>The same directory, made and saved before.\<close>

definition durable_fs :: fs_state where
  "durable_fs = (let s = ensure_dir (path_join sample_dir ''chunks'') empty_fs in s\<lparr>fs_stable_dirs := fs_dirs s\<rparr>)"

lemma sample_durable_path:
  "\<exists>trace. atomic_write_new (os_ok 7) (path_join sample_dir ''chunks/2024-01.kc'') (bytes, None) durable_fs = (trace, Inr ())"
  "durable_parents durable_fs (path_join sample_dir ''chunks/2024-01.kc'')"
  "\<not> durable_parents empty_fs (path_join sample_dir ''chunks/2024-01.kc'')"
proof -
  let ?d = "\<lparr>has_root = True, comps = [''data'', ''btc'', ''chunks'']\<rparr>"
  have d: "path_join sample_dir ''chunks/2024-01.kc'' = ?d\<lparr>comps := comps ?d @ [''2024-01.kc'']\<rparr>"
    "path_join sample_dir ''chunks'' = ?d"
    by (simp_all add: path_join_def components_def sample_dir_def)
  show "\<exists>trace. atomic_write_new (os_ok 7) (path_join sample_dir ''chunks/2024-01.kc'') (bytes, None) durable_fs = (trace, Inr ())"
  proof (rule atomic_write_new_ok)
    show "path_parent (path_join sample_dir ''chunks/2024-01.kc'') = Some ?d"
      by (simp add: d path_parent_def)
    show "temp_path_for (Some 7) (path_join sample_dir ''chunks/2024-01.kc'')
        = Inr (?d\<lparr>comps := comps ?d @ [''2024-01.kc.7.tmp'']\<rparr>)"
      unfolding d by (simp add: temp_path_for_def path_file_name_def path_with_file_name_def path_join_def components_def
          digit_chars fmt_nat.simps [of 7])
    show "\<not> fs_exists (ensure_dir ?d durable_fs) (path_join sample_dir ''chunks/2024-01.kc'')"
      "\<not> fs_exists (ensure_dir ?d durable_fs) (?d\<lparr>comps := comps ?d @ [''2024-01.kc.7.tmp'']\<rparr>)"
      by (simp_all add: d fs_exists_def durable_fs_def ensure_dir_def empty_fs_def upt_rec)
  qed
  show "durable_parents durable_fs (path_join sample_dir ''chunks/2024-01.kc'')"
    by (auto simp: d durable_parents_def durable_fs_def ensure_dir_def numeral_2_eq_2 numeral_3_eq_3 less_Suc_eq upt_rec)
  show "\<not> durable_parents empty_fs (path_join sample_dir ''chunks/2024-01.kc'')"
    by (auto simp: d durable_parents_def empty_fs_def)
qed

text \<open>A month with a base chunk and one delta of the same size, listed first.\<close>

definition two_chunk_series :: SeriesMeta where
  "two_chunk_series = sample_series\<lparr>sm_chunks := [sample_chunk\<lparr>cm_start_ts := I64 40, cm_end_ts := I64 60\<rparr>, sample_chunk]\<rparr>"

lemma two_chunk_deltas:
  "month_deltas two_chunk_series ''2024-01'' = {0}"
  "stored_bytes two_chunk_series (sm_chunks two_chunk_series ! 0) = 144"
proof -
  have r: "month_readable two_chunk_series ''2024-01'' = {0, 1}"
    by (auto simp: month_readable_def two_chunk_series_def sample_series_def sample_chunk_def is_readable_def less_Suc_eq)
  have "I64 10 < I64 40" by code_simp
  then show "month_deltas two_chunk_series ''2024-01'' = {0}"
    unfolding month_deltas_def r by (auto simp: two_chunk_series_def sample_chunk_def)
  show "stored_bytes two_chunk_series (sm_chunks two_chunk_series ! 0) = 144"
    by (simp add: stored_bytes_def two_chunk_series_def sample_series_def sample_chunk_def saturating_mul_def)
qed

lemma sample_publish:
  assumes "\<exists>bytes cm. built = Inr (bytes, cm)"
  obtains trace cm where
    "publish (os_ok 7) (path_join sample_dir ''chunks/2024-01.kc'') built empty_fs = (trace, Inr cm)"
  using assms sample_new_path publish_ok by metis

lemma sample_kline_build:
  "\<exists>bytes cm. kline_build sample_calendar sample_series (map sample_kline [10, 20, 30]) sample_options = Inr (bytes, cm)"
proof (rule kline_build_total [where key = "''2024-01''"])
  show "sorted_wrt (<) (map k_ts (map sample_kline [10, 20, 30]))" by code_simp
  show "\<not> is_blank (wo_relative_path sample_options)" by code_simp
qed simp_all

lemma sample_scalar_build:
  "\<exists>bytes cm. scalar_build sample_calendar sample_series (map2 sample_scalar [10, 20, 30] [7, 5, 9]) sample_options
     = Inr (bytes, cm)"
proof (rule scalar_build_total [where key = "''2024-01''"])
  show "sorted_wrt (<) (map s_ts (map2 sample_scalar [10, 20, 30] [7, 5, 9]))" by code_simp
qed simp_all

lemma sample_bbo_build:
  "\<exists>bytes cm. fixed_build bbo_record sample_calendar
     (sample_series\<lparr>sm_record_type := Bbo, sm_schema_id := 11, sm_record_size := 56\<rparr>)
     (map sample_bbo [10, 20, 30]) sample_fixed_options = Inr (bytes, cm)"
proof (rule fixed_build_total [where key = "''2024-01''"])
  show "validate_strict_order bbo_record (map sample_bbo [10, 20, 30]) = Inr ()" by code_simp
  show "\<not> is_blank (wo_relative_path sample_fixed_options)" by code_simp
qed (simp_all add: bbo_record_def bbo_BYTE_SIZE_def BBO_SCHEMA_ID_def sample_series_def sample_fixed_options_def)

lemma sample_trade_build:
  "\<exists>bytes cm. fixed_build trade_record sample_calendar
     (sample_series\<lparr>sm_record_type := Trade, sm_schema_id := 10\<rparr>)
     (map sample_trade [10, 20, 20, 20]) sample_fixed_options = Inr (bytes, cm)"
proof (rule fixed_build_total [where key = "''2024-01''"])
  show "validate_strict_order trade_record (map sample_trade [10, 20, 20, 20]) = Inr ()" by code_simp
  show "\<not> is_blank (wo_relative_path sample_fixed_options)" by code_simp
qed (simp_all add: trade_record_def trade_BYTE_SIZE_def TRADE_SCHEMA_ID_def sample_series_def sample_fixed_options_def)

lemma sample_series_valid: "series_meta_validate sample_series = Inr ()"
  by code_simp

lemma sample_series_fits: "manifest_fits sample_series"
proof -
  have "valid_utf8 (sm_chunk_unit sample_series)" "valid_utf8 (sm_symbol sample_series)"
    "valid_utf8 (sm_category sample_series)" "valid_utf8 (sm_name sample_series)" by code_simp+
  moreover have "valid_utf8 (cm_month_key sample_chunk)" "valid_utf8 (cm_relative_path sample_chunk)"
    "list_all sidecar_fits (cm_sidecars sample_chunk)" by code_simp+
  then have "chunk_fits sample_chunk" by (simp add: chunk_fits_def list_all_iff) (simp add: sample_chunk_def)
  ultimately show ?thesis by (simp add: manifest_fits_def) (simp add: sample_series_def)
qed

lemma sample_series_encodes: "\<exists>bytes. encode_manifest sample_series = Inr bytes"
proof (rule encode_manifest_total [OF sample_series_valid])
  have "list_all (\<lambda>s. length s < 100) (manifest_strings sample_series)" by code_simp
  then show "\<forall>s \<in> set (manifest_strings sample_series). length s < 2 ^ 16" by (auto simp: list_all_iff)
qed

lemma sample_save:
  "\<exists>st'. save_series_meta mtime (os_ok 7) \<lparr>ms_fs = empty_fs, ms_cache = Map.empty\<rparr> sample_dir sample_series = (st', Inr ())"
proof -
  obtain bytes where e: "encode_manifest sample_series = Inr bytes" using sample_series_encodes by blast
  let ?p = "series_meta_path sample_dir"
  have d: "?p = sample_dir\<lparr>comps := comps sample_dir @ [''series.meta'']\<rparr>"
    by (simp add: series_meta_path_def MANIFEST_FILE_def path_join_def components_def)
  have "\<exists>trace. atomic_write_replace (os_ok 7) ?p (bytes, None) empty_fs = (trace, Inr ())"
  proof (rule atomic_write_replace_ok)
    show "path_parent ?p = Some sample_dir" unfolding d by (simp add: path_parent_def sample_dir_def)
    show "temp_path_for (Some 7) ?p = Inr (sample_dir\<lparr>comps := comps sample_dir @ [''series.meta.7.tmp'']\<rparr>)"
      unfolding d by (simp add: temp_path_for_def path_file_name_def path_with_file_name_def path_join_def components_def
          digit_chars fmt_nat.simps [of 7])
    show "?p \<notin> fs_dirs (ensure_dir sample_dir empty_fs)"
      "\<not> fs_exists (ensure_dir sample_dir empty_fs) (sample_dir\<lparr>comps := comps sample_dir @ [''series.meta.7.tmp'']\<rparr>)"
      unfolding d by (simp_all add: fs_exists_def ensure_dir_def empty_fs_def upt_rec sample_dir_def)
  qed
  then obtain trace where w: "atomic_write_replace (os_ok 7) ?p (bytes, None) empty_fs = (trace, Inr ())" by blast
  have "fs_files (last trace) ?p = Some \<lparr>f_data = bytes, f_synced = True\<rparr>"
    using atomic_write_done(1) [OF w [unfolded atomic_write_replace_def]] .
  then show ?thesis using w e by (simp add: save_series_meta_def sample_series_valid Let_def manifest_fingerprint_def)
qed

lemma slow_pread_ok: "pread_ok slow_pread" "pread_live slow_pread"
proof -
  show "pread_ok slow_pread"
    by (auto simp: pread_ok_def slow_pread_def slice_of_def take_drop min_def)
  show "pread_live slow_pread"
    unfolding pread_live_def
  proof (intro allI)
    fix k :: nat
    show "\<exists>j \<ge> k. \<forall>file n offset. slow_pread j file n offset \<noteq> Inl Interrupted"
      by (rule exI [of _ "2 * k"]) (simp add: slow_pread_def)
  qed
qed

end
