(* ===== verification/StoreSamples.thy ===== *)
theory StoreSamples
  imports Samples ScalarAnswers Sequence
begin

text \<open>
  Concrete stores for the properties of the store: one series with one chunk that the chunk writers
  built, its manifest in the store's cache, empty chunk and sidecar caches.
\<close>

definition store_of :: "SeriesMeta \<Rightarrow> (path \<rightharpoonup> u8 list) \<Rightarrow> FastKStore" where
  "store_of meta fs =
     \<lparr>fk_root = \<lparr>has_root = True, comps = [''data'']\<rparr>,
      fk_disk = \<lparr>ms_fs = \<lparr>fs_files = (\<lambda>p. map_option (\<lambda>bytes. \<lparr>f_data = bytes, f_synced = True\<rparr>) (fs p)),
        fs_stable = Map.empty, fs_dirs = {}, fs_stable_dirs = {}\<rparr>, ms_cache = Map.empty\<rparr>,
      fk_manifest_cache = [series_cache_key (sm_symbol meta) (sm_category meta) (sm_name meta) \<mapsto> meta],
      fk_chunk_runtime = runtime_new 4, fk_scalar_sidecars = sidecar_runtime_new,
      fk_compaction_policy = compaction_policy_default, fk_read_only = False, fk_read_pool = Some 4\<rparr>"

lemma store_of_simps [simp]:
  "fk_files (store_of meta fs) = fs" "fk_chunk_runtime (store_of meta fs) = runtime_new 4"
  "fk_scalar_sidecars (store_of meta fs) = sidecar_runtime_new"
  "fk_root (store_of meta fs) = \<lparr>has_root = True, comps = [''data'']\<rparr>"
  by (simp_all add: store_of_def fk_files_def visible_def fun_eq_iff option.map_comp comp_def option.map_ident)

lemma load_store_of:
  "key = series_cache_key (sm_symbol meta) (sm_category meta) (sm_name meta) \<Longrightarrow>
     load_meta E (store_of meta fs) key dir = (store_of meta fs, Inr meta)"
  by (simp add: load_meta_def store_of_def)

lemma one_chunk_readable:
  assumes "chunk_stored R ok fs dir (sm_series_id meta) cm rows" and "p = path_join dir (cm_relative_path cm)"
    and "length rows * BYTE_SIZE R < 2 ^ 64" and "sm_chunks meta = [cm]"
  shows "readable_series R ok (\<lambda>_. p) (store_of meta fs) dir meta (\<lambda>_. rows)"
proof -
  have "rows \<noteq> []" using assms(1) by (simp add: chunk_stored_def)
  then have "cm_start_ts cm \<le> cm_end_ts cm"
    using chunk_stored_span [OF assms(1), of "hd rows"] by (simp add: i64_ord)
  then show ?thesis
    using assms coherent_new by (simp add: readable_series_def series_stored_def series_rows_def spans_ordered_def)
qed

lemma series_rows_single: "sm_chunks meta = [cm] \<Longrightarrow> series_rows (\<lambda>_. rows) meta = rows"
  by (simp add: series_rows_def)

lemma written_meta_path: "cm_relative_path (written_meta options key h every bytes) = wo_relative_path options"
  by (simp add: written_meta_def)

lemma kline_build_path:
  "kline_build utc meta rows options = Inr (bytes, cm) \<Longrightarrow> cm_relative_path cm = wo_relative_path options"
  using kline_build_image(2) written_meta_path by metis

lemma scalar_build_path:
  "scalar_build utc meta rows options = Inr (bytes, cm) \<Longrightarrow> cm_relative_path cm = wo_relative_path options"
  using scalar_build_image(2) written_meta_path by metis

lemma fixed_build_path:
  "fixed_build R utc meta rows options = Inr (bytes, cm) \<Longrightarrow> cm_relative_path cm = wo_relative_path options"
  using fixed_build_image(2) written_meta_path by metis

abbreviation sample_dir_of :: "FastKStore \<Rightarrow> path" where
  "sample_dir_of st \<equiv> kline_series_dir (fk_root st) ''BTC'' ''1m''"

lemma sample_kline_store:
  obtains st meta where_is where "load_kline_meta E st ''BTC'' ''1m'' = (st, Inr meta)"
    and "readable_series kline_record (\<lambda>_. True) where_is st (sample_dir_of st) meta (\<lambda>_. map sample_kline [10, 20, 30])"
    and "series_rows (\<lambda>_. map sample_kline [10, 20, 30]) meta = map sample_kline [10, 20, 30]"
proof -
  obtain bytes cm where b: "kline_build sample_calendar sample_series (map sample_kline [10, 20, 30]) sample_options = Inr (bytes, cm)"
    using sample_kline_build by blast
  let ?dir = "kline_series_dir \<lparr>has_root = True, comps = [''data'']\<rparr> ''BTC'' ''1m''"
  let ?p = "path_join ?dir (wo_relative_path sample_options)" and ?m = "sample_series\<lparr>sm_chunks := [cm]\<rparr>"
  have "chunk_stored kline_record (\<lambda>_. True) [?p \<mapsto> bytes] ?dir (sm_series_id sample_series) cm (map sample_kline [10, 20, 30])"
    by (rule kline_build_stored [OF b]) simp_all
  then have r: "readable_series kline_record (\<lambda>_. True) (\<lambda>_. ?p) (store_of ?m [?p \<mapsto> bytes]) ?dir ?m (\<lambda>_. map sample_kline [10, 20, 30])"
    by (intro one_chunk_readable) (simp_all add: kline_build_path [OF b] kline_BYTE_SIZE_def)
  have l: "load_kline_meta E (store_of ?m [?p \<mapsto> bytes]) ''BTC'' ''1m'' = (store_of ?m [?p \<mapsto> bytes], Inr ?m)"
    unfolding load_kline_meta_def by (rule load_store_of) (simp add: sample_series_def KLINE_CATEGORY_def)
  show thesis by (rule that [OF l, of "\<lambda>_. ?p"]) (use r series_rows_single [of ?m cm] in simp_all)
qed

lemma sample_bbo_store:
  obtains st meta where_is where "load_fixed_meta E st ''BTC'' BBO_CATEGORY ''1m'' = (st, Inr meta)"
    and "readable_series bbo_record (\<lambda>_. True) where_is st (series_dir (fk_root st) ''BTC'' BBO_CATEGORY ''1m'') meta
      (\<lambda>_. map sample_bbo [10, 20, 30])"
    and "series_rows (\<lambda>_. map sample_bbo [10, 20, 30]) meta = map sample_bbo [10, 20, 30]"
proof -
  let ?s = "sample_series\<lparr>sm_record_type := Bbo, sm_schema_id := 11, sm_record_size := 56\<rparr>"
  obtain bytes cm where b: "fixed_build bbo_record sample_calendar ?s (map sample_bbo [10, 20, 30]) sample_fixed_options = Inr (bytes, cm)"
    using sample_bbo_build by blast
  let ?dir = "series_dir \<lparr>has_root = True, comps = [''data'']\<rparr> ''BTC'' BBO_CATEGORY ''1m''"
  let ?p = "path_join ?dir (wo_relative_path sample_fixed_options)" and ?m = "?s\<lparr>sm_category := BBO_CATEGORY, sm_chunks := [cm]\<rparr>"
  have so: "sorted_wrt (<) (map (ts_of bbo_record) (map sample_bbo [10, 20, 30]))" by code_simp
  have "chunk_stored bbo_record (\<lambda>_. True) [?p \<mapsto> bytes] ?dir (sm_series_id ?s) cm (map sample_bbo [10, 20, 30])"
    by (rule bbo.build_stored [OF b _ _ so]) simp_all
  then have r: "readable_series bbo_record (\<lambda>_. True) (\<lambda>_. ?p) (store_of ?m [?p \<mapsto> bytes]) ?dir ?m (\<lambda>_. map sample_bbo [10, 20, 30])"
    by (intro one_chunk_readable) (simp_all add: fixed_build_path [OF b] bbo_record_def bbo_BYTE_SIZE_def)
  have l: "load_fixed_meta E (store_of ?m [?p \<mapsto> bytes]) ''BTC'' BBO_CATEGORY ''1m'' = (store_of ?m [?p \<mapsto> bytes], Inr ?m)"
    unfolding load_fixed_meta_def by (rule load_store_of) (simp add: sample_series_def)
  show thesis by (rule that [OF l, of "\<lambda>_. ?p"]) (use r series_rows_single [of ?m cm] in simp_all)
qed

text \<open>A scalar series with a zone map and a value index beside its chunk.\<close>

definition sample_key :: ScalarSeriesKey where
  "sample_key = \<lparr>key_symbol = ''BTC'', key_category = ''kline'', key_name = ''1m''\<rparr>"

definition sample_sidecar :: "string \<Rightarrow> SidecarMeta" where
  "sample_sidecar kind = \<lparr>sc_kind = kind, sc_relative_path = ''chunks/2024-01.'' @ kind, sc_generation = 1,
     sc_checksum = 0, sc_block_size = 2, sc_record_count = 3\<rparr>"

abbreviation sample_scalars :: "ScalarRecord list" where
  "sample_scalars \<equiv> map2 sample_scalar [10, 20, 30] [7, 5, 9]"

lemma chunk_stored_sidecars:
  assumes "chunk_stored R ok fs dir sid cm rows" and "fs (path_join dir (cm_relative_path cm)) = fs' (path_join dir (cm_relative_path cm))"
  shows "chunk_stored R ok fs' dir sid (cm\<lparr>cm_sidecars := ss\<rparr>) rows"
  using assms by (simp add: chunk_stored_def)

lemma comps_inject: "p\<lparr>comps := a\<rparr> = p\<lparr>comps := b\<rparr> \<longleftrightarrow> a = b"
  by (cases p) simp

lemma sample_sidecar_paths:
  fixes dir :: path
  defines "dir \<equiv> scalar_series_dir \<lparr>has_root = True, comps = [''data'']\<rparr> ''BTC'' ''kline'' ''1m''"
  shows "path_join dir ''chunks/2024-01.kc'' = dir\<lparr>comps := comps dir @ [''chunks'', ''2024-01.kc'']\<rparr>"
    and "resolve_relative_path dir (sc_relative_path (sample_sidecar ''zmap'')) = dir\<lparr>comps := comps dir @ [''chunks'', ''2024-01.zmap'']\<rparr>"
    and "resolve_relative_path dir (sc_relative_path (sample_sidecar ''vix'')) = dir\<lparr>comps := comps dir @ [''chunks'', ''2024-01.vix'']\<rparr>"
    and "path_string (dir\<lparr>comps := comps dir @ [''chunks'', ''2024-01.zmap'']\<rparr>) \<noteq> path_string (dir\<lparr>comps := comps dir @ [''chunks'', ''2024-01.vix'']\<rparr>)"
  unfolding dir_def by code_simp+

lemma sample_scalar_store:
  obtains st meta where_is side_is where "load_scalar_meta E st sample_key = (st, Inr meta)"
    and "queryable_series where_is side_is st (scalar_series_dir (fk_root st) ''BTC'' ''kline'' ''1m'') meta (\<lambda>_. sample_scalars)"
    and "series_rows (\<lambda>_. sample_scalars) meta = sample_scalars"
    and "\<forall>c \<in> set (sm_chunks meta). has_sidecar_kind c ''zmap'' \<and> has_sidecar_kind c ''vix''"
proof -
  obtain bytes cm where b: "scalar_build sample_calendar sample_series sample_scalars sample_options = Inr (bytes, cm)"
    using sample_scalar_build by blast
  let ?dir = "scalar_series_dir \<lparr>has_root = True, comps = [''data'']\<rparr> ''BTC'' ''kline'' ''1m''"
  let ?p = "path_join ?dir ''chunks/2024-01.kc''" and ?c = "cm\<lparr>cm_sidecars := [sample_sidecar ''zmap'', sample_sidecar ''vix'']\<rparr>"
  let ?m = "sample_series\<lparr>sm_chunks := [?c]\<rparr>"
  let ?z = "?dir\<lparr>comps := comps ?dir @ [''chunks'', ''2024-01.zmap'']\<rparr>" and ?v = "?dir\<lparr>comps := comps ?dir @ [''chunks'', ''2024-01.vix'']\<rparr>"
  have "scalar_validate_strict_order sample_scalars = Inr ()" by code_simp
  then obtain zs where z: "zmap_build_entries sample_scalars 2 = Inr zs" by (simp add: zmap_build_entries_def)
  let ?fs = "[?p \<mapsto> bytes, ?z \<mapsto> zmap_encode_entries zs, ?v \<mapsto> vix_encode_entries (vix_build_entries sample_scalars)]"
  let ?side = "\<lambda>k. if sk_relative_path k = path_string ?z then ?z else ?v"
  have q: "cm_relative_path cm = ''chunks/2024-01.kc''" using scalar_build_path [OF b] by (simp add: sample_options_def)
  have ne: "?p \<noteq> ?z" "?p \<noteq> ?v" "?z \<noteq> ?v" unfolding sample_sidecar_paths(1) by (simp_all add: comps_inject)
  have cs: "chunk_stored scalar_record (\<lambda>_. True) [?p \<mapsto> bytes] ?dir (sm_series_id sample_series) cm sample_scalars"
    by (rule scalar_build_stored [OF b]) (simp_all add: sample_options_def)
  have fp: "[?p \<mapsto> bytes] (path_join ?dir (cm_relative_path cm)) = ?fs (path_join ?dir (cm_relative_path cm))"
    unfolding q using ne(1,2) by simp
  have "chunk_stored scalar_record (\<lambda>_. True) ?fs ?dir (sm_series_id ?m) ?c sample_scalars"
    using chunk_stored_sidecars [OF cs, where fs' = ?fs, OF fp] by simp
  then have "readable_series scalar_record (\<lambda>_. True) (\<lambda>_. ?p) (store_of ?m ?fs) ?dir ?m (\<lambda>_. sample_scalars)"
    by (rule one_chunk_readable) (simp_all add: q scalar_BYTE_SIZE_def)
  moreover have "chunk_indexed ?fs ?dir ?c sample_scalars"
    using z ne sample_sidecar_paths(2,3) by (auto simp: chunk_indexed_def Let_def sample_sidecar_def)
  moreover have "load_sidecar_path ?dir ?c kind = Inr p \<Longrightarrow> ?side (sidecar_cache_key ?c kind p) = p" for kind p
    using sample_sidecar_paths(2-4) by (auto simp: load_sidecar_path_def sidecar_cache_key_def sample_sidecar_def split: if_splits)
  moreover have "plain_relative (cm_relative_path ?c)" unfolding q by (simp add: q plain_relative_def)
  ultimately have r: "queryable_series (\<lambda>_. ?p) ?side (store_of ?m ?fs) ?dir ?m (\<lambda>_. sample_scalars)"
    using sidecars_coherent_new by (simp add: queryable_series_def)
  have l: "load_scalar_meta E (store_of ?m ?fs) sample_key = (store_of ?m ?fs, Inr ?m)"
    unfolding load_scalar_meta_def by (rule load_store_of) (simp add: sample_series_def sample_key_def)
  show thesis by (rule that [OF l, of "\<lambda>_. ?p" ?side])
      (use r series_rows_single [of ?m ?c] in \<open>simp_all add: has_sidecar_kind_def sample_sidecar_def\<close>)
qed

text \<open>A planned span over two encoded klines.\<close>

definition sample_span :: ReadSpan where
  "sample_span = \<lparr>rs_file = chunk_file_new (concat (map kline_to_le_bytes (map sample_kline [10, 20]))), rs_offset = 0, rs_rows = 2\<rparr>"

lemma sample_span_reads:
  "length (cf_file (rs_file sample_span)) < 2 ^ 63" "rs_rows sample_span < 2 ^ 64"
  "kline_read_planned sample_span (rs_rows sample_span) = Inr (map sample_kline [10, 20])"
proof -
  let ?f = "concat (map kline_to_le_bytes (map sample_kline [10, 20]))"
  have f: "length ?f = 96" "slice_of 0 96 ?f = ?f" "map kline_from_le_bytes (chunks_exact 48 ?f) = map sample_kline [10, 20]"
    by code_simp+
  show "length (cf_file (rs_file sample_span)) < 2 ^ 63" "rs_rows sample_span < 2 ^ 64"
    using f(1) by (simp_all add: sample_span_def chunk_file_new_def del: list.map concat.simps map_map)
  show "kline_read_planned sample_span (rs_rows sample_span) = Inr (map sample_kline [10, 20])"
    unfolding sample_span_def
    by (simp add: kline_read_planned_def kline_BYTE_SIZE_def checked_mul_def read_at_def f chunk_file_new_def del: list.map concat.simps map_map)
qed

end
