(* ===== verification/WriteSamples.thy ===== *)
theory WriteSamples
  imports StoreSamples PutGet
begin

text \<open>
  Concrete stores for the properties of recovery and of the mutations: an environment in which
  every system call succeeds, a store left by an interrupted mutation, and a series whose manifest is
  lost.
\<close>

definition sample_env :: Env where
  "sample_env =
     \<lparr>e_json = (\<lambda>_. None), e_utc = sample_calendar, e_now = I64 99, e_mtime = (\<lambda>_ _. 0), e_os = (\<lambda>_ _. os_ok 7),
      e_read_dir = (\<lambda>_ _. Inr [(''2024-01.chunk'', False)]), e_try_lock = (\<lambda>_ _. None), e_try_lock_shared = (\<lambda>_ _. None)\<rparr>"

text \<open>A store directory that holds only the marker of an interrupted mutation.\<close>

definition sample_root :: path where "sample_root = \<lparr>has_root = True, comps = [''data'']\<rparr>"

definition marked_disk :: ManifestStore where
  "marked_disk =
     \<lparr>ms_fs = empty_fs\<lparr>fs_files := [recovery_marker_path sample_root \<mapsto> \<lparr>f_data = [], f_synced = True\<rparr>], fs_dirs := {sample_root}\<rparr>,
      ms_cache = Map.empty\<rparr>"

lemma sample_startup:
  "\<exists>disk report. startup_recover_locked 1 sample_env dry sample_root marked_disk = Some (disk, Inr report)"
proof -
  let ?s = "ms_fs marked_disk"
  have ne: "recovery_marker_path sample_root \<noteq> sample_root" "series_root sample_root \<noteq> sample_root"
    "series_root sample_root \<noteq> recovery_marker_path sample_root" "path_parent (recovery_marker_path sample_root) = Some sample_root"
    by code_simp+
  have t: "\<not> is_temp_name ''2024-01.chunk''" by code_simp
  have ex: "fs_exists ?s sample_root" "\<not> fs_exists ?s (series_root sample_root)"
    using ne by (simp_all add: fs_exists_def marked_disk_def)
  have temp: "scan_temp_files 1 sample_env ?s sample_root = Some (Inr [])"
    using ex t by (simp add: scan_temp_files_def sample_env_def)
  have "\<exists>s'. clear_recovery_marker sample_env sample_root ?s = (s', Inr ())"
    using ne by (auto simp: clear_recovery_marker_def clear_recovery_marker_path_def remove_file_def sample_env_def marked_disk_def os_ok_def)
  then show ?thesis
    unfolding startup_recover_locked_def Let_def temp by (auto simp: ex clear_disk_marker_def)
qed

text \<open>A scalar series whose manifest is lost: only its chunk file is left.\<close>

definition lost_dir :: path where "lost_dir = scalar_series_dir sample_root ''BTC'' ''factor'' ''x''"

definition lost_disk :: "u8 list \<Rightarrow> ManifestStore" where
  "lost_disk bytes =
     \<lparr>ms_fs = empty_fs\<lparr>fs_files := [path_join (chunks_dir lost_dir) ''2024-01.chunk'' \<mapsto> \<lparr>f_data = bytes, f_synced = True\<rparr>],
        fs_dirs := {chunks_dir lost_dir}\<rparr>, ms_cache = Map.empty\<rparr>"

abbreviation lost_options :: WriteChunkOptions where
  "lost_options \<equiv> sample_options\<lparr>wo_relative_path := ''chunks/2024-01.chunk''\<rparr>"

lemma lost_names:
  "chunk_relative_path ''2024-01.chunk'' = ''chunks/2024-01.chunk''" "decode_chunk_state ''2024-01.chunk'' = Sealed"
  "resolve_relative_path lost_dir ''chunks/2024-01.chunk'' = path_join (chunks_dir lost_dir) ''2024-01.chunk''"
  "path_file_name lost_dir = Some ''x''" "map_option path_file_name (path_parent lost_dir) = Some (Some ''factor'')"
  "map_option path_file_name (Option.bind (path_parent lost_dir) path_parent) = Some (Some ''BTC'')"
  "series_meta_path lost_dir \<noteq> path_join (chunks_dir lost_dir) ''2024-01.chunk''" "suffix ''.chunk'' ''2024-01.chunk''"
  by code_simp+

lemma lost_scan:
  assumes "scalar_build sample_calendar meta rows lost_options = Inr (bytes, cm)"
  shows "scan_chunk_files sample_env (ms_fs (lost_disk bytes)) lost_dir = Inr [cm\<lparr>cm_state := Sealed\<rparr>]"
proof -
  let ?s = "ms_fs (lost_disk bytes)"
  have e: "e_utc sample_env = sample_calendar" "e_read_dir sample_env s p = Inr [(''2024-01.chunk'', False)]" for s p
    by (simp_all add: sample_env_def)
  have x: "fs_exists ?s (chunks_dir lost_dir)" by (simp add: fs_exists_def lost_disk_def)
  have "scan_chunk_file sample_env ?s lost_dir [] ''2024-01.chunk'' = Inr (cm\<lparr>cm_state := decode_chunk_state ''2024-01.chunk''\<rparr>)"
    by (rule scalar_scan_written [where options = lost_options and meta = meta and rows = rows])
      (use assms in \<open>simp_all add: e lost_disk_def visible_def lost_names\<close>)
  then show ?thesis by (simp add: scan_chunk_files_def scan_sidecar_files_def x e lost_names)
qed

lemma lost_rebuild:
  obtains bytes cm meta where "rebuild_manifest_preview sample_env (lost_disk bytes) lost_dir = Inr meta"
    and "scan_chunk_files sample_env (ms_fs (lost_disk bytes)) lost_dir = Inr [cm]" and "cm_count cm > 0"
    and "cm_state cm = Sealed"
proof -
  obtain bytes cm where b: "scalar_build sample_calendar sample_series sample_scalars lost_options = Inr (bytes, cm)"
  proof -
    have "\<exists>bytes cm. scalar_build sample_calendar sample_series sample_scalars lost_options = Inr (bytes, cm)"
    proof (rule scalar_build_total [where key = "''2024-01''"])
      show "sorted_wrt (<) (map s_ts sample_scalars)" by code_simp
    qed simp_all
    then show thesis using that by blast
  qed
  let ?c = "cm\<lparr>cm_state := Sealed\<rparr>" and ?h = "new_header scalar_record sample_series lost_options sample_scalars"
  note hb = scalar_build_header [OF b]
  have r: "read_file (ms_fs (lost_disk bytes)) (resolve_relative_path lost_dir (cm_relative_path cm)) = Inr bytes"
    using scalar_build_path [OF b] by (simp add: read_file_def lost_disk_def visible_def lost_names)
  have h: "header_read_from bytes = Inr ?h"
    by (rule written_header_valid [OF hb(2)]) (use strict_sorted_imp_sorted [OF hb(1)] in \<open>simp add: scalar_record_def\<close>)
  have rt: "record_type_of_schema (h_schema_id (new_header scalar_record m opts rs)) = Inr Scalar" for m opts rs
    by (simp add: new_header_def Let_def record_type_of_schema_def scalar_record_def SCALAR_SCHEMA_ID_def KLINE_SCHEMA_ID_def)
  have l: "snd (load_disk sample_env (lost_disk bytes) lost_dir True) = Inl (NotFound ''series meta not found'')"
    using lost_names(7) by (simp add: load_disk_def load_series_meta_shared_mode_def Let_def lost_disk_def)
  have n: "dir_name (Some lost_dir) m = Inr ''x''" "dir_name (path_parent lost_dir) m = Inr ''factor''"
    "dir_name (Option.bind (path_parent lost_dir) path_parent) m = Inr ''BTC''" for m
    using lost_names(4-6) by (auto simp: dir_name_def)
  have v: "chunk_meta_validate ?c = Inr ()"
  proof -
    have "cm_start_ts cm = I64 10" "cm_end_ts cm = I64 30"
      by (subst hb(3), simp add: written_meta_def new_header_def Let_def scalar_record_def sample_scalar_def)+
    moreover have "\<not> I64 30 < I64 10" by code_simp
    moreover have "cm_sparse_index_every cm \<noteq> 0" by (subst hb(3)) (simp add: written_meta_def max_one_neq_0)
    moreover have "cm_relative_path cm = ''chunks/2024-01.chunk''" using scalar_build_path [OF b] by simp
    moreover have "\<not> is_blank ''chunks/2024-01.chunk''" by code_simp
    ultimately show ?thesis by (simp add: chunk_meta_validate_def)
  qed
  have "\<exists>meta. build_series_meta_from_chunks sample_env (lost_disk bytes) lost_dir [?c] = Inr meta"
  proof -
    have "\<not> is_blank ''x''" "\<not> is_blank ''factor''" "\<not> is_blank ''BTC''" "partition_unit_from_str ''month'' = Inr Month" by code_simp+
    with v show ?thesis
      by (simp add: build_series_meta_from_chunks_def r h n rt l build_scalar_meta_def build_meta_def series_meta_validate_def)
        (simp add: new_header_def Let_def scalar_record_def scalar_BYTE_SIZE_def is_time_based_def)
  qed
  moreover have "select_non_overlapping_chunks [?c] = Inr [?c]"
    by (simp add: select_non_overlapping_chunks_def overlap_groups_def Let_def)
  ultimately have "\<exists>meta. rebuild_manifest_preview sample_env (lost_disk bytes) lost_dir = Inr meta"
    by (simp add: rebuild_manifest_preview_def lost_scan [OF b])
  moreover have "cm_count ?c > 0" by (simp, subst hb(3), simp add: written_meta_def new_header_def Let_def)
  moreover have "cm_state ?c = Sealed" by simp
  ultimately show thesis using that lost_scan [OF b] by blast
qed

text \<open>The same series with its manifest, as a save leaves it.\<close>

definition kept_disk :: "u8 list \<Rightarrow> u8 list \<Rightarrow> SeriesMeta \<Rightarrow> ManifestStore" where
  "kept_disk bytes manifest meta =
     (let p = series_meta_path lost_dir; disk = lost_disk bytes in
      \<lparr>ms_fs = (ms_fs disk)\<lparr>fs_files := (fs_files (ms_fs disk))(p \<mapsto> \<lparr>f_data = manifest, f_synced = True\<rparr>)\<rparr>,
       ms_cache = [p \<mapsto> \<lparr>cached_fingerprint = \<lparr>fp_len = word_of_nat (length manifest), fp_modified_ns = 0\<rparr>, cached_meta = meta\<rparr>]\<rparr>)"

lemma kept_load: "load_disk sample_env (kept_disk bytes manifest meta) lost_dir False = (kept_disk bytes manifest meta, Inr meta)"
  by (simp add: load_disk_def load_series_meta_shared_mode_def kept_disk_def Let_def fs_exists_def manifest_fingerprint_def sample_env_def)

lemma kept_recover:
  obtains bytes meta cm where "recover_series_dir sample_env False lost_dir (kept_disk bytes [] meta) report = (kept_disk bytes [] meta, Inr report)"
    and "scan_chunk_files sample_env (ms_fs (kept_disk bytes [] meta)) lost_dir = Inr [cm]"
    and "cm_start_ts cm \<le> cm_end_ts cm" and "sm_chunks meta = [cm]"
proof -
  obtain bytes cm where l: "scan_chunk_files sample_env (ms_fs (lost_disk bytes)) lost_dir = Inr [cm]" "cm_count cm > 0" "cm_state cm = Sealed"
    by (rule lost_rebuild)
  let ?m = "sample_series\<lparr>sm_chunks := [cm]\<rparr>"
  have "scan_chunk_files sample_env (ms_fs (kept_disk bytes [] ?m)) lost_dir = scan_chunk_files sample_env (ms_fs (lost_disk bytes)) lost_dir"
    by (simp add: scan_chunk_files_def scan_sidecar_files_def scan_chunk_file_def sample_env_def kept_disk_def
        Let_def fs_exists_def lost_disk_def read_file_def visible_def lost_names lost_names(7) [symmetric])
  with l have sc: "scan_chunk_files sample_env (ms_fs (kept_disk bytes [] ?m)) lost_dir = Inr [cm]" by simp
  have "normalize_dangling_merging_states ?m = (?m, False)"
    using l(3) by (simp add: normalize_dangling_merging_states_def settle_merging_def)
  moreover have "adopt_candidates lost_dir [cm] ([cm], False, report) = ([cm], False, report)"
    by (simp add: adopt_candidates_def adopt_candidate_def)
  ultimately have r: "recover_series_dir sample_env False lost_dir (kept_disk bytes [] ?m) report = (kept_disk bytes [] ?m, Inr report)"
    by (simp add: recover_series_dir_def sc kept_load)
  have "cm_start_ts cm \<le> cm_end_ts cm"
    using scan_chunk_files_facts(2) [OF l(1)] l(2) by (auto simp: sample_env_def)
  from that [OF r sc this] show thesis by simp
qed

end
