(* ===== verification/PutSample.thy ===== *)
theory PutSample
  imports WriteSamples StoreAdmin
begin

text \<open>
  A run of the kline write on a concrete store: a registered series without chunks, three rows, and
  an operating system whose calls succeed. The files and directories of the run are fixed sets, so
  that the temporary names are free at every step.
\<close>

definition within :: "path set \<Rightarrow> path set \<Rightarrow> fs_state \<Rightarrow> bool" where
  "within ps ds s \<longleftrightarrow> dom (fs_files s) \<subseteq> ps \<and> fs_dirs s \<subseteq> ds"

lemma within_not_exists: "within ps ds s \<Longrightarrow> p \<notin> ps \<union> ds \<Longrightarrow> \<not> fs_exists s p"
  by (auto simp: within_def fs_exists_def)

abbreviation above :: "path \<Rightarrow> path set" where
  "above p \<equiv> set (map (\<lambda>n. p\<lparr>comps := take n (comps p)\<rparr>) [0..<Suc (length (comps p))])"

lemma within_ensure_dir: "within ps ds s \<Longrightarrow> above p \<subseteq> ds \<Longrightarrow> within ps ds (ensure_dir p s)"
  by (auto simp: within_def ensure_dir_def)

lemma atomic_write_within:
  assumes "within ps ds s" and "path_parent dest = Some par" and "above par \<subseteq> ds"
    and "atomic_write os dest r write_fn s = (trace, Inr ())"
  shows "within (insert dest ps) ds (last trace)"
proof -
  have f: "fs_files (ensure_dir par s) = fs_files s" by (simp add: ensure_dir_def)
  have "fs_dirs (last trace) = fs_dirs (ensure_dir par s) \<and> (\<forall>p. p \<noteq> dest \<longrightarrow> fs_files (last trace) p \<noteq> None \<longrightarrow> fs_files s p \<noteq> None)"
    using assms(2,4) unfolding atomic_write_def write_and_rename_def
    by (auto simp: Let_def f fs_write_def fs_sync_file_def replace_file_atomically_def sync_parent_dir_def
        split: option.splits sum.splits if_splits prod.splits)
  then show ?thesis using assms(1) within_ensure_dir [OF assms(1,3)] unfolding within_def dom_def by blast
qed

lemma replace_within:
  assumes "within ps ds s" and "path_parent dest = Some par" and "above par \<subseteq> ds"
    and "temp_path_for (Some 7) dest = Inr temp" and "temp \<notin> ps \<union> ds" and "dest \<notin> ds"
  obtains trace where "atomic_write_replace (os_ok 7) dest (bytes, None) s = (trace, Inr ())"
    and "within (insert dest ps) ds (last trace)"
proof -
  have w: "within ps ds (ensure_dir par s)" by (rule within_ensure_dir [OF assms(1,3)])
  then have "\<exists>trace. atomic_write_replace (os_ok 7) dest (bytes, None) s = (trace, Inr ())"
    using assms(5,6) by (intro atomic_write_replace_ok [OF assms(2,4)]) (auto simp: within_def fs_exists_def)
  then show thesis using that atomic_write_within [OF assms(1-3)] unfolding atomic_write_replace_def by blast
qed

lemma new_within:
  assumes "within ps ds s" and "path_parent dest = Some par" and "above par \<subseteq> ds"
    and "temp_path_for (Some 7) dest = Inr temp" and "temp \<notin> ps \<union> ds" and "dest \<notin> ps \<union> ds"
  obtains trace where "atomic_write_new (os_ok 7) dest (bytes, None) s = (trace, Inr ())"
    and "within (insert dest ps) ds (last trace)"
proof -
  have w: "within ps ds (ensure_dir par s)" by (rule within_ensure_dir [OF assms(1,3)])
  then have "\<exists>trace. atomic_write_new (os_ok 7) dest (bytes, None) s = (trace, Inr ())"
    using assms(5,6) by (intro atomic_write_new_ok [OF assms(2,4)]) (auto simp: within_def fs_exists_def)
  then show thesis using that atomic_write_within [OF assms(1-3)] unfolding atomic_write_new_def by blast
qed

section \<open>The store\<close>

abbreviation "put_dir \<equiv> kline_series_dir sample_root ''BTC'' ''1m''"
abbreviation "put_manifest \<equiv> series_meta_path put_dir"
abbreviation "put_marker \<equiv> recovery_marker_path sample_root"
abbreviation "put_lock \<equiv> path_join sample_root LOCK_FILE_NAME"
abbreviation "put_chunk \<equiv> resolve_relative_path put_dir ''chunks/2024-01.chunk''"

definition put_dirs :: "path set" where "put_dirs = above (chunks_dir put_dir)"

definition put_series :: SeriesMeta where
  "put_series = sample_series\<lparr>sm_active_chunk_id := None, sm_chunks := []\<rparr>"

definition put_disk :: "u8 list \<Rightarrow> ManifestStore" where
  "put_disk manifest =
     \<lparr>ms_fs = \<lparr>fs_files = [put_manifest \<mapsto> \<lparr>f_data = manifest, f_synced = True\<rparr>], fs_stable = Map.empty, fs_dirs = put_dirs, fs_stable_dirs = {}\<rparr>,
      ms_cache = Map.empty\<rparr>"

definition put_store :: "u8 list \<Rightarrow> FastKStore" where
  "put_store manifest = fresh_store sample_root (put_disk manifest) False"

lemmas put_store_defs = put_store_def fresh_store_def put_disk_def

lemma put_paths:
  "path_parent put_manifest = Some put_dir" "path_parent put_marker = Some sample_root" "path_parent put_chunk = Some (chunks_dir put_dir)"
  "above put_dir \<subseteq> put_dirs" "above sample_root \<subseteq> put_dirs" "above (chunks_dir put_dir) \<subseteq> put_dirs"
  "{put_manifest, put_marker, put_lock, put_chunk} \<inter> put_dirs = {}"
  "distinct [put_manifest, put_marker, put_lock, put_chunk]"
  "path_join sample_root SNAPSHOT_FILE_NAME \<notin> {put_manifest, put_marker, put_lock, put_chunk} \<union> put_dirs"
  by code_simp+

lemma put_temps:
  "\<exists>t. temp_path_for (Some 7) put_manifest = Inr t \<and> t \<notin> {put_manifest, put_marker, put_lock, put_chunk} \<union> put_dirs"
  "\<exists>t. temp_path_for (Some 7) put_marker = Inr t \<and> t \<notin> {put_manifest, put_marker, put_lock, put_chunk} \<union> put_dirs"
  "\<exists>t. temp_path_for (Some 7) put_chunk = Inr t \<and> t \<notin> {put_manifest, put_marker, put_lock, put_chunk} \<union> put_dirs"
proof -
  have *: "(case r of Inr t \<Rightarrow> t \<notin> A | Inl _ \<Rightarrow> False) \<Longrightarrow> \<exists>t. r = Inr t \<and> t \<notin> A" for r :: "path res" and A by (cases r) auto
  show "\<exists>t. temp_path_for (Some 7) put_manifest = Inr t \<and> t \<notin> {put_manifest, put_marker, put_lock, put_chunk} \<union> put_dirs"
    "\<exists>t. temp_path_for (Some 7) put_marker = Inr t \<and> t \<notin> {put_manifest, put_marker, put_lock, put_chunk} \<union> put_dirs"
    "\<exists>t. temp_path_for (Some 7) put_chunk = Inr t \<and> t \<notin> {put_manifest, put_marker, put_lock, put_chunk} \<union> put_dirs"
    by (rule *, code_simp)+
qed

section \<open>The run\<close>

abbreviation "put_env \<equiv> sample_env"
abbreviation "put_rows \<equiv> map sample_kline [10, 20, 30]"

lemma put_series_valid: "series_meta_validate put_series = Inr ()" "manifest_fits put_series"
  by code_simp (use sample_series_fits in \<open>simp add: put_series_def manifest_fits_def\<close>)

lemma put_series_encodes: "\<exists>bytes. encode_manifest put_series = Inr bytes"
proof (rule encode_manifest_total [OF put_series_valid(1)])
  have "list_all (\<lambda>s. length s < 100) (manifest_strings put_series)" by code_simp
  then show "\<forall>s \<in> set (manifest_strings put_series). length s < 2 ^ 16" by (auto simp: list_all_iff)
qed

lemma env_simps:
  "e_os put_env s p = os_ok 7" "e_utc put_env = sample_calendar" "e_try_lock put_env s p = None"
  by (simp_all add: sample_env_def)

lemma put_begin:
  obtains st1 where "begin_mutation depth put_env (put_store manifest) = Some (st1, Inr ())"
    and "within {put_manifest, put_lock} put_dirs (fs_of st1)" and "fk_files st1 put_manifest = Some manifest"
    and "ms_cache (fk_disk st1) = Map.empty" and "fk_manifest_cache st1 = Map.empty" and "fk_read_only st1 = False"
    and "put_dirs \<subseteq> fs_dirs (fs_of st1)" and "fs_files (fs_of st1) put_lock \<noteq> None"
proof -
  let ?s = "fs_of (put_store manifest)"
  have r: "fk_root (put_store manifest) = sample_root" by (simp add: put_store_defs)
  have f: "fs_files ?s = [put_manifest \<mapsto> \<lparr>f_data = manifest, f_synced = True\<rparr>]" "fs_dirs ?s = put_dirs"
    by (auto simp: put_store_defs)
  let ?s1 = "fs_write put_lock [] (ensure_dir sample_root ?s)"
  have w: "within {put_manifest, put_lock} put_dirs ?s1"
    using within_ensure_dir [of "{put_manifest}" put_dirs ?s sample_root] put_paths(5) f by (auto simp: within_def fs_write_def)
  have ne: "put_lock \<noteq> put_manifest" "put_marker \<notin> {put_manifest, put_lock} \<union> put_dirs"
      "path_join sample_root SNAPSHOT_FILE_NAME \<notin> {put_manifest, put_lock} \<union> put_dirs"
    using put_paths(7,8,9) by auto
  have x: "\<not> fs_exists ?s1 p" if "p \<notin> {put_manifest, put_lock} \<union> put_dirs" for p
    by (rule within_not_exists [OF w that])
  have lock: "write_lock_acquire put_env sample_root ?s = (?s1, Inr ())"
    using x [OF ne(3)] ne(1) by (simp add: write_lock_acquire_def make_dir_def open_or_create_def env_simps os_ok_def f ensure_dir_def)
  let ?st = "(put_store manifest)\<lparr>fk_disk := (fk_disk (put_store manifest))\<lparr>ms_fs := ?s1\<rparr>\<rparr>"
  let ?st1 = "clear_read_caches ?st\<lparr>fk_disk := invalidate_root (fk_disk ?st) sample_root\<rparr>"
  have b: "begin_mutation depth put_env (put_store manifest) = Some (?st1, Inr ())"
    using x [OF ne(2)] lock
    by (simp add: begin_mutation_def acquire_write_ownership_def on_fs_def has_pending_recovery_def r)
      (simp add: put_store_defs)
  show thesis
    by (rule that [OF b]) (use w ne(1) f in \<open>auto simp: clear_read_caches_def invalidate_root_def fk_files_def visible_def fs_write_def
      ensure_dir_def put_store_defs\<close>)
qed

lemma put_load:
  assumes "encode_manifest put_series = Inr manifest" and "fk_files st1 put_manifest = Some manifest"
    and "ms_cache (fk_disk st1) = Map.empty" and "fk_manifest_cache st1 = Map.empty" and "fk_read_only st1 = False" and "fk_root st1 = sample_root"
  obtains st2 where "load_kline_meta put_env st1 ''BTC'' ''1m'' = (st2, Inr put_series)" and "fs_of st2 = fs_of st1"
proof -
  obtain f where f: "fs_files (fs_of st1) put_manifest = Some f" "f_data f = manifest"
    using assms(2) by (auto simp: fk_files_def visible_def)
  have t: "take 8 manifest = MANIFEST_MAGIC" using encode_manifest_eq [OF assms(1)] by simp
  have "\<exists>st2. load_kline_meta put_env st1 ''BTC'' ''1m'' = (st2, Inr put_series) \<and> fs_of st2 = fs_of st1"
    using manifest_roundtrip [OF assms(1) put_series_valid(2)] put_series_valid(1) f t assms(3-6)
    by (simp add: load_kline_meta_def load_meta_def catalog_load_cached_report_def load_series_meta_shared_cached_def catalog_load_report_def
        load_series_meta_shared_mode_def Let_def decode_or_migrate_def manifest_fingerprint_def fs_exists_def)
  then show thesis using that by blast
qed

lemma put_built:
  obtains bytes cm where "kline_build sample_calendar put_series put_rows (put_options put_series ''2024-01'' ''2024-01.chunk'' Sealed) = Inr (bytes, cm)"
    and "chunk_meta_validate cm = Inr ()" and "cm_month_key cm = ''2024-01''" and "cm_relative_path cm = ''chunks/2024-01.chunk''" and "cm_sidecars cm = []"
proof -
  let ?o = "put_options put_series ''2024-01'' ''2024-01.chunk'' Sealed"
  have rp: "wo_relative_path ?o = ''chunks/2024-01.chunk''" by (simp add: lost_names)
  have nb: "\<not> is_blank ''chunks/2024-01.chunk''" by code_simp
  have "\<exists>bytes cm. kline_build sample_calendar put_series put_rows ?o = Inr (bytes, cm)"
  proof (rule kline_build_total [where key = "''2024-01''"])
    show "sorted_wrt (<) (map k_ts put_rows)" by code_simp
    show "\<not> is_blank (wo_relative_path ?o)" using nb rp by metis
  qed simp_all
  then obtain bytes cm where b: "kline_build sample_calendar put_series put_rows ?o = Inr (bytes, cm)" by blast
  note hb = kline_build_header [OF b]
  have "cm_start_ts cm = I64 10" "cm_end_ts cm = I64 30"
    by (subst hb(3), simp add: written_meta_def new_header_def Let_def kline_record_def sample_kline_def)+
  moreover have "\<not> I64 30 < I64 10" by code_simp
  moreover have "cm_sparse_index_every cm \<noteq> 0" "cm_sidecars cm = []" by (subst hb(3), simp add: written_meta_def max_one_neq_0)+
  moreover have "cm_relative_path cm = ''chunks/2024-01.chunk''" using kline_build_path [OF b] rp by simp
  moreover have "cm_month_key cm = ''2024-01''" using hb(4) by simp
  ultimately show thesis using that [OF b] nb by (simp add: chunk_meta_validate_def)
qed

lemma put_run:
  assumes "encode_manifest put_series = Inr manifest"
  obtains st1 st2 st' where "begin_mutation depth put_env (put_store manifest) = Some (st1, Inr ())"
    and "load_kline_meta put_env st1 ''BTC'' ''1m'' = (st2, Inr put_series)" and "fs_exists (fs_of st2) (series_root sample_root)"
    and "fk_root st2 = sample_root" and "put_kline_chunk depth put_env (put_store manifest) ''BTC'' ''1m'' put_rows = Some (st', Inr ())"
    and "within {put_manifest, put_marker, put_chunk, put_lock} put_dirs (fs_of st')" and "fs_files (fs_of st') put_marker = None"
    and "fs_files (fs_of st') put_lock \<noteq> None" and "fk_files st2 put_manifest = Some manifest"
proof -
  let ?st = "put_store manifest"
  obtain st1 where b: "begin_mutation depth put_env ?st = Some (st1, Inr ())" "within {put_manifest, put_lock} put_dirs (fs_of st1)"
    "fk_files st1 put_manifest = Some manifest" "ms_cache (fk_disk st1) = Map.empty" "fk_manifest_cache st1 = Map.empty" "fk_read_only st1 = False"
    "put_dirs \<subseteq> fs_dirs (fs_of st1)" "fs_files (fs_of st1) put_lock \<noteq> None"
    by (rule put_begin)
  have r1: "fk_root st1 = sample_root" "fk_compaction_policy st1 = compaction_policy_default"
    using begin_mutation_fields [OF b(1)] by (simp_all add: put_store_defs)
  obtain st2 where l: "load_kline_meta put_env st1 ''BTC'' ''1m'' = (st2, Inr put_series)" "fs_of st2 = fs_of st1"
    by (rule put_load [OF assms b(3-6) r1(1)])
  have r2: "fk_root st2 = sample_root" "fk_compaction_policy st2 = compaction_policy_default"
    using load_meta_fields [OF l(1) [unfolded load_kline_meta_def]] r1 by simp_all
  obtain st3 where a: "arm put_env st2 = (st3, Inr ())" "within {put_marker, put_manifest, put_lock} put_dirs (fs_of st3)"
    "fs_files (fs_of st3) put_marker \<noteq> None"
  proof -
    have w: "within {put_manifest, put_lock} put_dirs (ensure_dir sample_root (fs_of st2))"
      using within_ensure_dir [OF b(2) put_paths(5)] l(2) by simp
    obtain t where t: "temp_path_for (Some 7) put_marker = Inr t" "t \<notin> {put_manifest, put_marker, put_lock, put_chunk} \<union> put_dirs"
      using put_temps(2) by blast
    let ?bytes = "as_bytes (''dirty_since='' @ fmt_i64 (e_now put_env) @ [char_of (10 :: nat)])"
    obtain trace where tr: "atomic_write_replace (os_ok 7) put_marker (?bytes, None) (ensure_dir sample_root (fs_of st2)) = (trace, Inr ())"
      "within {put_marker, put_manifest, put_lock} put_dirs (last trace)"
      by (rule replace_within [OF w put_paths(2,5) t(1)]) (use t put_paths(7) in auto)
    have "fs_files (last trace) put_marker \<noteq> None" using atomic_write_done(1) [OF tr(1) [unfolded atomic_write_replace_def]] by simp
    with tr show thesis
      by (intro that [of "st2\<lparr>fk_disk := (fk_disk st2)\<lparr>ms_fs := last trace\<rparr>\<rparr>"])
        (simp_all add: arm_def on_fs_def arm_marker_def make_dir_def env_simps r2 os_ok_def)
  qed
  have r3: "fk_root st3 = sample_root" "fk_compaction_policy st3 = compaction_policy_default"
    using disk_step_fields [OF arm_step [OF a(1)]] r2 by simp_all
  let ?o = "put_options put_series ''2024-01'' ''2024-01.chunk'' Sealed"
  obtain bytes cm where bd: "kline_build sample_calendar put_series put_rows ?o = Inr (bytes, cm)" "chunk_meta_validate cm = Inr ()"
    "cm_month_key cm = ''2024-01''" "cm_relative_path cm = ''chunks/2024-01.chunk''" "cm_sidecars cm = []"
    by (rule put_built)
  obtain st4 where w: "write_kline_file put_env st3 put_chunk put_series put_rows ?o = (st4, Inr cm)"
    "within {put_chunk, put_marker, put_manifest, put_lock} put_dirs (fs_of st4)" "fs_files (fs_of st4) put_marker \<noteq> None"
  proof -
    obtain t where t: "temp_path_for (Some 7) put_chunk = Inr t" "t \<notin> {put_manifest, put_marker, put_lock, put_chunk} \<union> put_dirs"
      using put_temps(3) by blast
    obtain trace where tr: "atomic_write_new (os_ok 7) put_chunk (bytes, None) (fs_of st3) = (trace, Inr ())"
      "within {put_chunk, put_marker, put_manifest, put_lock} put_dirs (last trace)"
      by (rule new_within [OF a(2) put_paths(3,6) t(1)]) (use t put_paths(7,8) in auto)
    have "keeps {put_chunk} (fs_of st3) (last trace)" using atomic_write_keeps [OF tr(1) [unfolded atomic_write_new_def]] .
    then have "fs_files (last trace) put_marker \<noteq> None" using a(3) put_paths(8) by (auto simp: keeps_def)
    with tr bd(1) show thesis
      by (intro that [of "st3\<lparr>fk_disk := (fk_disk st3)\<lparr>ms_fs := last trace\<rparr>\<rparr>"])
        (simp_all add: write_kline_file_def on_fs_def last_state_def kline_write_chunk_def publish_def env_simps)
  qed
  have r4: "fk_root st4 = sample_root" "fk_compaction_policy st4 = compaction_policy_default"
    using disk_step_fields [OF write_kline_file_step(1) [OF w(1)]] r3 by simp_all
  let ?m = "fst (upsert_chunk_meta (e_now put_env) put_series cm)"
  have m: "upsert_chunk_meta (e_now put_env) put_series cm = (?m, Inr ())" "series_meta_validate ?m = Inr ()"
  proof -
    show v: "series_meta_validate ?m = Inr ()"
      using put_series_valid(1) bd(2) by (auto simp: upsert_chunk_meta_def Let_def series_meta_validate_def res_simps put_series_def)
    then show "upsert_chunk_meta (e_now put_env) put_series cm = (?m, Inr ())" by (simp add: upsert_chunk_meta_def Let_def)
  qed
  have mm: "sm_symbol ?m = ''BTC''" "sm_name ?m = ''1m''" "cm_state cm = Sealed" 
    using kline_build_header(3) [OF bd(1)] by (simp_all add: upsert_chunk_meta_def Let_def put_series_def sample_series_def) (metis ChunkMeta.select_convs(6) WriteChunkOptions.select_convs(3) written_meta_def)
  obtain st5 where sv: "save_kline_meta put_env st4 ?m = (st5, Inr ())" "fs_files (fs_of st5) put_marker \<noteq> None"
    "within {put_manifest, put_marker, put_chunk, put_lock} put_dirs (fs_of st5)"
  proof -
    have "\<exists>bytes. encode_manifest ?m = Inr bytes"
    proof (rule encode_manifest_total [OF m(2)])
      have "manifest_strings ?m = [''month'', ''BTC'', ''kline'', ''1m'', ''2024-01'', ''chunks/2024-01.chunk'']"
        using bd(3-5) by (simp add: manifest_strings_def upsert_chunk_meta_def Let_def put_series_def sample_series_def)
      then show "\<forall>s \<in> set (manifest_strings ?m). length s < 2 ^ 16" by simp
    qed
    then obtain mb where e: "encode_manifest ?m = Inr mb" by blast
    obtain t where t: "temp_path_for (Some 7) put_manifest = Inr t" "t \<notin> {put_manifest, put_marker, put_lock, put_chunk} \<union> put_dirs"
      using put_temps(1) by blast
    obtain trace where tr: "atomic_write_replace (os_ok 7) put_manifest (mb, None) (fs_of st4) = (trace, Inr ())"
      and wi: "within (insert put_manifest {put_chunk, put_marker, put_manifest, put_lock}) put_dirs (last trace)"
      by (rule replace_within [OF w(2) put_paths(1,4) t(1)]) (use t put_paths(7) in auto)
    have k: "keeps {put_manifest} (fs_of st4) (last trace)" using atomic_write_keeps [OF tr [unfolded atomic_write_replace_def]] .
    have "fs_files (last trace) put_marker \<noteq> None" using k w(3) put_paths(8) by (auto simp: keeps_def)
    moreover have "fs_files (last trace) put_manifest = Some \<lparr>f_data = mb, f_synced = True\<rparr>"
      using atomic_write_done(1) [OF tr [unfolded atomic_write_replace_def]] .
    moreover have "within {put_manifest, put_marker, put_chunk, put_lock} put_dirs (last trace)" using wi by (simp add: insert_commute)
    ultimately have "\<exists>st5. save_kline_meta put_env st4 ?m = (st5, Inr ()) \<and> fs_files (fs_of st5) put_marker \<noteq> None
        \<and> within {put_manifest, put_marker, put_chunk, put_lock} put_dirs (fs_of st5)"
      using tr e m(2) mm by (simp add: save_kline_meta_def catalog_save_def save_disk_def save_series_meta_def env_simps r4 Let_def manifest_fingerprint_def)
    then show thesis using that by blast
  qed
  have r5: "fk_root st5 = sample_root" "fk_compaction_policy st5 = compaction_policy_default"
    using disk_step_fields [OF catalog_save_step(1) [OF sv(1) [unfolded save_kline_meta_def]]] r4 by simp_all
  obtain st' where c: "commit put_env (store_series_in_cache st5 ?m) = (st', Inr ())"
    using sv(2) put_paths(2) by (auto simp: commit_def on_fs_def clear_recovery_marker_def clear_recovery_marker_path_def remove_file_def
        store_series_in_cache_def r5 env_simps os_ok_def)
  have c': "within {put_manifest, put_marker, put_chunk, put_lock} put_dirs (fs_of st')" "fs_files (fs_of st') put_marker = None"
  proof -
    have d: "fs_files (fs_of st') = (fs_files (fs_of st5))(put_marker := None) \<and> fs_dirs (fs_of st') = fs_dirs (fs_of st5)"
      using c sv(2) put_paths(2) by (auto simp: commit_def on_fs_def clear_recovery_marker_def clear_recovery_marker_path_def remove_file_def
          store_series_in_cache_def r5 env_simps os_ok_def fs_remove_def sync_parent_dir_def)
    then show "fs_files (fs_of st') put_marker = None" by simp
    show "within {put_manifest, put_marker, put_chunk, put_lock} put_dirs (fs_of st')"
      using sv(3) unfolding within_def conjunct1 [OF d] conjunct2 [OF d] by auto
  qed
  have lock: "fs_files (fs_of st') put_lock \<noteq> None"
  proof -
    have k: "keeps {put_marker} (fs_of st2) (fs_of st3)" "keeps {put_chunk} (fs_of st3) (fs_of st4)"
      "keeps {put_manifest} (fs_of st4) (fs_of st5)" "keeps {put_marker} (fs_of st5) (fs_of st')"
      using disk_step_fields(6) [OF arm_step [OF a(1)]] disk_step_fields(6) [OF write_kline_file_step(1) [OF w(1)]]
        disk_step_fields(6) [OF catalog_save_step(1) [OF sv(1) [unfolded save_kline_meta_def]]] disk_step_fields(6) [OF commit_step [OF c]]
      by (simp_all add: r2 r4 r5 mm store_series_in_cache_def)
    have "keeps ({put_marker} \<union> {put_chunk} \<union> ({put_manifest} \<union> {put_marker})) (fs_of st2) (fs_of st')"
      by (rule keeps_trans [OF keeps_trans [OF k(1,2)] keeps_trans [OF k(3,4)]])
    then show ?thesis using b(8) l(2) put_paths(8) by (auto simp: keeps_def)
  qed
  have "put_kline_finish put_env st4 ''BTC'' ''1m'' ''2024-01'' ?m = (st', Inr ())"
    using c by (simp add: put_kline_finish_def sv(1) Let_def split: option.splits) (simp add: store_series_in_cache_def r5 compaction_policy_default_def)
  then have "put_kline_publish put_env st2 ''BTC'' ''1m'' ''2024-01'' put_series put_rows ''2024-01.chunk'' Sealed = (st', Inr ())"
    using w(1) mm(3) by (simp add: put_kline_publish_def a(1) r2 lost_names Let_def) (subst m(1), simp)
  moreover have "put_kline_target put_env put_series ''2024-01'' (sample_kline 10) = Inr (''2024-01.chunk'', Sealed)"
    by (simp add: put_kline_target_def month_chunks_def chunk_indices_for_month_def chunk_indices_for_partition_def put_series_def month_chunk_file_name_def env_simps Let_def partition_chunk_file_name_def)
  ultimately have "put_kline_chunk_locked put_env st1 ''BTC'' ''1m'' put_rows = (st', Inr ())"
    by (simp add: put_kline_chunk_locked_def l(1) env_simps)
  moreover have "validate_month_records kline_record put_env put_rows = Inr ()"
  proof -
    have "validate_strict_order kline_record put_rows = Inr ()" by code_simp
    then show ?thesis by (simp add: validate_month_records_def env_simps)
  qed
  ultimately have "put_kline_chunk depth put_env ?st ''BTC'' ''1m'' put_rows = Some (st', Inr ())"
    by (simp add: put_kline_chunk_def with_lock_def b(1))
  moreover have "fs_exists (fs_of st2) (series_root sample_root)"
  proof -
    have "series_root sample_root \<in> put_dirs" by code_simp
    then show ?thesis using b(7) l(2) by (auto simp: fs_exists_def)
  qed
  ultimately show thesis using that [OF b(1) l(1)] r2(1) c' lock b(3) l(2) by (simp add: fk_files_def)
qed

end
