(* ===== verification/SealSample.thy ===== *)
theory SealSample
  imports Published PutSample
begin

text \<open>
  A run of sealing and publishing: the store of one registered series without chunks, an operating
  system whose calls succeed, and listings computed from the state.
\<close>

definition seal_names :: "string list" where
  "seal_names = [''series'', ''BTC'', ''kline'', ''1m'', ''chunks'', ''series.meta'']"

definition seal_listing :: "fs_state \<Rightarrow> path \<Rightarrow> (string \<times> bool) list res" where
  "seal_listing s d = Inr (map (\<lambda>n. (n, path_join d n \<in> fs_dirs s)) (filter (\<lambda>n. fs_exists s (path_join d n)) seal_names))"

definition seal_env :: Env where
  "seal_env = sample_env\<lparr>e_read_dir := seal_listing\<rparr>"

text \<open>A codec that knows one manifest, and the bytes of a file as their own hash.\<close>

definition seal_snap :: "SnapshotManifest \<Rightarrow> SnapshotEnv" where
  "seal_snap m =
     \<lparr>se_sha256 = string_of_bytes, se_files_json = (\<lambda>files. Inr (concat (map (\<lambda>f. as_bytes (sf_path f @ sf_sha256 f)) files))),
      se_to_json = (\<lambda>x. if x = m then Inr [7] else Inl (Serde ''unknown'')),
      se_from_json = (\<lambda>bytes. if bytes = [7] then Inr m else Inl (Serde ''unknown'')),
      se_file_type = (\<lambda>s p. if p \<in> fs_dirs s then Inr Directory else if fs_files s p \<noteq> None then Inr Regular else Inl (Io NotFoundKind))\<rparr>"

lemma seal_name_below: "n \<in> set seal_names \<Longrightarrow> path_starts_with (path_join d n) d"
proof -
  assume n: "n \<in> set seal_names"
  have "list_all (\<lambda>n. take 1 n \<noteq> ''/'' \<and> components n = [n]) seal_names" by code_simp
  then have "take 1 n \<noteq> ''/''" "components n = [n]" using n by (simp_all add: list_all_iff)
  then show ?thesis by (simp add: plain_join path_starts_with_def)
qed

lemma seal_listing_ok: "listing_ok seal_env (seal_snap m)"
proof -
  have "seal_listing s d = seal_listing s' d" if "same_below d s s'" for s s' d
  proof -
    have x: "fs_exists s (path_join d n) = fs_exists s' (path_join d n)" "path_join d n \<in> fs_dirs s \<longleftrightarrow> path_join d n \<in> fs_dirs s'"
      if "n \<in> set seal_names" for n
      using seal_name_below [OF that, of d] \<open>same_below d s s'\<close> by (auto simp: same_below_def fs_exists_def)
    have e: "filter (\<lambda>n. fs_exists s (path_join d n)) seal_names = filter (\<lambda>n. fs_exists s' (path_join d n)) seal_names"
      by (rule filter_cong) (simp_all add: x)
    show ?thesis unfolding seal_listing_def e by (auto simp: x)
  qed
  moreover have "se_file_type (seal_snap m) s d = se_file_type (seal_snap m) s' d" if "same_below d s s'" for s s' d
    using that by (simp add: seal_snap_def same_below_def)
  moreover have "path_starts_with (path_join d n) d" if "seal_listing s d = Inr entries" "(n, k) \<in> set entries" for s d entries n k
    using that seal_name_below by (auto simp: seal_listing_def)
  ultimately show ?thesis unfolding listing_ok_def by (auto simp: seal_env_def)
qed

lemma seal_codec: "snapshot_codec (seal_snap m)"
  by (simp add: snapshot_codec_def seal_snap_def)

section \<open>Its directories\<close>

definition sd1 :: path where "sd1 = path_join sample_root ''series''"
definition sd2 :: path where "sd2 = path_join sd1 ''BTC''"
definition sd3 :: path where "sd3 = path_join sd2 ''kline''"
definition sd4 :: path where "sd4 = path_join sd3 ''1m''"
definition sd5 :: path where "sd5 = path_join sd4 ''chunks''"
definition smeta :: path where "smeta = path_join sd4 ''series.meta''"
definition slock :: path where "slock = path_join sample_root LOCK_FILE_NAME"

lemmas sd_joins = sd1_def [symmetric] sd2_def [symmetric] sd3_def [symmetric] sd4_def [symmetric] sd5_def [symmetric] smeta_def [symmetric]

definition seal_state :: "u8 list \<Rightarrow> fs_state \<Rightarrow> bool" where
  "seal_state manifest s \<longleftrightarrow> fs_dirs s = put_dirs \<and> dom (fs_files s) = {smeta, slock} \<and> visible s smeta = Some manifest"

lemma seal_names_at:
  "filter (\<lambda>n. path_join sample_root n \<in> {smeta, slock} \<union> put_dirs) seal_names = [''series'']"
  "filter (\<lambda>n. path_join sd1 n \<in> {smeta, slock} \<union> put_dirs) seal_names = [''BTC'']"
  "filter (\<lambda>n. path_join sd2 n \<in> {smeta, slock} \<union> put_dirs) seal_names = [''kline'']"
  "filter (\<lambda>n. path_join sd3 n \<in> {smeta, slock} \<union> put_dirs) seal_names = [''1m'']"
  "filter (\<lambda>n. path_join sd4 n \<in> {smeta, slock} \<union> put_dirs) seal_names = [''chunks'', ''series.meta'']"
  "filter (\<lambda>n. path_join sd5 n \<in> {smeta, slock} \<union> put_dirs) seal_names = []"
  by code_simp+

lemma sd_dirs:
  "sample_root \<in> put_dirs" "sd1 \<in> put_dirs" "sd2 \<in> put_dirs" "sd3 \<in> put_dirs" "sd4 \<in> put_dirs" "sd5 \<in> put_dirs" "smeta \<notin> put_dirs"
  "path_join sd1 ''chunks'' \<notin> put_dirs" "path_join sd2 ''chunks'' \<notin> put_dirs" "path_join sd3 ''chunks'' \<notin> put_dirs"
  "path_join sd1 ''series.meta'' \<notin> {smeta, slock}" "path_join sd2 ''series.meta'' \<notin> {smeta, slock}" "path_join sd3 ''series.meta'' \<notin> {smeta, slock}"
  "recovery_marker_path sample_root \<notin> {smeta, slock} \<union> put_dirs" "\<not> is_temp_name ''series.meta''"
  "series_root sample_root = sd1" "chunks_dir sd4 = sd5" "series_meta_path sd4 = smeta"
  by code_simp+

lemma seal_state_exists: "seal_state manifest s \<Longrightarrow> fs_exists s p \<longleftrightarrow> p \<in> {smeta, slock} \<union> put_dirs"
  unfolding seal_state_def fs_exists_def by blast

lemma seal_lists:
  assumes "seal_state manifest s"
  shows "e_read_dir seal_env s sample_root = Inr [(''series'', True)]" "e_read_dir seal_env s sd1 = Inr [(''BTC'', True)]"
    "e_read_dir seal_env s sd2 = Inr [(''kline'', True)]" "e_read_dir seal_env s sd3 = Inr [(''1m'', True)]"
    "e_read_dir seal_env s sd4 = Inr [(''chunks'', True), (''series.meta'', False)]" "e_read_dir seal_env s sd5 = Inr []"
proof -
  have d: "fs_dirs s = put_dirs" using assms by (simp add: seal_state_def)
  have l: "e_read_dir seal_env s p = Inr (map (\<lambda>n. (n, path_join p n \<in> put_dirs)) (filter (\<lambda>n. path_join p n \<in> {smeta, slock} \<union> put_dirs) seal_names))" for p
    by (simp add: seal_env_def seal_listing_def d seal_state_exists [OF assms])
  show "e_read_dir seal_env s sample_root = Inr [(''series'', True)]" "e_read_dir seal_env s sd1 = Inr [(''BTC'', True)]"
    "e_read_dir seal_env s sd2 = Inr [(''kline'', True)]" "e_read_dir seal_env s sd3 = Inr [(''1m'', True)]"
    "e_read_dir seal_env s sd4 = Inr [(''chunks'', True), (''series.meta'', False)]" "e_read_dir seal_env s sd5 = Inr []"
    unfolding l seal_names_at by (simp_all add: sd_joins sd_dirs)
qed

lemma seal_files:
  assumes "seal_state manifest s"
  shows "fs_files s (path_join sd1 ''series.meta'') = None" "fs_files s (path_join sd2 ''series.meta'') = None"
    "fs_files s (path_join sd3 ''series.meta'') = None" "fs_files s smeta \<noteq> None" "fs_dirs s = put_dirs"
  using assms sd_dirs(11-13) unfolding seal_state_def by blast+

abbreviation seal_depth :: nat where
  "seal_depth \<equiv> Suc (Suc (Suc (Suc (Suc (Suc (Suc 0))))))"

lemma seal_walks:
  assumes "seal_state manifest s"
  shows "scan_temp_files seal_depth seal_env s sample_root = Some (Inr [])"
    and "discover_series_dirs seal_depth seal_env s sd1 = Some (Inr [sd4])"
    and "scan_chunk_files seal_env s sd4 = Inr []" and "scan_sidecar_files seal_env s sd4 = Inr []"
proof -
  note f = seal_lists [OF assms] seal_files [OF assms] seal_state_exists [OF assms] sd_dirs sd_joins
  show "scan_temp_files seal_depth seal_env s sample_root = Some (Inr [])"
    by (simp add: scan_temp_files_def f)
  show "discover_series_dirs seal_depth seal_env s sd1 = Some (Inr [sd4])"
    by (simp add: discover_series_dirs_def CHUNKS_DIR_def MANIFEST_FILE_def f)
  show "scan_sidecar_files seal_env s sd4 = Inr []" by (simp add: scan_sidecar_files_def f)
  then show "scan_chunk_files seal_env s sd4 = Inr []" by (simp add: scan_chunk_files_def f)
qed

definition seal_file :: "u8 list \<Rightarrow> SnapshotFile" where
  "seal_file manifest = \<lparr>sf_path = ''series/BTC/kline/1m/series.meta'', sf_bytes = word_of_nat (length manifest), sf_sha256 = string_of_bytes manifest\<rparr>"

lemma seal_collect:
  assumes "seal_state manifest s"
  shows "collect_files seal_depth seal_env (seal_snap m) s sample_root = Some (Inr [seal_file manifest])"
proof -
  note f = seal_lists [OF assms] seal_files [OF assms] sd_dirs sd_joins
  have p: "snapshot_path sample_root smeta = Inr ''series/BTC/kline/1m/series.meta''" by code_simp
  have "snapshot_file (seal_snap m) s sample_root smeta = Inr (seal_file manifest)"
    using assms by (simp add: snapshot_file_def read_file_def seal_state_def p seal_file_def seal_snap_def)
  moreover have "se_file_type (seal_snap m) s p = (if p \<in> put_dirs then Inr Directory else if fs_files s p \<noteq> None then Inr Regular else Inl (Io NotFoundKind))" for p
    by (simp add: seal_snap_def f)
  ultimately show ?thesis by (simp add: collect_files_def f)
qed

section \<open>The run\<close>

definition seal_manifest :: "u8 list \<Rightarrow> SnapshotManifest" where
  "seal_manifest manifest =
     (let f = seal_file manifest in
      \<lparr>sn_format_version = 1, sn_digest = string_of_bytes (as_bytes (sf_path f @ sf_sha256 f)), sn_files = [f]\<rparr>)"

abbreviation "seal_snapshots manifest \<equiv> seal_snap (seal_manifest manifest)"

lemma seal_env_simps:
  "e_os seal_env s p = os_ok 7" "e_try_lock seal_env s p = None" "e_try_lock_shared seal_env s p = None" "e_json seal_env = (\<lambda>_. None)"
  by (simp_all add: seal_env_def sample_env_def)

lemma seal_lock:
  obtains s where "write_lock_acquire seal_env sample_root (ms_fs (put_disk manifest)) = (s, Inr ())" and "seal_state manifest s"
proof -
  let ?s = "ms_fs (put_disk manifest)"
  let ?s1 = "fs_write slock [] (ensure_dir sample_root ?s)"
  have ne: "put_manifest = smeta" "slock \<noteq> smeta" "path_join sample_root SNAPSHOT_FILE_NAME \<notin> {smeta, slock} \<union> put_dirs" by code_simp+
  have st: "seal_state manifest ?s1"
    using put_paths(5) ne by (auto simp: seal_state_def fs_write_def ensure_dir_def put_disk_def visible_def)
  have "write_lock_acquire seal_env sample_root ?s = (?s1, Inr ())"
    using ne seal_state_exists [OF st, of "path_join sample_root SNAPSHOT_FILE_NAME"]
    by (simp add: write_lock_acquire_def make_dir_def open_or_create_def seal_env_simps os_ok_def slock_def [symmetric])
      (simp add: put_disk_def ensure_dir_def)
  then show thesis using that st by blast
qed

lemma seal_load:
  assumes "encode_manifest put_series = Inr manifest" and "seal_state manifest (ms_fs disk)"
  shows "load_disk seal_env disk sd4 True = (disk, Inr put_series)"
proof -
  obtain f where f: "fs_files (ms_fs disk) smeta = Some f" "f_data f = manifest"
    using assms(2) by (auto simp: seal_state_def visible_def)
  have t: "take 8 manifest = MANIFEST_MAGIC" using encode_manifest_eq [OF assms(1)] by simp
  have "snd (load_disk seal_env disk sd4 True) = Inr put_series"
    using manifest_roundtrip [OF assms(1) put_series_valid(2)] put_series_valid(1) f t
    by (simp add: load_disk_def load_series_meta_shared_mode_def Let_def decode_or_migrate_def sd_dirs)
  then show ?thesis using load_disk_read_only [of seal_env disk sd4] by simp
qed

lemma seal_recovers:
  assumes "seal_state manifest (ms_fs disk)"
  obtains report where "startup_recover_locked seal_depth seal_env False sample_root disk = Some (disk, Inr report)"
proof -
  note w = seal_walks [OF assms] and x = seal_state_exists [OF assms]
  have "fs_files (ms_fs disk) (recovery_marker_path sample_root) = None" "recovery_marker_path sample_root \<notin> fs_dirs (ms_fs disk)"
    using x [of "recovery_marker_path sample_root"] sd_dirs(14) by (auto simp: fs_exists_def)
  then have c: "clear_recovery_marker seal_env sample_root (ms_fs disk) = (ms_fs disk, Inr ())"
    by (simp add: clear_recovery_marker_def clear_recovery_marker_path_def remove_file_def)
  show thesis
    by (rule that) (simp add: startup_recover_locked_def Let_def w x sd_dirs recover_series_dir_def clear_disk_marker_def c)
qed

lemma seal_scrubs:
  assumes "encode_manifest put_series = Inr manifest" and "seal_state manifest (ms_fs disk)"
  obtains report where "scrub_store seal_depth seal_env disk sample_root snapshot_options = Some (Inr [report])"
    and "validation_is_clean (sr_validation report)"
proof -
  note w = seal_walks [OF assms(2)] and x = seal_state_exists [OF assms(2)]
  have "\<exists>v. validate_series_dir seal_env disk sd4 snapshot_options = Inr v \<and> validation_is_clean v"
    by (simp add: validate_series_dir_def Let_def w x sd_dirs seal_load [OF assms] put_series_def validation_is_clean_def
        overlap_groups_as_strings_def overlap_groups_def)
  then obtain v where v: "validate_series_dir seal_env disk sd4 snapshot_options = Inr v" "validation_is_clean v" by blast
  have "\<exists>report. scrub_store seal_depth seal_env disk sample_root snapshot_options = Some (Inr [report]) \<and> validation_is_clean (sr_validation report)"
    by (simp add: scrub_store_def series_dirs_of_def scrub_series_def v w x sd_dirs Let_def)
  then show thesis using that by blast
qed

lemma seal_writes:
  assumes "seal_state manifest (ms_fs disk)"
  obtains disk' where "write_snapshot seal_env (seal_snapshots manifest) sample_root [seal_file manifest] disk = (disk', Inr (seal_manifest manifest))"
    and "readable_root seal_env sample_root (ms_fs disk')"
proof -
  let ?d = "path_join sample_root SNAPSHOT_FILE_NAME" and ?fs = "{smeta, slock}"
  have ne: "?d \<notin> ?fs \<union> put_dirs" "path_parent ?d = Some sample_root" "recovery_marker_path sample_root \<notin> insert ?d ?fs \<union> put_dirs" by code_simp+
  have "case temp_path_for (Some 7) ?d of Inr t \<Rightarrow> t \<notin> ?fs \<union> put_dirs | Inl _ \<Rightarrow> False" by code_simp
  then obtain t where t: "temp_path_for (Some 7) ?d = Inr t" "t \<notin> ?fs \<union> put_dirs" by (auto split: sum.splits)
  have w: "within ?fs put_dirs (ms_fs disk)" using assms by (auto simp: within_def seal_state_def)
  obtain trace where tr: "atomic_write_new (os_ok 7) ?d ([7], None) (ms_fs disk) = (trace, Inr ())" "within (insert ?d ?fs) put_dirs (last trace)"
    by (rule new_within [OF w ne(2) put_paths(5) t(1,2) ne(1)])
  let ?disk = "disk\<lparr>ms_fs := last trace\<rparr>"
  have g: "files_digest (seal_snapshots manifest) [seal_file manifest] = Inr (sn_digest (seal_manifest manifest))"
    by (simp add: files_digest_def seal_snap_def seal_manifest_def Let_def)
  have m: "\<lparr>sn_format_version = 1, sn_digest = sn_digest (seal_manifest manifest), sn_files = [seal_file manifest]\<rparr> = seal_manifest manifest"
    by (simp add: seal_manifest_def Let_def)
  have j: "se_to_json (seal_snapshots manifest) (seal_manifest manifest) = Inr [7]" by (simp add: seal_snap_def)
  have "write_snapshot seal_env (seal_snapshots manifest) sample_root [seal_file manifest] disk = (?disk, Inr (seal_manifest manifest))"
    by (simp add: write_snapshot_def g m j seal_env_simps tr(1))
  moreover have "readable_root seal_env sample_root (last trace)"
  proof -
    have "keeps {?d} (ms_fs disk) (last trace)" by (rule atomic_write_keeps [OF tr(1) [unfolded atomic_write_new_def]])
    moreover have "slock \<in> dom (fs_files (ms_fs disk))" "slock \<noteq> ?d" using assms ne(1) by (auto simp: seal_state_def)
    ultimately have "fs_exists (last trace) slock" by (auto simp: keeps_def fs_exists_def)
    moreover have "\<not> has_pending_recovery (last trace) sample_root"
      using within_not_exists [OF tr(2) ne(3)] by (simp add: has_pending_recovery_def)
    ultimately show ?thesis
      by (simp add: readable_root_def read_lock_acquire_def open_existing_def seal_env_simps os_ok_def slock_def)
  qed
  ultimately show thesis using that [of ?disk] by simp
qed

lemma seal_run:
  assumes "encode_manifest put_series = Inr manifest"
  obtains disk' where "seal_snapshot seal_depth seal_env (seal_snapshots manifest) sample_root (put_disk manifest) = Some (disk', Inr (seal_manifest manifest))"
    and "readable_root seal_env sample_root (ms_fs disk')" and "\<not> fs_exists (ms_fs (put_disk manifest)) (path_join sample_root SNAPSHOT_FILE_NAME)"
    and "binary_manifest (ms_fs disk') put_dir"
proof -
  let ?disk = "put_disk manifest"
  have "path_join sample_root SNAPSHOT_FILE_NAME \<notin> {put_manifest} \<union> put_dirs" by code_simp
  then have x: "\<not> fs_exists (ms_fs ?disk) (path_join sample_root SNAPSHOT_FILE_NAME)" by (simp add: fs_exists_def put_disk_def)
  obtain s where l: "write_lock_acquire seal_env sample_root (ms_fs ?disk) = (s, Inr ())" "seal_state manifest s" by (rule seal_lock)
  let ?d = "invalidate_root (?disk\<lparr>ms_fs := s\<rparr>) sample_root"
  have st: "seal_state manifest (ms_fs ?d)" using l(2) by (simp add: invalidate_root_def)
  obtain report where r: "startup_recover_locked seal_depth seal_env False sample_root ?d = Some (?d, Inr report)" by (rule seal_recovers [OF st])
  obtain sr where sr: "scrub_store seal_depth seal_env ?d sample_root snapshot_options = Some (Inr [sr])" "validation_is_clean (sr_validation sr)"
    by (rule seal_scrubs [OF assms st])
  have f: "finalize_series seal_env ?d sd4 () = (?d, Inr ())"
    by (simp add: finalize_series_def seal_load [OF assms st] finalize_chunks_def put_series_def)
  obtain disk' where w: "write_snapshot seal_env (seal_snapshots manifest) sample_root [seal_file manifest] ?d = (disk', Inr (seal_manifest manifest))"
    "readable_root seal_env sample_root (ms_fs disk')" by (rule seal_writes [OF st])
  note d = seal_walks(2) [OF st] and c = seal_collect [OF st]
  have "seal_snapshot seal_depth seal_env (seal_snapshots manifest) sample_root ?disk = Some (disk', Inr (seal_manifest manifest))"
    unfolding seal_snapshot_def if_not_P [OF x]
    by (simp add: l(1) r sr d f c w(1) sd_joins)
  moreover have "binary_manifest (ms_fs disk') put_dir"
  proof -
    have "same_below (path_join sample_root ''series'') (ms_fs ?d) (ms_fs disk')" by (rule write_snapshot_Inr [OF w(1)])
    moreover have "path_starts_with smeta (path_join sample_root ''series'')" "put_manifest = smeta" by code_simp+
    ultimately have "fs_files (ms_fs disk') put_manifest = fs_files (ms_fs ?d) smeta" by (simp add: same_below_def)
    moreover have "take 8 manifest = MANIFEST_MAGIC" using encode_manifest_eq [OF assms] by simp
    ultimately show ?thesis using st by (auto simp: binary_manifest_def seal_state_def visible_def)
  qed
  ultimately show thesis using that w(2) x by blast
qed

lemma string_of_bytes_inj: "string_of_bytes a = string_of_bytes b \<Longrightarrow> a = b"
proof -
  have u: "(of_char (char_of_byte x) :: nat) = unat x" for x :: u8
  proof -
    have "unat x < 2 ^ LENGTH(8)" by (rule unsigned_less)
    then show ?thesis by (simp add: char_of_byte_def)
  qed
  have "inj char_of_byte" by (rule injI) (metis u unsigned_word_eqI)
  then show "string_of_bytes a = string_of_bytes b \<Longrightarrow> a = b" by (simp add: string_of_bytes_def inj_map_eq_map)
qed

section \<open>Publishing the sealed store\<close>

abbreviation "no_faults \<equiv> (\<lambda>_ _. None) :: sql_faults"

definition seal_db :: RegistryDb where
  "seal_db = fst (in_memory no_faults)"

definition seal_dataset :: DatasetManifestRecord where
  "seal_dataset =
     \<lparr>dm_dataset_id = ''spot'', dm_version = ''v1'', dm_fastk_root = ''/data'', dm_source = ''x'', dm_market = ''m'', dm_start_ts = I64 1,
      dm_end_ts = I64 2, dm_schema_version = ''1'', dm_checksum = None, dm_status = ''new'', dm_created_at = I64 3\<rparr>"

lemma seal_db_opened: "in_memory no_faults = (seal_db, Inr ())"
proof -
  have "snd (in_memory no_faults) = Inr ()" by code_simp
  then show ?thesis unfolding seal_db_def by (metis prod.collapse)
qed

lemma seal_db_tables:
  "db_dataset_manifest seal_db = Some \<lparr>tb_columns = DATASET_COLUMNS, tb_key = [''dataset_id'', ''version''], tb_rows = []\<rparr>"
  "db_dataset_snapshot seal_db = Some \<lparr>tb_columns = SNAPSHOT_COLUMNS, tb_key = [''dataset_id'', ''version''], tb_rows = []\<rparr>"
  by code_simp+

lemma seal_dataset_valid: "dataset_validate seal_dataset = Inr ()" "path_of (dm_fastk_root seal_dataset) = sample_root"
  by code_simp+

lemma seal_publish:
  assumes "encode_manifest put_series = Inr manifest"
  obtains db disk published where
    "publish_dataset seal_depth seal_env (seal_snapshots manifest) no_faults seal_dataset (seal_db, put_disk manifest) = Some ((db, disk), Inr published)"
    and "readable_root seal_env sample_root (ms_fs disk)"
proof -
  obtain disk where d: "seal_snapshot seal_depth seal_env (seal_snapshots manifest) sample_root (put_disk manifest) = Some (disk, Inr (seal_manifest manifest))"
    "readable_root seal_env sample_root (ms_fs disk)" by (rule seal_run [OF assms])
  let ?p = "seal_dataset\<lparr>dm_status := ''sealed'', dm_checksum := Some (sn_digest (seal_manifest manifest))\<rparr>"
  have v: "dataset_validate ?p = Inr ()"
  proof -
    have "\<not> is_blank ''sealed''" by code_simp
    then show ?thesis using seal_dataset_valid(1) by (simp add: dataset_validate_def validate_required_def res_simps)
  qed
  have c: "set [''dataset_id'', ''version''] \<subseteq> set SNAPSHOT_COLUMNS" by code_simp
  have "\<exists>db. publish_tx no_faults ?p (sn_digest (seal_manifest manifest)) seal_db = (db, Inr ?p)"
    using c by (simp add: publish_tx_def Let_def sql_exec_def sql_query_def upsert_dataset_def v upsert_dataset_sql_def table_rows_def unique_on_def
        seal_db_tables with_rows_def insert_snapshot_sql_def)
  then obtain db where t: "publish_tx no_faults ?p (sn_digest (seal_manifest manifest)) seal_db = (db, Inr ?p)" by blast
  have b: "snapshot_binding no_faults seal_db (dm_dataset_id seal_dataset) (dm_version seal_dataset) = Inr None"
    by (simp add: snapshot_binding_def sql_query_def table_rows_def seal_db_tables)
  show thesis
    by (rule that [OF _ d(2)]) (simp add: publish_dataset_def seal_dataset_valid b d(1) t)
qed

lemma seal_resolves:
  assumes "registry_wf db" and "publish_dataset seal_depth seal_env (seal_snap m) no_faults seal_dataset (db, disk) = Some ((db', disk'), Inr published)"
    and "readable_root seal_env (path_of (dm_fastk_root seal_dataset)) (ms_fs disk')"
  obtains found where "dataset_ref seal_depth seal_env (seal_snap m) no_faults db' (ms_fs disk') (dm_dataset_id seal_dataset) (dm_version seal_dataset) = Some (Inr found)"
proof -
  obtain b snapshot where b: "b \<in> set (bindings db')" "published \<in> set (manifest_rows db')" "bound_row b published"
    "dm_key published = dm_key seal_dataset" "dm_fastk_root published = dm_fastk_root seal_dataset"
    "verify_snapshot seal_depth seal_env (seal_snap m) (path_of (dm_fastk_root seal_dataset)) (Some (sb_digest b)) (ms_fs disk') = Some (Inr snapshot)"
    by (rule publish_binds [OF assms(1,2) seal_listing_ok seal_codec assms(3)])
  have wf: "registry_wf db'" by (rule keeps_wf [OF publish_keeps_bound [OF assms(1,2)]])
  have v: "validate_all [(''dataset_id'', dm_dataset_id published), (''version'', dm_version published)] = Inr ()"
    using b(4) seal_dataset_valid(1) by (simp add: dataset_validate_def res_simps)
  have l: "snapshot_binding no_faults db' (dm_dataset_id seal_dataset) (dm_version seal_dataset) = Inr (Some (sb_fastk_root b, sb_digest b))"
    "get_dataset no_faults db' (dm_dataset_id seal_dataset) (dm_version seal_dataset) = Inr (Some published)"
    using bound_lookup [OF wf b(1-3), of no_faults] v b(4) by simp_all
  have r: "sb_fastk_root b = dm_fastk_root seal_dataset" using b(3,5) by (simp add: bound_row_def)
  show thesis by (rule that) (simp add: dataset_ref_def l r b(5,6))
qed

lemma seal_distinct: "distinct_hashes depth seal_env (seal_snap m) root s s"
  by (auto simp: distinct_hashes_def no_collision_def inventory_fixed_def seal_snap_def dest!: string_of_bytes_inj)

section \<open>A store whose last writer was interrupted\<close>

text \<open>The same directories with the marker of an unfinished mutation, which the listings show too.\<close>

definition marked_names :: "string list" where
  "marked_names = RECOVERY_MARKER_FILE # seal_names"

definition marked_env :: Env where
  "marked_env = sample_env\<lparr>e_read_dir := (\<lambda>s d. Inr (map (\<lambda>n. (n, path_join d n \<in> fs_dirs s))
     (filter (\<lambda>n. fs_exists s (path_join d n)) marked_names)))\<rparr>"

definition interrupted_disk :: ManifestStore where
  "interrupted_disk =
     \<lparr>ms_fs = \<lparr>fs_files = [put_manifest \<mapsto> \<lparr>f_data = [], f_synced = True\<rparr>, put_marker \<mapsto> \<lparr>f_data = [], f_synced = True\<rparr>],
        fs_stable = Map.empty, fs_dirs = put_dirs, fs_stable_dirs = {}\<rparr>, ms_cache = Map.empty\<rparr>"

lemma interrupted_recovers:
  obtains disk' report where "startup_recover_locked seal_depth marked_env False sample_root interrupted_disk = Some (disk', Inr report)"
proof -
  have "case startup_recover_locked seal_depth marked_env False sample_root interrupted_disk of Some (_, Inr _) \<Rightarrow> True | _ \<Rightarrow> False"
    by code_simp
  then show thesis using that by (auto split: option.splits prod.splits sum.splits)
qed

lemma above_closed:
  assumes "p \<in> above x"
  shows "p\<lparr>comps := take n (comps p)\<rparr> \<in> above x"
proof -
  have "p \<in> (\<lambda>n. x\<lparr>comps := take n (comps x)\<rparr>) ` {0..<Suc (length (comps x))}" using assms unfolding set_map set_upt .
  then obtain m where m: "m \<in> {0..<Suc (length (comps x))}" "p = x\<lparr>comps := take m (comps x)\<rparr>" by blast
  then have "p\<lparr>comps := take n (comps p)\<rparr> = x\<lparr>comps := take (min n m) (comps x)\<rparr>" by simp
  moreover have "min n m \<in> {0..<Suc (length (comps x))}" using m(1) by simp
  ultimately show ?thesis unfolding set_map set_upt by (rule image_eqI)
qed

lemma interrupted_tree: "fs_tree (ms_fs interrupted_disk)"
proof -
  have "{put_manifest, put_marker} \<inter> put_dirs = {}" by code_simp
  then have "fs_files (ms_fs interrupted_disk) p = None" if "p \<in> put_dirs" for p using that by (auto simp: interrupted_disk_def)
  moreover have "p\<lparr>comps := take n (comps p)\<rparr> \<in> put_dirs" if "p \<in> put_dirs" for p n
    using that unfolding put_dirs_def by (rule above_closed)
  ultimately show ?thesis by (simp add: fs_tree_def) (simp add: interrupted_disk_def)
qed

lemma marked_shallow:
  assumes "fs_dirs s = put_dirs"
  shows "7 \<le> length (comps p) + n \<Longrightarrow> 0 < n \<Longrightarrow> shallow n marked_env s p"
proof (induction n arbitrary: p)
  case (Suc n)
  have "list_all (\<lambda>n. take 1 n \<noteq> ''/'' \<and> components n = [n]) marked_names" by code_simp
  then have names: "comps (path_join p m) = comps p @ [m]" if "m \<in> set marked_names" for m
    using that by (simp add: list_all_iff plain_join)
  have "\<forall>q \<in> put_dirs. length (comps q) \<le> 6" by code_simp
  then have "length (comps p) + 1 \<le> 6" if "m \<in> set marked_names" "path_join p m \<in> put_dirs" for m
    using that names [of m] by fastforce
  then have "shallow n marked_env s (path_join p m)" if "m \<in> set marked_names" "path_join p m \<in> put_dirs" for m
    using that names [of m] Suc.prems Suc.IH [of "path_join p m"] by fastforce
  then show ?case by (auto simp: marked_env_def assms)
qed simp

end
