(* ===== verification/Bridge.thy ===== *)
theory Bridge
  imports RangeWrites
begin

text \<open>
  The bridge for external tools (\<^verbatim>\<open>src/src/bridge.rs\<close>) and the catalog it loads manifests with
  (\<^verbatim>\<open>src/src/store_core/engine/catalog.rs\<close>): every request opens a store on the root, runs one operation and renders
  the answer. Requests and responses are the records that serde turns into JSON. Shown here: what
  normalisation accepts and returns, and what the coverage of a series is.
\<close>

record KlineBridgeRecord =
  kb_ts :: i64
  kb_open :: i64
  kb_high :: i64
  kb_low :: i64
  kb_close :: i64
  kb_volume :: i64

record ScalarBridgeRecord =
  br_ts :: i64
  br_value :: i64

record KlineRangeResponse =
  kr_symbol :: string
  kr_timeframe :: string
  kr_timeframe_ms :: i64
  kr_start_ts :: i64
  kr_end_ts :: i64
  kr_price_scale :: i64
  kr_volume_scale :: i64
  kr_records :: "KlineBridgeRecord list"

record WriteKlineRequest =
  wk_timeframe_ms :: i64
  wk_price_scale :: i64
  wk_volume_scale :: i64
  wk_records :: "KlineBridgeRecord list"

record WriteKlineResponse =
  wkr_symbol :: string
  wkr_timeframe :: string
  wkr_timeframe_ms :: i64
  wkr_price_scale :: i64
  wkr_volume_scale :: i64
  wkr_registered :: bool
  wkr_requested_record_count :: nat
  wkr_written_record_count :: nat
  wkr_month_batches_written :: nat

record IndicatorRangeResponse =
  ir_symbol :: string
  ir_timeframe :: string
  ir_category :: string
  ir_name :: string
  ir_timeframe_ms :: i64
  ir_start_ts :: i64
  ir_end_ts :: i64
  ir_exists :: bool
  ir_base_price_scale :: i64
  ir_coverage_start_ts :: "i64 option"
  ir_coverage_end_ts :: "i64 option"
  ir_total_record_count :: u64
  ir_records :: "ScalarBridgeRecord list"

record WriteIndicatorRequest =
  wi_records :: "ScalarBridgeRecord list"

record WriteIndicatorResponse =
  wir_symbol :: string
  wir_timeframe :: string
  wir_category :: string
  wir_name :: string
  wir_registered :: bool
  wir_requested_record_count :: nat
  wir_written_record_count :: nat
  wir_month_batches_written :: nat

record ScalarRangeResponse =
  sr_symbol :: string
  sr_timeframe :: string
  sr_category :: string
  sr_name :: string
  sr_timeframe_ms :: "i64 option"
  sr_start_ts :: i64
  sr_end_ts :: i64
  sr_exists :: bool
  sr_coverage_start_ts :: "i64 option"
  sr_coverage_end_ts :: "i64 option"
  sr_total_record_count :: u64
  sr_records :: "ScalarBridgeRecord list"

record ScalarPredicateQueryResponse =
  pr_symbol :: string
  pr_timeframe :: string
  pr_category :: string
  pr_name :: string
  pr_start_ts :: i64
  pr_end_ts :: i64
  pr_predicate :: ScalarPredicateExpr
  pr_return_values :: bool
  pr_matches :: "ScalarPredicateMatch list"
  pr_stats :: ScalarPredicateQueryStats

record WriteScalarRequest =
  ws_timeframe_ms :: "i64 option"
  ws_records :: "ScalarBridgeRecord list"

record WriteScalarResponse =
  wsr_symbol :: string
  wsr_timeframe :: string
  wsr_category :: string
  wsr_name :: string
  wsr_timeframe_ms :: i64
  wsr_registered :: bool
  wsr_requested_record_count :: nat
  wsr_written_record_count :: nat
  wsr_month_batches_written :: nat

record InventoryResponse =
  iv_symbol :: string
  iv_timeframe :: string
  iv_category :: string
  iv_name :: string
  iv_exists :: bool
  iv_record_count :: u64
  iv_coverage_start_ts :: "i64 option"
  iv_coverage_end_ts :: "i64 option"
  iv_inventory :: "MonthInventoryEntry list"
  iv_capabilities :: "ScalarQueryCapabilities option"

record KlineInventoryResponse =
  ki_symbol :: string
  ki_timeframe :: string
  ki_exists :: bool
  ki_timeframe_ms :: "i64 option"
  ki_price_scale :: "i64 option"
  ki_volume_scale :: "i64 option"
  ki_record_count :: u64
  ki_coverage_start_ts :: "i64 option"
  ki_coverage_end_ts :: "i64 option"
  ki_inventory :: "MonthInventoryEntry list"

section \<open>Records\<close>

definition kline_to_bridge :: "KlineRecord \<Rightarrow> KlineBridgeRecord" where
  "kline_to_bridge r =
     \<lparr>kb_ts = k_ts r, kb_open = k_open r, kb_high = k_high r, kb_low = k_low r, kb_close = k_close r, kb_volume = k_volume r\<rparr>"

definition kline_from_bridge :: "KlineBridgeRecord \<Rightarrow> KlineRecord" where
  "kline_from_bridge r =
     \<lparr>k_ts = kb_ts r, k_open = kb_open r, k_high = kb_high r, k_low = kb_low r, k_close = kb_close r, k_volume = kb_volume r\<rparr>"

definition scalar_to_bridge :: "ScalarRecord \<Rightarrow> ScalarBridgeRecord" where
  "scalar_to_bridge r = \<lparr>br_ts = s_ts r, br_value = s_value r\<rparr>"

definition scalar_from_bridge :: "ScalarBridgeRecord \<Rightarrow> ScalarRecord" where
  "scalar_from_bridge r = \<lparr>s_ts = br_ts r, s_value = br_value r\<rparr>"

text \<open>The check of neighbouring records after sorting, shared by the two normalisations.\<close>

fun reject_duplicates :: "('r \<Rightarrow> i64) \<Rightarrow> string \<Rightarrow> 'r list \<Rightarrow> unit res" where
  "reject_duplicates ts message (a # b # rs) =
     (if ts a = ts b then Inl (InvalidInput message) else reject_duplicates ts message (b # rs))"
| "reject_duplicates ts message rs = Inr ()"

definition normalize_scalar_records :: "ScalarBridgeRecord list \<Rightarrow> ScalarRecord list res" where
  "normalize_scalar_records records =
     (if records = [] then Inr []
      else
        let normalized = sort_key s_ts (map scalar_from_bridge records) in
        and_then (reject_duplicates s_ts ''write-indicator-range contains duplicate timestamp'' normalized) (\<lambda>_. Inr normalized))"

definition normalize_kline_records :: "KlineBridgeRecord list \<Rightarrow> KlineRecord list res" where
  "normalize_kline_records records =
     (if records = [] then Inr []
      else
        let normalized = sort_key k_ts (map kline_from_bridge records) in
        and_then (reject_duplicates k_ts ''write-kline-range contains duplicate timestamp'' normalized) (\<lambda>_. Inr normalized))"

definition series_coverage :: "SeriesMeta \<Rightarrow> i64 option \<times> i64 option \<times> u64" where
  "series_coverage meta =
     (let readable = filter (\<lambda>c. is_readable (cm_state c)) (sm_chunks meta) in
      if readable = [] then (None, None, 0)
      else (Some (cm_start_ts (hd readable)), Some (cm_end_ts (last readable)), sum_list (map cm_count readable)))"

section \<open>The catalog\<close>

record Catalog =
  ct_root :: path
  ct_read_only :: bool

definition catalog_new :: "path \<Rightarrow> Catalog" where
  "catalog_new root = \<lparr>ct_root = root, ct_read_only = False\<rparr>"

definition catalog_read_only :: "path \<Rightarrow> Catalog" where
  "catalog_read_only root = \<lparr>ct_root = root, ct_read_only = True\<rparr>"

definition catalog_init :: "Env \<Rightarrow> Catalog \<Rightarrow> fs_state \<Rightarrow> fs_state \<times> unit res" where
  "catalog_init E cat s = make_dir E (series_root (ct_root cat)) s"

definition load_kline_meta_report :: "Env \<Rightarrow> Catalog \<Rightarrow> ManifestStore \<Rightarrow> string \<Rightarrow> string \<Rightarrow> ManifestStore \<times> SeriesMeta res" where
  "load_kline_meta_report E c disk symbol timeframe =
     load_disk E disk (kline_series_dir (ct_root c) symbol timeframe) (ct_read_only c)"

definition catalog_load_kline_meta :: "Env \<Rightarrow> Catalog \<Rightarrow> ManifestStore \<Rightarrow> string \<Rightarrow> string \<Rightarrow> ManifestStore \<times> SeriesMeta res" where
  "catalog_load_kline_meta E c disk symbol timeframe = load_kline_meta_report E c disk symbol timeframe"

definition load_scalar_meta_report :: "Env \<Rightarrow> Catalog \<Rightarrow> ManifestStore \<Rightarrow> ScalarSeriesKey \<Rightarrow> ManifestStore \<times> SeriesMeta res" where
  "load_scalar_meta_report E c disk key =
     load_disk E disk (scalar_series_dir (ct_root c) (key_symbol key) (key_category key) (key_name key)) (ct_read_only c)"

definition catalog_load_scalar_meta :: "Env \<Rightarrow> Catalog \<Rightarrow> ManifestStore \<Rightarrow> ScalarSeriesKey \<Rightarrow> ManifestStore \<times> SeriesMeta res" where
  "catalog_load_scalar_meta E c disk key = load_scalar_meta_report E c disk key"

text \<open>The catalog works on the disk of the store that is open.\<close>

definition on_disk :: "FastKStore \<Rightarrow> (ManifestStore \<Rightarrow> ManifestStore \<times> 'a) \<Rightarrow> FastKStore \<times> 'a" where
  "on_disk st f = (st\<lparr>fk_disk := fst (f (fk_disk st))\<rparr>, snd (f (fk_disk st)))"

text \<open>One request: a store is opened, used and dropped; what it did to the disk stays.\<close>

definition with_store ::
  "(ManifestStore \<times> FastKStore res) option \<Rightarrow> (FastKStore \<Rightarrow> (FastKStore \<times> 'a res) option) \<Rightarrow> (ManifestStore \<times> 'a res) option" where
  "with_store opened f =
     ok_then opened (\<lambda>_ st. map_option (\<lambda>(st, r). (fk_disk st, r)) (f st))"

section \<open>Requests\<close>

definition read_kline_range ::
  "nat \<Rightarrow> Env \<Rightarrow> ManifestStore \<Rightarrow> path \<Rightarrow> string \<Rightarrow> string \<Rightarrow> i64 \<Rightarrow> i64 \<Rightarrow> (ManifestStore \<times> KlineRangeResponse res) option" where
  "read_kline_range depth E disk root symbol timeframe start_ts end_ts =
     with_store (open_read_only depth E root disk) (\<lambda>st. Some (
       then_do (on_disk st (\<lambda>disk. catalog_load_kline_meta E (catalog_read_only root) disk symbol timeframe)) (\<lambda>st meta.
       then_do (get_kline_range E st symbol timeframe start_ts end_ts) (\<lambda>st records.
       (st, Inr \<lparr>kr_symbol = symbol, kr_timeframe = timeframe, kr_timeframe_ms = sm_timeframe_ms meta, kr_start_ts = start_ts,
          kr_end_ts = end_ts, kr_price_scale = sm_price_scale meta, kr_volume_scale = sm_volume_scale meta,
          kr_records = map kline_to_bridge records\<rparr>)))))"

definition write_kline_range ::
  "nat \<Rightarrow> Env \<Rightarrow> months \<Rightarrow> ManifestStore \<Rightarrow> path \<Rightarrow> string \<Rightarrow> string \<Rightarrow> WriteKlineRequest \<Rightarrow>
   (ManifestStore \<times> WriteKlineResponse res) option" where
  "write_kline_range depth E next_month disk root symbol timeframe request =
     ok_then (Some (disk, normalize_kline_records (wk_records request))) (\<lambda>disk normalized.
     with_store (store_open depth E root disk) (\<lambda>st.
       ok_then (append_kline_range depth E next_month st symbol timeframe normalized
         (wk_timeframe_ms request) (wk_price_scale request) (wk_volume_scale request)) (\<lambda>st summary.
       Some (st, Inr \<lparr>wkr_symbol = symbol, wkr_timeframe = timeframe, wkr_timeframe_ms = rs_timeframe_ms summary,
         wkr_price_scale = wk_price_scale request, wkr_volume_scale = wk_volume_scale request, wkr_registered = rs_registered summary,
         wkr_requested_record_count = rs_requested_record_count summary, wkr_written_record_count = rs_written_record_count summary,
         wkr_month_batches_written = rs_month_batches_written summary\<rparr>))))"

definition kline_inventory ::
  "nat \<Rightarrow> Env \<Rightarrow> ManifestStore \<Rightarrow> path \<Rightarrow> string \<Rightarrow> string \<Rightarrow> (ManifestStore \<times> KlineInventoryResponse res) option" where
  "kline_inventory depth E disk root symbol timeframe =
     with_store (open_read_only depth E root disk) (\<lambda>st. Some (
       then_do (existing_series (on_disk st (\<lambda>disk. catalog_load_kline_meta E (catalog_read_only root) disk symbol timeframe))) (\<lambda>st found.
       case found of
         Some meta \<Rightarrow>
           then_do (kline_month_inventory E st symbol timeframe) (\<lambda>st inventory.
           let (coverage_start_ts, coverage_end_ts, total) = series_coverage meta in
           (st, Inr \<lparr>ki_symbol = symbol, ki_timeframe = timeframe, ki_exists = True, ki_timeframe_ms = Some (sm_timeframe_ms meta),
              ki_price_scale = Some (sm_price_scale meta), ki_volume_scale = Some (sm_volume_scale meta), ki_record_count = total,
              ki_coverage_start_ts = coverage_start_ts, ki_coverage_end_ts = coverage_end_ts, ki_inventory = inventory\<rparr>))
       | None \<Rightarrow>
           (st, Inr \<lparr>ki_symbol = symbol, ki_timeframe = timeframe, ki_exists = False, ki_timeframe_ms = None, ki_price_scale = None,
              ki_volume_scale = None, ki_record_count = 0, ki_coverage_start_ts = None, ki_coverage_end_ts = None,
              ki_inventory = []\<rparr>))))"

definition read_indicator_range ::
  "nat \<Rightarrow> Env \<Rightarrow> ManifestStore \<Rightarrow> path \<Rightarrow> string \<Rightarrow> string \<Rightarrow> string \<Rightarrow> i64 \<Rightarrow> i64 \<Rightarrow>
   (ManifestStore \<times> IndicatorRangeResponse res) option" where
  "read_indicator_range depth E disk root symbol timeframe indicator_name start_ts end_ts =
     with_store (open_read_only depth E root disk) (\<lambda>st. Some (
       then_do (on_disk st (\<lambda>disk. catalog_load_kline_meta E (catalog_read_only root) disk symbol timeframe)) (\<lambda>st base_meta.
       let key = indicator_series_key symbol timeframe indicator_name in
       then_do (existing_series (on_disk st (\<lambda>disk. catalog_load_scalar_meta E (catalog_read_only root) disk key))) (\<lambda>st found.
       case found of
         Some meta \<Rightarrow>
           then_do (get_indicator_range E st symbol timeframe indicator_name start_ts end_ts) (\<lambda>st records.
           let (coverage_start_ts, coverage_end_ts, total) = series_coverage meta in
           (st, Inr \<lparr>ir_symbol = symbol, ir_timeframe = timeframe, ir_category = ''indicator'', ir_name = indicator_name,
              ir_timeframe_ms = sm_timeframe_ms meta, ir_start_ts = start_ts, ir_end_ts = end_ts, ir_exists = True,
              ir_base_price_scale = sm_price_scale base_meta, ir_coverage_start_ts = coverage_start_ts,
              ir_coverage_end_ts = coverage_end_ts, ir_total_record_count = total, ir_records = map scalar_to_bridge records\<rparr>))
       | None \<Rightarrow>
           (st, Inr \<lparr>ir_symbol = symbol, ir_timeframe = timeframe, ir_category = ''indicator'', ir_name = indicator_name,
              ir_timeframe_ms = sm_timeframe_ms base_meta, ir_start_ts = start_ts, ir_end_ts = end_ts, ir_exists = False,
              ir_base_price_scale = sm_price_scale base_meta, ir_coverage_start_ts = None, ir_coverage_end_ts = None,
              ir_total_record_count = 0, ir_records = []\<rparr>)))))"

definition read_scalar_range ::
  "nat \<Rightarrow> Env \<Rightarrow> ManifestStore \<Rightarrow> path \<Rightarrow> string \<Rightarrow> string \<Rightarrow> string \<Rightarrow> string \<Rightarrow> i64 \<Rightarrow> i64 \<Rightarrow>
   (ManifestStore \<times> ScalarRangeResponse res) option" where
  "read_scalar_range depth E disk root symbol timeframe category name start_ts end_ts =
     with_store (open_read_only depth E root disk) (\<lambda>st. Some (
       let key = scoped_scalar_series_key symbol timeframe category name in
       then_do (existing_series (on_disk st (\<lambda>disk. catalog_load_scalar_meta E (catalog_read_only root) disk key))) (\<lambda>st found.
       case found of
         Some meta \<Rightarrow>
           then_do (get_scalar_range E st key start_ts end_ts) (\<lambda>st records.
           let (coverage_start_ts, coverage_end_ts, total) = series_coverage meta in
           (st, Inr \<lparr>sr_symbol = symbol, sr_timeframe = timeframe, sr_category = category, sr_name = name,
              sr_timeframe_ms = Some (sm_timeframe_ms meta), sr_start_ts = start_ts, sr_end_ts = end_ts, sr_exists = True,
              sr_coverage_start_ts = coverage_start_ts, sr_coverage_end_ts = coverage_end_ts, sr_total_record_count = total,
              sr_records = map scalar_to_bridge records\<rparr>))
       | None \<Rightarrow>
           (st, Inr \<lparr>sr_symbol = symbol, sr_timeframe = timeframe, sr_category = category, sr_name = name, sr_timeframe_ms = None,
              sr_start_ts = start_ts, sr_end_ts = end_ts, sr_exists = False, sr_coverage_start_ts = None, sr_coverage_end_ts = None,
              sr_total_record_count = 0, sr_records = []\<rparr>))))"

definition bridge_query_scalar_predicate ::
  "nat \<Rightarrow> Env \<Rightarrow> ManifestStore \<Rightarrow> path \<Rightarrow> string \<Rightarrow> string \<Rightarrow> string \<Rightarrow> string \<Rightarrow> i64 \<Rightarrow> i64 \<Rightarrow> ScalarPredicateExpr \<Rightarrow> bool \<Rightarrow>
   (ManifestStore \<times> ScalarPredicateQueryResponse res) option" where
  "bridge_query_scalar_predicate depth E disk root symbol timeframe category name start_ts end_ts predicate return_values =
     with_store (open_read_only depth E root disk) (\<lambda>st.
       ok_then (query_scalar_predicate E st \<lparr>q_key = scoped_scalar_series_key symbol timeframe category name, q_start_ts = start_ts,
         q_end_ts = end_ts, q_predicate = predicate, q_return_values = return_values\<rparr>) (\<lambda>st result.
       Some (st, Inr \<lparr>pr_symbol = symbol, pr_timeframe = timeframe, pr_category = category, pr_name = name, pr_start_ts = start_ts,
         pr_end_ts = end_ts, pr_predicate = predicate, pr_return_values = return_values, pr_matches = qr_matches result,
         pr_stats = qr_stats result\<rparr>)))"

definition write_indicator_range ::
  "nat \<Rightarrow> Env \<Rightarrow> months \<Rightarrow> ManifestStore \<Rightarrow> path \<Rightarrow> string \<Rightarrow> string \<Rightarrow> string \<Rightarrow> WriteIndicatorRequest \<Rightarrow>
   (ManifestStore \<times> WriteIndicatorResponse res) option" where
  "write_indicator_range depth E next_month disk root symbol timeframe indicator_name request =
     ok_then (Some (disk, normalize_scalar_records (wi_records request))) (\<lambda>disk normalized.
     with_store (store_open depth E root disk) (\<lambda>st.
       ok_then (Some (kline_metadata E st symbol timeframe)) (\<lambda>st meta.
       ok_then (append_scalar_range depth E next_month st (indicator_series_key symbol timeframe indicator_name) normalized
         (Some (sm_timeframe_ms meta))) (\<lambda>st summary.
       Some (st, Inr \<lparr>wir_symbol = symbol, wir_timeframe = timeframe, wir_category = INDICATOR_CATEGORY, wir_name = indicator_name,
         wir_registered = rs_registered summary, wir_requested_record_count = rs_requested_record_count summary,
         wir_written_record_count = rs_written_record_count summary,
         wir_month_batches_written = rs_month_batches_written summary\<rparr>)))))"

definition write_scalar_range ::
  "nat \<Rightarrow> Env \<Rightarrow> months \<Rightarrow> ManifestStore \<Rightarrow> path \<Rightarrow> string \<Rightarrow> string \<Rightarrow> string \<Rightarrow> string \<Rightarrow> WriteScalarRequest \<Rightarrow>
   (ManifestStore \<times> WriteScalarResponse res) option" where
  "write_scalar_range depth E next_month disk root symbol timeframe category name request =
     ok_then (Some (disk, normalize_scalar_records (ws_records request))) (\<lambda>disk normalized.
     with_store (store_open depth E root disk) (\<lambda>st.
       ok_then (append_scalar_range depth E next_month st (scoped_scalar_series_key symbol timeframe category name) normalized
         (ws_timeframe_ms request)) (\<lambda>st summary.
       Some (st, Inr \<lparr>wsr_symbol = symbol, wsr_timeframe = timeframe, wsr_category = category, wsr_name = name,
         wsr_timeframe_ms = rs_timeframe_ms summary, wsr_registered = rs_registered summary,
         wsr_requested_record_count = rs_requested_record_count summary, wsr_written_record_count = rs_written_record_count summary,
         wsr_month_batches_written = rs_month_batches_written summary\<rparr>))))"

text \<open>The answer of the two scalar inventories, which differ in how they load the capabilities.\<close>

definition inventory_response ::
  "string \<Rightarrow> string \<Rightarrow> string \<Rightarrow> string \<Rightarrow> SeriesMeta \<Rightarrow> MonthInventoryEntry list \<Rightarrow> ScalarQueryCapabilities \<Rightarrow> InventoryResponse" where
  "inventory_response symbol timeframe category name meta inventory capabilities =
     (let (coverage_start_ts, coverage_end_ts, total) = series_coverage meta in
      \<lparr>iv_symbol = symbol, iv_timeframe = timeframe, iv_category = category, iv_name = name, iv_exists = True, iv_record_count = total,
       iv_coverage_start_ts = coverage_start_ts, iv_coverage_end_ts = coverage_end_ts, iv_inventory = inventory,
       iv_capabilities = Some capabilities\<rparr>)"

definition missing_response :: "string \<Rightarrow> string \<Rightarrow> string \<Rightarrow> string \<Rightarrow> InventoryResponse" where
  "missing_response symbol timeframe category name =
     \<lparr>iv_symbol = symbol, iv_timeframe = timeframe, iv_category = category, iv_name = name, iv_exists = False, iv_record_count = 0,
      iv_coverage_start_ts = None, iv_coverage_end_ts = None, iv_inventory = [], iv_capabilities = None\<rparr>"

definition bridge_indicator_inventory ::
  "nat \<Rightarrow> Env \<Rightarrow> ManifestStore \<Rightarrow> path \<Rightarrow> string \<Rightarrow> string \<Rightarrow> string \<Rightarrow> (ManifestStore \<times> InventoryResponse res) option" where
  "bridge_indicator_inventory depth E disk root symbol timeframe indicator_name =
     with_store (open_read_only depth E root disk) (\<lambda>st. Some (
       let key = indicator_series_key symbol timeframe indicator_name in
       then_do (existing_series (on_disk st (\<lambda>disk. catalog_load_scalar_meta E (catalog_read_only root) disk key))) (\<lambda>st found.
       case found of
         Some meta \<Rightarrow>
           then_do (scalar_month_inventory E st key) (\<lambda>st inventory.
           then_do (indicator_capabilities E st symbol timeframe indicator_name) (\<lambda>st capabilities.
           (st, Inr (inventory_response symbol timeframe ''indicator'' indicator_name meta inventory capabilities))))
       | None \<Rightarrow> (st, Inr (missing_response symbol timeframe ''indicator'' indicator_name)))))"

definition scalar_inventory ::
  "nat \<Rightarrow> Env \<Rightarrow> ManifestStore \<Rightarrow> path \<Rightarrow> string \<Rightarrow> string \<Rightarrow> string \<Rightarrow> string \<Rightarrow> (ManifestStore \<times> InventoryResponse res) option" where
  "scalar_inventory depth E disk root symbol timeframe category name =
     with_store (open_read_only depth E root disk) (\<lambda>st. Some (
       let key = scoped_scalar_series_key symbol timeframe category name in
       then_do (existing_series (on_disk st (\<lambda>disk. catalog_load_scalar_meta E (catalog_read_only root) disk key))) (\<lambda>st found.
       case found of
         Some meta \<Rightarrow>
           then_do (scalar_month_inventory E st key) (\<lambda>st inventory.
           then_do (scalar_query_capabilities E st key) (\<lambda>st capabilities.
           (st, Inr (inventory_response symbol timeframe category name meta inventory capabilities))))
       | None \<Rightarrow> (st, Inr (missing_response symbol timeframe category name)))))"

section \<open>Normalisation and coverage\<close>

lemma reject_duplicates_Inr: "reject_duplicates ts message rs = Inr () \<longleftrightarrow> successively (\<lambda>a b. ts a \<noteq> ts b) rs"
  by (induction ts message rs rule: reject_duplicates.induct) auto

lemma reject_duplicates_cases: "reject_duplicates ts message rs = Inr () \<or> reject_duplicates ts message rs = Inl (InvalidInput message)"
  by (induction ts message rs rule: reject_duplicates.induct) auto

lemma sorted_neighbours_distinct:
  assumes "sorted (map f xs)"
  shows "successively (\<lambda>a b. f a \<noteq> f b) xs \<longleftrightarrow> distinct (map f xs)"
  using assms
proof (induction xs rule: induct_list012)
  case (3 x y zs)
  have "f x \<noteq> f y \<Longrightarrow> f x \<notin> f ` set zs" using "3.prems" by fastforce
  with 3 show ?case by auto
qed auto

text \<open>A normalised batch is the batch in timestamp order; it is refused exactly for a repeated timestamp.\<close>

lemma normalize_kline_exact:
  "normalize_kline_records records =
     (if distinct (map kb_ts records) then Inr (sort_key k_ts (map kline_from_bridge records))
      else Inl (InvalidInput ''write-kline-range contains duplicate timestamp''))"
proof -
  let ?n = "sort_key k_ts (map kline_from_bridge records)" and ?m = "''write-kline-range contains duplicate timestamp''"
  have "distinct (map k_ts ?n) \<longleftrightarrow> distinct (map k_ts (map kline_from_bridge records))"
    by (metis mset_map mset_sort mset_eq_imp_distinct_iff)
  also have "map k_ts (map kline_from_bridge records) = map kb_ts records" by (simp add: kline_from_bridge_def)
  finally have "reject_duplicates k_ts ?m ?n = Inr () \<longleftrightarrow> distinct (map kb_ts records)"
    by (simp add: reject_duplicates_Inr sorted_neighbours_distinct)
  then show ?thesis using reject_duplicates_cases [of k_ts ?m ?n] by (auto simp: normalize_kline_records_def Let_def)
qed

lemma normalize_scalar_exact:
  "normalize_scalar_records records =
     (if distinct (map br_ts records) then Inr (sort_key s_ts (map scalar_from_bridge records))
      else Inl (InvalidInput ''write-indicator-range contains duplicate timestamp''))"
proof -
  let ?n = "sort_key s_ts (map scalar_from_bridge records)" and ?m = "''write-indicator-range contains duplicate timestamp''"
  have "distinct (map s_ts ?n) \<longleftrightarrow> distinct (map s_ts (map scalar_from_bridge records))"
    by (metis mset_map mset_sort mset_eq_imp_distinct_iff)
  also have "map s_ts (map scalar_from_bridge records) = map br_ts records" by (simp add: scalar_from_bridge_def)
  finally have "reject_duplicates s_ts ?m ?n = Inr () \<longleftrightarrow> distinct (map br_ts records)"
    by (simp add: reject_duplicates_Inr sorted_neighbours_distinct)
  then show ?thesis using reject_duplicates_cases [of s_ts ?m ?n] by (auto simp: normalize_scalar_records_def Let_def)
qed

end
