(* ===== verification/BridgePut.thy ===== *)
theory BridgePut
  imports Bridge RangePut
begin

text \<open>
  The requests of the bridge against the series behind them: the coverage of a stored series, what a
  read request returns from the files alone, and a write request followed by a read request, two
  stores that share nothing but the disk.
\<close>

section \<open>Coverage\<close>

lemma sum_of_nat_words: "sum_list (map (\<lambda>x. word_of_nat (f x)) xs) = word_of_nat (sum_list (map f xs))"
  by (induction xs) simp_all

lemma series_coverage_stored:
  assumes stored: "series_stored R ok fs dir meta rows_of" and readable: "\<forall>c \<in> set (sm_chunks meta). is_readable (cm_state c)"
  shows "series_coverage meta =
    (let rows = series_rows rows_of meta in
     if rows = [] then (None, None, 0) else (Some (ts_of R (hd rows)), Some (ts_of R (last rows)), word_of_nat (length rows)))"
proof (cases "sm_chunks meta")
  case Nil
  then show ?thesis by (simp add: series_coverage_def series_rows_def)
next
  case (Cons c cs)
  have c: "rows_of d \<noteq> []" "cm_start_ts d = ts_of R (hd (rows_of d))" "cm_end_ts d = ts_of R (last (rows_of d))"
    "cm_count d = word_of_nat (length (rows_of d))" if "d \<in> set (sm_chunks meta)" for d
    using stored that by (auto simp: series_stored_def chunk_stored_def)
  have f: "filter (\<lambda>c. is_readable (cm_state c)) (sm_chunks meta) = sm_chunks meta" using readable by (simp add: filter_id_conv)
  have "hd (series_rows rows_of meta) = hd (rows_of c)" using Cons c(1) by (simp add: series_rows_def)
  moreover have "last (series_rows rows_of meta) = last (rows_of (last (sm_chunks meta)))"
  proof -
    have "last (concat (map rows_of xs)) = last (rows_of (last xs))" if "xs \<noteq> []" "\<forall>x \<in> set xs. rows_of x \<noteq> []" for xs
      using that by (induction xs rule: rev_induct) auto
    from this [of "sm_chunks meta"] show ?thesis using c(1) Cons by (simp add: series_rows_def)
  qed
  moreover have "sum_list (map cm_count (sm_chunks meta)) = word_of_nat (length (series_rows rows_of meta))"
    using c(4) sum_of_nat_words [of "\<lambda>c. length (rows_of c)" "sm_chunks meta"] by (simp add: series_rows_def length_concat comp_def cong: map_cong)
  moreover have "series_rows rows_of meta \<noteq> []" using Cons c(1) [of c] by (simp add: series_rows_def)
  moreover have "hd (sm_chunks meta) = c" "sm_chunks meta \<noteq> []" "c \<in> set (sm_chunks meta)" "last (sm_chunks meta) \<in> set (sm_chunks meta)"
    using Cons by simp_all
  ultimately show ?thesis using c(2) [of c] c(3) [of "last (sm_chunks meta)"] unfolding series_coverage_def f Let_def by simp
qed

section \<open>A read request\<close>

lemma open_read_only_Inr:
  assumes "open_read_only depth E root disk = Some (disk', Inr st)"
  shows "disk' = invalidate_root disk root" and "st = fresh_store root disk' True"
  using assms by (auto simp: open_read_only_def open_mode_def Let_def split: sum.splits if_splits)

lemma load_disk_same_file:
  assumes "fs_files (ms_fs disk') (series_meta_path dir) = fs_files (ms_fs disk) (series_meta_path dir)"
  shows "snd (load_disk E disk' dir True) = snd (load_disk E disk dir True)"
  using assms by (auto simp: load_disk_def load_series_meta_shared_mode_def decode_or_migrate_def Let_def split: option.splits sum.splits)

text \<open>A fresh read-only store loads a manifest from its file.\<close>

lemma fresh_load:
  assumes "snd (load_disk E disk (kline_series_dir root symbol timeframe) True) = Inr meta"
  obtains cache where "load_kline_meta E (fresh_store root disk True) symbol timeframe = ((fresh_store root disk True)\<lparr>fk_manifest_cache := cache\<rparr>, Inr meta)"
proof -
  have "load_disk E disk (kline_series_dir root symbol timeframe) True = (disk, Inr meta)"
    using assms load_disk_read_only [of E disk "kline_series_dir root symbol timeframe"] by simp
  then show thesis
    by (intro that) (simp add: load_kline_meta_def load_meta_def catalog_load_cached_report_def catalog_load_report_def load_disk_def fresh_store_def)
qed

lemma read_kline_range_exact:
  assumes opened: "open_read_only depth E root disk = Some (disk', Inr st)"
    and manifest: "snd (load_disk E disk (kline_series_dir root symbol timeframe) True) = Inr meta"
    and stored: "series_stored kline_record (\<lambda>_. True) (visible (ms_fs disk)) (kline_series_dir root symbol timeframe) meta rows_of"
    and size: "72 * length (series_rows rows_of meta) + 128 < 2 ^ 63"
  obtains response where "read_kline_range depth E disk root symbol timeframe a b = Some (disk', Inr response)"
    and "kr_records response = map kline_to_bridge (filter (in_range k_ts a b) (series_rows rows_of meta))"
proof -
  let ?dir = "kline_series_dir root symbol timeframe"
  note o = open_read_only_Inr [OF opened]
  have fs: "ms_fs disk' = ms_fs disk" by (simp add: o invalidate_root_def)
  have m: "snd (load_disk E disk' ?dir True) = Inr meta" using load_disk_same_file [of disk' ?dir disk E] manifest by (simp add: fs)
  have cat: "on_disk st (\<lambda>disk. catalog_load_kline_meta E (catalog_read_only root) disk symbol timeframe) = (st, Inr meta)"
    using m load_disk_read_only [of E disk' ?dir]
    by (simp add: on_disk_def catalog_load_kline_meta_def load_kline_meta_report_def catalog_read_only_def o(2) fresh_store_def)
  obtain cache where l: "load_kline_meta E st symbol timeframe = (st\<lparr>fk_manifest_cache := cache\<rparr>, Inr meta)"
    using fresh_load [OF m] o(2) by metis
  let ?st = "st\<lparr>fk_manifest_cache := cache\<rparr>"
  have rd: "readable_series kline_record (\<lambda>_. True) (\<lambda>k. path_join ?dir (ck_relative_path k)) ?st ?dir meta rows_of"
    using stored size coherent_new
    by (simp add: readable_series_def key_from_meta_def kline_BYTE_SIZE_def fk_files_def o(2) fresh_store_def fs)
  obtain st' where g: "get_kline_range E st symbol timeframe a b = (st', Inr (filter (in_range k_ts a b) (series_rows rows_of meta)))"
    "fk_disk st' = disk'"
  proof (cases "a > b")
    case True
    then have "filter (in_range k_ts a b) (series_rows rows_of meta) = []" by (auto simp: filter_empty_conv i64_ord)
    with True show thesis by (intro that [of st]) (auto simp: get_kline_range_def o(2) fresh_store_def)
  next
    case False
    have "fk_root ?st = root" "fk_disk ?st = disk'" by (simp_all add: o(2) fresh_store_def)
    with False kline_range_prepared [OF rd, of a b] l show thesis
      by (auto simp: get_kline_range_def with_meta_def intro!: that)
  qed
  have "\<exists>response. read_kline_range depth E disk root symbol timeframe a b = Some (disk', Inr response)
      \<and> kr_records response = map kline_to_bridge (filter (in_range k_ts a b) (series_rows rows_of meta))"
    by (simp add: read_kline_range_def with_store_def opened cat g)
  then show thesis using that by blast
qed

section \<open>A write request, then a read request\<close>

lemma sort_key_later: "sort_key f (xs @ sort_key f ys) = sort_key f (xs @ ys)"
proof (rule properties_for_sort_key)
  have e: "(\<lambda>x. f k = f x) = (\<lambda>x. f x = f k)" for k by auto
  show "filter (\<lambda>x. f k = f x) (sort_key f (xs @ ys)) = filter (\<lambda>x. f k = f x) (xs @ sort_key f ys)" for k
    unfolding e by (simp add: sort_key_stable)
qed simp_all

lemma write_request_steps:
  assumes "write_kline_range depth E next_month disk root symbol timeframe request = Some (disk', Inr response)"
    and "store_open depth E root disk = Some (disk0, Inr st)"
  obtains st' summary where "append_kline_range depth E next_month st symbol timeframe (sort_key k_ts (map kline_from_bridge (wk_records request)))
      (wk_timeframe_ms request) (wk_price_scale request) (wk_volume_scale request) = Some (st', Inr summary)"
    and "disk' = fk_disk st'" and "wkr_written_record_count response = rs_written_record_count summary"
    and "wkr_registered response = rs_registered summary"
proof -
  let ?a = "append_kline_range depth E next_month st symbol timeframe (sort_key k_ts (map kline_from_bridge (wk_records request)))
      (wk_timeframe_ms request) (wk_price_scale request) (wk_volume_scale request)"
  have "distinct (map kb_ts (wk_records request))"
    using assms(1) by (auto simp: write_kline_range_def normalize_kline_exact split: if_splits)
  then have w: "with_store (Some (disk0, Inr st)) (\<lambda>_. ok_then ?a (\<lambda>st summary. Some (st, Inr
      \<lparr>wkr_symbol = symbol, wkr_timeframe = timeframe, wkr_timeframe_ms = rs_timeframe_ms summary,
         wkr_price_scale = wk_price_scale request, wkr_volume_scale = wk_volume_scale request, wkr_registered = rs_registered summary,
         wkr_requested_record_count = rs_requested_record_count summary, wkr_written_record_count = rs_written_record_count summary,
         wkr_month_batches_written = rs_month_batches_written summary\<rparr>))) = Some (disk', Inr response)"
    using assms by (simp add: write_kline_range_def normalize_kline_exact with_store_def)
  obtain st' r where a: "?a = Some (st', r)" using w by (cases ?a) (auto simp: with_store_def)
  then obtain summary where r: "r = Inr summary" using w by (cases r) (auto simp: with_store_def)
  have "disk' = fk_disk st'" "wkr_written_record_count response = rs_written_record_count summary"
    "wkr_registered response = rs_registered summary" using w unfolding a r by (auto simp: with_store_def)
  with that a r show thesis by blast
qed

lemma store_open_caches:
  assumes "store_open depth E root disk = Some (disk', Inr st)"
  shows "file_cache_ok (rt_files (fk_chunk_runtime st))" and "\<not> cp_auto_merge (fk_compaction_policy st)" and "fk_root st = root"
proof -
  obtain d where "st = fresh_store root d False"
    using assms by (auto simp: store_open_def open_mode_def split: if_splits option.splits sum.splits prod.splits)
  then show "file_cache_ok (rt_files (fk_chunk_runtime st))" "\<not> cp_auto_merge (fk_compaction_policy st)" "fk_root st = root"
    by (simp_all add: fresh_store_def file_cache_new_ok runtime_new_def DEFAULT_FILE_CACHE_CAPACITY_def compaction_policy_default_def)
qed

end
