(* ===== verification/RangeSample.thy ===== *)
theory RangeSample
  imports RangePut PutSample
begin

text \<open>A run of the range write: the three rows of one month, appended to the registered series.\<close>

definition sample_months :: months where "sample_months t = (if t < I64 1000 then Some (I64 1000) else None)"

lemma sample_batches: "month_batches kline_record sample_calendar sample_months put_rows = Some (Inr [(''2024-01'', put_rows)])"
proof -
  have t: "takeWhile (\<lambda>r. ts_of kline_record r < I64 1000) put_rows = put_rows" by code_simp
  have s: "validate_strict_order kline_record put_rows = Inr ()" "ts_of kline_record (hd put_rows) < I64 1000" by code_simp+
  have "partition_point (\<lambda>r. ts_of kline_record r < I64 1000) put_rows = length put_rows"
    unfolding partition_point_def t ..
  moreover have "put_rows \<noteq> []" by simp
  moreover have "month_loop kline_record sample_calendar sample_months [] = Some (Inr [])" by (simp add: month_loop.simps)
  ultimately have "month_loop kline_record sample_calendar sample_months put_rows = Some (Inr [(''2024-01'', put_rows)])"
    using s(2) by (subst month_loop.simps) (simp add: next_month_start_def sample_months_def ok_or_def Let_def del: list.map)
  then show ?thesis by (simp add: month_batches_def s(1) del: list.map)
qed

lemma append_run:
  assumes "encode_manifest put_series = Inr manifest"
  obtains st1 st2 st' summary where "begin_mutation depth put_env (put_store manifest) = Some (st1, Inr ())"
    and "load_kline_meta put_env st1 ''BTC'' ''1m'' = (st2, Inr put_series)"
    and "fs_exists (ms_fs (fk_disk st2)) (path_join (fk_root st2) ''series'')"
    and "append_kline_range depth put_env sample_months (put_store manifest) ''BTC'' ''1m'' put_rows
      (sm_timeframe_ms put_series) (sm_price_scale put_series) (sm_volume_scale put_series) = Some (st', Inr summary)"
    and "within {put_manifest, put_marker, put_chunk, put_lock} put_dirs (fs_of st')" and "fs_files (fs_of st') put_marker = None"
    and "fs_files (fs_of st') put_lock \<noteq> None" and "fk_files st2 put_manifest = Some manifest"
proof -
  obtain st1 st2 st' where r: "begin_mutation depth put_env (put_store manifest) = Some (st1, Inr ())"
    "load_kline_meta put_env st1 ''BTC'' ''1m'' = (st2, Inr put_series)" "fs_exists (fs_of st2) (series_root sample_root)"
    "fk_root st2 = sample_root" "put_kline_chunk depth put_env (put_store manifest) ''BTC'' ''1m'' put_rows = Some (st', Inr ())"
    "within {put_manifest, put_marker, put_chunk, put_lock} put_dirs (fs_of st')" "fs_files (fs_of st') put_marker = None"
    "fs_files (fs_of st') put_lock \<noteq> None" "fk_files st2 put_manifest = Some manifest"
    by (rule put_run [OF assms])
  have put: "put_kline_chunk_locked put_env st1 ''BTC'' ''1m'' put_rows = (st', Inr ())"
    using r(1,5) by (auto simp: put_kline_chunk_def with_lock_def simp del: list.map split: sum.splits)
  have again: "load_kline_meta put_env st2 ''BTC'' ''1m'' = (st2, Inr put_series)"
    using load_meta_again [OF r(2) [unfolded load_kline_meta_def]] load_meta_fields(1) [OF r(2) [unfolded load_kline_meta_def]]
    by (simp add: load_kline_meta_def)
  have put2: "put_kline_chunk_locked put_env st2 ''BTC'' ''1m'' put_rows = (st', Inr ())"
    using put by (simp add: put_kline_chunk_locked_def r(2) again del: list.map)
  have dir: "fs_exists (ms_fs (fk_disk st2)) (path_join (fk_root st2) ''series'')"
    using r(3,4) by (simp add: series_root_def SERIES_DIR_def)
  have v: "validate_configuration (sm_timeframe_ms put_series) (sm_price_scale put_series) (sm_volume_scale put_series) = Inr ()" by code_simp
  have e: "validate_existing_series put_series (sm_timeframe_ms put_series) (sm_price_scale put_series) (sm_volume_scale put_series) = Inr ()"
    by (simp add: validate_existing_series_def)
  have p: "preflight_overlap kline_record (Some put_series) [(''2024-01'', put_rows)] = Inr ()"
    by (simp add: preflight_overlap_def preflight_month_def month_chunks_def chunk_indices_for_month_def chunk_indices_for_partition_def put_series_def
        del: list.map(2))
  have x: "existing_series (load_kline_meta put_env st1 ''BTC'' ''1m'') = (st2, Inr (Some put_series))" by (simp add: existing_series_def r(2))
  have w: "write_months (\<lambda>st. put_kline_chunk_locked put_env st ''BTC'' ''1m'') st2 [(''2024-01'', put_rows)] = (st', Inr [''2024-01''])"
    by (simp add: write_months_def write_month_def put2 del: list.map)
  have u: "e_utc put_env = sample_calendar" by (simp add: sample_env_def)
  have "append_kline_range depth put_env sample_months (put_store manifest) ''BTC'' ''1m'' put_rows
      (sm_timeframe_ms put_series) (sm_price_scale put_series) (sm_volume_scale put_series)
    = Some (st', Inr (range_summary (sm_timeframe_ms put_series) (Some put_series) put_rows [''2024-01'']))"
    unfolding append_kline_range_def u v sample_batches ok_then_simps option.map r(1) x
    by (simp add: e p w init_if_missing_def dir del: list.map)
  then show thesis using that r(1,2,6-9) dir by blast
qed

text \<open>What the two writes need of the store and the series.\<close>

lemma put_series_at: "kline_series_at st ''BTC'' ''1m'' put_series (\<lambda>_. [])"
  by (simp add: kline_series_at_def series_stored_def spans_ordered_def named_chunks_def put_series_def sample_series_def KLINE_CATEGORY_def)

lemma put_store_caches:
  "file_cache_ok (rt_files (fk_chunk_runtime (put_store manifest)))" "\<not> cp_auto_merge (fk_compaction_policy (put_store manifest))"
proof -
  have "fk_chunk_runtime (put_store manifest) = runtime_new DEFAULT_FILE_CACHE_CAPACITY" by (simp add: put_store_defs)
  then show "file_cache_ok (rt_files (fk_chunk_runtime (put_store manifest)))"
    by (simp add: file_cache_new_ok runtime_new_def DEFAULT_FILE_CACHE_CAPACITY_def)
  show "\<not> cp_auto_merge (fk_compaction_policy (put_store manifest))" by (simp add: put_store_defs compaction_policy_default_def)
qed

lemma put_series_rows: "series_rows (\<lambda>_. []) put_series = ([] :: KlineRecord list)"
  by (simp add: series_rows_def put_series_def)

lemma put_rows_between: "filter (in_range k_ts (I64 15) (I64 30)) (sort_key k_ts put_rows) = map sample_kline [20, 30]"
  by code_simp

text \<open>A calendar of two months: one that ends at 25 and one that ends at 100.\<close>

definition two_calendar :: calendar where
  "two_calendar t = (if t < I64 25 then Some (2024, 1, 1, 0) else if t < I64 100 then Some (2024, 2, 1, 0) else None)"

definition two_months :: months where
  "two_months t = (if t < I64 25 then Some (I64 25) else if t < I64 100 then Some (I64 100) else None)"

lemma two_months_intervals: "months_are_intervals two_calendar two_months"
proof -
  have l: "I64 25 < I64 100" by code_simp
  show ?thesis unfolding months_are_intervals_def month_of_def two_calendar_def two_months_def using l
    by (auto split: if_splits)
qed

end
