(* ===== verification/BridgeSample.thy ===== *)
theory BridgeSample
  imports BridgePut RangeSample
begin

text \<open>A run of a write request and of the read request after it, on the store of the sample writes.\<close>

definition put_request :: WriteKlineRequest where
  "put_request = \<lparr>wk_timeframe_ms = sm_timeframe_ms put_series, wk_price_scale = sm_price_scale put_series,
     wk_volume_scale = sm_volume_scale put_series, wk_records = map kline_to_bridge (rev put_rows)\<rparr>"

lemma put_open: "store_open depth put_env sample_root (put_disk manifest) = Some (put_disk manifest, Inr (put_store manifest))"
proof -
  have "\<not> fs_exists (ms_fs (put_disk manifest)) put_marker"
    using put_paths(7,8) by (auto simp: fs_exists_def put_disk_def)
  then show ?thesis by (simp add: store_open_def open_mode_def has_pending_recovery_def put_store_def)
qed

lemma kline_bridge_codec [simp]: "kline_from_bridge (kline_to_bridge r) = r"
  by (simp add: kline_from_bridge_def kline_to_bridge_def)

lemma put_normalized: "sort_key k_ts (map kline_from_bridge (wk_records put_request)) = put_rows" "distinct (map kb_ts (wk_records put_request))"
proof -
  have "map kline_from_bridge (wk_records put_request) = rev put_rows" by (simp add: put_request_def)
  moreover have "sort_key k_ts (rev put_rows) = put_rows" by code_simp
  ultimately show "sort_key k_ts (map kline_from_bridge (wk_records put_request)) = put_rows" by metis
  have "map kb_ts (wk_records put_request) = map k_ts (rev put_rows)" by (simp add: put_request_def kline_to_bridge_def)
  moreover have "distinct (map k_ts (rev put_rows))" by code_simp
  ultimately show "distinct (map kb_ts (wk_records put_request))" by metis
qed

lemma reopen:
  assumes "within {put_manifest, put_marker, put_chunk, put_lock} put_dirs (ms_fs disk)" and "fs_files (ms_fs disk) put_marker = None"
    and "fs_files (ms_fs disk) put_lock \<noteq> None"
  shows "\<exists>disk' st. open_read_only depth put_env sample_root disk = Some (disk', Inr st)"
proof -
  have "\<not> fs_exists (ms_fs disk) put_marker"
    using assms(1,2) put_paths(7) by (auto simp: fs_exists_def within_def)
  moreover have "fs_exists (ms_fs disk) put_lock" using assms(3) by (simp add: fs_exists_def)
  then have "\<exists>l. read_lock_acquire put_env sample_root (ms_fs disk) = Inr l"
    by (simp add: read_lock_acquire_def open_existing_def env_simps os_ok_def) (simp add: sample_env_def)
  ultimately show ?thesis by (auto simp: open_read_only_def open_mode_def has_pending_recovery_def Let_def)
qed

lemma request_run:
  assumes "encode_manifest put_series = Inr manifest"
  obtains st1 st2 disk' response disk'' r where "begin_mutation depth put_env (put_store manifest) = Some (st1, Inr ())"
    and "load_kline_meta put_env st1 ''BTC'' ''1m'' = (st2, Inr put_series)"
    and "fs_exists (ms_fs (fk_disk st2)) (path_join (fk_root st2) ''series'')"
    and "manifest_on_disk put_env st2 put_dir put_series"
    and "write_kline_range depth put_env sample_months (put_disk manifest) sample_root ''BTC'' ''1m'' put_request = Some (disk', Inr response)"
    and "open_read_only depth put_env sample_root disk' = Some (disk'', Inr r)"
proof -
  obtain st1 st2 st' summary where a: "begin_mutation depth put_env (put_store manifest) = Some (st1, Inr ())"
    "load_kline_meta put_env st1 ''BTC'' ''1m'' = (st2, Inr put_series)"
    "fs_exists (ms_fs (fk_disk st2)) (path_join (fk_root st2) ''series'')"
    "append_kline_range depth put_env sample_months (put_store manifest) ''BTC'' ''1m'' put_rows
      (sm_timeframe_ms put_series) (sm_price_scale put_series) (sm_volume_scale put_series) = Some (st', Inr summary)"
    "within {put_manifest, put_marker, put_chunk, put_lock} put_dirs (fs_of st')" "fs_files (fs_of st') put_marker = None"
    "fs_files (fs_of st') put_lock \<noteq> None" "fk_files st2 put_manifest = Some manifest"
    by (rule append_run [OF assms])
  have w: "\<exists>response. write_kline_range depth put_env sample_months (put_disk manifest) sample_root ''BTC'' ''1m'' put_request
      = Some (fk_disk st', Inr response)"
    using a(4) unfolding write_kline_range_def normalize_kline_exact put_normalized
    by (simp add: put_normalized(2) with_store_def put_open del: list.map) (simp add: put_request_def del: list.map)
  have "manifest_on_disk put_env st2 put_dir put_series" by (rule encoded_on_disk [OF assms a(8) put_series_valid])
  with a(1-3) w reopen [OF a(5-7)] that show thesis by blast
qed

end
