(* ===== verification/Replay.thy ===== *)
theory Replay
  imports StoreReads "HOL-Library.Product_Lexorder" "HOL-Library.List_Lexorder" "HOL-Library.Char_ord"
begin

text \<open>
  Replay cursors (\<^verbatim>\<open>src/src/store_core/engine/replay.rs\<close>): a cursor over the sealed chunks of a series that
  hands out its rows in batches, reading the files directly and without the caches. The batch loop
  is a partial function: it never returns when a file holds fewer rows than the manifest says, since
  then it reads nothing and does not advance. Shown here: over chunks as the writers leave them the
  loop ends, and a cursor refines the list of rows that are still to come, also for record types
  with equal timestamps.
\<close>

record ReplayOptions =
  ro_start_ts :: i64
  ro_end_ts :: "i64 option"
  ro_batch_hint :: "nat option"

record ReplayChunkRef =
  rc_series_dir :: path
  rc_chunk :: ChunkMeta
  rc_series_id :: u64

record ReplayCursor =
  rp_chunks :: "ReplayChunkRef list"
  rp_current_chunk_index :: nat
  rp_current_record_index :: u64
  rp_end_ts :: "i64 option"
  rp_exhausted :: bool

section \<open>Reading a chunk\<close>

definition replay_validate_meta :: "'r FixedRecord \<Rightarrow> SeriesMeta \<Rightarrow> unit res" where
  "replay_validate_meta R meta =
     and_then (ensure (\<not> sm_record_type meta \<noteq> RECORD_TYPE R) (InvalidData ''replay record type mismatch'')) (\<lambda>_.
     and_then (ensure (\<not> sm_schema_id meta \<noteq> SCHEMA_ID R) (InvalidData ''replay schema mismatch'')) (\<lambda>_.
     ensure (\<not> unat (sm_record_size meta) \<noteq> BYTE_SIZE R) (InvalidData ''replay record size mismatch'')))"

definition open_chunk_file :: "(path \<rightharpoonup> u8 list) \<Rightarrow> ReplayChunkRef \<Rightarrow> u8 list res" where
  "open_chunk_file fs chunk_ref =
     ok_or (fs (resolve_relative_path (rc_series_dir chunk_ref) (cm_relative_path (rc_chunk chunk_ref)))) (Io NotFoundKind)"

definition read_and_validate_header :: "'r FixedRecord \<Rightarrow> u8 list \<Rightarrow> ReplayChunkRef \<Rightarrow> ChunkHeader res" where
  "read_and_validate_header R file chunk_ref =
     and_then (header_read_from file) (\<lambda>header.
     and_then (ensure (\<not> h_schema_id header \<noteq> SCHEMA_ID R) (InvalidData ''replay expected schema'')) (\<lambda>_.
     and_then (ensure (\<not> unat (h_record_size header) \<noteq> BYTE_SIZE R) (InvalidData ''replay unexpected record size'')) (\<lambda>_.
     and_then (ensure (\<not> h_series_id header \<noteq> rc_series_id chunk_ref) (InvalidData ''replay series_id mismatch'')) (\<lambda>_.
     Inr header))))"

definition replay_read_timestamp_at :: "u8 list \<Rightarrow> ChunkHeader \<Rightarrow> u64 \<Rightarrow> i64 res" where
  "replay_read_timestamp_at file header index =
     and_then (read_at file (row_offset header index) 8) (\<lambda>bytes. Inr (i64_of_le_bytes bytes))"

definition read_record_at :: "'r FixedRecord \<Rightarrow> u8 list \<Rightarrow> ChunkHeader \<Rightarrow> u64 \<Rightarrow> 'r res" where
  "read_record_at R file header index = and_then (read_at file (row_offset header index) (BYTE_SIZE R)) (decode_le R)"

definition lower_bound_in_chunk :: "'r FixedRecord \<Rightarrow> (path \<rightharpoonup> u8 list) \<Rightarrow> ReplayChunkRef \<Rightarrow> i64 \<Rightarrow> u64 res" where
  "lower_bound_in_chunk R fs chunk_ref target_ts =
     and_then (open_chunk_file fs chunk_ref) (\<lambda>file.
     and_then (read_and_validate_header R file chunk_ref) (\<lambda>header.
     and_then (bsearch_res (\<lambda>mid.
         and_then (replay_read_timestamp_at file header (word_of_nat mid)) (\<lambda>ts. Inr (ts < target_ts)))
       0 (unat (h_count header))) (\<lambda>left. Inr (word_of_nat left))))"

text \<open>The loop of \<open>read_batch_from_chunk\<close>; its first number counts the records still wanted.\<close>

fun batch_loop ::
  "'r FixedRecord \<Rightarrow> u8 list \<Rightarrow> ChunkHeader \<Rightarrow> i64 option \<Rightarrow> nat \<Rightarrow> u64 \<Rightarrow> 'r list \<Rightarrow> ('r list \<times> u64) res" where
  "batch_loop R file header end_ts 0 index out = Inr (out, index)"
| "batch_loop R file header end_ts (Suc wanted) index out =
     (if index < h_count header then
        and_then (read_record_at R file header index) (\<lambda>record.
        if (case end_ts of None \<Rightarrow> False | Some end_ts \<Rightarrow> ts_of R record > end_ts) then Inr (out, h_count header)
        else batch_loop R file header end_ts wanted (index + 1) (out @ [record]))
      else Inr (out, index))"

definition read_batch_from_chunk ::
  "'r FixedRecord \<Rightarrow> (path \<rightharpoonup> u8 list) \<Rightarrow> ReplayChunkRef \<Rightarrow> u64 \<Rightarrow> i64 option \<Rightarrow> nat \<Rightarrow> ('r list \<times> u64) res" where
  "read_batch_from_chunk R fs chunk_ref start_index end_ts max_records =
     (if max_records = 0 \<or> start_index \<ge> cm_count (rc_chunk chunk_ref) then Inr ([], start_index)
      else
        and_then (open_chunk_file fs chunk_ref) (\<lambda>file.
        and_then (read_and_validate_header R file chunk_ref) (\<lambda>header.
        batch_loop R file header end_ts max_records start_index [])))"

section \<open>The cursor\<close>

text \<open>The loop of \<open>seek_to_start\<close> over the chunks from an index on.\<close>

fun seek_loop :: "'r FixedRecord \<Rightarrow> (path \<rightharpoonup> u8 list) \<Rightarrow> i64 \<Rightarrow> ReplayCursor \<Rightarrow> ReplayChunkRef list \<Rightarrow> ReplayCursor res" where
  "seek_loop R fs start_ts cursor [] = Inr (cursor\<lparr>rp_exhausted := True\<rparr>)"
| "seek_loop R fs start_ts cursor (chunk_ref # refs) =
     (let skip = cursor\<lparr>rp_current_chunk_index := rp_current_chunk_index cursor + 1\<rparr> in
      if cm_end_ts (rc_chunk chunk_ref) < start_ts \<or> cm_count (rc_chunk chunk_ref) = 0 then seek_loop R fs start_ts skip refs
      else
        and_then (lower_bound_in_chunk R fs chunk_ref start_ts) (\<lambda>index.
        if index \<ge> cm_count (rc_chunk chunk_ref) then seek_loop R fs start_ts skip refs
        else Inr (cursor\<lparr>rp_current_record_index := index, rp_exhausted := False\<rparr>)))"

definition seek_to_start :: "'r FixedRecord \<Rightarrow> (path \<rightharpoonup> u8 list) \<Rightarrow> i64 \<Rightarrow> ReplayCursor \<Rightarrow> ReplayCursor res" where
  "seek_to_start R fs start_ts cursor =
     seek_loop R fs start_ts cursor (drop (rp_current_chunk_index cursor) (rp_chunks cursor))"

definition replay_new ::
  "'r FixedRecord \<Rightarrow> (path \<rightharpoonup> u8 list) \<Rightarrow> path \<Rightarrow> SeriesMeta \<Rightarrow> ReplayOptions \<Rightarrow> ReplayCursor res" where
  "replay_new R fs dir meta options =
     and_then (ensure (\<not> (case ro_end_ts options of None \<Rightarrow> False | Some end_ts \<Rightarrow> ro_start_ts options > end_ts))
       (InvalidInput ''replay start_ts is after end_ts'')) (\<lambda>_.
     and_then (replay_validate_meta R meta) (\<lambda>_.
     let selected = filter (\<lambda>c. case ro_end_ts options of None \<Rightarrow> True | Some end_ts \<Rightarrow> cm_start_ts c \<le> end_ts)
           (filter (\<lambda>c. cm_end_ts c \<ge> ro_start_ts options) (filter (\<lambda>c. cm_state c = Sealed) (sm_chunks meta)));
         refs = map (\<lambda>c. \<lparr>rc_series_dir = dir, rc_chunk = c, rc_series_id = sm_series_id meta\<rparr>) selected;
         refs = sort_key (\<lambda>r. (cm_start_ts (rc_chunk r), cm_month_key (rc_chunk r), cm_generation (rc_chunk r), cm_chunk_id (rc_chunk r))) refs in
     seek_to_start R fs (ro_start_ts options)
       \<lparr>rp_chunks = refs, rp_current_chunk_index = 0, rp_current_record_index = 0, rp_end_ts = ro_end_ts options, rp_exhausted = False\<rparr>))"

definition advance_chunk :: "ReplayCursor \<Rightarrow> ReplayCursor" where
  "advance_chunk cursor =
     (let first = rp_current_chunk_index cursor + 1;
          index = first + length (takeWhile (\<lambda>r. cm_count (rc_chunk r) = 0) (drop first (rp_chunks cursor))) in
      cursor\<lparr>rp_current_chunk_index := index, rp_current_record_index := 0,
        rp_exhausted := \<not> index < length (rp_chunks cursor)\<rparr>)"

partial_function (option) next_batch_loop ::
  "'r FixedRecord \<Rightarrow> (path \<rightharpoonup> u8 list) \<Rightarrow> nat \<Rightarrow> ReplayCursor \<Rightarrow> 'r list \<Rightarrow> (ReplayCursor \<times> 'r list res) option" where
  "next_batch_loop R fs max_records cursor out =
     (if \<not> (length out < max_records \<and> \<not> rp_exhausted cursor) then Some (cursor, Inr out)
      else if \<not> rp_current_chunk_index cursor < length (rp_chunks cursor) then Some (cursor\<lparr>rp_exhausted := True\<rparr>, Inr out)
      else
        let chunk_ref = rp_chunks cursor ! rp_current_chunk_index cursor in
        (case read_batch_from_chunk R fs chunk_ref (rp_current_record_index cursor) (rp_end_ts cursor) (max_records - length out) of
           Inl e \<Rightarrow> Some (cursor, Inl e)
         | Inr (rows, next_index) \<Rightarrow>
             let out = out @ rows;
                 cursor = cursor\<lparr>rp_current_record_index := next_index\<rparr>;
                 cursor =
                   (if next_index \<ge> cm_count (rc_chunk chunk_ref)
                       \<or> (case rp_end_ts cursor of
                            None \<Rightarrow> False
                          | Some end_ts \<Rightarrow> cm_end_ts (rc_chunk chunk_ref) > end_ts \<and> length out < max_records)
                    then advance_chunk cursor else cursor) in
             if length out = max_records then Some (cursor, Inr out) else next_batch_loop R fs max_records cursor out))"

text \<open>
  \<open>Vec::with_capacity(max_records)\<close> panics when the buffer would be larger than \<open>isize::MAX\<close> bytes; a record
  has its encoded size in memory (\<open>repr(C)\<close>, without padding of the compiler). The buffer of
  \<open>read_batch_from_chunk\<close> asks for no more than what is left of this capacity and cannot panic
  after it. That the allocator itself runs out of memory is not modelled.
\<close>

definition capacity_ok :: "'r FixedRecord \<Rightarrow> nat \<Rightarrow> bool" where
  "capacity_ok R capacity \<longleftrightarrow> capacity * BYTE_SIZE R < 2 ^ 63"

definition next_batch ::
  "'r FixedRecord \<Rightarrow> (path \<rightharpoonup> u8 list) \<Rightarrow> ReplayCursor \<Rightarrow> nat \<Rightarrow> (ReplayCursor \<times> 'r list res) option" where
  "next_batch R fs cursor max_records =
     (if max_records = 0 then Some (cursor, Inl (InvalidInput ''replay max_records must be greater than zero''))
      else if rp_exhausted cursor then Some (cursor, Inr [])
      else if \<not> capacity_ok R max_records then Some (cursor, Inl (Panic ''capacity overflow''))
      else next_batch_loop R fs max_records cursor [])"

definition is_exhausted :: "ReplayCursor \<Rightarrow> bool" where
  "is_exhausted cursor = rp_exhausted cursor"

section \<open>Cursors of the store\<close>

definition replay_kline :: "Env \<Rightarrow> FastKStore \<Rightarrow> string \<Rightarrow> string \<Rightarrow> i64 \<Rightarrow> i64 option \<Rightarrow> FastKStore \<times> ReplayCursor res" where
  "replay_kline E st symbol timeframe start_ts end_ts =
     with_meta (load_kline_meta E st symbol timeframe) (\<lambda>st meta.
       (st, replay_new kline_record (fk_files st) (kline_series_dir (fk_root st) symbol timeframe) meta
         \<lparr>ro_start_ts = start_ts, ro_end_ts = end_ts, ro_batch_hint = None\<rparr>))"

definition replay_scalar :: "Env \<Rightarrow> FastKStore \<Rightarrow> ScalarSeriesKey \<Rightarrow> i64 \<Rightarrow> i64 option \<Rightarrow> FastKStore \<times> ReplayCursor res" where
  "replay_scalar E st key start_ts end_ts =
     with_meta (load_scalar_meta E st key) (\<lambda>st meta.
       (st, replay_new scalar_record (fk_files st)
         (scalar_series_dir (fk_root st) (key_symbol key) (key_category key) (key_name key)) meta
         \<lparr>ro_start_ts = start_ts, ro_end_ts = end_ts, ro_batch_hint = None\<rparr>))"

definition replay_fixed ::
  "'r FixedRecord \<Rightarrow> Env \<Rightarrow> FastKStore \<Rightarrow> string \<Rightarrow> string \<Rightarrow> string \<Rightarrow> i64 \<Rightarrow> i64 option \<Rightarrow> FastKStore \<times> ReplayCursor res" where
  "replay_fixed R E st symbol category name start_ts end_ts =
     with_meta (load_fixed_meta E st symbol category name) (\<lambda>st meta.
       (st, replay_new R (fk_files st) (series_dir (fk_root st) symbol category name) meta
         \<lparr>ro_start_ts = start_ts, ro_end_ts = end_ts, ro_batch_hint = None\<rparr>))"

definition replay_trade :: "Env \<Rightarrow> FastKStore \<Rightarrow> string \<Rightarrow> string \<Rightarrow> i64 \<Rightarrow> i64 option \<Rightarrow> FastKStore \<times> ReplayCursor res" where
  "replay_trade E st symbol channel start_ts end_ts = replay_fixed trade_record E st symbol TRADE_CATEGORY channel start_ts end_ts"

definition replay_bbo :: "Env \<Rightarrow> FastKStore \<Rightarrow> string \<Rightarrow> string \<Rightarrow> i64 \<Rightarrow> i64 option \<Rightarrow> FastKStore \<times> ReplayCursor res" where
  "replay_bbo E st symbol channel start_ts end_ts = replay_fixed bbo_record E st symbol BBO_CATEGORY channel start_ts end_ts"

definition replay_book_delta :: "Env \<Rightarrow> FastKStore \<Rightarrow> string \<Rightarrow> string \<Rightarrow> i64 \<Rightarrow> i64 option \<Rightarrow> FastKStore \<times> ReplayCursor res" where
  "replay_book_delta E st symbol channel start_ts end_ts =
     replay_fixed book_delta_record E st symbol BOOK_DELTA_CATEGORY channel start_ts end_ts"

section \<open>A cursor refines the rows still to come\<close>

definition replay_chunk :: "'r FixedRecord \<Rightarrow> ('r \<Rightarrow> bool) \<Rightarrow> (path \<rightharpoonup> u8 list) \<Rightarrow> ReplayChunkRef \<Rightarrow> 'r list \<Rightarrow> bool" where
  "replay_chunk R ok fs chunk_ref rows \<longleftrightarrow>
     (\<exists>file header. open_chunk_file fs chunk_ref = Inr file \<and> read_and_validate_header R file chunk_ref = Inr header
        \<and> chunk_holds R ok header rows file)
     \<and> sorted (map (ts_of R) rows) \<and> rows \<noteq> []
     \<and> cm_start_ts (rc_chunk chunk_ref) = ts_of R (hd rows) \<and> cm_end_ts (rc_chunk chunk_ref) = ts_of R (last rows)
     \<and> cm_count (rc_chunk chunk_ref) = word_of_nat (length rows)"

definition until :: "i64 option \<Rightarrow> i64 \<Rightarrow> bool" where
  "until end_ts t \<longleftrightarrow> (case end_ts of None \<Rightarrow> True | Some e \<Rightarrow> t \<le> e)"

definition remaining :: "'r FixedRecord \<Rightarrow> (ChunkMeta \<Rightarrow> 'r list) \<Rightarrow> ReplayCursor \<Rightarrow> 'r list" where
  "remaining R rows_of cursor =
     (case drop (rp_current_chunk_index cursor) (rp_chunks cursor) of
        [] \<Rightarrow> []
      | chunk_ref # refs \<Rightarrow>
          filter (\<lambda>r. until (rp_end_ts cursor) (ts_of R r)) (drop (unat (rp_current_record_index cursor)) (rows_of (rc_chunk chunk_ref))
            @ concat (map (\<lambda>c. rows_of (rc_chunk c)) refs)))"

definition cursor_ok :: "'r FixedRecord \<Rightarrow> ('r \<Rightarrow> bool) \<Rightarrow> (path \<rightharpoonup> u8 list) \<Rightarrow> (ChunkMeta \<Rightarrow> 'r list) \<Rightarrow> ReplayCursor \<Rightarrow> bool" where
  "cursor_ok R ok fs rows_of cursor \<longleftrightarrow>
     (\<forall>chunk_ref \<in> set (rp_chunks cursor). replay_chunk R ok fs chunk_ref (rows_of (rc_chunk chunk_ref)))
     \<and> (rp_exhausted cursor \<longleftrightarrow> \<not> rp_current_chunk_index cursor < length (rp_chunks cursor))
     \<and> (rp_current_chunk_index cursor < length (rp_chunks cursor) \<longrightarrow>
          unat (rp_current_record_index cursor) \<le> length (rows_of (rc_chunk (rp_chunks cursor ! rp_current_chunk_index cursor))))"

lemma until_mono: "until e b \<Longrightarrow> a \<le> b \<Longrightarrow> until e a"
  unfolding until_def by (cases e) (simp, simp only: option.case order.trans)

lemma filter_concat_skip:
  "(\<And>x. x \<in> set xs \<Longrightarrow> \<not> P x \<Longrightarrow> filter Q (g x) = []) \<Longrightarrow>
     filter Q (concat (map g (filter P xs))) = filter Q (concat (map g xs))"
  by (induction xs) auto

lemma until_takeWhile:
  assumes "sorted (map f rows)"
  shows "takeWhile (\<lambda>r. until e (f r)) rows = filter (\<lambda>r. until e (f r)) rows"
  using assms
proof (induction rows)
  case (Cons r rows)
  show ?case
  proof (cases "until e (f r)")
    case True
    with Cons show ?thesis by simp
  next
    case False
    then have "\<forall>x \<in> set rows. \<not> until e (f x)" using Cons.prems until_mono by fastforce
    with False show ?thesis by (simp add: filter_empty_conv)
  qed
qed simp

lemma drop_lower_index:
  assumes "sorted (map f rows)"
  shows "drop (lower_index (map f rows) t) rows = filter (\<lambda>r. t \<le> f r) rows"
  using assms
proof (induction rows)
  case (Cons r rows)
  show ?case
  proof (cases "f r < t")
    case True
    with Cons show ?thesis by (simp add: lower_index_def partition_point_def not_le)
  next
    case False
    then have "\<forall>x \<in> set rows. t \<le> f x" using Cons.prems by fastforce
    with False show ?thesis by (simp add: lower_index_def partition_point_def not_less)
  qed
qed (simp add: lower_index_def)

lemma filter_prefix:
  assumes "takeWhile P xs = filter P xs" and "n \<le> length (filter P xs)"
  shows "filter P xs = take n (filter P xs) @ filter P (drop n xs)"
proof -
  have "take n (filter P xs) = take n xs"
    using assms by (metis min.absorb1 take_take takeWhile_eq_take)
  moreover have "\<forall>x \<in> set (take n (filter P xs)). P x" by (auto dest: in_set_takeD)
  ultimately have "filter P (take n xs) = take n (filter P xs)" by (metis filter_id_conv)
  then show ?thesis by (metis append_take_drop_id filter_append)
qed

text \<open>A client that asks for batches of given sizes.\<close>

fun read_batches :: "'r FixedRecord \<Rightarrow> (path \<rightharpoonup> u8 list) \<Rightarrow> ReplayCursor \<Rightarrow> nat list \<Rightarrow> (ReplayCursor \<times> 'r list list res) option" where
  "read_batches R fs cursor [] = Some (cursor, Inr [])"
| "read_batches R fs cursor (n # sizes) =
     (case next_batch R fs cursor n of
        None \<Rightarrow> None
      | Some (cursor, Inl e) \<Rightarrow> Some (cursor, Inl e)
      | Some (cursor, Inr batch) \<Rightarrow> map_option (\<lambda>(cursor, r). (cursor, and_then r (\<lambda>batches. Inr (batch # batches)))) (read_batches R fs cursor sizes))"

lemma stored_replay_chunk:
  assumes "chunk_stored R ok fs dir sid c rows"
    and "resolve_relative_path dir (cm_relative_path c) = path_join dir (cm_relative_path c)"
  shows "replay_chunk R ok fs \<lparr>rc_series_dir = dir, rc_chunk = c, rc_series_id = sid\<rparr> rows"
  using assms strict_sorted_imp_sorted
  by (fastforce simp: chunk_stored_def replay_chunk_def open_chunk_file_def read_and_validate_header_def load_layout_def
      fixed_validate_header_def res_simps)

context fixed_record
begin

lemma replay_count:
  assumes "replay_chunk R wf fs chunk_ref rows"
  shows "unat (cm_count (rc_chunk chunk_ref)) = length rows" "cm_count (rc_chunk chunk_ref) \<noteq> 0" "length rows < 2 ^ 63"
proof -
  show n: "length rows < 2 ^ 63" using assms chunk_rows_less by (auto simp: replay_chunk_def)
  then show u: "unat (cm_count (rc_chunk chunk_ref)) = length rows" using assms by (simp add: replay_chunk_def)
  then show "cm_count (rc_chunk chunk_ref) \<noteq> 0" using assms by (auto simp: replay_chunk_def)
qed

lemma read_record:
  assumes "chunk_holds R wf h rows file" and "i < length rows"
  shows "read_record_at R file h (word_of_nat i) = Inr (rows ! i)"
proof -
  have "slice_of i (Suc i) rows = [rows ! i]" using slice_single [OF assms(2)] by simp
  then have "read_at file (row_offset h (word_of_nat i)) (BYTE_SIZE R) = Inr (encode_le R (rows ! i))"
    using read_rows [OF assms(1), of i "Suc i"] assms(2) by simp
  moreover have "wf (rows ! i)" using assms by (simp add: chunk_holds_def)
  ultimately show ?thesis by (simp add: read_record_at_def decode_encode)
qed

lemma batch_loop_rows:
  assumes "chunk_holds R wf h rows file" and "i \<le> length rows"
  shows "batch_loop R file h e n (word_of_nat i) out =
    (let good = takeWhile (\<lambda>r. until e (ts_of R r)) (drop i rows) in
     Inr (out @ take n good, word_of_nat (if n \<le> length good then i + n else length rows)))"
  using assms(2)
proof (induction n arbitrary: i out)
  case (Suc n)
  have len: "length rows < 2 ^ 63" by (rule chunk_rows_less [OF assms(1)])
  have c: "h_count h = word_of_nat (length rows)" using assms(1) by (simp add: chunk_holds_def)
  show ?case
  proof (cases "i < length rows")
    case True
    have lt: "(word_of_nat i :: u64) < h_count h" using True len by (simp add: c word_of_nat_less_u64)
    have d: "drop i rows = rows ! i # drop (Suc i) rows" using True by (simp add: Cons_nth_drop_Suc)
    have t: "(case e of None \<Rightarrow> False | Some e \<Rightarrow> ts_of R (rows ! i) > e) \<longleftrightarrow> \<not> until e (ts_of R (rows ! i))"
      by (auto simp: until_def split: option.splits)
    have s: "(word_of_nat i :: u64) + 1 = word_of_nat (Suc i)" by simp
    show ?thesis
      using Suc.IH [of "Suc i" "out @ [rows ! i]"] True
      by (simp only: batch_loop.simps lt if_True read_record [OF assms(1) True] and_then.simps t s)
        (auto simp: Let_def d c)
  next
    case False
    then have "i = length rows" using Suc.prems by simp
    then show ?thesis by (simp add: c Let_def)
  qed
qed simp

lemma read_batch:
  assumes "replay_chunk R wf fs chunk_ref rows" and "i \<le> length rows" and "0 < n"
  shows "read_batch_from_chunk R fs chunk_ref (word_of_nat i) e n =
    (let good = filter (\<lambda>r. until e (ts_of R r)) (drop i rows) in
     Inr (take n good, word_of_nat (if n \<le> length good then i + n else length rows)))"
proof -
  obtain f' h where f: "open_chunk_file fs chunk_ref = Inr f'" "read_and_validate_header R f' chunk_ref = Inr h" "chunk_holds R wf h rows f'"
    using assms(1) by (auto simp: replay_chunk_def)
  have c: "cm_count (rc_chunk chunk_ref) = word_of_nat (length rows)" "sorted (map (ts_of R) rows)" using assms(1) by (simp_all add: replay_chunk_def)
  have n: "length rows < 2 ^ 63" by (rule replay_count [OF assms(1)])
  have g: "takeWhile (\<lambda>r. until e (ts_of R r)) (drop i rows) = filter (\<lambda>r. until e (ts_of R r)) (drop i rows)"
    using c(2) by (intro until_takeWhile) (simp add: drop_map [symmetric] sorted_wrt_drop)
  show ?thesis
  proof (cases "i < length rows")
    case True
    then have "\<not> cm_count (rc_chunk chunk_ref) \<le> word_of_nat i" using n by (simp add: c word_of_nat_less_u64 not_le)
    then show ?thesis using batch_loop_rows [OF f(3) assms(2), of e n "[]"] assms(3) f(1,2)
      by (simp add: read_batch_from_chunk_def g Let_def)
  next
    case False
    with assms(2) have "i = length rows" by simp
    with assms(3) show ?thesis by (simp add: read_batch_from_chunk_def c Let_def)
  qed
qed

lemma advance:
  assumes "cursor_ok R wf fs rows_of cursor"
  shows "advance_chunk cursor = cursor\<lparr>rp_current_chunk_index := rp_current_chunk_index cursor + 1, rp_current_record_index := 0,
    rp_exhausted := \<not> rp_current_chunk_index cursor + 1 < length (rp_chunks cursor)\<rparr>"
proof -
  have "cm_count (rc_chunk r) \<noteq> 0" if "r \<in> set (drop k (rp_chunks cursor))" for r k
    using assms replay_count(2) in_set_dropD [OF that] by (auto simp: cursor_ok_def)
  then have "takeWhile (\<lambda>r. cm_count (rc_chunk r) = 0) (drop k (rp_chunks cursor)) = []" for k
    by (cases "drop k (rp_chunks cursor)") (auto, metis list.set_intros(1))
  then show ?thesis by (simp add: advance_chunk_def Let_def)
qed

lemma advance_ok:
  assumes "cursor_ok R wf fs rows_of cursor" and "rp_current_chunk_index cursor < length (rp_chunks cursor)"
  shows "cursor_ok R wf fs rows_of (advance_chunk cursor)"
    and "remaining R rows_of (advance_chunk cursor) = filter (\<lambda>r. until (rp_end_ts cursor) (ts_of R r))
      (concat (map (\<lambda>c. rows_of (rc_chunk c)) (drop (Suc (rp_current_chunk_index cursor)) (rp_chunks cursor))))"
  using assms(1) unfolding advance [OF assms(1)]
  by (auto simp: cursor_ok_def remaining_def split: list.splits)

lemma next_batch_loop_rows:
  assumes "cursor_ok R wf fs rows_of cursor" and "length out < limit"
  shows "\<exists>cursor'. next_batch_loop R fs limit cursor out = Some (cursor', Inr (out @ take (limit - length out) (remaining R rows_of cursor)))
    \<and> cursor_ok R wf fs rows_of cursor' \<and> remaining R rows_of cursor' = drop (limit - length out) (remaining R rows_of cursor)
    \<and> (length (remaining R rows_of cursor) < limit - length out \<longrightarrow> rp_exhausted cursor')"
  using assms
proof (induction "length (rp_chunks cursor) - rp_current_chunk_index cursor" arbitrary: cursor out rule: less_induct)
  case less
  let ?n = "limit - length out" and ?k = "rp_current_chunk_index cursor" and ?e = "rp_end_ts cursor"
  show ?case
  proof (cases "?k < length (rp_chunks cursor)")
    case False
    with less.prems show ?thesis
      by (subst next_batch_loop.simps) (simp add: cursor_ok_def remaining_def)
  next
    case True
    let ?ref = "rp_chunks cursor ! ?k" and ?i = "unat (rp_current_record_index cursor)"
    let ?rows = "rows_of (rc_chunk ?ref)" and ?W = "\<lambda>r. until ?e (ts_of R r)"
    let ?L = "concat (map (\<lambda>c. rows_of (rc_chunk c)) (drop (Suc ?k) (rp_chunks cursor)))"
    define G where "G = filter ?W (drop ?i ?rows)"
    have ok: "replay_chunk R wf fs ?ref ?rows" "?i \<le> length ?rows" "\<not> rp_exhausted cursor" using less.prems(1) True by (auto simp: cursor_ok_def)
    have n: "0 < ?n" using less.prems(2) by simp
    have rem: "remaining R rows_of cursor = G @ filter ?W ?L"
      using True by (simp add: remaining_def G_def Cons_nth_drop_Suc [symmetric])
    have rb: "read_batch_from_chunk R fs ?ref (rp_current_record_index cursor) ?e ?n
        = Inr (take ?n G, word_of_nat (if ?n \<le> length G then ?i + ?n else length ?rows))"
      using read_batch [OF ok(1,2) n, of ?e] by (simp add: G_def Let_def)
    have len: "length ?rows < 2 ^ 63" "length G \<le> length ?rows - ?i"
      using replay_count(3) [OF ok(1)] by (simp_all add: G_def) (metis length_drop length_filter_le)
    define nxt where "nxt = (if ?n \<le> length G then ?i + ?n else length ?rows)"
    define c1 where "c1 = cursor\<lparr>rp_current_record_index := word_of_nat nxt\<rparr>"
    have nx: "nxt \<le> length ?rows" using len(2) ok(2) unfolding nxt_def by auto
    then have unx: "unat (word_of_nat nxt :: u64) = nxt" using len by simp
    have c1: "cursor_ok R wf fs rows_of c1" "rp_current_chunk_index c1 = ?k" "rp_chunks c1 = rp_chunks cursor" "rp_end_ts c1 = ?e"
      using less.prems(1) nx unx True by (auto simp: cursor_ok_def c1_def)
    have at_end: "word_of_nat nxt \<ge> cm_count (rc_chunk ?ref) \<longleftrightarrow> nxt = length ?rows"
      using nx unx replay_count(1) [OF ok(1)] by (auto simp: word_le_nat_alt)
    have adv: "cursor_ok R wf fs rows_of (advance_chunk c1)" "remaining R rows_of (advance_chunk c1) = filter ?W ?L"
      using advance_ok [OF c1(1)] True c1(2-4) by simp_all
    have loop: "next_batch_loop R fs limit cursor out =
        (let c2 = (if nxt = length ?rows then advance_chunk c1 else c1) in
         if length (out @ take ?n G) = limit then Some (c2, Inr (out @ take ?n G)) else next_batch_loop R fs limit c2 (out @ take ?n G))"
      if "\<not> ?n \<le> length G \<longrightarrow> nxt = length ?rows"
      using True ok(3) less.prems(2) that at_end rb
      by (subst next_batch_loop.simps) (auto simp: nxt_def [symmetric] c1_def Let_def split: option.splits)
    show ?thesis
    proof (cases "?n \<le> length G")
      case False
      then have nl: "nxt = length ?rows" by (simp add: nxt_def)
      let ?c = "advance_chunk c1"
      have "length (rp_chunks ?c) - rp_current_chunk_index ?c < length (rp_chunks cursor) - ?k"
        using True c1 by (simp add: advance [OF c1(1)])
      moreover have "length (out @ G) < limit" using False less.prems(2) by simp
      ultimately obtain c' where "next_batch_loop R fs limit ?c (out @ G) = Some (c', Inr ((out @ G) @ take (limit - length (out @ G)) (filter ?W ?L)))"
        "cursor_ok R wf fs rows_of c'" "remaining R rows_of c' = drop (limit - length (out @ G)) (filter ?W ?L)"
        "length (filter ?W ?L) < limit - length (out @ G) \<longrightarrow> rp_exhausted c'"
        using less.hyps [OF _ adv(1), of "out @ G"] unfolding adv(2) by blast
      moreover have "next_batch_loop R fs limit cursor out = next_batch_loop R fs limit ?c (out @ G)"
      proof -
        have "length out + length G \<noteq> limit" using False less.prems(2) by linarith
        then show ?thesis using loop nl False by (simp add: Let_def)
      qed
      ultimately show ?thesis using False by (auto simp: rem diff_diff_left)
    next
      case nG: True
      then have nn: "nxt = ?i + ?n" by (simp add: nxt_def)
      have full: "length (out @ take ?n G) = limit" using nG less.prems(2) by simp
      let ?c = "if nxt = length ?rows then advance_chunk c1 else c1"
      have split: "G = take ?n G @ filter ?W (drop nxt ?rows)"
      proof -
        have "sorted (map (ts_of R) ?rows)" using ok(1) by (simp add: replay_chunk_def)
        then have "takeWhile ?W (drop ?i ?rows) = filter ?W (drop ?i ?rows)"
          by (intro until_takeWhile) (simp add: drop_map [symmetric] sorted_wrt_drop)
        from filter_prefix [OF this nG [unfolded G_def]] show ?thesis unfolding G_def nn drop_drop by (simp only: add.commute)
      qed
      have "remaining R rows_of c1 = filter ?W (drop nxt ?rows) @ filter ?W ?L"
        using True c1(2-4) unx by (simp add: remaining_def Cons_nth_drop_Suc [symmetric] c1_def)
      then have "remaining R rows_of ?c = filter ?W (drop nxt ?rows) @ filter ?W ?L" using adv(2) by simp
      moreover have "drop ?n G = filter ?W (drop nxt ?rows)" using split nG by (metis append_eq_conv_conj length_take min.absorb2)
      moreover have "next_batch_loop R fs limit cursor out = Some (?c, Inr (out @ take ?n G))" using loop nG full by (simp add: Let_def)
      ultimately show ?thesis using nG adv(1) c1(1) by (simp add: rem)
    qed
  qed
qed

lemma next_batch_rows:
  assumes "cursor_ok R wf fs rows_of cursor" and "0 < n" and "capacity_ok R n"
  shows "\<exists>cursor'. next_batch R fs cursor n = Some (cursor', Inr (take n (remaining R rows_of cursor)))
    \<and> cursor_ok R wf fs rows_of cursor' \<and> remaining R rows_of cursor' = drop n (remaining R rows_of cursor)
    \<and> (length (remaining R rows_of cursor) < n \<longrightarrow> rp_exhausted cursor')"
proof (cases "rp_exhausted cursor")
  case True
  then have "remaining R rows_of cursor = []" using assms(1) by (simp add: cursor_ok_def remaining_def)
  with True assms show ?thesis by (simp add: next_batch_def)
next
  case False
  with next_batch_loop_rows [OF assms(1), of "[]" n] assms(2,3) show ?thesis by (simp add: next_batch_def)
qed

text \<open>Positioning: the chunks come in the order of their timestamps.\<close>

lemma lower_bound_index:
  assumes "replay_chunk R wf fs chunk_ref rows"
  shows "lower_bound_in_chunk R fs chunk_ref t = Inr (word_of_nat (lower_index (map (ts_of R) rows) t))"
proof -
  obtain f' h where f: "open_chunk_file fs chunk_ref = Inr f'" "read_and_validate_header R f' chunk_ref = Inr h" "chunk_holds R wf h rows f'"
    "sorted (map (ts_of R) rows)"
    using assms by (auto simp: replay_chunk_def)
  have "replay_read_timestamp_at = fixed_read_timestamp_at"
    by (intro ext) (simp add: replay_read_timestamp_at_def fixed_read_timestamp_at_def)
  then show ?thesis using fixed.probe_lower [OF f(3,4), of t] f(1,2) by (simp add: lower_bound_in_chunk_def)
qed

lemma seek_rows:
  assumes "\<forall>chunk_ref \<in> set (rp_chunks cursor). replay_chunk R wf fs chunk_ref (rows_of (rc_chunk chunk_ref))"
    and "sorted_wrt (\<lambda>a b. cm_end_ts (rc_chunk a) \<le> cm_start_ts (rc_chunk b)) (rp_chunks cursor)"
    and "refs = drop (rp_current_chunk_index cursor) (rp_chunks cursor)" and "rp_current_chunk_index cursor \<le> length (rp_chunks cursor)"
  shows "\<exists>cursor'. seek_loop R fs t cursor refs = Inr cursor' \<and> cursor_ok R wf fs rows_of cursor'
    \<and> remaining R rows_of cursor' = filter (\<lambda>r. t \<le> ts_of R r \<and> until (rp_end_ts cursor) (ts_of R r)) (concat (map (\<lambda>c. rows_of (rc_chunk c)) refs))"
  using assms
proof (induction refs arbitrary: cursor)
  case Nil
  then show ?case by (auto simp: cursor_ok_def remaining_def)
next
  case (Cons ref refs)
  let ?k = "rp_current_chunk_index cursor" and ?rows = "rows_of (rc_chunk ref)"
  have kl: "?k < length (rp_chunks cursor)" using Cons.prems(3) by (cases "?k < length (rp_chunks cursor)") simp_all
  then have k: "?k < length (rp_chunks cursor)" "ref = rp_chunks cursor ! ?k" "refs = drop (Suc ?k) (rp_chunks cursor)"
    using trans [OF Cons.prems(3) Cons_nth_drop_Suc [OF kl, symmetric]] by simp_all
  have ok: "replay_chunk R wf fs ref ?rows" using Cons.prems(1) k by simp
  then have s: "sorted (map (ts_of R) ?rows)" "?rows \<noteq> []" "cm_end_ts (rc_chunk ref) = ts_of R (last ?rows)" by (simp_all add: replay_chunk_def)
  let ?j = "lower_index (map (ts_of R) ?rows) t"
  have d: "drop ?j ?rows = filter (\<lambda>r. t \<le> ts_of R r) ?rows" by (rule drop_lower_index [OF s(1)])
  have j: "?j \<le> length ?rows" using index_le_length(1) [of "map (ts_of R) ?rows" t] by simp
  have lb: "lower_bound_in_chunk R fs ref t = Inr (word_of_nat ?j)" by (rule lower_bound_index [OF ok])
  note cnt = replay_count [OF ok]
  have ge: "word_of_nat ?j \<ge> cm_count (rc_chunk ref) \<longleftrightarrow> ?j = length ?rows"
    using j cnt by (auto simp: word_le_nat_alt)
  show ?case
  proof (cases "?j = length ?rows")
    case True
    then have none: "filter (\<lambda>r. t \<le> ts_of R r) ?rows = []" using d by simp
    let ?skip = "cursor\<lparr>rp_current_chunk_index := ?k + 1\<rparr>"
    have "seek_loop R fs t cursor (ref # refs) = seek_loop R fs t ?skip refs"
      using lb ge True cnt(2) by (simp add: Let_def)
    moreover have "filter (\<lambda>r. t \<le> ts_of R r \<and> until e (ts_of R r)) ?rows = []" for e using none by (auto simp: filter_empty_conv)
    moreover obtain c' where "seek_loop R fs t ?skip refs = Inr c'" "cursor_ok R wf fs rows_of c'"
      "remaining R rows_of c' = filter (\<lambda>r. t \<le> ts_of R r \<and> until (rp_end_ts cursor) (ts_of R r)) (concat (map (\<lambda>c. rows_of (rc_chunk c)) refs))"
      using Cons.IH [of ?skip] Cons.prems(1,2) k(1,3) by auto
    ultimately show ?thesis by auto
  next
    case False
    then have "filter (\<lambda>r. t \<le> ts_of R r) ?rows \<noteq> []" using d j by (metis drop_eq_Nil le_antisym)
    then obtain r where r: "r \<in> set ?rows" "t \<le> ts_of R r" by (auto simp: filter_empty_conv)
    then have e: "t \<le> cm_end_ts (rc_chunk ref)" using s sorted_hd_last(2) [OF s(1) r(1)] by simp
    have later: "t \<le> ts_of R x" if "x \<in> set (rows_of (rc_chunk c))" "c \<in> set refs" for x c
    proof -
      have c: "c \<in> set (rp_chunks cursor)" using that(2) k(3) by (metis in_set_dropD)
      then have "replay_chunk R wf fs c (rows_of (rc_chunk c))" using Cons.prems(1) by blast
      then have "cm_start_ts (rc_chunk c) \<le> ts_of R x" using that(1) sorted_hd_last(1) by (fastforce simp: replay_chunk_def)
      moreover have "cm_end_ts (rc_chunk ref) \<le> cm_start_ts (rc_chunk c)"
        using Cons.prems(2,3) that(2) by (metis sorted_wrt.simps(2) sorted_wrt_drop)
      ultimately show ?thesis using e by (meson order.trans)
    qed
    let ?c = "cursor\<lparr>rp_current_record_index := word_of_nat ?j, rp_exhausted := False\<rparr>"
    have "seek_loop R fs t cursor (ref # refs) = Inr ?c" using lb ge False cnt(2) leD [OF e] by (simp add: Let_def)
    moreover have u: "unat (word_of_nat ?j :: u64) = ?j" using j cnt(3) by simp
    have "cursor_ok R wf fs rows_of ?c" using Cons.prems(1) k u j by (simp add: cursor_ok_def)
    moreover have "remaining R rows_of ?c = filter (\<lambda>r. t \<le> ts_of R r \<and> until (rp_end_ts cursor) (ts_of R r)) (concat (map (\<lambda>c. rows_of (rc_chunk c)) (ref # refs)))"
    proof -
      have "filter (\<lambda>r. t \<le> ts_of R r \<and> until e (ts_of R r)) (concat (map (\<lambda>c. rows_of (rc_chunk c)) refs))
          = filter (\<lambda>r. until e (ts_of R r)) (concat (map (\<lambda>c. rows_of (rc_chunk c)) refs))" for e
        using later by (intro filter_cong) auto
      then show ?thesis using k d u by (simp add: remaining_def Cons_nth_drop_Suc [symmetric] conj_commute)
    qed
    ultimately show ?thesis by blast
  qed
qed

lemma replay_new_rows:
  assumes meta: "replay_validate_meta R meta = Inr ()" and spans: "spans_ordered (sm_chunks meta)"
    and options: "\<not> (case ro_end_ts options of None \<Rightarrow> False | Some e \<Rightarrow> ro_start_ts options > e)"
    and stored: "\<forall>c \<in> set (sm_chunks meta). cm_state c = Sealed \<longrightarrow>
      replay_chunk R wf fs \<lparr>rc_series_dir = dir, rc_chunk = c, rc_series_id = sm_series_id meta\<rparr> (rows_of c)"
  shows "\<exists>cursor. replay_new R fs dir meta options = Inr cursor \<and> cursor_ok R wf fs rows_of cursor
    \<and> remaining R rows_of cursor = filter (\<lambda>r. ro_start_ts options \<le> ts_of R r \<and> until (ro_end_ts options) (ts_of R r))
        (concat (map rows_of (filter (\<lambda>c. cm_state c = Sealed) (sm_chunks meta))))"
proof -
  let ?t = "ro_start_ts options" and ?e = "ro_end_ts options"
  let ?in = "\<lambda>c. until ?e (cm_start_ts c) \<and> ?t \<le> cm_end_ts c"
  define sealed where "sealed = filter (\<lambda>c. cm_state c = Sealed) (sm_chunks meta)"
  define mk where "mk = (\<lambda>c. \<lparr>rc_series_dir = dir, rc_chunk = c, rc_series_id = sm_series_id meta\<rparr>)"
  define refs where "refs = map mk (filter ?in sealed)"
  let ?key = "\<lambda>r. (cm_start_ts (rc_chunk r), cm_month_key (rc_chunk r), cm_generation (rc_chunk r), cm_chunk_id (rc_chunk r))"
  have sp: "sorted_wrt (\<lambda>a b. cm_end_ts a < cm_start_ts b) (filter ?in sealed)" "\<forall>c \<in> set (filter ?in sealed). cm_start_ts c \<le> cm_end_ts c"
    using spans by (auto simp: spans_ordered_def sealed_def intro!: sorted_wrt_filter)
  have lt: "sorted_wrt (\<lambda>a b. cm_start_ts a < cm_start_ts b) (filter ?in sealed)"
    by (rule sorted_wrt_mono_rel [OF _ sp(1)]) (use sp(2) in \<open>blast intro: le_less_trans\<close>)
  have "sorted (map ?key refs)"
    unfolding refs_def map_map sorted_map by (rule sorted_wrt_mono_rel [OF _ lt]) (simp add: mk_def)
  then have srt: "sort_key ?key refs = refs" by (rule sort_key_id_if_sorted)
  let ?c = "\<lparr>rp_chunks = refs, rp_current_chunk_index = 0, rp_current_record_index = 0, rp_end_ts = ?e, rp_exhausted = False\<rparr>"
  have sel: "filter (\<lambda>c. case ?e of None \<Rightarrow> True | Some end_ts \<Rightarrow> cm_start_ts c \<le> end_ts) (filter (\<lambda>c. ?t \<le> cm_end_ts c) sealed) = filter ?in sealed"
    by (simp add: until_def conj_commute)
  have new: "replay_new R fs dir meta options = seek_loop R fs ?t ?c refs"
    using options meta sel srt by (simp add: replay_new_def seek_to_start_def Let_def sealed_def refs_def mk_def)
  have "\<exists>cursor'. seek_loop R fs ?t ?c refs = Inr cursor' \<and> cursor_ok R wf fs rows_of cursor'
    \<and> remaining R rows_of cursor' = filter (\<lambda>r. ?t \<le> ts_of R r \<and> until (rp_end_ts ?c) (ts_of R r)) (concat (map (\<lambda>c. rows_of (rc_chunk c)) refs))"
  proof (rule seek_rows)
    show "\<forall>chunk_ref \<in> set (rp_chunks ?c). replay_chunk R wf fs chunk_ref (rows_of (rc_chunk chunk_ref))"
      using stored by (auto simp: refs_def mk_def sealed_def)
    show "sorted_wrt (\<lambda>a b. cm_end_ts (rc_chunk a) \<le> cm_start_ts (rc_chunk b)) (rp_chunks ?c)"
      using sp(1) by (auto simp: refs_def mk_def sorted_wrt_map elim!: sorted_wrt_mono_rel [rotated])
  qed simp_all
  moreover have "filter (\<lambda>r. ?t \<le> ts_of R r \<and> until ?e (ts_of R r)) (concat (map (\<lambda>c. rows_of (rc_chunk c)) refs))
      = filter (\<lambda>r. ?t \<le> ts_of R r \<and> until ?e (ts_of R r)) (concat (map rows_of sealed))"
  proof -
    have "filter (\<lambda>r. ?t \<le> ts_of R r \<and> until ?e (ts_of R r)) (rows_of c) = []" if "c \<in> set sealed" "\<not> ?in c" for c
    proof -
      have "replay_chunk R wf fs (mk c) (rows_of c)" using stored that(1) by (simp add: sealed_def mk_def)
      then have "cm_start_ts c \<le> ts_of R r" "ts_of R r \<le> cm_end_ts c" if "r \<in> set (rows_of c)" for r
        using sorted_hd_last [of "ts_of R" "rows_of c" r] that by (simp_all add: replay_chunk_def mk_def)
      then show ?thesis using that(2) until_mono order.trans by (fastforce simp: filter_empty_conv)
    qed
    then have "filter (\<lambda>r. ?t \<le> ts_of R r \<and> until ?e (ts_of R r)) (concat (map rows_of (filter ?in sealed)))
        = filter (\<lambda>r. ?t \<le> ts_of R r \<and> until ?e (ts_of R r)) (concat (map rows_of sealed))" by (rule filter_concat_skip)
    then show ?thesis by (simp add: refs_def mk_def comp_def)
  qed
  ultimately show ?thesis unfolding new by (simp add: sealed_def)
qed

lemma read_batches_rows:
  assumes "cursor_ok R wf fs rows_of cursor" and "\<forall>n \<in> set sizes. 0 < n \<and> capacity_ok R n"
  shows "\<exists>cursor' batches. read_batches R fs cursor sizes = Some (cursor', Inr batches)
    \<and> concat batches = take (sum_list sizes) (remaining R rows_of cursor) \<and> list_all2 (\<lambda>n b. length b \<le> n) sizes batches
    \<and> (rp_exhausted cursor \<or> length (remaining R rows_of cursor) < sum_list sizes \<longrightarrow> rp_exhausted cursor')"
  using assms
proof (induction sizes arbitrary: cursor)
  case (Cons n sizes)
  let ?rem = "remaining R rows_of cursor"
  obtain c where c: "next_batch R fs cursor n = Some (c, Inr (take n ?rem))" "cursor_ok R wf fs rows_of c" "remaining R rows_of c = drop n ?rem"
    "length ?rem < n \<longrightarrow> rp_exhausted c"
    using next_batch_rows [OF Cons.prems(1), of n] Cons.prems(2) by auto
  obtain c' bs where r: "read_batches R fs c sizes = Some (c', Inr bs)" "concat bs = take (sum_list sizes) (drop n ?rem)"
    "list_all2 (\<lambda>n b. length b \<le> n) sizes bs" "rp_exhausted c \<or> length (drop n ?rem) < sum_list sizes \<longrightarrow> rp_exhausted c'"
    using Cons.IH [OF c(2)] Cons.prems(2) c(3) by auto
  have ex: "rp_exhausted cursor \<Longrightarrow> length ?rem < n" using Cons.prems by (simp add: cursor_ok_def remaining_def)
  have "rp_exhausted c'" if "rp_exhausted cursor \<or> length ?rem < sum_list (n # sizes)"
    using that ex c(4) r(4) by (cases "length ?rem < n") auto
  then show ?case using c(1) r(1-3) by (auto simp: take_add)
qed simp

end

section \<open>A cursor that never returns\<close>

text \<open>
  The cursor advances when its record index reaches the count of the manifest, but rows are read up to
  the count of the file header. When a file holds fewer rows than its manifest entry says, a batch that
  reaches the end of the file reads nothing, advances nothing and repeats.
\<close>

definition stuck :: "'r FixedRecord \<Rightarrow> (path \<rightharpoonup> u8 list) \<Rightarrow> nat \<Rightarrow> ReplayCursor \<Rightarrow> 'r list \<Rightarrow> bool" where
  "stuck R fs limit cursor out \<longleftrightarrow>
     length out < limit \<and> \<not> rp_exhausted cursor \<and> rp_end_ts cursor = None \<and> rp_current_chunk_index cursor < length (rp_chunks cursor)
     \<and> (let chunk_ref = rp_chunks cursor ! rp_current_chunk_index cursor in
        rp_current_record_index cursor < cm_count (rc_chunk chunk_ref)
        \<and> (\<exists>file header. open_chunk_file fs chunk_ref = Inr file \<and> read_and_validate_header R file chunk_ref = Inr header
           \<and> h_count header \<le> rp_current_record_index cursor))"

lemma stuck_batch:
  assumes "stuck R fs limit cursor out"
  shows "read_batch_from_chunk R fs (rp_chunks cursor ! rp_current_chunk_index cursor) (rp_current_record_index cursor) (rp_end_ts cursor)
    (limit - length out) = Inr ([], rp_current_record_index cursor)"
proof -
  obtain k where k: "limit - length out = Suc k" using assms by (metis Suc_diff_Suc stuck_def)
  show ?thesis using assms unfolding k by (auto simp: stuck_def Let_def read_batch_from_chunk_def not_less)
qed

lemma stuck_never_returns:
  assumes "stuck R fs limit cursor out"
  shows "next_batch_loop R fs limit cursor out = None"
proof (rule ccontr)
  assume "next_batch_loop R fs limit cursor out \<noteq> None"
  then obtain y where y: "next_batch_loop R fs limit cursor out = Some y" by blast
  have "\<not> stuck R fs limit cursor out"
  proof (rule next_batch_loop.raw_induct [OF _ y], goal_cases)
    case (1 f R fs limit cursor out y)
    show "\<not> stuck R fs limit cursor out"
    proof
      assume st: "stuck R fs limit cursor out"
      have "f R fs limit cursor out = Some y"
      proof -
        have f: "length out < limit" "\<not> rp_exhausted cursor" "rp_end_ts cursor = None" "rp_current_chunk_index cursor < length (rp_chunks cursor)"
          "\<not> cm_count (rc_chunk (rp_chunks cursor ! rp_current_chunk_index cursor)) \<le> rp_current_record_index cursor"
          using st by (auto simp: stuck_def Let_def)
        note b = stuck_batch [OF st, unfolded f(3)]
        show ?thesis using 1(2) f by (simp add: Let_def b)
      qed
      from 1(1) [OF this] st show False by blast
    qed
  qed
  with assms show False by blast
qed

end
