(* ===== verification/ReplaySample.thy ===== *)
theory ReplaySample
  imports Replay StoreSamples
begin

text \<open>A store with one sealed kline chunk on disk, for the replay cursor.\<close>

lemma sample_path_resolves:
  "resolve_relative_path (kline_series_dir \<lparr>has_root = True, comps = [''data'']\<rparr> ''BTC'' ''1m'') (wo_relative_path sample_options)
     = path_join (kline_series_dir \<lparr>has_root = True, comps = [''data'']\<rparr> ''BTC'' ''1m'') (wo_relative_path sample_options)"
  by code_simp

lemma written_meta_state: "cm_state (written_meta options key h every bytes) = wo_state options"
  by (simp add: written_meta_def)

lemma sample_options_simps: "wo_state sample_options = Sealed" by (simp add: sample_options_def)

lemma sample_sealed_store:
  obtains st meta cm where "load_kline_meta E st ''BTC'' ''1m'' = (st, Inr meta)"
    and "series_stored kline_record (\<lambda>_. True) (fk_files st) (sample_dir_of st) meta (\<lambda>_. map sample_kline [10, 20, 30])"
    and "replay_validate_meta kline_record meta = Inr ()" "sm_chunks meta = [cm]" "cm_state cm = Sealed"
      "resolve_relative_path (sample_dir_of st) (cm_relative_path cm) = path_join (sample_dir_of st) (cm_relative_path cm)"
proof -
  obtain bytes cm where b: "kline_build sample_calendar sample_series (map sample_kline [10, 20, 30]) sample_options = Inr (bytes, cm)"
    using sample_kline_build by blast
  let ?dir = "kline_series_dir \<lparr>has_root = True, comps = [''data'']\<rparr> ''BTC'' ''1m''"
  let ?p = "path_join ?dir (wo_relative_path sample_options)" and ?m = "sample_series\<lparr>sm_chunks := [cm]\<rparr>"
  have "chunk_stored kline_record (\<lambda>_. True) [?p \<mapsto> bytes] ?dir (sm_series_id sample_series) cm (map sample_kline [10, 20, 30])"
    by (rule kline_build_stored [OF b]) simp_all
  then have "readable_series kline_record (\<lambda>_. True) (\<lambda>_. ?p) (store_of ?m [?p \<mapsto> bytes]) ?dir ?m (\<lambda>_. map sample_kline [10, 20, 30])"
    by (intro one_chunk_readable) (simp_all add: kline_build_path [OF b] kline_BYTE_SIZE_def)
  moreover have "load_kline_meta E (store_of ?m [?p \<mapsto> bytes]) ''BTC'' ''1m'' = (store_of ?m [?p \<mapsto> bytes], Inr ?m)"
    unfolding load_kline_meta_def by (rule load_store_of) (simp add: sample_series_def KLINE_CATEGORY_def)
  moreover have "cm_state cm = Sealed"
    using kline_build_image(2) [OF b] written_meta_state by (metis sample_options_simps)
  moreover have "replay_validate_meta kline_record ?m = Inr ()"
    by (simp add: replay_validate_meta_def sample_series_def kline_record_def ensure_def kline_BYTE_SIZE_def KLINE_SCHEMA_ID_def)
  ultimately show thesis
    using that [of "store_of ?m [?p \<mapsto> bytes]" ?m cm] sample_path_resolves
    by (simp add: readable_series_def kline_build_path [OF b])
qed

end
