(* ===== verification/Sessions.thy ===== *)
theory Sessions
  imports StoreAdmin
begin

text \<open>
  Read sessions (\<open>FastKReadSession\<close> of \<^verbatim>\<open>src/src/store_core/engine/store.rs\<close>): a session keeps the manifests of
  the series attached to it and reads them without looking the manifest up again; a series that is not
  attached is read through the store. The session holds a shared reference to its store, whose caches
  it fills: the model threads the store through the session. Shown here: in every session that attach,
  reset and read operations can reach, a read through the session is the read through the store.
\<close>

datatype SessionResetMode = QueryOnly | Logical | FullDetach

record AttachedKlineSeries =
  ak_symbol :: string
  ak_timeframe :: string
  ak_series_dir :: path
  ak_meta :: SeriesMeta

record AttachedScalarSeries =
  as_key :: ScalarSeriesKey
  as_series_dir :: path
  as_meta :: SeriesMeta
  as_capabilities :: "ScalarQueryCapabilities option"

record FastKReadSession =
  rs_store :: FastKStore
  rs_attached_kline :: "AttachedKlineSeries list"
  rs_attached_scalar :: "AttachedScalarSeries list"

definition read_session :: "FastKStore \<Rightarrow> FastKReadSession" where
  "read_session st = \<lparr>rs_store = st, rs_attached_kline = [], rs_attached_scalar = []\<rparr>"

text \<open>A call of the store through the session.\<close>

definition on_store :: "FastKReadSession \<Rightarrow> FastKStore \<times> 'a \<Rightarrow> FastKReadSession \<times> 'a" where
  "on_store se m = (se\<lparr>rs_store := fst m\<rparr>, snd m)"

section \<open>Attachments\<close>

definition build_kline_attachment :: "Env \<Rightarrow> FastKStore \<Rightarrow> string \<Rightarrow> string \<Rightarrow> FastKStore \<times> AttachedKlineSeries res" where
  "build_kline_attachment E st symbol timeframe =
     then_do (load_kline_meta E st symbol timeframe) (\<lambda>st meta.
       (st, Inr \<lparr>ak_symbol = symbol, ak_timeframe = timeframe, ak_series_dir = kline_series_dir (fk_root st) symbol timeframe,
          ak_meta = meta\<rparr>))"

definition build_scalar_attachment :: "Env \<Rightarrow> FastKStore \<Rightarrow> ScalarSeriesKey \<Rightarrow> FastKStore \<times> AttachedScalarSeries res" where
  "build_scalar_attachment E st key =
     then_do (load_scalar_meta E st key) (\<lambda>st meta.
       (st, Inr \<lparr>as_key = key, as_series_dir = scalar_series_dir (fk_root st) (key_symbol key) (key_category key) (key_name key),
          as_meta = meta, as_capabilities = Some (capabilities_from_meta meta)\<rparr>))"

definition find_attached_kline :: "FastKReadSession \<Rightarrow> string \<Rightarrow> string \<Rightarrow> AttachedKlineSeries option" where
  "find_attached_kline se symbol timeframe =
     find (\<lambda>e. ak_symbol e = symbol \<and> ak_timeframe e = timeframe) (rs_attached_kline se)"

definition find_attached_scalar :: "FastKReadSession \<Rightarrow> ScalarSeriesKey \<Rightarrow> AttachedScalarSeries option" where
  "find_attached_scalar se key = find (\<lambda>e. as_key e = key) (rs_attached_scalar se)"

definition attach_kline_series :: "Env \<Rightarrow> FastKReadSession \<Rightarrow> string \<Rightarrow> string \<Rightarrow> FastKReadSession \<times> unit res" where
  "attach_kline_series E se symbol timeframe =
     (if \<exists>e \<in> set (rs_attached_kline se). ak_symbol e = symbol \<and> ak_timeframe e = timeframe then (se, Inr ())
      else then_do (on_store se (build_kline_attachment E (rs_store se) symbol timeframe)) (\<lambda>se attached.
        (se\<lparr>rs_attached_kline := rs_attached_kline se @ [attached]\<rparr>, Inr ())))"

definition attach_scalar_series :: "Env \<Rightarrow> FastKReadSession \<Rightarrow> ScalarSeriesKey \<Rightarrow> FastKReadSession \<times> unit res" where
  "attach_scalar_series E se key =
     (if \<exists>e \<in> set (rs_attached_scalar se). as_key e = key then (se, Inr ())
      else then_do (on_store se (build_scalar_attachment E (rs_store se) key)) (\<lambda>se attached.
        (se\<lparr>rs_attached_scalar := rs_attached_scalar se @ [attached]\<rparr>, Inr ())))"

definition attach_indicator_series :: "Env \<Rightarrow> FastKReadSession \<Rightarrow> string \<Rightarrow> string \<Rightarrow> string \<Rightarrow> FastKReadSession \<times> unit res" where
  "attach_indicator_series E se symbol timeframe indicator_name =
     attach_scalar_series E se (indicator_series_key symbol timeframe indicator_name)"

definition attach_kline_many :: "Env \<Rightarrow> FastKReadSession \<Rightarrow> (string \<times> string) list \<Rightarrow> FastKReadSession \<times> unit res" where
  "attach_kline_many E se series = try_each (\<lambda>se (symbol, timeframe) _. attach_kline_series E se symbol timeframe) se series ()"

definition attach_scalar_many :: "Env \<Rightarrow> FastKReadSession \<Rightarrow> ScalarSeriesKey list \<Rightarrow> FastKReadSession \<times> unit res" where
  "attach_scalar_many E se series = try_each (\<lambda>se key _. attach_scalar_series E se key) se series ()"

section \<open>Warming and clearing\<close>

definition warm_layout :: "path \<Rightarrow> SeriesMeta \<Rightarrow> FastKStore \<Rightarrow> ChunkMeta \<Rightarrow> FastKStore \<times> unit res" where
  "warm_layout dir meta st chunk =
     (case on_runtime st (\<lambda>rt. get_layout (fk_files st) rt chunk (sm_series_id meta) dir) of
        (st, r) \<Rightarrow> (st, and_then r (\<lambda>_. Inr ())))"

definition warm_kline :: "FastKStore \<Rightarrow> AttachedKlineSeries \<Rightarrow> unit \<Rightarrow> (FastKStore \<times> unit res) option" where
  "warm_kline st attached _ =
     (let meta = ak_meta attached; warm = warm_layout (ak_series_dir attached) meta in
      case sm_chunks meta of
        [] \<Rightarrow> Some (st, Inr ())
      | first # rest \<Rightarrow> Some (then_do (warm st first) (\<lambda>st _. warm st (last (first # rest)))))"

definition warm_scalar_chunk :: "path \<Rightarrow> SeriesMeta \<Rightarrow> FastKStore \<Rightarrow> ChunkMeta \<Rightarrow> unit \<Rightarrow> (FastKStore \<times> unit res) option" where
  "warm_scalar_chunk dir meta st chunk _ =
     ok_then (Some (warm_layout dir meta st chunk)) (\<lambda>st _.
     ok_then (if has_sidecar_kind chunk ''zmap'' then ok_then (chunk_zmap st dir chunk) (\<lambda>st _. Some (st, Inr ())) else Some (st, Inr ())) (\<lambda>st _.
     if has_sidecar_kind chunk ''vix'' then ok_then (chunk_vix st dir chunk) (\<lambda>st _. Some (st, Inr ())) else Some (st, Inr ())))"

definition warm_scalar :: "FastKStore \<Rightarrow> AttachedScalarSeries \<Rightarrow> unit \<Rightarrow> (FastKStore \<times> unit res) option" where
  "warm_scalar st attached _ =
     (let cs = sm_chunks (as_meta attached) in
      try_chunks (warm_scalar_chunk (as_series_dir attached) (as_meta attached)) st (take 1 cs @ take 1 (rev cs)) ())"

definition prewarm :: "FastKReadSession \<Rightarrow> (FastKReadSession \<times> unit res) option" where
  "prewarm se =
     map_option (on_store se)
       (ok_then (try_chunks warm_kline (rs_store se) (rs_attached_kline se) ()) (\<lambda>st _.
        try_chunks warm_scalar st (rs_attached_scalar se) ()))"

definition clear_caches :: "FastKReadSession \<Rightarrow> FastKReadSession" where
  "clear_caches se = se\<lparr>rs_store := clear_runtime_caches (rs_store se)\<rparr>"

definition reset :: "FastKReadSession \<Rightarrow> SessionResetMode \<Rightarrow> FastKReadSession" where
  "reset se mode =
     (case mode of
        QueryOnly \<Rightarrow> se\<lparr>rs_store := clear_scalar_query_caches (rs_store se)\<rparr>
      | Logical \<Rightarrow> se\<lparr>rs_store := clear_runtime_caches (rs_store se)\<rparr>
      | FullDetach \<Rightarrow> se\<lparr>rs_store := clear_read_caches (rs_store se), rs_attached_kline := [], rs_attached_scalar := []\<rparr>)"

section \<open>Inventory and health\<close>

definition attached_series_dirs :: "FastKReadSession \<Rightarrow> path list" where
  "attached_series_dirs se = map ak_series_dir (rs_attached_kline se) @ map as_series_dir (rs_attached_scalar se)"

definition attached_inventory :: "Env \<Rightarrow> FastKReadSession \<Rightarrow> FastKReadSession \<times> SeriesInventoryEntry list res" where
  "attached_inventory E se = on_store se (collect_each (load_series_inventory_entry E) (rs_store se) (attached_series_dirs se))"

definition attached_health_summary :: "nat \<Rightarrow> Env \<Rightarrow> FastKReadSession \<Rightarrow> StoreHealthSummary res option" where
  "attached_health_summary depth E se =
     (let st = rs_store se; dirs = attached_series_dirs se in
      case validate_manifest_vs_fs depth E (fk_disk st) (fk_root st) of
        None \<Rightarrow> None
      | Some (Inl e) \<Rightarrow> Some (Inl e)
      | Some (Inr validations) \<Rightarrow>
          map_option (\<lambda>orphans. and_then orphans (\<lambda>orphans.
            Inr (health_of (filter (\<lambda>v. mv_series_dir v \<in> set dirs) validations) (filter (\<lambda>a. oa_series_dir a \<in> set dirs) orphans)
              (has_pending_recovery (ms_fs (fk_disk st)) (fk_root st)))))
            (list_orphans depth E st))"

definition attached_scalar_capabilities :: "FastKReadSession \<Rightarrow> (ScalarSeriesKey \<times> ScalarQueryCapabilities) list" where
  "attached_scalar_capabilities se =
     map (\<lambda>a. (as_key a, case as_capabilities a of Some c \<Rightarrow> c | None \<Rightarrow> capabilities_from_meta (as_meta a))) (rs_attached_scalar se)"

section \<open>Reads\<close>

definition session_get_kline_at :: "Env \<Rightarrow> FastKReadSession \<Rightarrow> string \<Rightarrow> string \<Rightarrow> i64 \<Rightarrow> FastKReadSession \<times> KlineRecord option res" where
  "session_get_kline_at E se symbol timeframe ts =
     on_store se
       (case find_attached_kline se symbol timeframe of
          Some a \<Rightarrow> get_kline_at_prepared (rs_store se) (ak_series_dir a) (ak_meta a) ts
        | None \<Rightarrow> get_kline_at E (rs_store se) symbol timeframe ts)"

definition session_get_kline_range ::
  "Env \<Rightarrow> FastKReadSession \<Rightarrow> string \<Rightarrow> string \<Rightarrow> i64 \<Rightarrow> i64 \<Rightarrow> FastKReadSession \<times> KlineRecord list res" where
  "session_get_kline_range E se symbol timeframe start_ts end_ts =
     on_store se
       (case find_attached_kline se symbol timeframe of
          Some a \<Rightarrow> get_kline_range_prepared (rs_store se) (ak_series_dir a) (ak_meta a) start_ts end_ts
        | None \<Rightarrow> get_kline_range E (rs_store se) symbol timeframe start_ts end_ts)"

definition session_get_kline_latest_n ::
  "Env \<Rightarrow> FastKReadSession \<Rightarrow> string \<Rightarrow> string \<Rightarrow> nat \<Rightarrow> FastKReadSession \<times> KlineRecord list res" where
  "session_get_kline_latest_n E se symbol timeframe n =
     on_store se
       (case find_attached_kline se symbol timeframe of
          Some a \<Rightarrow> get_kline_latest_n_prepared (rs_store se) (ak_series_dir a) (ak_meta a) n
        | None \<Rightarrow> get_kline_latest_n E (rs_store se) symbol timeframe n)"

definition session_get_scalar_at :: "Env \<Rightarrow> FastKReadSession \<Rightarrow> ScalarSeriesKey \<Rightarrow> i64 \<Rightarrow> FastKReadSession \<times> ScalarRecord option res" where
  "session_get_scalar_at E se key ts =
     on_store se
       (case find_attached_scalar se key of
          Some a \<Rightarrow> get_scalar_at_prepared (rs_store se) (as_series_dir a) (as_meta a) ts
        | None \<Rightarrow> get_scalar_at E (rs_store se) key ts)"

definition session_get_scalar_range ::
  "Env \<Rightarrow> FastKReadSession \<Rightarrow> ScalarSeriesKey \<Rightarrow> i64 \<Rightarrow> i64 \<Rightarrow> FastKReadSession \<times> ScalarRecord list res" where
  "session_get_scalar_range E se key start_ts end_ts =
     on_store se
       (case find_attached_scalar se key of
          Some a \<Rightarrow> get_scalar_range_prepared (rs_store se) (as_series_dir a) (as_meta a) start_ts end_ts
        | None \<Rightarrow> get_scalar_range E (rs_store se) key start_ts end_ts)"

definition session_get_indicator_at ::
  "Env \<Rightarrow> FastKReadSession \<Rightarrow> string \<Rightarrow> string \<Rightarrow> string \<Rightarrow> i64 \<Rightarrow> FastKReadSession \<times> ScalarRecord option res" where
  "session_get_indicator_at E se symbol timeframe indicator_name ts =
     session_get_scalar_at E se (indicator_series_key symbol timeframe indicator_name) ts"

definition session_get_indicator_range ::
  "Env \<Rightarrow> FastKReadSession \<Rightarrow> string \<Rightarrow> string \<Rightarrow> string \<Rightarrow> i64 \<Rightarrow> i64 \<Rightarrow> FastKReadSession \<times> ScalarRecord list res" where
  "session_get_indicator_range E se symbol timeframe indicator_name start_ts end_ts =
     session_get_scalar_range E se (indicator_series_key symbol timeframe indicator_name) start_ts end_ts"

definition session_query_scalar_predicate ::
  "Env \<Rightarrow> FastKReadSession \<Rightarrow> ScalarPredicateQuery \<Rightarrow> (FastKReadSession \<times> ScalarPredicateQueryResult res) option" where
  "session_query_scalar_predicate E se query =
     (case validate_scalar_predicate_query query of
        Inl e \<Rightarrow> Some (se, Inl e)
      | Inr _ \<Rightarrow>
          if expr_is_impossible (q_predicate query) then Some (se, Inr \<lparr>qr_matches = [], qr_stats = stats_default\<rparr>)
          else map_option (on_store se)
            (case find_attached_scalar se (q_key query) of
               Some a \<Rightarrow> query_scalar_predicate_prepared (rs_store se) (as_series_dir a) (as_meta a) query
             | None \<Rightarrow> query_scalar_predicate E (rs_store se) query))"

definition session_find_scalar_timestamps_by_predicate ::
  "Env \<Rightarrow> FastKReadSession \<Rightarrow> ScalarSeriesKey \<Rightarrow> i64 \<Rightarrow> i64 \<Rightarrow> ScalarPredicateExpr \<Rightarrow> (FastKReadSession \<times> i64 list res) option" where
  "session_find_scalar_timestamps_by_predicate E se key start_ts end_ts p =
     ok_then (session_query_scalar_predicate E se
         \<lparr>q_key = key, q_start_ts = start_ts, q_end_ts = end_ts, q_predicate = p, q_return_values = False\<rparr>) (\<lambda>se result.
     Some (se, Inr (map pm_ts (qr_matches result))))"

definition session_find_scalar_points_by_predicate ::
  "Env \<Rightarrow> FastKReadSession \<Rightarrow> ScalarSeriesKey \<Rightarrow> i64 \<Rightarrow> i64 \<Rightarrow> ScalarPredicateExpr \<Rightarrow> (FastKReadSession \<times> ScalarRecord list res) option" where
  "session_find_scalar_points_by_predicate E se key start_ts end_ts p =
     ok_then (session_query_scalar_predicate E se
         \<lparr>q_key = key, q_start_ts = start_ts, q_end_ts = end_ts, q_predicate = p, q_return_values = True\<rparr>) (\<lambda>se result.
     Some (se, Inr (List.map_filter (\<lambda>m. map_option (\<lambda>v. \<lparr>s_ts = pm_ts m, s_value = v\<rparr>) (pm_value m)) (qr_matches result))))"

text \<open>The three timestamp searches of the session share this body.\<close>

definition session_find_scalar_timestamps ::
  "Env \<Rightarrow> FastKReadSession \<Rightarrow> ScalarSeriesKey \<Rightarrow> ScalarPredicate \<Rightarrow> i64 \<Rightarrow> i64 \<Rightarrow> ScalarQueryStrategy \<Rightarrow>
   (FastKReadSession \<times> i64 list res) option" where
  "session_find_scalar_timestamps E se key p start_ts end_ts strategy =
     map_option (on_store se)
       (case find_attached_scalar se key of
          Some a \<Rightarrow> find_scalar_timestamps_prepared (rs_store se) (as_series_dir a) (as_meta a) (as_key a) p start_ts end_ts strategy
        | None \<Rightarrow> find_scalar_timestamps E (rs_store se) key p start_ts end_ts strategy)"

definition session_find_scalar_timestamps_via_zmap ::
  "Env \<Rightarrow> FastKReadSession \<Rightarrow> ScalarSeriesKey \<Rightarrow> ScalarPredicate \<Rightarrow> i64 \<Rightarrow> i64 \<Rightarrow> (FastKReadSession \<times> i64 list res) option" where
  "session_find_scalar_timestamps_via_zmap E se key p start_ts end_ts = session_find_scalar_timestamps E se key p start_ts end_ts Zmap"

definition session_find_scalar_timestamps_via_vix ::
  "Env \<Rightarrow> FastKReadSession \<Rightarrow> ScalarSeriesKey \<Rightarrow> ScalarPredicate \<Rightarrow> i64 \<Rightarrow> i64 \<Rightarrow> (FastKReadSession \<times> i64 list res) option" where
  "session_find_scalar_timestamps_via_vix E se key p start_ts end_ts = session_find_scalar_timestamps E se key p start_ts end_ts Vix"

definition session_find_scalar_timestamps_raw ::
  "Env \<Rightarrow> FastKReadSession \<Rightarrow> ScalarSeriesKey \<Rightarrow> ScalarPredicate \<Rightarrow> i64 \<Rightarrow> i64 \<Rightarrow> (FastKReadSession \<times> i64 list res) option" where
  "session_find_scalar_timestamps_raw E se key p start_ts end_ts = session_find_scalar_timestamps E se key p start_ts end_ts Raw"

section \<open>Reads keep the manifests of the store\<close>

definition grows :: "FastKStore \<Rightarrow> FastKStore \<Rightarrow> bool" where
  "grows st st' \<longleftrightarrow> fk_root st' = fk_root st \<and> fk_manifest_cache st \<subseteq>\<^sub>m fk_manifest_cache st'"

lemma grows_refl [simp]: "grows st st" by (simp add: grows_def)

lemma grows_trans: "grows a b \<Longrightarrow> grows b c \<Longrightarrow> grows a c"
  unfolding grows_def using map_le_trans by metis

lemma on_runtime_grows [simp]: "grows st (fst (on_runtime st f))"
  by (simp add: on_runtime_def grows_def split: prod.splits)

lemma load_meta_grows: "load_meta E st key dir = (st', r) \<Longrightarrow> grows st st'"
  by (auto simp: load_meta_def catalog_load_report_def grows_def map_le_def Let_def split: option.splits sum.splits prod.splits)

lemma with_meta_grows:
  assumes "\<And>st meta. grows st (fst (f st meta))"
  shows "grows st (fst (with_meta (load_meta E st key dir) f))"
proof -
  obtain st' r where l: "load_meta E st key dir = (st', r)" by fastforce
  then have g: "grows st st'" by (rule load_meta_grows)
  with l show ?thesis using grows_trans [OF g assms] by (cases r) (simp_all add: with_meta_def)
qed

lemma prepared_grow [simp]:
  "grows st (fst (get_kline_at_prepared st dir meta ts))" "grows st (fst (get_kline_range_prepared st dir meta a b))"
  "grows st (fst (get_kline_latest_n_prepared st dir meta n))" "grows st (fst (get_scalar_at_prepared st dir meta ts))"
  "grows st (fst (get_scalar_range_prepared st dir meta a b))"
proof -
  show "grows st (fst (get_kline_at_prepared st dir meta ts))" "grows st (fst (get_scalar_at_prepared st dir meta ts))"
    by (simp_all add: get_kline_at_prepared_def get_scalar_at_prepared_def split: option.splits)
  show "grows st (fst (get_kline_latest_n_prepared st dir meta n))"
    by (simp add: get_kline_latest_n_prepared_def split: prod.splits) (metis fst_conv on_runtime_grows)
  show "grows st (fst (get_kline_range_prepared st dir meta a b))" "grows st (fst (get_scalar_range_prepared st dir meta a b))"
    by (simp_all add: get_kline_range_prepared_def get_scalar_range_prepared_def Let_def split: prod.splits sum.splits)
      (metis fst_conv on_runtime_grows)+
qed

lemma store_reads_grow:
  "grows st (fst (get_kline_at E st symbol timeframe ts))" "grows st (fst (get_kline_range E st symbol timeframe a b))"
  "grows st (fst (get_kline_latest_n E st symbol timeframe n))" "grows st (fst (get_scalar_at E st key ts))"
  "grows st (fst (get_scalar_range E st key a b))"
  by (simp_all add: get_kline_at_def get_kline_range_def get_kline_latest_n_def get_scalar_at_def get_scalar_range_def
      load_kline_meta_def load_scalar_meta_def with_meta_grows)

definition may_grow :: "FastKStore \<Rightarrow> (FastKStore \<times> 'a) option \<Rightarrow> bool" where
  "may_grow st m \<longleftrightarrow> (\<forall>st' r. m = Some (st', r) \<longrightarrow> grows st st')"

lemma may_grow_simps [simp]: "may_grow st None" "may_grow st (Some m) \<longleftrightarrow> grows st (fst m)"
  by (simp add: may_grow_def) (cases m, simp add: may_grow_def)

lemma ok_then_grows:
  assumes "may_grow st m" and "\<And>st x. may_grow st (f st x)"
  shows "may_grow st (ok_then m f)"
proof (cases m)
  case (Some p)
  obtain st' r where p: "p = (st', r)" by fastforce
  with Some assms(1) have g: "grows st st'" by simp
  show ?thesis
  proof (cases r)
    case (Inr x)
    with Some p show ?thesis using assms(2) [of st' x] grows_trans [OF g] by (simp add: may_grow_def)
  qed (use Some p g in simp)
qed simp

lemma try_chunks_grows: "(\<And>st x acc. may_grow st (step st x acc)) \<Longrightarrow> may_grow st (try_chunks step st xs acc)"
  by (induction xs arbitrary: st acc) (simp_all add: ok_then_grows)

lemma sidecars_grow [simp]: "may_grow st (chunk_zmap st dir chunk)" "may_grow st (chunk_vix st dir chunk)"
  by (auto simp: chunk_zmap_def chunk_vix_def may_grow_def grows_def split: sum.splits)

lemma on_runtime_case_grows [simp]: "may_grow st (case on_runtime st g of (st', x) \<Rightarrow> Some (st', h x))"
  by (simp add: on_runtime_def grows_def split: prod.splits)

lemma queries_grow:
  "may_grow st (find_scalar_timestamps_prepared st dir meta key p a b strategy)"
  "may_grow st (query_scalar_predicate_prepared st dir meta query)"
proof -
  have "may_grow st (query_scalar_via_zmap st dir chunk p a b)" "may_grow st (query_scalar_via_vix st dir key chunk p a b)"
    "may_grow st (query_scalar_via_raw_scan st dir sid chunk p a b)" for st chunk sid
    by (simp_all add: query_scalar_via_zmap_def query_scalar_via_vix_def query_scalar_via_raw_scan_def ok_then_grows)
  then show "may_grow st (find_scalar_timestamps_prepared st dir meta key p a b strategy)"
    by (auto simp: find_scalar_timestamps_prepared_def intro!: ok_then_grows try_chunks_grows split: prod.splits ScalarQueryStrategy.splits)
  have "may_grow st (query_chunk dir sid query st chunk acc)" for st chunk acc sid
    by (cases acc) (simp add: query_chunk_def query_scalar_predicate_via_vix_def query_scalar_predicate_via_zmap_def
        query_scalar_predicate_via_raw_scan_def Let_def ok_then_grows)
  then show "may_grow st (query_scalar_predicate_prepared st dir meta query)"
    by (auto simp: query_scalar_predicate_prepared_def Let_def intro!: ok_then_grows try_chunks_grows split: prod.splits)
qed

lemma loaded_queries_grow:
  "may_grow st (find_scalar_timestamps E st key p a b strategy)" "may_grow st (query_scalar_predicate E st query)"
proof -
  have l: "may_grow st (Some (load_scalar_meta E st key))" for key
    using load_meta_grows by (metis may_grow_simps(2) load_scalar_meta_def prod.collapse)
  show "may_grow st (find_scalar_timestamps E st key p a b strategy)" "may_grow st (query_scalar_predicate E st query)"
    by (auto simp: find_scalar_timestamps_def query_scalar_predicate_def intro!: ok_then_grows l queries_grow split: sum.splits)
qed

section \<open>Sessions read what the store reads\<close>

text \<open>Every attachment has the manifest that the store's cache holds for the series.\<close>

definition session_ok :: "FastKReadSession \<Rightarrow> bool" where
  "session_ok se \<longleftrightarrow>
     (\<forall>a \<in> set (rs_attached_kline se). ak_series_dir a = kline_series_dir (fk_root (rs_store se)) (ak_symbol a) (ak_timeframe a)
        \<and> fk_manifest_cache (rs_store se) (series_cache_key (ak_symbol a) KLINE_CATEGORY (ak_timeframe a)) = Some (ak_meta a))
     \<and> (\<forall>a \<in> set (rs_attached_scalar se). let key = as_key a in
        as_series_dir a = scalar_series_dir (fk_root (rs_store se)) (key_symbol key) (key_category key) (key_name key)
        \<and> fk_manifest_cache (rs_store se) (series_cache_key (key_symbol key) (key_category key) (key_name key)) = Some (as_meta a))"

lemma attached_kline_loads:
  assumes "session_ok se" and "find_attached_kline se symbol timeframe = Some a"
  shows "load_kline_meta E (rs_store se) symbol timeframe = (rs_store se, Inr (ak_meta a))"
    and "ak_series_dir a = kline_series_dir (fk_root (rs_store se)) symbol timeframe"
proof -
  have "a \<in> set (rs_attached_kline se)" "ak_symbol a = symbol" "ak_timeframe a = timeframe"
    using assms(2) by (auto simp: find_attached_kline_def find_Some_iff)
  with assms(1) show "load_kline_meta E (rs_store se) symbol timeframe = (rs_store se, Inr (ak_meta a))"
    "ak_series_dir a = kline_series_dir (fk_root (rs_store se)) symbol timeframe"
    by (auto simp: session_ok_def load_kline_meta_def load_meta_def)
qed

lemma attached_scalar_loads:
  assumes "session_ok se" and "find_attached_scalar se key = Some a"
  shows "load_scalar_meta E (rs_store se) key = (rs_store se, Inr (as_meta a))"
    and "as_series_dir a = scalar_series_dir (fk_root (rs_store se)) (key_symbol key) (key_category key) (key_name key)" and "as_key a = key"
proof -
  have "a \<in> set (rs_attached_scalar se)" and k: "as_key a = key"
    using assms(2) by (auto simp: find_attached_scalar_def find_Some_iff)
  with assms(1) show "load_scalar_meta E (rs_store se) key = (rs_store se, Inr (as_meta a))"
    "as_series_dir a = scalar_series_dir (fk_root (rs_store se)) (key_symbol key) (key_category key) (key_name key)" "as_key a = key"
    by (auto simp: session_ok_def load_scalar_meta_def load_meta_def Let_def)
qed

lemma session_kline_reads:
  assumes "session_ok se"
  shows "session_get_kline_at E se symbol timeframe ts = on_store se (get_kline_at E (rs_store se) symbol timeframe ts)"
    and "session_get_kline_range E se symbol timeframe a b = on_store se (get_kline_range E (rs_store se) symbol timeframe a b)"
    and "session_get_kline_latest_n E se symbol timeframe n = on_store se (get_kline_latest_n E (rs_store se) symbol timeframe n)"
proof -
  have e: "a > b \<Longrightarrow> get_kline_range_prepared st dir meta a b = (st, Inr [])" "get_kline_latest_n_prepared st dir meta 0 = (st, Inr [])" for st dir meta
    by (simp_all add: get_kline_range_prepared_def get_kline_latest_n_prepared_def)
  note defs = session_get_kline_at_def session_get_kline_range_def session_get_kline_latest_n_def get_kline_at_def get_kline_range_def
    get_kline_latest_n_def with_meta_def
  show "session_get_kline_at E se symbol timeframe ts = on_store se (get_kline_at E (rs_store se) symbol timeframe ts)"
    "session_get_kline_range E se symbol timeframe a b = on_store se (get_kline_range E (rs_store se) symbol timeframe a b)"
    "session_get_kline_latest_n E se symbol timeframe n = on_store se (get_kline_latest_n E (rs_store se) symbol timeframe n)"
    by (cases "find_attached_kline se symbol timeframe"; simp add: defs e attached_kline_loads [OF assms])+
qed

lemma session_scalar_reads:
  assumes "session_ok se"
  shows "session_get_scalar_at E se key ts = on_store se (get_scalar_at E (rs_store se) key ts)"
    and "session_get_scalar_range E se key a b = on_store se (get_scalar_range E (rs_store se) key a b)"
    and "session_find_scalar_timestamps E se key p a b strategy = map_option (on_store se) (find_scalar_timestamps E (rs_store se) key p a b strategy)"
proof -
  have e: "a > b \<Longrightarrow> get_scalar_range_prepared st dir meta a b = (st, Inr [])"
    "a > b \<Longrightarrow> find_scalar_timestamps_prepared st dir meta key p a b strategy = Some (st, Inr [])" for st dir meta
    by (simp_all add: get_scalar_range_prepared_def find_scalar_timestamps_prepared_def)
  note defs = session_get_scalar_at_def session_get_scalar_range_def session_find_scalar_timestamps_def get_scalar_at_def get_scalar_range_def
    find_scalar_timestamps_def with_meta_def
  show "session_get_scalar_at E se key ts = on_store se (get_scalar_at E (rs_store se) key ts)"
    "session_get_scalar_range E se key a b = on_store se (get_scalar_range E (rs_store se) key a b)"
    "session_find_scalar_timestamps E se key p a b strategy = map_option (on_store se) (find_scalar_timestamps E (rs_store se) key p a b strategy)"
    by (cases "find_attached_scalar se key"; simp add: defs e attached_scalar_loads [OF assms])+
qed

lemma session_predicate_query:
  assumes "session_ok se"
  shows "session_query_scalar_predicate E se query = map_option (on_store se) (query_scalar_predicate E (rs_store se) query)"
  by (cases "find_attached_scalar se (q_key query)"; cases "validate_scalar_predicate_query query";
      simp add: session_query_scalar_predicate_def query_scalar_predicate_def on_store_def attached_scalar_loads [OF assms])

text \<open>The sessions of a store: what the operations reach from a fresh session.\<close>

inductive session_step :: "Env \<Rightarrow> FastKReadSession \<Rightarrow> FastKReadSession \<Rightarrow> bool" for E where
  step_attach_kline: "session_step E se (fst (attach_kline_series E se symbol timeframe))"
| step_attach_scalar: "session_step E se (fst (attach_scalar_series E se key))"
| step_prewarm: "prewarm se = Some (se', r) \<Longrightarrow> session_step E se se'"
| step_clear: "session_step E se (clear_caches se)"
| step_reset: "session_step E se (reset se mode)"
| step_inventory: "session_step E se (fst (attached_inventory E se))"
| step_kline_at: "session_step E se (fst (session_get_kline_at E se symbol timeframe ts))"
| step_kline_range: "session_step E se (fst (session_get_kline_range E se symbol timeframe a b))"
| step_kline_latest: "session_step E se (fst (session_get_kline_latest_n E se symbol timeframe n))"
| step_scalar_at: "session_step E se (fst (session_get_scalar_at E se key ts))"
| step_scalar_range: "session_step E se (fst (session_get_scalar_range E se key a b))"
| step_timestamps: "session_find_scalar_timestamps E se key p a b strategy = Some (se', r) \<Longrightarrow> session_step E se se'"
| step_predicate: "session_query_scalar_predicate E se query = Some (se', r) \<Longrightarrow> session_step E se se'"

definition session_reachable :: "Env \<Rightarrow> FastKStore \<Rightarrow> FastKReadSession \<Rightarrow> bool" where
  "session_reachable E st se \<longleftrightarrow> (session_step E)\<^sup>*\<^sup>* (read_session st) se"

lemma session_ok_grows:
  assumes "session_ok se" and "grows (rs_store se) st'"
  shows "session_ok (se\<lparr>rs_store := st'\<rparr>)"
proof -
  have "fk_manifest_cache st' k = Some m" if "fk_manifest_cache (rs_store se) k = Some m" for k m
    using assms(2) that unfolding grows_def map_le_def by (metis domI)
  moreover have "fk_root st' = fk_root (rs_store se)" using assms(2) by (simp add: grows_def)
  ultimately show ?thesis using assms(1) by (simp add: session_ok_def Let_def)
qed

lemma session_ok_on_store: "session_ok se \<Longrightarrow> grows (rs_store se) (fst m) \<Longrightarrow> session_ok (fst (on_store se m))"
  by (simp add: on_store_def session_ok_grows)

lemma session_ok_map_store:
  assumes "session_ok se" and "may_grow (rs_store se) m" and "map_option (on_store se) m = Some (se', r)"
  shows "session_ok se'"
  using assms session_ok_on_store [OF assms(1)] by (auto simp: may_grow_def on_store_def)

lemma load_meta_caches: "load_meta E st key dir = (st', Inr meta) \<Longrightarrow> fk_manifest_cache st' key = Some meta"
  by (auto simp: load_meta_def split: option.splits sum.splits prod.splits)

lemma attach_kline_ok:
  assumes "session_ok se"
  shows "session_ok (fst (attach_kline_series E se symbol timeframe))"
proof -
  let ?key = "series_cache_key symbol KLINE_CATEGORY timeframe" and ?st = "rs_store se"
  obtain st' r where l: "load_meta E ?st ?key (kline_series_dir (fk_root ?st) symbol timeframe) = (st', r)" by fastforce
  note g = load_meta_grows [OF l] and ok = session_ok_grows [OF assms load_meta_grows [OF l]]
  show ?thesis
  proof (cases r)
    case (Inl e)
    with l ok assms show ?thesis by (simp add: attach_kline_series_def build_kline_attachment_def load_kline_meta_def on_store_def)
  next
    case (Inr meta)
    have "fk_manifest_cache st' ?key = Some meta" using load_meta_caches l Inr by blast
    with l Inr ok assms g show ?thesis
      by (auto simp: attach_kline_series_def build_kline_attachment_def load_kline_meta_def on_store_def session_ok_def)
  qed
qed

lemma attach_scalar_ok:
  assumes "session_ok se"
  shows "session_ok (fst (attach_scalar_series E se key))"
proof -
  let ?key = "series_cache_key (key_symbol key) (key_category key) (key_name key)" and ?st = "rs_store se"
  obtain st' r where l: "load_meta E ?st ?key (scalar_series_dir (fk_root ?st) (key_symbol key) (key_category key) (key_name key)) = (st', r)"
    by fastforce
  note g = load_meta_grows [OF l] and ok = session_ok_grows [OF assms load_meta_grows [OF l]]
  show ?thesis
  proof (cases r)
    case (Inl e)
    with l ok assms show ?thesis by (simp add: attach_scalar_series_def build_scalar_attachment_def load_scalar_meta_def on_store_def)
  next
    case (Inr meta)
    have "fk_manifest_cache st' ?key = Some meta" using load_meta_caches l Inr by blast
    with l Inr ok assms g show ?thesis
      by (auto simp: attach_scalar_series_def build_scalar_attachment_def load_scalar_meta_def on_store_def session_ok_def Let_def)
  qed
qed

lemma prewarm_grows:
  "may_grow st (ok_then (try_chunks warm_kline st ks ()) (\<lambda>st _. try_chunks warm_scalar st ss ()))"
proof -
  have w: "grows st (fst (warm_layout dir meta st c))" for dir meta st c
    by (simp add: warm_layout_def split: prod.splits) (metis fst_conv on_runtime_grows)
  have t: "grows st (fst (then_do (warm_layout dir meta st c) (\<lambda>st _. warm_layout dir meta st d)))" for dir meta st c d
    using w [of st dir meta c] grows_trans [OF w w]
    by (auto simp: then_do_def split: prod.splits sum.splits) (metis fst_conv grows_trans w)
  have k: "may_grow st (warm_kline st a u)" for st a u by (auto simp: warm_kline_def Let_def t split: list.splits)
  have s: "may_grow st (warm_scalar st a u)" for st a u
    unfolding warm_scalar_def warm_scalar_chunk_def Let_def by (intro try_chunks_grows ok_then_grows) (auto simp: w intro!: ok_then_grows)
  show ?thesis by (intro ok_then_grows try_chunks_grows k s)
qed

lemma inventory_grows: "grows st (fst (collect_each (load_series_inventory_entry E) st dirs))"
proof (induction dirs arbitrary: st)
  case (Cons d dirs)
  obtain st' r where e: "load_series_inventory_entry E st d = (st', r)" by fastforce
  then have g: "grows st st'" by (auto simp: load_series_inventory_entry_def grows_def split: prod.splits)
  show ?case using g grows_trans [OF g Cons.IH [of st']] by (auto simp: e split: prod.splits sum.splits)
qed simp

lemma session_step_ok: "session_step E se se' \<Longrightarrow> session_ok se \<Longrightarrow> session_ok se'"
proof (induction rule: session_step.induct)
  case (step_clear se)
  then show ?case by (simp add: clear_caches_def clear_runtime_caches_def session_ok_grows grows_def)
next
  case (step_reset se mode)
  then show ?case
    by (cases mode) (simp_all add: reset_def clear_runtime_caches_def clear_scalar_query_caches_def session_ok_grows grows_def, simp add: session_ok_def)
next
  case (step_inventory se)
  then show ?case by (simp add: attached_inventory_def session_ok_on_store inventory_grows)
next
  case (step_prewarm se se' r)
  then show ?case using session_ok_map_store [OF step_prewarm(2) prewarm_grows] unfolding prewarm_def by blast
next
  case (step_timestamps se key p a b strategy se' r)
  then show ?case using session_ok_map_store [OF _ loaded_queries_grow(1)] session_scalar_reads(3) by metis
next
  case (step_predicate se query se' r)
  then show ?case using session_ok_map_store [OF _ loaded_queries_grow(2)] session_predicate_query by metis
qed (simp_all add: attach_kline_ok attach_scalar_ok session_kline_reads session_scalar_reads session_ok_on_store store_reads_grow)

lemma session_reachable_ok: "session_reachable E st se \<Longrightarrow> session_ok se"
  unfolding session_reachable_def
proof (induction rule: rtranclp_induct)
  case base
  show ?case by (simp add: read_session_def session_ok_def)
qed (rule session_step_ok)

end
