(* ===== verification/Backtest.thy ===== *)
theory Backtest
  imports Sessions Derived
begin

text \<open>
  The backtest view (\<^verbatim>\<open>src/src/store_core/engine/backtest.rs\<close>): a facade over a read session that attaches the series
  of a plan and forwards every read. Shown here: initialising a view by a plan only makes session
  steps, so its reads are the reads of the store. Cache counters are left out of the snapshot, with
  the metrics.
\<close>

record BacktestKlineBinding =
  bk_symbol :: string
  bk_timeframe :: string

type_synonym BacktestScalarBinding = ScopedScalarBinding

record BacktestPreparePlan =
  bp_kline :: "BacktestKlineBinding list"
  bp_scalar :: "BacktestScalarBinding list"
  bp_prewarm :: bool

record BacktestCapabilitySnapshot =
  bc_inventory :: "SeriesInventoryEntry list"
  bc_health :: StoreHealthSummary
  bc_scalar_capabilities :: "(ScalarSeriesKey \<times> ScalarQueryCapabilities) list"
  bc_store_stats :: StoreStats

record BacktestStoreView =
  bv_session :: FastKReadSession

definition view_new :: "FastKStore \<Rightarrow> BacktestStoreView" where
  "view_new st = \<lparr>bv_session = read_session st\<rparr>"

definition backtest_view :: "FastKStore \<Rightarrow> BacktestStoreView" where
  "backtest_view st = view_new st"

text \<open>A call of the session through the view.\<close>

definition on_session :: "BacktestStoreView \<Rightarrow> FastKReadSession \<times> 'a \<Rightarrow> BacktestStoreView \<times> 'a" where
  "on_session v m = (v\<lparr>bv_session := fst m\<rparr>, snd m)"

section \<open>Attaching\<close>

definition view_attach_kline_series :: "Env \<Rightarrow> BacktestStoreView \<Rightarrow> string \<Rightarrow> string \<Rightarrow> BacktestStoreView \<times> unit res" where
  "view_attach_kline_series E v symbol timeframe = on_session v (attach_kline_series E (bv_session v) symbol timeframe)"

definition view_attach_kline :: "Env \<Rightarrow> BacktestStoreView \<Rightarrow> string \<Rightarrow> string \<Rightarrow> BacktestStoreView \<times> unit res" where
  "view_attach_kline E v symbol timeframe = view_attach_kline_series E v symbol timeframe"

definition view_attach_kline_many :: "Env \<Rightarrow> BacktestStoreView \<Rightarrow> (string \<times> string) list \<Rightarrow> BacktestStoreView \<times> unit res" where
  "view_attach_kline_many E v bindings = on_session v (attach_kline_many E (bv_session v) bindings)"

definition attach_symbols_for_timeframe :: "Env \<Rightarrow> BacktestStoreView \<Rightarrow> string \<Rightarrow> string list \<Rightarrow> BacktestStoreView \<times> unit res" where
  "attach_symbols_for_timeframe E v timeframe symbols =
     on_session v (try_each (\<lambda>se symbol _. attach_kline_series E se symbol timeframe) (bv_session v) symbols ())"

definition view_attach_scalar_series :: "Env \<Rightarrow> BacktestStoreView \<Rightarrow> ScalarSeriesKey \<Rightarrow> BacktestStoreView \<times> unit res" where
  "view_attach_scalar_series E v key = on_session v (attach_scalar_series E (bv_session v) key)"

definition view_attach_scalar :: "Env \<Rightarrow> BacktestStoreView \<Rightarrow> string \<Rightarrow> string \<Rightarrow> string \<Rightarrow> string \<Rightarrow> BacktestStoreView \<times> unit res" where
  "view_attach_scalar E v symbol timeframe category name =
     view_attach_scalar_series E v (scoped_scalar_series_key symbol timeframe category name)"

definition attach_scalar_key :: "Env \<Rightarrow> BacktestStoreView \<Rightarrow> ScalarSeriesKey \<Rightarrow> BacktestStoreView \<times> unit res" where
  "attach_scalar_key E v key = view_attach_scalar_series E v key"

definition attach_indicator :: "Env \<Rightarrow> BacktestStoreView \<Rightarrow> string \<Rightarrow> string \<Rightarrow> string \<Rightarrow> BacktestStoreView \<times> unit res" where
  "attach_indicator E v symbol timeframe indicator_name =
     view_attach_scalar_series E v (indicator_series_key symbol timeframe indicator_name)"

definition view_attach_scalar_many :: "Env \<Rightarrow> BacktestStoreView \<Rightarrow> BacktestScalarBinding list \<Rightarrow> BacktestStoreView \<times> unit res" where
  "view_attach_scalar_many E v series = on_session v (attach_scalar_many E (bv_session v) (map to_series_key series))"

definition view_prewarm :: "BacktestStoreView \<Rightarrow> (BacktestStoreView \<times> unit res) option" where
  "view_prewarm v = map_option (on_session v) (prewarm (bv_session v))"

definition initialize :: "Env \<Rightarrow> BacktestStoreView \<Rightarrow> BacktestPreparePlan \<Rightarrow> (BacktestStoreView \<times> unit res) option" where
  "initialize E v plan =
     ok_then (Some (if bp_kline plan \<noteq> [] then view_attach_kline_many E v (map (\<lambda>b. (bk_symbol b, bk_timeframe b)) (bp_kline plan))
         else (v, Inr ()))) (\<lambda>v _.
     ok_then (Some (if bp_scalar plan \<noteq> [] then view_attach_scalar_many E v (bp_scalar plan) else (v, Inr ()))) (\<lambda>v _.
     if bp_prewarm plan then view_prewarm v else Some (v, Inr ())))"

section \<open>Snapshots and resets\<close>

definition inventory_snapshot :: "Env \<Rightarrow> BacktestStoreView \<Rightarrow> BacktestStoreView \<times> SeriesInventoryEntry list res" where
  "inventory_snapshot E v = on_session v (attached_inventory E (bv_session v))"

definition health_check :: "nat \<Rightarrow> Env \<Rightarrow> BacktestStoreView \<Rightarrow> StoreHealthSummary res option" where
  "health_check depth E v = attached_health_summary depth E (bv_session v)"

definition health_snapshot :: "nat \<Rightarrow> Env \<Rightarrow> BacktestStoreView \<Rightarrow> StoreHealthSummary res option" where
  "health_snapshot depth E v = health_check depth E v"

definition capability_snapshot ::
  "nat \<Rightarrow> Env \<Rightarrow> BacktestStoreView \<Rightarrow> (BacktestStoreView \<times> BacktestCapabilitySnapshot res) option" where
  "capability_snapshot depth E v =
     ok_then (Some (inventory_snapshot E v)) (\<lambda>v inventory.
     ok_then (map_option (Pair v) (health_check depth E v)) (\<lambda>v health.
     ok_then (map_option (\<lambda>m. on_session v (on_store (bv_session v) m)) (store_stats depth E (rs_store (bv_session v)))) (\<lambda>v stats.
     Some (v, Inr \<lparr>bc_inventory = inventory, bc_health = health,
       bc_scalar_capabilities = attached_scalar_capabilities (bv_session v), bc_store_stats = stats\<rparr>))))"

definition view_reset :: "BacktestStoreView \<Rightarrow> SessionResetMode \<Rightarrow> BacktestStoreView" where
  "view_reset v mode = v\<lparr>bv_session := reset (bv_session v) mode\<rparr>"

definition reset_query_cache :: "BacktestStoreView \<Rightarrow> BacktestStoreView" where
  "reset_query_cache v = view_reset v QueryOnly"

definition reset_logical_cache :: "BacktestStoreView \<Rightarrow> BacktestStoreView" where
  "reset_logical_cache v = view_reset v Logical"

definition full_detach :: "BacktestStoreView \<Rightarrow> BacktestStoreView" where
  "full_detach v = view_reset v FullDetach"

section \<open>Reads\<close>

definition view_get_kline_at ::
  "Env \<Rightarrow> BacktestStoreView \<Rightarrow> string \<Rightarrow> string \<Rightarrow> i64 \<Rightarrow> BacktestStoreView \<times> KlineRecord option res" where
  "view_get_kline_at E v symbol timeframe ts = on_session v (session_get_kline_at E (bv_session v) symbol timeframe ts)"

definition view_get_kline_range ::
  "Env \<Rightarrow> BacktestStoreView \<Rightarrow> string \<Rightarrow> string \<Rightarrow> i64 \<Rightarrow> i64 \<Rightarrow> BacktestStoreView \<times> KlineRecord list res" where
  "view_get_kline_range E v symbol timeframe start_ts end_ts = on_session v (session_get_kline_range E (bv_session v) symbol timeframe start_ts end_ts)"

definition view_get_latest_n ::
  "Env \<Rightarrow> BacktestStoreView \<Rightarrow> string \<Rightarrow> string \<Rightarrow> nat \<Rightarrow> BacktestStoreView \<times> KlineRecord list res" where
  "view_get_latest_n E v symbol timeframe n = on_session v (session_get_kline_latest_n E (bv_session v) symbol timeframe n)"

definition view_get_scalar_at ::
  "Env \<Rightarrow> BacktestStoreView \<Rightarrow> string \<Rightarrow> string \<Rightarrow> string \<Rightarrow> string \<Rightarrow> i64 \<Rightarrow> BacktestStoreView \<times> ScalarRecord option res" where
  "view_get_scalar_at E v symbol timeframe category name ts = on_session v (session_get_scalar_at E (bv_session v) (scoped_scalar_series_key symbol timeframe category name) ts)"

definition get_scalar_at_key ::
  "Env \<Rightarrow> BacktestStoreView \<Rightarrow> ScalarSeriesKey \<Rightarrow> i64 \<Rightarrow> BacktestStoreView \<times> ScalarRecord option res" where
  "get_scalar_at_key E v key ts = on_session v (session_get_scalar_at E (bv_session v) key ts)"

definition view_get_scalar_range ::
  "Env \<Rightarrow> BacktestStoreView \<Rightarrow> string \<Rightarrow> string \<Rightarrow> string \<Rightarrow> string \<Rightarrow> i64 \<Rightarrow> i64 \<Rightarrow> BacktestStoreView \<times> ScalarRecord list res" where
  "view_get_scalar_range E v symbol timeframe category name start_ts end_ts = on_session v (session_get_scalar_range E (bv_session v) (scoped_scalar_series_key symbol timeframe category name) start_ts end_ts)"

definition get_scalar_range_key ::
  "Env \<Rightarrow> BacktestStoreView \<Rightarrow> ScalarSeriesKey \<Rightarrow> i64 \<Rightarrow> i64 \<Rightarrow> BacktestStoreView \<times> ScalarRecord list res" where
  "get_scalar_range_key E v key start_ts end_ts = on_session v (session_get_scalar_range E (bv_session v) key start_ts end_ts)"

definition view_find_scalar_timestamps_via_zmap ::
  "Env \<Rightarrow> BacktestStoreView \<Rightarrow> string \<Rightarrow> string \<Rightarrow> string \<Rightarrow> string \<Rightarrow> ScalarPredicate \<Rightarrow> i64 \<Rightarrow> i64 \<Rightarrow> (BacktestStoreView \<times> i64 list res) option" where
  "view_find_scalar_timestamps_via_zmap E v symbol timeframe category name p start_ts end_ts = map_option (on_session v) (session_find_scalar_timestamps_via_zmap E (bv_session v) (scoped_scalar_series_key symbol timeframe category name) p start_ts end_ts)"

definition find_scalar_timestamps_via_zmap_key ::
  "Env \<Rightarrow> BacktestStoreView \<Rightarrow> ScalarSeriesKey \<Rightarrow> ScalarPredicate \<Rightarrow> i64 \<Rightarrow> i64 \<Rightarrow> (BacktestStoreView \<times> i64 list res) option" where
  "find_scalar_timestamps_via_zmap_key E v key p start_ts end_ts = map_option (on_session v) (session_find_scalar_timestamps_via_zmap E (bv_session v) key p start_ts end_ts)"

definition view_find_scalar_timestamps_via_vix ::
  "Env \<Rightarrow> BacktestStoreView \<Rightarrow> string \<Rightarrow> string \<Rightarrow> string \<Rightarrow> string \<Rightarrow> ScalarPredicate \<Rightarrow> i64 \<Rightarrow> i64 \<Rightarrow> (BacktestStoreView \<times> i64 list res) option" where
  "view_find_scalar_timestamps_via_vix E v symbol timeframe category name p start_ts end_ts = map_option (on_session v) (session_find_scalar_timestamps_via_vix E (bv_session v) (scoped_scalar_series_key symbol timeframe category name) p start_ts end_ts)"

definition find_scalar_timestamps_via_vix_key ::
  "Env \<Rightarrow> BacktestStoreView \<Rightarrow> ScalarSeriesKey \<Rightarrow> ScalarPredicate \<Rightarrow> i64 \<Rightarrow> i64 \<Rightarrow> (BacktestStoreView \<times> i64 list res) option" where
  "find_scalar_timestamps_via_vix_key E v key p start_ts end_ts = map_option (on_session v) (session_find_scalar_timestamps_via_vix E (bv_session v) key p start_ts end_ts)"

definition view_find_scalar_timestamps_raw ::
  "Env \<Rightarrow> BacktestStoreView \<Rightarrow> string \<Rightarrow> string \<Rightarrow> string \<Rightarrow> string \<Rightarrow> ScalarPredicate \<Rightarrow> i64 \<Rightarrow> i64 \<Rightarrow> (BacktestStoreView \<times> i64 list res) option" where
  "view_find_scalar_timestamps_raw E v symbol timeframe category name p start_ts end_ts = map_option (on_session v) (session_find_scalar_timestamps_raw E (bv_session v) (scoped_scalar_series_key symbol timeframe category name) p start_ts end_ts)"

definition find_scalar_timestamps_raw_key ::
  "Env \<Rightarrow> BacktestStoreView \<Rightarrow> ScalarSeriesKey \<Rightarrow> ScalarPredicate \<Rightarrow> i64 \<Rightarrow> i64 \<Rightarrow> (BacktestStoreView \<times> i64 list res) option" where
  "find_scalar_timestamps_raw_key E v key p start_ts end_ts = map_option (on_session v) (session_find_scalar_timestamps_raw E (bv_session v) key p start_ts end_ts)"

definition view_query_scalar_predicate ::
  "Env \<Rightarrow> BacktestStoreView \<Rightarrow> ScalarSeriesKey \<Rightarrow> i64 \<Rightarrow> i64 \<Rightarrow> ScalarPredicateExpr \<Rightarrow> (BacktestStoreView \<times> ScalarPredicateQueryResult res) option" where
  "view_query_scalar_predicate E v key start_ts end_ts p = map_option (on_session v) (session_query_scalar_predicate E (bv_session v)
       \<lparr>q_key = key, q_start_ts = start_ts, q_end_ts = end_ts, q_predicate = p, q_return_values = True\<rparr>)"

definition query_scalar_predicate_with_options ::
  "Env \<Rightarrow> BacktestStoreView \<Rightarrow> ScalarPredicateQuery \<Rightarrow> (BacktestStoreView \<times> ScalarPredicateQueryResult res) option" where
  "query_scalar_predicate_with_options E v query = map_option (on_session v) (session_query_scalar_predicate E (bv_session v) query)"

definition view_get_indicator_at ::
  "Env \<Rightarrow> BacktestStoreView \<Rightarrow> string \<Rightarrow> string \<Rightarrow> string \<Rightarrow> i64 \<Rightarrow> BacktestStoreView \<times> ScalarRecord option res" where
  "view_get_indicator_at E v symbol timeframe indicator_name ts = on_session v (session_get_scalar_at E (bv_session v) (indicator_series_key symbol timeframe indicator_name) ts)"

definition view_get_indicator_range ::
  "Env \<Rightarrow> BacktestStoreView \<Rightarrow> string \<Rightarrow> string \<Rightarrow> string \<Rightarrow> i64 \<Rightarrow> i64 \<Rightarrow> BacktestStoreView \<times> ScalarRecord list res" where
  "view_get_indicator_range E v symbol timeframe indicator_name start_ts end_ts = on_session v (session_get_scalar_range E (bv_session v) (indicator_series_key symbol timeframe indicator_name) start_ts end_ts)"

definition view_find_indicator_timestamps_via_zmap ::
  "Env \<Rightarrow> BacktestStoreView \<Rightarrow> string \<Rightarrow> string \<Rightarrow> string \<Rightarrow> ScalarPredicate \<Rightarrow> i64 \<Rightarrow> i64 \<Rightarrow> (BacktestStoreView \<times> i64 list res) option" where
  "view_find_indicator_timestamps_via_zmap E v symbol timeframe indicator_name p start_ts end_ts = map_option (on_session v) (session_find_scalar_timestamps_via_zmap E (bv_session v) (indicator_series_key symbol timeframe indicator_name) p start_ts end_ts)"

definition view_find_indicator_timestamps_via_vix ::
  "Env \<Rightarrow> BacktestStoreView \<Rightarrow> string \<Rightarrow> string \<Rightarrow> string \<Rightarrow> ScalarPredicate \<Rightarrow> i64 \<Rightarrow> i64 \<Rightarrow> (BacktestStoreView \<times> i64 list res) option" where
  "view_find_indicator_timestamps_via_vix E v symbol timeframe indicator_name p start_ts end_ts = map_option (on_session v) (session_find_scalar_timestamps_via_vix E (bv_session v) (indicator_series_key symbol timeframe indicator_name) p start_ts end_ts)"

section \<open>A view makes session steps\<close>

definition view_reachable :: "Env \<Rightarrow> FastKStore \<Rightarrow> BacktestStoreView \<Rightarrow> bool" where
  "view_reachable E st v \<longleftrightarrow> session_reachable E st (bv_session v)"

lemma session_steps_trans: "session_reachable E st se \<Longrightarrow> (session_step E)\<^sup>*\<^sup>* se se' \<Longrightarrow> session_reachable E st se'"
  unfolding session_reachable_def by (rule rtranclp_trans)

lemma try_each_steps:
  assumes "\<And>se x acc. session_step E se (fst (f se x acc))"
  shows "(session_step E)\<^sup>*\<^sup>* se (fst (try_each f se xs acc))"
proof (induction xs arbitrary: se acc)
  case (Cons x xs)
  obtain se' r where f: "f se x acc = (se', r)" by fastforce
  then have "session_step E se se'" using assms [of se x acc] by simp
  with f show ?case using Cons.IH [of se'] by (cases r) (auto intro: converse_rtranclp_into_rtranclp)
qed simp

lemma attach_many_steps:
  "(session_step E)\<^sup>*\<^sup>* se (fst (attach_kline_many E se ks))" "(session_step E)\<^sup>*\<^sup>* se (fst (attach_scalar_many E se ss))"
  unfolding attach_kline_many_def attach_scalar_many_def
  by (rule try_each_steps, simp add: step_attach_kline step_attach_scalar split: prod.splits)+

lemma initialize_reachable:
  assumes "view_reachable E st v" and "initialize E v plan = Some (v', r)"
  shows "view_reachable E st v'"
proof -
  have k: "view_reachable E st (fst (view_attach_kline_many E v ks))" "view_reachable E st (fst (view_attach_scalar_many E v ss))"
    if "view_reachable E st v" for v ks ss
    using that session_steps_trans attach_many_steps
    by (simp_all add: view_reachable_def view_attach_kline_many_def view_attach_scalar_many_def on_session_def)
  have w: "view_reachable E st v'" if w: "view_reachable E st v" "view_prewarm v = Some (v', r)" for v v' r
  proof -
    obtain se r' where p: "prewarm (bv_session v) = Some (se, r')" "bv_session v' = se"
      using w(2) by (auto simp: view_prewarm_def on_session_def)
    from step_prewarm [OF p(1)] have "(session_step E)\<^sup>*\<^sup>* (bv_session v) se" by (rule r_into_rtranclp)
    with w(1) p(2) show ?thesis unfolding view_reachable_def by (metis session_steps_trans)
  qed
  obtain v1 r1 where 1: "(if bp_kline plan \<noteq> [] then view_attach_kline_many E v (map (\<lambda>b. (bk_symbol b, bk_timeframe b)) (bp_kline plan)) else (v, Inr ())) = (v1, r1)"
    by fastforce
  then have a: "view_reachable E st v1" using k(1) [OF assms(1)] assms(1) by (metis fst_conv)
  obtain v2 r2 where 2: "(if bp_scalar plan \<noteq> [] then view_attach_scalar_many E v1 (bp_scalar plan) else (v1, Inr ())) = (v2, r2)" by fastforce
  then have b: "view_reachable E st v2" using k(2) [OF a] a by (metis fst_conv)
  show ?thesis
    using assms(2) a b w [OF b] unfolding initialize_def 1
    by (cases r1; cases r2) (auto simp: 2 split: if_splits)
qed

end
