(* ===== verification/Spec2Isabelle.thy ===== *)
theory Spec2Isabelle
  imports Metrics SealSample BridgeSample ReadOnly ReplaySample Backtest
begin

text \<open>
  FastK, a storage engine for market time series: a verification library.

  The program. A store is a directory tree. Below it every series (klines, scalars, trades, quotes,
  order book deltas) has a directory with a binary manifest \<^verbatim>\<open>series.meta\<close> and immutable chunk files,
  which hold fixed-width records sorted by timestamp behind a header and a sparse index; scalar
  chunks have two index files beside them (zone map and value index). Reads load the manifest,
  find the chunks of the range and read them through caches of headers and open files. Writes take
  a lock, arm a recovery marker, publish files by write-to-temporary and rename, save the manifest
  and clear the marker. A writer that finds the marker repairs the store first.

  How the code corresponds to the theories. Structs are records and enums datatypes with the names
  of the source, abbreviated in the field prefixes; a function of the source is a definition of
  the same name, prefixed where the source has the name in several modules. \<open>Result\<close> is the sum type
  \<open>'a res\<close> with \<open>FastKError\<close> on the left; the constructor \<open>Panic\<close> stands for a panic. Message texts are
  kept up to the values formatted into them. Integers are words of their width; \<open>i64\<close> is a type of
  its own with the signed order. State is passed explicitly: the file system (\<open>fs_state\<close>: the visible
  files and directories, and which of them are on stable storage), the manifest store, the chunk caches, and the store record \<open>FastKStore\<close>.

    \<^item> \<open>Prelude\<close>: words, \<open>i64\<close>, fallible computations, generic list lemmas.
    \<^item> \<open>Records\<close>, \<open>Meta\<close> (\<^verbatim>\<open>src/src/types\<close>, \<^verbatim>\<open>kline/record.rs\<close>, \<^verbatim>\<open>feature/scalar.rs\<close>): the record families, chunk
      and series metadata, their validation and the search of chunks. The trait \<open>FixedRecord\<close> is a
      dictionary; its laws are the locale \<open>fixed_record\<close>, interpreted for the five families.
    \<^item> \<open>Paths\<close>, \<open>FileIO\<close>, \<open>Manifest\<close> (\<^verbatim>\<open>store_core/storage\<close>, \<^verbatim>\<open>chunk/file.rs\<close>): names and partition keys, positioned
      reads, checksums, atomic replacement, the manifest codec and its process cache.
    \<^item> \<open>Header\<close>, \<open>SparseIndex\<close>, \<open>ChunkReader\<close>, \<open>ChunkCache\<close>, \<open>KlineReader\<close>, \<open>ScalarReader\<close>, \<open>FixedReader\<close>, \<open>Writers\<close>
      (\<^verbatim>\<open>store_core/chunk\<close>): chunk files. The locale \<open>chunk_reader\<close> holds what the readers share.
      \<open>WriteRead\<close> joins writers and readers.
    \<^item> \<open>RowRanges\<close>, \<open>ScalarQuery\<close>, \<open>ZoneMap\<close>, \<open>ValueIndex\<close>, \<open>SidecarCache\<close> (\<^verbatim>\<open>feature/query.rs\<close>, \<^verbatim>\<open>store_core/index\<close>):
      predicates and the index files of scalar chunks.
    \<^item> \<open>Sequence\<close>, \<open>Compaction\<close>, \<open>Derived\<close>, \<open>ReadPlan\<close> (\<^verbatim>\<open>store_core/engine\<close>): sequence reports, compaction advice and
      the chunk life cycle, keys of derived series, planned reads over a thread pool.
    \<^item> \<open>Store\<close>, \<open>ScalarStore\<close> (\<^verbatim>\<open>engine/store.rs\<close>, \<^verbatim>\<open>engine/catalog.rs\<close>): manifest loads, reads and queries.
      \<open>Series\<close>, \<open>StoreReads\<close> and \<open>ScalarAnswers\<close> hold the abstract series (the concatenation of the rows of
      its chunks), the locales of the read loops and the proofs that the store implements it.
    \<^item> \<open>Overlaps\<close>, \<open>Recovery\<close> (\<^verbatim>\<open>storage/recovery.rs\<close>): overlap groups, survivors, adoption of unlisted chunk
      files, rebuilding of manifests, startup recovery.
    \<^item> \<open>StoreWrites\<close>, \<open>RangeWrites\<close> (\<^verbatim>\<open>engine/store.rs\<close>, \<^verbatim>\<open>engine/store_writes.rs\<close>, \<^verbatim>\<open>storage/lock.rs\<close>): the mutations,
      one chunk at a time and over several months. \<open>PutGet\<close> and \<open>RangePut\<close> join them with the reads, \<open>ReadOnly\<close>
      shows that a read-only handle is refused.
    \<^item> \<open>Validation\<close>, \<open>StoreAdmin\<close> (\<^verbatim>\<open>storage/recovery.rs\<close>, \<^verbatim>\<open>engine/store.rs\<close>): comparison of manifests and files, scrub
      and orphan reports, opening, initialisation, repair, inventories, health, sequence scans.
    \<^item> \<open>Replay\<close> (\<^verbatim>\<open>engine/replay.rs\<close>): cursors that hand a series out in batches.
    \<^item> \<open>Sessions\<close>, \<open>Backtest\<close> (\<^verbatim>\<open>engine/store.rs\<close>, \<^verbatim>\<open>engine/backtest.rs\<close>): read sessions with attached series and the
      view for backtests over them. The operations of a session are a step relation.
    \<^item> \<open>Bridge\<close> (\<^verbatim>\<open>bridge.rs\<close>, \<^verbatim>\<open>engine/catalog.rs\<close>): the requests and responses of other processes, each of which opens
      the store, does its work and drops it. \<open>BridgePut\<close> joins a write request with a later read request.
    \<^item> \<open>Snapshot\<close> (\<^verbatim>\<open>snapshot.rs\<close>): sealing a store and verifying it. \<open>Sealed\<close> holds what a seal guarantees.
    \<^item> \<open>Registry\<close> (\<^verbatim>\<open>control/dataset_registry.rs\<close>): the SQL tables of datasets, features, factors and snapshot bindings, and
      the operations on them. The SQL statements of the source are translated to functions on lists of
      rows (a conflict clause, a condition, an order); the state of the registry is the record
      \<open>RegistryDb\<close>. \<open>Published\<close> has its invariant, the relation of all its steps and the resolution of published datasets.
    \<^item> \<open>Metrics\<close> (\<^verbatim>\<open>metrics.rs\<close>): the runtime counters. The operations of the store are modelled without them.
    \<^item> \<open>Samples\<close>, \<open>StoreSamples\<close>, \<open>WriteSamples\<close>, \<open>PutSample\<close>, \<open>RangeSample\<close>, \<open>BridgeSample\<close>, \<open>SealSample\<close>, \<open>ReplaySample\<close>: concrete
      inputs for the witnesses, with complete runs of a write, a range write, a request, a seal and a publication.

  What is shown. Chunks: what a writer published is what every reader returns, through any coherent
  cache state; record, header, manifest and index codecs are inverse to each other on valid
  values; corruption of a manifest is detected. Files: atomic replacement leaves the old or the new
  bytes after a crash at any point, and the new ones once it returned if the directories above were
  durable (it does not make those durable that it creates). Store: range, point and tail reads return the rows of the
  series, planned or not, and all query strategies the same answer. Caches stay within their
  capacity under every interleaving. Writes: after a write of a chunk or of a range of months the
  reads return the old rows together with the new ones, and a write request is seen by the next read
  request; a read-only handle writes nothing. A sealed store verifies, turns every writer away and is resolved
  through the registry only with the bytes that were published; the bindings of the registry are permanent. Replay
  cursors hand out each sealed row of the range once, in order, and end, for batch sizes that a vector can hold. Reads through a session
  or a view are reads of the store. Recovery keeps the manifest free of overlaps and drops only
  chunks that a newer one covers, and a startup recovery that succeeds leaves no marker. Compaction advice
  is exactly the comparison of a month's deltas with the thresholds. Where the code does not do what it means to, the theorem states
  what it does.

  Parameters. Code outside the repository is an argument: the calendar (chrono) as a function from
  timestamps to dates and to the start of the next month, the JSON parser, the outcomes of system calls (\<open>os_outcome\<close>, \<open>pread\<close>), directory
  listings, file locks, modification times, SHA-256, the JSON form of snapshots and the kinds of directory
  entries (\<open>SnapshotEnv\<close>), and for each SQL statement whether the engine fails it (\<open>sql_faults\<close>; a statement that fails
  changes nothing, and a dropped transaction is rolled back). Hypotheses on them are named where a theorem needs
  one: \<open>pread_ok\<close> and \<open>pread_live\<close> (a read transfers a prefix of the range and fails only by being interrupted;
  interruptions end), \<open>removals_ok\<close> (removing a file that is there does not report it missing), \<open>fs_tree\<close> and
  \<open>shallow\<close> (the disk is a tree of directories within the depth of the walks), \<open>settled\<close> (a path is at rest on stable storage), \<open>listing_ok\<close> (a
  listing names children and depends on what lies below), \<open>snapshot_codec\<close> (JSON reads back what it wrote),
  \<open>distinct_hashes\<close> (the files compared have no hash collision).

  Fuel. Two kinds of recursion carry fuel. The read loop counts system calls and is shown to end
  for every kernel that does not interrupt forever. The walks over directories count their depth,
  and \<open>None\<close> is a tree that is deeper. Two loops are partial functions to \<open>option\<close>, where \<open>None\<close> is a loop that
  does not end: the split of a range into months, which ends for a calendar whose next month lies
  ahead, and the loop of the replay cursor, which ends when the files hold the rows the manifest
  counts (and otherwise may not). All other loops are structural or have a termination proof.

  Not modelled: the timing harness (\<^verbatim>\<open>benchmark.rs\<close>); the calls that record timings and counters in the
  operations of the store, which no result depends on; the fault
  points of instrumented builds; Windows variants; the cache counters of a session; the Python
  client, which only converts arguments of calls into the engine. Rows of registry tables have the types of their
  columns, so that the errors of \<open>row.get\<close> on values of another type do not occur in the model.
\<close>

section \<open>Write then read\<close>

text \<open>
  C1. A kline chunk that \<open>write_chunk\<close> published is read back exactly: a range read appends the
  rows of the inclusive range in order, a point lookup finds the row of its timestamp or nothing,
  a planned range read delivers the rows of the range and a planned tail the last \<open>n\<close> rows. This holds through the layout and file
  caches, from any coherent cache state and leaving a coherent one.
\<close>

theorem kline_write_then_read:
  assumes "kline_write_chunk utc os (path_join dir (wo_relative_path options)) meta rows options s = (trace, Inr cm)"
    and "64 * length rows + 128 < 2 ^ 63"
    and "coherent (visible (last trace)) where_is rt"
    and "where_is (key_from_meta cm sid) = path_join dir (wo_relative_path options)"
  shows "(\<exists>rt' path. kline_append_range_in_chunk (visible (last trace)) rt dir sid cm a b out
        = (rt', Inr (path, out @ filter (\<lambda>r. a \<le> k_ts r \<and> k_ts r \<le> b) rows))
        \<and> coherent (visible (last trace)) where_is rt')
    \<and> (\<exists>rt'. kline_find_in_chunk (visible (last trace)) rt dir sid cm t
        = (rt', Inr (find (\<lambda>r. k_ts r = t) rows)) \<and> coherent (visible (last trace)) where_is rt')
    \<and> (\<exists>rt' span. kline_plan_range (visible (last trace)) rt dir sid cm a b = (rt', Inr span)
        \<and> coherent (visible (last trace)) where_is rt'
        \<and> kline_read_planned span (rs_rows span) = Inr (filter (\<lambda>r. a \<le> k_ts r \<and> k_ts r \<le> b) rows))
    \<and> (\<exists>rt' span. kline_plan_tail (visible (last trace)) rt dir sid cm n = (rt', Inr span)
        \<and> coherent (visible (last trace)) where_is rt'
        \<and> kline_read_planned span (rs_rows span) = Inr (drop (length rows - n) rows))"
proof -
  obtain bytes where b: "kline_build utc meta rows options = Inr (bytes, cm)"
    and v: "visible (last trace) (path_join dir (wo_relative_path options)) = Some bytes"
    using publish_visible [OF assms(1) [unfolded kline_write_chunk_def]] by metis
  obtain layout where l: "load_layout bytes = Inr layout" "kline_validate_header (l_header layout) = Inr ()"
    "kline_chunk bytes layout rows" and p: "cm_relative_path cm = wo_relative_path options"
    using kline_build_chunk [OF b assms(2)] by metis
  show ?thesis using kline_chunk_reads [OF assms(3) assms(4) [folded p] v [folded p] l] by blast
qed

theorem kline_write_then_read_witness:
  "\<exists>trace cm rt' path. kline_write_chunk sample_calendar (os_ok 7) (path_join sample_dir ''chunks/2024-01.kc'') sample_series
      (map sample_kline [10, 20, 30]) sample_options empty_fs = (trace, Inr cm)
    \<and> kline_append_range_in_chunk (visible (last trace)) (runtime_new 4) sample_dir 42 cm (I64 15) (I64 30) []
      = (rt', Inr (path, map sample_kline [20, 30]))"
proof -
  let ?p = "path_join sample_dir ''chunks/2024-01.kc''"
  obtain trace cm where w: "kline_write_chunk sample_calendar (os_ok 7) ?p sample_series
      (map sample_kline [10, 20, 30]) sample_options empty_fs = (trace, Inr cm)"
    using sample_publish [OF sample_kline_build] unfolding kline_write_chunk_def by blast
  have "filter (\<lambda>r. I64 15 \<le> k_ts r \<and> k_ts r \<le> I64 30) (map sample_kline [10, 20, 30]) = map sample_kline [20, 30]"
    by code_simp
  note f = this
  have o: "wo_relative_path sample_options = ''chunks/2024-01.kc''" by (simp add: sample_options_def)
  have "64 * length (map sample_kline [10, 20, 30]) + 128 < 2 ^ 63" by simp
  note r = kline_write_then_read [where dir = sample_dir and options = sample_options and where_is = "\<lambda>_. ?p"
    and sid = 42 and a = "I64 15" and b = "I64 30" and out = "[]", unfolded o, OF w this coherent_new [of _ _ 4] refl]
  show ?thesis using w conjunct1 [OF r, unfolded f append_Nil] by (elim exE conjE, intro exI conjI)
qed

text \<open>
  C2. The same for a scalar chunk: range reads, point lookups and planned reads return exactly the
  rows that \<open>write_chunk\<close> published.
\<close>

theorem scalar_write_then_read:
  assumes "scalar_write_chunk utc os (path_join dir (wo_relative_path options)) meta rows options s = (trace, Inr cm)"
    and "32 * length rows + 128 < 2 ^ 63"
    and "coherent (visible (last trace)) where_is rt"
    and "where_is (key_from_meta cm sid) = path_join dir (wo_relative_path options)"
  shows "(\<exists>rt' path. scalar_append_range_in_chunk (visible (last trace)) rt dir sid cm a b out
        = (rt', Inr (path, out @ filter (\<lambda>r. a \<le> s_ts r \<and> s_ts r \<le> b) rows))
        \<and> coherent (visible (last trace)) where_is rt')
    \<and> (\<exists>rt'. scalar_find_in_chunk (visible (last trace)) rt dir sid cm t
        = (rt', Inr (find (\<lambda>r. s_ts r = t) rows)) \<and> coherent (visible (last trace)) where_is rt')
    \<and> (\<exists>rt' span. scalar_plan_range (visible (last trace)) rt dir sid cm a b = (rt', Inr span)
        \<and> coherent (visible (last trace)) where_is rt'
        \<and> scalar_read_planned span (rs_rows span) = Inr (filter (\<lambda>r. a \<le> s_ts r \<and> s_ts r \<le> b) rows))"
proof -
  obtain bytes where b: "scalar_build utc meta rows options = Inr (bytes, cm)"
    and v: "visible (last trace) (path_join dir (wo_relative_path options)) = Some bytes"
    using publish_visible [OF assms(1) [unfolded scalar_write_chunk_def]] by metis
  obtain layout where l: "load_layout bytes = Inr layout" "scalar_validate_header (l_header layout) = Inr ()"
    "scalar_chunk bytes layout rows" and p: "cm_relative_path cm = wo_relative_path options"
    using scalar_build_chunk [OF b assms(2)] by metis
  show ?thesis using scalar_chunk_reads [OF assms(3) assms(4) [folded p] v [folded p] l] by blast
qed

theorem scalar_write_then_read_witness:
  "\<exists>trace cm rt'. scalar_write_chunk sample_calendar (os_ok 7) (path_join sample_dir ''chunks/2024-01.kc'') sample_series
      (map2 sample_scalar [10, 20, 30] [7, 5, 9]) sample_options empty_fs = (trace, Inr cm)
    \<and> scalar_find_in_chunk (visible (last trace)) (runtime_new 4) sample_dir 42 cm (I64 20)
      = (rt', Inr (Some (sample_scalar 20 5)))"
proof -
  let ?p = "path_join sample_dir ''chunks/2024-01.kc''" and ?rows = "map2 sample_scalar [10, 20, 30] [7, 5, 9]"
  obtain trace cm where w: "scalar_write_chunk sample_calendar (os_ok 7) ?p sample_series ?rows sample_options empty_fs
      = (trace, Inr cm)"
    using sample_publish [OF sample_scalar_build] unfolding scalar_write_chunk_def by blast
  have "find (\<lambda>r. s_ts r = I64 20) ?rows = Some (sample_scalar 20 5)" by code_simp
  note f = this
  have o: "wo_relative_path sample_options = ''chunks/2024-01.kc''" by (simp add: sample_options_def)
  have "32 * length ?rows + 128 < 2 ^ 63" by simp
  note r = scalar_write_then_read [where dir = sample_dir and options = sample_options and where_is = "\<lambda>_. ?p"
    and sid = 42 and t = "I64 20", unfolded o, OF w this coherent_new [of _ _ 4] refl]
  show ?thesis using w conjunct1 [OF conjunct2 [OF r], unfolded f] by (elim exE conjE, intro exI conjI)
qed

text \<open>
  C3. A quote chunk written by the generic fixed-record writer is read back exactly by the generic
  reader: range reads return the rows of the range and a tail read returns the last \<open>n\<close> rows.
\<close>

theorem bbo_write_then_read:
  assumes "fixed_write_chunk bbo_record utc os (path_join dir (wo_relative_path options)) meta rows options s = (trace, Inr cm)"
    and "72 * length rows + 128 < 2 ^ 63"
    and "coherent (visible (last trace)) where_is rt"
    and "where_is (key_from_meta cm sid) = path_join dir (wo_relative_path options)"
  shows "(\<exists>rt'. fixed_append_range_in_chunk bbo_record (visible (last trace)) rt dir sid cm a b out
        = (rt', Inr (out @ filter (\<lambda>r. a \<le> b_ts r \<and> b_ts r \<le> b) rows))
        \<and> coherent (visible (last trace)) where_is rt')
    \<and> (\<exists>rt'. fixed_read_tail_in_chunk bbo_record (visible (last trace)) rt dir sid cm n
        = (rt', Inr (drop (length rows - n) rows)) \<and> coherent (visible (last trace)) where_is rt')"
proof -
  obtain bytes where b: "fixed_build bbo_record utc meta rows options = Inr (bytes, cm)"
    and v: "visible (last trace) (path_join dir (wo_relative_path options)) = Some bytes"
    using publish_visible [OF assms(1) [unfolded fixed_write_chunk_def]] by metis
  let ?e = "max (wo_sparse_index_every options) 1"
  obtain layout where l: "load_layout bytes = Inr layout" "fixed_validate_header bbo_record (l_header layout) = Inr ()"
    "chunk_holds bbo_record (\<lambda>_. True) (l_header layout) rows bytes" "header_spans bbo_record (l_header layout) rows"
    and i: "l_sparse_index layout = anchors (unat ?e) (map (ts_of bbo_record) rows)"
    and p: "cm_relative_path cm = wo_relative_path options"
    using bbo.build_chunk [OF b assms(2)] by auto
  have "index_of bbo_record rows (l_sparse_index layout)"
    unfolding i index_of_def using max_one_neq_0 [of "wo_sparse_index_every options"] unat_gt_0 by blast
  moreover have "sorted_wrt (<) (map (ts_of bbo_record) rows)"
    using fixed_build_image(1) [OF b] by (simp add: validate_strict_order_iff bbo_record_def)
  ultimately show ?thesis
    using bbo.chunk_reads [OF assms(3) assms(4) [folded p] v [folded p] l]
    by (simp add: bbo_record_def)
qed

theorem bbo_write_then_read_witness:
  "\<exists>trace cm rt'. fixed_write_chunk bbo_record sample_calendar (os_ok 7) (path_join sample_dir ''chunks/2024-01.kc'')
      (sample_series\<lparr>sm_record_type := Bbo, sm_schema_id := 11, sm_record_size := 56\<rparr>)
      (map sample_bbo [10, 20, 30]) sample_fixed_options empty_fs = (trace, Inr cm)
    \<and> fixed_read_tail_in_chunk bbo_record (visible (last trace)) (runtime_new 4) sample_dir 42 cm 2
      = (rt', Inr (map sample_bbo [20, 30]))"
proof -
  let ?p = "path_join sample_dir ''chunks/2024-01.kc''"
  let ?m = "sample_series\<lparr>sm_record_type := Bbo, sm_schema_id := 11, sm_record_size := 56\<rparr>"
  obtain trace cm where w: "fixed_write_chunk bbo_record sample_calendar (os_ok 7) ?p ?m
      (map sample_bbo [10, 20, 30]) sample_fixed_options empty_fs = (trace, Inr cm)"
    using sample_publish [OF sample_bbo_build] unfolding fixed_write_chunk_def by blast
  have o: "wo_relative_path sample_fixed_options = ''chunks/2024-01.kc''" by (simp add: sample_fixed_options_def)
  have "72 * length (map sample_bbo [10, 20, 30]) + 128 < 2 ^ 63" by simp
  note r = bbo_write_then_read [where dir = sample_dir and options = sample_fixed_options and where_is = "\<lambda>_. ?p"
    and sid = 42 and n = 2, unfolded o, OF w this coherent_new [of _ _ 4] refl]
  have f: "drop (length (map sample_bbo [10, 20, 30]) - 2) (map sample_bbo [10, 20, 30]) = map sample_bbo [20, 30]" by simp
  show ?thesis using w conjunct2 [OF r, unfolded f] by (elim exE conjE, intro exI conjI)
qed

text \<open>
  C4. A defect of the sparse lookup: a trade chunk may hold rows with equal timestamps, and when
  such a run crosses an anchor of the sparse index, reading the range of that one timestamp
  succeeds but returns fewer rows than the chunk holds.
\<close>

theorem trade_equal_timestamps_lost:
  assumes "fixed_build trade_record utc meta rows options = Inr (bytes, cm)"
    and "72 * length rows + 128 < 2 ^ 63" and "\<forall>r \<in> set rows. trade_wf r"
    and "n = unat (max (wo_sparse_index_every options) 1)"
    and "0 < k" and "k * n < length rows" and "t_ts (rows ! (k * n - 1)) = t" and "t_ts (rows ! (k * n)) = t"
  shows "\<exists>layout got. load_layout bytes = Inr layout
    \<and> fixed_append_range_in_file trade_record bytes layout t t [] = Inr got
    \<and> length got < length (filter (\<lambda>r. t_ts r = t) rows)"
proof -
  obtain layout where l: "load_layout bytes = Inr layout"
    "chunk_holds trade_record trade_wf (l_header layout) rows bytes" "header_spans trade_record (l_header layout) rows"
    and i: "l_sparse_index layout = anchors n (map (ts_of trade_record) rows)"
    using trade.build_chunk [OF assms(1,2,3)] assms(4) by metis
  have s: "sorted (map (ts_of trade_record) rows)"
    using fixed_build_image(1) [OF assms(1)] by (simp add: validate_strict_order_iff trade_record_def)
  have n: "0 < n" using max_one_neq_0 [of "wo_sparse_index_every options"] assms(4) by (simp add: unat_gt_0)
  have ts: "ts_of trade_record = t_ts" by (simp add: trade_record_def)
  have eq: "(\<lambda>r. t \<le> t_ts r \<and> t_ts r \<le> t) = (\<lambda>r. t_ts r = t)" by (auto simp: fun_eq_iff)
  from l(1) trade.equal_timestamps_lost [OF l(2) s i n l(3) assms(5,6), unfolded ts, OF assms(7,8), unfolded eq]
  show ?thesis by (elim exE conjE, intro exI conjI)
qed

theorem trade_equal_timestamps_lost_witness:
  "\<exists>bytes cm layout got.
     fixed_build trade_record sample_calendar (sample_series\<lparr>sm_record_type := Trade, sm_schema_id := 10\<rparr>)
       (map sample_trade [10, 20, 20, 20]) sample_fixed_options = Inr (bytes, cm)
     \<and> load_layout bytes = Inr layout
     \<and> fixed_append_range_in_file trade_record bytes layout (I64 20) (I64 20) [] = Inr got \<and> length got < 3"
proof -
  let ?m = "sample_series\<lparr>sm_record_type := Trade, sm_schema_id := 10\<rparr>" and ?rows = "map sample_trade [10, 20, 20, 20]"
  obtain bytes cm where b: "fixed_build trade_record sample_calendar ?m ?rows sample_fixed_options = Inr (bytes, cm)"
    using sample_trade_build by blast
  have e: "unat (max (wo_sparse_index_every sample_fixed_options) 1) = 2" by (simp add: sample_fixed_options_def max_def word_le_nat_alt)
  have f: "length (filter (\<lambda>r. t_ts r = I64 20) ?rows) = 3" by code_simp
  have "\<exists>layout got. load_layout bytes = Inr layout
    \<and> fixed_append_range_in_file trade_record bytes layout (I64 20) (I64 20) [] = Inr got
    \<and> length got < length (filter (\<lambda>r. t_ts r = I64 20) ?rows)"
  proof (rule trade_equal_timestamps_lost [OF b, of 2 1 "I64 20"])
    show "\<forall>r \<in> set ?rows. trade_wf r" by (simp add: sample_trade_def trade_wf_def)
  qed (simp_all add: e sample_trade_def)
  then show ?thesis using b unfolding f by (elim exE conjE, intro exI conjI)
qed

section \<open>Reads of a store\<close>

text \<open>
  C5. The kline reads of the store answer from the whole series: once the manifest is loaded and
  its chunks are on disk, a range read returns the rows of the inclusive range over all chunks,
  whether it reads chunk by chunk or plans spans for the thread pool, a point read finds the row
  of the timestamp, and a tail read returns the last \<open>n\<close> rows. The caches stay coherent.
\<close>

theorem store_kline_reads:
  assumes "load_kline_meta E st symbol timeframe = (st1, Inr meta)"
    and "readable_series kline_record (\<lambda>_. True) where_is st1 (kline_series_dir (fk_root st1) symbol timeframe) meta rows_of"
  shows "(\<exists>st'. get_kline_range E st symbol timeframe a b = (st', Inr (filter (in_range k_ts a b) (series_rows rows_of meta)))
        \<and> (a \<le> b \<longrightarrow> readable_series kline_record (\<lambda>_. True) where_is st' (kline_series_dir (fk_root st') symbol timeframe) meta rows_of))
    \<and> (\<exists>st'. get_kline_at E st symbol timeframe t = (st', Inr (find (\<lambda>r. k_ts r = t) (series_rows rows_of meta)))
        \<and> readable_series kline_record (\<lambda>_. True) where_is st' (kline_series_dir (fk_root st') symbol timeframe) meta rows_of)
    \<and> (\<exists>st'. get_kline_latest_n E st symbol timeframe n
          = (st', Inr (drop (length (series_rows rows_of meta) - n) (series_rows rows_of meta)))
        \<and> (n > 0 \<longrightarrow> readable_series kline_record (\<lambda>_. True) where_is st' (kline_series_dir (fk_root st') symbol timeframe) meta rows_of))"
proof (intro conjI)
  let ?rd = "\<lambda>st'. readable_series kline_record (\<lambda>_. True) where_is st' (kline_series_dir (fk_root st') symbol timeframe) meta rows_of"
  have again: "coherent (fk_files st1) where_is rt \<Longrightarrow> ?rd (st1\<lparr>fk_chunk_runtime := rt\<rparr>)" for rt
    using readable_again [OF assms(2), of rt] by simp
  show "\<exists>st'. get_kline_range E st symbol timeframe a b = (st', Inr (filter (in_range k_ts a b) (series_rows rows_of meta)))
      \<and> (a \<le> b \<longrightarrow> ?rd st')"
  proof (cases "a > b")
    case True
    then have "filter (in_range k_ts a b) (series_rows rows_of meta) = []" by (auto simp: filter_empty_conv i64_ord)
    with True show ?thesis by (auto simp: get_kline_range_def i64_ord)
  next
    case False
    then show ?thesis using kline_range_prepared [OF assms(2), of a b] again assms(1)
      by (fastforce simp: get_kline_range_def with_meta_def)
  qed
  show "\<exists>st'. get_kline_at E st symbol timeframe t = (st', Inr (find (\<lambda>r. k_ts r = t) (series_rows rows_of meta))) \<and> ?rd st'"
    using kline_at_prepared [OF assms(2), of t] again assms(1) by (fastforce simp: get_kline_at_def with_meta_def)
  show "\<exists>st'. get_kline_latest_n E st symbol timeframe n
        = (st', Inr (drop (length (series_rows rows_of meta) - n) (series_rows rows_of meta))) \<and> (n > 0 \<longrightarrow> ?rd st')"
    using kline_latest_prepared [OF assms(2), of n] again assms(1)
    by (cases "n = 0") (fastforce simp: get_kline_latest_n_def with_meta_def)+
qed

theorem store_kline_reads_witness:
  "\<exists>E st st'. get_kline_range E st ''BTC'' ''1m'' (I64 15) (I64 30) = (st', Inr (map sample_kline [20, 30]))"
proof -
  fix E
  obtain st meta where_is where l: "load_kline_meta E st ''BTC'' ''1m'' = (st, Inr meta)"
    and r: "readable_series kline_record (\<lambda>_. True) where_is st (sample_dir_of st) meta (\<lambda>_. map sample_kline [10, 20, 30])"
    and s: "series_rows (\<lambda>_. map sample_kline [10, 20, 30]) meta = map sample_kline [10, 20, 30]"
    by (rule sample_kline_store)
  have f: "filter (in_range k_ts (I64 15) (I64 30)) (map sample_kline [10, 20, 30]) = map sample_kline [20, 30]" by code_simp
  show ?thesis using store_kline_reads [OF l r, of "I64 15" "I64 30"] unfolding s f by blast
qed

text \<open>
  C6. The scalar reads of the store answer from the whole series: range reads return the points of
  the inclusive range in order over all chunks, and point reads the point of the timestamp.
\<close>

theorem store_scalar_reads:
  assumes "load_scalar_meta E st key = (st1, Inr meta)"
    and "readable_series scalar_record (\<lambda>_. True) where_is st1
      (scalar_series_dir (fk_root st1) (key_symbol key) (key_category key) (key_name key)) meta rows_of"
  shows "snd (get_scalar_range E st key a b) = Inr (filter (in_range s_ts a b) (series_rows rows_of meta))
    \<and> snd (get_scalar_at E st key t) = Inr (find (\<lambda>r. s_ts r = t) (series_rows rows_of meta))"
proof (intro conjI)
  show "snd (get_scalar_range E st key a b) = Inr (filter (in_range s_ts a b) (series_rows rows_of meta))"
  proof (cases "a > b")
    case True
    then have "filter (in_range s_ts a b) (series_rows rows_of meta) = []" by (auto simp: filter_empty_conv i64_ord)
    with True show ?thesis by (simp add: get_scalar_range_def)
  next
    case False
    then show ?thesis using scalar_range_prepared [OF assms(2), of a b] assms(1)
      by (fastforce simp: get_scalar_range_def with_meta_def)
  qed
  show "snd (get_scalar_at E st key t) = Inr (find (\<lambda>r. s_ts r = t) (series_rows rows_of meta))"
    using scalar_at_prepared [OF assms(2), of t] assms(1) by (fastforce simp: get_scalar_at_def with_meta_def)
qed

theorem store_scalar_reads_witness:
  "\<exists>E st. snd (get_scalar_at E st sample_key (I64 20)) = Inr (Some (sample_scalar 20 5))"
proof -
  fix E
  obtain st meta where_is side_is where l: "load_scalar_meta E st sample_key = (st, Inr meta)"
    and q: "queryable_series where_is side_is st (scalar_series_dir (fk_root st) ''BTC'' ''kline'' ''1m'') meta (\<lambda>_. sample_scalars)"
    and s: "series_rows (\<lambda>_. sample_scalars) meta = sample_scalars"
    by (rule sample_scalar_store)
  have "readable_series scalar_record (\<lambda>_. True) where_is st (scalar_series_dir (fk_root st) (key_symbol sample_key)
      (key_category sample_key) (key_name sample_key)) meta (\<lambda>_. sample_scalars)"
    using q by (simp add: queryable_series_def sample_key_def)
  note r = store_scalar_reads [OF l this, of "I64 10" "I64 30" "I64 20", unfolded s]
  have "find (\<lambda>r. s_ts r = I64 20) sample_scalars = Some (sample_scalar 20 5)" by code_simp
  with r show ?thesis by metis
qed

text \<open>
  C7. The quote reads of the store, as an instance of the generic reads, return the quotes of the
  inclusive range and the last \<open>n\<close> quotes of the whole series.
\<close>

theorem store_bbo_reads:
  assumes "load_fixed_meta E st symbol BBO_CATEGORY name = (st1, Inr meta)"
    and "readable_series bbo_record (\<lambda>_. True) where_is st1 (series_dir (fk_root st1) symbol BBO_CATEGORY name) meta rows_of"
  shows "snd (get_bbo_range E st symbol name a b) = Inr (filter (in_range b_ts a b) (series_rows rows_of meta))
    \<and> snd (get_bbo_latest_n E st symbol name n) = Inr (drop (length (series_rows rows_of meta) - n) (series_rows rows_of meta))"
  using bbo.range_exact [OF assms, of a b] bbo.latest_exact [OF assms, of n]
  by (auto simp: get_bbo_range_def get_bbo_latest_n_def bbo_record_def)

theorem store_bbo_reads_witness:
  "\<exists>E st. snd (get_bbo_latest_n E st ''BTC'' ''1m'' 2) = Inr (map sample_bbo [20, 30])"
proof -
  fix E
  obtain st meta where_is where l: "load_fixed_meta E st ''BTC'' BBO_CATEGORY ''1m'' = (st, Inr meta)"
    and r: "readable_series bbo_record (\<lambda>_. True) where_is st (series_dir (fk_root st) ''BTC'' BBO_CATEGORY ''1m'') meta
      (\<lambda>_. map sample_bbo [10, 20, 30])"
    and s: "series_rows (\<lambda>_. map sample_bbo [10, 20, 30]) meta = map sample_bbo [10, 20, 30]"
    by (rule sample_bbo_store)
  show ?thesis using store_bbo_reads [OF l r, of "I64 10" "I64 30" 2] unfolding s
    by (intro exI [of _ E] exI [of _ st]) simp
qed

text \<open>
  C8. The thread pool does not change what a planned read returns: for every pool size the split of
  the spans into tasks and groups gives the rows of the sequential read of the same spans.
\<close>

theorem read_spans_any_pool:
  assumes "\<forall>span \<in> set spans. length (cf_file (rs_file span)) < 2 ^ 63 \<and> rs_rows span < 2 ^ 64
      \<and> kline_read_planned span (rs_rows span) = Inr (rows_of span)"
    and "length (concat (map rows_of spans)) * kline_BYTE_SIZE < 2 ^ 64"
  shows "read_spans pool spans kline_BYTE_SIZE kline_read_planned = read_spans None spans kline_BYTE_SIZE kline_read_planned
    \<and> read_spans pool spans kline_BYTE_SIZE kline_read_planned = Inr (concat (map rows_of spans))"
  using kline_spans.read_spans_exact [OF assms] by simp

theorem read_spans_any_pool_witness:
  "read_spans (Some 4) [sample_span] kline_BYTE_SIZE kline_read_planned = Inr (map sample_kline [10, 20])"
proof -
  have "\<forall>span \<in> set [sample_span]. length (cf_file (rs_file span)) < 2 ^ 63 \<and> rs_rows span < 2 ^ 64
      \<and> kline_read_planned span (rs_rows span) = Inr (map sample_kline [10, 20])"
    using sample_span_reads by simp
  from read_spans_any_pool [OF this, where pool = "Some 4"]
  have "length (concat (map (\<lambda>_. map sample_kline [10, 20]) [sample_span])) * kline_BYTE_SIZE < 2 ^ 64 \<Longrightarrow>
    read_spans (Some 4) [sample_span] kline_BYTE_SIZE kline_read_planned
      = Inr (concat (map (\<lambda>_. map sample_kline [10, 20]) [sample_span]))" by blast
  then show ?thesis by (simp add: kline_BYTE_SIZE_def)
qed

section \<open>Predicate queries\<close>

text \<open>
  C9. The three strategies for finding the timestamps at which a scalar satisfies a predicate are
  equivalent: through the zone maps, through the value indexes and by scanning the rows, all
  return the timestamps of the rows in the range that match, in order. The two indexed ones need
  their sidecar at every chunk.
\<close>

theorem scalar_strategies_agree:
  assumes "load_scalar_meta E st key = (st1, Inr meta)"
    and "queryable_series where_is side_is st1
      (scalar_series_dir (fk_root st1) (key_symbol key) (key_category key) (key_name key)) meta rows_of"
    and "\<forall>c \<in> set (sm_chunks meta). has_sidecar_kind c ''zmap'' \<and> has_sidecar_kind c ''vix''"
    and "expr_try_from p = Inr ex" and "validate_series_key key = Inr ()"
  shows "map_option snd (find_scalar_timestamps_via_zmap E st key p a b) = map_option snd (find_scalar_timestamps_raw E st key p a b)
    \<and> map_option snd (find_scalar_timestamps_via_vix E st key p a b) = map_option snd (find_scalar_timestamps_raw E st key p a b)
    \<and> map_option snd (find_scalar_timestamps_raw E st key p a b)
      = Some (Inr (map s_ts (filter (hit ex a b) (series_rows rows_of meta))))"
proof -
  have "\<forall>c \<in> set (sm_chunks meta). answerable strategy c" for strategy using assms(3) by (cases strategy) auto
  note r = find_scalar_timestamps_exact [OF assms(1,2,4) this assms(5), of a b]
  show ?thesis unfolding find_scalar_timestamps_via_zmap_def find_scalar_timestamps_via_vix_def find_scalar_timestamps_raw_def r
    by simp
qed

theorem scalar_strategies_agree_witness:
  "\<exists>E st. map_option snd (find_scalar_timestamps_via_vix E st sample_key \<lparr>p_op = Gt, p_value = I64 6, p_value2 = None\<rparr> (I64 0) (I64 99))
    = Some (Inr [I64 10, I64 30])"
proof -
  fix E
  obtain st meta where_is side_is where l: "load_scalar_meta E st sample_key = (st, Inr meta)"
    and q: "queryable_series where_is side_is st (scalar_series_dir (fk_root st) ''BTC'' ''kline'' ''1m'') meta (\<lambda>_. sample_scalars)"
    and s: "series_rows (\<lambda>_. sample_scalars) meta = sample_scalars"
    and k: "\<forall>c \<in> set (sm_chunks meta). has_sidecar_kind c ''zmap'' \<and> has_sidecar_kind c ''vix''"
    by (rule sample_scalar_store)
  have q': "queryable_series where_is side_is st (scalar_series_dir (fk_root st) (key_symbol sample_key)
      (key_category sample_key) (key_name sample_key)) meta (\<lambda>_. sample_scalars)"
    using q by (simp add: sample_key_def)
  have "expr_try_from \<lparr>p_op = Gt, p_value = I64 6, p_value2 = None\<rparr> = Inr (ExprGt (I64 6))"
    by (simp add: expr_try_from_def)
  moreover have "validate_series_key sample_key = Inr ()" by code_simp
  moreover have "map s_ts (filter (hit (ExprGt (I64 6)) (I64 0) (I64 99)) sample_scalars) = [I64 10, I64 30]" by code_simp
  ultimately show ?thesis using scalar_strategies_agree [OF l q' k, of _ "ExprGt (I64 6)" "I64 0" "I64 99"] unfolding s by metis
qed

text \<open>
  C10. A predicate query refines its specification, the filter of the rows of the series: whichever
  index it picks per chunk, it returns, and the matches are the rows in the range whose value
  satisfies the predicate, in time order.
\<close>

theorem scalar_predicate_query_exact:
  assumes "validate_scalar_predicate_query query = Inr ()" and "load_scalar_meta E st (q_key query) = (st1, Inr meta)"
    and "queryable_series where_is side_is st1 (scalar_series_dir (fk_root st1) (key_symbol (q_key query))
      (key_category (q_key query)) (key_name (q_key query))) meta rows_of"
  shows "\<exists>st' result. query_scalar_predicate E st query = Some (st', Inr result)
    \<and> qr_matches result = map (\<lambda>r. match_of query (s_ts r) (s_value r))
        (filter (\<lambda>r. q_start_ts query \<le> s_ts r \<and> s_ts r \<le> q_end_ts query \<and> expr_matches (q_predicate query) (s_value r))
          (series_rows rows_of meta))"
proof -
  obtain st' result where "query_scalar_predicate E st query = Some (st', Inr result)"
    "qr_matches result = matches_of query (series_rows rows_of meta)"
    by (rule query_scalar_predicate_exact [OF assms])
  moreover have "filter (hit_of query) rows = filter (\<lambda>r. q_start_ts query \<le> s_ts r \<and> s_ts r \<le> q_end_ts query
      \<and> expr_matches (q_predicate query) (s_value r)) rows" for rows
    by (rule filter_cong) (simp_all add: hit_def)
  ultimately show ?thesis by simp
qed

theorem scalar_predicate_query_exact_witness:
  "\<exists>E st st' result. query_scalar_predicate E st \<lparr>q_key = sample_key, q_start_ts = I64 15, q_end_ts = I64 99,
      q_predicate = ExprLt (I64 8), q_return_values = True\<rparr> = Some (st', Inr result)
    \<and> qr_matches result = [\<lparr>pm_ts = I64 20, pm_value = Some (I64 5)\<rparr>]"
proof -
  fix E
  let ?q = "\<lparr>q_key = sample_key, q_start_ts = I64 15, q_end_ts = I64 99, q_predicate = ExprLt (I64 8), q_return_values = True\<rparr>"
  obtain st meta where_is side_is where l: "load_scalar_meta E st sample_key = (st, Inr meta)"
    and q: "queryable_series where_is side_is st (scalar_series_dir (fk_root st) ''BTC'' ''kline'' ''1m'') meta (\<lambda>_. sample_scalars)"
    and s: "series_rows (\<lambda>_. sample_scalars) meta = sample_scalars"
    by (rule sample_scalar_store)
  have q': "queryable_series where_is side_is st (scalar_series_dir (fk_root st) (key_symbol (q_key ?q))
      (key_category (q_key ?q)) (key_name (q_key ?q))) meta (\<lambda>_. sample_scalars)"
    using q by (simp add: sample_key_def)
  have l': "load_scalar_meta E st (q_key ?q) = (st, Inr meta)" using l by simp
  have v: "validate_scalar_predicate_query ?q = Inr ()" by code_simp
  have "map (\<lambda>r. match_of ?q (s_ts r) (s_value r)) (filter (\<lambda>r. q_start_ts ?q \<le> s_ts r \<and> s_ts r \<le> q_end_ts ?q
      \<and> expr_matches (q_predicate ?q) (s_value r)) sample_scalars) = [\<lparr>pm_ts = I64 20, pm_value = Some (I64 5)\<rparr>]" by code_simp
  with scalar_predicate_query_exact [OF v l' q', unfolded s] show ?thesis by metis
qed

section \<open>Durability\<close>

text \<open>
  C11. Crash safety of \<open>atomic_write\<close>, which publishes chunks and replaces manifests: whatever system
  calls fail and at whatever point power is lost, a destination that was at rest then holds either
  exactly what it held before or exactly the new bytes, and the new bytes only if the caller's closure
  succeeded. If the call returned \<open>Ok\<close> and the directories above the destination were on stable
  storage before it, the destination holds exactly the new bytes. Otherwise it may also be
  missing: the call syncs the parent's entries, not the entries of the directories that
  \<open>ensure_dir\<close> created on the way to it.
\<close>

theorem atomic_write_power_loss:
  assumes "atomic_write os dest allow_replace (bytes, write_error) s = (trace, r)" and "settled s dest"
  shows "(\<forall>s' \<in> set trace. \<forall>c. after_power_loss s' dest c \<longrightarrow>
        c = map_option f_data (fs_files s dest) \<or> write_error = None \<and> c = Some bytes)
    \<and> (r = Inr () \<longrightarrow> (\<forall>c. after_power_loss (last trace) dest c \<longleftrightarrow>
        c = Some bytes \<or> \<not> durable_parents s dest \<and> c = None))"
proof (intro conjI ballI allI impI)
  fix s' c assume "s' \<in> set trace" and "after_power_loss s' dest c"
  then show "c = map_option f_data (fs_files s dest) \<or> write_error = None \<and> c = Some bytes"
    using old_or_new_power_loss [OF atomic_write_states [OF assms(1)] assms(2)] by blast
next
  fix c assume "r = Inr ()"
  with assms(1) show "after_power_loss (last trace) dest c \<longleftrightarrow> c = Some bytes \<or> \<not> durable_parents s dest \<and> c = None"
    using atomic_write_durable by blast
qed

theorem atomic_write_power_loss_witness:
  "(\<exists>trace. atomic_write (os_ok 7) (path_join sample_dir ''chunks/2024-01.kc'') False ([1, 2, 3], None) durable_fs = (trace, Inr ())
      \<and> (\<forall>c. after_power_loss (last trace) (path_join sample_dir ''chunks/2024-01.kc'') c \<longleftrightarrow> c = Some [1, 2, 3]))
    \<and> (\<exists>trace. atomic_write (os_ok 7) (path_join sample_dir ''chunks/2024-01.kc'') False ([1, 2, 3], None) empty_fs = (trace, Inr ())
      \<and> after_power_loss (last trace) (path_join sample_dir ''chunks/2024-01.kc'') None)"
proof
  let ?p = "path_join sample_dir ''chunks/2024-01.kc''"
  obtain t1 where w1: "atomic_write (os_ok 7) ?p False ([1, 2, 3], None) durable_fs = (t1, Inr ())"
    using sample_durable_path(1) [of "[1, 2, 3]"] by (auto simp: atomic_write_new_def)
  have "settled durable_fs ?p" by (simp add: durable_fs_def empty_fs_def ensure_dir_def settled_def)
  from conjunct2 [OF atomic_write_power_loss [OF w1 this]] w1 sample_durable_path(2)
  show "\<exists>trace. atomic_write (os_ok 7) ?p False ([1, 2, 3], None) durable_fs = (trace, Inr ())
      \<and> (\<forall>c. after_power_loss (last trace) ?p c \<longleftrightarrow> c = Some [1, 2, 3])" by blast
  obtain t2 where w2: "atomic_write (os_ok 7) ?p False ([1, 2, 3], None) empty_fs = (t2, Inr ())"
    using sample_new_path [of "[1, 2, 3]"] by (auto simp: atomic_write_new_def)
  have "settled empty_fs ?p" by (simp add: empty_fs_def settled_def)
  from conjunct2 [OF atomic_write_power_loss [OF w2 this]] w2 sample_durable_path(3)
  show "\<exists>trace. atomic_write (os_ok 7) ?p False ([1, 2, 3], None) empty_fs = (trace, Inr ())
      \<and> after_power_loss (last trace) ?p None" by blast
qed

text \<open>
  C12. Manifests survive encoding and the file system: a valid manifest encodes, what \<open>encode_manifest\<close>
  wrote \<open>decode_manifest\<close> reads back, field by field, chunk by chunk and sidecar by sidecar, and a
  manifest that was saved is the one that is loaded, from the fingerprint-checked cache or, in
  read-only mode, from the file. \<open>manifest_fits\<close> asks for well-formed UTF-8, counts below \<open>2 ^ 32\<close> and an
  active chunk id that is not the reserved 0.
\<close>

theorem manifest_roundtrips:
  assumes "series_meta_validate m = Inr ()" and "\<forall>s \<in> set (manifest_strings m). length s < 2 ^ 16" and "manifest_fits m"
  shows "(\<exists>bytes. encode_manifest m = Inr bytes \<and> decode_manifest bytes = Inr m)
    \<and> (save_series_meta mtime os st dir m = (st', Inr ()) \<longrightarrow>
      load_series_meta_shared_mode json utc now mtime os' st' dir read_only = (st', Inr m))"
  using encode_manifest_total [OF assms(1,2)] manifest_roundtrip [OF _ assms(3)] save_then_load [OF _ assms(3)] by blast

theorem manifest_roundtrips_witness:
  "\<exists>bytes st'. encode_manifest sample_series = Inr bytes \<and> decode_manifest bytes = Inr sample_series
    \<and> save_series_meta (\<lambda>_ _. 0) (os_ok 7) \<lparr>ms_fs = empty_fs, ms_cache = Map.empty\<rparr> sample_dir sample_series = (st', Inr ())
    \<and> load_series_meta_shared_mode (\<lambda>_. None) sample_calendar (I64 0) (\<lambda>_ _. 0) (os_ok 8) st' sample_dir True
      = (st', Inr sample_series)"
proof -
  have "list_all (\<lambda>s. length s < 100) (manifest_strings sample_series)" by code_simp
  then have "\<forall>s \<in> set (manifest_strings sample_series). length s < 2 ^ 16" by (auto simp: list_all_iff)
  note r = manifest_roundtrips [OF sample_series_valid this sample_series_fits]
  obtain st' where "save_series_meta (\<lambda>_ _. 0) (os_ok 7) \<lparr>ms_fs = empty_fs, ms_cache = Map.empty\<rparr> sample_dir sample_series = (st', Inr ())"
    using sample_save by blast
  with conjunct1 [OF r] conjunct2 [OF r] show ?thesis by blast
qed

text \<open>
  C13. A manifest in which one byte after the 24-byte header was changed is rejected: the checksum
  detects every single-byte corruption of the body.
\<close>

theorem manifest_corruption_detected:
  assumes "encode_manifest m = Inr bytes" and "24 \<le> i" and "i < length bytes" and "b \<noteq> bytes ! i"
  shows "decode_manifest (bytes[i := b]) = Inl (InvalidData ''manifest checksum mismatch'')"
proof -
  let ?body = "body_bytes m"
  define head where
    "head = MANIFEST_MAGIC @ le_bytes 4 MANIFEST_VERSION @ le_bytes 4 (sm_flags m) @ le_bytes 8 (checksum64 ?body)"
  have e: "bytes = head @ ?body" using encode_manifest_eq [OF assms(1)] by (simp add: head_def)
  have h: "length head = 24" by (simp add: head_def)
  have j: "i - 24 < length ?body" "b \<noteq> ?body ! (i - 24)" using assms(2-4) e h by (auto simp: nth_append)
  have "bytes[i := b] = head @ ?body[i - 24 := b]" using assms(2) h by (simp add: e list_update_append)
  then show ?thesis using checksum64_update [OF j] by (simp add: head_def decode_manifest_frame)
qed

theorem manifest_corruption_detected_witness:
  "\<exists>bytes. encode_manifest sample_series = Inr bytes
    \<and> decode_manifest (bytes[24 := bytes ! 24 + 1]) = Inl (InvalidData ''manifest checksum mismatch'')"
proof -
  obtain bytes where e: "encode_manifest sample_series = Inr bytes" using sample_series_encodes by blast
  have "24 < length bytes" using encode_manifest_eq [OF e] by (simp add: body_bytes_def)
  then show ?thesis using e manifest_corruption_detected [OF e, of 24 "bytes ! 24 + 1"] by simp
qed

section \<open>Finding chunks\<close>

text \<open>
  C14. In a validated series whose chunks are not empty, the binary search over the chunk list finds
  the chunk of a timestamp: it returns index \<open>i\<close> exactly if chunk \<open>i\<close>'s span contains the timestamp. The
  half-open chunk window of a time range contains exactly the chunks whose span meets the range, and
  it is empty for an inverted range.
\<close>

theorem chunk_search_exact:
  assumes "series_meta_validate m = Inr ()" and "\<forall>c \<in> set (sm_chunks m). cm_count c > 0"
  shows "(find_chunk_for_ts m ts = Some i \<longleftrightarrow>
      i < length (sm_chunks m) \<and> cm_start_ts (sm_chunks m ! i) \<le> ts \<and> ts \<le> cm_end_ts (sm_chunks m ! i))
    \<and> (case find_chunks_for_range m s e of (a, b) \<Rightarrow> b \<le> length (sm_chunks m) \<and>
        (\<forall>i < length (sm_chunks m). a \<le> i \<and> i < b \<longleftrightarrow>
          s \<le> e \<and> cm_start_ts (sm_chunks m ! i) \<le> e \<and> s \<le> cm_end_ts (sm_chunks m ! i)))"
  using find_chunk_for_ts_exact [OF series_meta_validate_spans [OF assms]]
    find_chunks_for_range_exact [OF series_meta_validate_spans [OF assms]] by (auto split: prod.split)

theorem chunk_search_exact_witness:
  "find_chunk_for_ts sample_series (I64 20) = Some 0
    \<and> (case find_chunks_for_range sample_series (I64 25) (I64 99) of (a, b) \<Rightarrow> b \<le> 1 \<and> a \<le> 0 \<and> 0 < b)"
proof -
  have "\<forall>c \<in> set (sm_chunks sample_series). cm_count c > 0" by (simp add: sample_series_def sample_chunk_def)
  note * = chunk_search_exact [OF sample_series_valid this, where ts = "I64 20" and i = 0 and s = "I64 25" and e = "I64 99"]
  have "sm_chunks sample_series = [sample_chunk]" "cm_start_ts sample_chunk = I64 10" "cm_end_ts sample_chunk = I64 30"
    by (simp_all add: sample_series_def sample_chunk_def)
  moreover have "I64 10 \<le> I64 20 \<and> I64 20 \<le> I64 30 \<and> I64 25 \<le> I64 99 \<and> I64 10 \<le> I64 99 \<and> I64 25 \<le> I64 30" by code_simp
  ultimately show ?thesis using * by (auto split: prod.splits)
qed

section \<open>Files and caches\<close>

text \<open>
  C15. Under every interleaving of cache hits, admissions, invalidations and clears the file cache
  never holds more open files than its capacity, its clock queue lists each cached key exactly once,
  and admitting a further file succeeds: the eviction loop ends and its lookups never panic.
\<close>

theorem file_cache_bounded:
  assumes "cache_step\<^sup>*\<^sup>* (file_cache_new n) c"
  shows "length (fc_files (fc_inner c)) \<le> max n 1 \<and> distinct (fc_order (fc_inner c))
    \<and> set (fc_order (fc_inner c)) = fst ` set (fc_files (fc_inner c))
    \<and> (\<exists>c' reader. file_cache_admit c key opened = Inr (c', reader) \<and> length (fc_files (fc_inner c')) \<le> max n 1)"
proof -
  have ok: "file_cache_ok c" "fc_capacity c = max n 1"
    using cache_steps_ok [OF assms file_cache_new_ok(1)] by (simp_all add: file_cache_new_def)
  obtain c' reader where "file_cache_admit c key opened = Inr (c', reader)" "file_cache_ok c'" "fc_capacity c' = fc_capacity c"
    using file_cache_admit_ok [OF ok(1)] .
  with ok show ?thesis by (auto simp: file_cache_ok_def queue_ok_def)
qed

theorem file_cache_bounded_witness:
  "\<exists>c' reader. file_cache_admit (file_cache_clear (file_cache_new 2)) (key_from_meta sample_chunk 1) [1, 2] = Inr (c', reader)
    \<and> length (fc_files (fc_inner c')) \<le> max 2 1"
  using file_cache_bounded [of 2 "file_cache_clear (file_cache_new 2)"] cache_step.drop_all [of "file_cache_new 2"] by blast

text \<open>
  C16. The positioned read loop is total: against any kernel that answers short counts, interruptions
  and end of file as documented, fails in no other way than by interruption and does not interrupt for ever, \<open>read_exact_uninit\<close> ends, and its
  result is the bytes of the range or the error of a file that is too short.
\<close>

theorem read_exact_uninit_correct:
  assumes "pread_ok pread" and "pread_live pread" and "unat (cf_offset f) + n < 2 ^ 63"
  shows "\<exists>fuel f' r. read_exact_uninit pread fuel k f n = Some (r, f')
    \<and> io_res r = read_at (cf_file f) (cf_offset f) n"
  using assms by (rule read_exact_uninit_total)

theorem read_exact_uninit_correct_witness:
  "\<exists>fuel f' r. read_exact_uninit slow_pread fuel 0 \<lparr>cf_file = [1, 2, 3, 4], cf_offset = 1\<rparr> 2 = Some (r, f')
    \<and> io_res r = Inr [2, 3]"
  using read_exact_uninit_correct [OF slow_pread_ok, of "\<lparr>cf_file = [1, 2, 3, 4], cf_offset = 1\<rparr>" 2 0]
  by (simp add: read_at_def slice_of_def)

section \<open>Index sidecars\<close>

text \<open>
  C17. Under every interleaving of lookups, admissions, invalidations and clears from an empty cache,
  the sidecar cache stays within its capacity, its queue and its map hold the same keys, and the
  eviction loop of the next admission returns.
\<close>

theorem sidecar_cache_bounded:
  assumes "(sidecar_step capacity)\<^sup>*\<^sup>* sidecar_state_default st"
  shows "length (sk_values st) \<le> capacity \<and> distinct (sk_order st) \<and> set (sk_order st) = fst ` set (sk_values st)
    \<and> (\<exists>st'. sidecar_admit capacity st key entries = Some st' \<and> length (sk_values st') \<le> capacity)"
proof -
  have k: "sidecar_ok capacity st" by (rule sidecar_steps_ok [OF assms sidecar_state_ok(1)])
  then have "keys_agree st" by (simp add: sidecar_ok_def)
  then obtain st' where "sidecar_admit capacity st key entries = Some st'" "sidecar_ok capacity st'"
    using sidecar_admit_ok by metis
  with k show ?thesis by (auto simp: sidecar_ok_def keys_agree_def)
qed

theorem sidecar_cache_bounded_witness:
  "\<exists>st'. sidecar_admit 1 (sidecar_state_default :: nat SidecarCacheState)
     \<lparr>sk_generation = 1, sk_checksum = 2, sk_relative_path = ''a''\<rparr> 7 = Some st' \<and> length (sk_values st') \<le> 1"
  by (rule sidecar_cache_bounded [OF rtranclp.rtrancl_refl, THEN conjunct2, THEN conjunct2, THEN conjunct2])

text \<open>
  C18. Merging the row ranges that a zone map selects keeps exactly the selected rows: the merged
  ranges cover the same row numbers and are ascending and disjoint, so that no row is read twice.
\<close>

theorem merge_row_ranges_exact:
  assumes "\<forall>(s, e) \<in> set ranges. s \<le> e"
  shows "(\<Union>(s, e) \<in> set (merge_row_ranges ranges). {unat s..unat e}) = (\<Union>(s, e) \<in> set ranges. {unat s..unat e})
    \<and> sorted_wrt (\<lambda>(s, e) (s', e'). unat e < unat s') (merge_row_ranges ranges)"
proof -
  have "proper ranges" using assms by (simp add: proper_def)
  note m = merge_row_ranges_correct [OF this]
  have "(\<Union>(s, e) \<in> set rs. {unat s..unat e}) = covered rs" for rs by (fastforce simp: covered_def)
  then show ?thesis using m by (simp add: ascending_def)
qed

theorem merge_row_ranges_exact_witness:
  "(\<Union>(s, e) \<in> set (merge_row_ranges [(8, 9), (0, 3), (4, 5)]). {unat s..unat e})
    = (\<Union>(s, e) \<in> set [(8 :: u32, 9 :: u32), (0, 3), (4, 5)]. {unat s..unat e})"
  using merge_row_ranges_exact [of "[(8, 9), (0, 3), (4, 5)]"] by simp

section \<open>Sequence scans\<close>

text \<open>
  C19. A sequence scan reports a clean series exactly when every record continues the sequence of the
  record before it. A scan of a non-empty series without violations accounts for the whole run of sequence numbers:
  the records, less the duplicates, plus the missing numbers of the gaps are the distance from the
  first to the last number. The 64-bit gap counts never wrap, even from the least to the
  greatest sequence number.
\<close>

theorem sequence_scan_exact:
  assumes "rs \<noteq> []"
  shows "(sequence_is_clean (fst (observe_records R rs (sequence_report_new R symbol category name a b) None))
      \<longleftrightarrow> (\<forall>i. Suc i < length rs \<longrightarrow> ival (sequence_value R (rs ! Suc i)) = ival (sequence_value R (rs ! i)) + 1))
    \<and> (sq_violations (fst (observe_records R rs (sequence_report_new R symbol category name a b) None)) = [] \<longrightarrow>
      int (length rs) - int (length (sq_duplicates (fst (observe_records R rs (sequence_report_new R symbol category name a b) None)))) + sum_list (map (\<lambda>g. uint (g_missing_count g)) (sq_gaps (fst (observe_records R rs (sequence_report_new R symbol category name a b) None))))
      = ival (sequence_value R (last rs)) - ival (sequence_value R (hd rs)) + 1)"
proof (intro conjI impI)
  show "sequence_is_clean (fst (observe_records R rs (sequence_report_new R symbol category name a b) None))
      \<longleftrightarrow> (\<forall>i. Suc i < length rs \<longrightarrow> ival (sequence_value R (rs ! Suc i)) = ival (sequence_value R (rs ! i)) + 1)"
    using observe_records_clean [of R rs "sequence_report_new R symbol category name a b" None]
    by (auto simp: successively_conv_nth sequence_is_clean_def sequence_report_new_def)
  assume v: "sq_violations (fst (observe_records R rs (sequence_report_new R symbol category name a b) None)) = []"
  obtain r rs' where Cons: "rs = r # rs'" using assms by (cases rs) auto
  let ?ob = "\<lparr>ob_ts = ts_of (fixed_of R) r, ob_sequence = sequence_value R r,
    ob_ordinal = sq_scanned_record_count (sequence_report_new R symbol category name a b)\<rparr>"
  let ?rep = "observe_sequence (sequence_report_new R symbol category name a b) None ?ob"
  have z: "missing_total ?rep = 0" "sq_duplicates ?rep = []"
    by (simp_all add: observe_sequence_def sequence_report_new_def missing_total_def Let_def)
  have "sq_violations (fst (observe_records R rs' ?rep (Some ?ob))) = []" using v by (simp add: Cons Let_def)
  from observe_records_account [OF this]
  show "int (length rs) - int (length (sq_duplicates (fst (observe_records R rs (sequence_report_new R symbol category name a b) None)))) + sum_list (map (\<lambda>g. uint (g_missing_count g)) (sq_gaps (fst (observe_records R rs (sequence_report_new R symbol category name a b) None))))
      = ival (sequence_value R (last rs)) - ival (sequence_value R (hd rs)) + 1"
    using z by (simp add: Cons Let_def missing_total_def last_map split: if_splits)
qed

theorem sequence_scan_exact_witness:
  "sequence_is_clean (fst (observe_records bbo_sequenced
     [sample_bbo 10\<lparr>b_sequence := I64 4\<rparr>, sample_bbo 20\<lparr>b_sequence := I64 5\<rparr>] (sequence_report_new bbo_sequenced ''BTC'' ''bbo'' ''q'' (I64 0) (I64 99)) None))"
proof -
  let ?rs = "[sample_bbo 10\<lparr>b_sequence := I64 4\<rparr>, sample_bbo 20\<lparr>b_sequence := I64 5\<rparr>]"
  have "\<forall>i. Suc i < length ?rs \<longrightarrow> ival (sequence_value bbo_sequenced (?rs ! Suc i)) = ival (sequence_value bbo_sequenced (?rs ! i)) + 1"
    by (auto simp: bbo_sequenced_def ival_def less_Suc_eq)
  then show ?thesis using sequence_scan_exact [of ?rs bbo_sequenced] by blast
qed

text \<open>
  C20. The runtime counters are exact at any level and in any order: after any sequence of recordings
  every counter holds its former value plus the recorded amounts, as 64-bit words, where nothing counts
  at level off and timings count at level detailed only; two threads' recordings give the same
  snapshot in every interleaving, and a reset clears the counters and keeps the level.
\<close>

theorem metrics_exact:
  assumes "mset events = mset events'"
  shows "metrics_snapshot (run_metrics events m) = metrics_snapshot (run_metrics events' m)
    \<and> (\<forall>c. mx_counters (metrics_snapshot (run_metrics events m)) c
        = mt_counters m c + sum_list (map (\<lambda>(d, n). if d = c then weight (metrics_level m) c n else 0) events))
    \<and> mx_metrics_level (metrics_snapshot (run_metrics events m)) = metrics_level m
    \<and> metrics_snapshot (metrics_reset m) = \<lparr>mx_metrics_level = metrics_level m, mx_counters = (\<lambda>_. 0)\<rparr>
    \<and> metrics_level (metrics_set_level level m) = level"
proof (intro conjI)
  show "metrics_snapshot (run_metrics events m) = metrics_snapshot (run_metrics events' m)" by (rule run_metrics_order [OF assms])
  show "metrics_level (metrics_set_level level m) = level"
    by (cases level) (simp_all add: metrics_level_def metrics_set_level_def metrics_level_from_u8_def)
  show "metrics_snapshot (metrics_reset m) = \<lparr>mx_metrics_level = metrics_level m, mx_counters = (\<lambda>_. 0)\<rparr>"
    by (simp add: metrics_snapshot_def metrics_reset_def metrics_level_def)
qed (simp_all add: metrics_snapshot_def run_metrics_sum)

theorem metrics_exact_witness:
  "mx_counters (metrics_snapshot (run_metrics [(M_sidecar_cache_hits, 9), (M_bytes_read, 5), (M_manifest_load_ns, 7)] (metrics_new Basic))) M_sidecar_cache_hits = 1
   \<and> metrics_snapshot (run_metrics [(M_sidecar_cache_hits, 9), (M_bytes_read, 5)] (metrics_new Basic))
     = metrics_snapshot (run_metrics [(M_bytes_read, 5), (M_sidecar_cache_hits, 9)] (metrics_new Basic))"
proof
  have l: "metrics_level (metrics_new Basic) = Basic" by (simp add: metrics_new_def metrics_level_def metrics_level_from_u8_def)
  show "mx_counters (metrics_snapshot (run_metrics [(M_sidecar_cache_hits, 9), (M_bytes_read, 5), (M_manifest_load_ns, 7)] (metrics_new Basic))) M_sidecar_cache_hits = 1"
    using metrics_exact [OF refl, of "[(M_sidecar_cache_hits, 9), (M_bytes_read, 5), (M_manifest_load_ns, 7)]" "metrics_new Basic"]
    by (simp add: l weight_def timers_def event_counters_def) (simp add: metrics_new_def)
  show "metrics_snapshot (run_metrics [(M_sidecar_cache_hits, 9), (M_bytes_read, 5)] (metrics_new Basic))
     = metrics_snapshot (run_metrics [(M_bytes_read, 5), (M_sidecar_cache_hits, 9)] (metrics_new Basic))"
    by (rule metrics_exact [THEN conjunct1]) simp
qed

section \<open>Compaction and keys\<close>

text \<open>
  C21. The compaction advice. A month's deltas are its readable chunks after the base chunk, the one with
  the earliest start (the first in the manifest among equals). The decision for a month counts
  the deltas and adds up their bytes, rows times record size modulo \<open>2 ^ 64\<close>, and asks for a merge exactly when the
  count reaches the smaller of the two count thresholds or these bytes reach theirs. There is
  advice for exactly the months that have a chunk, readable or not.
\<close>

theorem compaction_rules:
  assumes "d \<in> set (evaluate_all policy meta)"
  shows "cd_delta_chunk_count d = card (month_deltas meta (cd_month_key d))
    \<and> cd_delta_total_bytes d = (\<Sum>i \<in> month_deltas meta (cd_month_key d). stored_bytes meta (sm_chunks meta ! i))
    \<and> (cd_should_merge d \<longleftrightarrow>
        card (month_deltas meta (cd_month_key d)) \<ge> min (cp_delta_chunk_threshold policy) (cp_append_count_threshold policy)
        \<or> (\<Sum>i \<in> month_deltas meta (cd_month_key d). stored_bytes meta (sm_chunks meta ! i)) \<ge> cp_delta_total_bytes_threshold policy)
    \<and> cd_month_key ` set (evaluate_all policy meta) = cm_month_key ` set (sm_chunks meta)"
proof -
  obtain key where e: "evaluate_month policy meta key = Some d"
    using assms by (auto simp: evaluate_all_def map_filter_def Let_def)
  have "cd_month_key d = key" using e by (auto simp: evaluate_month_def Let_def split: if_splits)
  then show ?thesis using evaluate_month_decides [OF e] evaluate_all_covers by simp
qed

theorem compaction_rules_witness:
  "\<exists>d d'. set (evaluate_all (compaction_policy_default\<lparr>cp_delta_total_bytes_threshold := 144\<rparr>) two_chunk_series) = {d}
     \<and> cd_should_merge d
     \<and> set (evaluate_all (compaction_policy_default\<lparr>cp_delta_total_bytes_threshold := 145\<rparr>) two_chunk_series) = {d'}
     \<and> \<not> cd_should_merge d'"
proof -
  have "\<exists>d. set (evaluate_all policy two_chunk_series) = {d} \<and> cd_month_key d = ''2024-01''" for policy
    by (simp add: evaluate_all_def evaluate_month_def two_chunk_series_def sample_series_def sample_chunk_def Let_def map_filter_def)
  then obtain d where d: "\<And>policy. set (evaluate_all policy two_chunk_series) = {d policy} \<and> cd_month_key (d policy) = ''2024-01''"
    by metis
  have "cd_should_merge (d (compaction_policy_default\<lparr>cp_delta_total_bytes_threshold := b\<rparr>)) \<longleftrightarrow> b \<le> 144" for b
    using compaction_rules [of "d (compaction_policy_default\<lparr>cp_delta_total_bytes_threshold := b\<rparr>)"
        "compaction_policy_default\<lparr>cp_delta_total_bytes_threshold := b\<rparr>" two_chunk_series]
    by (simp add: d two_chunk_deltas compaction_policy_default_def)
  then show ?thesis using d by (intro exI conjI) (auto simp: conjunct1 [OF d])
qed

text \<open>
  C22. A scoped scalar binding survives its encoding as a series key when its timeframe, with a
  trailing at sign added, has no two adjacent at signs; in the other direction every key that
  decodes is the key of its binding.
\<close>

theorem scoped_binding_roundtrip:
  "(\<not> sublist ''@@'' (sb_timeframe b @ ''@'') \<longrightarrow> decode_scoped_scalar_key (to_series_key b) = Some b)
    \<and> (decode_scoped_scalar_key key = Some b' \<longrightarrow> to_series_key b' = key)"
  using binding_roundtrip key_roundtrip by (simp add: scopes_cleanly_def)

theorem scoped_binding_roundtrip_witness:
  "decode_scoped_scalar_key (to_series_key (binding_indicator ''BTC'' ''1m'' ''rsi'')) = Some (binding_indicator ''BTC'' ''1m'' ''rsi'')"
proof -
  have "\<not> sublist ''@@'' (sb_timeframe (binding_indicator ''BTC'' ''1m'' ''rsi'') @ ''@'')" by code_simp
  then show ?thesis using scoped_binding_roundtrip by blast
qed

text \<open>
  C23. The manifest cache of the store confuses series: its key joins symbol, category and name with
  colons, so that two series whose joined names agree share an entry, and loading the second
  after the first returns the manifest of the first without looking at the second's directory.
\<close>

theorem manifest_cache_key_collision:
  assumes "load_scalar_meta E st key1 = (st1, Inr meta)"
    and "key_symbol key1 @ '':'' @ key_category key1 @ '':'' @ key_name key1
      = key_symbol key2 @ '':'' @ key_category key2 @ '':'' @ key_name key2"
  shows "load_scalar_meta E st1 key2 = (st1, Inr meta)"
  using assms by (auto simp: load_scalar_meta_def load_meta_def series_cache_key_def Let_def split: option.splits prod.splits sum.splits)


theorem manifest_cache_key_collision_witness:
  "\<exists>E st meta. load_scalar_meta E st \<lparr>key_symbol = ''BTC:kline'', key_category = ''1m'', key_name = ''x''\<rparr> = (st, Inr meta)
     \<and> sm_symbol meta = ''BTC'' \<and> sm_category meta = ''kline'' \<and> sm_name meta = ''1m:x''"
proof -
  fix E
  let ?m = "sample_series\<lparr>sm_name := ''1m:x''\<rparr>"
  have "load_scalar_meta E (store_of ?m Map.empty) \<lparr>key_symbol = ''BTC'', key_category = ''kline'', key_name = ''1m:x''\<rparr>
      = (store_of ?m Map.empty, Inr ?m)"
    unfolding load_scalar_meta_def by (rule load_store_of) (simp add: sample_series_def)
  from manifest_cache_key_collision [OF this, of "\<lparr>key_symbol = ''BTC:kline'', key_category = ''1m'', key_name = ''x''\<rparr>"]
  have "load_scalar_meta E (store_of ?m Map.empty) \<lparr>key_symbol = ''BTC:kline'', key_category = ''1m'', key_name = ''x''\<rparr>
      = (store_of ?m Map.empty, Inr ?m)" by simp
  then show ?thesis
    by (intro exI [of _ E] exI [of _ "store_of ?m Map.empty"] exI [of _ ?m]) (simp add: sample_series_def)
qed

text \<open>
  C24. The manifests that registering a series builds are valid: a kline, scalar or generic series
  with non-blank names and a calendar partition passes the validation that guards every save.
\<close>

theorem registered_meta_valid:
  assumes "\<not> is_blank symbol" and "\<not> is_blank name" and "\<not> is_blank category" and "is_time_based (pp_unit policy)"
  shows "series_meta_validate (build_kline_meta now symbol name timeframe_ms price_scale volume_scale) = Inr ()
    \<and> series_meta_validate (build_scalar_meta now \<lparr>key_symbol = symbol, key_category = category, key_name = name\<rparr> timeframe_ms) = Inr ()
    \<and> series_meta_validate (build_fixed_meta trade_record now symbol category name timeframe_ms policy) = Inr ()
    \<and> series_meta_validate (build_fixed_meta bbo_record now symbol category name timeframe_ms policy) = Inr ()
    \<and> series_meta_validate (build_fixed_meta book_delta_record now symbol category name timeframe_ms policy) = Inr ()"
proof -
  have m: "partition_unit_from_str ''month'' = Inr Month" by code_simp
  have "\<not> is_blank KLINE_CATEGORY" by code_simp
  then show ?thesis using assms m
    by (simp add: series_meta_validate_def build_kline_meta_def build_scalar_meta_def build_fixed_meta_def build_meta_def
        kline_BYTE_SIZE_def scalar_BYTE_SIZE_def trade_record_def bbo_record_def book_delta_record_def trade_BYTE_SIZE_def
        bbo_BYTE_SIZE_def book_delta_BYTE_SIZE_def is_time_based_def)
qed

theorem registered_meta_valid_witness:
  "series_meta_validate (build_kline_meta (I64 1) ''BTC'' ''1m'' (I64 60000) (I64 1) (I64 1)) = Inr ()"
proof -
  have "\<not> is_blank ''BTC''" "\<not> is_blank ''1m''" "\<not> is_blank ''kline''" by code_simp+
  from registered_meta_valid [OF this, of "partition_policy_month"] show ?thesis
    by (simp add: partition_policy_month_def partition_policy_new_def is_time_based_def)
qed

section \<open>Formats\<close>

text \<open>
  C25. A valid version 2 chunk header survives encoding and decoding, also when it is read as the
  front of a longer file. A version 1 header that \<open>to_le_bytes\<close> encoded never decodes to itself if it has
  a timeframe, a defect that the writers do not reach: the encoder keeps the version 2 field order and
  the decoder takes the (zero) chunk id for the timeframe.
\<close>

theorem header_roundtrip_by_version:
  assumes "header_validate h = Inr ()"
  shows "(h_version h = 2 \<longrightarrow> (\<exists>bytes. header_to_le_bytes h = Inr bytes \<and> header_from_le_bytes bytes = Inr h
      \<and> (\<forall>rest. header_read_from (bytes @ rest) = Inr h)))
    \<and> (h_version h = 1 \<and> h_chunk_id h = 0 \<and> h_timeframe_ms h \<noteq> I64 0 \<longrightarrow>
      and_then (header_to_le_bytes h) header_from_le_bytes \<noteq> Inr h)"
proof (intro conjI impI)
  assume v: "h_version h = 2"
  obtain bytes where "header_to_le_bytes h = Inr bytes" "header_from_le_bytes bytes = Inr h"
    using header_roundtrip [OF assms v] by (auto simp: res_simps)
  then show "\<exists>bytes. header_to_le_bytes h = Inr bytes \<and> header_from_le_bytes bytes = Inr h
      \<and> (\<forall>rest. header_read_from (bytes @ rest) = Inr h)"
    using header_read_from_prefix [OF assms v] by blast
next
  assume v: "h_version h = 1 \<and> h_chunk_id h = 0 \<and> h_timeframe_ms h \<noteq> I64 0"
  show "and_then (header_to_le_bytes h) header_from_le_bytes \<noteq> Inr h"
  proof
    assume r: "and_then (header_to_le_bytes h) header_from_le_bytes = Inr h"
    have "h_header_size h = 88" "h_magic h = CHUNK_MAGIC" using assms v by (auto simp: header_validate_iff)
    from header_v1_swapped [OF _ this r] v show False by simp
  qed
qed

theorem header_roundtrip_by_version_witness:
  "(\<exists>bytes. header_to_le_bytes (sample_v1_header\<lparr>h_version := 2, h_header_size := 128\<rparr>) = Inr bytes
    \<and> header_from_le_bytes bytes = Inr (sample_v1_header\<lparr>h_version := 2, h_header_size := 128\<rparr>)
    \<and> (\<forall>rest. header_read_from (bytes @ rest) = Inr (sample_v1_header\<lparr>h_version := 2, h_header_size := 128\<rparr>)))
   \<and> and_then (header_to_le_bytes sample_v1_header) header_from_le_bytes \<noteq> Inr sample_v1_header"
proof
  have i: "I64 10 \<le> I64 30" by code_simp
  let ?h = "sample_v1_header\<lparr>h_version := 2, h_header_size := 128\<rparr>"
  have 2: "header_validate ?h = Inr ()" and 1: "header_validate sample_v1_header = Inr ()"
    using i by (simp_all add: header_validate_iff sample_v1_header_def)
  show "\<exists>bytes. header_to_le_bytes ?h = Inr bytes \<and> header_from_le_bytes bytes = Inr ?h \<and> (\<forall>rest. header_read_from (bytes @ rest) = Inr ?h)"
    using header_roundtrip_by_version [OF 2] by simp
  show "and_then (header_to_le_bytes sample_v1_header) header_from_le_bytes \<noteq> Inr sample_v1_header"
    using header_roundtrip_by_version [OF 1] by (simp add: sample_v1_header_def)
qed

text \<open>
  C26. The codecs of rows and sidecars are lossless: decoding an encoded record of any of the five
  families gives the record back, and reading the file of an encoded zone map or value index gives its
  entries back, with the checksum recorded for it or with none.
\<close>

theorem codecs_roundtrip:
  "(\<forall>r. kline_decode_le (kline_to_le_bytes r) = Inr r)
   \<and> (\<forall>r. scalar_decode_le (scalar_to_le_bytes r) = Inr r)
   \<and> (\<forall>r. bbo_decode_le (bbo_encode_le r) = Inr r)
   \<and> (\<forall>r. book_delta_decode_le (book_delta_encode_le r) = Inr r)
   \<and> (\<forall>ts recv_ts trade_id price qty side flags a b c d e f.
        let r = \<lparr>t_ts = ts, t_recv_ts = recv_ts, t_trade_id = trade_id, t_price = price, t_qty = qty, t_side = side,
          t_flags = flags, t_pad = [a, b, c, d, e, f]\<rparr> in trade_decode_le (trade_encode_le r) = Inr r)
   \<and> (\<forall>p zs. zmap_read_entries_checked [p \<mapsto> zmap_encode_entries zs] p (checksum64 (zmap_encode_entries zs)) = Inr zs
        \<and> zmap_read_entries [p \<mapsto> zmap_encode_entries zs] p = Inr zs)
   \<and> (\<forall>p vs. vix_read_entries_checked [p \<mapsto> vix_encode_entries vs] p (checksum64 (vix_encode_entries vs)) = Inr vs
        \<and> vix_read_entries [p \<mapsto> vix_encode_entries vs] p = Inr vs)"
  using kline.decode_encode scalar.decode_encode bbo.decode_encode book_delta.decode_encode trade.decode_encode
  by (simp add: kline_record_def scalar_record_def bbo_record_def book_delta_record_def trade_record_def trade_wf_def Let_def
      zmap_read_entries_def vix_read_entries_def zmap_read_encoded vix_read_encoded)

text \<open>
  C27. Two timestamps get the same partition key exactly if they lie in the same calendar month, day
  or hour, for the three time-based partition units. Base, delta and merged chunk files of one partition
  have pairwise different names, and delta and merged files of different generations too, so that
  publishing a chunk never meets the file of another generation.
\<close>

theorem partition_naming:
  assumes "is_time_based unit" and "utc ts = Some p" and "utc ts' = Some p'"
  shows "(partition_key utc ts unit = partition_key utc ts' unit \<longleftrightarrow> period unit p = period unit p')
   \<and> (partition_delta_chunk_file_name key g = partition_delta_chunk_file_name key g' \<longleftrightarrow> g = g')
   \<and> (partition_merged_chunk_file_name key g = partition_merged_chunk_file_name key g' \<longleftrightarrow> g = g')
   \<and> partition_delta_chunk_file_name key g \<noteq> partition_merged_chunk_file_name key g'
   \<and> partition_chunk_file_name key \<notin> {partition_delta_chunk_file_name key g, partition_merged_chunk_file_name key g}"
  using partition_key_period [OF assms]
  by (auto simp: chunk_file_names_distinct chunk_file_names_distinct(4,5) [symmetric])

theorem partition_naming_witness:
  "partition_key sample_calendar (I64 1) Day = partition_key sample_calendar (I64 2) Day
   \<and> partition_delta_chunk_file_name ''2024-01-01'' 1 \<noteq> partition_delta_chunk_file_name ''2024-01-01'' 2"
proof -
  have "is_time_based Day" by code_simp
  note * = partition_naming [OF this, of sample_calendar "I64 1" "(2024, 1, 1, 0)" "I64 2" "(2024, 1, 1, 0)" "''2024-01-01''" 1 2]
  have "(1 :: u32) \<noteq> 2" by simp
  with * show ?thesis by (simp add: sample_calendar_def del: fmt_pad_inject)
qed

text \<open>
  C28. Upserting chunk metadata into a valid manifest keeps it valid whenever the chunk is valid and
  overlaps no chunk of another id: the chunk list then is the old one without the chunk of that id,
  plus the new chunk, sorted by start.
\<close>

theorem upsert_chunk_meta_valid:
  assumes "series_meta_validate m = Inr ()" and "\<forall>d \<in> set (sm_chunks m). cm_count d > 0"
    and "distinct (map cm_chunk_id (sm_chunks m))"
    and "chunk_meta_validate c = Inr ()" and "cm_count c > 0"
    and "\<forall>d \<in> set (sm_chunks m). cm_chunk_id d \<noteq> cm_chunk_id c \<longrightarrow> cm_end_ts d < cm_start_ts c \<or> cm_end_ts c < cm_start_ts d"
  shows "\<exists>m'. upsert_chunk_meta now m c = (m', Inr ())
    \<and> set (sm_chunks m') = insert c {d \<in> set (sm_chunks m). cm_chunk_id d \<noteq> cm_chunk_id c}
    \<and> spans_ordered (sm_chunks m') \<and> distinct (map cm_chunk_id (sm_chunks m'))"
proof -
  let ?cs = "overwrite_chunk c (sm_chunks m)" and ?S = "sort_key cm_start_ts (overwrite_chunk c (sm_chunks m))"
  have v: "\<forall>d \<in> set (sm_chunks m). chunk_meta_validate d = Inr ()"
    using assms(1) validate_chunks_each [of None "sm_chunks m"] by (auto simp: series_meta_validate_def res_simps)
  have S: "set ?cs = insert c {d \<in> set (sm_chunks m). cm_chunk_id d \<noteq> cm_chunk_id c}"
    by (rule set_overwrite_chunk [OF assms(3)])
  have D: "distinct (map cm_chunk_id ?cs)" by (rule distinct_overwrite_chunk [OF assms(3)])
  have "spans_ordered ?S"
  proof (rule sort_key_spans)
    show "\<forall>d \<in> set ?cs. cm_start_ts d \<le> cm_end_ts d"
      using S v assms(2,4,5) by (auto simp: chunk_meta_validate_iff)
    show "distinct ?cs" using D by (simp add: distinct_map)
    show "\<forall>d \<in> set ?cs. \<forall>e \<in> set ?cs. d \<noteq> e \<longrightarrow> cm_end_ts d < cm_start_ts e \<or> cm_end_ts e < cm_start_ts d"
      unfolding S using assms(6) spans_ordered_disjoint [OF series_meta_validate_spans [OF assms(1,2)]] by auto
  qed
  moreover from this have "validate_chunks None ?S = Inr ()"
    using S v assms(4) by (intro validate_chunks_complete) auto
  then have "series_meta_validate (m\<lparr>sm_chunks := ?S, sm_manifest_seq := q, sm_updated_at := now\<rparr>) = Inr ()" for q
    using assms(1) by (auto simp: series_meta_validate_def res_simps)
  moreover have "distinct (map cm_chunk_id ?S)" using D by (simp add: distinct_map inj_on_def)
  ultimately show ?thesis using S by (simp add: upsert_chunk_meta_def Let_def)
qed

theorem upsert_chunk_meta_valid_witness:
  "\<exists>m'. upsert_chunk_meta (I64 99) sample_series (sample_chunk\<lparr>cm_chunk_id := 2, cm_start_ts := I64 40, cm_end_ts := I64 60\<rparr>) = (m', Inr ())
    \<and> set (sm_chunks m') = {sample_chunk\<lparr>cm_chunk_id := 2, cm_start_ts := I64 40, cm_end_ts := I64 60\<rparr>, sample_chunk}"
proof -
  let ?c = "sample_chunk\<lparr>cm_chunk_id := 2, cm_start_ts := I64 40, cm_end_ts := I64 60\<rparr>"
  have cs: "sm_chunks sample_series = [sample_chunk]" by (simp add: sample_series_def)
  have "chunk_meta_validate ?c = Inr ()" by code_simp
  moreover have "cm_count sample_chunk > 0" "cm_chunk_id sample_chunk = 1" by (simp_all add: sample_chunk_def)
  moreover have "cm_end_ts sample_chunk < I64 40" by code_simp
  ultimately show ?thesis
    using upsert_chunk_meta_valid [OF sample_series_valid, of ?c "I64 99"] unfolding cs
    by (simp add: Collect_conv_if insert_commute) blast
qed

section \<open>Writes of the store\<close>

text \<open>
  C29. A kline write that returned \<open>Ok\<close> is seen by every later read. The write takes ownership, loads
  the manifest, publishes the chunk and saves the manifest; afterwards a range read returns the rows
  that the series had and the new rows, in the order of their timestamps, restricted to the
  range, point reads find each of them, and tail reads return the last ones. The series may have
  any number of chunks; automatic merging is off.
\<close>

theorem put_kline_then_get:
  assumes "put_kline_chunk depth E st symbol timeframe records = Some (st', Inr ())"
    and "begin_mutation depth E st = Some (st1, Inr ())" and "load_kline_meta E st1 symbol timeframe = (st2, Inr meta)"
    and "kline_series_at st2 symbol timeframe meta rows_of"
    and "file_cache_ok (rt_files (fk_chunk_runtime st))" and "\<not> cp_auto_merge (fk_compaction_policy st)"
    and "72 * (length (series_rows rows_of meta) + length records) + 128 < 2 ^ 63"
  shows "let rows = sort_key k_ts (series_rows rows_of meta @ records) in
      snd (get_kline_range E st' symbol timeframe a b) = Inr (filter (in_range k_ts a b) rows)
    \<and> snd (get_kline_at E st' symbol timeframe t) = Inr (find (\<lambda>r. k_ts r = t) rows)
    \<and> snd (get_kline_latest_n E st' symbol timeframe n) = Inr (drop (length rows - n) rows)"
proof -
  obtain meta' rows' where l: "load_kline_meta E st' symbol timeframe = (st', Inr meta')"
    and rd: "readable_series kline_record (\<lambda>_. True) (\<lambda>k. path_join (kline_series_dir (fk_root st') symbol timeframe) (ck_relative_path k))
      st' (kline_series_dir (fk_root st') symbol timeframe) meta' rows'"
    and s: "series_rows rows' meta' = sort_key k_ts (series_rows rows_of meta @ records)"
    by (rule put_kline_readable [OF assms])
  from kline_series_reads [OF l rd s, of a b t n] show ?thesis by (simp only: Let_def)
qed

theorem put_kline_then_get_witness:
  "\<exists>E st st'. put_kline_chunk 1 E st ''BTC'' ''1m'' (map sample_kline [10, 20, 30]) = Some (st', Inr ())
    \<and> snd (get_kline_range E st' ''BTC'' ''1m'' (I64 15) (I64 30)) = Inr (map sample_kline [20, 30])"
proof -
  obtain manifest where m: "encode_manifest put_series = Inr manifest" using put_series_encodes by blast
  obtain st1 st2 st' where b: "begin_mutation 1 sample_env (put_store manifest) = Some (st1, Inr ())"
    and l: "load_kline_meta sample_env st1 ''BTC'' ''1m'' = (st2, Inr put_series)"
    and p: "put_kline_chunk 1 sample_env (put_store manifest) ''BTC'' ''1m'' (map sample_kline [10, 20, 30]) = Some (st', Inr ())"
    by (rule put_run [OF m])
  have "72 * (length (series_rows (\<lambda>_. [] :: KlineRecord list) put_series) + length (map sample_kline [10, 20, 30])) + 128 < 2 ^ 63"
    by (simp add: put_series_rows)
  note g = put_kline_then_get [OF p b l put_series_at put_store_caches this, unfolded Let_def put_series_rows append_Nil, where a = "I64 15" and b = "I64 30"]
  show ?thesis using p conjunct1 [OF g, unfolded put_rows_between] by blast
qed

text \<open>
  C30. A write request of the bridge is seen by the next read request, although each opens a store of
  its own and they share nothing but the disk: if the write of a batch to an existing series returned
  \<open>Ok\<close>, a later read that can open the store returns, for every range, the rows of the series
  before the write together with the rows of the batch in timestamp order, whatever the order of the
  batch and however many months it spans. The response counts every row of the batch.
\<close>

theorem bridge_write_then_read:
  assumes "write_kline_range depth E next_month disk root symbol timeframe request = Some (disk', Inr response)"
    and "store_open depth E root disk = Some (disk0, Inr st)" and "begin_mutation depth E st = Some (st1, Inr ())"
    and "load_kline_meta E st1 symbol timeframe = (st2, Inr meta)"
    and "fs_exists (ms_fs (fk_disk st2)) (path_join (fk_root st2) ''series'')"
    and "kline_series_at st2 symbol timeframe meta rows_of" and "manifest_on_disk E st2 (kline_series_dir root symbol timeframe) meta"
    and "manifest_fits meta" and "length (sm_chunks meta) + length (wk_records request) < 2 ^ 32"
    and "72 * (length (series_rows rows_of meta) + length (wk_records request)) + 128 < 2 ^ 63"
    and "\<forall>c \<in> set (sm_chunks meta). unat (cm_chunk_id c) < 2 ^ 63"
    and "open_read_only depth E root disk' = Some (disk'', Inr reader)"
  shows "(\<exists>answer. read_kline_range depth E disk' root symbol timeframe a b = Some (disk'', Inr answer)
      \<and> kr_records answer = map kline_to_bridge (filter (in_range k_ts a b)
          (sort_key k_ts (series_rows rows_of meta @ map kline_from_bridge (wk_records request)))))
    \<and> wkr_written_record_count response = length (wk_records request) \<and> \<not> wkr_registered response"
proof -
  let ?new = "sort_key k_ts (map kline_from_bridge (wk_records request))"
  obtain st' summary where app: "append_kline_range depth E next_month st symbol timeframe ?new
      (wk_timeframe_ms request) (wk_price_scale request) (wk_volume_scale request) = Some (st', Inr summary)"
    and d: "disk' = fk_disk st'" and resp: "wkr_written_record_count response = rs_written_record_count summary"
      "wkr_registered response = rs_registered summary"
    by (rule write_request_steps [OF assms(1,2)])
  note c = store_open_caches [OF assms(2)]
  have len: "72 * (length (series_rows rows_of meta) + length ?new) + 128 < 2 ^ 63" "length (sm_chunks meta) + length ?new < 2 ^ 32"
    using assms(9,10) by simp_all
  obtain meta' rows' where r: "readable_series kline_record (\<lambda>_. True) (\<lambda>k. path_join (kline_series_dir (fk_root st') symbol timeframe) (ck_relative_path k))
      st' (kline_series_dir (fk_root st') symbol timeframe) meta' rows'"
    and rows: "series_rows rows' meta' = sort_key k_ts (series_rows rows_of meta @ ?new)" and root: "fk_root st' = fk_root st"
    and m: "manifest_on_disk E st' (kline_series_dir (fk_root st) symbol timeframe) meta'"
    by (rule append_kline_readable [OF app assms(3,4,5,6) c(1,2) len(1) assms(11)]) (use assms(7,8) len(2) that in \<open>simp add: c(3)\<close>)
  have "length (series_rows rows' meta') = length (series_rows rows_of meta) + length (wk_records request)" by (simp add: rows)
  then have size: "72 * length (series_rows rows' meta') + 128 < 2 ^ 63" using assms(10) by simp
  have "series_stored kline_record (\<lambda>_. True) (visible (ms_fs disk')) (kline_series_dir root symbol timeframe) meta' rows'"
    using r by (simp add: readable_series_def fk_files_def d root c(3))
  from read_kline_range_exact [OF assms(12) _ this size, of a b] m obtain answer where
    "read_kline_range depth E disk' root symbol timeframe a b = Some (disk'', Inr answer)"
    "kr_records answer = map kline_to_bridge (filter (in_range k_ts a b) (series_rows rows' meta'))"
    by (auto simp: manifest_on_disk_def d c(3))
  moreover obtain months written where "summary = range_summary (wk_timeframe_ms request) (Some meta) ?new written"
    by (rule append_kline_steps [OF app assms(3,4,5)])
  ultimately show ?thesis by (simp add: rows sort_key_later resp range_summary_def)
qed

theorem bridge_write_then_read_witness:
  "\<exists>E disk disk' response disk'' answer.
      write_kline_range 1 E sample_months disk sample_root ''BTC'' ''1m'' put_request = Some (disk', Inr response)
    \<and> read_kline_range 1 E disk' sample_root ''BTC'' ''1m'' (I64 15) (I64 30) = Some (disk'', Inr answer)
    \<and> kr_records answer = map kline_to_bridge (map sample_kline [20, 30]) \<and> wkr_written_record_count response = 3"
proof -
  obtain manifest where m: "encode_manifest put_series = Inr manifest" using put_series_encodes by blast
  obtain st1 st2 disk' response disk'' r where q: "begin_mutation 1 sample_env (put_store manifest) = Some (st1, Inr ())"
    "load_kline_meta sample_env st1 ''BTC'' ''1m'' = (st2, Inr put_series)"
    "fs_exists (ms_fs (fk_disk st2)) (path_join (fk_root st2) ''series'')"
    and d: "manifest_on_disk sample_env st2 (kline_series_dir sample_root ''BTC'' ''1m'') put_series"
    and w: "write_kline_range 1 sample_env sample_months (put_disk manifest) sample_root ''BTC'' ''1m'' put_request = Some (disk', Inr response)"
    and o: "open_read_only 1 sample_env sample_root disk' = Some (disk'', Inr r)"
    by (rule request_run [OF m])
  have n: "length (sm_chunks put_series) + length (wk_records put_request) < 2 ^ 32"
    "72 * (length (series_rows (\<lambda>_. [] :: KlineRecord list) put_series) + length (wk_records put_request)) + 128 < 2 ^ 63"
    "\<forall>c \<in> set (sm_chunks put_series). unat (cm_chunk_id c) < 2 ^ 63" "length (wk_records put_request) = 3"
    by (simp_all add: put_series_rows put_request_def) (simp_all add: put_series_def)
  note g = bridge_write_then_read [OF w put_open q put_series_at d put_series_valid(2) n(1,2,3) o, where a = "I64 15" and b = "I64 30",
      unfolded put_series_rows append_Nil put_normalized n(4)]
  have "filter (in_range k_ts (I64 15) (I64 30)) (map sample_kline [10, 20, 30]) = map sample_kline [20, 30]" by code_simp
  with conjunct1 [OF g] obtain answer where "read_kline_range 1 sample_env disk' sample_root ''BTC'' ''1m'' (I64 15) (I64 30) = Some (disk'', Inr answer)"
    "kr_records answer = map kline_to_bridge (map sample_kline [20, 30])" by (elim exE conjE) (simp only:)
  with w conjunct1 [OF conjunct2 [OF g]] show ?thesis by blast
qed

text \<open>
  C31. Splitting a batch by month ends and loses nothing: with a calendar whose months are intervals of
  time, the loop returns for every batch that passes the order check, the batches concatenated are the
  records, no batch is empty, the records of a batch have its month key, and no key occurs twice.
\<close>

theorem month_batches_group:
  assumes "months_are_intervals utc next_month" and "validate_strict_order R records = Inr ()"
    and "\<forall>r \<in> set records. utc (ts_of R r) \<noteq> None \<and> next_month (ts_of R r) \<noteq> None"
  shows "\<exists>batches. month_batches R utc next_month records = Some (Inr batches) \<and> concat (map snd batches) = records
    \<and> distinct (map fst batches)
    \<and> (\<forall>(key, rows) \<in> set batches. rows \<noteq> [] \<and> (\<forall>r \<in> set rows. month_key utc (ts_of R r) = Inr key))"
proof -
  have "sorted (map (ts_of R) records)" and ne: "records \<noteq> []"
    using assms(2) by (auto simp: validate_strict_order_iff dest: strict_sorted_imp_sorted split: if_splits)
  from month_loop_groups [OF assms(1) this(1) assms(3)] show ?thesis using ne assms(2) by (simp add: month_batches_def)
qed

theorem month_batches_group_witness:
  "\<exists>batches. month_batches kline_record two_calendar two_months (map sample_kline [10, 20, 30]) = Some (Inr batches)
    \<and> concat (map snd batches) = map sample_kline [10, 20, 30] \<and> distinct (map fst batches)"
proof -
  have v: "validate_strict_order kline_record (map sample_kline [10, 20, 30]) = Inr ()" by code_simp
  have "list_all (\<lambda>r. two_calendar (ts_of kline_record r) \<noteq> None \<and> two_months (ts_of kline_record r) \<noteq> None) (map sample_kline [10, 20, 30])"
    by code_simp
  then have "\<forall>r \<in> set (map sample_kline [10, 20, 30]). two_calendar (ts_of kline_record r) \<noteq> None \<and> two_months (ts_of kline_record r) \<noteq> None"
    by (simp only: list_all_iff)
  from month_batches_group [OF two_months_intervals v this] show ?thesis by blast
qed

text \<open>
  C32. A read-only handle cannot change a store: opening one leaves every file as it was and gives a
  handle marked read-only, and through such a handle every registration, write, range write, merge,
  initialisation and repair fails without touching a file (a range write whose split by month does not
  end never gets that far).
\<close>

theorem read_only_handles:
  "(\<forall>disk' r. open_read_only depth E root disk = Some (disk', r) \<longrightarrow>
      ms_fs disk' = ms_fs disk \<and> (\<forall>st. r = Inr st \<longrightarrow> fk_read_only st \<and> ms_fs (fk_disk st) = ms_fs disk))
   \<and> (fk_read_only st \<longrightarrow>
      refused st (register_kline_series depth E st symbol timeframe timeframe_ms price_scale volume_scale)
      \<and> refused st (register_scalar_series depth E st key timeframe_ms)
      \<and> refused st (register_fixed_series R depth E st symbol category name timeframe_ms policy)
      \<and> refused st (register_indicator_series depth E st symbol timeframe name)
      \<and> refused st (put_kline_chunk depth E st symbol timeframe rows)
      \<and> refused st (put_scalar_chunk depth E st key timeframe_ms points block_size)
      \<and> refused st (append_scalar_chunk depth E st key timeframe_ms points block_size)
      \<and> refused st (put_fixed_chunk R depth E st symbol category name records)
      \<and> refused st (put_indicator_chunk depth E st symbol timeframe name points)
      \<and> refused st (merge_kline_month depth E st symbol timeframe month)
      \<and> refused st (append_kline_range depth E next_month st symbol timeframe rows timeframe_ms price_scale volume_scale)
      \<and> refused st (append_scalar_range depth E next_month st key points scalar_ms)
      \<and> refused st (init depth E st) \<and> refused st (repair_store depth E st))"
proof (intro conjI allI impI)
  fix disk' r assume o': "open_read_only depth E root disk = Some (disk', r)"
  then show "ms_fs disk' = ms_fs disk" by (rule open_read_only_keeps)
  fix st assume "r = Inr st"
  with open_read_only_keeps(2) [OF o'] show "fk_read_only st" "ms_fs (fk_disk st) = ms_fs disk" by blast+
qed (rule locked_writes_refused indicator_writes_refused range_writes_refused maintenance_refused; assumption)+

theorem read_only_handles_witness:
  "\<exists>st. fk_read_only st \<and> refused st (put_kline_chunk 1 sample_env st ''BTC'' ''1m'' (map sample_kline [10, 20, 30]))"
proof -
  let ?st = "(put_store [])\<lparr>fk_read_only := True\<rparr>"
  have "fk_read_only ?st" by simp
  with read_only_handles [where st = ?st and depth = 1 and E = sample_env and symbol = "''BTC''" and timeframe = "''1m''"
      and rows = "map sample_kline [10, 20, 30]" and R = kline_record] show ?thesis by blast
qed

section \<open>Snapshots and published datasets\<close>

text \<open>
  C33. Sealing freezes a store. When \<open>seal_snapshot\<close> succeeds on an unsealed root, the snapshot it
  returns verifies, without a pin and with its own digest, while every other pin is rejected; sealing
  again returns the same snapshot and changes nothing; and through every handle on the root every
  writer fails and leaves everything below the series directory as it was: the registrations, writes,
  merges, initialisation and repair, and the range writes whenever the split of their records by month
  ends (they return in no other way). The two indicator writers load the kline manifest before they ask for the lock:
  they fail and change nothing provided it is not a JSON manifest of the old format, which
  loading would migrate.
\<close>

theorem snapshot_seal_freezes:
  assumes "listing_ok E S" and "snapshot_codec S" and "\<not> fs_exists (ms_fs disk) (path_join root SNAPSHOT_FILE_NAME)"
    and "seal_snapshot depth E S root disk = Some (disk', Inr snapshot)" and "readable_root E root (ms_fs disk')"
  shows "verify_snapshot depth E S root None (ms_fs disk') = Some (Inr snapshot)
    \<and> verify_snapshot depth E S root (Some (sn_digest snapshot)) (ms_fs disk') = Some (Inr snapshot)
    \<and> (\<forall>d. d \<noteq> sn_digest snapshot \<longrightarrow> verify_snapshot depth E S root (Some d) (ms_fs disk') = Some mismatch)
    \<and> seal_snapshot depth E S root disk' = Some (disk', Inr snapshot)
    \<and> (\<forall>st. fk_root st = root \<longrightarrow> fs_of st = ms_fs disk' \<longrightarrow>
         rejected st (register_kline_series depth E st symbol timeframe timeframe_ms price_scale volume_scale)
       \<and> rejected st (register_scalar_series depth E st key timeframe_ms)
       \<and> rejected st (register_fixed_series R depth E st symbol category name timeframe_ms policy)
       \<and> rejected st (put_kline_chunk depth E st symbol timeframe rows)
       \<and> rejected st (put_scalar_chunk depth E st key timeframe_ms points block_size)
       \<and> rejected st (append_scalar_chunk depth E st key timeframe_ms points block_size)
       \<and> rejected st (put_fixed_chunk R depth E st symbol category name records)
       \<and> rejected st (merge_kline_month depth E st symbol timeframe month)
       \<and> rejected st (init depth E st) \<and> rejected st (repair_store depth E st)
       \<and> (month_batches kline_record (e_utc E) next_month rows \<noteq> None \<longrightarrow>
           rejected st (append_kline_range depth E next_month st symbol timeframe rows timeframe_ms price_scale volume_scale))
       \<and> (month_batches scalar_record (e_utc E) next_month points \<noteq> None \<longrightarrow>
           rejected st (append_scalar_range depth E next_month st key points scalar_ms))
       \<and> (\<forall>m. append_kline_range depth E next_month st symbol timeframe rows timeframe_ms price_scale volume_scale = Some m \<longrightarrow> rejected st (Some m))
       \<and> (\<forall>m. append_scalar_range depth E next_month st key points scalar_ms = Some m \<longrightarrow> rejected st (Some m))
       \<and> (binary_manifest (fs_of st) (kline_series_dir root symbol timeframe) \<longrightarrow>
           rejected st (register_indicator_series depth E st symbol timeframe indicator)
           \<and> rejected st (put_indicator_chunk depth E st symbol timeframe indicator points)))"
proof -
  note v = sealed_verifies [OF assms]
  have again: "seal_snapshot depth E S root disk' = Some (disk', Inr snapshot)"
    using v(1) [of None] v(2) by (simp add: seal_snapshot_def fs_exists_def)
  have f: "fs_files (fs_of st) (path_join (fk_root st) SNAPSHOT_FILE_NAME) \<noteq> None" if "fk_root st = root" "fs_of st = ms_fs disk'" for st
    using that v(2) by simp
  show ?thesis
    by (intro conjI allI impI;
        ((rule sealed_rejects sealed_rejects_maintenance, rule f, assumption, assumption)
        | (rule sealed_rejects_ranges, rule f, assumption, assumption, assumption)
        | (rule sealed_rejects_indicators, rule f, assumption, assumption, simp))?)
      (simp_all add: v(1) again)
qed

theorem snapshot_seal_freezes_witness:
  "\<exists>manifest disk' snapshot. encode_manifest put_series = Inr manifest
    \<and> seal_snapshot seal_depth seal_env (seal_snapshots manifest) sample_root (put_disk manifest) = Some (disk', Inr snapshot)
    \<and> verify_snapshot seal_depth seal_env (seal_snapshots manifest) sample_root (Some (sn_digest snapshot)) (ms_fs disk') = Some (Inr snapshot)
    \<and> rejected (fresh_store sample_root disk' False) (put_kline_chunk seal_depth seal_env (fresh_store sample_root disk' False) ''BTC'' ''1m'' put_rows)
    \<and> rejected (fresh_store sample_root disk' False) (append_kline_range seal_depth seal_env sample_months (fresh_store sample_root disk' False) ''BTC'' ''1m''
        put_rows (I64 10) (I64 100) (I64 100))
    \<and> rejected (fresh_store sample_root disk' False) (register_indicator_series seal_depth seal_env (fresh_store sample_root disk' False) ''BTC'' ''1m'' ''rsi'')"
proof -
  obtain manifest where m: "encode_manifest put_series = Inr manifest" using put_series_encodes by blast
  obtain disk' where d: "seal_snapshot seal_depth seal_env (seal_snapshots manifest) sample_root (put_disk manifest) = Some (disk', Inr (seal_manifest manifest))"
    "readable_root seal_env sample_root (ms_fs disk')" "\<not> fs_exists (ms_fs (put_disk manifest)) (path_join sample_root SNAPSHOT_FILE_NAME)"
    "binary_manifest (ms_fs disk') put_dir"
    by (rule seal_run [OF m])
  let ?st = "fresh_store sample_root disk' False"
  have st: "fk_root ?st = sample_root" "fs_of ?st = ms_fs disk'" by (simp_all add: fresh_store_def)
  note z = snapshot_seal_freezes [OF seal_listing_ok seal_codec d(3,1,2), where R = kline_record and symbol = "''BTC''" and timeframe = "''1m''" and rows = put_rows
    and next_month = sample_months and timeframe_ms = "I64 10" and price_scale = "I64 100" and volume_scale = "I64 100" and indicator = "''rsi''"]
  note y = z [THEN conjunct2, THEN conjunct2, THEN conjunct2, THEN conjunct2, THEN spec, THEN mp, THEN mp, OF st]
  have b: "month_batches kline_record (e_utc seal_env) sample_months put_rows \<noteq> None" "binary_manifest (fs_of ?st) put_dir"
    using sample_batches d(4) by (simp_all add: seal_env_def sample_env_def st del: list.map)
  have "rejected ?st (put_kline_chunk seal_depth seal_env ?st ''BTC'' ''1m'' put_rows)" using y by blast
  moreover have "rejected ?st (append_kline_range seal_depth seal_env sample_months ?st ''BTC'' ''1m'' put_rows (I64 10) (I64 100) (I64 100))"
    using y b(1) by blast
  moreover have "rejected ?st (register_indicator_series seal_depth seal_env ?st ''BTC'' ''1m'' ''rsi'')" using y b(2) by blast
  ultimately show ?thesis using m d(1) z [THEN conjunct2, THEN conjunct1] by blast
qed

text \<open>
  C34. The bindings of published datasets are permanent. From a new registry, through any sequence of
  initialisations, dataset, feature and factor updates and publications, failing or not, every
  snapshot binding keeps its root and digest together with a dataset row that is sealed, has the same
  root and carries the digest as its checksum; an update of that version is accepted only if it is
  this very row, and then changes nothing.
\<close>

theorem registry_bindings_permanent:
  assumes "in_memory Q0 = (db0, Inr ())" and "(registry_step depth E S)\<^sup>*\<^sup>* db0 db" and "(registry_step depth E S)\<^sup>*\<^sup>* db db'"
    and "b \<in> set (bindings db)"
  shows "\<exists>r. bound_row b r \<and> r \<in> set (manifest_rows db) \<and> r \<in> set (manifest_rows db') \<and> b \<in> set (bindings db')
    \<and> (\<forall>Q record db''. dm_key record = sb_key b \<longrightarrow> upsert_dataset Q record db' = (db'', Inr ()) \<longrightarrow> record = r \<and> db'' = db')"
proof -
  have wf: "registry_wf db" using keeps_wf [OF registry_steps_keep [OF assms(2) in_memory_wf(1) [OF assms(1)]]] .
  note k = registry_steps_keep [OF assms(3) wf]
  obtain r where r: "r \<in> set (manifest_rows db)" "bound_row b r" using wf assms(4) unfolding registry_wf_def by blast
  have "dm_key r = sb_key b" using r(2) unfolding bound_row_def by (rule conjunct1)
  then have "dm_key r \<in> sb_key ` set (bindings db)" by (rule image_eqI [OF _ assms(4)])
  then have m: "r \<in> set (manifest_rows db')" "b \<in> set (bindings db')" using k r(1) assms(4) unfolding keeps_bound_def by blast+
  show ?thesis using bound_upsert [OF keeps_wf [OF k] m(2,1) r(2)] r m by blast
qed

theorem registry_bindings_permanent_witness:
  "\<exists>manifest db b r. (registry_step seal_depth seal_env (seal_snapshots manifest))\<^sup>*\<^sup>* seal_db db
    \<and> b \<in> set (bindings db) \<and> bound_row b r \<and> r \<in> set (manifest_rows db)"
proof -
  obtain manifest where m: "encode_manifest put_series = Inr manifest" using put_series_encodes by blast
  obtain db disk published where p: "publish_dataset seal_depth seal_env (seal_snapshots manifest) no_faults seal_dataset (seal_db, put_disk manifest) = Some ((db, disk), Inr published)"
    "readable_root seal_env sample_root (ms_fs disk)" by (rule seal_publish [OF m])
  have wf: "registry_wf seal_db" by (rule in_memory_wf [OF seal_db_opened])
  obtain b where b: "b \<in> set (bindings db)"
    using publish_binds [OF wf p(1) seal_listing_ok seal_codec p(2) [folded seal_dataset_valid(2)]] by blast
  have s: "(registry_step seal_depth seal_env (seal_snapshots manifest))\<^sup>*\<^sup>* seal_db db"
    by (rule r_into_rtranclp) (rule publish_step [OF p(1)])
  show ?thesis using registry_bindings_permanent [OF seal_db_opened s rtranclp.rtrancl_refl b] s b by blast
qed

text \<open>
  C35. A published dataset resolves to the published bytes or not at all. After \<open>publish_dataset\<close>
  succeeded, whatever the registry did since and whatever happened to the files, if \<open>dataset_ref\<close>
  resolves the version then it returns the reference of the published row, and the files below the
  series directory are those that were sealed: the same inventory, and for each of its files the same bytes.
\<close>

theorem published_dataset_pinned:
  assumes "registry_wf db" and "publish_dataset depth E S Q record (db, disk) = Some ((db1, disk1), Inr published)"
    and "listing_ok E S" and "snapshot_codec S" and "readable_root E (path_of (dm_fastk_root record)) (ms_fs disk1)"
    and "(registry_step depth E S)\<^sup>*\<^sup>* db1 db2"
    and "dataset_ref depth E S Q2 db2 s (dm_dataset_id record) (dm_version record) = Some (Inr found)"
    and "distinct_hashes depth E S (path_of (dm_fastk_root record)) (ms_fs disk1) s"
  shows "found = Some (dm_dataset_ref published) \<and> dm_fastk_root published = dm_fastk_root record
    \<and> (\<exists>snapshot :: SnapshotManifest. dm_checksum published = Some (sn_digest snapshot)
        \<and> collect_files depth E S (ms_fs disk1) (path_of (dm_fastk_root record)) = Some (Inr (sn_files snapshot))
        \<and> collect_files depth E S s (path_of (dm_fastk_root record)) = Some (Inr (sn_files snapshot))
        \<and> (\<forall>f \<in> set (sn_files snapshot). \<exists>bytes. holds (path_of (dm_fastk_root record)) (ms_fs disk1) (sf_path f) bytes
            \<and> holds (path_of (dm_fastk_root record)) s (sf_path f) bytes))"
proof -
  have wf1: "registry_wf db1" by (rule keeps_wf [OF publish_keeps_bound [OF assms(1,2)]])
  obtain b snapshot where b: "b \<in> set (bindings db1)" "published \<in> set (manifest_rows db1)" "bound_row b published"
    "dm_key published = dm_key record" "dm_fastk_root published = dm_fastk_root record"
    "verify_snapshot depth E S (path_of (dm_fastk_root record)) (Some (sb_digest b)) (ms_fs disk1) = Some (Inr snapshot)"
    by (rule publish_binds [OF assms(1-5)])
  note k = registry_steps_keep [OF assms(6) wf1]
  have "dm_key published = sb_key b" using b(3) unfolding bound_row_def by (rule conjunct1)
  then have "dm_key published \<in> sb_key ` set (bindings db1)" by (rule image_eqI [OF _ b(1)])
  then have m: "published \<in> set (manifest_rows db2)" "b \<in> set (bindings db2)" using k b(1,2) unfolding keeps_bound_def by blast+
  have "dataset_ref depth E S Q2 db2 s (dm_dataset_id published) (dm_version published) = Some (Inr found)" using assms(7) b(4) by simp
  then obtain sn where r: "found = Some (dm_dataset_ref published)"
    "verify_snapshot depth E S (path_of (dm_fastk_root published)) (Some (sb_digest b)) s = Some (Inr sn)"
    by (rule resolve_bound [OF keeps_wf [OF k] m(2,1) b(3)])
  note p = pinned_bytes [OF assms(3) b(6) r(2) [unfolded b(5)] assms(8)] and v = verify_Inr [OF b(6)]
  have "dm_checksum published = Some (sn_digest snapshot)" using b(3) v(3) by (simp add: bound_row_def)
  moreover have "collect_files depth E S s (path_of (dm_fastk_root record)) = Some (Inr (sn_files snapshot))" using p(2) v(2) by simp
  ultimately show ?thesis using r(1) b(5) p(3) v(2) by blast
qed

theorem published_dataset_pinned_witness:
  "\<exists>manifest db disk published found. encode_manifest put_series = Inr manifest
    \<and> publish_dataset seal_depth seal_env (seal_snapshots manifest) no_faults seal_dataset (seal_db, put_disk manifest) = Some ((db, disk), Inr published)
    \<and> dataset_ref seal_depth seal_env (seal_snapshots manifest) no_faults db (ms_fs disk) ''spot'' ''v1'' = Some (Inr found)
    \<and> found = Some (dm_dataset_ref published)"
proof -
  obtain manifest where m: "encode_manifest put_series = Inr manifest" using put_series_encodes by blast
  let ?S = "seal_snapshots manifest"
  obtain db disk published where p: "publish_dataset seal_depth seal_env ?S no_faults seal_dataset (seal_db, put_disk manifest) = Some ((db, disk), Inr published)"
    "readable_root seal_env (path_of (dm_fastk_root seal_dataset)) (ms_fs disk)" unfolding seal_dataset_valid(2) by (rule seal_publish [OF m])
  have wf: "registry_wf seal_db" by (rule in_memory_wf [OF seal_db_opened])
  obtain found where f: "dataset_ref seal_depth seal_env ?S no_faults db (ms_fs disk) (dm_dataset_id seal_dataset) (dm_version seal_dataset) = Some (Inr found)"
    by (rule seal_resolves [OF wf p])
  have "distinct_hashes seal_depth seal_env ?S (path_of (dm_fastk_root seal_dataset)) (ms_fs disk) (ms_fs disk)" by (rule seal_distinct)
  note r = published_dataset_pinned [OF wf p(1) seal_listing_ok seal_codec p(2) rtranclp.rtrancl_refl f this]
  have "dm_dataset_id seal_dataset = ''spot''" "dm_version seal_dataset = ''v1''" by (simp_all add: seal_dataset_def)
  with m p(1) f r show ?thesis by metis
qed

section \<open>Recovery\<close>

text \<open>
  C36. A replay cursor hands out the sealed rows of a series exactly once and in order: over a stored
  series the cursor of the store opens, every sequence of positive batch sizes whose buffers
  stay below \<open>2 ^ 63\<close> bytes is served without error, the batches together are the first rows of the
  requested time range, no batch is larger than asked, and once more rows were asked for than there
  are the cursor reports that it is exhausted. A larger batch size panics, unless the cursor is
  exhausted, and leaves the cursor where it was.
\<close>

theorem replay_exact:
  assumes "load_kline_meta E st symbol timeframe = (st1, Inr meta)"
    and "series_stored kline_record (\<lambda>_. True) (fk_files st1) dir meta rows_of"
    and "dir = kline_series_dir (fk_root st1) symbol timeframe" and "replay_validate_meta kline_record meta = Inr ()"
    and "\<forall>c \<in> set (sm_chunks meta). resolve_relative_path dir (cm_relative_path c) = path_join dir (cm_relative_path c)"
    and "until end_ts start_ts" and "\<forall>n \<in> set sizes. 0 < n \<and> n * 48 < 2 ^ 63"
  shows "let rows = filter (\<lambda>r. start_ts \<le> k_ts r \<and> until end_ts (k_ts r))
        (concat (map rows_of (filter (\<lambda>c. cm_state c = Sealed) (sm_chunks meta)))) in
    \<exists>cursor cursor' batches. replay_kline E st symbol timeframe start_ts end_ts = (st1, Inr cursor)
      \<and> read_batches kline_record (fk_files st1) cursor sizes = Some (cursor', Inr batches)
      \<and> concat batches = take (sum_list sizes) rows \<and> list_all2 (\<lambda>n batch. length batch \<le> n) sizes batches
      \<and> (length rows < sum_list sizes \<longrightarrow> is_exhausted cursor')
      \<and> (\<forall>n. 2 ^ 63 \<le> n * 48 \<and> \<not> is_exhausted cursor' \<longrightarrow>
          next_batch kline_record (fk_files st1) cursor' n = Some (cursor', Inl (Panic ''capacity overflow'')))"
proof -
  let ?o = "\<lparr>ro_start_ts = start_ts, ro_end_ts = end_ts, ro_batch_hint = None\<rparr>"
  have options: "\<not> (case ro_end_ts ?o of None \<Rightarrow> False | Some e \<Rightarrow> ro_start_ts ?o > e)"
    using assms(6) by (auto simp: until_def i64_ord split: option.splits)
  have chunks: "\<forall>c \<in> set (sm_chunks meta). cm_state c = Sealed \<longrightarrow>
      replay_chunk kline_record (\<lambda>_. True) (fk_files st1) \<lparr>rc_series_dir = dir, rc_chunk = c, rc_series_id = sm_series_id meta\<rparr> (rows_of c)"
    using assms(2,5) stored_replay_chunk by (metis series_stored_def)
  have spans: "spans_ordered (sm_chunks meta)" using assms(2) by (simp add: series_stored_def)
  have ts: "ts_of kline_record = k_ts" by (simp add: kline_record_def)
  obtain cursor where c: "replay_new kline_record (fk_files st1) dir meta ?o = Inr cursor"
    "cursor_ok kline_record (\<lambda>_. True) (fk_files st1) rows_of cursor"
    "remaining kline_record rows_of cursor = filter (\<lambda>r. start_ts \<le> k_ts r \<and> until end_ts (k_ts r))
        (concat (map rows_of (filter (\<lambda>c. cm_state c = Sealed) (sm_chunks meta))))"
    using kline.replay_new_rows [OF assms(4) spans options chunks, unfolded ts ReplayOptions.simps] by (elim exE conjE)
  have "replay_kline E st symbol timeframe start_ts end_ts = (st1, Inr cursor)"
    using assms(1,3) c(1) by (simp add: replay_kline_def with_meta_def)
  moreover have size: "capacity_ok kline_record n \<longleftrightarrow> n * 48 < 2 ^ 63" for n
    by (simp add: capacity_ok_def kline_record_def kline_BYTE_SIZE_def)
  then have "\<forall>n \<in> set sizes. 0 < n \<and> capacity_ok kline_record n" using assms(7) by simp
  moreover have "next_batch kline_record (fk_files st1) cursor' n = Some (cursor', Inl (Panic ''capacity overflow''))"
    if "2 ^ 63 \<le> n * 48" "\<not> is_exhausted cursor'" for cursor' n
    using that by (auto simp: next_batch_def size is_exhausted_def)
  ultimately show ?thesis using kline.read_batches_rows [OF c(2), of sizes] unfolding c(3) Let_def is_exhausted_def by blast
qed

theorem replay_exact_witness:
  "\<exists>E st st' cursor cursor' batches. replay_kline E st ''BTC'' ''1m'' (I64 15) None = (st', Inr cursor)
    \<and> read_batches kline_record (fk_files st') cursor [1, 2] = Some (cursor', Inr batches)
    \<and> concat batches = map sample_kline [20, 30] \<and> is_exhausted cursor'"
proof -
  fix E
  obtain st meta cm where l: "load_kline_meta E st ''BTC'' ''1m'' = (st, Inr meta)"
    and r: "series_stored kline_record (\<lambda>_. True) (fk_files st) (sample_dir_of st) meta (\<lambda>_. map sample_kline [10, 20, 30])"
    and m: "replay_validate_meta kline_record meta = Inr ()" "sm_chunks meta = [cm]" "cm_state cm = Sealed"
      "resolve_relative_path (sample_dir_of st) (cm_relative_path cm) = path_join (sample_dir_of st) (cm_relative_path cm)"
    by (rule sample_sealed_store)
  have f: "filter (\<lambda>r. I64 15 \<le> k_ts r \<and> until None (k_ts r)) (map sample_kline [10, 20, 30]) = map sample_kline [20, 30]"
    by code_simp
  have "concat (map (\<lambda>_. map sample_kline [10, 20, 30]) (filter (\<lambda>c. cm_state c = Sealed) (sm_chunks meta))) = map sample_kline [10, 20, 30]"
    by (simp add: m)
  note e = replay_exact [OF l r refl m(1), of None "I64 15" "[1, 2]", unfolded this f Let_def]
  have "\<exists>cursor cursor' batches. replay_kline E st ''BTC'' ''1m'' (I64 15) None = (st, Inr cursor)
    \<and> read_batches kline_record (fk_files st) cursor [1, 2] = Some (cursor', Inr batches)
    \<and> concat batches = map sample_kline [20, 30] \<and> is_exhausted cursor'"
    using e m(2,4) by (auto simp: until_def)
  then show ?thesis by blast
qed

text \<open>
  C37. Reading through a session, or through a backtest view over it, is reading through the store:
  in every session that attaching, warming, resetting and reading can reach from a fresh one, the
  kline and scalar reads and both predicate queries return what the store's own operations return on
  the store of the session, whether the series is attached or not.
\<close>

theorem session_reads_agree:
  assumes "session_reachable E st se" and "bv_session v = se"
  shows "session_get_kline_at E se symbol timeframe t = on_store se (get_kline_at E (rs_store se) symbol timeframe t)
    \<and> session_get_kline_range E se symbol timeframe a b = on_store se (get_kline_range E (rs_store se) symbol timeframe a b)
    \<and> session_get_kline_latest_n E se symbol timeframe n = on_store se (get_kline_latest_n E (rs_store se) symbol timeframe n)
    \<and> session_get_scalar_at E se key t = on_store se (get_scalar_at E (rs_store se) key t)
    \<and> session_get_scalar_range E se key a b = on_store se (get_scalar_range E (rs_store se) key a b)
    \<and> session_find_scalar_timestamps E se key p a b strategy
        = map_option (on_store se) (find_scalar_timestamps E (rs_store se) key p a b strategy)
    \<and> session_query_scalar_predicate E se query = map_option (on_store se) (query_scalar_predicate E (rs_store se) query)
    \<and> snd (view_get_kline_range E v symbol timeframe a b) = snd (get_kline_range E (rs_store se) symbol timeframe a b)
    \<and> snd (view_get_indicator_range E v symbol timeframe indicator a b)
        = snd (get_indicator_range E (rs_store se) symbol timeframe indicator a b)"
proof -
  have "session_ok se" by (rule session_reachable_ok [OF assms(1)])
  note r = session_kline_reads [OF this] session_scalar_reads [OF this] session_predicate_query [OF this]
  show ?thesis
    by (simp add: r assms(2) view_get_kline_range_def view_get_indicator_range_def get_indicator_range_def on_session_def on_store_def)
qed

theorem session_reads_agree_witness:
  "\<exists>E st se. session_reachable E st se \<and> rs_attached_kline se \<noteq> []
    \<and> session_get_kline_range E se ''BTC'' ''1m'' (I64 15) (I64 30)
      = on_store se (get_kline_range E (rs_store se) ''BTC'' ''1m'' (I64 15) (I64 30))"
proof -
  fix E
  obtain st meta where l: "load_kline_meta E st ''BTC'' ''1m'' = (st, Inr meta)" using sample_kline_store by metis
  define se where "se = fst (attach_kline_series E (read_session st) ''BTC'' ''1m'')"
  have s: "session_reachable E st se"
    unfolding session_reachable_def se_def by (rule r_into_rtranclp, rule step_attach_kline)
  have "rs_attached_kline se \<noteq> []"
    by (simp add: se_def attach_kline_series_def read_session_def build_kline_attachment_def l on_store_def)
  moreover have "bv_session (view_new st\<lparr>bv_session := se\<rparr>) = se" by simp
  note r = session_reads_agree [OF s this, where symbol = "''BTC''" and timeframe = "''1m''" and a = "I64 15" and b = "I64 30"]
  ultimately show ?thesis using s r by blast
qed

text \<open>
  C38. A manifest rebuilt from the chunk files of a series is valid, lists only chunks that are
  there, in order and without overlap, and loses no covered timestamp: the span of every chunk file
  is covered by a listed chunk.
\<close>

theorem rebuild_manifest_sound:
  assumes "rebuild_manifest_preview E disk dir = Inr meta"
    and "scan_chunk_files E (ms_fs disk) dir = Inr cs" and "\<forall>c \<in> set cs. cm_count c > 0"
    and "\<And>entries. e_read_dir E (ms_fs disk) (chunks_dir dir) = Inr entries \<Longrightarrow> distinct (map fst entries)"
  shows "series_meta_validate meta = Inr () \<and> set (sm_chunks meta) \<subseteq> set cs \<and> spans_ordered (sm_chunks meta)
    \<and> (\<forall>c \<in> set cs. \<exists>d \<in> set (sm_chunks meta). covers d c)"
proof -
  have s: "select_non_overlapping_chunks cs = Inr (sm_chunks meta)" "series_meta_validate meta = Inr ()"
    using rebuild_chunks [OF assms(1)] assms(2) by (metis sum.inject(2))+
  note f = scan_chunk_files_facts [OF assms(2,4)]
  have "\<forall>c \<in> set cs. cm_start_ts c \<le> cm_end_ts c" using f(2) assms(3) by blast
  from select_non_overlapping [OF s(1) f(1) this scan_sorted [OF assms(2)]] s(2) show ?thesis by blast
qed

theorem rebuild_manifest_sound_witness:
  "\<exists>E disk dir meta cs. rebuild_manifest_preview E disk dir = Inr meta \<and> scan_chunk_files E (ms_fs disk) dir = Inr cs
    \<and> cs \<noteq> [] \<and> (\<forall>c \<in> set cs. \<exists>d \<in> set (sm_chunks meta). covers d c)"
proof -
  obtain bytes cm meta where r: "rebuild_manifest_preview sample_env (lost_disk bytes) lost_dir = Inr meta"
    and s: "scan_chunk_files sample_env (ms_fs (lost_disk bytes)) lost_dir = Inr [cm]" and c: "cm_count cm > 0"
    by (rule lost_rebuild)
  have "\<forall>c \<in> set [cm]. \<exists>d \<in> set (sm_chunks meta). covers d c"
    using rebuild_manifest_sound [OF r s] c by (simp add: sample_env_def)
  with r s show ?thesis by blast
qed

text \<open>
  C39. The repair of a series with a sound manifest leaves the disk as the load left it, or saves a
  manifest whose chunks do not overlap and are in order. Every chunk of the manifest before (with
  interrupted merges settled) is still listed or covered by a listed chunk of a higher generation,
  and every new chunk is a chunk file of the series.
\<close>

theorem recover_series_sound:
  assumes "recover_series_dir E False dir disk report = (disk', Inr report')"
    and "scan_chunk_files E (ms_fs disk) dir = Inr candidates" "candidates \<noteq> []"
    and "load_disk E disk dir False = (disk1, Inr meta)"
    and "\<forall>c \<in> set candidates. cm_start_ts c \<le> cm_end_ts c" "disjoint_spans (sm_chunks meta)"
  shows "disk' = disk1 \<or>
    (\<exists>settled ch meta'. normalize_dangling_merging_states meta = (settled, ch) \<and> save_disk E disk1 dir meta' = (disk', Inr ())
      \<and> disjoint_spans (sm_chunks meta') \<and> spans_ordered (sm_chunks meta')
      \<and> (\<forall>c \<in> set (sm_chunks settled). superseded (sm_chunks meta') c)
      \<and> set (sm_chunks meta') \<subseteq> set (sm_chunks settled) \<union> set candidates)"
  by (rule recover_series_saved [OF assms]) blast+

theorem recover_series_sound_witness:
  "\<exists>E disk disk' disk1 report meta. recover_series_dir E False lost_dir disk recovery_report_default = (disk', Inr report)
    \<and> load_disk E disk lost_dir False = (disk1, Inr meta)
    \<and> (disk' = disk1 \<or> (\<exists>meta'. save_disk E disk1 lost_dir meta' = (disk', Inr ()) \<and> spans_ordered (sm_chunks meta')))"
proof -
  obtain bytes meta cm where r: "recover_series_dir sample_env False lost_dir (kept_disk bytes [] meta) recovery_report_default
      = (kept_disk bytes [] meta, Inr recovery_report_default)"
    and s: "scan_chunk_files sample_env (ms_fs (kept_disk bytes [] meta)) lost_dir = Inr [cm]"
    and c: "cm_start_ts cm \<le> cm_end_ts cm" "sm_chunks meta = [cm]"
    by (rule kept_recover)
  have "disjoint_spans (sm_chunks meta)" using c by (simp add: disjoint_spans_def)
  then show ?thesis using recover_series_sound [OF r s _ kept_load] r kept_load c by fastforce
qed

text \<open>
  C40. Startup recovery ends on every directory tree that is no deeper than the bound of the walks, as any
  listings show it that report the directories of the disk: they are walked twice, before and after
  the temporary files are removed. A dry run leaves the disk as it is, and a recovery that reports
  success has removed the marker of the interrupted mutation. \<open>removals_ok\<close> says that removing a file
  that is there does not fail with \<open>NotFound\<close>, \<open>fs_tree\<close> that what lies above a directory are directories
  and that no directory is a file.
\<close>

theorem startup_recovery:
  assumes "\<forall>s. fs_dirs s = fs_dirs (ms_fs disk) \<longrightarrow> shallow depth E s root \<and> shallow depth E s (series_root root)"
    and "removals_ok E" and "fs_tree (ms_fs disk)" and "fs_exists (ms_fs disk) root"
  shows "\<exists>disk' r. startup_recover_locked depth E dry_run root disk = Some (disk', r)
    \<and> (dry_run \<longrightarrow> disk' = disk)
    \<and> (\<not> dry_run \<longrightarrow> (\<forall>report. r = Inr report \<longrightarrow> \<not> has_pending_recovery (ms_fs disk') root))"
proof -
  obtain disk' r where s: "startup_recover_locked depth E dry_run root disk = Some (disk', r)"
    by (rule startup_recover_total [OF assms(1)])
  moreover have "disk' = disk" if dry_run using s startup_recover_dry [of depth E root disk disk' r] that by simp
  moreover have "\<not> has_pending_recovery (ms_fs disk') root" if "\<not> dry_run" "r = Inr report" for report
    using startup_recover_clears [of depth E root disk disk' report] s that assms(2-4) by simp
  ultimately show ?thesis by blast
qed

theorem startup_recovery_witness:
  "has_pending_recovery (ms_fs interrupted_disk) sample_root
    \<and> (\<exists>disk' report. startup_recover_locked seal_depth marked_env False sample_root interrupted_disk = Some (disk', Inr report)
      \<and> \<not> has_pending_recovery (ms_fs disk') sample_root)"
proof
  show "has_pending_recovery (ms_fs interrupted_disk) sample_root"
    by (simp add: has_pending_recovery_def fs_exists_def interrupted_disk_def)
  obtain disk' report where r: "startup_recover_locked seal_depth marked_env False sample_root interrupted_disk = Some (disk', Inr report)"
    by (rule interrupted_recovers)
  have depth: "\<forall>s. fs_dirs s = fs_dirs (ms_fs interrupted_disk) \<longrightarrow>
      shallow seal_depth marked_env s sample_root \<and> shallow seal_depth marked_env s (series_root sample_root)"
    by (intro allI impI conjI marked_shallow) (simp_all add: interrupted_disk_def)
  have "removals_ok marked_env" by (simp add: removals_ok_def marked_env_def sample_env_def os_ok_def)
  moreover have "fs_exists (ms_fs interrupted_disk) sample_root" using sd_dirs(1) by (simp add: fs_exists_def interrupted_disk_def)
  ultimately show "\<exists>disk' report. startup_recover_locked seal_depth marked_env False sample_root interrupted_disk = Some (disk', Inr report)
      \<and> \<not> has_pending_recovery (ms_fs disk') sample_root"
    using startup_recovery [OF depth _ interrupted_tree, of False] r by auto
qed

end
